(* ===== verification/Prelude.thy ===== *)
theory Prelude
  imports Main "HOL-Library.AList" "HOL-Library.Multiset" "HOL-Library.Char_ord"
    "HOL-Library.List_Lexorder" "HOL-Library.Product_Lexorder" "HOL-Library.Sublist"
begin

text \<open>
  Shared vocabulary of the development: Python dictionaries as insertion-ordered association
  lists, the string primitives the sources use, results that may be errors, and the generic
  facts the component theories share.

  Strings.  A Python \<open>str\<close> is a sequence of code points.  It is modelled by \<^typ>\<open>string\<close>
  with one \<^typ>\<open>char\<close> per code point, so the strings of the model are those over the code
  points 0 to 255; the identifier grammars of the program are ASCII, so nothing the
  properties speak about depends on larger code points.
\<close>

named_theorems dict_simps "lookup and key laws of Python dictionaries"
named_theorems py_simps "evaluation of the Python string primitives"

section \<open>Dictionaries\<close>

text \<open>
  A Python dictionary keeps insertion order; assigning an existing key keeps its place.
  That is \<^const>\<open>AList.update\<close>; reading is \<^const>\<open>map_of\<close>.
\<close>

type_synonym ('k, 'v) dict = "('k \<times> 'v) list"

abbreviation dict_put :: "'k \<Rightarrow> 'v \<Rightarrow> ('k, 'v) dict \<Rightarrow> ('k, 'v) dict" where
  "dict_put \<equiv> AList.update"

abbreviation dict_keys :: "('k, 'v) dict \<Rightarrow> 'k list" where
  "dict_keys d \<equiv> map fst d"

text \<open>\<open>d.get(k, default)\<close>.\<close>

definition dict_get :: "('k, 'v) dict \<Rightarrow> 'v \<Rightarrow> 'k \<Rightarrow> 'v" where
  "dict_get d dflt k = (case map_of d k of None \<Rightarrow> dflt | Some v \<Rightarrow> v)"

text \<open>A dictionary display or comprehension: later entries overwrite earlier ones.\<close>

definition dict_of :: "('k \<times> 'v) list \<Rightarrow> ('k, 'v) dict" where
  "dict_of kvs = fold (\<lambda>(k, v). dict_put k v) kvs []"

text \<open>\<open>d.setdefault(k, v)\<close>, the dictionary afterwards.\<close>

definition dict_setdefault :: "'k \<Rightarrow> 'v \<Rightarrow> ('k, 'v) dict \<Rightarrow> ('k, 'v) dict" where
  "dict_setdefault k v d = (case map_of d k of None \<Rightarrow> dict_put k v d | Some _ \<Rightarrow> d)"

text \<open>\<open>d.setdefault(k, []).append(x)\<close>.\<close>

definition dict_append :: "'k \<Rightarrow> 'v \<Rightarrow> ('k, 'v list) dict \<Rightarrow> ('k, 'v list) dict" where
  "dict_append k x d = dict_put k (dict_get d [] k @ [x]) d"

lemma dict_get_put [dict_simps]:
  "dict_get (dict_put k v d) dflt k' = (if k' = k then v else dict_get d dflt k')"
  by (simp add: dict_get_def update_conv)

lemma dict_get_Nil [simp]: "dict_get [] dflt k = dflt"
  by (simp add: dict_get_def)

lemma dict_keys_put [dict_simps]: "fst ` set (dict_put k v d) = insert k (fst ` set d)"
  by (simp add: dom_update)

lemma dict_keys_put_mem: "k \<in> set (dict_keys d) \<Longrightarrow> dict_keys (dict_put k v d) = dict_keys d"
  by (simp add: update_keys)

lemma distinct_dict_put [intro]: "distinct (dict_keys d) \<Longrightarrow> distinct (dict_keys (dict_put k v d))"
  by (rule distinct_update)

lemma dict_get_append [dict_simps]:
  "dict_get (dict_append k x d) [] k' = (if k' = k then dict_get d [] k @ [x] else dict_get d [] k')"
  by (simp add: dict_append_def dict_simps)

lemma dict_of_snoc: "dict_of (kvs @ [(k, v)]) = dict_put k v (dict_of kvs)"
  by (simp add: dict_of_def)

lemma map_of_dict_of: "map_of (dict_of kvs) = map_of (rev kvs)"
proof (induction kvs rule: rev_induct)
  case Nil
  then show ?case by (simp add: dict_of_def)
next
  case (snoc kv kvs)
  then show ?case by (cases kv) (simp add: dict_of_snoc update_conv)
qed

lemma dict_keys_of [dict_simps]: "fst ` set (dict_of kvs) = fst ` set kvs"
proof (induction kvs rule: rev_induct)
  case Nil
  then show ?case by (simp add: dict_of_def)
next
  case (snoc kv kvs)
  then show ?case by (cases kv) (simp add: dict_of_snoc dom_update)
qed

lemma distinct_dict_of: "distinct (dict_keys (dict_of kvs))"
proof (induction kvs rule: rev_induct)
  case Nil
  then show ?case by (simp add: dict_of_def)
next
  case (snoc kv kvs)
  then show ?case by (cases kv) (auto simp: dict_of_snoc intro: distinct_update)
qed

lemma dict_put_new: "k \<notin> set (dict_keys d) \<Longrightarrow> dict_put k v d = d @ [(k, v)]"
  by (induction d) auto

text \<open>With distinct keys a dictionary display is the list of its entries, in order.\<close>

lemma dict_of_distinct: "distinct (map fst kvs) \<Longrightarrow> dict_of kvs = kvs"
proof (induction kvs rule: rev_induct)
  case Nil
  then show ?case by (simp add: dict_of_def)
next
  case (snoc kv kvs)
  then show ?case by (cases kv) (simp add: dict_of_snoc dict_put_new)
qed

lemma dict_mem_iff:
  assumes "distinct (dict_keys d)"
  shows "(k, v) \<in> set d \<longleftrightarrow> k \<in> fst ` set d \<and> dict_get d dflt k = v"
proof -
  have "(k, v) \<in> set d \<longleftrightarrow> map_of d k = Some v" using assms by simp
  also have "\<dots> \<longleftrightarrow> k \<in> fst ` set d \<and> dict_get d dflt k = v"
    by (cases "map_of d k") (auto simp: dict_get_def map_of_eq_None_iff dest: map_of_SomeD intro: rev_image_eqI)
  finally show ?thesis .
qed

lemma map_of_map_key: "map_of (map (\<lambda>x. (x, f x)) xs) k = (if k \<in> set xs then Some (f k) else None)"
  by (induction xs) auto

section \<open>Strings\<close>

definition ord :: "char \<Rightarrow> nat" where
  "ord c = of_char c"

definition is_upper :: "char \<Rightarrow> bool" where
  "is_upper c \<longleftrightarrow> 65 \<le> ord c \<and> ord c \<le> 90"

definition is_lower :: "char \<Rightarrow> bool" where
  "is_lower c \<longleftrightarrow> 97 \<le> ord c \<and> ord c \<le> 122"

definition is_digit :: "char \<Rightarrow> bool" where
  "is_digit c \<longleftrightarrow> 48 \<le> ord c \<and> ord c \<le> 57"

definition is_alnum :: "char \<Rightarrow> bool" where
  "is_alnum c \<longleftrightarrow> is_upper c \<or> is_lower c \<or> is_digit c"

text \<open>\<open>str.isspace\<close> on one code point below 256, the set \<open>str.strip\<close> removes.\<close>

definition py_space :: "char \<Rightarrow> bool" where
  "py_space c \<longleftrightarrow> (9 \<le> ord c \<and> ord c \<le> 13) \<or> (28 \<le> ord c \<and> ord c \<le> 32) \<or> ord c = 133 \<or> ord c = 160"

text \<open>\<open>not s.strip()\<close>.\<close>

definition blank :: "string \<Rightarrow> bool" where
  "blank s \<longleftrightarrow> list_all py_space s"

text \<open>\<open>s.strip()\<close>.\<close>

definition py_strip :: "string \<Rightarrow> string" where
  "py_strip s = rev (dropWhile py_space (rev (dropWhile py_space s)))"

lemma blank_iff_strip: "blank s \<longleftrightarrow> py_strip s = []"
proof -
  have "py_strip s = [] \<longleftrightarrow> (\<forall>c \<in> set (dropWhile py_space s). py_space c)"
    by (simp add: py_strip_def dropWhile_eq_Nil_conv)
  also have "\<dots> \<longleftrightarrow> dropWhile py_space s = []"
    by (metis dropWhile_eq_Nil_conv hd_dropWhile list.set_sel(1) in_set_conv_decomp list.distinct(1) append_is_Nil_conv)
  finally show ?thesis by (simp add: blank_def list_all_iff dropWhile_eq_Nil_conv)
qed

text \<open>\<open>sep.join(xs)\<close>.\<close>

fun join :: "string \<Rightarrow> string list \<Rightarrow> string" where
  "join sep [] = []"
| "join sep [x] = x"
| "join sep (x # y # ys) = x @ sep @ join sep (y # ys)"

text \<open>\<open>str(n)\<close> for a natural number.\<close>

fun show_nat :: "nat \<Rightarrow> string" where
  "show_nat n = (if n < 10 then [char_of (48 + n)]
                 else show_nat (n div 10) @ [char_of (48 + n mod 10)])"

declare show_nat.simps [simp del]

text \<open>\<open>sorted(s)\<close> of a set of strings given by a list of its elements.\<close>

definition sorted_set :: "'a::linorder list \<Rightarrow> 'a list" where
  "sorted_set xs = sort (remdups xs)"

lemma set_sorted_set [simp]: "set (sorted_set xs) = set xs"
  by (simp add: sorted_set_def)

lemma sorted_set_Nil_iff [simp]: "sorted_set xs = [] \<longleftrightarrow> xs = []"
  by (metis set_sorted_set set_empty)

lemma distinct_sorted_set [simp]: "distinct (sorted_set xs)"
  by (simp add: sorted_set_def)

section \<open>Generic facts\<close>

lemma concat_map_Nil_iff [simp]: "concat (map f xs) = [] \<longleftrightarrow> (\<forall>x \<in> set xs. f x = [])"
  by auto

lemma filter_Nil_iff: "filter P xs = [] \<longleftrightarrow> (\<forall>x \<in> set xs. \<not> P x)"
  by (auto simp: filter_empty_conv)

lemma distinct_map_inj: "distinct (map f xs) \<Longrightarrow> x \<in> set xs \<Longrightarrow> y \<in> set xs \<Longrightarrow> f x = f y \<Longrightarrow> x = y"
  by (auto simp: distinct_map dest: inj_onD)

end
