(* ===== verification/Models.thy ===== *)
theory Models
  imports Prelude
begin

text \<open>
  The schemas of \<^verbatim>\<open>models.py\<close>: tasks and task lists, patches, decisions, attention items, the
  project state, the on-disk cursors, and the supervision records, each with the checks its
  \<open>model_validator\<close> makes.  A validator returns \<open>Inl\<close> the message of the \<open>ValueError\<close> it
  raises, or \<open>Inr\<close> the value.
\<close>

section \<open>Identifier conventions\<close>

text \<open>\<open>ASSERTION_ID_REGEX.fullmatch\<close>: an upper-case letter and at least one more character.\<close>

definition assertion_id_ok :: "string \<Rightarrow> bool" where
  "assertion_id_ok s = (case s of
     c # d # rest \<Rightarrow> is_upper c \<and> list_all (\<lambda>x. is_upper x \<or> is_digit x \<or> x = CHR ''-'') (d # rest)
   | _ \<Rightarrow> False)"

text \<open>\<open>TASK_ID_REGEX.fullmatch\<close>.\<close>

definition task_id_ok :: "string \<Rightarrow> bool" where
  "task_id_ok s = (case s of
     c # rest \<Rightarrow> (is_upper c \<or> is_lower c)
       \<and> list_all (\<lambda>x. is_alnum x \<or> x = CHR ''_'' \<or> x = CHR ''-'') rest
   | [] \<Rightarrow> False)"

text \<open>\<open>re.fullmatch(r"[A-Za-z0-9][A-Za-z0-9._:-]*", value)\<close>, the identity grammar of supervision.\<close>

definition identity_ok :: "string \<Rightarrow> bool" where
  "identity_ok s = (case s of
     c # rest \<Rightarrow> is_alnum c
       \<and> list_all (\<lambda>x. is_alnum x \<or> x \<in> {CHR ''.'', CHR ''_'', CHR '':'', CHR ''-''}) rest
   | [] \<Rightarrow> False)"

text \<open>\<open>re.fullmatch(r"[0-9a-f]{64}", value)\<close>.\<close>

definition sha256_hex_ok :: "string \<Rightarrow> bool" where
  "sha256_hex_ok s \<longleftrightarrow> length s = 64 \<and> list_all (\<lambda>c. is_digit c \<or> (97 \<le> ord c \<and> ord c \<le> 102)) s"

section \<open>Tasks\<close>

datatype task_type = Work | Validate | Gate

datatype task_status = Pending | Running | Cleared | Failed | Superseded

datatype assertion_status = APending | APassed | AFailed

fun task_type_str :: "task_type \<Rightarrow> string" where
  "task_type_str Work = ''work''"
| "task_type_str Validate = ''validate''"
| "task_type_str Gate = ''gate''"

fun task_status_str :: "task_status \<Rightarrow> string" where
  "task_status_str Pending = ''pending''"
| "task_status_str Running = ''running''"
| "task_status_str Cleared = ''cleared''"
| "task_status_str Failed = ''failed''"
| "task_status_str Superseded = ''superseded''"

record task =
  t_id :: string
  t_type :: task_type
  t_body :: string
  t_targets :: "string list"
  t_skill :: "string option"
  t_auto_merge :: bool
  t_depends_on :: "string list"

text \<open>A \<open>TaskList\<close> is its list of tasks, in authored order.\<close>

type_synonym task_list = "task list"

abbreviation task_ids :: "task_list \<Rightarrow> string list" where
  "task_ids tks \<equiv> map t_id tks"

text \<open>\<open>{t.id: t for t in tl.tasks}\<close>.\<close>

definition by_id :: "task_list \<Rightarrow> (string, task) dict" where
  "by_id tks = dict_of (map (\<lambda>t. (t_id t, t)) tks)"

lemma by_id_keys [dict_simps]: "fst ` set (by_id tks) = t_id ` set tks"
  by (simp add: by_id_def dict_simps image_image)

lemma by_id_eq: "distinct (task_ids tks) \<Longrightarrow> by_id tks = map (\<lambda>t. (t_id t, t)) tks"
  by (simp add: by_id_def dict_of_distinct comp_def)

lemma by_id_Some: "map_of (by_id tks) i = Some t \<Longrightarrow> t \<in> set tks \<and> t_id t = i"
  by (auto simp: by_id_def map_of_dict_of dest!: map_of_SomeD)

lemma by_id_lookup: "distinct (task_ids tks) \<Longrightarrow> t \<in> set tks \<Longrightarrow> map_of (by_id tks) (t_id t) = Some t"
  by (auto simp: by_id_eq comp_def intro!: map_of_is_SomeI)

lemma by_id_None: "map_of (by_id tks) i = None \<longleftrightarrow> i \<notin> t_id ` set tks"
  by (simp add: map_of_eq_None_iff dict_simps)

section \<open>Patches and decisions\<close>

record task_list_patch =
  p_add_items :: "string list"
  p_add :: "task list"
  p_supersede :: "(string, string) dict"
  p_cancel :: "string list"

definition is_empty_patch :: "task_list_patch \<Rightarrow> bool" where
  "is_empty_patch p \<longleftrightarrow> \<not> (p_add_items p \<noteq> [] \<or> p_add p \<noteq> [] \<or> p_supersede p \<noteq> [] \<or> p_cancel p \<noteq> [])"

datatype action_name = Continue | Patch | Retry | Next_mission | Abort

record decision =
  d_item_id :: string
  d_action :: action_name
  d_patch :: "task_list_patch option"
  d_justification :: string

section \<open>Attention items\<close>

datatype attention_kind = Node_failed | Node_attention | Gate_failed | Gate_checkpoint | Terminal_review

record attention_item =
  a_id :: string
  a_report :: string
  a_kind :: attention_kind
  a_mission_id :: string
  a_node_id :: "string option"
  a_attempt_id :: "string option"
  a_terminal_review_id :: "string option"

definition present :: "string option \<Rightarrow> bool" where
  "present v = (case v of None \<Rightarrow> False | Some s \<Rightarrow> \<not> blank s)"

text \<open>\<open>AttentionItem._closed_kind_identity\<close>.\<close>

definition check_attention_item :: "attention_item \<Rightarrow> string + attention_item" where
  "check_attention_item it =
    (if a_kind it \<in> {Node_failed, Node_attention} then
       (if \<not> present (a_node_id it) \<or> a_terminal_review_id it \<noteq> None
        then Inl ''invalid node attention identity''
        else if a_attempt_id it \<noteq> None \<and> \<not> present (a_attempt_id it)
        then Inl ''invalid node attention identity''
        else Inr it)
     else if a_kind it \<in> {Gate_failed, Gate_checkpoint} then
       (if \<not> present (a_node_id it) \<or> a_attempt_id it \<noteq> None \<or> a_terminal_review_id it \<noteq> None
        then Inl ''invalid gate attention identity'' else Inr it)
     else if \<not> present (a_terminal_review_id it) \<or> a_node_id it \<noteq> None \<or> a_attempt_id it \<noteq> None
     then Inl ''invalid terminal-review attention identity''
     else Inr it)"

section \<open>Project state\<close>

datatype project_state =
    Draft
  | MissionPlanning string
  | MissionRunning string
  | AttentionNeeded "attention_item list"
  | Done
  | ProjectFailed string
  | Aborted string

datatype next_action = Abort_project | Submit_plan | Advance_project | Decide_attention | End_mission | No_action

section \<open>Worker-side handoffs\<close>

record validation_item =
  v_item_id :: string
  v_passed :: bool

datatype handoff =
    WorkHandoff (h_node_id: string) (h_attempt_id: "string option") (h_done: bool) (h_report: string)
      (h_request_attention: bool)
  | ValidateHandoff (h_node_id: string) (h_attempt_id: "string option") (h_done: bool) (h_report: string)
      (h_items: "validation_item list") (h_passed: bool) (h_request_attention: bool)

fun is_validate_handoff :: "handoff \<Rightarrow> bool" where
  "is_validate_handoff (ValidateHandoff _ _ _ _ _ _ _) = True"
| "is_validate_handoff (WorkHandoff _ _ _ _ _) = False"

text \<open>\<open>handoff.model_copy(update={"attempt_id": a})\<close>.\<close>

fun with_attempt_id :: "string option \<Rightarrow> handoff \<Rightarrow> handoff" where
  "with_attempt_id a (WorkHandoff n _ d r q) = WorkHandoff n a d r q"
| "with_attempt_id a (ValidateHandoff n _ d r is p q) = ValidateHandoff n a d r is p q"

lemma with_attempt_id_simps [simp]:
  "h_attempt_id (with_attempt_id a h) = a"
  "h_node_id (with_attempt_id a h) = h_node_id h"
  "h_done (with_attempt_id a h) = h_done h"
  "h_report (with_attempt_id a h) = h_report h"
  "h_request_attention (with_attempt_id a h) = h_request_attention h"
  "is_validate_handoff (with_attempt_id a h) = is_validate_handoff h"
  "is_validate_handoff h \<Longrightarrow> h_items (with_attempt_id a h) = h_items h"
  "is_validate_handoff h \<Longrightarrow> h_passed (with_attempt_id a h) = h_passed h"
  by (cases h; simp)+

record terminal_review_handoff =
  tr_done :: bool
  tr_report :: string

section \<open>On-disk cursors\<close>

record task_state_entry =
  e_status :: task_status
  e_last_attempt :: "string option"

definition new_entry :: task_state_entry where
  "new_entry = \<lparr>e_status = Pending, e_last_attempt = None\<rparr>"

type_synonym task_state = "(string, task_state_entry) dict"

definition status_of :: "task_state \<Rightarrow> string \<Rightarrow> task_status" where
  "status_of ts i = (case map_of ts i of Some e \<Rightarrow> e_status e | None \<Rightarrow> Pending)"

definition set_status :: "string \<Rightarrow> task_status \<Rightarrow> task_state \<Rightarrow> task_state" where
  "set_status i st ts = dict_put i ((dict_get ts new_entry i)\<lparr>e_status := st\<rparr>) ts"

definition last_attempt_of :: "task_state \<Rightarrow> string \<Rightarrow> string option" where
  "last_attempt_of ts i = (case map_of ts i of Some e \<Rightarrow> e_last_attempt e | None \<Rightarrow> None)"

definition set_last_attempt :: "string \<Rightarrow> string \<Rightarrow> task_state \<Rightarrow> task_state" where
  "set_last_attempt i spawn_ts ts = dict_put i ((dict_get ts new_entry i)\<lparr>e_last_attempt := Some spawn_ts\<rparr>) ts"

type_synonym contract_state = "(string, assertion_status) dict"

definition assertion_status_of :: "contract_state \<Rightarrow> string \<Rightarrow> assertion_status option" where
  "assertion_status_of cs a = map_of cs a"

record project_record =
  pr_id :: string
  pr_current_mission_id :: "string option"

section \<open>Cursor interface\<close>

text \<open>
  What the rest of the runtime relies on when it writes a cursor: reading back the written id,
  and nothing else moving.  The lemmas lift the two laws to the loops that write many ids.
\<close>

locale cursor =
  fixes get :: "'s \<Rightarrow> 'k \<Rightarrow> 'v" and put :: "'k \<Rightarrow> 'v \<Rightarrow> 's \<Rightarrow> 's"
  assumes get_put_same: "get (put k v s) k = v"
    and get_put_other: "k' \<noteq> k \<Longrightarrow> get (put k v s) k' = get s k'"
begin

lemma get_put: "get (put k v s) k' = (if k' = k then v else get s k')"
  by (simp add: get_put_same get_put_other)

lemma get_fold: "get (fold (\<lambda>k. put k v) ks s) k' = (if k' \<in> set ks then v else get s k')"
  by (induction ks arbitrary: s) (auto simp: get_put)

lemma get_fold_map: "get (fold (\<lambda>x. put (f x) v) xs s) k' = (if k' \<in> f ` set xs then v else get s k')"
  by (induction xs arbitrary: s) (auto simp: get_put)

end

interpretation status: cursor status_of set_status
  by unfold_locales (auto simp: status_of_def set_status_def update_conv)

interpretation verdict: cursor "\<lambda>cs a. dict_get cs APending a" dict_put
  by unfold_locales (auto simp: dict_simps)

lemma status_of_set_last_attempt [simp]: "status_of (set_last_attempt i a ts) j = status_of ts j"
  by (auto simp: status_of_def set_last_attempt_def update_conv dict_get_def new_entry_def split: option.splits)

lemma last_attempt_of_set_status [simp]: "last_attempt_of (set_status i st ts) j = last_attempt_of ts j"
  by (auto simp: last_attempt_of_def set_status_def update_conv dict_get_def new_entry_def split: option.splits)

lemma last_attempt_of_set [simp]:
  "last_attempt_of (set_last_attempt i a ts) j = (if j = i then Some a else last_attempt_of ts j)"
  by (simp add: last_attempt_of_def set_last_attempt_def update_conv)

lemma last_attempt_of_fold_set_status [simp]:
  "last_attempt_of (fold (\<lambda>x. set_status (f x) st) xs ts) j = last_attempt_of ts j"
  by (induction xs arbitrary: ts) auto

lemma status_of_Nil [simp]: "status_of [] i = Pending"
  by (simp add: status_of_def)

lemmas status_simps = status.get_put status.get_fold status.get_fold_map

end
