(* ===== verification/Worklist.thy ===== *)
theory Worklist
  imports Prelude
begin

text \<open>
  The graph traversals of the program.  Every component that walks the task graph does it with
  the same loop: a Python list used as a stack (\<open>stack.pop()\<close> takes the last entry,
  \<open>stack.extend(xs)\<close> appends), a set of visited ids, and an adjacency dictionary.  The stack is
  kept here with its top first, so \<open>extend(xs)\<close> is \<^term>\<open>\<lambda>st. rev xs @ st\<close>.

  \<open>dfs_collect\<close> is the loop that gathers what it visits (skipping ids that are not keys of the
  adjacency dictionary), \<open>dfs_find\<close> the loop that stops at the first hit.  Both are characterised
  by reachability.
\<close>

type_synonym 'a graph = "('a, 'a list) dict"

definition succs :: "'a graph \<Rightarrow> 'a \<Rightarrow> 'a list" where
  "succs g x = dict_get g [] x"

definition arcs :: "'a graph \<Rightarrow> ('a \<times> 'a) set" where
  "arcs g = {(x, y). y \<in> set (succs g x)}"

definition reach :: "'a graph \<Rightarrow> 'a set \<Rightarrow> 'a set" where
  "reach g S = (arcs g)\<^sup>* `` S"

lemma arcs_iff: "(x, y) \<in> arcs g \<longleftrightarrow> y \<in> set (succs g x)"
  by (simp add: arcs_def)

lemma succs_not_key: "x \<notin> fst ` set g \<Longrightarrow> succs g x = []"
  by (auto simp: succs_def dict_get_def split: option.splits dest: map_of_SomeD)
    (metis fst_conv image_eqI map_of_SomeD)

lemma reach_mono: "S \<subseteq> T \<Longrightarrow> reach g S \<subseteq> reach g T"
  by (auto simp: reach_def)

lemma reach_Un: "reach g (S \<union> T) = reach g S \<union> reach g T"
  by (auto simp: reach_def)

lemma reach_empty [simp]: "reach g {} = {}"
  by (simp add: reach_def)

lemma reach_insert: "reach g (insert x S) = reach g {x} \<union> reach g S"
  by (auto simp: reach_def)

lemma reach_start: "x \<in> S \<Longrightarrow> x \<in> reach g S"
  by (auto simp: reach_def)

lemma reach_succs: "reach g (set (succs g x)) \<subseteq> reach g {x}"
  by (auto simp: reach_def arcs_iff intro: converse_rtrancl_into_rtrancl)

lemma reach_step: "y \<in> reach g S \<Longrightarrow> z \<in> set (succs g y) \<Longrightarrow> z \<in> reach g S"
  by (auto simp: reach_def arcs_iff[symmetric] intro: rtrancl_into_rtrancl)

lemma reach_closed: "(\<And>x y. x \<in> C \<Longrightarrow> y \<in> set (succs g x) \<Longrightarrow> y \<in> C) \<Longrightarrow> S \<subseteq> C \<Longrightarrow> reach g S \<subseteq> C"
proof
  fix y assume step: "\<And>x y. x \<in> C \<Longrightarrow> y \<in> set (succs g x) \<Longrightarrow> y \<in> C" and "S \<subseteq> C" and "y \<in> reach g S"
  then obtain x where "x \<in> C" and "(x, y) \<in> (arcs g)\<^sup>*" by (auto simp: reach_def)
  from this(2,1) show "y \<in> C"
    by (induction rule: rtrancl_induct) (auto simp: arcs_iff intro: step)
qed

section \<open>Collecting traversal\<close>

definition unseen :: "'a graph \<Rightarrow> 'a list \<Rightarrow> nat" where
  "unseen g seen = card (fst ` set g - set seen)"

lemma unseen_less:
  assumes "cur \<notin> set seen" "cur \<in> fst ` set g" "set seen' = insert cur (set seen)"
  shows "unseen g seen' < unseen g seen"
  unfolding unseen_def by (rule psubset_card_mono) (use assms in auto)

lemma unseen_same:
  assumes "cur \<notin> fst ` set g" "set seen' = insert cur (set seen)"
  shows "unseen g seen' = unseen g seen"
proof -
  have "fst ` set g - set seen' = fst ` set g - set seen" using assms by auto
  then show ?thesis by (simp add: unseen_def)
qed

function dfs_collect :: "'a graph \<Rightarrow> 'a list \<Rightarrow> 'a list \<Rightarrow> 'a list" where
  "dfs_collect g seen [] = seen"
| "dfs_collect g seen (cur # stack) =
     (if cur \<in> set seen \<or> cur \<notin> fst ` set g then dfs_collect g seen stack
      else dfs_collect g (seen @ [cur]) (rev (succs g cur) @ stack))"
  by pat_completeness auto

termination
  by (relation "measures [\<lambda>(g, seen, stack). unseen g seen, \<lambda>(g, seen, stack). length stack]")
    (auto intro!: unseen_less)

lemma dfs_collect_seen: "set seen \<subseteq> set (dfs_collect g seen stack)"
  by (induction g seen stack rule: dfs_collect.induct) auto

lemma dfs_collect_stack: "set stack \<inter> fst ` set g \<subseteq> set (dfs_collect g seen stack)"
proof (induction g seen stack rule: dfs_collect.induct)
  case (1 g seen)
  then show ?case by simp
next
  case (2 g seen cur stack)
  show ?case
  proof (cases "cur \<in> set seen \<or> cur \<notin> fst ` set g")
    case True
    with 2 dfs_collect_seen[of seen g stack] show ?thesis by auto
  next
    case False
    with 2 dfs_collect_seen[of "seen @ [cur]" g "rev (succs g cur) @ stack"] show ?thesis by auto
  qed
qed

lemma dfs_collect_sound:
  "set (dfs_collect g seen stack) \<subseteq> set seen \<union> (reach g (set stack) \<inter> fst ` set g)"
proof (induction g seen stack rule: dfs_collect.induct)
  case (1 g seen)
  then show ?case by simp
next
  case (2 g seen cur stack)
  have start: "cur \<in> reach g (set (cur # stack))" by (simp add: reach_start)
  have mono: "reach g (set stack) \<subseteq> reach g (set (cur # stack))"
    by (rule reach_mono) auto
  have pushed: "reach g (set (rev (succs g cur) @ stack)) \<subseteq> reach g (set (cur # stack))"
    using reach_succs[of g cur] reach_Un[of g "set (succs g cur)" "set stack"]
      reach_insert[of g cur "set stack"] by auto
  show ?case
  proof (cases "cur \<in> set seen \<or> cur \<notin> fst ` set g")
    case True
    then show ?thesis using "2.IH"(1)[OF True] mono by (simp, blast)
  next
    case False
    then show ?thesis using "2.IH"(2)[OF False] pushed start by (simp, blast)
  qed
qed

definition closed_upto :: "'a graph \<Rightarrow> 'a set \<Rightarrow> 'a set \<Rightarrow> bool" where
  "closed_upto g S T \<longleftrightarrow> (\<forall>x \<in> S. \<forall>y \<in> set (succs g x). y \<in> fst ` set g \<longrightarrow> y \<in> S \<union> T)"

lemma closed_upto_pop: "closed_upto g S (insert c T) \<Longrightarrow> c \<in> S \<or> c \<notin> fst ` set g \<Longrightarrow> closed_upto g S T"
  unfolding closed_upto_def by blast

lemma closed_upto_push:
  "closed_upto g S (insert c T) \<Longrightarrow> closed_upto g (insert c S) (set (succs g c) \<union> T)"
  unfolding closed_upto_def by blast

lemma dfs_collect_closed:
  "closed_upto g (set seen) (set stack) \<Longrightarrow> closed_upto g (set (dfs_collect g seen stack)) {}"
proof (induction g seen stack rule: dfs_collect.induct)
  case (1 g seen)
  then show ?case by simp
next
  case (2 g seen cur stack)
  then have c: "closed_upto g (set seen) (insert cur (set stack))" by simp
  show ?case
  proof (cases "cur \<in> set seen \<or> cur \<notin> fst ` set g")
    case True
    then show ?thesis using "2.IH"(1)[OF True closed_upto_pop[OF c True]] by simp
  next
    case False
    have "closed_upto g (set (seen @ [cur])) (set (rev (succs g cur) @ stack))"
      using closed_upto_push[OF c] by simp
    then show ?thesis using "2.IH"(2)[OF False] False by simp
  qed
qed

text \<open>The collected set is exactly the set of keys reachable from the stack.\<close>

theorem dfs_collect_reach: "set (dfs_collect g [] stack) = reach g (set stack) \<inter> fst ` set g"
proof
  show "set (dfs_collect g [] stack) \<subseteq> reach g (set stack) \<inter> fst ` set g"
    using dfs_collect_sound[of g "[]" stack] by simp
next
  let ?C = "set (dfs_collect g [] stack) \<union> - fst ` set g"
  have "reach g (set stack) \<subseteq> ?C"
  proof (rule reach_closed)
    fix x y assume "x \<in> ?C" "y \<in> set (succs g x)"
    then show "y \<in> ?C"
      using dfs_collect_closed[of g "[]" stack]
      by (cases "x \<in> fst ` set g") (auto simp: succs_not_key closed_upto_def)
  next
    show "set stack \<subseteq> ?C" using dfs_collect_stack[of stack g "[]"] by auto
  qed
  then show "reach g (set stack) \<inter> fst ` set g \<subseteq> set (dfs_collect g [] stack)" by blast
qed

lemma distinct_dfs_collect: "distinct seen \<Longrightarrow> distinct (dfs_collect g seen stack)"
  by (induction g seen stack rule: dfs_collect.induct) auto

section \<open>Searching traversal\<close>

text \<open>\<open>skip\<close> ids are dropped like visited ones; the loop stops at the first id with \<open>hit\<close>.\<close>

function dfs_find :: "('a \<Rightarrow> bool) \<Rightarrow> ('a \<Rightarrow> bool) \<Rightarrow> 'a graph \<Rightarrow> 'a list \<Rightarrow> 'a list \<Rightarrow> bool" where
  "dfs_find hit skip g seen [] = False"
| "dfs_find hit skip g seen (cur # stack) =
     (if cur \<in> set seen \<or> skip cur then dfs_find hit skip g seen stack
      else if hit cur then True
      else dfs_find hit skip g (cur # seen) (rev (succs g cur) @ stack))"
  by pat_completeness auto

termination
proof (relation "measures [\<lambda>(hit, skip, g, seen, stack). unseen g seen,
    \<lambda>(hit, skip, g, seen, stack). length stack]", goal_cases)
  case 1
  then show ?case by simp
next
  case (2 hit skip g seen cur stack)
  then show ?case by simp
next
  case (3 hit skip g seen cur stack)
  show ?case
  proof (cases "cur \<in> fst ` set g")
    case True
    with 3 have "unseen g (cur # seen) < unseen g seen" by (intro unseen_less) auto
    then show ?thesis by simp
  next
    case False
    then have "unseen g (cur # seen) = unseen g seen" by (intro unseen_same) auto
    with False show ?thesis by (simp add: succs_not_key)
  qed
qed

text \<open>The graph the search walks: arcs into ids it does not skip.\<close>

definition live_arcs :: "('a \<Rightarrow> bool) \<Rightarrow> 'a graph \<Rightarrow> ('a \<times> 'a) set" where
  "live_arcs skip g = {(x, y). y \<in> set (succs g x) \<and> \<not> skip y}"

definition live_reach :: "('a \<Rightarrow> bool) \<Rightarrow> 'a graph \<Rightarrow> 'a set \<Rightarrow> 'a set" where
  "live_reach skip g S = (live_arcs skip g)\<^sup>* `` {x \<in> S. \<not> skip x}"

lemma live_reach_no_skip: "live_reach (\<lambda>_. False) g S = reach g S"
  by (simp add: live_reach_def reach_def live_arcs_def arcs_def)

lemma live_reach_push:
  assumes "\<not> skip c" "y \<in> live_reach skip g (set (succs g c) \<union> T)"
  shows "y \<in> live_reach skip g (insert c T)"
proof -
  obtain x where x: "x \<in> set (succs g c) \<union> T" "\<not> skip x" "(x, y) \<in> (live_arcs skip g)\<^sup>*"
    using assms(2) by (auto simp: live_reach_def)
  show ?thesis
  proof (cases "x \<in> T")
    case True
    with x show ?thesis by (auto simp: live_reach_def)
  next
    case False
    with x have "(c, x) \<in> live_arcs skip g" by (auto simp: live_arcs_def)
    with x(3) have "(c, y) \<in> (live_arcs skip g)\<^sup>*" by (rule converse_rtrancl_into_rtrancl[rotated])
    with assms(1) show ?thesis by (auto simp: live_reach_def)
  qed
qed

lemma dfs_find_sound:
  "dfs_find hit skip g seen stack \<Longrightarrow> \<exists>y \<in> live_reach skip g (set stack). hit y"
proof (induction hit skip g seen stack rule: dfs_find.induct)
  case (1 hit skip g seen)
  then show ?case by simp
next
  case (2 hit skip g seen cur stack)
  consider (dropped) "cur \<in> set seen \<or> skip cur"
    | (found) "\<not> (cur \<in> set seen \<or> skip cur)" "hit cur"
    | (pushed) "\<not> (cur \<in> set seen \<or> skip cur)" "\<not> hit cur" by blast
  then show ?case
  proof cases
    case dropped
    with 2 show ?thesis by (auto simp: live_reach_def)
  next
    case found
    then have "cur \<in> live_reach skip g (set (cur # stack))" by (auto simp: live_reach_def)
    with found show ?thesis by blast
  next
    case pushed
    with 2 obtain y where "y \<in> live_reach skip g (set (rev (succs g cur) @ stack))" "hit y"
      by auto
    then have "y \<in> live_reach skip g (set (cur # stack))"
      using live_reach_push[of skip cur y g "set stack"] pushed by simp
    with \<open>hit y\<close> show ?thesis by blast
  qed
qed

definition miss_closed :: "('a \<Rightarrow> bool) \<Rightarrow> ('a \<Rightarrow> bool) \<Rightarrow> 'a graph \<Rightarrow> 'a set \<Rightarrow> 'a set \<Rightarrow> bool" where
  "miss_closed hit skip g S T \<longleftrightarrow>
     (\<forall>x \<in> S. \<not> hit x \<and> (\<forall>y \<in> set (succs g x). \<not> skip y \<longrightarrow> y \<in> S \<union> T))"

lemma miss_closed_pop:
  "miss_closed hit skip g S (insert c T) \<Longrightarrow> c \<in> S \<or> skip c \<Longrightarrow> miss_closed hit skip g S T"
  unfolding miss_closed_def by blast

lemma miss_closed_push:
  "miss_closed hit skip g S (insert c T) \<Longrightarrow> \<not> hit c \<Longrightarrow>
    miss_closed hit skip g (insert c S) (set (succs g c) \<union> T)"
  unfolding miss_closed_def by blast

lemma dfs_find_complete:
  "miss_closed hit skip g (set seen) (set stack) \<Longrightarrow> \<not> dfs_find hit skip g seen stack \<Longrightarrow>
    \<exists>C. set seen \<union> {x \<in> set stack. \<not> skip x} \<subseteq> C \<and> miss_closed hit skip g C {}"
proof (induction hit skip g seen stack rule: dfs_find.induct)
  case (1 hit skip g seen)
  then show ?case by (intro exI[of _ "set seen"]) simp
next
  case (2 hit skip g seen cur stack)
  then have c: "miss_closed hit skip g (set seen) (insert cur (set stack))" by simp
  show ?case
  proof (cases "cur \<in> set seen \<or> skip cur")
    case True
    with "2.prems" have "\<not> dfs_find hit skip g seen stack" by simp
    from "2.IH"(1)[OF True miss_closed_pop[OF c True] this] show ?thesis using True by auto
  next
    case False
    with "2.prems" have nhit: "\<not> hit cur" and nf: "\<not> dfs_find hit skip g (cur # seen) (rev (succs g cur) @ stack)"
      by (simp_all split: if_splits)
    have "miss_closed hit skip g (set (cur # seen)) (set (rev (succs g cur) @ stack))"
      using miss_closed_push[OF c nhit] by simp
    from "2.IH"(2)[OF False nhit this nf] show ?thesis by auto
  qed
qed

text \<open>The search succeeds exactly when some reachable id is a hit.\<close>

theorem dfs_find_iff:
  "dfs_find hit skip g [] stack \<longleftrightarrow> (\<exists>y \<in> live_reach skip g (set stack). hit y)"
proof
  assume "\<exists>y \<in> live_reach skip g (set stack). hit y"
  then obtain x y where xy: "x \<in> set stack" "\<not> skip x" "(x, y) \<in> (live_arcs skip g)\<^sup>*" "hit y"
    by (auto simp: live_reach_def)
  show "dfs_find hit skip g [] stack"
  proof (rule ccontr)
    assume "\<not> dfs_find hit skip g [] stack"
    then obtain C where C: "{x \<in> set stack. \<not> skip x} \<subseteq> C" "miss_closed hit skip g C {}"
      using dfs_find_complete[of hit skip g "[]" stack] by (auto simp: miss_closed_def)
    from xy(3) have "y \<in> C"
    proof (induction rule: rtrancl_induct)
      case base
      show ?case using C xy by blast
    next
      case (step y z)
      then show ?case using C by (auto simp: live_arcs_def miss_closed_def)
    qed
    with C xy show False by (auto simp: miss_closed_def)
  qed
qed (rule dfs_find_sound)

section \<open>Breadth-first collection\<close>

text \<open>
  The same loop with a FIFO (\<open>pending.pop(0)\<close>), gathering every id it meets, keys or not.
\<close>

function bfs_collect :: "'a graph \<Rightarrow> 'a list \<Rightarrow> 'a list \<Rightarrow> 'a list" where
  "bfs_collect g seen [] = seen"
| "bfs_collect g seen (cur # pending) =
     (if cur \<in> set seen then bfs_collect g seen pending
      else bfs_collect g (seen @ [cur]) (pending @ succs g cur))"
  by pat_completeness auto

termination
proof (relation "measures [\<lambda>(g, seen, pending). unseen g seen, \<lambda>(g, seen, pending). length pending]", goal_cases)
  case 1
  then show ?case by simp
next
  case (2 g seen cur pending)
  then show ?case by simp
next
  case (3 g seen cur pending)
  show ?case
  proof (cases "cur \<in> fst ` set g")
    case True
    with 3 have "unseen g (seen @ [cur]) < unseen g seen" by (intro unseen_less) auto
    then show ?thesis by simp
  next
    case False
    then have "unseen g (seen @ [cur]) = unseen g seen" by (intro unseen_same) auto
    with False show ?thesis by (simp add: succs_not_key)
  qed
qed

lemma bfs_collect_mono: "set seen \<union> set pending \<subseteq> set (bfs_collect g seen pending)"
proof (induction g seen pending rule: bfs_collect.induct)
  case (1 g seen)
  then show ?case by simp
next
  case (2 g seen cur pending)
  then show ?case by (cases "cur \<in> set seen") auto
qed

lemma bfs_collect_sound: "set (bfs_collect g seen pending) \<subseteq> set seen \<union> reach g (set pending)"
proof (induction g seen pending rule: bfs_collect.induct)
  case (1 g seen)
  then show ?case by simp
next
  case (2 g seen cur pending)
  have mono: "reach g (set pending) \<subseteq> reach g (set (cur # pending))" by (rule reach_mono) auto
  have pushed: "reach g (set (pending @ succs g cur)) \<subseteq> reach g (set (cur # pending))"
    using reach_succs[of g cur] reach_Un[of g "set pending" "set (succs g cur)"]
      reach_insert[of g cur "set pending"] by auto
  have start: "cur \<in> reach g (set (cur # pending))" by (simp add: reach_start)
  show ?case
  proof (cases "cur \<in> set seen")
    case True
    then show ?thesis using "2.IH"(1)[OF True] mono by (simp, blast)
  next
    case False
    then show ?thesis using "2.IH"(2)[OF False] pushed start by (simp, blast)
  qed
qed

definition succ_closed :: "'a graph \<Rightarrow> 'a set \<Rightarrow> 'a set \<Rightarrow> bool" where
  "succ_closed g S T \<longleftrightarrow> (\<forall>x \<in> S. set (succs g x) \<subseteq> S \<union> T)"

lemma succ_closed_pop: "succ_closed g S (insert c T) \<Longrightarrow> c \<in> S \<Longrightarrow> succ_closed g S T"
  unfolding succ_closed_def by blast

lemma succ_closed_push: "succ_closed g S (insert c T) \<Longrightarrow> succ_closed g (insert c S) (T \<union> set (succs g c))"
  unfolding succ_closed_def by blast

lemma bfs_collect_closed:
  "succ_closed g (set seen) (set pending) \<Longrightarrow> succ_closed g (set (bfs_collect g seen pending)) {}"
proof (induction g seen pending rule: bfs_collect.induct)
  case (1 g seen)
  then show ?case by simp
next
  case (2 g seen cur pending)
  then have c: "succ_closed g (set seen) (insert cur (set pending))" by simp
  show ?case
  proof (cases "cur \<in> set seen")
    case True
    then show ?thesis using "2.IH"(1)[OF True succ_closed_pop[OF c True]] by simp
  next
    case False
    have "succ_closed g (set (seen @ [cur])) (set (pending @ succs g cur))"
      using succ_closed_push[OF c] by simp
    then show ?thesis using "2.IH"(2)[OF False] False by simp
  qed
qed

theorem bfs_collect_reach: "set (bfs_collect g [] pending) = reach g (set pending)"
proof
  show "set (bfs_collect g [] pending) \<subseteq> reach g (set pending)"
    using bfs_collect_sound[of g "[]" pending] by simp
  show "reach g (set pending) \<subseteq> set (bfs_collect g [] pending)"
  proof (rule reach_closed)
    show "set pending \<subseteq> set (bfs_collect g [] pending)" using bfs_collect_mono[of "[]" pending g] by simp
    fix x y assume "x \<in> set (bfs_collect g [] pending)" "y \<in> set (succs g x)"
    then show "y \<in> set (bfs_collect g [] pending)"
      using bfs_collect_closed[of g "[]" pending] by (auto simp: succ_closed_def)
  qed
qed

lemma distinct_bfs_collect: "distinct seen \<Longrightarrow> distinct (bfs_collect g seen pending)"
  by (induction g seen pending rule: bfs_collect.induct) auto

text \<open>From the successors of \<open>x\<close> the walk gathers the transitive successors of \<open>x\<close>.\<close>

lemma reach_succs_trancl: "reach g (set (succs g x)) = {y. (x, y) \<in> (arcs g)\<^sup>+}"
  by (auto simp: reach_def arcs_iff[symmetric] trancl_unfold_left relcomp_unfold)

end
