(* ===== verification/Kahn.thy ===== *)
theory Kahn
  imports Prelude
begin

text \<open>
  Kahn's algorithm, as far as its two users in the program share it: the counter update loop
  \<open>relax\<close>, and a locale with the invariant of the main loop.  \<open>check_acyclic\<close> keeps the ready
  ids in a FIFO list and \<open>_topological_order\<close> in a list sorted by authored position; the
  invariant only looks at the ready list as a multiset, so it serves both.
\<close>

section \<open>The counter update\<close>

text \<open>
  \<open>for nxt in adj[current]: indeg[nxt] -= 1; if indeg[nxt] == 0: ...\<close>: the counters after the
  loop and the ids whose counter became zero, in order.
\<close>

fun relax :: "'a list \<Rightarrow> ('a, int) dict \<Rightarrow> ('a, int) dict \<times> 'a list" where
  "relax [] indeg = (indeg, [])"
| "relax (nxt # rest) indeg =
     (let d = dict_get indeg 0 nxt - 1;
          (indeg', freed) = relax rest (dict_put nxt d indeg)
      in (indeg', if d = 0 then nxt # freed else freed))"

text \<open>What bounds the main loop: the positive part of the counters.\<close>

definition pending_edges :: "('a, int) dict \<Rightarrow> nat" where
  "pending_edges indeg = sum_list (map (nat \<circ> snd) indeg)"

lemma pending_edges_dec:
  "pending_edges (dict_put k (dict_get indeg 0 k - 1) indeg) + (if 1 \<le> dict_get indeg 0 k then 1 else 0)
    = pending_edges indeg"
  by (induction indeg) (auto simp: pending_edges_def dict_get_def split: option.splits)

lemma relax_ConsE:
  assumes "relax (n # ns) indeg = (indeg', freed)"
  obtains fr where "relax ns (dict_put n (dict_get indeg 0 n - 1) indeg) = (indeg', fr)"
    and "freed = (if dict_get indeg 0 n = 1 then n # fr else fr)"
  using assms by (auto simp: Let_def split: prod.splits)

lemma dict_get_le_pending: "nat (dict_get indeg 0 k) \<le> pending_edges indeg"
  by (induction indeg) (auto simp: pending_edges_def dict_get_def)

lemma relax_bound:
  "relax ns indeg = (indeg', freed) \<Longrightarrow> pending_edges indeg' + length freed \<le> pending_edges indeg"
proof (induction ns arbitrary: indeg freed)
  case Nil
  then show ?case by simp
next
  case (Cons n ns)
  obtain fr where fr: "relax ns (dict_put n (dict_get indeg 0 n - 1) indeg) = (indeg', fr)"
    and freed: "freed = (if dict_get indeg 0 n = 1 then n # fr else fr)"
    using Cons.prems by (rule relax_ConsE)
  show ?case
    using Cons.IH[OF fr] freed pending_edges_dec[of n indeg] by (auto split: if_splits)
qed

lemma relax_spec:
  assumes "relax ns indeg = (indeg', freed)"
  shows "dict_get indeg' 0 t = dict_get indeg 0 t - int (count_list ns t)"
    and "distinct freed"
    and "t \<in> set freed \<longleftrightarrow> 1 \<le> dict_get indeg 0 t \<and> dict_get indeg 0 t \<le> int (count_list ns t)"
proof -
  have "dict_get indeg' 0 t = dict_get indeg 0 t - int (count_list ns t) \<and> distinct freed
    \<and> (t \<in> set freed \<longleftrightarrow> 1 \<le> dict_get indeg 0 t \<and> dict_get indeg 0 t \<le> int (count_list ns t))" for t
    using assms
  proof (induction ns arbitrary: indeg freed t)
    case Nil
    then show ?case by simp
  next
    case (Cons n ns)
    obtain fr where fr: "relax ns (dict_put n (dict_get indeg 0 n - 1) indeg) = (indeg', fr)"
      and freed: "freed = (if dict_get indeg 0 n = 1 then n # fr else fr)"
      using Cons.prems by (rule relax_ConsE)
    show ?case
      using Cons.IH[OF fr, of t] Cons.IH[OF fr, of n] freed by (auto simp: dict_simps)
  qed
  then show "dict_get indeg' 0 t = dict_get indeg 0 t - int (count_list ns t)"
    and "distinct freed"
    and "t \<in> set freed \<longleftrightarrow> 1 \<le> dict_get indeg 0 t \<and> dict_get indeg 0 t \<le> int (count_list ns t)"
    by simp_all
qed

section \<open>The invariant of the main loop\<close>

text \<open>
  \<open>ids\<close> are the nodes, \<open>deps t\<close> what \<open>t\<close> waits for (with repetitions), \<open>adj d\<close> the dependents of
  \<open>d\<close>, once per repetition.  \<open>kinv V q indeg\<close>: \<open>V\<close> has been emitted in this order, \<open>q\<close> is ready,
  and \<open>indeg\<close> counts the dependencies not emitted yet.
\<close>

locale kahn_graph =
  fixes ids :: "'a set" and deps :: "'a \<Rightarrow> 'a list" and adj :: "'a \<Rightarrow> 'a list"
  assumes finite_ids: "finite ids"
    and adj_count: "d \<in> ids \<Longrightarrow> t \<in> ids \<Longrightarrow> count_list (adj d) t = count_list (deps t) d"
    and adj_ids: "d \<in> ids \<Longrightarrow> set (adj d) \<subseteq> ids"
begin

definition edges :: "('a \<times> 'a) set" where
  "edges = {(d, t). d \<in> ids \<and> t \<in> ids \<and> d \<in> set (deps t)}"

definition open_deps :: "'a set \<Rightarrow> 'a \<Rightarrow> nat" where
  "open_deps V t = length (filter (\<lambda>d. d \<in> ids \<and> d \<notin> V) (deps t))"

definition topo :: "'a list \<Rightarrow> bool" where
  "topo V \<longleftrightarrow> (\<forall>xs v ys. V = xs @ v # ys \<longrightarrow> set (deps v) \<inter> ids \<subseteq> set xs)"

definition kinv :: "'a list \<Rightarrow> 'a list \<Rightarrow> ('a, int) dict \<Rightarrow> bool" where
  "kinv V q indeg \<longleftrightarrow> distinct (V @ q) \<and> set (V @ q) \<subseteq> ids \<and> topo V
     \<and> (\<forall>t \<in> ids. dict_get indeg 0 t = int (open_deps (set V) t))
     \<and> (\<forall>t \<in> ids. open_deps (set V) t = 0 \<longleftrightarrow> t \<in> set (V @ q))"

lemma open_deps_zero: "open_deps V t = 0 \<longleftrightarrow> set (deps t) \<inter> ids \<subseteq> V"
  by (auto simp: open_deps_def filter_empty_conv)

lemma open_deps_insert:
  assumes "e \<in> ids" "e \<notin> V"
  shows "open_deps (insert e V) t + count_list (deps t) e = open_deps V t"
proof -
  have "length (filter (\<lambda>d. d \<in> ids \<and> d \<notin> insert e V) ds) + count_list ds e
      = length (filter (\<lambda>d. d \<in> ids \<and> d \<notin> V) ds)" for ds
    using assms by (induction ds) auto
  then show ?thesis by (simp add: open_deps_def)
qed

lemma topo_snoc: "topo V \<Longrightarrow> set (deps e) \<inter> ids \<subseteq> set V \<Longrightarrow> topo (V @ [e])"
  unfolding topo_def by (auto simp: append_eq_append_conv2 append_eq_Cons_conv Cons_eq_append_conv)

lemma kinv_start:
  assumes "\<And>t. t \<in> ids \<Longrightarrow> dict_get indeg 0 t = int (open_deps {} t)"
    and "distinct q" and "\<And>t. t \<in> set q \<longleftrightarrow> t \<in> ids \<and> dict_get indeg 0 t = 0"
  shows "kinv [] q indeg"
  using assms by (auto simp: kinv_def topo_def)

lemma kinv_step:
  assumes inv: "kinv V (e # q) indeg" and rel: "relax (adj e) indeg = (indeg', freed)"
    and q': "mset q' = mset (q @ freed)"
  shows "kinv (V @ [e]) q' indeg'"
proof -
  have e: "e \<in> ids" "e \<notin> set V" "open_deps (set V) e = 0" and dV: "distinct V"
    and dq: "distinct (e # q)" "set q \<inter> set V = {}" "set V \<subseteq> ids" "set q \<subseteq> ids"
    using inv by (auto simp: kinv_def)
  have cnt: "dict_get indeg 0 t = int (open_deps (set V) t)" if "t \<in> ids" for t
    using inv that by (simp add: kinv_def)
  have zero: "open_deps (set V) t = 0 \<longleftrightarrow> t \<in> set V \<or> t = e \<or> t \<in> set q" if "t \<in> ids" for t
    using inv that by (simp add: kinv_def) blast
  have ins: "open_deps (insert e (set V)) t + count_list (adj e) t = open_deps (set V) t" if "t \<in> ids" for t
    using open_deps_insert[OF e(1,2), of t] adj_count[OF e(1) that] by simp
  have cnt': "dict_get indeg' 0 t = int (open_deps (insert e (set V)) t)" if "t \<in> ids" for t
    using relax_spec(1)[OF rel, of t] cnt[OF that] ins[OF that] by simp
  have freed_ids: "set freed \<subseteq> ids"
  proof
    fix t assume "t \<in> set freed"
    then have "count_list (adj e) t \<noteq> 0" using relax_spec(3)[OF rel, of t] by auto
    then show "t \<in> ids" using adj_ids[OF e(1)] by (auto simp: count_list_0_iff)
  qed
  have freed_iff: "t \<in> set freed \<longleftrightarrow> open_deps (set V) t \<noteq> 0 \<and> open_deps (insert e (set V)) t = 0"
    if "t \<in> ids" for t
    using relax_spec(3)[OF rel, of t] cnt[OF that] ins[OF that] by auto
  have set_q': "set q' = set q \<union> set freed"
    using q' by (metis set_append set_mset_mset)
  have "distinct (q @ freed)"
    using dq relax_spec(2)[OF rel] freed_ids freed_iff zero by auto
  then have dist: "distinct q'" using q' by (metis mset_eq_imp_distinct_iff)
  have new_zero: "open_deps (insert e (set V)) t = 0 \<longleftrightarrow> t \<in> set V \<or> t = e \<or> t \<in> set q'" if "t \<in> ids" for t
    using ins[OF that] zero[OF that] freed_iff[OF that] set_q' by auto
  have disj: "set q' \<inter> insert e (set V) = {}"
    using dq set_q' freed_iff freed_ids zero by auto
  have "topo (V @ [e])"
    using inv e(3) by (auto intro!: topo_snoc simp: kinv_def open_deps_zero)
  then show ?thesis
    using cnt' new_zero dist disj dV dq e freed_ids set_q' by (auto simp: kinv_def)
qed

lemma topo_butlast: "topo (V @ [x]) \<Longrightarrow> topo V"
  unfolding topo_def
proof (intro allI impI)
  fix xs v ys
  assume all: "\<forall>xs v ys. V @ [x] = xs @ v # ys \<longrightarrow> set (deps v) \<inter> ids \<subseteq> set xs" and "V = xs @ v # ys"
  then have "V @ [x] = xs @ v # (ys @ [x])" by simp
  with all show "set (deps v) \<inter> ids \<subseteq> set xs" by blast
qed

lemma topo_last: "topo (V @ [x]) \<Longrightarrow> set (deps x) \<inter> ids \<subseteq> set V"
  unfolding topo_def by blast

lemma topo_acc: "topo V \<Longrightarrow> v \<in> set V \<Longrightarrow> v \<in> Wellfounded.acc edges"
proof (induction V arbitrary: v rule: rev_induct)
  case Nil
  then show ?case by simp
next
  case (snoc x V)
  have IH: "w \<in> Wellfounded.acc edges" if "w \<in> set V" for w
    by (rule snoc.IH[OF topo_butlast[OF snoc.prems(1)] that])
  have "x \<in> Wellfounded.acc edges"
  proof (rule accI)
    fix d assume "(d, x) \<in> edges"
    then have "d \<in> set V" using topo_last[OF snoc.prems(1)] by (auto simp: edges_def)
    then show "d \<in> Wellfounded.acc edges" by (rule IH)
  qed
  with IH snoc.prems(2) show ?case unfolding set_append list.set by blast
qed

lemma topo_acyclic:
  assumes "topo V" "set V = ids"
  shows "acyclic edges"
proof -
  have "v \<in> Wellfounded.acc edges" for v
  proof (cases "v \<in> ids")
    case True
    then show ?thesis using topo_acc[OF assms(1)] assms(2) by blast
  next
    case False
    then have "\<And>d. (d, v) \<notin> edges" by (simp add: edges_def)
    then show ?thesis by (metis accI)
  qed
  then have "wf edges" by (intro acc_wfI allI)
  then show ?thesis by (rule wf_acyclic)
qed

lemma kinv_end_acyclic: "kinv V [] indeg \<Longrightarrow> set V = ids \<Longrightarrow> acyclic edges"
  by (rule topo_acyclic[of V]) (simp_all add: kinv_def)

lemma finite_edges: "finite edges"
  by (rule finite_subset[of _ "ids \<times> ids"]) (auto simp: edges_def finite_ids)

lemma acyclic_emits_all:
  assumes "acyclic edges" "kinv V [] indeg"
  shows "set V = ids"
proof (rule ccontr)
  assume "set V \<noteq> ids"
  then obtain x where x: "x \<in> ids - set V" using assms(2) by (auto simp: kinv_def)
  have "wf edges" by (rule finite_acyclic_wf[OF finite_edges assms(1)])
  then obtain t where t: "t \<in> ids - set V" and min: "\<And>d. (d, t) \<in> edges \<Longrightarrow> d \<notin> ids - set V"
    using x by (rule wfE_min) blast
  have "set (deps t) \<inter> ids \<subseteq> set V" using min t by (auto simp: edges_def)
  then have "t \<in> set V" using assms(2) t by (auto simp: kinv_def open_deps_zero)
  with t show False by simp
qed

lemma kinv_left_over:
  assumes "kinv V [] indeg"
  shows "{t \<in> ids. 0 < dict_get indeg 0 t} = ids - set V"
  using assms by (auto simp: kinv_def)

end

end
