(* ===== verification/Task_Validation.thy ===== *)
theory Task_Validation
  imports Models Worklist Kahn
begin

text \<open>
  \<^verbatim>\<open>task_validation.py\<close>: the structural checks of a submitted task list.  Every check returns
  the list of its \<open>ValidationError\<close>s, in the order the source appends them.  A Python set that
  is iterated is passed as the list of its elements in the order of that iteration, which
  Python leaves open; the properties hold for every such list.
\<close>

datatype validation_error = ValidationError (ve_code: string) (ve_detail: string)

section \<open>String rendering used in error details\<close>

definition hex_digit :: "nat \<Rightarrow> char" where
  "hex_digit n = (if n < 10 then char_of (48 + n) else char_of (87 + n))"

text \<open>\<open>repr\<close> of a string: the quote chosen, and the escapes of the code points below 256.\<close>

definition repr_char :: "char \<Rightarrow> char \<Rightarrow> string" where
  "repr_char q c =
    (if c = CHR 0x5C \<or> c = q then [CHR 0x5C, c]
     else if ord c = 10 then [CHR 0x5C, CHR ''n'']
     else if ord c = 13 then [CHR 0x5C, CHR ''r'']
     else if ord c = 9 then [CHR 0x5C, CHR ''t'']
     else if ord c < 32 \<or> (127 \<le> ord c \<and> ord c \<le> 160) \<or> ord c = 173
     then [CHR 0x5C, CHR ''x'', hex_digit (ord c div 16), hex_digit (ord c mod 16)]
     else [c])"

definition py_repr :: "string \<Rightarrow> string" where
  "py_repr s =
    (let q = (if CHR 0x27 \<in> set s \<and> CHR 0x22 \<notin> set s then CHR 0x22 else CHR 0x27)
     in [q] @ concat (map (repr_char q) s) @ [q])"

section \<open>Contract parsing\<close>

text \<open>
  \<open>parse_contract_dir\<close>.  The directory is \<open>None\<close> when it does not exist, or the names its
  \<open>*.md\<close> glob yields.
\<close>

definition md_stem :: "string \<Rightarrow> string" where
  "md_stem name = (if 3 < length name then take (length name - 3) name else name)"

fun parse_contract_entries :: "string list \<Rightarrow> string list \<Rightarrow> validation_error list
    \<Rightarrow> string list \<times> validation_error list" where
  "parse_contract_entries [] ids errors = (ids, errors)"
| "parse_contract_entries (name # rest) ids errors =
     (let stem = md_stem name
      in if stem = ''README'' then parse_contract_entries rest ids errors
         else if \<not> assertion_id_ok stem
         then parse_contract_entries rest ids (errors @ [ValidationError ''invalid_assertion_filename''
           (name @ '' (stem '' @ [CHR 0x27] @ stem @ [CHR 0x27] @ '' does not match ^[A-Z][A-Z0-9-]+$)'')])
         else if stem \<in> set ids
         then parse_contract_entries rest ids (errors @ [ValidationError ''duplicate_assertion_filename'' stem])
         else parse_contract_entries rest (ids @ [stem]) errors)"

definition parse_contract_dir :: "string \<Rightarrow> string list option \<Rightarrow> string list \<times> validation_error list" where
  "parse_contract_dir path dir = (case dir of
     None \<Rightarrow> ([], [ValidationError ''contract_dir_missing'' path])
   | Some names \<Rightarrow> parse_contract_entries (sort names) [] [])"

section \<open>Task-level checks\<close>

fun check_task_ids_from :: "string list \<Rightarrow> task_list \<Rightarrow> validation_error list" where
  "check_task_ids_from seen [] = []"
| "check_task_ids_from seen (t # rest) =
     (if \<not> task_id_ok (t_id t) then [ValidationError ''invalid_task_id'' (t_id t)] else [])
     @ (if t_id t \<in> set seen then [ValidationError ''duplicate_task_id'' (t_id t)] else [])
     @ check_task_ids_from (t_id t # seen) rest"

definition check_task_ids :: "task_list \<Rightarrow> validation_error list" where
  "check_task_ids tks = check_task_ids_from [] tks"

definition check_one_shape :: "task \<Rightarrow> validation_error list" where
  "check_one_shape t =
    (if t_type t = Gate then
       (if t_skill t \<noteq> None then [ValidationError ''gate_with_skill'' (t_id t)] else [])
       @ (if \<not> blank (t_body t) then [ValidationError ''gate_with_body'' (t_id t)] else [])
       @ (if t_targets t = [] then [ValidationError ''empty_targets'' (t_id t)] else [])
     else
       (if t_skill t = None \<or> t_skill t = Some []
        then [ValidationError ''non_gate_without_skill''
          (t_id t @ '' (type='' @ task_type_str (t_type t) @ '')'')] else [])
       @ (if blank (t_body t) then [ValidationError ''missing_body'' (t_id t)] else [])
       @ (if t_type t = Validate \<and> t_targets t = [] then [ValidationError ''empty_targets'' (t_id t)] else []))"

definition check_task_shape :: "task_list \<Rightarrow> validation_error list" where
  "check_task_shape tks = concat (map check_one_shape tks)"

definition check_deps_resolve :: "task_list \<Rightarrow> validation_error list" where
  "check_deps_resolve tks =
    (let ids = task_ids tks
     in concat (map (\<lambda>t. concat (map (\<lambda>dep.
          if dep = t_id t then [ValidationError ''self_loop'' (t_id t)]
          else if dep \<notin> set ids then [ValidationError ''dep_unknown_task'' (t_id t @ '' -> '' @ dep)]
          else []) (t_depends_on t))) tks))"

subsection \<open>Kahn's algorithm on the adjacency lists\<close>

type_synonym adjacency = "(string, string list) dict"
type_synonym indegrees = "(string, int) dict"

text \<open>The body of \<open>for dep in task.depends_on\<close>.\<close>

definition count_dep :: "string \<Rightarrow> string \<Rightarrow> indegrees \<times> adjacency \<Rightarrow> indegrees \<times> adjacency" where
  "count_dep tid dep s = (case s of (indeg, adj) \<Rightarrow>
     if dep \<in> fst ` set indeg
     then (dict_put tid (dict_get indeg 0 tid + 1) indeg, dict_append dep tid adj)
     else (indeg, adj))"

definition build_indegrees :: "task_list \<Rightarrow> indegrees \<times> adjacency" where
  "build_indegrees tks =
     fold (\<lambda>t. fold (count_dep (t_id t)) (t_depends_on t)) tks
       (dict_of (map (\<lambda>t. (t_id t, 0)) tks), dict_of (map (\<lambda>t. (t_id t, [])) tks))"

text \<open>The \<open>while queue\<close> loop: how many ids were visited, and the counters left.\<close>

function kahn_fifo :: "adjacency \<Rightarrow> indegrees \<Rightarrow> string list \<Rightarrow> nat \<Rightarrow> nat \<times> indegrees" where
  "kahn_fifo adj indeg [] visited = (visited, indeg)"
| "kahn_fifo adj indeg (current # queue) visited =
     (let (indeg', freed) = relax (dict_get adj [] current) indeg
      in kahn_fifo adj indeg' (queue @ freed) (visited + 1))"
  by pat_completeness auto

termination
  by (relation "measure (\<lambda>(adj, indeg, queue, visited). pending_edges indeg + length queue)")
    (auto dest!: relax_bound[OF sym])

definition check_acyclic :: "task_list \<Rightarrow> validation_error list" where
  "check_acyclic tks =
    (let (indeg, adj) = build_indegrees tks;
         queue = map fst (filter (\<lambda>(tid, d). d = 0) indeg);
         (visited, left) = kahn_fifo adj indeg queue 0
     in if visited \<noteq> length tks
        then [ValidationError ''cycle_detected''
          (''tasks still in cycle: '' @ join '', '' (sort (map fst (filter (\<lambda>(tid, d). d > 0) left))))]
        else [])"

subsection \<open>Coverage\<close>

definition status_or_pending :: "task_state option \<Rightarrow> string \<Rightarrow> task_status" where
  "status_or_pending task_status tid = (case task_status of None \<Rightarrow> Pending | Some ts \<Rightarrow> status_of ts tid)"

definition add_coverer :: "string \<Rightarrow> string \<Rightarrow> (string, string list) dict \<Rightarrow> (string, string list) dict" where
  "add_coverer tid tgt coverers =
    (if tgt \<in> fst ` set coverers then dict_append tgt tid coverers else coverers)"

definition coverers_of :: "string list \<Rightarrow> task_list \<Rightarrow> task_state option \<Rightarrow> (string, string list) dict" where
  "coverers_of contract_ids tks task_status =
    fold (\<lambda>t coverers.
      if t_type t = Work \<and> status_or_pending task_status (t_id t) \<noteq> Superseded
      then fold (add_coverer (t_id t)) (t_targets t) coverers else coverers)
    tks (dict_of (map (\<lambda>a. (a, [])) contract_ids))"

definition check_coverage :: "string list \<Rightarrow> task_list \<Rightarrow> task_state option \<Rightarrow> validation_error list" where
  "check_coverage contract_ids tks task_status =
    concat (map (\<lambda>t. concat (map (\<lambda>tgt.
       if tgt \<notin> set contract_ids
       then [ValidationError ''task_targets_unknown_assertion''
         (''task '' @ t_id t @ '' targets unknown assertion '' @ py_repr tgt)]
       else []) (t_targets t))) tks)
    @ concat (map (\<lambda>(assertion, ids).
       if ids = [] then [ValidationError ''uncovered_assertion'' assertion]
       else if 1 < length ids
       then [ValidationError ''over_covered_assertion''
         (assertion @ '' covered by ['' @ join '', '' (sort ids) @ '']'')]
       else []) (coverers_of contract_ids tks task_status))"

section \<open>Combined submit-time checks\<close>

definition validate_task_list_submission :: "string list \<Rightarrow> task_list \<Rightarrow> validation_error list" where
  "validate_task_list_submission contract_ids tks =
    (if contract_ids = [] then [ValidationError ''empty_contract''
       ''mission has no contract assertions; write contract/<ID>.md files before submit_plan'']
     else if tks = [] then [ValidationError ''empty_task_list'' ''submit_plan requires at least one task'']
     else if check_task_ids tks \<noteq> [] then check_task_ids tks
     else if check_task_shape tks \<noteq> [] then check_task_shape tks
     else if check_deps_resolve tks \<noteq> [] then check_deps_resolve tks
     else if check_acyclic tks \<noteq> [] then check_acyclic tks
     else check_coverage contract_ids tks None)"

section \<open>Navigation helpers\<close>

definition predecessors_of :: "task_list \<Rightarrow> string \<Rightarrow> string list" where
  "predecessors_of tks tid = (case find (\<lambda>t. t_id t = tid) tks of None \<Rightarrow> [] | Some t \<Rightarrow> t_depends_on t)"

definition successors_of :: "task_list \<Rightarrow> string \<Rightarrow> string list" where
  "successors_of tks tid = map t_id (filter (\<lambda>t. tid \<in> set (t_depends_on t)) tks)"

definition gates_in_order :: "task_list \<Rightarrow> task list" where
  "gates_in_order tks = filter (\<lambda>t. t_type t = Gate) tks"

text \<open>The graph \<open>by_id\<close> walks: from a task id to its \<open>depends_on\<close>.\<close>

definition upstream_graph :: "task_list \<Rightarrow> string graph" where
  "upstream_graph tks = map (\<lambda>(i, t). (i, t_depends_on t)) (by_id tks)"

definition upstream_tasks :: "task_list \<Rightarrow> string \<Rightarrow> (task \<Rightarrow> bool) option \<Rightarrow> task list" where
  "upstream_tasks tks tid predicate =
    filter (\<lambda>t. case predicate of None \<Rightarrow> True | Some p \<Rightarrow> p t)
      (map (\<lambda>i. the (map_of (by_id tks) i))
        (dfs_collect (upstream_graph tks) [] (rev (predecessors_of tks tid))))"

end
