(* ===== verification/Demo_Mission.thy ===== *)
theory Demo_Mission
  imports Models
begin

text \<open>
  A small mission the concrete instances of the properties use: one work task for the assertion
  \<open>A-1\<close>, a validator of it, and a gate on the assertion; an unrelated work task for \<open>B-1\<close>; and
  a patch that replaces the second work task by a new one.
\<close>

definition demo_work :: task where
  "demo_work = \<lparr>t_id = ''w1'', t_type = Work, t_body = ''build'', t_targets = [''A-1''], t_skill = Some ''impl'',
     t_auto_merge = True, t_depends_on = []\<rparr>"

definition demo_check :: task where
  "demo_check = \<lparr>t_id = ''v1'', t_type = Validate, t_body = ''check'', t_targets = [''A-1''], t_skill = Some ''qa'',
     t_auto_merge = True, t_depends_on = [''w1'']\<rparr>"

definition demo_gate :: task where
  "demo_gate = \<lparr>t_id = ''g1'', t_type = Gate, t_body = [], t_targets = [''A-1''], t_skill = None,
     t_auto_merge = True, t_depends_on = [''v1'']\<rparr>"

definition demo_other :: task where
  "demo_other = \<lparr>t_id = ''w2'', t_type = Work, t_body = ''docs'', t_targets = [''B-1''], t_skill = Some ''impl'',
     t_auto_merge = True, t_depends_on = [''g1'']\<rparr>"

definition demo_new :: task where
  "demo_new = \<lparr>t_id = ''w3'', t_type = Work, t_body = ''docs again'', t_targets = [''B-1''], t_skill = Some ''impl'',
     t_auto_merge = True, t_depends_on = [''w2'', ''g1'']\<rparr>"

definition demo_plan :: task_list where
  "demo_plan = [demo_work, demo_check, demo_gate, demo_other]"

definition demo_contract :: "string list" where
  "demo_contract = [''A-1'', ''B-1'']"

definition demo_patch :: task_list_patch where
  "demo_patch = \<lparr>p_add_items = [], p_add = [demo_new\<lparr>t_depends_on := [''g1'']\<rparr>], p_supersede = [(''w2'', ''w3'')], p_cancel = []\<rparr>"

text \<open>The work task has cleared, the validator is pending.\<close>

definition demo_state :: task_state where
  "demo_state = [(''w1'', \<lparr>e_status = Cleared, e_last_attempt = Some ''a1''\<rparr>)]"

lemmas demo_tasks = demo_work_def demo_check_def demo_gate_def demo_other_def demo_new_def
lemmas demo_defs = demo_tasks demo_plan_def demo_contract_def demo_patch_def demo_state_def

lemma demo_distinct [simp]: "distinct (task_ids demo_plan)"
  by (simp add: demo_plan_def demo_tasks)

lemma demo_members [simp]: "demo_work \<in> set demo_plan" "demo_check \<in> set demo_plan" "demo_gate \<in> set demo_plan"
  "demo_other \<in> set demo_plan"
  by (simp_all add: demo_plan_def)

end
