(* ===== verification/Task_Validation_Proofs.thy ===== *)
theory Task_Validation_Proofs
  imports Task_Validation Demo_Mission
begin

text \<open>
  What the structural checks decide.  Each check is empty exactly when a condition on the task
  list holds that mentions no traversal, counter or dictionary; the submission check is the
  conjunction of them.
\<close>

section \<open>The specification of a well-formed plan\<close>

definition well_shaped :: "task \<Rightarrow> bool" where
  "well_shaped t \<longleftrightarrow> (case t_type t of
     Gate \<Rightarrow> t_skill t = None \<and> blank (t_body t) \<and> t_targets t \<noteq> []
   | Work \<Rightarrow> t_skill t \<notin> {None, Some []} \<and> \<not> blank (t_body t)
   | Validate \<Rightarrow> t_skill t \<notin> {None, Some []} \<and> \<not> blank (t_body t) \<and> t_targets t \<noteq> [])"

definition deps_closed :: "task_list \<Rightarrow> bool" where
  "deps_closed tks \<longleftrightarrow> (\<forall>t \<in> set tks. \<forall>d \<in> set (t_depends_on t). d \<noteq> t_id t \<and> d \<in> t_id ` set tks)"

text \<open>The dependency relation: from a task to the tasks that name it.\<close>

definition dep_edges :: "task_list \<Rightarrow> (string \<times> string) set" where
  "dep_edges tks = {(d, t_id t) | d t. t \<in> set tks \<and> d \<in> set (t_depends_on t) \<and> d \<in> t_id ` set tks}"

text \<open>The active work tasks that name an assertion, once per mention.\<close>

definition owners :: "task_list \<Rightarrow> (string \<Rightarrow> task_status) \<Rightarrow> string \<Rightarrow> string list" where
  "owners tks st a = concat (map (\<lambda>t.
     if t_type t = Work \<and> st (t_id t) \<noteq> Superseded
     then map (\<lambda>_. t_id t) (filter (\<lambda>tgt. tgt = a) (t_targets t)) else []) tks)"

definition covered_once :: "string set \<Rightarrow> task_list \<Rightarrow> (string \<Rightarrow> task_status) \<Rightarrow> bool" where
  "covered_once contract tks st \<longleftrightarrow>
     (\<forall>t \<in> set tks. set (t_targets t) \<subseteq> contract) \<and> (\<forall>a \<in> contract. \<exists>i. owners tks st a = [i])"

definition plan_ok :: "string set \<Rightarrow> task_list \<Rightarrow> (string \<Rightarrow> task_status) \<Rightarrow> bool" where
  "plan_ok contract tks st \<longleftrightarrow>
     distinct (task_ids tks) \<and> (\<forall>t \<in> set tks. task_id_ok (t_id t)) \<and> (\<forall>t \<in> set tks. well_shaped t)
     \<and> deps_closed tks \<and> acyclic (dep_edges tks) \<and> covered_once contract tks st"

section \<open>Ids, shape and dependency references\<close>

lemma check_task_ids_from_Nil:
  "check_task_ids_from seen tks = [] \<longleftrightarrow>
    (\<forall>t \<in> set tks. task_id_ok (t_id t)) \<and> distinct (task_ids tks) \<and> set seen \<inter> t_id ` set tks = {}"
  by (induction tks arbitrary: seen) auto

lemma check_task_ids_Nil:
  "check_task_ids tks = [] \<longleftrightarrow> (\<forall>t \<in> set tks. task_id_ok (t_id t)) \<and> distinct (task_ids tks)"
  by (simp add: check_task_ids_def check_task_ids_from_Nil)

lemma check_task_shape_Nil: "check_task_shape tks = [] \<longleftrightarrow> (\<forall>t \<in> set tks. well_shaped t)"
proof -
  have "check_one_shape t = [] \<longleftrightarrow> well_shaped t" for t
    by (cases "t_type t") (auto simp: check_one_shape_def well_shaped_def)
  then show ?thesis by (simp add: check_task_shape_def)
qed

lemma check_deps_resolve_Nil: "check_deps_resolve tks = [] \<longleftrightarrow> deps_closed tks"
  by (auto simp: check_deps_resolve_def deps_closed_def Let_def)

section \<open>Acyclicity\<close>

definition deps_of :: "task_list \<Rightarrow> string \<Rightarrow> string list" where
  "deps_of tks i = concat (map t_depends_on (filter (\<lambda>t. t_id t = i) tks))"

definition built :: "string set \<Rightarrow> (string \<Rightarrow> string list) \<Rightarrow> indegrees \<times> adjacency \<Rightarrow> bool" where
  "built ids deps s \<longleftrightarrow> (case s of (indeg, adj) \<Rightarrow>
     fst ` set indeg = ids
     \<and> (\<forall>t. dict_get indeg 0 t = int (length (filter (\<lambda>d. d \<in> ids) (deps t))))
     \<and> (\<forall>d t. count_list (dict_get adj [] d) t = (if d \<in> ids then count_list (deps t) d else 0)))"

lemma builtD:
  assumes "built ids deps s"
  shows "fst ` set (fst s) = ids"
    and "dict_get (fst s) 0 t = int (length (filter (\<lambda>d. d \<in> ids) (deps t)))"
    and "count_list (dict_get (snd s) [] d) t = (if d \<in> ids then count_list (deps t) d else 0)"
  using assms by (cases s; simp add: built_def)+

lemma built_count_dep:
  assumes "built ids deps s" "tid \<in> ids"
  shows "built ids (deps(tid := deps tid @ [dep])) (count_dep tid dep s)"
proof (cases s)
  case (Pair indeg adj)
  with assms show ?thesis
    by (auto simp: built_def count_dep_def dict_simps insert_absorb)
qed

lemma built_count_deps:
  assumes "built ids deps s" "tid \<in> ids"
  shows "built ids (deps(tid := deps tid @ ds)) (fold (count_dep tid) ds s)"
  using assms
proof (induction ds arbitrary: deps s)
  case Nil
  then show ?case by simp
next
  case (Cons d ds)
  have "built ids (deps(tid := deps tid @ [d])) (count_dep tid d s)"
    by (rule built_count_dep[OF Cons.prems])
  from Cons.IH[OF this Cons.prems(2)] show ?case by (simp add: fun_upd_def cong: if_cong)
qed

lemma built_tasks:
  assumes "built ids deps s" "t_id ` set tks \<subseteq> ids"
  shows "built ids (\<lambda>i. deps i @ deps_of tks i) (fold (\<lambda>t. fold (count_dep (t_id t)) (t_depends_on t)) tks s)"
  using assms
proof (induction tks arbitrary: deps s)
  case Nil
  then show ?case by (simp add: deps_of_def)
next
  case (Cons t tks)
  have "built ids (deps(t_id t := deps (t_id t) @ t_depends_on t)) (fold (count_dep (t_id t)) (t_depends_on t) s)"
    by (rule built_count_deps) (use Cons.prems in auto)
  moreover have "t_id ` set tks \<subseteq> ids" using Cons.prems(2) by simp
  ultimately have "built ids (\<lambda>i. (deps(t_id t := deps (t_id t) @ t_depends_on t)) i @ deps_of tks i)
      (fold (\<lambda>t. fold (count_dep (t_id t)) (t_depends_on t)) (t # tks) s)"
    using Cons.IH unfolding fold_simps by blast
  moreover have "(\<lambda>i. (deps(t_id t := deps (t_id t) @ t_depends_on t)) i @ deps_of tks i)
      = (\<lambda>i. deps i @ deps_of (t # tks) i)"
    by (auto simp: deps_of_def fun_eq_iff)
  ultimately show ?case by simp
qed

lemma dict_get_const: "dict_get (dict_of (map (\<lambda>x. (f x, v)) xs)) v k = v"
proof -
  have "map_of (rev (map (\<lambda>x. (f x, v)) xs)) k = Some w \<Longrightarrow> w = v" for w
    by (auto dest!: map_of_SomeD)
  then show ?thesis by (auto simp: dict_get_def map_of_dict_of split: option.splits)
qed

lemma built_indegrees: "built (t_id ` set tks) (deps_of tks) (build_indegrees tks)"
proof -
  have "built (t_id ` set tks) (\<lambda>_. [])
      (dict_of (map (\<lambda>t. (t_id t, 0)) tks), dict_of (map (\<lambda>t. (t_id t, [])) tks))"
    by (auto simp: built_def dict_simps image_image dict_get_const)
  from built_tasks[OF this] show ?thesis by (simp add: build_indegrees_def)
qed

lemma distinct_fold_count_dep:
  "distinct (dict_keys (fst s)) \<Longrightarrow> distinct (dict_keys (fst (fold (count_dep tid) ds s)))"
  by (induction ds arbitrary: s) (auto simp: count_dep_def distinct_update split: prod.splits)

lemma distinct_build_indegrees: "distinct (dict_keys (fst (build_indegrees tks)))"
proof -
  have "distinct (dict_keys (fst (fold (\<lambda>t. fold (count_dep (t_id t)) (t_depends_on t)) xs s)))"
    if "distinct (dict_keys (fst s))" for xs :: task_list and s
    using that
  proof (induction xs arbitrary: s)
    case Nil
    then show ?case by simp
  next
    case (Cons x xs)
    show ?case using Cons.IH[OF distinct_fold_count_dep[OF Cons.prems]] by simp
  qed
  then show ?thesis unfolding build_indegrees_def by (simp add: distinct_dict_of del: fold_simps)
qed

interpretation plan_kahn: kahn_graph "t_id ` set tks" "deps_of tks" "dict_get (snd (build_indegrees tks)) []"
  for tks
proof unfold_locales
  show "finite (t_id ` set tks)" by simp
next
  fix d t
  assume "d \<in> t_id ` set tks"
  then show "count_list (dict_get (snd (build_indegrees tks)) [] d) t = count_list (deps_of tks t) d"
    by (simp add: builtD(3)[OF built_indegrees])
next
  fix d
  assume d: "d \<in> t_id ` set tks"
  show "set (dict_get (snd (build_indegrees tks)) [] d) \<subseteq> t_id ` set tks"
  proof
    fix t assume "t \<in> set (dict_get (snd (build_indegrees tks)) [] d)"
    then have "count_list (dict_get (snd (build_indegrees tks)) [] d) t \<noteq> 0" by (simp add: count_list_0_iff)
    then have "deps_of tks t \<noteq> []" using d by (auto simp: builtD(3)[OF built_indegrees])
    then show "t \<in> t_id ` set tks" by (auto simp: deps_of_def filter_empty_conv)
  qed
qed

lemma plan_kahn_edges: "plan_kahn.edges tks = dep_edges tks"
proof -
  have "d \<in> set (deps_of tks i) \<longleftrightarrow> (\<exists>t \<in> set tks. t_id t = i \<and> d \<in> set (t_depends_on t))" for d i
    by (auto simp: deps_of_def)
  then have "(d, i) \<in> plan_kahn.edges tks \<longleftrightarrow> (d, i) \<in> dep_edges tks" for d i
    unfolding plan_kahn.edges_def dep_edges_def by auto metis
  then show ?thesis by auto
qed

lemma kahn_fifo_run:
  assumes "plan_kahn.kinv tks V queue indeg"
    and "kahn_fifo (snd (build_indegrees tks)) indeg queue (length V) = (visited, left)"
  shows "\<exists>V'. plan_kahn.kinv tks V' [] left \<and> visited = length V'"
  using assms
proof (induction "snd (build_indegrees tks)" indeg queue "length V" arbitrary: V rule: kahn_fifo.induct)
  case (1 indeg)
  then show ?case by auto
next
  case (2 indeg current queue)
  obtain indeg' freed where rel: "relax (dict_get (snd (build_indegrees tks)) [] current) indeg = (indeg', freed)"
    by fastforce
  have inv: "plan_kahn.kinv tks (V @ [current]) (queue @ freed) indeg'"
    by (rule plan_kahn.kinv_step[OF "2.prems"(1) rel]) simp
  show ?case
    by (rule "2.hyps"(1)[OF rel[symmetric] refl _ inv]) (use "2.prems"(2) rel in simp_all)
qed

lemma kahn_start:
  "plan_kahn.kinv tks [] (map fst (filter (\<lambda>(tid, d). d = 0) (fst (build_indegrees tks)))) (fst (build_indegrees tks))"
proof -
  obtain indeg adj where b: "build_indegrees tks = (indeg, adj)" by fastforce
  have B: "built (t_id ` set tks) (deps_of tks) (indeg, adj)" using built_indegrees[of tks] b by simp
  have d: "distinct (dict_keys indeg)" using distinct_build_indegrees[of tks] b by simp
  have "t \<in> set (map fst (filter (\<lambda>(tid, d). d = 0) indeg)) \<longleftrightarrow> t \<in> t_id ` set tks \<and> dict_get indeg 0 t = 0" for t
  proof -
    have "t \<in> set (map fst (filter (\<lambda>(tid, d). d = 0) indeg)) \<longleftrightarrow> (t, 0) \<in> set indeg" by force
    also have "\<dots> \<longleftrightarrow> t \<in> fst ` set indeg \<and> dict_get indeg 0 t = 0" by (rule dict_mem_iff[OF d])
    finally show ?thesis using B by (simp add: built_def)
  qed
  moreover have "distinct (map fst (filter (\<lambda>(tid, d). d = 0) indeg))"
    using d by (rule distinct_map_filter)
  moreover have "dict_get indeg 0 t = int (plan_kahn.open_deps tks {} t)" for t
    using B by (simp add: built_def plan_kahn.open_deps_def)
  ultimately show ?thesis using b by (auto intro!: plan_kahn.kinv_start)
qed

text \<open>Kahn's check accepts exactly the lists with distinct ids and an acyclic dependency relation.\<close>

lemma check_acyclic_Nil:
  "check_acyclic tks = [] \<longleftrightarrow> distinct (task_ids tks) \<and> acyclic (dep_edges tks)"
proof -
  obtain indeg adj where b: "build_indegrees tks = (indeg, adj)" by fastforce
  obtain visited left where k: "kahn_fifo adj indeg (map fst (filter (\<lambda>(tid, d). d = 0) indeg)) 0 = (visited, left)"
    by fastforce
  obtain V where V: "plan_kahn.kinv tks V [] left" "visited = length V"
    using kahn_fifo_run[OF kahn_start[of tks], of visited left] b k by auto
  have sub: "distinct V" "set V \<subseteq> t_id ` set tks" using V(1) by (simp_all add: plan_kahn.kinv_def)
  have card_ids: "card (t_id ` set tks) \<le> length tks"
    by (metis card_image_le card_length finite_set le_trans)
  have all: "set V = t_id ` set tks \<longleftrightarrow> acyclic (dep_edges tks)"
    using plan_kahn.kinv_end_acyclic[OF V(1)] plan_kahn.acyclic_emits_all[OF _ V(1)]
    by (auto simp: plan_kahn_edges)
  have "check_acyclic tks = [] \<longleftrightarrow> length V = length tks"
    using b k V(2) by (simp add: check_acyclic_def)
  also have "\<dots> \<longleftrightarrow> distinct (task_ids tks) \<and> set V = t_id ` set tks"
  proof
    assume len: "length V = length tks"
    then have "card (set V) = length tks" using sub(1) by (simp add: distinct_card)
    then have "set V = t_id ` set tks" and "card (t_id ` set tks) = length tks"
      using sub(2) card_ids card_mono[of "t_id ` set tks" "set V"] card_subset_eq[of "t_id ` set tks" "set V"]
      by auto
    then show "distinct (task_ids tks) \<and> set V = t_id ` set tks"
      by (simp add: card_distinct)
  next
    assume "distinct (task_ids tks) \<and> set V = t_id ` set tks"
    then show "length V = length tks" using sub(1) by (metis distinct_card length_map set_map)
  qed
  finally show ?thesis using all by simp
qed

section \<open>Coverage\<close>

lemma keys_add_coverer [simp]: "fst ` set (add_coverer tid tgt c) = fst ` set c"
  by (auto simp: add_coverer_def dict_append_def dict_simps)

lemma keys_fold_add_coverer [simp]: "fst ` set (fold (add_coverer tid) tgts c) = fst ` set c"
  by (induction tgts arbitrary: c) auto

lemma get_fold_add_coverer:
  "a \<in> fst ` set c \<Longrightarrow> dict_get (fold (add_coverer tid) tgts c) [] a
    = dict_get c [] a @ map (\<lambda>_. tid) (filter (\<lambda>tgt. tgt = a) tgts)"
proof (induction tgts arbitrary: c)
  case Nil
  then show ?case by simp
next
  case (Cons t tgts)
  then have "a \<in> fst ` set (add_coverer tid t c)" by simp
  from Cons.IH[OF this] Cons.prems show ?case by (auto simp: add_coverer_def dict_simps)
qed

lemma coverers_fold:
  fixes st :: "string \<Rightarrow> task_status"
  defines "step \<equiv> \<lambda>t c. if t_type t = Work \<and> st (t_id t) \<noteq> Superseded
      then fold (add_coverer (t_id t)) (t_targets t) c else c"
  shows "fst ` set (fold step tks c) = fst ` set c"
    and "a \<in> fst ` set c \<Longrightarrow> dict_get (fold step tks c) [] a = dict_get c [] a @ owners tks st a"
proof -
  have k: "fst ` set (step t c) = fst ` set c" for t c by (simp add: step_def)
  show "fst ` set (fold step tks c) = fst ` set c"
    by (induction tks arbitrary: c) (simp_all add: k)
  show "a \<in> fst ` set c \<Longrightarrow> dict_get (fold step tks c) [] a = dict_get c [] a @ owners tks st a"
  proof (induction tks arbitrary: c)
    case Nil
    then show ?case by (simp add: owners_def)
  next
    case (Cons t tks)
    then have "a \<in> fst ` set (step t c)" by (simp add: k)
    from Cons.IH[OF this] Cons.prems show ?case
      by (simp add: step_def owners_def get_fold_add_coverer)
  qed
qed

lemma distinct_fold_add_coverer:
  "distinct (dict_keys c) \<Longrightarrow> distinct (dict_keys (fold (add_coverer tid) tgts c))"
  by (induction tgts arbitrary: c) (auto simp: add_coverer_def dict_append_def distinct_update)

lemma distinct_coverers: "distinct (dict_keys (coverers_of ids tks ts))"
proof -
  have "distinct (dict_keys (fold (\<lambda>t coverers. if t_type t = Work \<and> status_or_pending ts (t_id t) \<noteq> Superseded
      then fold (add_coverer (t_id t)) (t_targets t) coverers else coverers) tks c))"
    if "distinct (dict_keys c)" for c :: "(string, string list) dict"
    using that by (induction tks arbitrary: c) (auto intro: distinct_fold_add_coverer)
  then show ?thesis using distinct_dict_of unfolding coverers_of_def by blast
qed

lemma coverers_of_owners:
  "(a, ids) \<in> set (coverers_of contract tks ts) \<longleftrightarrow>
    a \<in> set contract \<and> ids = owners tks (status_or_pending ts) a"
proof -
  have keys: "fst ` set (coverers_of contract tks ts) = set contract"
    unfolding coverers_of_def coverers_fold(1) by (simp add: dict_simps image_image)
  have get: "dict_get (coverers_of contract tks ts) [] a = owners tks (status_or_pending ts) a"
    if "a \<in> set contract"
    unfolding coverers_of_def
    by (subst coverers_fold(2)) (use that in \<open>simp_all add: dict_simps image_image dict_get_const\<close>)
  show ?thesis using dict_mem_iff[OF distinct_coverers, of a ids contract tks ts "[]"] keys get by auto
qed

lemma check_coverage_Nil:
  "check_coverage contract tks ts = [] \<longleftrightarrow> covered_once (set contract) tks (status_or_pending ts)"
proof -
  have one: "(ids \<noteq> [] \<and> \<not> Suc 0 < length ids) \<longleftrightarrow> (\<exists>i. ids = [i])" for ids :: "string list"
    by (cases ids) auto
  have "set (coverers_of contract tks ts) = (\<lambda>a. (a, owners tks (status_or_pending ts) a)) ` set contract"
    by (auto simp: coverers_of_owners)
  then have all: "(\<forall>x \<in> set (coverers_of contract tks ts). P (fst x) (snd x))
      \<longleftrightarrow> (\<forall>a \<in> set contract. P a (owners tks (status_or_pending ts) a))" for P
    by simp
  have "check_coverage contract tks ts = [] \<longleftrightarrow>
      (\<forall>t \<in> set tks. set (t_targets t) \<subseteq> set contract)
      \<and> (\<forall>x \<in> set (coverers_of contract tks ts). \<exists>i. snd x = [i])"
    by (auto simp: check_coverage_def one[symmetric] split: prod.splits if_splits) fastforce+
  then show ?thesis unfolding covered_once_def using all[of "\<lambda>_ ids. \<exists>i. ids = [i]"] by simp
qed

section \<open>The whole submission check\<close>

lemma plan_ok_checks:
  "plan_ok (set contract) tks (status_or_pending ts) \<longleftrightarrow>
    check_task_ids tks = [] \<and> check_task_shape tks = [] \<and> check_deps_resolve tks = []
    \<and> check_acyclic tks = [] \<and> check_coverage contract tks ts = []"
  by (auto simp: plan_ok_def check_task_ids_Nil check_task_shape_Nil check_deps_resolve_Nil
      check_acyclic_Nil check_coverage_Nil)

section \<open>Upstream closure\<close>

lemma upstream_graph_keys [dict_simps]: "fst ` set (upstream_graph tks) = t_id ` set tks"
proof -
  have "fst ` set (upstream_graph tks) = fst ` set (by_id tks)"
    by (simp add: upstream_graph_def image_image case_prod_unfold)
  then show ?thesis by (simp add: dict_simps)
qed

lemma succs_upstream_graph:
  "distinct (task_ids tks) \<Longrightarrow> t \<in> set tks \<Longrightarrow> succs (upstream_graph tks) (t_id t) = t_depends_on t"
proof -
  assume d: "distinct (task_ids tks)" and t: "t \<in> set tks"
  then have "map_of (upstream_graph tks) (t_id t) = Some (t_depends_on t)"
    by (simp add: upstream_graph_def by_id_eq map_of_eq_Some_iff comp_def)
  then show ?thesis by (simp add: succs_def dict_get_def)
qed

lemma upstream_arcs:
  assumes "distinct (task_ids tks)"
  shows "(x, y) \<in> arcs (upstream_graph tks) \<and> y \<in> t_id ` set tks \<longleftrightarrow> (y, x) \<in> dep_edges tks"
proof (cases "x \<in> t_id ` set tks")
  case True
  then obtain t where t: "t \<in> set tks" "x = t_id t" by auto
  have u: "u = t" if "u \<in> set tks" "t_id u = t_id t" for u
    using distinct_map_inj[OF assms that(1) t(1) that(2)] .
  have "(y, x) \<in> dep_edges tks \<longleftrightarrow> y \<in> set (t_depends_on t) \<and> y \<in> t_id ` set tks"
    unfolding dep_edges_def using t u by blast
  then show ?thesis using t by (simp add: arcs_iff succs_upstream_graph[OF assms])
next
  case False
  then have "succs (upstream_graph tks) x = []" by (simp add: succs_not_key dict_simps)
  with False show ?thesis by (auto simp: arcs_iff dep_edges_def)
qed

text \<open>Walking \<open>depends_on\<close> from \<open>S\<close> reaches what the dependency relation leads to from.\<close>

lemma upstream_reach:
  assumes "distinct (task_ids tks)"
  shows "reach (upstream_graph tks) S \<inter> t_id ` set tks
    = {y. \<exists>x \<in> S \<inter> t_id ` set tks. (y, x) \<in> (dep_edges tks)\<^sup>*}"
proof (intro equalityI subsetI)
  fix y assume y: "y \<in> reach (upstream_graph tks) S \<inter> t_id ` set tks"
  then obtain x where x: "x \<in> S" "(x, y) \<in> (arcs (upstream_graph tks))\<^sup>*" by (auto simp: reach_def)
  from x(2) y have "x \<in> t_id ` set tks \<and> (y, x) \<in> (dep_edges tks)\<^sup>*"
  proof (induction rule: converse_rtrancl_induct)
    case base
    then show ?case by auto
  next
    case (step x z)
    then have z: "z \<in> t_id ` set tks" "(y, z) \<in> (dep_edges tks)\<^sup>*" by auto
    then have e: "(z, x) \<in> dep_edges tks" using step.hyps(1) upstream_arcs[OF assms] by blast
    then have "x \<in> t_id ` set tks" by (auto simp: dep_edges_def)
    with z e show ?case by auto
  qed
  with x show "y \<in> {y. \<exists>x \<in> S \<inter> t_id ` set tks. (y, x) \<in> (dep_edges tks)\<^sup>*}" by auto
next
  fix y assume "y \<in> {y. \<exists>x \<in> S \<inter> t_id ` set tks. (y, x) \<in> (dep_edges tks)\<^sup>*}"
  then obtain x where x: "x \<in> S" "x \<in> t_id ` set tks" "(y, x) \<in> (dep_edges tks)\<^sup>*" by auto
  from x(3) have "(x, y) \<in> (arcs (upstream_graph tks))\<^sup>* \<and> y \<in> t_id ` set tks"
  proof (induction rule: converse_rtrancl_induct)
    case base
    then show ?case using x by auto
  next
    case (step y z)
    then have "(z, y) \<in> arcs (upstream_graph tks) \<and> y \<in> t_id ` set tks"
      using upstream_arcs[OF assms] by blast
    with step show ?case by (auto intro: rtrancl_into_rtrancl)
  qed
  with x show "y \<in> reach (upstream_graph tks) S \<inter> t_id ` set tks" by (auto simp: reach_def)
qed

lemma set_predecessors_of:
  assumes "distinct (task_ids tks)"
  shows "set (predecessors_of tks i) \<inter> t_id ` set tks = {d. (d, i) \<in> dep_edges tks}"
proof (cases "i \<in> t_id ` set tks")
  case True
  then obtain t where t: "t \<in> set tks" "i = t_id t" by auto
  have u: "u = t" if "u \<in> set tks" "t_id u = t_id t" for u
    using distinct_map_inj[OF assms that(1) t(1) that(2)] .
  have "find (\<lambda>t. t_id t = i) tks = Some t"
    by (metis (mono_tags, lifting) find_None_iff find_Some_iff nth_mem option.exhaust t u)
  moreover have "(d, i) \<in> dep_edges tks \<longleftrightarrow> d \<in> set (t_depends_on t) \<and> d \<in> t_id ` set tks" for d
    unfolding dep_edges_def using t u by blast
  ultimately show ?thesis by (auto simp: predecessors_of_def)
next
  case False
  then have "find (\<lambda>t. t_id t = i) tks = None" by (auto simp: find_None_iff)
  with False show ?thesis by (auto simp: predecessors_of_def dep_edges_def)
qed

section \<open>Properties\<close>

text \<open>C18. The submission check of \<^verbatim>\<open>validate_task_list_submission\<close> returns no error exactly for the
  well-formed plans: a non-empty contract, a non-empty list, distinct well-formed ids, the
  body, skill and target rules of each task type, resolving dependencies without self-loops, an
  acyclic dependency relation, and every assertion named by exactly one work task, once.\<close>

theorem submission_accepts_iff_plan_ok:
  "validate_task_list_submission contract tks = [] \<longleftrightarrow>
    contract \<noteq> [] \<and> tks \<noteq> [] \<and> plan_ok (set contract) tks (\<lambda>_. Pending)"
proof -
  have "status_or_pending None = (\<lambda>_. Pending)" by (simp add: status_or_pending_def fun_eq_iff)
  then show ?thesis using plan_ok_checks[of contract tks None] by (auto simp: validate_task_list_submission_def)
qed

text \<open>\<^verbatim>\<open>check_acyclic\<close> (Kahn's algorithm over the in-degree and adjacency dictionaries) accepts a
  task list exactly when its ids are distinct and its dependency relation has no cycle.\<close>

theorem check_acyclic_correct:
  "check_acyclic tks = [] \<longleftrightarrow> distinct (task_ids tks) \<and> acyclic (dep_edges tks)"
  by (rule check_acyclic_Nil)

text \<open>\<^verbatim>\<open>upstream_tasks\<close> returns exactly the tasks the given task transitively depends on that satisfy
  the predicate, whatever the authored order of the dependencies.\<close>

theorem upstream_tasks_transitive:
  assumes "distinct (task_ids tks)"
  shows "t \<in> set (upstream_tasks tks i predicate) \<longleftrightarrow>
    t \<in> set tks \<and> (t_id t, i) \<in> (dep_edges tks)\<^sup>+ \<and> (case predicate of None \<Rightarrow> True | Some p \<Rightarrow> p t)"
proof -
  let ?seen = "dfs_collect (upstream_graph tks) [] (rev (predecessors_of tks i))"
  have "set ?seen = {y. \<exists>x. (x, i) \<in> dep_edges tks \<and> (y, x) \<in> (dep_edges tks)\<^sup>*}"
    using upstream_reach[OF assms, of "set (predecessors_of tks i)"] set_predecessors_of[OF assms, of i]
    by (simp add: dfs_collect_reach dict_simps)
  then have seen: "set ?seen = {y. (y, i) \<in> (dep_edges tks)\<^sup>+}"
    by (auto simp: trancl_unfold_right)
  have "the (map_of (by_id tks) (t_id u)) = u" if "u \<in> set tks" for u
    using by_id_lookup[OF assms that] by simp
  moreover have "y \<in> t_id ` set tks" if "(y, i) \<in> (dep_edges tks)\<^sup>+" for y
    using tranclD[OF that] by (auto simp: dep_edges_def)
  ultimately have "t \<in> (\<lambda>i. the (map_of (by_id tks) i)) ` set ?seen \<longleftrightarrow> t \<in> set tks \<and> (t_id t, i) \<in> (dep_edges tks)\<^sup>+"
    unfolding seen by (auto simp: image_iff) metis+
  then show ?thesis by (auto simp: upstream_tasks_def)
qed

section \<open>The demonstration mission\<close>

lemma demo_plan_ok: "plan_ok (set demo_contract) demo_plan (\<lambda>_. Pending)"
proof -
  have "validate_task_list_submission demo_contract demo_plan = []" by code_simp
  then have "check_task_ids demo_plan = [] \<and> check_task_shape demo_plan = [] \<and> check_deps_resolve demo_plan = []
      \<and> check_acyclic demo_plan = [] \<and> check_coverage demo_contract demo_plan None = []"
    unfolding validate_task_list_submission_def by (auto simp: demo_plan_def demo_contract_def split: if_splits)
  moreover have "status_or_pending None = (\<lambda>_. Pending)" by (simp add: status_or_pending_def fun_eq_iff)
  ultimately show ?thesis using plan_ok_checks[of demo_contract demo_plan None] by simp
qed

lemma demo_acyclic: "acyclic (dep_edges demo_plan)" and demo_closed: "deps_closed demo_plan"
  using demo_plan_ok by (simp_all add: plan_ok_def)

theorem upstream_tasks_transitive_witness:
  "demo_work \<in> set (upstream_tasks demo_plan ''g1'' (Some (\<lambda>t. t_type t = Work))) \<longleftrightarrow>
    demo_work \<in> set demo_plan \<and> (t_id demo_work, ''g1'') \<in> (dep_edges demo_plan)\<^sup>+ \<and> t_type demo_work = Work"
  using upstream_tasks_transitive[OF demo_distinct, of demo_work "''g1''" "Some (\<lambda>t. t_type t = Work)"] by simp

end
