(* ===== verification/Task_List_Patch.thy ===== *)
theory Task_List_Patch
  imports Task_Validation_Proofs
begin

text \<open>
  \<^verbatim>\<open>task_list_patch.py\<close>: the pure application of a \<open>TaskListPatch\<close>.  \<open>apply_patch\<close> returns the
  patched list, cursor and contract ids with no error, or the inputs it was given with the
  errors of the first failing group.  The groups are separate definitions in the order of the
  source.  The patched cursor is a new dictionary over the caller's entry objects, so when the final
  recheck fails the entries the caller handed in have already taken the patched statuses
  (\<open>shared_entries\<close>); entries the patch created exist only in the dropped dictionary.
\<close>

definition sealed_task_ids :: "task_list \<Rightarrow> task_state \<Rightarrow> string list" where
  "sealed_task_ids tks ts =
    (let cleared_gates = map t_id (filter (\<lambda>t. t_type t = Gate \<and> status_of ts (t_id t) = Cleared) tks)
     in if cleared_gates = [] then []
        else dfs_collect (upstream_graph tks) [] (rev cleared_gates))"

section \<open>Rewriting dependencies\<close>

fun rewrite_deps :: "(string, string) dict \<Rightarrow> string list \<Rightarrow> string list \<Rightarrow> string list \<Rightarrow> string list" where
  "rewrite_deps supersede cancel [] new_deps = new_deps"
| "rewrite_deps supersede cancel (dep # rest) new_deps =
     (if dep \<in> set cancel then rewrite_deps supersede cancel rest new_deps
      else let mapped = dict_get supersede dep dep
           in rewrite_deps supersede cancel rest
                (if mapped \<notin> set new_deps then new_deps @ [mapped] else new_deps))"

definition rewrite_depends_on :: "(string, string) dict \<Rightarrow> string list \<Rightarrow> task list \<Rightarrow> task list" where
  "rewrite_depends_on supersede cancel tasks = map (\<lambda>t.
     let new_deps = rewrite_deps supersede cancel (t_depends_on t) []
     in if new_deps \<noteq> t_depends_on t then t\<lparr>t_depends_on := new_deps\<rparr> else t) tasks"

section \<open>Integrity checks\<close>

definition check_retirable :: "task_state \<Rightarrow> string list \<Rightarrow> string \<Rightarrow> string \<Rightarrow> validation_error list" where
  "check_retirable ts sealed old_id op =
    (let cur = status_of ts old_id
     in if cur = Cleared then [ValidationError (op @ ''_cleared_task'') old_id]
        else if cur = Running
        then [ValidationError (op @ ''_status_invalid'') (old_id @ '' (status=running)'')]
        else (if cur \<notin> {Pending, Failed}
              then [ValidationError (op @ ''_status_invalid'')
                (old_id @ '' (status='' @ task_status_str cur @ '')'')] else [])
             @ (if old_id \<in> set sealed
                then [ValidationError (op @ ''_inside_sealed_subgraph'') old_id] else []))"

text \<open>Group 2: \<open>add_items\<close> against the grammar, the known ids and the files on disk.\<close>

definition check_add_items :: "string list \<Rightarrow> string list option \<Rightarrow> string list \<Rightarrow> validation_error list" where
  "check_add_items contract_ids on_disk add_items =
    concat (map (\<lambda>aid.
      (if \<not> assertion_id_ok aid then [ValidationError ''invalid_assertion_id'' aid] else [])
      @ (if aid \<in> set contract_ids then [ValidationError ''duplicate_assertion'' aid] else [])
      @ (case on_disk of None \<Rightarrow> []
         | Some ids \<Rightarrow> if aid \<notin> set ids then [ValidationError ''assertion_file_missing'' aid] else []))
      add_items)
    @ (case on_disk of None \<Rightarrow> []
       | Some ids \<Rightarrow> map (ValidationError ''undeclared_new_assertion'')
           (sorted_set (filter (\<lambda>i. i \<notin> set add_items) ids)))"

text \<open>Group 3: new ids are new, and named once.\<close>

fun check_add_from :: "string list \<Rightarrow> string list \<Rightarrow> task list \<Rightarrow> validation_error list" where
  "check_add_from existing seen [] = []"
| "check_add_from existing seen (t # rest) =
     (if t_id t \<in> set existing then [ValidationError ''task_id_collision'' (t_id t)] else [])
     @ (if t_id t \<in> set seen then [ValidationError ''duplicate_add_task'' (t_id t)] else [])
     @ check_add_from existing (t_id t # seen) rest"

text \<open>Group 4: what is retired, and by what it is replaced.\<close>

definition list_repr :: "string list \<Rightarrow> string" where
  "list_repr xs = ''['' @ join '', '' (map py_repr xs) @ '']''"

definition check_overlap :: "string list \<Rightarrow> (string, string) dict \<Rightarrow> validation_error list" where
  "check_overlap cancel supersede =
    (let overlap = filter (\<lambda>i. i \<in> fst ` set supersede) cancel
     in if overlap \<noteq> [] then [ValidationError ''cancel_supersede_overlap''
          (''task ids cancelled and superseded in the same patch: '' @ list_repr (sorted_set overlap))]
        else [])"

definition check_supersede_item :: "task_state \<Rightarrow> string list \<Rightarrow> string list \<Rightarrow> string list \<Rightarrow> string list
    \<Rightarrow> string \<times> string \<Rightarrow> validation_error list" where
  "check_supersede_item ts sealed existing all_ids cancel item = (case item of (old_id, new_id) \<Rightarrow>
    (if old_id = new_id then [ValidationError ''supersede_self'' old_id] else [])
    @ (if old_id \<notin> set existing then [ValidationError ''unknown_supersede_target'' old_id]
       else check_retirable ts sealed old_id ''supersede''
         @ (if new_id \<notin> set all_ids
            then [ValidationError ''supersede_new_id_unknown''
              (old_id @ '' -> '' @ new_id @ '' (new id not in add[] or existing tasks)'')]
            else if new_id \<in> set cancel
            then [ValidationError ''supersede_target_cancelled''
              (old_id @ '' -> '' @ new_id @ '' (new id is being cancelled by the same patch)'')]
            else [])))"

definition check_cancel_item :: "task_state \<Rightarrow> string list \<Rightarrow> string list \<Rightarrow> string \<Rightarrow> validation_error list" where
  "check_cancel_item ts sealed existing old_id =
    (if old_id \<notin> set existing then [ValidationError ''unknown_cancel_target'' old_id]
     else check_retirable ts sealed old_id ''cancel'')"

definition check_retired :: "task_list \<Rightarrow> task_state \<Rightarrow> task_list_patch \<Rightarrow> validation_error list" where
  "check_retired tks ts p =
    (let existing = task_ids tks; all_ids = existing @ task_ids (p_add p);
         sealed = sealed_task_ids tks ts
     in check_overlap (p_cancel p) (p_supersede p)
        @ concat (map (check_supersede_item ts sealed existing all_ids (p_cancel p)) (p_supersede p))
        @ concat (map (check_cancel_item ts sealed existing) (p_cancel p)))"

section \<open>Building the patched plan\<close>

definition patched_tasks :: "task_list \<Rightarrow> task_list_patch \<Rightarrow> task_list" where
  "patched_tasks tks p = rewrite_depends_on (p_supersede p) (p_cancel p) (tks @ p_add p)"

definition patched_state :: "task_state \<Rightarrow> task_list_patch \<Rightarrow> task_state" where
  "patched_state ts p =
    fold (\<lambda>t. set_status (t_id t) Pending) (p_add p)
      (fold (\<lambda>i. set_status i Superseded) (p_cancel p)
        (fold (\<lambda>i. set_status i Superseded) (dict_keys (p_supersede p)) ts))"

definition patched_contract :: "string list \<Rightarrow> task_list_patch \<Rightarrow> string list" where
  "patched_contract contract_ids p =
    contract_ids @ remdups (filter (\<lambda>a. a \<notin> set contract_ids) (p_add_items p))"

text \<open>Group 6: the checks of a submission again, over the patched plan.\<close>

definition recheck :: "task_list \<Rightarrow> task_state \<Rightarrow> string list \<Rightarrow> validation_error list" where
  "recheck tks ts contract_ids =
    (if check_task_ids tks \<noteq> [] then check_task_ids tks
     else if check_task_shape tks \<noteq> [] then check_task_shape tks
     else if check_deps_resolve tks \<noteq> [] then check_deps_resolve tks
     else if check_acyclic tks \<noteq> [] then check_acyclic tks
     else check_coverage contract_ids tks (Some ts))"

section \<open>Applying a patch\<close>

definition shared_entries :: "task_state \<Rightarrow> task_state \<Rightarrow> task_state" where
  "shared_entries ts patched = map (\<lambda>(k, e). (k, dict_get patched e k)) ts"

definition apply_patch :: "task_list \<Rightarrow> task_state \<Rightarrow> string list \<Rightarrow> task_list_patch \<Rightarrow> string list option
    \<Rightarrow> task_list \<times> task_state \<times> string list \<times> validation_error list" where
  "apply_patch tks ts contract_ids p on_disk =
    (if is_empty_patch p
     then (tks, ts, contract_ids, [ValidationError ''empty_patch'' ''no ops in TaskListPatch''])
     else let errors = check_add_items contract_ids on_disk (p_add_items p)
     in if errors \<noteq> [] then (tks, ts, contract_ids, errors)
     else let errors = check_add_from (task_ids tks) [] (p_add p)
     in if errors \<noteq> [] then (tks, ts, contract_ids, errors)
     else let errors = check_retired tks ts p
     in if errors \<noteq> [] then (tks, ts, contract_ids, errors)
     else let tks' = patched_tasks tks p; ts' = patched_state ts p;
              contract' = patched_contract contract_ids p;
              errors = recheck tks' ts' contract'
     in if errors \<noteq> [] then (tks, shared_entries ts ts', contract_ids, errors)
     else (tks', ts', contract', []))"

section \<open>Shared facts\<close>

lemma rewrite_deps_set:
  "set (rewrite_deps sps cans deps acc) = set acc \<union> (\<lambda>d. dict_get sps d d) ` (set deps - set cans)"
  by (induction deps arbitrary: acc) (auto simp: Let_def)

lemma rewrite_deps_distinct: "distinct acc \<Longrightarrow> distinct (rewrite_deps sps cans deps acc)"
  by (induction deps arbitrary: acc) (auto simp: Let_def)

lemma rewrite_depends_on_alt:
  "rewrite_depends_on sps cans tasks
    = map (\<lambda>t. t\<lparr>t_depends_on := rewrite_deps sps cans (t_depends_on t) []\<rparr>) tasks"
  by (simp add: rewrite_depends_on_def Let_def)

lemma task_ids_rewrite [simp]: "task_ids (rewrite_depends_on sps cans tasks) = task_ids tasks"
  by (simp add: rewrite_depends_on_alt comp_def)

lemma task_ids_patched [simp]: "task_ids (patched_tasks tks p) = task_ids tks @ task_ids (p_add p)"
  by (simp add: patched_tasks_def)

lemma set_patched_contract [simp]:
  "set (patched_contract contract p) = set contract \<union> set (p_add_items p)"
  by (auto simp: patched_contract_def)

lemma status_of_patched:
  "status_of (patched_state ts p) i =
    (if i \<in> t_id ` set (p_add p) then Pending
     else if i \<in> set (p_cancel p) \<union> fst ` set (p_supersede p) then Superseded
     else status_of ts i)"
  by (auto simp: patched_state_def status_simps)

lemma recheck_Nil: "recheck tks ts contract = [] \<longleftrightarrow> plan_ok (set contract) tks (status_of ts)"
proof -
  have "status_or_pending (Some ts) = status_of ts" by (simp add: status_or_pending_def fun_eq_iff)
  then show ?thesis using plan_ok_checks[of contract tks "Some ts"] by (auto simp: recheck_def)
qed

lemma check_add_from_Nil:
  "check_add_from existing seen tks = [] \<longleftrightarrow>
    distinct (task_ids tks) \<and> t_id ` set tks \<inter> (set existing \<union> set seen) = {}"
  by (induction tks arbitrary: seen) auto

lemma check_add_items_Nil:
  "check_add_items contract on_disk items = [] \<longleftrightarrow>
    (\<forall>a \<in> set items. assertion_id_ok a \<and> a \<notin> set contract)
    \<and> (case on_disk of None \<Rightarrow> True | Some ids \<Rightarrow> set items = set ids)"
  by (auto simp: check_add_items_def filter_empty_conv split: option.splits)

text \<open>When a task may be retired.\<close>

definition retirable :: "task_list \<Rightarrow> task_state \<Rightarrow> string \<Rightarrow> bool" where
  "retirable tks ts i \<longleftrightarrow> i \<in> t_id ` set tks \<and> status_of ts i \<in> {Pending, Failed}
     \<and> i \<notin> set (sealed_task_ids tks ts)"

lemma check_retirable_Nil:
  "check_retirable ts sealed i op = [] \<longleftrightarrow> status_of ts i \<in> {Pending, Failed} \<and> i \<notin> set sealed"
  by (auto simp: check_retirable_def Let_def)

definition retirement_ok :: "task_list \<Rightarrow> task_state \<Rightarrow> task_list_patch \<Rightarrow> bool" where
  "retirement_ok tks ts p \<longleftrightarrow>
     set (p_cancel p) \<inter> fst ` set (p_supersede p) = {}
     \<and> (\<forall>i \<in> set (p_cancel p) \<union> fst ` set (p_supersede p). retirable tks ts i)
     \<and> (\<forall>(old, new) \<in> set (p_supersede p). old \<noteq> new
         \<and> new \<in> t_id ` set (tks @ p_add p) \<and> new \<notin> set (p_cancel p))"

lemma check_retired_Nil: "check_retired tks ts p = [] \<longleftrightarrow> retirement_ok tks ts p"
proof -
  let ?sealed = "sealed_task_ids tks ts" and ?all = "task_ids tks @ task_ids (p_add p)"
  have overlap: "check_overlap (p_cancel p) (p_supersede p) = [] \<longleftrightarrow> set (p_cancel p) \<inter> fst ` set (p_supersede p) = {}"
    by (auto simp: check_overlap_def Let_def filter_empty_conv)
  have cancel: "check_cancel_item ts ?sealed (task_ids tks) i = [] \<longleftrightarrow> retirable tks ts i" for i
    by (auto simp: check_cancel_item_def check_retirable_Nil retirable_def)
  have supersede: "check_supersede_item ts ?sealed (task_ids tks) ?all (p_cancel p) x = []
      \<longleftrightarrow> retirable tks ts (fst x) \<and> fst x \<noteq> snd x \<and> snd x \<in> t_id ` set (tks @ p_add p) \<and> snd x \<notin> set (p_cancel p)" for x
    by (cases x) (auto simp: check_supersede_item_def check_retirable_Nil retirable_def)
  have "check_retired tks ts p = [] \<longleftrightarrow> set (p_cancel p) \<inter> fst ` set (p_supersede p) = {}
      \<and> (\<forall>x \<in> set (p_supersede p). retirable tks ts (fst x) \<and> fst x \<noteq> snd x
          \<and> snd x \<in> t_id ` set (tks @ p_add p) \<and> snd x \<notin> set (p_cancel p))
      \<and> (\<forall>i \<in> set (p_cancel p). retirable tks ts i)"
    unfolding check_retired_def Let_def append_is_Nil_conv concat_map_Nil_iff overlap cancel supersede ..
  also have "\<dots> \<longleftrightarrow> retirement_ok tks ts p"
    unfolding retirement_ok_def split_beta' by blast
  finally show ?thesis .
qed

definition additions_ok :: "task_list \<Rightarrow> string list \<Rightarrow> task_list_patch \<Rightarrow> string list option \<Rightarrow> bool" where
  "additions_ok tks contract p on_disk \<longleftrightarrow>
     (\<forall>a \<in> set (p_add_items p). assertion_id_ok a \<and> a \<notin> set contract)
     \<and> (case on_disk of None \<Rightarrow> True | Some ids \<Rightarrow> set (p_add_items p) = set ids)
     \<and> distinct (task_ids (p_add p)) \<and> t_id ` set (p_add p) \<inter> t_id ` set tks = {}"

lemma apply_patch_cases:
  "apply_patch tks ts contract p on_disk =
    (if \<not> is_empty_patch p \<and> additions_ok tks contract p on_disk \<and> retirement_ok tks ts p
        \<and> plan_ok (set (patched_contract contract p)) (patched_tasks tks p) (status_of (patched_state ts p))
     then (patched_tasks tks p, patched_state ts p, patched_contract contract p, [])
     else (tks,
       if \<not> is_empty_patch p \<and> additions_ok tks contract p on_disk \<and> retirement_ok tks ts p
       then shared_entries ts (patched_state ts p) else ts,
       contract, snd (snd (snd (apply_patch tks ts contract p on_disk)))))"
  and apply_patch_errors_Nil:
  "snd (snd (snd (apply_patch tks ts contract p on_disk))) = [] \<longleftrightarrow>
     \<not> is_empty_patch p \<and> additions_ok tks contract p on_disk \<and> retirement_ok tks ts p
     \<and> plan_ok (set (patched_contract contract p)) (patched_tasks tks p) (status_of (patched_state ts p))"
proof -
  have add: "additions_ok tks contract p on_disk \<longleftrightarrow>
      check_add_items contract on_disk (p_add_items p) = [] \<and> check_add_from (task_ids tks) [] (p_add p) = []"
    by (auto simp: additions_ok_def check_add_items_Nil check_add_from_Nil)
  show "apply_patch tks ts contract p on_disk =
    (if \<not> is_empty_patch p \<and> additions_ok tks contract p on_disk \<and> retirement_ok tks ts p
        \<and> plan_ok (set (patched_contract contract p)) (patched_tasks tks p) (status_of (patched_state ts p))
     then (patched_tasks tks p, patched_state ts p, patched_contract contract p, [])
     else (tks,
       if \<not> is_empty_patch p \<and> additions_ok tks contract p on_disk \<and> retirement_ok tks ts p
       then shared_entries ts (patched_state ts p) else ts,
       contract, snd (snd (snd (apply_patch tks ts contract p on_disk)))))"
    unfolding apply_patch_def Let_def add check_retired_Nil[symmetric] recheck_Nil[symmetric] by auto
  show "snd (snd (snd (apply_patch tks ts contract p on_disk))) = [] \<longleftrightarrow>
     \<not> is_empty_patch p \<and> additions_ok tks contract p on_disk \<and> retirement_ok tks ts p
     \<and> plan_ok (set (patched_contract contract p)) (patched_tasks tks p) (status_of (patched_state ts p))"
    unfolding apply_patch_def Let_def add check_retired_Nil[symmetric] recheck_Nil[symmetric] by auto
qed

end
