(* ===== verification/Task_List_Patch_Proofs.thy ===== *)
theory Task_List_Patch_Proofs
  imports Task_List_Patch
begin

text \<open>
  What an accepted patch does to a mission plan, and what a refused one leaves alone.  The
  properties rest on \<open>apply_patch_cases\<close> (the one case split of the function) and on the
  characterisations of the rewritten dependencies and of the patched cursor.
\<close>

section \<open>Rewritten dependencies\<close>

text \<open>The rewriting loop keeps the first mention of each surviving dependency, in order.\<close>

definition first_mentions :: "'a list \<Rightarrow> 'a list" where
  "first_mentions xs = rev (remdups (rev xs))"

lemma first_mentions_snoc:
  "first_mentions (xs @ [x]) = (if x \<in> set xs then first_mentions xs else first_mentions xs @ [x])"
  by (simp add: first_mentions_def)

lemma set_first_mentions [simp]: "set (first_mentions xs) = set xs"
  by (simp add: first_mentions_def)

lemma distinct_first_mentions [simp]: "distinct (first_mentions xs)"
  by (simp add: first_mentions_def)

lemma first_mentions_distinct: "distinct xs \<Longrightarrow> first_mentions xs = xs"
  by (simp add: first_mentions_def distinct_remdups_id)

lemma rewrite_deps_first_mentions:
  "rewrite_deps sps cans deps (first_mentions acc)
    = first_mentions (acc @ map (\<lambda>d. dict_get sps d d) (filter (\<lambda>d. d \<notin> set cans) deps))"
proof (induction deps arbitrary: acc)
  case Nil
  then show ?case by simp
next
  case (Cons d deps)
  have "rewrite_deps sps cans (d # deps) (first_mentions acc)
      = (if d \<in> set cans then rewrite_deps sps cans deps (first_mentions acc)
         else rewrite_deps sps cans deps (first_mentions (acc @ [dict_get sps d d])))"
    by (simp add: Let_def first_mentions_snoc)
  then show ?case by (simp add: Cons.IH)
qed

text \<open>The survivors of one task's dependency list under a patch.\<close>

definition surviving_deps :: "task_list_patch \<Rightarrow> string list \<Rightarrow> string list" where
  "surviving_deps p deps =
    first_mentions (map (\<lambda>d. dict_get (p_supersede p) d d) (filter (\<lambda>d. d \<notin> set (p_cancel p)) deps))"

lemma patched_tasks_alt:
  "patched_tasks tks p = map (\<lambda>t. t\<lparr>t_depends_on := surviving_deps p (t_depends_on t)\<rparr>) (tks @ p_add p)"
  using rewrite_deps_first_mentions[of "p_supersede p" "p_cancel p" _ "[]"]
  by (simp add: patched_tasks_def rewrite_depends_on_alt surviving_deps_def first_mentions_def)

lemma dict_get_id_cases: "dict_get d k k = k \<and> k \<notin> fst ` set d \<or> (k, dict_get d k k) \<in> set d"
  by (auto simp: dict_get_def map_of_eq_None_iff split: option.splits dest: map_of_SomeD)

lemma apply_patch_accepted:
  assumes "apply_patch tks ts contract p on_disk = (tks', ts', contract', [])"
  shows "tks' = patched_tasks tks p" "ts' = patched_state ts p" "contract' = patched_contract contract p"
    and "retirement_ok tks ts p" "additions_ok tks contract p on_disk"
    and "plan_ok (set contract') tks' (status_of ts')"
proof -
  have ok: "\<not> is_empty_patch p \<and> additions_ok tks contract p on_disk \<and> retirement_ok tks ts p
      \<and> plan_ok (set (patched_contract contract p)) (patched_tasks tks p) (status_of (patched_state ts p))"
    using apply_patch_errors_Nil[of tks ts contract p on_disk] unfolding assms by simp
  have eq: "(tks', ts', contract', []) = (patched_tasks tks p, patched_state ts p, patched_contract contract p, [] :: validation_error list)"
    using apply_patch_cases[of tks ts contract p on_disk] unfolding assms if_P[OF ok] .
  show "tks' = patched_tasks tks p" "ts' = patched_state ts p" "contract' = patched_contract contract p"
    using eq by simp_all
  with ok show "retirement_ok tks ts p" "additions_ok tks contract p on_disk"
    and "plan_ok (set contract') tks' (status_of ts')" by simp_all
qed

lemma sealed_task_ids_set:
  "set (sealed_task_ids tks ts)
    = reach (upstream_graph tks) {t_id t | t. t \<in> set tks \<and> t_type t = Gate \<and> status_of ts (t_id t) = Cleared}
      \<inter> t_id ` set tks"
proof -
  let ?gs = "map t_id (filter (\<lambda>t. t_type t = Gate \<and> status_of ts (t_id t) = Cleared) tks)"
  have s: "set (rev ?gs) = {t_id t | t. t \<in> set tks \<and> t_type t = Gate \<and> status_of ts (t_id t) = Cleared}"
    by auto
  show ?thesis
  proof (cases "?gs = []")
    case True
    then have "{t_id t | t. t \<in> set tks \<and> t_type t = Gate \<and> status_of ts (t_id t) = Cleared} = {}"
      using s by simp
    moreover have "sealed_task_ids tks ts = []" using True unfolding sealed_task_ids_def Let_def by (rule if_P)
    ultimately show ?thesis by (simp only: reach_empty Int_empty_left list.set)
  next
    case False
    then have "set (sealed_task_ids tks ts) = set (dfs_collect (upstream_graph tks) [] (rev ?gs))"
      unfolding sealed_task_ids_def Let_def by simp
    then show ?thesis using dfs_collect_reach[of "upstream_graph tks" "rev ?gs"] s by (simp add: dict_simps)
  qed
qed

text \<open>No task that is still active waits for a retired one.\<close>

definition no_retired_deps :: "task_list \<Rightarrow> task_state \<Rightarrow> bool" where
  "no_retired_deps tks ts \<longleftrightarrow> (\<forall>t \<in> set tks. status_of ts (t_id t) \<noteq> Superseded \<longrightarrow>
     (\<forall>d \<in> set (t_depends_on t). status_of ts d \<noteq> Superseded))"

section \<open>Properties\<close>

text \<open>What the fields of a patch document about the tasks it retires: cancelled and superseded tasks are
  apart, each is an existing pending or failed task outside the sealed subgraph, and a replacement is
  another task, not cancelled, that the patch adds or that exists and is not superseded.\<close>

definition documented_retirement :: "task_list \<Rightarrow> task_state \<Rightarrow> task_list_patch \<Rightarrow> bool" where
  "documented_retirement tks ts p \<longleftrightarrow>
     set (p_cancel p) \<inter> fst ` set (p_supersede p) = {}
     \<and> (\<forall>i \<in> set (p_cancel p) \<union> fst ` set (p_supersede p). i \<in> t_id ` set tks
          \<and> status_of ts i \<in> {Pending, Failed} \<and> i \<notin> set (sealed_task_ids tks ts))
     \<and> (\<forall>(old, new) \<in> set (p_supersede p). old \<noteq> new \<and> new \<notin> set (p_cancel p)
          \<and> (new \<in> t_id ` set (p_add p) \<or> new \<in> t_id ` set tks \<and> status_of ts new \<noteq> Superseded))"

text \<open>C15. For a patch whose replacements are added by it, or are neither superseded already nor
  superseded by the patch itself, \<^verbatim>\<open>apply_patch\<close> reports no error exactly when the patch is not empty,
  the added assertions and tasks are new and well-named (and match the files on disk when those are
  given), the retired tasks and their replacements are as the fields of the patch document them, and
  the patched plan again satisfies every submission check.  The condition is needed: the code does
  not look at the status of a replacement.\<close>

theorem apply_patch_accepts_iff:
  assumes "\<forall>(old, new) \<in> set (p_supersede p). new \<in> t_id ` set (p_add p)
      \<or> status_of ts new \<noteq> Superseded \<and> new \<notin> fst ` set (p_supersede p)"
  shows "snd (snd (snd (apply_patch tks ts contract p on_disk))) = [] \<longleftrightarrow>
     \<not> is_empty_patch p \<and> additions_ok tks contract p on_disk \<and> documented_retirement tks ts p
     \<and> plan_ok (set (patched_contract contract p)) (patched_tasks tks p) (status_of (patched_state ts p))"
proof -
  have "(\<forall>(old, new) \<in> set (p_supersede p). old \<noteq> new \<and> new \<in> t_id ` set (tks @ p_add p) \<and> new \<notin> set (p_cancel p))
      \<longleftrightarrow> (\<forall>(old, new) \<in> set (p_supersede p). old \<noteq> new \<and> new \<notin> set (p_cancel p)
          \<and> (new \<in> t_id ` set (p_add p) \<or> new \<in> t_id ` set tks \<and> status_of ts new \<noteq> Superseded))"
    by (rule ball_cong[OF refl]) (use assms in \<open>auto\<close>)
  then have "retirement_ok tks ts p \<longleftrightarrow> documented_retirement tks ts p"
    unfolding retirement_ok_def documented_retirement_def retirable_def by (simp only:)
  then show ?thesis unfolding apply_patch_errors_Nil by simp
qed

text \<open>C16. An accepted patch preserves the well-formedness of the plan: distinct ids, task shapes, closed
  and acyclic dependencies, and exactly one active work task for every assertion of the extended
  contract.\<close>

theorem apply_patch_preserves_plan_ok:
  assumes "apply_patch tks ts contract p on_disk = (tks', ts', contract', [])"
  shows "plan_ok (set contract') tks' (status_of ts')"
  using assms by (rule apply_patch_accepted(6))

text \<open>A refused patch returns the task list and the contract it was given.  The cursor keeps its task
  ids in their order; it is the one given, unless every check before the last passed: then the
  entries the caller owned carry the patched statuses.\<close>

theorem apply_patch_refused:
  assumes "apply_patch tks ts contract p on_disk = (tks', ts', contract', errors)" and "errors \<noteq> []"
  shows "tks' = tks \<and> contract' = contract \<and> map fst ts' = map fst ts
    \<and> ts' = (if \<not> is_empty_patch p \<and> additions_ok tks contract p on_disk \<and> retirement_ok tks ts p
             then shared_entries ts (patched_state ts p) else ts)"
proof -
  have "map fst (shared_entries ts d) = map fst ts" for d by (auto simp: shared_entries_def)
  moreover have "\<not> (\<not> is_empty_patch p \<and> additions_ok tks contract p on_disk \<and> retirement_ok tks ts p
      \<and> plan_ok (set (patched_contract contract p)) (patched_tasks tks p) (status_of (patched_state ts p)))"
    using apply_patch_errors_Nil[of tks ts contract p on_disk] assms by simp
  note eq = apply_patch_cases[of tks ts contract p on_disk, unfolded if_not_P[OF this] assms(1) prod.inject]
  ultimately show ?thesis using eq by simp
qed

text \<open>The cursor after an accepted patch: added tasks are pending, cancelled and superseded tasks are
  superseded, every other task keeps its status, and every task its last attempt.\<close>

theorem apply_patch_status:
  assumes "apply_patch tks ts contract p on_disk = (tks', ts', contract', [])"
  shows "status_of ts' i =
      (if i \<in> t_id ` set (p_add p) then Pending
       else if i \<in> set (p_cancel p) \<union> fst ` set (p_supersede p) then Superseded
       else status_of ts i) \<and> last_attempt_of ts' i = last_attempt_of ts i"
  unfolding apply_patch_accepted(2)[OF assms] status_of_patched
  by (simp add: patched_state_def last_attempt_of_fold_set_status[where f = "\<lambda>i. i"])

text \<open>C17. An accepted patch never moves a running or cleared task of the plan, nor any task upstream of a
  cleared gate: finished and sealed work is immutable.\<close>

theorem apply_patch_keeps_finished:
  assumes "apply_patch tks ts contract p on_disk = (tks', ts', contract', [])"
    and "t \<in> set tks"
    and "status_of ts (t_id t) \<in> {Running, Cleared} \<or> t_id t \<in> set (sealed_task_ids tks ts)"
  shows "status_of ts' (t_id t) = status_of ts (t_id t)"
proof -
  have "t_id t \<notin> t_id ` set (p_add p)"
    using apply_patch_accepted(5)[OF assms(1)] assms(2) unfolding additions_ok_def by blast
  moreover have "t_id t \<notin> set (p_cancel p) \<union> fst ` set (p_supersede p)"
  proof
    assume "t_id t \<in> set (p_cancel p) \<union> fst ` set (p_supersede p)"
    then have "retirable tks ts (t_id t)"
      using apply_patch_accepted(4)[OF assms(1)] unfolding retirement_ok_def by blast
    then show False using assms(3) by (auto simp: retirable_def)
  qed
  ultimately show ?thesis by (simp add: apply_patch_accepted(2)[OF assms(1)] status_of_patched)
qed

text \<open>\<^verbatim>\<open>sealed_task_ids\<close> is the upstream closure of the cleared gates: a task of the plan is sealed
  exactly when it is a cleared gate or some cleared gate transitively depends on it.\<close>

theorem sealed_iff_upstream_of_cleared_gate:
  assumes "distinct (task_ids tks)"
  shows "i \<in> set (sealed_task_ids tks ts) \<longleftrightarrow>
    (\<exists>g \<in> set tks. t_type g = Gate \<and> status_of ts (t_id g) = Cleared \<and> (i, t_id g) \<in> (dep_edges tks)\<^sup>*)"
  unfolding sealed_task_ids_set upstream_reach[OF assms] by auto

text \<open>Every task of the original plan survives an accepted patch in its authored place, added tasks
  follow, and each keeps all its fields but \<open>depends_on\<close>, which loses the cancelled ids, has
  superseded ids replaced, and names each survivor once, in the order of first mention.\<close>

theorem apply_patch_rewrites_deps:
  assumes "apply_patch tks ts contract p on_disk = (tks', ts', contract', [])"
  shows "tks' = map (\<lambda>t. t\<lparr>t_depends_on := surviving_deps p (t_depends_on t)\<rparr>) (tks @ p_add p)
    \<and> (\<forall>t \<in> set tks'. distinct (t_depends_on t) \<and> set (t_depends_on t) \<inter> set (p_cancel p) = {})"
proof -
  have r: "set (surviving_deps p ds) \<inter> set (p_cancel p) = {}" for ds
  proof -
    have "dict_get (p_supersede p) d d \<notin> set (p_cancel p)" if "d \<notin> set (p_cancel p)" for d
      using that dict_get_id_cases[of "p_supersede p" d] apply_patch_accepted(4)[OF assms]
      unfolding retirement_ok_def by auto
    then show ?thesis by (auto simp: surviving_deps_def)
  qed
  have "\<forall>t \<in> set tks'. \<exists>ds. t_depends_on t = surviving_deps p ds"
    by (auto simp: apply_patch_accepted(1)[OF assms] patched_tasks_alt)
  moreover have "distinct (surviving_deps p ds)" for ds by (simp add: surviving_deps_def)
  ultimately show ?thesis
    using r by (metis apply_patch_accepted(1)[OF assms] patched_tasks_alt)
qed

text \<open>If no active task named a retired dependency, and the patch neither adds a task on one nor
  supersedes anything by a task that is or becomes retired, then after the accepted patch still
  no task the patch leaves active names a retired dependency: nothing waits for work that will
  never clear.  \<^verbatim>\<open>apply_patch\<close> does not check
  the condition on replacements.\<close>

theorem apply_patch_no_retired_deps:
  assumes "apply_patch tks ts contract p on_disk = (tks', ts', contract', [])"
    and "no_retired_deps tks ts"
    and "\<forall>t \<in> set (p_add p). \<forall>d \<in> set (t_depends_on t). status_of ts d \<noteq> Superseded"
    and "\<forall>new \<in> snd ` set (p_supersede p). status_of ts' new \<noteq> Superseded"
  shows "no_retired_deps tks' ts'"
  unfolding no_retired_deps_def
proof (intro ballI impI)
  note acc = apply_patch_accepted[OF assms(1)]
  fix t d assume t: "t \<in> set tks'" "status_of ts' (t_id t) \<noteq> Superseded" and d: "d \<in> set (t_depends_on t)"
  obtain u where u: "u \<in> set (tks @ p_add p)" "t = u\<lparr>t_depends_on := surviving_deps p (t_depends_on u)\<rparr>"
    using t(1) unfolding acc(1) patched_tasks_alt by auto
  obtain e where e: "e \<in> set (t_depends_on u)" "e \<notin> set (p_cancel p)" "d = dict_get (p_supersede p) e e"
    using d u(2) by (auto simp: surviving_deps_def)
  show "status_of ts' d \<noteq> Superseded"
  proof (cases "(e, d) \<in> set (p_supersede p)")
    case True
    then show ?thesis using assms(4) by force
  next
    case False
    then have de: "d = e" "e \<notin> fst ` set (p_supersede p)"
      using dict_get_id_cases[of "p_supersede p" e] e(3) by auto
    have "status_of ts e \<noteq> Superseded"
    proof (cases "u \<in> set (p_add p)")
      case True
      then show ?thesis using assms(3) e(1) by blast
    next
      case False
      then have "u \<in> set tks" using u(1) by simp
      moreover have "status_of ts (t_id u) \<noteq> Superseded"
        using t(2) u(2) acc(4,5) \<open>u \<in> set tks\<close>
        by (auto simp: acc(2) status_of_patched retirement_ok_def retirable_def additions_ok_def split: if_splits)
      ultimately show ?thesis using assms(2) e(1) unfolding no_retired_deps_def by blast
    qed
    then show ?thesis using de e(2) by (simp add: acc(2) status_of_patched)
  qed
qed

section \<open>The demonstration patch\<close>

lemma demo_patch_applies:
  "apply_patch demo_plan demo_state demo_contract demo_patch None
    = (patched_tasks demo_plan demo_patch, patched_state demo_state demo_patch, demo_contract, [])"
  by code_simp

theorem apply_patch_preserves_plan_ok_witness:
  "plan_ok (set demo_contract) (patched_tasks demo_plan demo_patch) (status_of (patched_state demo_state demo_patch))"
  by (rule apply_patch_preserves_plan_ok[OF demo_patch_applies])

theorem apply_patch_accepts_iff_witness:
  "\<not> is_empty_patch demo_patch \<and> additions_ok demo_plan demo_contract demo_patch None
    \<and> documented_retirement demo_plan demo_state demo_patch"
proof -
  have live: "\<forall>(old, new) \<in> set (p_supersede demo_patch). new \<in> t_id ` set (p_add demo_patch)
      \<or> status_of demo_state new \<noteq> Superseded \<and> new \<notin> fst ` set (p_supersede demo_patch)"
    by (simp add: demo_defs)
  have "snd (snd (snd (apply_patch demo_plan demo_state demo_contract demo_patch None))) = []"
    unfolding demo_patch_applies by simp
  then show ?thesis unfolding apply_patch_accepts_iff[OF live] by blast
qed

text \<open>A patch whose added task waits for an unknown one is refused by the last recheck, and the failed
  task it would have superseded reads superseded in the caller's cursor.\<close>

definition misfit_patch :: task_list_patch where
  "misfit_patch = demo_patch\<lparr>p_add := [demo_new\<lparr>t_depends_on := [''w9'']\<rparr>]\<rparr>"

definition misfit_state :: task_state where
  "misfit_state = demo_state @ [(''w2'', \<lparr>e_status = Failed, e_last_attempt = Some ''a2''\<rparr>)]"

theorem refused_patch_moves_caller_entries:
  "case apply_patch demo_plan misfit_state demo_contract misfit_patch None of (tks', ts', contract', errors) \<Rightarrow>
     errors \<noteq> [] \<and> status_of misfit_state ''w2'' = Failed \<and> status_of ts' ''w2'' = Superseded"
  by code_simp

theorem apply_patch_status_witness:
  "status_of (patched_state demo_state demo_patch) ''w2'' = Superseded
    \<and> last_attempt_of (patched_state demo_state demo_patch) ''w2'' = last_attempt_of demo_state ''w2''"
  using apply_patch_status[OF demo_patch_applies, of "''w2''"] by (simp add: demo_patch_def demo_new_def)

theorem apply_patch_keeps_finished_witness:
  "status_of (patched_state demo_state demo_patch) ''w1'' = Cleared"
proof -
  have "status_of demo_state (t_id demo_work) = Cleared" by (simp add: demo_work_def demo_state_def status_of_def)
  then show ?thesis
    using apply_patch_keeps_finished[OF demo_patch_applies demo_members(1)] by (simp add: demo_work_def)
qed

theorem sealed_iff_upstream_of_cleared_gate_witness:
  "''w1'' \<in> set (sealed_task_ids demo_plan [(''g1'', \<lparr>e_status = Cleared, e_last_attempt = None\<rparr>)]) \<longleftrightarrow>
    (\<exists>g \<in> set demo_plan. t_type g = Gate \<and> status_of [(''g1'', \<lparr>e_status = Cleared, e_last_attempt = None\<rparr>)] (t_id g) = Cleared
      \<and> (''w1'', t_id g) \<in> (dep_edges demo_plan)\<^sup>*)"
  by (rule sealed_iff_upstream_of_cleared_gate[OF demo_distinct])

theorem apply_patch_rewrites_deps_witness:
  "patched_tasks demo_plan demo_patch
      = map (\<lambda>t. t\<lparr>t_depends_on := surviving_deps demo_patch (t_depends_on t)\<rparr>) (demo_plan @ p_add demo_patch)"
  using apply_patch_rewrites_deps[OF demo_patch_applies] by blast

theorem apply_patch_no_retired_deps_witness:
  "no_retired_deps (patched_tasks demo_plan demo_patch) (patched_state demo_state demo_patch)"
proof (rule apply_patch_no_retired_deps[OF demo_patch_applies])
  show "no_retired_deps demo_plan demo_state"
    by (simp add: no_retired_deps_def demo_defs status_of_def)
  show "\<forall>t \<in> set (p_add demo_patch). \<forall>d \<in> set (t_depends_on t). status_of demo_state d \<noteq> Superseded"
    by (simp add: demo_defs status_of_def)
  show "\<forall>new \<in> snd ` set (p_supersede demo_patch). status_of (patched_state demo_state demo_patch) new \<noteq> Superseded"
    by (simp add: status_of_patched) (simp add: demo_defs)
qed

section \<open>A chain of supersessions in one patch\<close>

text \<open>\<open>w2\<close> is replaced by the pending \<open>w4\<close>, which the same patch replaces by \<open>w5\<close>; \<open>w6\<close> waits for \<open>w2\<close>.\<close>

definition chain_plan :: task_list where
  "chain_plan = [demo_other\<lparr>t_depends_on := []\<rparr>, demo_other\<lparr>t_id := ''w4'', t_targets := [], t_depends_on := []\<rparr>,
     demo_other\<lparr>t_id := ''w6'', t_targets := [], t_depends_on := [''w2'']\<rparr>]"

definition chain_patch :: task_list_patch where
  "chain_patch = \<lparr>p_add_items = [], p_add = [demo_new\<lparr>t_id := ''w5'', t_depends_on := []\<rparr>],
     p_supersede = [(''w2'', ''w4''), (''w4'', ''w5'')], p_cancel = []\<rparr>"

text \<open>The condition on replacements is not vacuous: \<^verbatim>\<open>apply_patch\<close> accepts a patch that supersedes one
  task by another that it supersedes too, and the surviving pending dependent is left waiting for a
  superseded task.\<close>

theorem chained_supersede_strands_dependent:
  "case apply_patch chain_plan [] [''B-1''] chain_patch None of (tks', ts', contract', errors) \<Rightarrow>
     errors = [] \<and> no_retired_deps chain_plan [] \<and> \<not> no_retired_deps tks' ts'"
proof -
  have eq: "apply_patch chain_plan [] [''B-1''] chain_patch None
      = (patched_tasks chain_plan chain_patch, patched_state [] chain_patch, [''B-1''], [])"
    by code_simp
  have "no_retired_deps chain_plan []" by (simp add: no_retired_deps_def)
  moreover have "\<not> list_all (\<lambda>t. status_of (patched_state [] chain_patch) (t_id t) \<noteq> Superseded \<longrightarrow>
      list_all (\<lambda>d. status_of (patched_state [] chain_patch) d \<noteq> Superseded) (t_depends_on t)) (patched_tasks chain_plan chain_patch)"
    by code_simp
  then have "\<not> no_retired_deps (patched_tasks chain_plan chain_patch) (patched_state [] chain_patch)"
    by (simp only: no_retired_deps_def list_all_iff not_False_eq_True)
  ultimately show ?thesis unfolding eq by (simp only: prod.case not_False_eq_True simp_thms)
qed

end
