(* ===== verification/Envelope.thy ===== *)
theory Envelope
  imports Task_Validation_Proofs
begin

text \<open>
  \<^verbatim>\<open>envelope.py\<close>: the text view of a task list, the frontier it shows, the order of its rows,
  the lifecycle advice and the supersession lineage.  \<open>statuses\<close> is the dictionary
  \<open>render_task_list\<close> builds over all tasks; every id it is asked for with \<open>statuses[...]\<close> is a
  key.  The three literals of the source that are not ASCII are written as their UTF-8 bytes.
\<close>

type_synonym statuses = "(string, task_status) dict"
type_synonym preds_index = "(string, string list) dict"

definition MAX_FRONTIER_ROWS :: nat where "MAX_FRONTIER_ROWS = 12"
definition MAX_GATE_ROWS :: nat where "MAX_GATE_ROWS = 8"
definition MAX_FOCUS_ROWS :: nat where "MAX_FOCUS_ROWS = 9"
definition MAX_INLINE_IDS :: nat where "MAX_INLINE_IDS = 3"

datatype dag_mode = Summary | Frontier | Full

definition em_dash :: string where "em_dash = map char_of [0xE2, 0x80, 0x94 :: nat]"
definition arrow_right :: string where "arrow_right = map char_of [0xE2, 0x86, 0x92 :: nat]"
definition arrow_left :: string where "arrow_left = map char_of [0xE2, 0x86, 0x90 :: nat]"

definition newline :: string where "newline = [char_of (10 :: nat)]"

section \<open>Indices\<close>

definition predecessors_index :: "task_list \<Rightarrow> preds_index" where
  "predecessors_index tks =
    fold (\<lambda>t. dict_put (t_id t) (t_depends_on t)) tks (dict_of (map (\<lambda>t. (t_id t, [])) tks))"

definition successors_index :: "task_list \<Rightarrow> preds_index" where
  "successors_index tks =
    fold (\<lambda>t. fold (\<lambda>dep. dict_append dep (t_id t)) (t_depends_on t)) tks
      (dict_of (map (\<lambda>t. (t_id t, [])) tks))"

definition active_ids :: "statuses \<Rightarrow> string list \<Rightarrow> string list" where
  "active_ids statuses = filter (\<lambda>p. map_of statuses p \<noteq> Some Superseded)"

section \<open>Row order\<close>

text \<open>The ready list holds pairs of authored position and id, kept sorted.\<close>

definition push_ready :: "(string, nat) dict \<Rightarrow> string list \<Rightarrow> (nat \<times> string) list \<Rightarrow> (nat \<times> string) list" where
  "push_ready order_index freed ready =
    fold (\<lambda>s r. sort (r @ [(dict_get order_index 0 s, s)])) freed ready"

lemma mset_push_ready:
  "mset (push_ready oi freed ready) = mset ready + mset (map (\<lambda>s. (dict_get oi 0 s, s)) freed)"
  by (induction freed arbitrary: ready) (simp_all add: push_ready_def)

lemma length_push_ready: "length (push_ready oi freed ready) = length ready + length freed"
  using arg_cong[OF mset_push_ready, of size] by simp

function kahn_sorted :: "(string, nat) dict \<Rightarrow> adjacency \<Rightarrow> indegrees \<Rightarrow> (nat \<times> string) list \<Rightarrow> string list" where
  "kahn_sorted order_index successors indeg [] = []"
| "kahn_sorted order_index successors indeg ((n, tid) # ready) =
     (let (indeg', freed) = relax (dict_get successors [] tid) indeg
      in tid # kahn_sorted order_index successors indeg' (push_ready order_index freed ready))"
  by pat_completeness auto

termination
  by (relation "measure (\<lambda>(oi, succs, indeg, ready). pending_edges indeg + length ready)")
    (auto simp: length_push_ready dest!: relax_bound[OF sym])

definition live_pred :: "task list \<Rightarrow> statuses \<Rightarrow> string \<Rightarrow> bool" where
  "live_pred visible statuses p \<longleftrightarrow> p \<in> t_id ` set visible \<and> map_of statuses p \<noteq> Some Superseded"

definition topo_indegrees :: "task list \<Rightarrow> preds_index \<Rightarrow> statuses \<Rightarrow> indegrees" where
  "topo_indegrees visible preds statuses =
    map (\<lambda>tid. (tid, int (length (filter (live_pred visible statuses) (dict_get preds [] tid)))))
      (dict_keys (by_id visible))"

definition topo_successors :: "task list \<Rightarrow> preds_index \<Rightarrow> statuses \<Rightarrow> adjacency" where
  "topo_successors visible preds statuses =
    fold (\<lambda>(tid, plist) succ.
      if tid \<notin> t_id ` set visible then succ
      else fold (\<lambda>p succ. if live_pred visible statuses p then dict_append p tid succ else succ) plist succ)
    preds (map (\<lambda>tid. (tid, [])) (dict_keys (by_id visible)))"

definition order_index_of :: "task list \<Rightarrow> (string, nat) dict" where
  "order_index_of visible = dict_of (zip (task_ids visible) [0..<length visible])"

definition emission_order :: "task list \<Rightarrow> preds_index \<Rightarrow> statuses \<Rightarrow> string list" where
  "emission_order visible preds statuses =
    (let indeg = topo_indegrees visible preds statuses;
         order_index = order_index_of visible;
         ready = sort (map (\<lambda>(tid, d). (dict_get order_index 0 tid, tid)) (filter (\<lambda>(tid, d). d = 0) indeg))
     in kahn_sorted order_index (topo_successors visible preds statuses) indeg ready)"

definition topological_order :: "task list \<Rightarrow> preds_index \<Rightarrow> statuses \<Rightarrow> task list" where
  "topological_order visible preds statuses =
    (let result = map (\<lambda>tid. the (map_of (by_id visible) tid)) (emission_order visible preds statuses)
     in if length result < length visible
        then result @ filter (\<lambda>t. t_id t \<notin> set (map t_id result)) visible
        else result)"

section \<open>The frontier\<close>

record frontier =
  fr_ready :: "task list"
  fr_blocked :: nat
  fr_running :: "task list"
  fr_failed :: "task list"
  fr_gates :: "task list"
  fr_last_cleared :: "task option"

definition frontier_ready :: "preds_index \<Rightarrow> statuses \<Rightarrow> task \<Rightarrow> bool" where
  "frontier_ready preds statuses t \<longleftrightarrow>
    list_all (\<lambda>p. map_of statuses p = Some Cleared) (active_ids statuses (dict_get preds [] (t_id t)))"

text \<open>The loop body of \<open>_collect_frontier\<close>.\<close>

definition collect_step :: "preds_index \<Rightarrow> statuses \<Rightarrow> task \<Rightarrow> frontier \<Rightarrow> frontier" where
  "collect_step preds statuses t fr =
    (let status = dict_get statuses Pending (t_id t);
         fr = (if status = Failed then fr\<lparr>fr_failed := fr_failed fr @ [t]\<rparr>
               else if status = Running then fr\<lparr>fr_running := fr_running fr @ [t]\<rparr>
               else if status = Pending then
                 (if frontier_ready preds statuses t then fr\<lparr>fr_ready := fr_ready fr @ [t]\<rparr>
                  else fr\<lparr>fr_blocked := fr_blocked fr + 1\<rparr>)
               else fr);
         fr = (if t_type t = Gate then fr\<lparr>fr_gates := fr_gates fr @ [t]\<rparr> else fr)
     in if status = Cleared then fr\<lparr>fr_last_cleared := Some t\<rparr> else fr)"

definition collect_frontier :: "task list \<Rightarrow> preds_index \<Rightarrow> statuses \<Rightarrow> frontier" where
  "collect_frontier ordered preds statuses =
    fold (collect_step preds statuses) ordered
      \<lparr>fr_ready = [], fr_blocked = 0, fr_running = [], fr_failed = [], fr_gates = [], fr_last_cleared = None\<rparr>"

definition window :: "nat \<Rightarrow> nat \<Rightarrow> 'a list \<Rightarrow> 'a list" where
  "window start stop xs = drop start (take stop xs)"

definition focus_ids :: "task \<Rightarrow> preds_index \<Rightarrow> preds_index \<Rightarrow> statuses \<Rightarrow> string list" where
  "focus_ids f preds succ statuses =
    t_id f # active_ids statuses (dict_get preds [] (t_id f))
      @ active_ids statuses (dict_get succ [] (t_id f))
      @ concat (map (\<lambda>sid. active_ids statuses (dict_get succ [] sid)) (dict_get succ [] (t_id f)))"

definition focus_subgraph :: "task option \<Rightarrow> task list \<Rightarrow> preds_index \<Rightarrow> preds_index \<Rightarrow> statuses \<Rightarrow> task list" where
  "focus_subgraph focus ordered preds succ statuses = (case focus of None \<Rightarrow> []
   | Some f \<Rightarrow>
      (let result = filter (\<lambda>t. t_id t \<in> set (focus_ids f preds succ statuses)) ordered
       in if length result \<le> MAX_FOCUS_ROWS then result
          else let found = length (takeWhile (\<lambda>n. t_id n \<noteq> t_id f) result);
                   focus_index = (if found < length result then found else 0);
                   start = focus_index - MAX_FOCUS_ROWS div 2;
                   stop = start + MAX_FOCUS_ROWS
               in if stop > length result
                  then window (length result - MAX_FOCUS_ROWS) (length result) result
                  else window start stop result))"

section \<open>Rendering\<close>

definition summarize_ids :: "string list \<Rightarrow> string \<Rightarrow> string" where
  "summarize_ids ids emp =
    (if ids = [] then emp
     else if length ids \<le> MAX_INLINE_IDS then join '','' ids
     else join '','' (take MAX_INLINE_IDS ids) @ '',+'' @ show_nat (length ids - MAX_INLINE_IDS))"

definition summarize_statuses :: "task list \<Rightarrow> statuses \<Rightarrow> nat \<Rightarrow> string" where
  "summarize_statuses tasks statuses limit =
    join '', '' (map (\<lambda>t. t_id t @ '':'' @ task_status_str (dict_get statuses Pending (t_id t))) (take limit tasks)
      @ (if length tasks > limit then [''+'' @ show_nat (length tasks - limit)] else []))"

definition show_skill :: "string option \<Rightarrow> string" where
  "show_skill s = (case s of None \<Rightarrow> ''None'' | Some k \<Rightarrow> k)"

definition task_line :: "preds_index \<Rightarrow> statuses \<Rightarrow> task \<Rightarrow> string" where
  "task_line preds statuses t =
    ''    '' @ t_id t @ ''  ''
    @ (if t_type t \<noteq> Gate then ''['' @ task_type_str (t_type t) @ '':'' @ show_skill (t_skill t) @ '']'' else ''[gate]'')
    @ ''  '' @ task_status_str (dict_get statuses Pending (t_id t)) @ ''  ''
    @ arrow_right @ '' '' @ summarize_ids (t_targets t) ''-'' @ ''  ''
    @ arrow_left @ '' '' @ summarize_ids (active_ids statuses (dict_get preds [] (t_id t))) ''(root)''"

text \<open>\<open>_append_group\<close>: the lines it appends and the number of rows it returns.\<close>

definition append_group :: "string list \<Rightarrow> string \<Rightarrow> task list \<Rightarrow> preds_index \<Rightarrow> statuses \<Rightarrow> nat \<Rightarrow> string list \<times> nat" where
  "append_group lines label tasks preds statuses rendered_so_far =
    (if tasks = [] \<or> rendered_so_far \<ge> MAX_FRONTIER_ROWS then (lines, 0)
     else let shown = take (MAX_FRONTIER_ROWS - rendered_so_far) tasks
          in (lines @ [''  '' @ label @ '':''] @ map (task_line preds statuses) shown, length shown))"

definition frontier_header_lines :: "string \<Rightarrow> frontier \<Rightarrow> statuses \<Rightarrow> string list" where
  "frontier_header_lines header fr statuses =
    [header,
     ''  frontier: '' @ ''failed:'' @ show_nat (length (fr_failed fr)) @ '', running:'' @ show_nat (length (fr_running fr))
       @ '', '' @ ''ready:'' @ show_nat (length (fr_ready fr)) @ '', blocked:'' @ show_nat (fr_blocked fr)]
    @ (if fr_gates fr \<noteq> [] then [''  gates: '' @ summarize_statuses (fr_gates fr) statuses MAX_GATE_ROWS] else [])"

definition frontier_lines :: "string \<Rightarrow> frontier \<Rightarrow> preds_index \<Rightarrow> statuses \<Rightarrow> string list \<times> nat" where
  "frontier_lines header fr preds statuses =
    (let lines = frontier_header_lines header fr statuses;
         (lines, n1) = append_group lines ''failed'' (fr_failed fr) preds statuses 0;
         (lines, n2) = append_group lines ''running'' (fr_running fr) preds statuses n1;
         (lines, n3) = append_group lines ''ready'' (fr_ready fr) preds statuses (n1 + n2);
         rendered = n1 + n2 + n3;
         omitted = int (length (fr_failed fr) + length (fr_running fr) + length (fr_ready fr)) - int rendered
     in (if omitted > 0
         then lines @ [''  ... '' @ show_nat (nat omitted) @ '' more frontier tasks omitted; read tasks.json for full list'']
         else lines, rendered))"

definition render_full :: "string \<Rightarrow> task list \<Rightarrow> preds_index \<Rightarrow> statuses \<Rightarrow> string" where
  "render_full header ordered preds statuses = join newline (header # map (task_line preds statuses) ordered)"

definition render_summary :: "string \<Rightarrow> task list \<Rightarrow> preds_index \<Rightarrow> preds_index \<Rightarrow> statuses \<Rightarrow> string" where
  "render_summary header ordered preds succ statuses =
    (let fr = collect_frontier ordered preds statuses;
         lines = fst (frontier_lines header fr preds statuses);
         focus = focus_subgraph (fr_last_cleared fr) ordered preds succ statuses
     in join newline (if focus \<noteq> []
        then lines @ [''  focus-subgraph around last-cleared:''
            @ (case fr_last_cleared fr of None \<Rightarrow> ''-'' | Some t \<Rightarrow> t_id t) @ '':'']
          @ map (task_line preds statuses) focus
        else lines))"

definition render_frontier :: "string \<Rightarrow> task list \<Rightarrow> preds_index \<Rightarrow> statuses \<Rightarrow> string" where
  "render_frontier header ordered preds statuses =
    join newline (fst (frontier_lines header (collect_frontier ordered preds statuses) preds statuses))"

definition statuses_of :: "task_list \<Rightarrow> task_state option \<Rightarrow> statuses" where
  "statuses_of tks ts = dict_of (map (\<lambda>t. (t_id t, status_or_pending ts (t_id t))) tks)"

definition visible_tasks :: "task_list \<Rightarrow> task_state option \<Rightarrow> task list" where
  "visible_tasks tks ts = filter (\<lambda>t. dict_get (statuses_of tks ts) Pending (t_id t) \<noteq> Superseded) tks"

definition list_header :: "task_list \<Rightarrow> statuses \<Rightarrow> string" where
  "list_header tks statuses =
    (let count = \<lambda>key. length (filter (\<lambda>t. dict_get statuses Pending (t_id t) = key) tks)
     in ''Tasks '' @ em_dash @ '' '' @ show_nat (length tks) @ '' total [''
        @ join '', '' (map (\<lambda>key. task_status_str key @ '':'' @ show_nat (count key))
            (filter (\<lambda>key. count key \<noteq> 0) [Pending, Running, Cleared, Failed, Superseded])) @ '']'')"

definition render_task_list :: "task_list option \<Rightarrow> task_state option \<Rightarrow> dag_mode \<Rightarrow> string option" where
  "render_task_list tks_opt ts mode = (case tks_opt of None \<Rightarrow> None
   | Some tks \<Rightarrow>
      (let statuses = statuses_of tks ts;
           visible = visible_tasks tks ts;
           header = list_header tks statuses;
           preds = predecessors_index tks;
           succ = successors_index tks;
           ordered = topological_order visible preds statuses
       in Some (case mode of
            Full \<Rightarrow> render_full header ordered preds statuses
          | Frontier \<Rightarrow> render_frontier header ordered preds statuses
          | Summary \<Rightarrow> render_summary header ordered preds succ statuses)))"

section \<open>Advice, lineage and the envelope\<close>

definition project_next_action :: "project_state \<Rightarrow> task_list option \<Rightarrow> task_state option \<Rightarrow> next_action" where
  "project_next_action state task_list task_state = (case state of
     Draft \<Rightarrow> Abort_project
   | MissionPlanning _ \<Rightarrow> Submit_plan
   | AttentionNeeded _ \<Rightarrow> Decide_attention
   | MissionRunning _ \<Rightarrow>
      (case (task_list, task_state) of
         (Some tks, Some ts) \<Rightarrow>
           if list_all (\<lambda>t. status_of ts (t_id t) \<in> {Cleared, Failed})
               (filter (\<lambda>t. status_of ts (t_id t) \<noteq> Superseded) tks)
           then End_mission else Advance_project
       | _ \<Rightarrow> Advance_project)
   | Done \<Rightarrow> No_action | ProjectFailed _ \<Rightarrow> No_action | Aborted _ \<Rightarrow> No_action)"

type_synonym lineage_key = "string \<times> string"

record lineage_edge =
  le_old :: lineage_key
  le_new :: lineage_key

record lineage_entry =
  ln_current :: lineage_key
  ln_superseded :: "lineage_key list"

definition lineage_graph :: "lineage_edge list \<Rightarrow> lineage_key graph" where
  "lineage_graph edges = fold (\<lambda>e. dict_append (le_new e) (le_old e)) edges []"

definition lineage_ancestors :: "lineage_edge list \<Rightarrow> lineage_key \<Rightarrow> lineage_key list" where
  "lineage_ancestors edges current = bfs_collect (lineage_graph edges) [] (succs (lineage_graph edges) current)"

definition project_supersession_lineage :: "string \<Rightarrow> task_list option \<Rightarrow> task_state option \<Rightarrow> lineage_edge list
    \<Rightarrow> lineage_entry list" where
  "project_supersession_lineage mission_id task_list task_state edges = (case task_list of None \<Rightarrow> []
   | Some tks \<Rightarrow> concat (map (\<lambda>t.
       if task_state \<noteq> None \<and> status_or_pending task_state (t_id t) = Superseded then []
       else let ancestors = lineage_ancestors edges (mission_id, t_id t)
            in if ancestors \<noteq> [] then [\<lparr>ln_current = (mission_id, t_id t), ln_superseded = ancestors\<rparr>] else []) tks))"

fun attention_summary :: "attention_kind \<Rightarrow> string" where
  "attention_summary Node_failed = ''node failed; inspect authorized private attempt evidence before deciding''"
| "attention_summary Node_attention = ''node requested attention; inspect authorized private attempt evidence before deciding''"
| "attention_summary Gate_failed = ''gate failed; inspect authorized private gate evidence before deciding''"
| "attention_summary Gate_checkpoint = ''gate checkpoint; inspect authorized private gate evidence before deciding''"
| "attention_summary Terminal_review = ''terminal review; inspect authorized private review evidence before deciding''"

definition public_attention_items :: "attention_item list \<Rightarrow> attention_item list" where
  "public_attention_items items = map (\<lambda>it. it\<lparr>a_report := attention_summary (a_kind it)\<rparr>) items"

record envelope =
  env_project_id :: string
  env_state :: project_state
  env_project_root :: string
  env_harness_root :: string
  env_dag :: "string option"
  env_frontier :: "string option"
  env_next_action :: next_action
  env_lineage :: "lineage_entry list"

text \<open>\<open>dag_mode="none"\<close> is \<^const>\<open>None\<close>.\<close>

definition make_envelope :: "string \<Rightarrow> project_state \<Rightarrow> string \<Rightarrow> string \<Rightarrow> task_list option \<Rightarrow> task_state option
    \<Rightarrow> dag_mode option \<Rightarrow> lineage_entry list option \<Rightarrow> envelope" where
  "make_envelope project_id state project_root harness_root task_list task_state mode lineage =
    \<lparr>env_project_id = project_id, env_state = state, env_project_root = project_root,
     env_harness_root = harness_root,
     env_dag = (case mode of None \<Rightarrow> None | Some m \<Rightarrow> render_task_list task_list task_state m),
     env_frontier = render_task_list task_list task_state Frontier,
     env_next_action = project_next_action state task_list task_state,
     env_lineage = (case lineage of None \<Rightarrow> [] | Some l \<Rightarrow> l)\<rparr>"

end
