(* ===== verification/Envelope_Proofs.thy ===== *)
theory Envelope_Proofs
  imports Envelope
begin

text \<open>
  Correctness of the task-list view: the row order is a permutation of the visible tasks that
  respects the dependencies and keeps an authored order that already does, the frontier groups
  are the status classes, the row caps hold, and the lineage is the transitive closure of the
  accepted edges.
\<close>

section \<open>Index dictionaries\<close>

lemma dict_get_Cons: "dict_get ((k', v) # d) dflt k = (if k = k' then v else dict_get d dflt k)"
  by (simp add: dict_get_def)

lemma dict_get_not_key: "k \<notin> fst ` set d \<Longrightarrow> dict_get d dflt k = dflt"
  by (simp add: dict_get_def map_of_eq_None_iff split: option.splits) (metis map_of_eq_None_iff option.distinct(1))

lemma dict_get_map_key: "dict_get (map (\<lambda>k. (k, f k)) ks) dflt k = (if k \<in> set ks then f k else dflt)"
  by (simp add: dict_get_def map_of_map_key)

lemma dict_of_get: "distinct (map f xs) \<Longrightarrow> x \<in> set xs \<Longrightarrow> map_of (dict_of (map (\<lambda>x. (f x, g x)) xs)) (f x) = Some (g x)"
  by (simp add: dict_of_distinct comp_def map_of_eq_Some_iff)

lemma predecessors_index_distinct: "distinct (dict_keys (predecessors_index tks))"
proof -
  have "distinct (dict_keys (fold (\<lambda>t. dict_put (t_id t) (t_depends_on t)) tks d))"
    if "distinct (dict_keys d)" for d and tks :: task_list
    using that by (induction tks arbitrary: d) (auto intro: distinct_dict_put)
  then show ?thesis using distinct_dict_of unfolding predecessors_index_def by blast
qed

lemma fold_put_get:
  fixes tks :: task_list
  assumes "distinct (task_ids tks)" "t \<in> set tks"
  shows "dict_get (fold (\<lambda>t. dict_put (t_id t) (t_depends_on t)) tks d) [] (t_id t) = t_depends_on t"
proof -
  have other: "dict_get (fold (\<lambda>t. dict_put (t_id t) (t_depends_on t)) us d) [] k = dict_get d [] k"
    if "k \<notin> t_id ` set us" for us :: task_list and d k
    using that by (induction us arbitrary: d) (auto simp: dict_simps)
  show ?thesis
    using assms
  proof (induction tks arbitrary: d)
    case Nil
    then show ?case by simp
  next
    case (Cons u us)
    then show ?case by (auto simp: other dict_simps)
  qed
qed

lemma predecessors_index_get:
  "distinct (task_ids tks) \<Longrightarrow> t \<in> set tks \<Longrightarrow> dict_get (predecessors_index tks) [] (t_id t) = t_depends_on t"
  by (simp add: predecessors_index_def fold_put_get)

lemma statuses_of_get:
  "distinct (task_ids tks) \<Longrightarrow> t \<in> set tks \<Longrightarrow> map_of (statuses_of tks ts) (t_id t) = Some (status_or_pending ts (t_id t))"
  unfolding statuses_of_def by (rule dict_of_get)

lemma statuses_of_dict_get:
  "distinct (task_ids tks) \<Longrightarrow> t \<in> set tks \<Longrightarrow> dict_get (statuses_of tks ts) dflt (t_id t) = status_or_pending ts (t_id t)"
  by (simp add: dict_get_def statuses_of_get)

lemma visible_tasks_alt:
  "distinct (task_ids tks) \<Longrightarrow> visible_tasks tks ts = filter (\<lambda>t. status_or_pending ts (t_id t) \<noteq> Superseded) tks"
  unfolding visible_tasks_def by (rule filter_cong) (auto simp: statuses_of_dict_get)

lemma distinct_visible: "distinct (task_ids tks) \<Longrightarrow> distinct (task_ids (visible_tasks tks ts))"
  by (simp add: visible_tasks_def distinct_map_filter)

section \<open>Kahn's algorithm over the visible tasks\<close>

definition row_deps :: "task_list \<Rightarrow> task list \<Rightarrow> statuses \<Rightarrow> string \<Rightarrow> string list" where
  "row_deps tks visible statuses t = filter (live_pred visible statuses) (dict_get (predecessors_index tks) [] t)"

lemma successors_inner:
  "count_list (dict_get (fold (\<lambda>p succ. if live p then dict_append p tid succ else succ) ps s) [] d) t
    = count_list (dict_get s [] d) t + (if t = tid \<and> live d then count_list ps d else 0)"
  by (induction ps arbitrary: s) (auto simp: dict_simps)

lemma successors_outer:
  assumes "distinct (dict_keys kvs)"
  shows "count_list (dict_get (fold (\<lambda>(tid, plist) succ. if tid \<notin> vis then succ
      else fold (\<lambda>p succ. if live p then dict_append p tid succ else succ) plist succ) kvs s) [] d) t
    = count_list (dict_get s [] d) t + (if t \<in> vis \<and> live d then count_list (dict_get kvs [] t) d else 0)"
  using assms
proof (induction kvs arbitrary: s)
  case Nil
  then show ?case by simp
next
  case (Cons kv kvs)
  obtain tid plist where kv: "kv = (tid, plist)" by (cases kv)
  have "dict_get kvs [] tid = []" using Cons.prems kv by (simp add: dict_get_not_key)
  then show ?case using Cons.IH Cons.prems kv by (auto simp: dict_get_Cons successors_inner)
qed

lemma topo_successors_count:
  "count_list (dict_get (topo_successors visible (predecessors_index tks) statuses) [] d) t
    = (if t \<in> t_id ` set visible \<and> live_pred visible statuses d
       then count_list (dict_get (predecessors_index tks) [] t) d else 0)"
proof -
  have "dict_get (map (\<lambda>tid. (tid, [])) (dict_keys (by_id visible))) [] d = ([] :: string list)"
    by (simp add: dict_get_map_key del: map_map)
  then show ?thesis
    unfolding topo_successors_def successors_outer[OF predecessors_index_distinct] by simp
qed

lemma count_list_filter: "count_list (filter P xs) x = (if P x then count_list xs x else 0)"
  by (induction xs) auto

interpretation rows: kahn_graph "t_id ` set visible" "row_deps tks visible statuses"
  "dict_get (topo_successors visible (predecessors_index tks) statuses) []"
  for visible tks statuses
proof unfold_locales
  show "finite (t_id ` set visible)" by simp
next
  fix d t
  assume "t \<in> t_id ` set visible"
  then show "count_list (dict_get (topo_successors visible (predecessors_index tks) statuses) [] d) t
      = count_list (row_deps tks visible statuses t) d"
    by (simp add: topo_successors_count row_deps_def count_list_filter)
next
  fix d
  show "set (dict_get (topo_successors visible (predecessors_index tks) statuses) [] d) \<subseteq> t_id ` set visible"
  proof
    fix t assume "t \<in> set (dict_get (topo_successors visible (predecessors_index tks) statuses) [] d)"
    then have "count_list (dict_get (topo_successors visible (predecessors_index tks) statuses) [] d) t \<noteq> 0"
      by (simp add: count_list_0_iff)
    then show "t \<in> t_id ` set visible" by (auto simp: topo_successors_count split: if_splits)
  qed
qed

lemma push_ready_ids: "mset (map snd (push_ready oi freed ready)) = mset (map snd ready @ freed)"
  by (induction freed arbitrary: ready) (simp_all add: push_ready_def)

lemma kahn_sorted_run:
  assumes "rows.kinv visible tks statuses V (map snd ready) indeg"
  shows "\<exists>left. rows.kinv visible tks statuses
    (V @ kahn_sorted oi (topo_successors visible (predecessors_index tks) statuses) indeg ready) [] left"
  using assms
proof (induction oi "topo_successors visible (predecessors_index tks) statuses" indeg ready
    arbitrary: V rule: kahn_sorted.induct)
  case (1 oi indeg)
  then show ?case by auto
next
  case (2 oi indeg n tid ready)
  obtain indeg' freed where rel:
    "relax (dict_get (topo_successors visible (predecessors_index tks) statuses) [] tid) indeg = (indeg', freed)"
    by fastforce
  have inv: "rows.kinv visible tks statuses (V @ [tid]) (map snd (push_ready oi freed ready)) indeg'"
    by (rule rows.kinv_step[OF _ rel push_ready_ids]) (use "2.prems" in simp)
  show ?case using "2.hyps"(1)[OF rel[symmetric] refl inv] rel by simp
qed

lemma topo_indegrees_get:
  "t \<in> t_id ` set visible \<Longrightarrow> dict_get (topo_indegrees visible (predecessors_index tks) statuses) 0 t
    = int (length (row_deps tks visible statuses t))"
  unfolding topo_indegrees_def dict_get_map_key row_deps_def by (simp add: dict_simps)

lemma topo_indegrees_keys: "fst ` set (topo_indegrees visible preds statuses) = t_id ` set visible"
  by (simp add: topo_indegrees_def image_image dict_simps)

lemma distinct_topo_indegrees: "distinct (dict_keys (topo_indegrees visible preds statuses))"
proof -
  have "dict_keys (topo_indegrees visible preds statuses) = dict_keys (by_id visible)"
    by (simp add: topo_indegrees_def comp_def)
  then show ?thesis by (simp add: by_id_def distinct_dict_of)
qed

definition start_ready :: "task_list \<Rightarrow> task list \<Rightarrow> statuses \<Rightarrow> (nat \<times> string) list" where
  "start_ready tks visible statuses =
    sort (map (\<lambda>(tid, d). (dict_get (order_index_of visible) 0 tid, tid))
      (filter (\<lambda>(tid, d). d = 0) (topo_indegrees visible (predecessors_index tks) statuses)))"

lemma start_ready_ids:
  "mset (map snd (start_ready tks visible statuses))
    = mset (map fst (filter (\<lambda>(tid, d). d = 0) (topo_indegrees visible (predecessors_index tks) statuses)))"
  by (simp add: start_ready_def image_mset.compositionality comp_def case_prod_unfold)

lemma zero_keys: "t \<in> set (map fst (filter (\<lambda>(tid, d). d = 0) kvs)) \<longleftrightarrow> (t, 0) \<in> set kvs"
  by (induction kvs) auto

lemma kinv_start_ready:
  "rows.kinv visible tks statuses [] (map snd (start_ready tks visible statuses))
    (topo_indegrees visible (predecessors_index tks) statuses)"
proof (rule rows.kinv_start)
  let ?indeg = "topo_indegrees visible (predecessors_index tks) statuses"
  fix t assume t: "t \<in> t_id ` set visible"
  have "filter (\<lambda>d. d \<in> t_id ` set visible \<and> d \<notin> {}) (row_deps tks visible statuses t) = row_deps tks visible statuses t"
    by (rule filter_True) (auto simp: row_deps_def live_pred_def)
  then show "dict_get ?indeg 0 t = int (rows.open_deps visible tks statuses {} t)"
    by (simp add: topo_indegrees_get[OF t] rows.open_deps_def)
next
  have "distinct (map fst (filter (\<lambda>(tid, d). d = 0) (topo_indegrees visible (predecessors_index tks) statuses)))"
    by (rule distinct_map_filter[OF distinct_topo_indegrees])
  then show "distinct (map snd (start_ready tks visible statuses))"
    by (simp only: mset_eq_imp_distinct_iff[OF start_ready_ids])
next
  fix t
  let ?indeg = "topo_indegrees visible (predecessors_index tks) statuses"
  have "t \<in> set (map snd (start_ready tks visible statuses)) \<longleftrightarrow> t \<in> set (map fst (filter (\<lambda>(tid, d). d = 0) ?indeg))"
    by (simp only: mset_eq_setD[OF start_ready_ids])
  also have "t \<in> set (map fst (filter (\<lambda>(tid, d). d = 0) ?indeg)) \<longleftrightarrow> (t, 0) \<in> set ?indeg"
    by (rule zero_keys)
  finally have "t \<in> set (map snd (start_ready tks visible statuses)) \<longleftrightarrow> (t, 0) \<in> set ?indeg" .
  then show "t \<in> set (map snd (start_ready tks visible statuses)) \<longleftrightarrow> t \<in> t_id ` set visible \<and> dict_get ?indeg 0 t = 0"
    using dict_mem_iff[OF distinct_topo_indegrees, of t 0 visible "predecessors_index tks" statuses 0]
    by (simp add: topo_indegrees_keys)
qed

lemma emission_order_alt:
  "emission_order visible (predecessors_index tks) statuses
    = kahn_sorted (order_index_of visible) (topo_successors visible (predecessors_index tks) statuses)
        (topo_indegrees visible (predecessors_index tks) statuses) (start_ready tks visible statuses)"
  by (simp add: emission_order_def start_ready_def Let_def)

lemma emission_kinv:
  "\<exists>left. rows.kinv visible tks statuses (emission_order visible (predecessors_index tks) statuses) [] left"
  using kahn_sorted_run[OF kinv_start_ready, of visible tks statuses "order_index_of visible"]
  by (simp add: emission_order_alt)

lemma emission_facts:
  defines "E \<equiv> \<lambda>tks visible statuses. emission_order visible (predecessors_index tks) statuses"
  shows "distinct (E tks visible statuses)" "set (E tks visible statuses) \<subseteq> t_id ` set visible"
    and "rows.topo visible tks statuses (E tks visible statuses)"
    and "acyclic (rows.edges visible tks statuses) \<Longrightarrow> set (E tks visible statuses) = t_id ` set visible"
proof -
  obtain left where k: "rows.kinv visible tks statuses (E tks visible statuses) [] left"
    using emission_kinv[of visible tks statuses] unfolding E_def by blast
  then show "distinct (E tks visible statuses)" "set (E tks visible statuses) \<subseteq> t_id ` set visible"
    and "rows.topo visible tks statuses (E tks visible statuses)"
    by (simp_all add: rows.kinv_def)
  show "acyclic (rows.edges visible tks statuses) \<Longrightarrow> set (E tks visible statuses) = t_id ` set visible"
    using rows.acyclic_emits_all k by blast
qed

section \<open>The row order\<close>

text \<open>The tasks named by a list of ids of a list with distinct ids.\<close>

lemma tasks_of_ids:
  assumes "distinct (task_ids tks)" "set ids \<subseteq> t_id ` set tks"
  shows "map t_id (map (\<lambda>i. the (map_of (by_id tks) i)) ids) = ids"
    and "set (map (\<lambda>i. the (map_of (by_id tks) i)) ids) = {t \<in> set tks. t_id t \<in> set ids}"
proof -
  have l: "map_of (by_id tks) (t_id t) = Some t" if "t \<in> set tks" for t
    by (rule by_id_lookup[OF assms(1) that])
  have "t_id (the (map_of (by_id tks) i)) = i" if "i \<in> set ids" for i
    using assms(2) that l by auto
  then show "map t_id (map (\<lambda>i. the (map_of (by_id tks) i)) ids) = ids"
    by (simp add: map_idI)
  have "(\<lambda>i. the (map_of (by_id tks) i)) ` set ids = {t \<in> set tks. t_id t \<in> set ids}"
  proof (intro equalityI subsetI)
    fix t assume "t \<in> (\<lambda>i. the (map_of (by_id tks) i)) ` set ids"
    then show "t \<in> {t \<in> set tks. t_id t \<in> set ids}" using assms(2) l by auto
  next
    fix t assume "t \<in> {t \<in> set tks. t_id t \<in> set ids}"
    then show "t \<in> (\<lambda>i. the (map_of (by_id tks) i)) ` set ids" using l by (force intro: rev_image_eqI)
  qed
  then show "set (map (\<lambda>i. the (map_of (by_id tks) i)) ids) = {t \<in> set tks. t_id t \<in> set ids}" by simp
qed

lemma topological_order_mset:
  assumes d: "distinct (task_ids visible)"
  shows "mset (topological_order visible (predecessors_index tks) statuses) = mset visible"
proof -
  let ?E = "emission_order visible (predecessors_index tks) statuses"
  let ?r = "map (\<lambda>tid. the (map_of (by_id visible) tid)) ?E"
  have E: "distinct ?E" "set ?E \<subseteq> t_id ` set visible" by (rule emission_facts)+
  note r = tasks_of_ids[OF d E(2)]
  have dv: "distinct visible" using d by (simp add: distinct_map)
  have dr: "distinct ?r" using r(1) E(1) distinct_map by metis
  have rest: "set (filter (\<lambda>t. t_id t \<notin> set (map t_id ?r)) visible) = set visible - set ?r"
    unfolding r by auto
  show ?thesis
  proof (cases "length ?r < length visible")
    case True
    then have "topological_order visible (predecessors_index tks) statuses
        = ?r @ filter (\<lambda>t. t_id t \<notin> set (map t_id ?r)) visible"
      by (simp add: topological_order_def Let_def)
    moreover have "distinct (?r @ filter (\<lambda>t. t_id t \<notin> set (map t_id ?r)) visible)"
      using dr dv rest by (simp only: distinct_append distinct_filter) blast
    moreover have "set (?r @ filter (\<lambda>t. t_id t \<notin> set (map t_id ?r)) visible) = set visible"
      using rest r(2) by (simp only: set_append) blast
    ultimately show ?thesis using dv by (metis set_eq_iff_mset_eq_distinct)
  next
    case False
    then have eq: "topological_order visible (predecessors_index tks) statuses = ?r"
      by (simp add: topological_order_def Let_def)
    have "card (set ?r) \<ge> card (set visible)" using False dr dv by (simp only: distinct_card)
    moreover have "set ?r \<subseteq> set visible" unfolding r by blast
    ultimately have "set ?r = set visible" by (metis card_seteq finite_set)
    then show ?thesis using eq dr dv by (metis set_eq_iff_mset_eq_distinct)
  qed
qed

lemma topological_order_emitted:
  assumes "distinct (task_ids visible)" "acyclic (rows.edges visible tks statuses)"
  shows "task_ids (topological_order visible (predecessors_index tks) statuses)
    = emission_order visible (predecessors_index tks) statuses"
proof -
  let ?E = "emission_order visible (predecessors_index tks) statuses"
  have E: "distinct ?E" "set ?E = t_id ` set visible" using emission_facts assms(2) by auto
  have "length ?E = length visible"
    using E assms(1) by (metis distinct_card length_map set_map)
  then have "topological_order visible (predecessors_index tks) statuses = map (\<lambda>i. the (map_of (by_id visible) i)) ?E"
    by (simp add: topological_order_def Let_def)
  then show ?thesis using tasks_of_ids(1)[OF assms(1)] E(2) by simp
qed

lemma row_edges_sub:
  assumes "distinct (task_ids tks)"
  shows "rows.edges (visible_tasks tks ts) tks statuses \<subseteq> dep_edges tks"
proof
  fix e assume "e \<in> rows.edges (visible_tasks tks ts) tks statuses"
  then obtain d t where e: "e = (d, t_id t)" and t: "t \<in> set (visible_tasks tks ts)"
    and d: "d \<in> t_id ` set (visible_tasks tks ts)" "d \<in> set (row_deps tks (visible_tasks tks ts) statuses (t_id t))"
    unfolding rows.edges_def by blast
  have sub: "set (visible_tasks tks ts) \<subseteq> set tks" by (auto simp: visible_tasks_def)
  then have "t \<in> set tks" using t by blast
  moreover from this have "d \<in> set (t_depends_on t)"
    using d(2) by (simp add: row_deps_def predecessors_index_get[OF assms])
  moreover have "d \<in> t_id ` set tks" using d(1) sub by blast
  ultimately show "e \<in> dep_edges tks" unfolding e dep_edges_def by blast
qed

text \<open>What \<open>row_deps\<close> is on the dictionaries \<open>render_task_list\<close> builds.\<close>

lemma row_deps_visible:
  assumes "distinct (task_ids tks)" "t \<in> set tks"
  shows "set (row_deps tks (visible_tasks tks ts) (statuses_of tks ts) (t_id t))
    = set (t_depends_on t) \<inter> t_id ` set (visible_tasks tks ts)"
proof -
  have "map_of (statuses_of tks ts) p \<noteq> Some Superseded" if "p \<in> t_id ` set (visible_tasks tks ts)" for p
    using that by (auto simp: visible_tasks_alt[OF assms(1)] statuses_of_get[OF assms(1)])
  then show ?thesis by (auto simp: row_deps_def predecessors_index_get[OF assms] live_pred_def)
qed

section \<open>The authored order is the tie-breaker\<close>

lemma sorted_push_ready: "sorted ready \<Longrightarrow> sorted (push_ready oi freed ready)"
  unfolding push_ready_def by (induction freed arbitrary: ready) auto

lemma push_ready_pairs:
  "set (push_ready oi freed ready) = set ready \<union> (\<lambda>s. (dict_get oi 0 s, s)) ` set freed"
proof -
  have "set (push_ready oi freed ready) = set_mset (mset ready + mset (map (\<lambda>s. (dict_get oi 0 s, s)) freed))"
    using mset_push_ready[of oi freed ready] by (metis set_mset_mset)
  then show ?thesis by simp
qed

lemma order_index_nth:
  assumes "distinct (task_ids visible)" "k < length visible"
  shows "dict_get (order_index_of visible) 0 (task_ids visible ! k) = k"
proof -
  have d: "distinct (map fst (zip (task_ids visible) [0..<length visible]))" using assms(1) by simp
  then have "map_of (order_index_of visible) (task_ids visible ! k) = Some k"
    using map_of_zip_nth[of "task_ids visible" "[0..<length visible]" k] assms
    unfolding order_index_of_def dict_of_distinct[OF d] by simp
  then show ?thesis by (simp add: dict_get_def)
qed

definition authored_topological :: "task_list \<Rightarrow> task list \<Rightarrow> statuses \<Rightarrow> bool" where
  "authored_topological tks visible statuses \<longleftrightarrow>
    (\<forall>k < length visible. set (row_deps tks visible statuses (task_ids visible ! k)) \<subseteq> set (take k (task_ids visible)))"

lemma next_authored_ready:
  assumes d: "distinct (task_ids visible)" and a: "authored_topological tks visible statuses"
    and inv: "rows.kinv visible tks statuses (take k (task_ids visible)) q indeg" and k: "k < length visible"
  shows "task_ids visible ! k \<in> set q"
proof -
  let ?i = "task_ids visible ! k"
  have i: "?i \<in> t_id ` set visible" using k by (metis length_map nth_mem set_map)
  have "rows.open_deps visible tks statuses (set (take k (task_ids visible))) ?i = 0"
    using a k unfolding rows.open_deps_zero authored_topological_def by blast
  moreover have "\<forall>t \<in> t_id ` set visible. rows.open_deps visible tks statuses (set (take k (task_ids visible))) t = 0
      \<longleftrightarrow> t \<in> set (take k (task_ids visible) @ q)"
    using inv unfolding rows.kinv_def by (elim conjE)
  ultimately have "?i \<in> set (take k (task_ids visible)) \<union> set q" using i by simp
  moreover have "?i \<notin> set (take k (task_ids visible))"
    using d k by (metis append_take_drop_id Cons_nth_drop_Suc disjoint_iff distinct_append length_map list.set_intros(1))
  ultimately show ?thesis by blast
qed

lemma kahn_sorted_authored:
  assumes "distinct (task_ids visible)" "authored_topological tks visible statuses"
    and "rows.kinv visible tks statuses (take k (task_ids visible)) (map snd ready) indeg"
    and "sorted ready" "\<forall>(n, i) \<in> set ready. n = dict_get (order_index_of visible) 0 i" "k \<le> length visible"
  shows "kahn_sorted (order_index_of visible) (topo_successors visible (predecessors_index tks) statuses) indeg ready
    = drop k (task_ids visible)"
  using assms(3-)
proof (induction "order_index_of visible" "topo_successors visible (predecessors_index tks) statuses" indeg ready
    arbitrary: k rule: kahn_sorted.induct)
  case (1 indeg)
  have "\<not> k < length visible"
  proof
    assume "k < length visible"
    from next_authored_ready[OF assms(1,2) "1.prems"(1) this] show False by simp
  qed
  with "1.prems"(4) show ?case by simp
next
  case (2 indeg n tid ready)
  let ?ids = "task_ids visible"
  note inv = "2.prems"(1)
  have tid: "tid \<in> set ?ids" "tid \<notin> set (take k ?ids)" using inv by (auto simp: rows.kinv_def)
  then obtain m where m: "m < length visible" "tid = ?ids ! m" by (metis in_set_conv_nth length_map)
  have "k \<le> m"
  proof (rule ccontr)
    assume "\<not> k \<le> m"
    then have "?ids ! m \<in> set (take k ?ids)"
      using m(1) by (metis in_set_conv_nth length_map length_take linorder_not_le min_less_iff_conj nth_take)
    with m(2) tid(2) show False by simp
  qed
  with m(1) have k: "k < length visible" by simp
  then have "?ids ! k \<in> snd ` set ((n, tid) # ready)"
    using next_authored_ready[OF assms(1,2) inv] by (metis set_map)
  then obtain p where p: "(p, ?ids ! k) \<in> set ((n, tid) # ready)" by (metis (no_types) imageE prod.collapse)
  then have "p = k" using "2.prems"(3) order_index_nth[OF assms(1) k] by auto
  with p have "(n, tid) \<le> (k, ?ids ! k)" using "2.prems"(2) by auto
  moreover have "n = m" using "2.prems"(3) order_index_nth[OF assms(1) m(1)] m(2) by simp
  ultimately have "m = k" using \<open>k \<le> m\<close> by (auto simp: less_eq_prod_def)
  then have tid_k: "tid = ?ids ! k" using m by simp
  obtain indeg' freed where rel:
    "relax (dict_get (topo_successors visible (predecessors_index tks) statuses) [] tid) indeg = (indeg', freed)"
    by fastforce
  have take_Suc: "take (Suc k) ?ids = take k ?ids @ [tid]"
    using k tid_k by (simp add: take_Suc_conv_app_nth)
  have inv': "rows.kinv visible tks statuses (take (Suc k) ?ids) (map snd (push_ready (order_index_of visible) freed ready)) indeg'"
    unfolding take_Suc by (rule rows.kinv_step[OF _ rel push_ready_ids]) (use inv in simp)
  have "kahn_sorted (order_index_of visible) (topo_successors visible (predecessors_index tks) statuses) indeg'
      (push_ready (order_index_of visible) freed ready) = drop (Suc k) ?ids"
  proof (rule "2.hyps"[OF rel[symmetric] refl inv'])
    show "sorted (push_ready (order_index_of visible) freed ready)" using "2.prems"(2) by (auto intro: sorted_push_ready)
    show "\<forall>(n, i) \<in> set (push_ready (order_index_of visible) freed ready). n = dict_get (order_index_of visible) 0 i"
      using "2.prems"(3) by (auto simp: push_ready_pairs)
    show "Suc k \<le> length visible" using k by simp
  qed
  moreover have "drop k ?ids = tid # drop (Suc k) ?ids" using k tid_k by (metis Cons_nth_drop_Suc length_map)
  ultimately show ?case using rel by simp
qed

lemma emission_authored:
  assumes "distinct (task_ids visible)" "authored_topological tks visible statuses"
  shows "emission_order visible (predecessors_index tks) statuses = task_ids visible"
proof -
  have "sorted (start_ready tks visible statuses)" by (simp add: start_ready_def)
  moreover have "\<forall>(n, i) \<in> set (start_ready tks visible statuses). n = dict_get (order_index_of visible) 0 i"
    by (auto simp: start_ready_def)
  ultimately show ?thesis
    using kahn_sorted_authored[OF assms, of 0 "start_ready tks visible statuses"] kinv_start_ready[of visible tks statuses]
    by (simp add: emission_order_alt)
qed

lemma topological_order_authored:
  assumes "distinct (task_ids visible)" "authored_topological tks visible statuses"
  shows "topological_order visible (predecessors_index tks) statuses = visible"
proof -
  have "map (\<lambda>tid. the (map_of (by_id visible) tid)) (task_ids visible) = visible"
    using by_id_lookup[OF assms(1)] by (simp add: comp_def map_idI)
  then show ?thesis by (simp add: topological_order_def emission_authored[OF assms] Let_def)
qed

section \<open>Frontier, caps and lineage\<close>

lemma collect_fold:
  defines "st \<equiv> \<lambda>statuses t. dict_get statuses Pending (t_id t)"
  shows "fold (collect_step preds statuses) ordered fr =
    \<lparr>fr_ready = fr_ready fr @ filter (\<lambda>t. st statuses t = Pending \<and> frontier_ready preds statuses t) ordered,
     fr_blocked = fr_blocked fr + length (filter (\<lambda>t. st statuses t = Pending \<and> \<not> frontier_ready preds statuses t) ordered),
     fr_running = fr_running fr @ filter (\<lambda>t. st statuses t = Running) ordered,
     fr_failed = fr_failed fr @ filter (\<lambda>t. st statuses t = Failed) ordered,
     fr_gates = fr_gates fr @ filter (\<lambda>t. t_type t = Gate) ordered,
     fr_last_cleared = (if filter (\<lambda>t. st statuses t = Cleared) ordered = [] then fr_last_cleared fr
       else Some (List.last (filter (\<lambda>t. st statuses t = Cleared) ordered)))\<rparr>"
  unfolding st_def
proof (induction ordered arbitrary: fr)
  case Nil
  then show ?case by simp
next
  case (Cons t ordered)
  show ?case
    unfolding fold_simps comp_def Cons.IH
    by (cases "dict_get statuses Pending (t_id t)"; cases "frontier_ready preds statuses t"; cases "t_type t = Gate")
      (simp_all add: collect_step_def Let_def)
qed

lemma append_group_rows:
  "append_group lines label tasks preds statuses n = (lines', m) \<Longrightarrow>
    m = min (length tasks) (MAX_FRONTIER_ROWS - n) \<and> (m = 0 \<or> length lines' = length lines + 1 + m) \<and> (m = 0 \<longrightarrow> lines' = lines)"
  by (auto simp: append_group_def Let_def min_def split: if_splits)

lemma frontier_lines_rows:
  "snd (frontier_lines header fr preds statuses)
    = min MAX_FRONTIER_ROWS (length (fr_failed fr) + length (fr_running fr) + length (fr_ready fr))"
proof -
  obtain l1 n1 where g1: "append_group (frontier_header_lines header fr statuses) ''failed'' (fr_failed fr) preds statuses 0 = (l1, n1)"
    by fastforce
  obtain l2 n2 where g2: "append_group l1 ''running'' (fr_running fr) preds statuses n1 = (l2, n2)" by fastforce
  obtain l3 n3 where g3: "append_group l2 ''ready'' (fr_ready fr) preds statuses (n1 + n2) = (l3, n3)" by fastforce
  have "snd (frontier_lines header fr preds statuses) = n1 + n2 + n3"
    unfolding frontier_lines_def Let_def by (simp add: g1 g2 g3)
  moreover have "n1 = min (length (fr_failed fr)) (MAX_FRONTIER_ROWS - 0)"
    "n2 = min (length (fr_running fr)) (MAX_FRONTIER_ROWS - n1)"
    "n3 = min (length (fr_ready fr)) (MAX_FRONTIER_ROWS - (n1 + n2))"
    using append_group_rows[OF g1] append_group_rows[OF g2] append_group_rows[OF g3] by blast+
  ultimately show ?thesis by linarith
qed

lemma lineage_graph_succs: "succs (lineage_graph edges) k = map le_old (filter (\<lambda>e. le_new e = k) edges)"
proof -
  have "dict_get (fold (\<lambda>e. dict_append (le_new e) (le_old e)) edges d) [] k
      = dict_get d [] k @ map le_old (filter (\<lambda>e. le_new e = k) edges)" for d and edges :: "lineage_edge list"
    by (induction edges arbitrary: d) (auto simp: dict_simps)
  then show ?thesis by (simp add: succs_def lineage_graph_def)
qed

lemma lineage_arcs: "arcs (lineage_graph edges) = (\<lambda>e. (le_new e, le_old e)) ` set edges"
  by (auto simp: arcs_def lineage_graph_succs intro: rev_image_eqI)

lemma length_window: "length (window a b xs) \<le> b - a"
  by (simp add: window_def)

lemma window_mem: "a \<le> i \<Longrightarrow> i < b \<Longrightarrow> i < length xs \<Longrightarrow> xs ! i \<in> set (window a b xs)"
  unfolding window_def in_set_conv_nth by (rule exI[of _ "i - a"]) auto

lemma first_match:
  fixes xs :: "task list"
  assumes "f \<in> set xs"
  shows "length (takeWhile (\<lambda>n. t_id n \<noteq> t_id f) xs) < length xs"
    and "t_id (xs ! length (takeWhile (\<lambda>n. t_id n \<noteq> t_id f) xs)) = t_id f"
proof -
  show l: "length (takeWhile (\<lambda>n. t_id n \<noteq> t_id f) xs) < length xs"
    using assms by (induction xs) auto
  show "t_id (xs ! length (takeWhile (\<lambda>n. t_id n \<noteq> t_id f) xs)) = t_id f"
    using nth_length_takeWhile[OF l] by simp
qed

lemma focus_window:
  fixes result :: "task list"
  assumes "f \<in> set result" "distinct (task_ids result)" "MAX_FOCUS_ROWS < length result"
  defines "found \<equiv> length (takeWhile (\<lambda>n. t_id n \<noteq> t_id f) result)"
  shows "f \<in> set (window (found - MAX_FOCUS_ROWS div 2) (found - MAX_FOCUS_ROWS div 2 + MAX_FOCUS_ROWS) result)"
    and "length result < found - MAX_FOCUS_ROWS div 2 + MAX_FOCUS_ROWS \<Longrightarrow>
      f \<in> set (window (length result - MAX_FOCUS_ROWS) (length result) result)"
proof -
  have found: "found < length result" "t_id (result ! found) = t_id f"
    using first_match[OF assms(1)] by (simp_all add: found_def)
  then have f: "result ! found = f"
    using distinct_map_inj[OF assms(2) _ assms(1)] by simp
  show "f \<in> set (window (found - MAX_FOCUS_ROWS div 2) (found - MAX_FOCUS_ROWS div 2 + MAX_FOCUS_ROWS) result)"
    using window_mem[of "found - MAX_FOCUS_ROWS div 2" found "found - MAX_FOCUS_ROWS div 2 + MAX_FOCUS_ROWS" result]
      found(1) f by (simp add: MAX_FOCUS_ROWS_def)
  show "f \<in> set (window (length result - MAX_FOCUS_ROWS) (length result) result)"
    if "length result < found - MAX_FOCUS_ROWS div 2 + MAX_FOCUS_ROWS"
    using window_mem[of "length result - MAX_FOCUS_ROWS" found "length result" result] found(1) f that
    by (simp add: MAX_FOCUS_ROWS_def)
qed

section \<open>Properties\<close>

text \<open>The rows of a task list come in a dependency-respecting order: on an acyclic plan the order is
  a permutation of the tasks that are not superseded in which every task follows all the visible
  tasks it depends on.\<close>

theorem row_order_topological:
  assumes "distinct (task_ids tks)" "acyclic (dep_edges tks)"
  shows "mset (topological_order (visible_tasks tks ts) (predecessors_index tks) (statuses_of tks ts))
      = mset (visible_tasks tks ts)
    \<and> (\<forall>xs t ys. topological_order (visible_tasks tks ts) (predecessors_index tks) (statuses_of tks ts) = xs @ t # ys
        \<longrightarrow> set (t_depends_on t) \<inter> t_id ` set (visible_tasks tks ts) \<subseteq> t_id ` set xs)"
proof (intro conjI allI impI)
  let ?v = "visible_tasks tks ts" and ?st = "statuses_of tks ts"
  let ?o = "topological_order ?v (predecessors_index tks) ?st"
  show m: "mset ?o = mset ?v" by (rule topological_order_mset[OF distinct_visible[OF assms(1)]])
  fix xs t ys assume eq: "?o = xs @ t # ys"
  have "acyclic (rows.edges ?v tks ?st)"
    by (rule acyclic_subset[OF assms(2) row_edges_sub[OF assms(1)]])
  from topological_order_emitted[OF distinct_visible[OF assms(1)] this]
  have ids: "emission_order ?v (predecessors_index tks) ?st = task_ids xs @ t_id t # task_ids ys"
    using eq by simp
  have t: "t \<in> set tks"
    using m eq by (metis in_set_conv_decomp mset_eq_setD filter_is_subset subsetD visible_tasks_def)
  have "set (row_deps tks ?v ?st (t_id t)) \<inter> t_id ` set ?v \<subseteq> set (task_ids xs)"
    using emission_facts(3)[where visible = ?v and tks = tks and statuses = ?st] ids unfolding rows.topo_def by blast
  then show "set (t_depends_on t) \<inter> t_id ` set ?v \<subseteq> t_id ` set xs"
    by (simp add: row_deps_visible[OF assms(1) t] Int_assoc)
qed

text \<open>The authored order is the tie-breaker: when every visible task is already listed after the
  visible tasks it depends on, the rows come in exactly the authored order.\<close>

theorem row_order_keeps_authored:
  assumes "distinct (task_ids tks)"
    and "\<forall>xs t ys. visible_tasks tks ts = xs @ t # ys \<longrightarrow>
      set (t_depends_on t) \<inter> t_id ` set (visible_tasks tks ts) \<subseteq> t_id ` set xs"
  shows "topological_order (visible_tasks tks ts) (predecessors_index tks) (statuses_of tks ts) = visible_tasks tks ts"
proof (rule topological_order_authored[OF distinct_visible[OF assms(1)]])
  let ?v = "visible_tasks tks ts"
  show "authored_topological tks ?v (statuses_of tks ts)"
    unfolding authored_topological_def
  proof (intro allI impI)
    fix k assume k: "k < length ?v"
    then have "?v = take k ?v @ ?v ! k # drop (Suc k) ?v" by (simp add: id_take_nth_drop)
    then have "set (t_depends_on (?v ! k)) \<inter> t_id ` set ?v \<subseteq> t_id ` set (take k ?v)" using assms(2) by blast
    moreover have "?v ! k \<in> set tks" using nth_mem[OF k] by (auto simp: visible_tasks_def)
    ultimately show "set (row_deps tks ?v (statuses_of tks ts) (task_ids ?v ! k)) \<subseteq> set (take k (task_ids ?v))"
      using k by (simp add: row_deps_visible[OF assms(1)] take_map)
  qed
qed

text \<open>The frontier groups are the status classes of the listed tasks, in order: a task is listed
  as ready exactly when it is pending and every predecessor that is not superseded is cleared,
  and the other pending tasks are counted as blocked.\<close>

theorem frontier_groups:
  "fr_ready (collect_frontier ordered preds statuses)
      = filter (\<lambda>t. dict_get statuses Pending (t_id t) = Pending \<and>
          (\<forall>p \<in> set (dict_get preds [] (t_id t)). map_of statuses p \<in> {Some Superseded, Some Cleared})) ordered
   \<and> fr_running (collect_frontier ordered preds statuses) = filter (\<lambda>t. dict_get statuses Pending (t_id t) = Running) ordered
   \<and> fr_failed (collect_frontier ordered preds statuses) = filter (\<lambda>t. dict_get statuses Pending (t_id t) = Failed) ordered
   \<and> length (fr_ready (collect_frontier ordered preds statuses)) + fr_blocked (collect_frontier ordered preds statuses)
      = length (filter (\<lambda>t. dict_get statuses Pending (t_id t) = Pending) ordered)"
proof -
  have r: "frontier_ready preds statuses t \<longleftrightarrow>
      (\<forall>p \<in> set (dict_get preds [] (t_id t)). map_of statuses p \<in> {Some Superseded, Some Cleared})" for t
    by (auto simp: frontier_ready_def active_ids_def list_all_iff)
  have s: "length (filter (\<lambda>x. A x \<and> B x) xs) + length (filter (\<lambda>x. A x \<and> \<not> B x) xs) = length (filter A xs)"
    for A B :: "task \<Rightarrow> bool" and xs
    by (induction xs) auto
  show ?thesis
    unfolding collect_frontier_def collect_fold r[symmetric] by (simp add: s)
qed

text \<open>The compact views are bounded: at most twelve frontier rows are shown, and as many as there are
  when they are fewer; the focus view has at most nine rows, all of them listed tasks, and always
  the task it is centred on.\<close>

theorem view_bounds:
  assumes "distinct (task_ids ordered)" "f \<in> set ordered"
  shows "snd (frontier_lines header fr preds statuses)
      = min 12 (length (fr_failed fr) + length (fr_running fr) + length (fr_ready fr))
    \<and> length (focus_subgraph (Some f) ordered preds succ statuses) \<le> 9
    \<and> set (focus_subgraph (Some f) ordered preds succ statuses) \<subseteq> set ordered
    \<and> f \<in> set (focus_subgraph (Some f) ordered preds succ statuses)"
proof (intro conjI)
  show "snd (frontier_lines header fr preds statuses)
      = min 12 (length (fr_failed fr) + length (fr_running fr) + length (fr_ready fr))"
    by (simp add: frontier_lines_rows MAX_FRONTIER_ROWS_def)
  let ?r = "filter (\<lambda>t. t_id t \<in> set (focus_ids f preds succ statuses)) ordered"
  let ?g = "focus_subgraph (Some f) ordered preds succ statuses"
  let ?found = "length (takeWhile (\<lambda>n. t_id n \<noteq> t_id f) ?r)"
  have f: "f \<in> set ?r" using assms(2) by (simp add: focus_ids_def)
  have d: "distinct (task_ids ?r)" using assms(1) by (rule distinct_map_filter)
  have g: "?g = (if length ?r \<le> MAX_FOCUS_ROWS then ?r
      else if length ?r < ?found - MAX_FOCUS_ROWS div 2 + MAX_FOCUS_ROWS
        then window (length ?r - MAX_FOCUS_ROWS) (length ?r) ?r
      else window (?found - MAX_FOCUS_ROWS div 2) (?found - MAX_FOCUS_ROWS div 2 + MAX_FOCUS_ROWS) ?r)"
    unfolding focus_subgraph_def Let_def option.case if_P[OF first_match(1)[OF f]] ..
  consider "length ?r \<le> MAX_FOCUS_ROWS" "?g = ?r"
    | "\<not> length ?r \<le> MAX_FOCUS_ROWS" "length ?r < ?found - MAX_FOCUS_ROWS div 2 + MAX_FOCUS_ROWS"
      "?g = window (length ?r - MAX_FOCUS_ROWS) (length ?r) ?r"
    | "\<not> length ?r \<le> MAX_FOCUS_ROWS"
      "?g = window (?found - MAX_FOCUS_ROWS div 2) (?found - MAX_FOCUS_ROWS div 2 + MAX_FOCUS_ROWS) ?r"
    using g by metis
  then have "length ?g \<le> MAX_FOCUS_ROWS \<and> set ?g \<subseteq> set ?r \<and> f \<in> set ?g"
  proof cases
    case 1
    then show ?thesis using f by simp
  next
    case 2
    then show ?thesis using focus_window(2)[OF f d] length_window[of "length ?r - MAX_FOCUS_ROWS" "length ?r" ?r]
      by (auto simp: window_def dest!: in_set_dropD in_set_takeD)
  next
    case 3
    then show ?thesis
      using focus_window(1)[OF f d] length_window[of "?found - MAX_FOCUS_ROWS div 2" "?found - MAX_FOCUS_ROWS div 2 + MAX_FOCUS_ROWS" ?r]
      by (auto simp: window_def dest!: in_set_dropD in_set_takeD)
  qed
  then show "length ?g \<le> 9" "set ?g \<subseteq> set ordered" "f \<in> set ?g"
    by (auto simp: MAX_FOCUS_ROWS_def)
qed

text \<open>The lineage of a task lists, once each, exactly the tasks it replaced directly or through a chain
  of accepted supersessions.\<close>

theorem lineage_transitive:
  "distinct (lineage_ancestors edges current)
   \<and> set (lineage_ancestors edges current) = {a. (current, a) \<in> ((\<lambda>e. (le_new e, le_old e)) ` set edges)\<^sup>+}"
proof -
  have "distinct (lineage_ancestors edges current)"
    by (simp add: lineage_ancestors_def distinct_bfs_collect)
  moreover have "set (lineage_ancestors edges current) = {a. (current, a) \<in> ((\<lambda>e. (le_new e, le_old e)) ` set edges)\<^sup>+}"
    unfolding lineage_ancestors_def bfs_collect_reach reach_succs_trancl lineage_arcs ..
  ultimately show ?thesis by blast
qed

text \<open>The advice is to end the mission exactly when a mission is running and every task that is not
  superseded has cleared or failed; the terminal project states advise nothing.\<close>

theorem next_action_end_mission:
  "(project_next_action state task_list task_state = End_mission \<longleftrightarrow>
     (\<exists>m tks ts. state = MissionRunning m \<and> task_list = Some tks \<and> task_state = Some ts
       \<and> (\<forall>t \<in> set tks. status_of ts (t_id t) \<in> {Cleared, Failed, Superseded})))
   \<and> (project_next_action state task_list task_state = No_action \<longleftrightarrow>
       state = Done \<or> (\<exists>r. state = ProjectFailed r) \<or> (\<exists>r. state = Aborted r))"
proof (cases state)
  case (MissionRunning m)
  then show ?thesis
    by (cases task_list; cases task_state) (auto simp: project_next_action_def list_all_iff)
qed (auto simp: project_next_action_def)

section \<open>Instances\<close>

theorem row_order_topological_witness:
  "mset (topological_order (visible_tasks demo_plan None) (predecessors_index demo_plan) (statuses_of demo_plan None))
    = mset (visible_tasks demo_plan None)"
  using row_order_topological[OF demo_distinct demo_acyclic, of None] by blast

theorem row_order_keeps_authored_witness:
  "topological_order (visible_tasks [demo_work] None) (predecessors_index [demo_work]) (statuses_of [demo_work] None)
    = visible_tasks [demo_work] None"
proof (rule row_order_keeps_authored)
  show "distinct (task_ids [demo_work])" by simp
  have "visible_tasks [demo_work] None = [demo_work]" by (simp add: visible_tasks_alt status_or_pending_def)
  then show "\<forall>xs t ys. visible_tasks [demo_work] None = xs @ t # ys \<longrightarrow>
      set (t_depends_on t) \<inter> t_id ` set (visible_tasks [demo_work] None) \<subseteq> t_id ` set xs"
    by (auto simp: Cons_eq_append_conv demo_work_def)
qed

theorem frontier_groups_witness:
  "fr_running (collect_frontier demo_plan (predecessors_index demo_plan) (statuses_of demo_plan (Some [(''w1'', \<lparr>e_status = Running, e_last_attempt = None\<rparr>)])))
    = [demo_work]"
  unfolding conjunct1[OF conjunct2[OF frontier_groups]] by code_simp

theorem next_action_end_mission_witness:
  "project_next_action (MissionRunning ''m'') (Some [demo_work]) (Some demo_state) = End_mission"
  using conjunct1[OF next_action_end_mission[of "MissionRunning ''m''" "Some [demo_work]" "Some demo_state"]]
  by (simp add: demo_work_def demo_state_def status_of_def)

theorem view_bounds_witness:
  "length (focus_subgraph (Some demo_check) demo_plan (predecessors_index demo_plan) (successors_index demo_plan)
      (statuses_of demo_plan None)) \<le> 9
   \<and> demo_check \<in> set (focus_subgraph (Some demo_check) demo_plan (predecessors_index demo_plan) (successors_index demo_plan)
      (statuses_of demo_plan None))"
  using view_bounds[OF demo_distinct, of demo_check] by simp

end
