(* ===== verification/Attention.thy ===== *)
theory Attention
  imports Models
begin

text \<open>
  \<^verbatim>\<open>attention.py\<close>: the factories of attention items and the reports they carry.  The six hex
  digits of \<open>secrets.token_hex(3)\<close> in an item id are an argument (\<open>token\<close>) of each factory.
  \<open>None\<close> and an empty argument are the same to the source (\<open>failed_items or []\<close>), so the
  optional arguments are lists here.
\<close>

definition new_attention_id :: "string \<Rightarrow> string \<Rightarrow> string" where
  "new_attention_id kind_or_node token = ''att-'' @ kind_or_node @ ''-'' @ token"

definition require_attempt_id :: "string option \<Rightarrow> string + string" where
  "require_attempt_id attempt_id = (case attempt_id of
     None \<Rightarrow> Inl ''node attention requires an immutable attempt identity''
   | Some a \<Rightarrow> if identity_ok a then Inr a else Inl ''node attention requires an immutable attempt identity'')"

definition show_bool :: "bool \<Rightarrow> string" where
  "show_bool b = (if b then ''True'' else ''False'')"

definition lines :: "string list \<Rightarrow> string" where
  "lines ls = join [char_of (10 :: nat)] ls"

definition or_empty :: "string \<Rightarrow> string" where
  "or_empty report = (if report = [] then ''(empty)'' else report)"

section \<open>Node reports\<close>

definition handoff_report :: "task \<Rightarrow> handoff \<Rightarrow> string" where
  "handoff_report t h = lines (
    [''Task report from '' @ t_id t, ''type: '' @ task_type_str (t_type t), ''done: '' @ show_bool (h_done h),
     ''request_attention: '' @ show_bool (h_request_attention h), [], ''report:'', or_empty (h_report h)]
    @ (if is_validate_handoff h
       then [[], ''passed: '' @ show_bool (h_passed h), ''items:'']
         @ (if h_items h \<noteq> []
            then map (\<lambda>i. ''- '' @ v_item_id i @ '': '' @ (if v_passed i then ''passed'' else ''failed'')) (h_items h)
            else [''- (none)''])
       else []))"

definition node_item :: "attention_kind \<Rightarrow> string \<Rightarrow> string \<Rightarrow> task \<Rightarrow> handoff \<Rightarrow> string + attention_item" where
  "node_item kind token mission_id t h = (case require_attempt_id (h_attempt_id h) of
     Inl e \<Rightarrow> Inl e
   | Inr attempt_id \<Rightarrow> check_attention_item
       \<lparr>a_id = new_attention_id (t_id t) token, a_report = handoff_report t h, a_kind = kind,
        a_mission_id = mission_id, a_node_id = Some (t_id t), a_attempt_id = Some attempt_id,
        a_terminal_review_id = None\<rparr>)"

definition node_failed :: "string \<Rightarrow> string \<Rightarrow> task \<Rightarrow> handoff \<Rightarrow> string + attention_item" where
  "node_failed = node_item Node_failed"

definition node_attention :: "string \<Rightarrow> string \<Rightarrow> task \<Rightarrow> handoff \<Rightarrow> string + attention_item" where
  "node_attention = node_item Node_attention"

section \<open>Gate reports\<close>

type_synonym verdicts = "(string, (string, bool) dict) dict"
type_synonym missing = "(string, string list) dict"

definition verdict_of :: "(string, bool) dict \<Rightarrow> string \<Rightarrow> bool" where
  "verdict_of vs t = dict_get vs False t"

text \<open>The line of one validator.\<close>

definition validator_summary :: "string list \<Rightarrow> missing \<Rightarrow> string \<Rightarrow> (string, bool) dict \<Rightarrow> string" where
  "validator_summary targets missing_items vid verdicts =
    (let n = length (remdups targets);
         covered = filter (\<lambda>t. t \<in> fst ` set verdicts) targets
     in if covered = [] then ''- '' @ vid @ '': 0/'' @ show_nat n @ '' covered''
        else let passed = length (filter (verdict_of verdicts) covered);
                 miss_set = dict_get missing_items [] vid;
                 dissenting = filter (\<lambda>t. \<not> verdict_of verdicts t \<and> t \<notin> set miss_set) covered;
                 missing = filter (\<lambda>t. t \<in> set miss_set) covered;
                 flags = (if dissenting \<noteq> [] then [''dissenting: '' @ join '', '' dissenting] else [])
                   @ (if missing \<noteq> [] then [''missing: '' @ join '', '' missing] else []);
                 flag_text = (if flags \<noteq> [] then '' ('' @ join ''; '' flags @ '')'' else [])
             in ''- '' @ vid @ '': '' @ show_nat passed @ ''/'' @ show_nat (length covered) @ '' passed over ''
                @ show_nat n @ '' target(s)'' @ flag_text)"

definition validator_summary_lines :: "string list \<Rightarrow> verdicts \<Rightarrow> missing \<Rightarrow> string list" where
  "validator_summary_lines targets validator_verdicts missing_items =
    map (\<lambda>vid. validator_summary targets missing_items vid (dict_get validator_verdicts [] vid))
      (sort (dict_keys validator_verdicts))"

definition gate_report :: "task \<Rightarrow> bool \<Rightarrow> string \<Rightarrow> string list \<Rightarrow> verdicts \<Rightarrow> missing \<Rightarrow> string" where
  "gate_report gate cleared reason failed_items validator_verdicts missing_items =
    (let summary = validator_summary_lines (t_targets gate) validator_verdicts missing_items
     in lines ([''Gate report from '' @ t_id gate, ''cleared: '' @ show_bool cleared,
          ''targets: '' @ (if t_targets gate \<noteq> [] then join '', '' (t_targets gate) else ''(none)'')]
        @ (if reason \<noteq> [] then [''reason: '' @ reason] else [])
        @ (if failed_items \<noteq> [] then [''failed_items: '' @ join '', '' failed_items] else [])
        @ [[], ''validator summary:'']
        @ (if summary \<noteq> [] then summary else [''- (no validator verdicts)''])))"

definition gate_item :: "attention_kind \<Rightarrow> string \<Rightarrow> string \<Rightarrow> task \<Rightarrow> string \<Rightarrow> string + attention_item" where
  "gate_item kind token mission_id gate report = check_attention_item
     \<lparr>a_id = new_attention_id (t_id gate) token, a_report = report, a_kind = kind, a_mission_id = mission_id,
      a_node_id = Some (t_id gate), a_attempt_id = None, a_terminal_review_id = None\<rparr>"

definition gate_failed :: "string \<Rightarrow> string \<Rightarrow> task \<Rightarrow> string \<Rightarrow> string list \<Rightarrow> verdicts \<Rightarrow> missing
    \<Rightarrow> string + attention_item" where
  "gate_failed token mission_id gate reason failed_items validator_verdicts missing_items =
    gate_item Gate_failed token mission_id gate
      (gate_report gate False reason failed_items validator_verdicts missing_items)"

definition gate_checkpoint :: "string \<Rightarrow> string \<Rightarrow> task \<Rightarrow> verdicts \<Rightarrow> string + attention_item" where
  "gate_checkpoint token mission_id gate validator_verdicts =
    gate_item Gate_checkpoint token mission_id gate (gate_report gate True [] [] validator_verdicts [])"

section \<open>Review and cooperative stop\<close>

definition terminal_review :: "string \<Rightarrow> string \<Rightarrow> terminal_review_handoff \<Rightarrow> string option \<Rightarrow> string + attention_item" where
  "terminal_review token mission_id review terminal_review_id = check_attention_item
     \<lparr>a_id = new_attention_id ''terminal-review'' token, a_report = or_empty (tr_report review), a_kind = Terminal_review,
      a_mission_id = mission_id, a_node_id = None, a_attempt_id = None, a_terminal_review_id = terminal_review_id\<rparr>"

section \<open>What the factories produce\<close>

lemma check_attention_item_Inr: "check_attention_item it = Inr it' \<Longrightarrow> it' = it"
  by (auto simp: check_attention_item_def split: if_splits)

lemma task_id_not_blank: "task_id_ok s \<Longrightarrow> \<not> blank s"
  by (cases s) (auto simp: task_id_ok_def blank_def py_space_def is_upper_def is_lower_def)

lemma identity_not_blank: "identity_ok s \<Longrightarrow> \<not> blank s"
  by (cases s) (auto simp: identity_ok_def blank_def py_space_def is_alnum_def is_upper_def is_lower_def is_digit_def)

lemma node_item_ok:
  assumes "task_id_ok (t_id t)" "h_attempt_id h = Some a" "identity_ok a" "kind \<in> {Node_failed, Node_attention}"
  shows "node_item kind token mid t h = Inr
    \<lparr>a_id = new_attention_id (t_id t) token, a_report = handoff_report t h, a_kind = kind,
     a_mission_id = mid, a_node_id = Some (t_id t), a_attempt_id = Some a, a_terminal_review_id = None\<rparr>"
  using assms task_id_not_blank identity_not_blank
  by (auto simp: node_item_def require_attempt_id_def check_attention_item_def present_def)

lemma node_item_Inr:
  "node_item kind token mid t h = Inr it \<Longrightarrow>
    a_kind it = kind \<and> a_mission_id it = mid \<and> a_node_id it = Some (t_id t) \<and> a_attempt_id it = h_attempt_id h
    \<and> a_terminal_review_id it = None"
  by (auto simp: node_item_def require_attempt_id_def split: option.splits if_splits sum.splits dest!: check_attention_item_Inr)

lemma gate_item_ok:
  assumes "task_id_ok (t_id gate)" "kind \<in> {Gate_failed, Gate_checkpoint}"
  shows "gate_item kind token mid gate report = Inr
    \<lparr>a_id = new_attention_id (t_id gate) token, a_report = report, a_kind = kind, a_mission_id = mid,
     a_node_id = Some (t_id gate), a_attempt_id = None, a_terminal_review_id = None\<rparr>"
  using assms task_id_not_blank by (auto simp: gate_item_def check_attention_item_def present_def)

end
