(* ===== verification/Gates.thy ===== *)
theory Gates
  imports Task_Validation_Proofs Attention
begin

text \<open>
  The gate evaluation of \<^verbatim>\<open>coordinator.py\<close>: which validators are current for a target, the verdict
  each of them gives, the result of the gate, the bounded attention item, and when a failed
  validation needs attention of its own.  What the store returns for the retained generation of a
  validator is the argument \<open>attempt_reader\<close>; \<open>Inl\<close> is the \<open>AttemptValidationError\<close> it raises.
  Sets of task ids are lists in authored order.
\<close>

record attempt_reader =
  rd_attempt :: "string \<Rightarrow> string \<Rightarrow> string + handoff option"
  rd_attempt_path :: "string \<Rightarrow> string \<Rightarrow> string"
  rd_report_path :: "string \<Rightarrow> string \<Rightarrow> string"

section \<open>Current validators\<close>

text \<open>Predecessors reachable from the gate through \<open>depends_on\<close>.\<close>

definition gate_reachable :: "task_list \<Rightarrow> task \<Rightarrow> string list" where
  "gate_reachable tks gate = dfs_collect (upstream_graph tks) [] (rev (t_depends_on gate))"

definition add_downstream :: "string \<Rightarrow> string \<Rightarrow> string graph \<Rightarrow> string graph" where
  "add_downstream tid dep g = (if dep \<in> fst ` set g then dict_append dep tid g else g)"

definition downstream_graph :: "task_list \<Rightarrow> string graph" where
  "downstream_graph tks = fold (\<lambda>t. fold (add_downstream (t_id t)) (t_depends_on t)) tks
     (dict_of (map (\<lambda>t. (t_id t, [])) tks))"

definition candidate_validators :: "task_list \<Rightarrow> task_state \<Rightarrow> task \<Rightarrow> string \<Rightarrow> string list" where
  "candidate_validators tks ts gate target =
    map t_id (filter (\<lambda>t. t_id t \<in> set (gate_reachable tks gate) \<and> t_type t = Validate
      \<and> target \<in> set (t_targets t) \<and> status_of ts (t_id t) \<noteq> Superseded) tks)"

definition dominated :: "task_list \<Rightarrow> task \<Rightarrow> string list \<Rightarrow> string \<Rightarrow> bool" where
  "dominated tks gate covering v =
    dfs_find (\<lambda>c. c \<in> set covering) (\<lambda>c. c = t_id gate) (downstream_graph tks) []
      (rev (succs (downstream_graph tks) v))"

definition current_validators :: "task_list \<Rightarrow> task_state \<Rightarrow> task \<Rightarrow> string \<Rightarrow> string list" where
  "current_validators tks ts gate target =
    (let candidates = candidate_validators tks ts gate target;
         hist = filter (dominated tks gate candidates) candidates
     in map t_id (filter (\<lambda>t. t_id t \<in> set candidates \<and> t_id t \<notin> set hist) tks))"

definition current_validators_by_target :: "task_list \<Rightarrow> task_state \<Rightarrow> task \<Rightarrow> (string, string list) dict" where
  "current_validators_by_target tks ts gate =
    dict_of (map (\<lambda>target. (target, current_validators tks ts gate target)) (t_targets gate))"

section \<open>The verdicts of one validator\<close>

definition judge_item :: "string list \<Rightarrow> validation_item \<Rightarrow> (string, bool) dict \<times> string list
    \<Rightarrow> (string, bool) dict \<times> string list" where
  "judge_item expected item s = (case s of (verdicts, returned_ids) \<Rightarrow>
    (if v_item_id item \<in> set expected
     then dict_put (v_item_id item) (if v_item_id item \<in> set returned_ids then False else v_passed item) verdicts
     else verdicts, v_item_id item # returned_ids))"

record evidence =
  ev_verdicts :: "(string, bool) dict"
  ev_path :: "string option"
  ev_missing :: "string list option"
  ev_rejected :: "string list"

definition no_evidence :: "string list \<Rightarrow> string option \<Rightarrow> string list \<Rightarrow> evidence" where
  "no_evidence expected path rejected =
    \<lparr>ev_verdicts = dict_of (map (\<lambda>t. (t, False)) expected), ev_path = path,
     ev_missing = Some expected, ev_rejected = rejected\<rparr>"

definition item_evidence :: "string list \<Rightarrow> string \<Rightarrow> validation_item list \<Rightarrow> evidence" where
  "item_evidence expected path items =
    (let (verdicts, returned_ids) = fold (judge_item expected) items ([], []);
         missing = filter (\<lambda>t. t \<notin> set returned_ids) expected
     in \<lparr>ev_verdicts = fold (\<lambda>t. dict_put t False) missing verdicts, ev_path = Some path,
         ev_missing = (if missing \<noteq> [] then Some missing else None), ev_rejected = []\<rparr>)"

definition validator_evidence :: "attempt_reader \<Rightarrow> task_state \<Rightarrow> string \<Rightarrow> string list \<Rightarrow> evidence" where
  "validator_evidence rd ts v expected =
    (case last_attempt_of ts v of
       None \<Rightarrow> no_evidence expected None []
     | Some generation \<Rightarrow> (case rd_attempt rd generation v of
         Inl exc \<Rightarrow> no_evidence expected (Some (rd_attempt_path rd generation v))
           [''validator evidence rejected for '' @ v @ '': '' @ exc]
       | Inr None \<Rightarrow> no_evidence expected (Some (rd_report_path rd generation v)) []
       | Inr (Some h) \<Rightarrow>
           if \<not> is_validate_handoff h then no_evidence expected (Some (rd_report_path rd generation v)) []
           else item_evidence expected (rd_report_path rd generation v) (h_items h)))"

section \<open>The result of a gate\<close>

record gate_result =
  gr_cleared :: bool
  gr_reason :: string
  gr_failed_items :: "string list"
  gr_verdicts :: verdicts
  gr_attempt_paths :: "(string, string) dict"
  gr_missing :: missing

definition expected_by_validator :: "task_list \<Rightarrow> task_state \<Rightarrow> task \<Rightarrow> (string, string list) dict" where
  "expected_by_validator tks ts gate =
    (let current_by_target = current_validators_by_target tks ts gate;
         current_ids = concat (map snd current_by_target)
     in dict_of (map (\<lambda>t. (t_id t, filter (\<lambda>target. t_id t \<in> set (dict_get current_by_target [] target)) (t_targets gate)))
          (filter (\<lambda>t. t_id t \<in> set current_ids) tks)))"

definition covering_ids :: "verdicts \<Rightarrow> string \<Rightarrow> string list" where
  "covering_ids vs tgt = map fst (filter (\<lambda>(vid, verds). tgt \<in> fst ` set verds) vs)"

definition failure_detail :: "verdicts \<Rightarrow> missing \<Rightarrow> string \<Rightarrow> string" where
  "failure_detail vs missing_items tgt =
    (let dissenters = map fst (filter (\<lambda>(vid, verds). map_of verds tgt = Some False
           \<and> tgt \<notin> set (dict_get missing_items [] vid)) vs);
         omitters = map fst (filter (\<lambda>(vid, miss). tgt \<in> set miss) missing_items);
         parts = (if dissenters \<noteq> [] then [''dissent: '' @ join '', '' dissenters] else [])
           @ (if omitters \<noteq> [] then [''missing: '' @ join '', '' omitters] else [])
     in tgt @ '' ('' @ join ''; '' parts @ '')'')"

definition decide_gate :: "string list \<Rightarrow> (string \<times> evidence) list \<Rightarrow> gate_result" where
  "decide_gate targets evs =
    (let vs = map (\<lambda>(v, e). (v, ev_verdicts e)) evs;
         paths = concat (map (\<lambda>(v, e). case ev_path e of None \<Rightarrow> [] | Some p \<Rightarrow> [(v, p)]) evs);
         missing_items = concat (map (\<lambda>(v, e). case ev_missing e of None \<Rightarrow> [] | Some m \<Rightarrow> [(v, m)]) evs);
         rejected = concat (map (\<lambda>(v, e). ev_rejected e) evs);
         uncovered = filter (\<lambda>tgt. covering_ids vs tgt = []) targets;
         item_passed = dict_of (map (\<lambda>tgt. (tgt, list_all (\<lambda>vid. verdict_of (dict_get vs [] vid) tgt) (covering_ids vs tgt)))
           (filter (\<lambda>tgt. covering_ids vs tgt \<noteq> []) targets))
     in if uncovered \<noteq> []
        then \<lparr>gr_cleared = False, gr_reason = ''no validator covered item(s): '' @ join '', '' uncovered,
              gr_failed_items = uncovered, gr_verdicts = vs, gr_attempt_paths = paths, gr_missing = missing_items\<rparr>
        else if list_all snd item_passed \<and> rejected = []
        then \<lparr>gr_cleared = True, gr_reason = [], gr_failed_items = [], gr_verdicts = vs,
              gr_attempt_paths = paths, gr_missing = missing_items\<rparr>
        else let failed = map fst (filter (\<lambda>(k, ok). \<not> ok) item_passed);
                 dissent_detail = map (failure_detail vs missing_items) failed;
                 reason_parts = (if rejected \<noteq> [] then [join ''; '' rejected] else [])
                   @ (if dissent_detail \<noteq> [] then [''failed items: '' @ join '', '' dissent_detail] else [])
             in \<lparr>gr_cleared = False, gr_reason = take 2000 (join ''; '' reason_parts), gr_failed_items = failed,
                 gr_verdicts = vs, gr_attempt_paths = paths, gr_missing = missing_items\<rparr>)"

definition evaluate_gate :: "attempt_reader \<Rightarrow> task_list \<Rightarrow> task_state \<Rightarrow> task \<Rightarrow> gate_result" where
  "evaluate_gate rd tks ts gate =
    decide_gate (t_targets gate)
      (map (\<lambda>(v, expected). (v, validator_evidence rd ts v expected)) (expected_by_validator tks ts gate))"

definition ready_gate :: "task_list \<Rightarrow> task_state \<Rightarrow> task option" where
  "ready_gate tks ts = find (\<lambda>g. status_of ts (t_id g) = Pending
     \<and> list_all (\<lambda>dep. status_of ts dep = Cleared) (t_depends_on g)) (gates_in_order tks)"

definition try_evaluate_a_gate :: "attempt_reader \<Rightarrow> task_list \<Rightarrow> task_state \<Rightarrow> (task \<times> gate_result) option" where
  "try_evaluate_a_gate rd tks ts = (case ready_gate tks ts of None \<Rightarrow> None
   | Some g \<Rightarrow> Some (g, evaluate_gate rd tks ts g))"

section \<open>Failed validations that no gate will surface\<close>

definition has_pending_downstream_gate_covering :: "task_list \<Rightarrow> task_state \<Rightarrow> string \<Rightarrow> string \<Rightarrow> bool" where
  "has_pending_downstream_gate_covering tks ts tid target =
    dfs_find (\<lambda>cur. case map_of (by_id tks) cur of None \<Rightarrow> False
        | Some t \<Rightarrow> t_type t = Gate \<and> target \<in> set (t_targets t) \<and> status_of ts (t_id t) = Pending)
      (\<lambda>_. False) (downstream_graph tks) [] (rev (succs (downstream_graph tks) tid))"

definition targets_needing_attention :: "task \<Rightarrow> handoff \<Rightarrow> string list" where
  "targets_needing_attention t h =
    (let returned = dict_of (map (\<lambda>i. (v_item_id i, v_passed i)) (filter (\<lambda>i. v_item_id i \<in> set (t_targets t)) (h_items h)));
         needing = filter (\<lambda>target. map_of returned target \<noteq> Some True) (t_targets t)
     in if needing = [] \<and> \<not> h_passed h then t_targets t else needing)"

definition validate_failure_needs_attention :: "task_list \<Rightarrow> task_state \<Rightarrow> task \<Rightarrow> handoff \<Rightarrow> bool" where
  "validate_failure_needs_attention tks ts t h =
    list_ex (\<lambda>target. \<not> has_pending_downstream_gate_covering tks ts (t_id t) target) (targets_needing_attention t h)"

section \<open>Bounded gate reports\<close>

definition utf8_length :: "string \<Rightarrow> nat" where
  "utf8_length s = sum_list (map (\<lambda>c. if ord c < 128 then 1 else 2) s)"

definition MAX_GATE_REPORT_BYTES :: nat where "MAX_GATE_REPORT_BYTES = 4096"

definition truncated_id :: string where "truncated_id = ''gate-diagnostics-truncated''"

definition truncated_reason :: "bool \<Rightarrow> string" where
  "truncated_reason cleared =
    (if cleared then [] else ''current validator evidence failed closed; public diagnostics truncated'')"

definition render_gate :: "bool \<Rightarrow> string \<Rightarrow> string \<Rightarrow> task \<Rightarrow> verdicts \<Rightarrow> missing \<Rightarrow> string \<Rightarrow> string list
    \<Rightarrow> string + attention_item" where
  "render_gate cleared token mission_id gate vs missing_items reason failed_items =
    (if cleared then gate_checkpoint token mission_id gate vs
     else gate_failed token mission_id gate reason failed_items vs missing_items)"

definition projected_targets :: "string list \<Rightarrow> string list" where
  "projected_targets targets = take 8 (filter (\<lambda>t. utf8_length t \<le> 128) targets)"

fun projected_verdicts :: "string list \<Rightarrow> verdicts \<Rightarrow> string list \<Rightarrow> verdicts \<Rightarrow> verdicts" where
  "projected_verdicts targets vs [] acc = acc"
| "projected_verdicts targets vs (vid # rest) acc =
     (if length acc = 8 then acc
      else if utf8_length vid > 128 then projected_verdicts targets vs rest acc
      else let verds = dict_get vs [] vid;
               kept = dict_of (map (\<lambda>t. (t, verdict_of verds t)) (filter (\<lambda>t. t \<in> fst ` set verds) targets))
           in projected_verdicts targets vs rest (if kept \<noteq> [] then dict_put vid kept acc else acc))"

text \<open>Each rendering draws its own token.\<close>

definition bounded_gate_attention :: "string \<times> string \<times> string \<Rightarrow> string \<Rightarrow> task \<Rightarrow> gate_result \<Rightarrow> bool
    \<Rightarrow> string + attention_item" where
  "bounded_gate_attention tokens mission_id gate result cleared = (case tokens of (tok1, tok2, tok3) \<Rightarrow>
    (case render_gate cleared tok1 mission_id gate (gr_verdicts result) (gr_missing result) (gr_reason result)
        (gr_failed_items result) of
       Inl e \<Rightarrow> Inl e
     | Inr full \<Rightarrow>
        if utf8_length (a_report full) < MAX_GATE_REPORT_BYTES then Inr full
        else let targets = projected_targets (t_targets gate);
                 gate_id = (if utf8_length (t_id gate) > 128 then truncated_id else t_id gate);
                 vs = projected_verdicts targets (gr_verdicts result) (sort (dict_keys (gr_verdicts result))) [];
                 miss = dict_of (map (\<lambda>vid. (vid, filter (\<lambda>t. t \<in> set (dict_get (gr_missing result) [] vid)) targets))
                   (dict_keys vs))
             in (case render_gate cleared tok2 mission_id (gate\<lparr>t_id := gate_id, t_targets := targets\<rparr>) vs miss
                   (truncated_reason cleared) (filter (\<lambda>t. t \<in> set (gr_failed_items result)) targets) of
                  Inl e \<Rightarrow> Inl e
                | Inr bounded \<Rightarrow>
                    if utf8_length (a_report bounded) < MAX_GATE_REPORT_BYTES then Inr bounded
                    else render_gate cleared tok3 mission_id (gate\<lparr>t_id := truncated_id, t_targets := []\<rparr>) [] []
                      (truncated_reason cleared) [])))"

end
