(* ===== verification/Gates_Proofs.thy ===== *)
theory Gates_Proofs
  imports Gates
begin

text \<open>
  Gate evaluation decides by evidence: a gate clears exactly when every target has a current
  validator and each current validator confirms it once in its retained generation.  Currentness
  is dominance in the dependency order, and the public report of a gate is bounded.
\<close>

section \<open>Evidence of one validator\<close>

text \<open>The retained generation of \<open>v\<close> is a readable validation handoff that passes the target in
  exactly one item.\<close>

definition confirms :: "attempt_reader \<Rightarrow> task_state \<Rightarrow> string \<Rightarrow> string \<Rightarrow> bool" where
  "confirms rd ts v tgt \<longleftrightarrow> (\<exists>gen h i. last_attempt_of ts v = Some gen \<and> rd_attempt rd gen v = Inr (Some h)
     \<and> is_validate_handoff h \<and> filter (\<lambda>i. v_item_id i = tgt) (h_items h) = [i] \<and> v_passed i)"

definition passes_once :: "validation_item list \<Rightarrow> string \<Rightarrow> bool" where
  "passes_once items tgt \<longleftrightarrow> (\<exists>i. filter (\<lambda>i. v_item_id i = tgt) items = [i] \<and> v_passed i)"

lemma judge_fold:
  assumes "fold (judge_item expected) items ([], []) = (verdicts, returned)"
  shows "set returned = v_item_id ` set items"
    and "fst ` set verdicts = set expected \<inter> v_item_id ` set items"
    and "t \<in> set expected \<inter> v_item_id ` set items \<Longrightarrow> dict_get verdicts False t \<longleftrightarrow> passes_once items t"
proof -
  have "set returned = v_item_id ` set items \<and> fst ` set verdicts = set expected \<inter> v_item_id ` set items
    \<and> (\<forall>t \<in> set expected \<inter> v_item_id ` set items. dict_get verdicts False t \<longleftrightarrow> passes_once items t)"
    using assms
  proof (induction items arbitrary: verdicts returned rule: rev_induct)
    case Nil
    then show ?case by simp
  next
    case (snoc i items)
    obtain vs ret where prev: "fold (judge_item expected) items ([], []) = (vs, ret)" by fastforce
    note IH = snoc.IH[OF prev]
    have now: "verdicts = (if v_item_id i \<in> set expected
        then dict_put (v_item_id i) (if v_item_id i \<in> set ret then False else v_passed i) vs else vs)"
      "returned = v_item_id i # ret"
    proof -
      have "judge_item expected i (vs, ret) = (verdicts, returned)" using snoc.prems prev by simp
      then show "verdicts = (if v_item_id i \<in> set expected
          then dict_put (v_item_id i) (if v_item_id i \<in> set ret then False else v_passed i) vs else vs)"
        "returned = v_item_id i # ret"
        by (auto simp: judge_item_def)
    qed
    have none: "filter (\<lambda>j. v_item_id j = t) items = [] \<longleftrightarrow> t \<notin> v_item_id ` set items" for t
      by (auto simp: filter_empty_conv)
    have once: "passes_once (items @ [i]) t \<longleftrightarrow> (if v_item_id i = t then t \<notin> v_item_id ` set items \<and> v_passed i
        else passes_once items t)" for t
      using none[of t] by (auto simp: passes_once_def append_eq_Cons_conv)
    show ?case
    proof (intro conjI ballI)
      show "set returned = v_item_id ` set (items @ [i])" using IH now by auto
      show "fst ` set verdicts = set expected \<inter> v_item_id ` set (items @ [i])"
        using IH now by (auto simp: dict_simps)
      fix t assume "t \<in> set expected \<inter> v_item_id ` set (items @ [i])"
      then show "dict_get verdicts False t \<longleftrightarrow> passes_once (items @ [i]) t"
        using IH now once[of t] by (auto simp: dict_simps)
    qed
  qed
  then show "set returned = v_item_id ` set items" "fst ` set verdicts = set expected \<inter> v_item_id ` set items"
    and "t \<in> set expected \<inter> v_item_id ` set items \<Longrightarrow> dict_get verdicts False t \<longleftrightarrow> passes_once items t"
    by blast+
qed

lemma fold_put_False:
  "fst ` set (fold (\<lambda>t. dict_put t False) ts d) = set ts \<union> fst ` set d"
  "dict_get (fold (\<lambda>t. dict_put t False) ts d) False t = (t \<notin> set ts \<and> dict_get d False t)"
  by (induction ts arbitrary: d) (auto simp: dict_simps)

lemma item_evidence_verdicts:
  "fst ` set (ev_verdicts (item_evidence expected path items)) = set expected"
  "t \<in> set expected \<Longrightarrow> dict_get (ev_verdicts (item_evidence expected path items)) False t \<longleftrightarrow> passes_once items t"
proof -
  obtain vs ret where f: "fold (judge_item expected) items ([], []) = (vs, ret)" by fastforce
  note j = judge_fold[OF f]
  have e: "ev_verdicts (item_evidence expected path items)
      = fold (\<lambda>t. dict_put t False) (filter (\<lambda>t. t \<notin> set ret) expected) vs"
    by (simp add: item_evidence_def f Let_def)
  show "fst ` set (ev_verdicts (item_evidence expected path items)) = set expected"
    unfolding e fold_put_False j(1,2) set_filter by blast
  assume t: "t \<in> set expected"
  have none: "\<not> passes_once items t" if "t \<notin> v_item_id ` set items"
  proof -
    have "filter (\<lambda>j. v_item_id j = t) items = []" using that by (auto simp: filter_empty_conv)
    then show ?thesis by (simp add: passes_once_def)
  qed
  show "dict_get (ev_verdicts (item_evidence expected path items)) False t \<longleftrightarrow> passes_once items t"
    unfolding e fold_put_False set_filter using t j(1) j(3)[of t] none by blast
qed

lemma no_evidence_verdicts:
  "fst ` set (ev_verdicts (no_evidence expected path rej)) = set expected"
  "dict_get (ev_verdicts (no_evidence expected path rej)) False t = False"
  by (auto simp: no_evidence_def dict_simps image_image dict_get_const[where f = "\<lambda>x. x"])

lemma validator_evidence_verdicts:
  "fst ` set (ev_verdicts (validator_evidence rd ts v expected)) = set expected"
  "t \<in> set expected \<Longrightarrow> dict_get (ev_verdicts (validator_evidence rd ts v expected)) False t \<longleftrightarrow> confirms rd ts v t"
  by (auto simp: validator_evidence_def no_evidence_verdicts item_evidence_verdicts confirms_def passes_once_def
      split: option.splits sum.splits)

lemma validator_evidence_rejected:
  "ev_rejected (validator_evidence rd ts v expected) \<noteq> [] \<Longrightarrow> \<not> confirms rd ts v t"
  by (auto simp: validator_evidence_def no_evidence_def item_evidence_def confirms_def Let_def
      split: option.splits sum.splits if_splits prod.splits)

section \<open>The decision\<close>

lemma set_dict_of_map: "set (dict_of (map (\<lambda>k. (k, f k)) ks)) = (\<lambda>k. (k, f k)) ` set ks"
proof -
  have d: "distinct (dict_keys (dict_of (map (\<lambda>k. (k, f k)) ks)))" by (rule distinct_dict_of)
  have "map_of (dict_of (map (\<lambda>k. (k, f k)) ks)) k = (if k \<in> set ks then Some (f k) else None)" for k
    unfolding map_of_dict_of rev_map map_of_map_key by simp
  then have "(k, v) \<in> set (dict_of (map (\<lambda>k. (k, f k)) ks)) \<longleftrightarrow> k \<in> set ks \<and> v = f k" for k v
    using map_of_eq_Some_iff[OF d, of k v] by (metis option.distinct(1) option.inject)
  then show ?thesis by auto
qed

lemma covering_ids_evs:
  "v \<in> set (covering_ids (map (\<lambda>(v, e). (v, ev_verdicts e)) evs) tgt) \<longleftrightarrow>
    (\<exists>e. (v, e) \<in> set evs \<and> tgt \<in> fst ` set (ev_verdicts e))"
  by (force simp: covering_ids_def)

lemma decide_gate_cleared:
  assumes d: "distinct (dict_keys evs)"
  shows "gr_cleared (decide_gate targets evs) \<longleftrightarrow>
    (\<forall>tgt \<in> set targets. \<exists>v e. (v, e) \<in> set evs \<and> tgt \<in> fst ` set (ev_verdicts e))
    \<and> (\<forall>tgt \<in> set targets. \<forall>v e. (v, e) \<in> set evs \<longrightarrow> tgt \<in> fst ` set (ev_verdicts e) \<longrightarrow> dict_get (ev_verdicts e) False tgt)
    \<and> (\<forall>v e. (v, e) \<in> set evs \<longrightarrow> ev_rejected e = [])"
proof -
  let ?vs = "map (\<lambda>(v, e). (v, ev_verdicts e)) evs"
  have get: "dict_get ?vs [] v = ev_verdicts e" if "(v, e) \<in> set evs" for v e
  proof -
    have "distinct (dict_keys ?vs)" using d by (simp add: comp_def case_prod_unfold)
    moreover have "(v, ev_verdicts e) \<in> set ?vs" using that by force
    ultimately show ?thesis by (simp add: dict_get_def)
  qed
  have cov: "covering_ids ?vs tgt \<noteq> [] \<longleftrightarrow> (\<exists>v e. (v, e) \<in> set evs \<and> tgt \<in> fst ` set (ev_verdicts e))" for tgt
    using covering_ids_evs[of _ evs tgt] by (metis list.set_intros(1) neq_Nil_conv empty_iff empty_set)
  have all: "list_all (\<lambda>vid. verdict_of (dict_get ?vs [] vid) tgt) (covering_ids ?vs tgt) \<longleftrightarrow>
      (\<forall>v e. (v, e) \<in> set evs \<longrightarrow> tgt \<in> fst ` set (ev_verdicts e) \<longrightarrow> dict_get (ev_verdicts e) False tgt)" for tgt
    unfolding list_all_iff Ball_def covering_ids_evs verdict_of_def using get by metis
  let ?passed = "dict_of (map (\<lambda>tgt. (tgt, list_all (\<lambda>vid. verdict_of (dict_get ?vs [] vid) tgt) (covering_ids ?vs tgt)))
      (filter (\<lambda>tgt. covering_ids ?vs tgt \<noteq> []) targets))"
  have passed: "list_all snd ?passed \<longleftrightarrow> (\<forall>tgt \<in> set targets. covering_ids ?vs tgt \<noteq> [] \<longrightarrow>
      list_all (\<lambda>vid. verdict_of (dict_get ?vs [] vid) tgt) (covering_ids ?vs tgt))"
    unfolding list_all_iff[of snd] set_dict_of_map by auto
  have rej: "concat (map (\<lambda>(v, e). ev_rejected e) evs) = [] \<longleftrightarrow> (\<forall>v e. (v, e) \<in> set evs \<longrightarrow> ev_rejected e = [])"
    by auto
  have unc: "filter (\<lambda>tgt. covering_ids ?vs tgt = []) targets \<noteq> [] \<longleftrightarrow> (\<exists>tgt \<in> set targets. covering_ids ?vs tgt = [])"
    by (auto simp: filter_empty_conv)
  have cl: "gr_cleared (decide_gate targets evs) \<longleftrightarrow>
      filter (\<lambda>tgt. covering_ids ?vs tgt = []) targets = [] \<and> list_all snd ?passed
      \<and> concat (map (\<lambda>(v, e). ev_rejected e) evs) = []"
    unfolding decide_gate_def Let_def by (simp del: concat_map_Nil_iff split: if_split)
  show ?thesis unfolding cl passed rej unfolding all using unc cov by blast
qed

section \<open>Who has to confirm what\<close>

lemma current_by_target_get:
  "tgt \<in> set (t_targets gate) \<Longrightarrow> dict_get (current_validators_by_target tks ts gate) [] tgt = current_validators tks ts gate tgt"
  unfolding current_validators_by_target_def dict_get_def map_of_dict_of rev_map map_of_map_key by simp

lemma current_ids_set:
  "set (concat (map snd (current_validators_by_target tks ts gate)))
    = (\<Union>tgt \<in> set (t_targets gate). set (current_validators tks ts gate tgt))"
  by (simp add: current_validators_by_target_def set_dict_of_map image_image)

lemma current_sub: "set (current_validators tks ts gate tgt) \<subseteq> t_id ` set tks"
  by (auto simp: current_validators_def Let_def)

lemma expected_by_validator_mem:
  assumes "distinct (task_ids tks)"
  shows "(v, expected) \<in> set (expected_by_validator tks ts gate) \<longleftrightarrow>
    (\<exists>tgt \<in> set (t_targets gate). v \<in> set (current_validators tks ts gate tgt))
    \<and> expected = filter (\<lambda>tgt. v \<in> set (current_validators tks ts gate tgt)) (t_targets gate)"
    and "distinct (dict_keys (expected_by_validator tks ts gate))"
proof -
  let ?cur = "current_validators_by_target tks ts gate"
  let ?ts = "filter (\<lambda>t. t_id t \<in> set (concat (map snd ?cur))) tks"
  let ?e = "\<lambda>t. filter (\<lambda>tgt. t_id t \<in> set (dict_get ?cur [] tgt)) (t_targets gate)"
  have d: "distinct (map fst (map (\<lambda>t. (t_id t, ?e t)) ?ts))"
    using distinct_map_filter[OF assms] by (simp add: comp_def)
  have eq: "expected_by_validator tks ts gate = map (\<lambda>t. (t_id t, ?e t)) ?ts"
    unfolding expected_by_validator_def Let_def by (rule dict_of_distinct[OF d])
  show "distinct (dict_keys (expected_by_validator tks ts gate))"
    unfolding eq by (rule d)
  have e: "?e t = filter (\<lambda>tgt. t_id t \<in> set (current_validators tks ts gate tgt)) (t_targets gate)" for t
    by (rule filter_cong) (simp_all add: current_by_target_get)
  show "(v, expected) \<in> set (expected_by_validator tks ts gate) \<longleftrightarrow>
    (\<exists>tgt \<in> set (t_targets gate). v \<in> set (current_validators tks ts gate tgt))
    \<and> expected = filter (\<lambda>tgt. v \<in> set (current_validators tks ts gate tgt)) (t_targets gate)"
  proof (intro iffI conjI)
    assume "(v, expected) \<in> set (expected_by_validator tks ts gate)"
    then show "\<exists>tgt \<in> set (t_targets gate). v \<in> set (current_validators tks ts gate tgt)"
      and "expected = filter (\<lambda>tgt. v \<in> set (current_validators tks ts gate tgt)) (t_targets gate)"
      unfolding eq e set_map set_filter current_ids_set by auto
  next
    assume r: "(\<exists>tgt \<in> set (t_targets gate). v \<in> set (current_validators tks ts gate tgt))
      \<and> expected = filter (\<lambda>tgt. v \<in> set (current_validators tks ts gate tgt)) (t_targets gate)"
    then obtain t where t: "t \<in> set tks" "v = t_id t" using current_sub[of tks ts gate] by fast
    then have "t \<in> set ?ts" using r unfolding set_filter current_ids_set by blast
    moreover have "(v, expected) = (t_id t, ?e t)" using r t unfolding e by simp
    ultimately show "(v, expected) \<in> set (expected_by_validator tks ts gate)"
      unfolding eq set_map by (metis (no_types, lifting) image_eqI)
  qed
qed

lemma evaluate_gate_cleared:
  assumes "distinct (task_ids tks)"
  shows "gr_cleared (evaluate_gate rd tks ts gate) \<longleftrightarrow>
    (\<forall>tgt \<in> set (t_targets gate). current_validators tks ts gate tgt \<noteq> []
      \<and> (\<forall>v \<in> set (current_validators tks ts gate tgt). confirms rd ts v tgt))"
proof -
  let ?cur = "current_validators tks ts gate"
  let ?evs = "map (\<lambda>(v, expected). (v, validator_evidence rd ts v expected)) (expected_by_validator tks ts gate)"
  have d: "distinct (dict_keys ?evs)"
    using expected_by_validator_mem(2)[OF assms] by (simp add: comp_def case_prod_unfold)
  have mem: "(v, e) \<in> set ?evs \<longleftrightarrow> (\<exists>tgt \<in> set (t_targets gate). v \<in> set (?cur tgt))
      \<and> e = validator_evidence rd ts v (filter (\<lambda>tgt. v \<in> set (?cur tgt)) (t_targets gate))" for v e
    using expected_by_validator_mem(1)[OF assms, of v _ ts gate] by force
  have keys: "tgt \<in> fst ` set (ev_verdicts e) \<longleftrightarrow> tgt \<in> set (t_targets gate) \<and> v \<in> set (?cur tgt)"
    if "(v, e) \<in> set ?evs" for v e tgt
    using that unfolding mem by (auto simp: validator_evidence_verdicts)
  have verdict: "dict_get (ev_verdicts e) False tgt \<longleftrightarrow> confirms rd ts v tgt"
    if "(v, e) \<in> set ?evs" "tgt \<in> set (t_targets gate)" "v \<in> set (?cur tgt)" for v e tgt
    using that unfolding mem by (simp add: validator_evidence_verdicts)
  have covered: "(\<exists>v e. (v, e) \<in> set ?evs \<and> tgt \<in> fst ` set (ev_verdicts e)) \<longleftrightarrow> ?cur tgt \<noteq> []"
    if "tgt \<in> set (t_targets gate)" for tgt
  proof
    assume "\<exists>v e. (v, e) \<in> set ?evs \<and> tgt \<in> fst ` set (ev_verdicts e)"
    then obtain v e where ve: "(v, e) \<in> set ?evs" "tgt \<in> fst ` set (ev_verdicts e)" by (elim exE conjE)
    from keys[OF ve(1)] ve(2) have "v \<in> set (?cur tgt)" by blast
    then show "?cur tgt \<noteq> []" by (metis empty_iff empty_set)
  next
    assume "?cur tgt \<noteq> []"
    then obtain v where v: "v \<in> set (?cur tgt)" by (metis hd_in_set)
    let ?e = "validator_evidence rd ts v (filter (\<lambda>tgt. v \<in> set (?cur tgt)) (t_targets gate))"
    have "(v, ?e) \<in> set ?evs" unfolding mem using v that by blast
    with keys[OF this] v that show "\<exists>v e. (v, e) \<in> set ?evs \<and> tgt \<in> fst ` set (ev_verdicts e)" by blast
  qed
  have rej: "ev_rejected e = []"
    if "(v, e) \<in> set ?evs" "\<forall>tgt \<in> set (t_targets gate). \<forall>v \<in> set (?cur tgt). confirms rd ts v tgt" for v e
  proof -
    note ve = that(1)[unfolded mem] and all = that(2)
    obtain tgt where "tgt \<in> set (t_targets gate)" "v \<in> set (?cur tgt)"
      and e: "e = validator_evidence rd ts v (filter (\<lambda>tgt. v \<in> set (?cur tgt)) (t_targets gate))"
      using ve by blast
    then have "confirms rd ts v tgt" using all by blast
    then show ?thesis unfolding e using validator_evidence_rejected by blast
  qed
  have agree: "(\<forall>tgt \<in> set (t_targets gate). \<forall>v e. (v, e) \<in> set ?evs \<longrightarrow> tgt \<in> fst ` set (ev_verdicts e)
        \<longrightarrow> dict_get (ev_verdicts e) False tgt)
      \<longleftrightarrow> (\<forall>tgt \<in> set (t_targets gate). \<forall>v \<in> set (?cur tgt). confirms rd ts v tgt)"
  proof (intro iffI ballI allI impI)
    fix tgt v
    assume all: "\<forall>tgt \<in> set (t_targets gate). \<forall>v e. (v, e) \<in> set ?evs \<longrightarrow> tgt \<in> fst ` set (ev_verdicts e)
        \<longrightarrow> dict_get (ev_verdicts e) False tgt"
      and tgt: "tgt \<in> set (t_targets gate)" and v: "v \<in> set (?cur tgt)"
    have e: "(v, validator_evidence rd ts v (filter (\<lambda>tgt. v \<in> set (?cur tgt)) (t_targets gate))) \<in> set ?evs"
      unfolding mem using tgt v by blast
    have "dict_get (ev_verdicts (validator_evidence rd ts v (filter (\<lambda>tgt. v \<in> set (?cur tgt)) (t_targets gate)))) False tgt"
      using all tgt e keys[OF e, of tgt] v by blast
    then show "confirms rd ts v tgt" using verdict[OF e tgt v] by blast
  next
    fix tgt v e
    assume all: "\<forall>tgt \<in> set (t_targets gate). \<forall>v \<in> set (?cur tgt). confirms rd ts v tgt"
      and tgt: "tgt \<in> set (t_targets gate)" and e: "(v, e) \<in> set ?evs" "tgt \<in> fst ` set (ev_verdicts e)"
    have v: "v \<in> set (?cur tgt)" using keys[OF e(1), of tgt] e(2) by blast
    then show "dict_get (ev_verdicts e) False tgt" using verdict[OF e(1) tgt v] all tgt by blast
  qed
  show ?thesis
  proof
    assume "gr_cleared (evaluate_gate rd tks ts gate)"
    then show "\<forall>tgt \<in> set (t_targets gate). ?cur tgt \<noteq> [] \<and> (\<forall>v \<in> set (?cur tgt). confirms rd ts v tgt)"
      unfolding evaluate_gate_def decide_gate_cleared[OF d] agree using covered by blast
  next
    assume r: "\<forall>tgt \<in> set (t_targets gate). ?cur tgt \<noteq> [] \<and> (\<forall>v \<in> set (?cur tgt). confirms rd ts v tgt)"
    then have "\<forall>v e. (v, e) \<in> set ?evs \<longrightarrow> ev_rejected e = []" using rej by blast
    with r show "gr_cleared (evaluate_gate rd tks ts gate)"
      unfolding evaluate_gate_def decide_gate_cleared[OF d] agree using covered by blast
  qed
qed

section \<open>Currentness is dominance\<close>

lemma downstream_keys: "fst ` set (downstream_graph tks) = t_id ` set tks"
proof -
  have a: "fst ` set (add_downstream tid d g) = fst ` set g" for tid d g
    by (auto simp: add_downstream_def dict_append_def dict_simps)
  have b: "fst ` set (fold (add_downstream tid) ds g) = fst ` set g" for tid ds g
    by (induction ds arbitrary: g) (simp_all add: a)
  have "fst ` set (fold (\<lambda>t. fold (add_downstream (t_id t)) (t_depends_on t)) us g) = fst ` set g" for us :: task_list and g
    by (induction us arbitrary: g) (simp_all add: b)
  then show ?thesis by (simp add: downstream_graph_def dict_simps image_image)
qed

lemma succs_add_downstream:
  "set (succs (fold (add_downstream tid) ds g) x)
    = set (succs g x) \<union> (if x \<in> fst ` set g \<and> x \<in> set ds then {tid} else {})"
proof (induction ds arbitrary: g)
  case Nil
  then show ?case by simp
next
  case (Cons d ds)
  have k: "fst ` set (add_downstream tid d g) = fst ` set g"
    by (auto simp: add_downstream_def dict_append_def dict_simps)
  have one: "set (succs (add_downstream tid d g) x) = set (succs g x) \<union> (if x \<in> fst ` set g \<and> x = d then {tid} else {})"
    by (cases "x = d"; cases "d \<in> fst ` set g") (simp_all add: add_downstream_def succs_def dict_get_append)
  show ?case unfolding fold_simps comp_def Cons.IH k one by auto
qed

lemma succs_downstream: "y \<in> set (succs (downstream_graph tks) x) \<longleftrightarrow> (x, y) \<in> dep_edges tks"
proof -
  have k: "fst ` set (fold (add_downstream tid) ds g) = fst ` set g" for tid ds g
  proof (induction ds arbitrary: g)
    case (Cons d ds)
    then show ?case by (auto simp: add_downstream_def dict_append_def dict_simps)
  qed simp
  have "y \<in> set (succs (fold (\<lambda>t. fold (add_downstream (t_id t)) (t_depends_on t)) us g) x) \<longleftrightarrow>
      y \<in> set (succs g x) \<or> (\<exists>t \<in> set us. y = t_id t \<and> x \<in> fst ` set g \<and> x \<in> set (t_depends_on t))"
    for us :: task_list and g
    by (induction us arbitrary: g) (auto simp: succs_add_downstream k)
  moreover have "succs (dict_of (map (\<lambda>t. (t_id t, [])) tks)) x = []"
    by (simp add: succs_def dict_get_const)
  ultimately show ?thesis
    unfolding downstream_graph_def dep_edges_def by (auto simp: dict_simps image_image)
qed

lemma arcs_downstream: "arcs (downstream_graph tks) = dep_edges tks"
  by (auto simp: arcs_def succs_downstream)

lemma live_reach_step: "y \<in> live_reach skip g S \<Longrightarrow> z \<in> set (succs g y) \<Longrightarrow> \<not> skip z \<Longrightarrow> z \<in> live_reach skip g S"
  by (auto simp: live_reach_def live_arcs_def intro: rtrancl_into_rtrancl)

lemma live_reach_start: "x \<in> S \<Longrightarrow> \<not> skip x \<Longrightarrow> x \<in> live_reach skip g S"
  by (auto simp: live_reach_def)

lemma live_reach_sub: "live_reach skip g S \<subseteq> reach g S"
proof -
  have "(live_arcs skip g)\<^sup>* \<subseteq> (arcs g)\<^sup>*"
    by (rule rtrancl_mono) (auto simp: live_arcs_def arcs_def)
  then show ?thesis by (auto simp: live_reach_def reach_def)
qed

lemma live_reach_downstream:
  assumes "acyclic (dep_edges tks)" "(v, c) \<in> (dep_edges tks)\<^sup>+" "(c, gate) \<in> (dep_edges tks)\<^sup>+"
  shows "c \<in> live_reach (\<lambda>x. x = gate) (downstream_graph tks) (set (succs (downstream_graph tks) v))"
  using assms(2,3)
proof (induction rule: trancl_induct)
  case (base y)
  then have "y \<noteq> gate" using assms(1) by (auto simp: acyclic_def)
  then show ?case using base(1) by (intro live_reach_start) (simp_all add: succs_downstream)
next
  case (step y z)
  have "(y, gate) \<in> (dep_edges tks)\<^sup>+" using step.hyps(2) step.prems by (rule trancl_into_trancl2)
  note y = step.IH[OF this]
  have z: "z \<in> set (succs (downstream_graph tks) y)" using step.hyps(2) by (simp only: succs_downstream)
  have "z \<noteq> gate" using assms(1) step.prems by (metis acyclic_def)
  then show ?case by (rule live_reach_step[OF y z])
qed

text \<open>The validators that cover a target on the way to a gate.\<close>

definition covers :: "task_list \<Rightarrow> task_state \<Rightarrow> task \<Rightarrow> string \<Rightarrow> string \<Rightarrow> bool" where
  "covers tks ts gate tgt v \<longleftrightarrow> (\<exists>t \<in> set tks. t_id t = v \<and> t_type t = Validate \<and> tgt \<in> set (t_targets t)
     \<and> status_of ts v \<noteq> Superseded \<and> (v, t_id gate) \<in> (dep_edges tks)\<^sup>+)"

lemma find_by_id:
  fixes tks :: task_list
  shows "distinct (task_ids tks) \<Longrightarrow> t \<in> set tks \<Longrightarrow> find (\<lambda>u. t_id u = t_id t) tks = Some t"
  by (induction tks) auto

lemma gate_reachable_set:
  assumes "distinct (task_ids tks)" "gate \<in> set tks"
  shows "set (gate_reachable tks gate) = {v. (v, t_id gate) \<in> (dep_edges tks)\<^sup>+}"
proof -
  have "find (\<lambda>t. t_id t = t_id gate) tks = Some gate"
    by (rule find_by_id[OF assms])
  then have p: "predecessors_of tks (t_id gate) = t_depends_on gate" by (simp add: predecessors_of_def)
  have "set (t_depends_on gate) \<inter> t_id ` set tks = {d. (d, t_id gate) \<in> dep_edges tks}"
    using set_predecessors_of[OF assms(1), of "t_id gate"] p by simp
  then have "set (gate_reachable tks gate) = {y. \<exists>x. (x, t_id gate) \<in> dep_edges tks \<and> (y, x) \<in> (dep_edges tks)\<^sup>*}"
    using upstream_reach[OF assms(1), of "set (t_depends_on gate)"]
    by (simp add: gate_reachable_def dfs_collect_reach dict_simps)
  then show ?thesis by (auto simp: trancl_unfold_right)
qed

lemma candidate_set:
  assumes "distinct (task_ids tks)" "gate \<in> set tks"
  shows "v \<in> set (candidate_validators tks ts gate tgt) \<longleftrightarrow> covers tks ts gate tgt v"
  unfolding candidate_validators_def covers_def using gate_reachable_set[OF assms] by auto

lemma dominated_iff:
  assumes "distinct (task_ids tks)" "acyclic (dep_edges tks)" "gate \<in> set tks"
  shows "dominated tks gate (candidate_validators tks ts gate tgt) v \<longleftrightarrow>
    (\<exists>c. covers tks ts gate tgt c \<and> (v, c) \<in> (dep_edges tks)\<^sup>+)"
proof -
  let ?g = "downstream_graph tks"
  have "dominated tks gate (candidate_validators tks ts gate tgt) v \<longleftrightarrow>
      (\<exists>c \<in> live_reach (\<lambda>c. c = t_id gate) ?g (set (succs ?g v)). covers tks ts gate tgt c)"
    unfolding dominated_def dfs_find_iff by (simp add: candidate_set[OF assms(1,3)])
  also have "\<dots> \<longleftrightarrow> (\<exists>c. covers tks ts gate tgt c \<and> (v, c) \<in> (dep_edges tks)\<^sup>+)"
  proof
    assume "\<exists>c \<in> live_reach (\<lambda>c. c = t_id gate) ?g (set (succs ?g v)). covers tks ts gate tgt c"
    then obtain c where c: "c \<in> live_reach (\<lambda>c. c = t_id gate) ?g (set (succs ?g v))" "covers tks ts gate tgt c"
      by (elim bexE)
    from subsetD[OF live_reach_sub c(1)] c(2) show "\<exists>c. covers tks ts gate tgt c \<and> (v, c) \<in> (dep_edges tks)\<^sup>+"
      by (auto simp: reach_succs_trancl arcs_downstream)
  next
    assume "\<exists>c. covers tks ts gate tgt c \<and> (v, c) \<in> (dep_edges tks)\<^sup>+"
    then show "\<exists>c \<in> live_reach (\<lambda>c. c = t_id gate) ?g (set (succs ?g v)). covers tks ts gate tgt c"
      using live_reach_downstream[OF assms(2)] unfolding covers_def by blast
  qed
  finally show ?thesis .
qed

lemma current_validators_set:
  assumes "distinct (task_ids tks)" "acyclic (dep_edges tks)" "gate \<in> set tks"
  shows "v \<in> set (current_validators tks ts gate tgt) \<longleftrightarrow>
    covers tks ts gate tgt v \<and> (\<forall>c. covers tks ts gate tgt c \<longrightarrow> (v, c) \<notin> (dep_edges tks)\<^sup>+)"
proof -
  have "v \<in> set (current_validators tks ts gate tgt) \<longleftrightarrow> v \<in> t_id ` set tks
      \<and> v \<in> set (candidate_validators tks ts gate tgt)
      \<and> \<not> dominated tks gate (candidate_validators tks ts gate tgt) v"
    by (auto simp: current_validators_def Let_def)
  moreover have "covers tks ts gate tgt v \<Longrightarrow> v \<in> t_id ` set tks" by (auto simp: covers_def)
  ultimately show ?thesis unfolding dominated_iff[OF assms] candidate_set[OF assms(1,3)] by blast
qed

lemma utf8_bound: "utf8_length s \<le> 2 * length s"
  by (induction s) (auto simp: utf8_length_def)

lemma finite_dep_edges: "finite (dep_edges tks)"
  by (rule finite_subset[of _ "t_id ` set tks \<times> t_id ` set tks"]) (auto simp: dep_edges_def)

section \<open>Pending downstream gates\<close>

lemma pending_gate_iff:
  assumes "distinct (task_ids tks)"
  shows "has_pending_downstream_gate_covering tks ts tid target \<longleftrightarrow>
    (\<exists>g \<in> set tks. t_type g = Gate \<and> target \<in> set (t_targets g) \<and> status_of ts (t_id g) = Pending
      \<and> (tid, t_id g) \<in> (dep_edges tks)\<^sup>+)"
proof -
  let ?hit = "\<lambda>cur. case map_of (by_id tks) cur of None \<Rightarrow> False
    | Some t \<Rightarrow> t_type t = Gate \<and> target \<in> set (t_targets t) \<and> status_of ts (t_id t) = Pending"
  have hit: "?hit cur \<longleftrightarrow> (\<exists>g \<in> set tks. t_id g = cur \<and> t_type g = Gate \<and> target \<in> set (t_targets g)
      \<and> status_of ts (t_id g) = Pending)" for cur
  proof
    assume h: "?hit cur"
    then obtain t where t: "map_of (by_id tks) cur = Some t" by (cases "map_of (by_id tks) cur") simp_all
    from h[unfolded t option.case] by_id_Some[OF t]
    show "\<exists>g \<in> set tks. t_id g = cur \<and> t_type g = Gate \<and> target \<in> set (t_targets g) \<and> status_of ts (t_id g) = Pending"
      by blast
  next
    assume "\<exists>g \<in> set tks. t_id g = cur \<and> t_type g = Gate \<and> target \<in> set (t_targets g) \<and> status_of ts (t_id g) = Pending"
    then obtain g where g: "g \<in> set tks" "t_id g = cur" "t_type g = Gate" "target \<in> set (t_targets g)"
      "status_of ts (t_id g) = Pending" by blast
    then have "map_of (by_id tks) cur = Some g" using by_id_lookup[OF assms g(1)] by simp
    with g show "?hit cur" by simp
  qed
  show ?thesis
    unfolding has_pending_downstream_gate_covering_def dfs_find_iff live_reach_no_skip set_rev
      reach_succs_trancl arcs_downstream hit by blast
qed

lemma bounded_minimal:
  "utf8_length (gate_report (gate\<lparr>t_id := truncated_id, t_targets := []\<rparr>) cleared (truncated_reason cleared') [] [] [])
    < MAX_GATE_REPORT_BYTES"
proof -
  have "length (gate_report (gate\<lparr>t_id := truncated_id, t_targets := []\<rparr>) cleared (truncated_reason cleared') [] [] []) < 2000"
    by (cases cleared; cases cleared')
      (simp_all add: gate_report_def lines_def validator_summary_lines_def truncated_id_def truncated_reason_def show_bool_def)
  then have "utf8_length (gate_report (gate\<lparr>t_id := truncated_id, t_targets := []\<rparr>) cleared (truncated_reason cleared') [] [] []) < 4000"
    using utf8_bound[of "gate_report (gate\<lparr>t_id := truncated_id, t_targets := []\<rparr>) cleared (truncated_reason cleared') [] [] []"]
    by linarith
  then show ?thesis unfolding MAX_GATE_REPORT_BYTES_def by linarith
qed

lemma render_gate_report:
  "render_gate cleared token mid gate vs miss reason failed = Inr it \<Longrightarrow>
    a_report it = (if cleared then gate_report gate True [] [] vs [] else gate_report gate False reason failed vs miss)
    \<and> a_node_id it = Some (t_id gate) \<and> a_mission_id it = mid
    \<and> a_kind it = (if cleared then Gate_checkpoint else Gate_failed)"
  by (auto simp: render_gate_def gate_checkpoint_def gate_failed_def gate_item_def split: if_splits dest!: check_attention_item_Inr)

lemma nested_render:
  assumes "(case r1 of Inl e \<Rightarrow> Inl e | Inr a \<Rightarrow> if P a then Inr a
      else (case r2 of Inl e \<Rightarrow> Inl e | Inr b \<Rightarrow> if P b then Inr b else r3)) = Inr it"
  shows "r1 = Inr it \<and> P it \<or> r2 = Inr it \<and> P it \<or> r3 = Inr it"
  using assms by (auto split: sum.splits if_splits)

lemma bounded_cases:
  assumes "bounded_gate_attention tokens mid gate result cleared = Inr it"
  shows "(\<exists>token g vs miss reason failed. render_gate cleared token mid g vs miss reason failed = Inr it
      \<and> utf8_length (a_report it) < MAX_GATE_REPORT_BYTES \<and> t_id g \<in> {t_id gate, truncated_id})
    \<or> (\<exists>token. render_gate cleared token mid (gate\<lparr>t_id := truncated_id, t_targets := []\<rparr>) [] []
        (truncated_reason cleared) [] = Inr it)"
proof -
  obtain tok1 tok2 tok3 where tok: "tokens = (tok1, tok2, tok3)" by (cases tokens)
  have g: "t_id (gate\<lparr>t_id := (if b then truncated_id else t_id gate), t_targets := ts\<rparr>) \<in> {t_id gate, truncated_id}"
    "t_id gate \<in> {t_id gate, truncated_id}" for b ts
    by simp_all
  from nested_render[OF assms[unfolded tok bounded_gate_attention_def prod.case Let_def]]
  show ?thesis using g by blast
qed

lemma render_gate_total: "task_id_ok (t_id g) \<Longrightarrow> \<exists>it. render_gate cleared token mid g vs miss reason failed = Inr it"
  by (auto simp: render_gate_def gate_checkpoint_def gate_failed_def gate_item_ok)

lemma bounded_total:
  assumes "task_id_ok (t_id gate)"
  shows "\<exists>it. bounded_gate_attention tokens mid gate result cleared = Inr it"
proof -
  obtain tok1 tok2 tok3 where tok: "tokens = (tok1, tok2, tok3)" by (cases tokens)
  have trunc: "task_id_ok truncated_id" by code_simp
  obtain full where full: "render_gate cleared tok1 mid gate (gr_verdicts result) (gr_missing result) (gr_reason result)
      (gr_failed_items result) = Inr full"
    using render_gate_total[OF assms] by blast
  have g: "task_id_ok (t_id (gate\<lparr>t_id := (if b then truncated_id else t_id gate), t_targets := ts\<rparr>))" for b ts
    using assms trunc by simp
  have m: "task_id_ok (t_id (gate\<lparr>t_id := truncated_id, t_targets := []\<rparr>))" using trunc by simp
  have sum: "\<exists>it. (case r of Inl e \<Rightarrow> Inl e | Inr b \<Rightarrow> if P b then Inr b else r') = Inr it"
    if "\<exists>b. r = Inr b" "\<exists>b. r' = Inr b" for r r' :: "string + attention_item" and P
    using that by auto
  show ?thesis
  proof (cases "utf8_length (a_report full) < MAX_GATE_REPORT_BYTES")
    case True
    then show ?thesis unfolding tok bounded_gate_attention_def prod.case full sum.case by simp
  next
    case False
    show ?thesis
      unfolding tok bounded_gate_attention_def prod.case full sum.case Let_def if_not_P[OF False]
      by (rule sum[OF render_gate_total[OF g] render_gate_total[OF m]])
  qed
qed

section \<open>Properties\<close>

text \<open>C3. AND semantics of a gate, as the specification words it: on an acyclic plan with distinct ids
  where no validator that covers a target of the gate is upstream of another one covering it, the
  gate clears exactly when every target is covered by some validator upstream of the gate and every
  covering validator confirms it, by the validation handoff retained for its latest generation
  holding exactly one item for the target, and that item passed.  A single dissent, a missing or
  rejected attempt, a handoff of the wrong kind, a missing item and a repeated item all block the
  gate.  Where one covering validator depends on another, only the last of the chain counts.\<close>

theorem gate_clears_iff_unanimous:
  assumes "distinct (task_ids tks)" "acyclic (dep_edges tks)" "gate \<in> set tks"
    and "\<forall>tgt \<in> set (t_targets gate). \<forall>v c. covers tks ts gate tgt v \<and> covers tks ts gate tgt c
      \<longrightarrow> (v, c) \<notin> (dep_edges tks)\<^sup>+"
  shows "gr_cleared (evaluate_gate rd tks ts gate) \<longleftrightarrow>
    (\<forall>tgt \<in> set (t_targets gate). (\<exists>v. covers tks ts gate tgt v)
      \<and> (\<forall>v. covers tks ts gate tgt v \<longrightarrow> confirms rd ts v tgt))"
proof -
  have "set (current_validators tks ts gate tgt) = {v. covers tks ts gate tgt v}"
    if "tgt \<in> set (t_targets gate)" for tgt
    using current_validators_set[OF assms(1-3)] assms(4) that by blast
  then have cur: "v \<in> set (current_validators tks ts gate tgt) \<longleftrightarrow> covers tks ts gate tgt v"
    if "tgt \<in> set (t_targets gate)" for tgt v
    using that by simp
  show ?thesis unfolding evaluate_gate_cleared[OF assms(1)]
    by (rule ball_cong[OF refl]) (metis cur list.set_intros(1) list.exhaust empty_iff empty_set)
qed

text \<open>C4. Currentness is dominance: on an acyclic plan the current validators of a target are the covering,
  not superseded validators upstream of the gate that no other covering validator depends on, and
  there is one as soon as any validator covers the target.\<close>

theorem current_validators_are_maximal:
  assumes "distinct (task_ids tks)" "acyclic (dep_edges tks)" "gate \<in> set tks"
  shows "(v \<in> set (current_validators tks ts gate tgt) \<longleftrightarrow>
      covers tks ts gate tgt v \<and> (\<forall>c. covers tks ts gate tgt c \<longrightarrow> (v, c) \<notin> (dep_edges tks)\<^sup>+))
    \<and> (current_validators tks ts gate tgt = [] \<longleftrightarrow> (\<forall>c. \<not> covers tks ts gate tgt c))"
proof (intro conjI)
  note cur = current_validators_set[OF assms]
  show "v \<in> set (current_validators tks ts gate tgt) \<longleftrightarrow>
      covers tks ts gate tgt v \<and> (\<forall>c. covers tks ts gate tgt c \<longrightarrow> (v, c) \<notin> (dep_edges tks)\<^sup>+)"
    by (rule cur)
  have "wf ((dep_edges tks)\<inverse>)" by (rule finite_acyclic_wf_converse[OF finite_dep_edges assms(2)])
  then have wf: "wf (((dep_edges tks)\<inverse>)\<^sup>+)" by (rule wf_trancl)
  have "\<exists>v. v \<in> set (current_validators tks ts gate tgt)" if "covers tks ts gate tgt c" for c
  proof -
    have "c \<in> {c. covers tks ts gate tgt c}" using that by simp
    then obtain z where z: "z \<in> {c. covers tks ts gate tgt c}"
      and min: "\<And>y. (y, z) \<in> ((dep_edges tks)\<inverse>)\<^sup>+ \<Longrightarrow> y \<notin> {c. covers tks ts gate tgt c}"
      by (rule wfE_min[OF wf]) blast
    have "(z, y) \<notin> (dep_edges tks)\<^sup>+" if "covers tks ts gate tgt y" for y
      using min[of y] that unfolding trancl_converse by blast
    with z have "z \<in> set (current_validators tks ts gate tgt)" unfolding cur mem_Collect_eq by (intro conjI allI impI)
    then show ?thesis ..
  qed
  then show "current_validators tks ts gate tgt = [] \<longleftrightarrow> (\<forall>c. \<not> covers tks ts gate tgt c)"
    using cur by (metis empty_iff empty_set list.set_intros(1) neq_Nil_conv)
qed

text \<open>A completed validation raises attention exactly when some target it did not pass (or any target,
  when the handoff denies the whole) is covered by no pending gate downstream of it: every failed
  target is surfaced either at once or by a gate still to come.\<close>

theorem failed_validation_is_surfaced:
  assumes "distinct (task_ids tks)"
  shows "(validate_failure_needs_attention tks ts t h \<longleftrightarrow>
    (\<exists>tgt \<in> set (targets_needing_attention t h).
      \<not> (\<exists>g \<in> set tks. t_type g = Gate \<and> tgt \<in> set (t_targets g) \<and> status_of ts (t_id g) = Pending
          \<and> (t_id t, t_id g) \<in> (dep_edges tks)\<^sup>+)))
   \<and> (t_targets t \<noteq> [] \<and> targets_needing_attention t h = [] \<longrightarrow>
        h_passed h \<and> (\<forall>tgt \<in> set (t_targets t). \<exists>i \<in> set (h_items h). v_item_id i = tgt \<and> v_passed i))"
proof -
  let ?items = "filter (\<lambda>i. v_item_id i \<in> set (t_targets t)) (h_items h)"
  let ?ret = "dict_of (map (\<lambda>i. (v_item_id i, v_passed i)) ?items)"
  have ret: "\<exists>i \<in> set (h_items h). v_item_id i = tgt \<and> v_passed i" if "map_of ?ret tgt = Some True" for tgt
    using that unfolding map_of_dict_of by (auto dest!: map_of_SomeD)
  have "h_passed h \<and> (\<forall>tgt \<in> set (t_targets t). \<exists>i \<in> set (h_items h). v_item_id i = tgt \<and> v_passed i)"
    if "t_targets t \<noteq> []" "targets_needing_attention t h = []"
  proof -
    have none: "filter (\<lambda>target. map_of ?ret target \<noteq> Some True) (t_targets t) = []" and "h_passed h"
      using that unfolding targets_needing_attention_def Let_def by (auto split: if_splits)
    then show ?thesis using ret unfolding filter_empty_conv by blast
  qed
  then show ?thesis
    unfolding validate_failure_needs_attention_def list_ex_iff pending_gate_iff[OF assms] by blast
qed

text \<open>The public report of a gate event is total and bounded: for a gate with a well-formed id the
  attention item is always built, stays below 4096 bytes of UTF-8 whatever the evidence, keeps its
  mission and kind, and names the gate, or the fixed placeholder when the diagnostics were cut.\<close>

theorem gate_report_bounded:
  assumes "task_id_ok (t_id gate)"
  shows "\<exists>it. bounded_gate_attention tokens mid gate result cleared = Inr it
    \<and> utf8_length (a_report it) < 4096 \<and> a_mission_id it = mid
    \<and> a_kind it = (if cleared then Gate_checkpoint else Gate_failed)
    \<and> a_node_id it \<in> {Some (t_id gate), Some truncated_id}"
proof -
  obtain it where it: "bounded_gate_attention tokens mid gate result cleared = Inr it"
    using bounded_total[OF assms] by blast
  have "utf8_length (a_report it) < 4096 \<and> a_mission_id it = mid
      \<and> a_kind it = (if cleared then Gate_checkpoint else Gate_failed) \<and> a_node_id it \<in> {Some (t_id gate), Some truncated_id}"
    using bounded_cases[OF it]
  proof (elim disjE exE conjE)
    fix token g vs miss reason failed
    assume r: "render_gate cleared token mid g vs miss reason failed = Inr it"
      and "utf8_length (a_report it) < MAX_GATE_REPORT_BYTES" and "t_id g \<in> {t_id gate, truncated_id}"
    then show ?thesis using render_gate_report[OF r] by (auto simp: MAX_GATE_REPORT_BYTES_def)
  next
    fix token
    assume r: "render_gate cleared token mid (gate\<lparr>t_id := truncated_id, t_targets := []\<rparr>) [] []
      (truncated_reason cleared) [] = Inr it"
    have "cleared \<Longrightarrow> truncated_reason cleared = []" by (simp add: truncated_reason_def)
    then have "utf8_length (a_report it) < MAX_GATE_REPORT_BYTES"
      using render_gate_report[OF r] bounded_minimal[of gate cleared cleared] by (cases cleared) simp_all
    then show ?thesis using render_gate_report[OF r] by (simp add: MAX_GATE_REPORT_BYTES_def)
  qed
  with it show ?thesis by blast
qed

section \<open>Instances\<close>

text \<open>The validator has cleared with one passed item.\<close>

definition demo_reader :: attempt_reader where
  "demo_reader = \<lparr>rd_attempt = (\<lambda>gen v. Inr (Some (ValidateHandoff v (Some gen) True ''ok''
      [\<lparr>v_item_id = ''A-1'', v_passed = True\<rparr>] True False))),
    rd_attempt_path = (\<lambda>gen v. gen), rd_report_path = (\<lambda>gen v. gen)\<rparr>"

definition demo_checked :: task_state where
  "demo_checked = demo_state @ [(''v1'', \<lparr>e_status = Cleared, e_last_attempt = Some ''a2''\<rparr>)]"

theorem gate_clears_iff_unanimous_witness:
  "gr_cleared (evaluate_gate demo_reader demo_plan demo_checked demo_gate)
    \<and> (\<exists>v. covers demo_plan demo_checked demo_gate ''A-1'' v)"
proof -
  have tgts: "t_targets demo_gate = [''A-1'']" by (simp add: demo_gate_def)
  have "(t_id demo_check, t_id demo_gate) \<in> dep_edges demo_plan"
    unfolding dep_edges_def mem_Collect_eq
    by (rule exI[of _ "''v1''"], rule exI[of _ demo_gate]) (simp add: demo_defs)
  then have cov: "covers demo_plan demo_checked demo_gate ''A-1'' v \<longleftrightarrow> v = ''v1''" for v
    unfolding covers_def
    by (auto simp: demo_defs demo_checked_def demo_state_def status_of_def)
  have conf: "confirms demo_reader demo_checked ''v1'' ''A-1''"
    by (simp add: confirms_def demo_reader_def demo_checked_def demo_state_def last_attempt_of_def)
  have free: "\<forall>tgt \<in> set (t_targets demo_gate). \<forall>v c. covers demo_plan demo_checked demo_gate tgt v
      \<and> covers demo_plan demo_checked demo_gate tgt c \<longrightarrow> (v, c) \<notin> (dep_edges demo_plan)\<^sup>+"
    using demo_acyclic unfolding tgts by (simp add: cov acyclic_def)
  show ?thesis
    using gate_clears_iff_unanimous[OF demo_distinct demo_acyclic demo_members(3) free, of demo_reader] conf
    unfolding tgts by (simp add: cov)
qed

theorem current_validators_are_maximal_witness:
  "''v1'' \<in> set (current_validators demo_plan demo_checked demo_gate ''A-1'') \<longleftrightarrow>
    covers demo_plan demo_checked demo_gate ''A-1'' ''v1''
    \<and> (\<forall>c. covers demo_plan demo_checked demo_gate ''A-1'' c \<longrightarrow> (''v1'', c) \<notin> (dep_edges demo_plan)\<^sup>+)"
  using current_validators_are_maximal[OF demo_distinct demo_acyclic, of demo_gate "''v1''" demo_checked "''A-1''"] by simp

theorem failed_validation_is_surfaced_witness:
  "validate_failure_needs_attention demo_plan demo_state demo_check (ValidateHandoff ''v1'' (Some ''a'') True [] [] False False)
    \<longleftrightarrow> (\<exists>tgt \<in> set (targets_needing_attention demo_check (ValidateHandoff ''v1'' (Some ''a'') True [] [] False False)).
      \<not> (\<exists>g \<in> set demo_plan. t_type g = Gate \<and> tgt \<in> set (t_targets g) \<and> status_of demo_state (t_id g) = Pending
          \<and> (t_id demo_check, t_id g) \<in> (dep_edges demo_plan)\<^sup>+))"
  by (rule conjunct1[OF failed_validation_is_surfaced[OF demo_distinct]])

theorem gate_report_bounded_witness:
  "\<exists>it. bounded_gate_attention (''1'', ''2'', ''3'') ''m'' demo_gate (evaluate_gate demo_reader demo_plan demo_checked demo_gate) True
      = Inr it \<and> utf8_length (a_report it) < 4096"
proof -
  have "task_id_ok (t_id demo_gate)" by code_simp
  from gate_report_bounded[OF this, of "(''1'', ''2'', ''3'')" "''m''" "evaluate_gate demo_reader demo_plan demo_checked demo_gate" True]
  show ?thesis by (elim exE conjE, intro exI conjI)
qed

section \<open>Only the latest validators count\<close>

text \<open>Two validators of one assertion in sequence: the first denies it, the second, which depends on the
  first, confirms it, and the gate waits for both.\<close>

definition sequel_plan :: task_list where
  "sequel_plan = [demo_work, demo_check, demo_check\<lparr>t_id := ''v2'', t_depends_on := [''v1'']\<rparr>,
     demo_gate\<lparr>t_depends_on := [''v1'', ''v2'']\<rparr>]"

definition sequel_state :: task_state where
  "sequel_state = demo_checked @ [(''v2'', \<lparr>e_status = Cleared, e_last_attempt = Some ''a3''\<rparr>)]"

definition sequel_reader :: attempt_reader where
  "sequel_reader = demo_reader\<lparr>rd_attempt := (\<lambda>gen v. Inr (Some (ValidateHandoff v (Some gen) True ''r''
      [\<lparr>v_item_id = ''A-1'', v_passed = (v = ''v2'')\<rparr>] (v = ''v2'') False)))\<rparr>"

text \<open>A dissenting validator that another covering validator depends on does not block the gate: only
  the verdicts of the current validators are read, although the gate depends on both.\<close>

theorem earlier_dissent_does_not_block:
  "gr_cleared (evaluate_gate sequel_reader sequel_plan sequel_state (demo_gate\<lparr>t_depends_on := [''v1'', ''v2'']\<rparr>))
   \<and> current_validators sequel_plan sequel_state (demo_gate\<lparr>t_depends_on := [''v1'', ''v2'']\<rparr>) ''A-1'' = [''v2'']
   \<and> dict_get (ev_verdicts (validator_evidence sequel_reader sequel_state ''v1'' [''A-1''])) True ''A-1'' = False"
proof -
  let ?g = "demo_gate\<lparr>t_depends_on := [''v1'', ''v2'']\<rparr>"
  have cur: "current_validators sequel_plan sequel_state ?g ''A-1'' = [''v2'']" by code_simp
  have "distinct (task_ids sequel_plan)" by (simp add: sequel_plan_def demo_tasks)
  moreover have "confirms sequel_reader sequel_state ''v2'' ''A-1''"
    by (simp add: confirms_def sequel_reader_def sequel_state_def demo_checked_def demo_state_def last_attempt_of_def)
  moreover have "t_targets ?g = [''A-1'']" by (simp add: demo_gate_def)
  ultimately have "gr_cleared (evaluate_gate sequel_reader sequel_plan sequel_state ?g)"
    by (simp only: evaluate_gate_cleared list.set ball_simps cur) simp
  moreover have "dict_get (ev_verdicts (validator_evidence sequel_reader sequel_state ''v1'' [''A-1''])) True ''A-1'' = False"
    by code_simp
  ultimately show ?thesis using cur by blast
qed

end
