(* ===== verification/Scheduler.thy ===== *)
theory Scheduler
  imports Task_Validation_Proofs
begin

text \<open>
  What \<^verbatim>\<open>coordinator.py\<close> dispatches next: the runnable tasks, the validator lane of a pending gate,
  the batch that fits the configured capacity, and the write scopes that let work tasks run side
  by side.  Whether the dispatcher supports isolated workspaces and whether the workspace is the
  root of a git repository (a subprocess call) are the two fields of \<open>isolation_env\<close>.
\<close>

section \<open>Runnable tasks\<close>

definition all_runnable_tasks :: "task_list \<Rightarrow> task_state \<Rightarrow> task list" where
  "all_runnable_tasks tks ts = filter (\<lambda>t. t_type t \<noteq> Gate \<and> status_of ts (t_id t) = Pending
     \<and> list_all (\<lambda>dep. status_of ts dep = Cleared) (t_depends_on t)) tks"

definition next_runnable_task :: "task_list \<Rightarrow> task_state \<Rightarrow> task option" where
  "next_runnable_task tks ts = (case all_runnable_tasks tks ts of [] \<Rightarrow> None | t # _ \<Rightarrow> Some t)"

section \<open>The validator lane\<close>

definition is_validate_id :: "task_list \<Rightarrow> string \<Rightarrow> bool" where
  "is_validate_id tks dep = (case map_of (by_id tks) dep of None \<Rightarrow> False | Some t \<Rightarrow> t_type t = Validate)"

definition lane_ready :: "task_list \<Rightarrow> task_state \<Rightarrow> string list \<Rightarrow> task \<Rightarrow> bool" where
  "lane_ready tks ts runnable_validators gate \<longleftrightarrow> list_all (\<lambda>dep.
     if is_validate_id tks dep then status_of ts dep = Cleared \<or> dep \<in> set runnable_validators
     else status_of ts dep = Cleared) (t_depends_on gate)"

fun lane_of_gates :: "task_list \<Rightarrow> task_state \<Rightarrow> task list \<Rightarrow> task list \<Rightarrow> task list" where
  "lane_of_gates tks ts runnable [] = []"
| "lane_of_gates tks ts runnable (gate # rest) =
     (let runnable_validators = map t_id (filter (\<lambda>t. t_type t = Validate) runnable);
          validator_deps = filter (is_validate_id tks) (t_depends_on gate)
      in if status_of ts (t_id gate) \<noteq> Pending \<or> validator_deps = [] \<or> \<not> lane_ready tks ts runnable_validators gate
         then lane_of_gates tks ts runnable rest
         else filter (\<lambda>t. t_id t \<in> set runnable_validators \<and> t_id t \<in> set validator_deps) runnable)"

definition validator_batch_for_pending_gate :: "task_list \<Rightarrow> task_state \<Rightarrow> task list \<Rightarrow> task list" where
  "validator_batch_for_pending_gate tks ts runnable =
    lane_of_gates tks ts runnable (filter (\<lambda>t. t_type t = Gate) tks)"

section \<open>Write scopes\<close>

text \<open>
  The search for \<open>(?im)^writes:\s*(?P<paths>[^\n]+)$\<close>.  At a line start that matches
  \<open>writes:\<close>, the greedy \<open>\s*\<close> runs over the white space, line ends included; when nothing else
  follows it gives back down to the last character that is not a line end.
\<close>

definition to_lower :: "char \<Rightarrow> char" where
  "to_lower c = (if is_upper c then char_of (ord c + 32) else c)"

definition line_end :: char where
  "line_end = char_of (10 :: nat)"

definition match_writes :: "string \<Rightarrow> string option" where
  "match_writes s =
    (if map to_lower (take 7 s) = ''writes:''
     then let rest = drop 7 s; body = dropWhile py_space rest
          in if body \<noteq> [] then Some (takeWhile (\<lambda>c. c \<noteq> line_end) body)
             else (case filter (\<lambda>c. c \<noteq> line_end) rest of [] \<Rightarrow> None | cs \<Rightarrow> Some [List.last cs])
     else None)"

fun search_writes :: "bool \<Rightarrow> string \<Rightarrow> string option" where
  "search_writes at_line_start [] = None"
| "search_writes at_line_start (c # s) =
     (case (if at_line_start then match_writes (c # s) else None) of
        Some paths \<Rightarrow> Some paths
      | None \<Rightarrow> search_writes (c = line_end) s)"

text \<open>\<open>s.split(c)\<close>.\<close>

fun split_on :: "char \<Rightarrow> string \<Rightarrow> string list" where
  "split_on c [] = [[]]"
| "split_on c (x # xs) =
     (if x = c then [] # split_on c xs
      else (case split_on c xs of [] \<Rightarrow> [[x]] | w # ws \<Rightarrow> (x # w) # ws))"

definition task_write_paths :: "task \<Rightarrow> string list" where
  "task_write_paths t = (case search_writes True (t_body t) of
     None \<Rightarrow> []
   | Some paths \<Rightarrow> sorted_set (map py_strip (filter (\<lambda>item. py_strip item \<noteq> []) (split_on (CHR '','') paths))))"

definition paths_overlap :: "string \<Rightarrow> string \<Rightarrow> bool" where
  "paths_overlap left right \<longleftrightarrow> left = right \<or> prefix (right @ ''/'') left \<or> prefix (left @ ''/'') right"

text \<open>\<open>any(overlap(left, right) for index, left in enumerate(xs) for right in xs[index+1:])\<close>.\<close>

fun any_overlap :: "string list \<Rightarrow> bool" where
  "any_overlap [] = False"
| "any_overlap (x # xs) = (list_ex (paths_overlap x) xs \<or> any_overlap xs)"

record isolation_env =
  iso_supported :: bool
  iso_git_root :: bool

definition isolated_work_supported :: "isolation_env \<Rightarrow> task list \<Rightarrow> bool" where
  "isolated_work_supported env batch =
    (if \<not> iso_supported env then False
     else if list_ex (\<lambda>t. \<not> t_auto_merge t) batch then False
     else let scopes = map task_write_paths batch
     in if list_ex (\<lambda>scope. scope = []) scopes then False
     else if any_overlap (concat scopes) then False
     else iso_git_root env)"

section \<open>Selecting the next batch\<close>

definition select_dispatch_tasks :: "int \<Rightarrow> isolation_env \<Rightarrow> task_list \<Rightarrow> task_state \<Rightarrow> task list \<Rightarrow> task list" where
  "select_dispatch_tasks max_parallel_nodes env tks ts runnable =
    (let capacity = nat (max 1 max_parallel_nodes);
         validator_batch = validator_batch_for_pending_gate tks ts runnable
     in if validator_batch \<noteq> [] then take capacity validator_batch
        else let candidate_batch = take capacity runnable;
                 work_batch = filter (\<lambda>t. t_type t = Work) candidate_batch
             in if work_batch \<noteq> []
                then (if 2 \<le> length work_batch \<and> isolated_work_supported env work_batch then work_batch
                      else take 1 candidate_batch)
                else candidate_batch)"

text \<open>\<open>_guard_dispatch\<close>, after the provider denials have been reconciled into the cursor.\<close>

definition guard_dispatch :: "string list \<Rightarrow> task_list \<Rightarrow> task_state \<Rightarrow> task list \<Rightarrow> task list" where
  "guard_dispatch blocked tks ts tasks =
    filter (\<lambda>t. t_id t \<notin> set blocked \<and> t_id t \<in> t_id ` set (all_runnable_tasks tks ts)) tasks"

text \<open>\<open>_reconcile_provider_denials\<close>: guarded tasks that are still pending become failed.\<close>

definition reconcile_provider_denials :: "string list \<Rightarrow> task_state \<Rightarrow> task_state" where
  "reconcile_provider_denials guards ts =
    fold (\<lambda>node ts. if status_of ts node = Pending then set_status node Failed ts else ts) guards ts"

section \<open>Failures that strand pending tasks\<close>

text \<open>
  The walk of \<open>_recover_stranded_failure\<close> from the dependencies of a pending task through
  pending and failed tasks.  A visited id with one of these statuses that is no task raises a
  \<open>KeyError\<close>, which is the result \<^const>\<open>None\<close>.
\<close>

definition stranding_graph :: "task_list \<Rightarrow> task_state \<Rightarrow> string graph" where
  "stranding_graph tks ts =
    map (\<lambda>(i, t). (i, if status_of ts i \<in> {Pending, Failed} then t_depends_on t else [])) (by_id tks)"

definition stranded_walk :: "task_list \<Rightarrow> task_state \<Rightarrow> task \<Rightarrow> string list option" where
  "stranded_walk tks ts t =
    (let g = stranding_graph tks ts; visited = dfs_collect g [] (rev (t_depends_on t))
     in if list_ex (\<lambda>d. d \<notin> t_id ` set tks \<and> status_of ts d \<in> {Pending, Failed})
          (t_depends_on t @ concat (map (succs g) visited)) then None
        else Some (filter (\<lambda>i. status_of ts i = Failed) visited))"

definition stranding_failures :: "task_list \<Rightarrow> task_state \<Rightarrow> string list option" where
  "stranding_failures tks ts =
    (let walks = map (stranded_walk tks ts) (filter (\<lambda>t. status_of ts (t_id t) = Pending) tks)
     in if None \<in> set walks then None else Some (concat (map the walks)))"

text \<open>The first retained failure in authored order that is surfaced; gates are passed over.\<close>

definition first_stranding_failure :: "task_list \<Rightarrow> task_state \<Rightarrow> task option option" where
  "first_stranding_failure tks ts = (case stranding_failures tks ts of None \<Rightarrow> None
   | Some blockers \<Rightarrow> Some (find (\<lambda>t. t_id t \<in> set blockers \<and> t_type t \<noteq> Gate) tks))"

end
