(* ===== verification/Scheduler_Proofs.thy ===== *)
theory Scheduler_Proofs
  imports Scheduler Envelope_Proofs Task_List_Patch_Proofs
begin

text \<open>
  What a dispatch selection guarantees: it never leaves the runnable tasks or the capacity, never
  mixes mutable work with validation, runs work side by side only in disjoint scopes, completes a
  pending gate when it runs a validator lane, and never stalls on a well-formed plan unless a
  failed task stands in the way.
\<close>

section \<open>Write scopes\<close>

lemma any_overlap_iff:
  "\<not> any_overlap xs \<longleftrightarrow> distinct xs \<and> (\<forall>x \<in> set xs. \<forall>y \<in> set xs. x \<noteq> y \<longrightarrow> \<not> paths_overlap x y)"
proof (induction xs)
  case Nil
  then show ?case by simp
next
  case (Cons x xs)
  have sym: "paths_overlap a b \<longleftrightarrow> paths_overlap b a" for a b by (auto simp: paths_overlap_def)
  have refl: "paths_overlap a a" for a by (simp add: paths_overlap_def)
  have "\<not> any_overlap (x # xs) \<longleftrightarrow> (\<forall>y \<in> set xs. \<not> paths_overlap x y) \<and> \<not> any_overlap xs"
    by (auto simp: list_ex_iff)
  also have "\<dots> \<longleftrightarrow> distinct (x # xs) \<and> (\<forall>a \<in> set (x # xs). \<forall>b \<in> set (x # xs). a \<noteq> b \<longrightarrow> \<not> paths_overlap a b)"
    unfolding Cons.IH using sym refl by auto
  finally show ?case .
qed

text \<open>Two tasks of a list that name a common or nested path share a scope.\<close>

definition scopes_disjoint :: "task list \<Rightarrow> bool" where
  "scopes_disjoint batch \<longleftrightarrow> (\<forall>i < length batch. \<forall>j < length batch. i \<noteq> j \<longrightarrow>
     (\<forall>p \<in> set (task_write_paths (batch ! i)). \<forall>q \<in> set (task_write_paths (batch ! j)). \<not> paths_overlap p q))"

lemma any_overlap_append: "\<not> any_overlap (xs @ ys) \<Longrightarrow> \<not> any_overlap xs \<and> \<not> any_overlap ys
    \<and> (\<forall>x \<in> set xs. \<forall>y \<in> set ys. \<not> paths_overlap x y)"
  by (induction xs) (auto simp: list_ex_iff)

lemma any_overlap_concat:
  assumes "\<not> any_overlap (concat xss)" "i < j" "j < length xss" "p \<in> set (xss ! i)" "q \<in> set (xss ! j)"
  shows "\<not> paths_overlap p q"
  using assms
proof (induction xss arbitrary: i j)
  case Nil
  then show ?case by simp
next
  case (Cons xs xss)
  note split = any_overlap_append[of xs "concat xss"]
  obtain k where j: "j = Suc k" using Cons.prems(2) by (cases j) auto
  show ?case
  proof (cases i)
    case 0
    have q: "q \<in> set (concat xss)" using Cons.prems(3,5) j by (auto intro: nth_mem)
    have "\<forall>x \<in> set xs. \<forall>y \<in> set (concat xss). \<not> paths_overlap x y"
      using split Cons.prems(1) by (metis concat.simps(2))
    then show ?thesis using q Cons.prems(4) 0 by (metis nth_Cons_0)
  next
    case (Suc m)
    then show ?thesis using Cons.IH[of m k] split Cons.prems j by simp
  qed
qed

lemma isolated_disjoint: "isolated_work_supported env batch \<Longrightarrow> scopes_disjoint batch"
  unfolding scopes_disjoint_def
proof (intro allI impI ballI)
  fix i j p q
  assume iso: "isolated_work_supported env batch" and ij: "i < length batch" "j < length batch" "i \<noteq> j"
    and p: "p \<in> set (task_write_paths (batch ! i))" and q: "q \<in> set (task_write_paths (batch ! j))"
  have no: "\<not> any_overlap (concat (map task_write_paths batch))"
    using iso by (simp add: isolated_work_supported_def Let_def split: if_splits)
  have sym: "paths_overlap a b \<longleftrightarrow> paths_overlap b a" for a b by (auto simp: paths_overlap_def)
  show "\<not> paths_overlap p q"
  proof (cases "i < j")
    case True
    then show ?thesis using any_overlap_concat[OF no True, of p q] ij p q by simp
  next
    case False
    then have "j < i" using ij by simp
    then show ?thesis using any_overlap_concat[OF no \<open>j < i\<close>, of q p] ij p q sym by simp
  qed
qed

lemma isolatedD:
  assumes "isolated_work_supported env batch" "t \<in> set batch"
  shows "t_auto_merge t" "task_write_paths t \<noteq> []"
proof -
  have "\<not> list_ex (\<lambda>t. \<not> t_auto_merge t) batch" "\<not> list_ex (\<lambda>scope. scope = []) (map task_write_paths batch)"
    using assms(1) unfolding isolated_work_supported_def Let_def by (auto split: if_splits)
  then show "t_auto_merge t" "task_write_paths t \<noteq> []"
    using assms(2) by (force simp: list_ex_iff)+
qed

section \<open>Lanes\<close>

lemma lane_of_gates_spec:
  assumes "lane_of_gates tks ts runnable gates \<noteq> []"
  shows "\<exists>g \<in> set gates. status_of ts (t_id g) = Pending
    \<and> lane_of_gates tks ts runnable gates
      = filter (\<lambda>t. t_id t \<in> t_id ` {t \<in> set runnable. t_type t = Validate} \<and> t_id t \<in> set (t_depends_on g)
          \<and> is_validate_id tks (t_id t)) runnable
    \<and> lane_ready tks ts (map t_id (filter (\<lambda>t. t_type t = Validate) runnable)) g"
  using assms
proof (induction gates)
  case Nil
  then show ?case by simp
next
  case (Cons g gates)
  show ?case
  proof (cases "status_of ts (t_id g) \<noteq> Pending \<or> filter (is_validate_id tks) (t_depends_on g) = []
      \<or> \<not> lane_ready tks ts (map t_id (filter (\<lambda>t. t_type t = Validate) runnable)) g")
    case True
    then have "lane_of_gates tks ts runnable (g # gates) = lane_of_gates tks ts runnable gates"
      by (simp add: Let_def)
    with Cons show ?thesis by auto
  next
    case False
    then have "lane_of_gates tks ts runnable (g # gates)
        = filter (\<lambda>t. t_id t \<in> set (map t_id (filter (\<lambda>t. t_type t = Validate) runnable))
            \<and> t_id t \<in> set (filter (is_validate_id tks) (t_depends_on g))) runnable"
      by (simp only: lane_of_gates.simps Let_def if_False)
    with False show ?thesis by (intro bexI[of _ g]) simp_all
  qed
qed

lemma by_id_the:
  assumes "distinct (task_ids tks)" "t \<in> set tks" "t_id t = i"
  shows "map_of (by_id tks) i = Some t"
  using by_id_lookup[OF assms(1,2)] assms(3) by simp

lemma runnable_in: "t \<in> set (all_runnable_tasks tks ts) \<Longrightarrow> t \<in> set tks \<and> t_type t \<noteq> Gate \<and> status_of ts (t_id t) = Pending
    \<and> (\<forall>d \<in> set (t_depends_on t). status_of ts d = Cleared)"
  by (auto simp: all_runnable_tasks_def list_all_iff)

lemma lane_validators:
  assumes "distinct (task_ids tks)" "set runnable \<subseteq> set tks" "t \<in> set (validator_batch_for_pending_gate tks ts runnable)"
  shows "t \<in> set runnable \<and> t_type t = Validate"
proof -
  have "validator_batch_for_pending_gate tks ts runnable \<noteq> []" using assms(3) by auto
  from lane_of_gates_spec[OF this[unfolded validator_batch_for_pending_gate_def]] assms(3)
  obtain u where u: "t \<in> set runnable" "u \<in> set runnable" "t_type u = Validate" "t_id t = t_id u"
    by (auto simp: validator_batch_for_pending_gate_def)
  then have "t = u" using distinct_map_inj[OF assms(1)] assms(2) by blast
  with u show ?thesis by simp
qed

section \<open>Stalls\<close>

lemma stranding_graph_keys: "fst ` set (stranding_graph tks ts) = t_id ` set tks"
proof -
  have "fst ` set (stranding_graph tks ts) = fst ` set (by_id tks)"
    by (simp add: stranding_graph_def image_image case_prod_unfold)
  then show ?thesis by (simp add: dict_simps)
qed

lemma stranding_succs_closed:
  assumes "deps_closed tks"
  shows "set (succs (stranding_graph tks ts) i) \<subseteq> t_id ` set tks"
proof -
  have "map_of (stranding_graph tks ts) i = Some ds \<Longrightarrow> set ds \<subseteq> t_id ` set tks" for ds
  proof -
    assume "map_of (stranding_graph tks ts) i = Some ds"
    then obtain t where t: "(i, t) \<in> set (by_id tks)" "set ds \<subseteq> set (t_depends_on t)"
      by (auto simp: stranding_graph_def dest!: map_of_SomeD split: if_splits)
    have "t \<in> set tks"
      using t(1) map_of_is_SomeI[of "by_id tks" i t] by_id_Some by (metis by_id_def distinct_dict_of)
    with t(2) assms show ?thesis unfolding deps_closed_def by blast
  qed
  then show ?thesis
    by (cases "map_of (stranding_graph tks ts) i") (simp_all add: succs_def dict_get_def)
qed

lemma stranded_walk_Some:
  assumes "deps_closed tks" "t \<in> set tks"
  shows "stranded_walk tks ts t
    = Some (filter (\<lambda>i. status_of ts i = Failed) (dfs_collect (stranding_graph tks ts) [] (rev (t_depends_on t))))"
proof -
  have "\<not> list_ex (\<lambda>d. d \<notin> t_id ` set tks \<and> status_of ts d \<in> {Pending, Failed})
      (t_depends_on t @ concat (map (succs (stranding_graph tks ts)) vs))" for vs
  proof -
    have "set (t_depends_on t @ concat (map (succs (stranding_graph tks ts)) vs)) \<subseteq> t_id ` set tks"
      using assms stranding_succs_closed[OF assms(1), of ts] unfolding deps_closed_def
      by (simp add: subset_iff) blast
    then show ?thesis unfolding list_ex_iff by blast
  qed
  then show ?thesis by (simp only: stranded_walk_def Let_def if_False)
qed

lemma stranding_failures_Some:
  assumes "deps_closed tks"
  shows "stranding_failures tks ts = Some (concat (map (\<lambda>t. filter (\<lambda>i. status_of ts i = Failed)
      (dfs_collect (stranding_graph tks ts) [] (rev (t_depends_on t))))
    (filter (\<lambda>t. status_of ts (t_id t) = Pending) tks)))"
proof -
  let ?ps = "filter (\<lambda>t. status_of ts (t_id t) = Pending) tks"
  let ?w = "\<lambda>t. filter (\<lambda>i. status_of ts i = Failed)
      (dfs_collect (stranding_graph tks ts) [] (rev (t_depends_on t)))"
  have walks: "map (stranded_walk tks ts) ?ps = map Some (map ?w ?ps)"
    by (simp add: stranded_walk_Some[OF assms])
  have "map the (map Some xs) = xs" "None \<notin> set (map Some xs)" for xs :: "string list list"
    by (auto simp: map_idI)
  then show ?thesis unfolding stranding_failures_def Let_def walks by (simp only: if_False)
qed

section \<open>Selections\<close>

lemma selection_facts:
  fixes tks :: task_list and ts :: task_state and env :: isolation_env and n :: int
  assumes "distinct (task_ids tks)"
  defines "runnable \<equiv> all_runnable_tasks tks ts"
  defines "sel \<equiv> select_dispatch_tasks n env tks ts runnable"
  shows "set sel \<subseteq> set runnable \<and> (runnable \<noteq> [] \<longrightarrow> sel \<noteq> []) \<and> length sel \<le> nat (max 1 n)
    \<and> ((\<forall>t \<in> set sel. t_type t = Validate) \<or> (\<forall>t \<in> set sel. t_type t = Work))
    \<and> (2 \<le> length sel \<and> (\<exists>t \<in> set sel. t_type t = Work)
        \<longrightarrow> scopes_disjoint sel \<and> (\<forall>t \<in> set sel. t_auto_merge t \<and> task_write_paths t \<noteq> []))"
proof -
  let ?lane = "validator_batch_for_pending_gate tks ts runnable"
  let ?c = "nat (max 1 n)"
  let ?cand = "take ?c runnable"
  let ?work = "filter (\<lambda>t. t_type t = Work) ?cand"
  have run_sub: "set runnable \<subseteq> set tks" by (auto simp: runnable_def all_runnable_tasks_def)
  have c: "1 \<le> ?c" by simp
  have types: "t_type t = Work \<or> t_type t = Validate" if "t \<in> set ?cand" for t
    using in_set_takeD[OF that] runnable_in[of t tks ts] by (cases "t_type t") (auto simp: runnable_def)
  consider (lane) "?lane \<noteq> []" "sel = take ?c ?lane"
    | (isolated) "2 \<le> length ?work" "isolated_work_supported env ?work" "sel = ?work"
    | (serial) "?lane = []" "?work \<noteq> []" "sel = take 1 ?cand"
    | (valid) "?lane = []" "?work = []" "sel = ?cand"
    unfolding sel_def select_dispatch_tasks_def Let_def by metis
  then show ?thesis
  proof cases
    case lane
    have v: "t \<in> set runnable \<and> t_type t = Validate" if "t \<in> set sel" for t
      using lane_validators[OF assms(1) run_sub] in_set_takeD[of t ?c ?lane] that lane(2) by blast
    have "\<not> (\<exists>t \<in> set sel. t_type t = Work)" using v by fastforce
    moreover have "sel \<noteq> []" using lane c by (cases ?lane) auto
    moreover have "length sel \<le> ?c" using lane(2) by simp
    ultimately show ?thesis using v by blast
  next
    case isolated
    have "t \<in> set sel \<Longrightarrow> t \<in> set runnable \<and> t_type t = Work" for t
      using isolated(3) by (auto dest: in_set_takeD)
    moreover have "sel \<noteq> []" using isolated(1,3) by auto
    moreover have "length sel \<le> ?c"
      using isolated(3) length_filter_le[of "\<lambda>t. t_type t = Work" ?cand] by simp
    moreover have "scopes_disjoint sel" using isolated(2,3) isolated_disjoint by blast
    moreover have "t \<in> set sel \<Longrightarrow> t_auto_merge t \<and> task_write_paths t \<noteq> []" for t
      using isolatedD[OF isolated(2)] isolated(3) by blast
    ultimately show ?thesis by blast
  next
    case serial
    then obtain t ts' where cand: "?cand = t # ts'" by (cases ?cand) auto
    then have sel: "sel = [t]" using serial(3) by simp
    have "t \<in> set ?cand" by (simp add: cand)
    then have t: "t \<in> set runnable" "t_type t = Work \<or> t_type t = Validate"
      using types in_set_takeD by fast+
    then show ?thesis unfolding sel using c by auto
  next
    case valid
    have w: "t_type t = Validate" if "t \<in> set sel" for t
      using types[of t] that valid(2,3) by (auto simp: filter_empty_conv)
    have "runnable \<noteq> [] \<longrightarrow> sel \<noteq> []" using valid(3) c by (cases runnable) auto
    moreover have "set sel \<subseteq> set runnable" using valid(3) set_take_subset by metis
    moreover have "length sel \<le> ?c" using valid(3) by simp
    moreover have "\<not> (\<exists>t \<in> set sel. t_type t = Work)" using w by fastforce
    ultimately show ?thesis using w by blast
  qed
qed

section \<open>Properties\<close>


text \<open>A validator lane is complete: when the scheduler prefers the validators of a gate, that gate is
  pending and every one of its dependencies is cleared already or is one of the runnable validators
  of the lane, so clearing the lane makes the gate ready.\<close>

theorem validator_lane_completes_gate:
  assumes "distinct (task_ids tks)"
    and "validator_batch_for_pending_gate tks ts (all_runnable_tasks tks ts) \<noteq> []"
  shows "\<exists>g \<in> set tks. t_type g = Gate \<and> status_of ts (t_id g) = Pending
    \<and> (\<forall>d \<in> set (t_depends_on g). status_of ts d = Cleared
        \<or> d \<in> t_id ` set (validator_batch_for_pending_gate tks ts (all_runnable_tasks tks ts)))"
proof -
  let ?run = "all_runnable_tasks tks ts"
  let ?lane = "validator_batch_for_pending_gate tks ts ?run"
  obtain g where g: "g \<in> set (filter (\<lambda>t. t_type t = Gate) tks)" "status_of ts (t_id g) = Pending"
    and lane: "?lane = filter (\<lambda>t. t_id t \<in> t_id ` {t \<in> set ?run. t_type t = Validate}
        \<and> t_id t \<in> set (t_depends_on g) \<and> is_validate_id tks (t_id t)) ?run"
    and ready: "lane_ready tks ts (map t_id (filter (\<lambda>t. t_type t = Validate) ?run)) g"
    using lane_of_gates_spec[OF assms(2)[unfolded validator_batch_for_pending_gate_def]]
    unfolding validator_batch_for_pending_gate_def by blast
  have "status_of ts d = Cleared \<or> d \<in> t_id ` set ?lane" if d: "d \<in> set (t_depends_on g)" for d
  proof (cases "status_of ts d = Cleared")
    case False
    then have v: "is_validate_id tks d" and m: "d \<in> set (map t_id (filter (\<lambda>t. t_type t = Validate) ?run))"
      using ready d by (auto simp: lane_ready_def list_all_iff split: if_splits)
    then obtain t where "t \<in> set ?run" "t_type t = Validate" "t_id t = d" by auto
    then have "t \<in> set ?lane" unfolding lane using d v by auto
    with \<open>t_id t = d\<close> show ?thesis by blast
  qed simp
  with g show ?thesis by auto
qed

text \<open>C20. What a pending task may wait for when nothing runs: on a plan with distinct ids, closed and
  acyclic dependencies where no task is running, a pending task means that some task is runnable, or
  some pending gate has all its dependencies cleared, or the walk of the stranded-failure recovery
  finds a failed task upstream of a pending one, or a pending task still names a superseded task in
  its dependencies, which the scheduler never counts as cleared. A plan without such a retired
  dependency therefore never stalls silently; the last case is the only one in which it can.\<close>

theorem scheduler_progress:
  assumes "distinct (task_ids tks)" "deps_closed tks" "acyclic (dep_edges tks)"
    and "\<forall>t \<in> set tks. status_of ts (t_id t) \<noteq> Running"
    and "t \<in> set tks" "status_of ts (t_id t) = Pending"
  shows "all_runnable_tasks tks ts \<noteq> []
    \<or> (\<exists>g \<in> set tks. t_type g = Gate \<and> status_of ts (t_id g) = Pending
          \<and> (\<forall>d \<in> set (t_depends_on g). status_of ts d = Cleared))
    \<or> (\<exists>blockers. stranding_failures tks ts = Some blockers \<and> blockers \<noteq> [])
    \<or> (\<exists>u \<in> set tks. status_of ts (t_id u) = Pending
          \<and> (\<exists>d \<in> set (t_depends_on u). status_of ts d = Superseded))"
proof -
  have fin: "finite (dep_edges tks)"
    by (rule finite_subset[of _ "t_id ` set tks \<times> t_id ` set tks"]) (auto simp: dep_edges_def)
  have "wf (dep_edges tks)" by (rule finite_acyclic_wf[OF fin assms(3)])
  then obtain i where i: "i \<in> {t_id t | t. t \<in> set tks \<and> status_of ts (t_id t) = Pending}"
    and min: "\<And>d. (d, i) \<in> dep_edges tks \<Longrightarrow> d \<notin> {t_id t | t. t \<in> set tks \<and> status_of ts (t_id t) = Pending}"
    using assms(5,6) wfE_min[of "dep_edges tks" "t_id t" "{t_id t | t. t \<in> set tks \<and> status_of ts (t_id t) = Pending}"]
    by blast
  obtain u where u: "u \<in> set tks" "t_id u = i" "status_of ts i = Pending" using i by auto
  show ?thesis
  proof (cases "\<forall>d \<in> set (t_depends_on u). status_of ts d = Cleared")
    case True
    then have "(t_type u = Gate) \<or> u \<in> set (all_runnable_tasks tks ts)"
      using u by (auto simp: all_runnable_tasks_def list_all_iff)
    with True u show ?thesis by fastforce
  next
    case False
    then obtain d where d: "d \<in> set (t_depends_on u)" "status_of ts d \<noteq> Cleared" by blast
    have mem: "d \<in> t_id ` set tks" using assms(2) u(1) d(1) unfolding deps_closed_def by blast
    then have "(d, i) \<in> dep_edges tks" using u d(1) unfolding dep_edges_def by blast
    from min[OF this] have "status_of ts d \<noteq> Pending" using mem by auto
    moreover have "status_of ts d \<noteq> Running" using mem assms(4) by auto
    ultimately have or: "status_of ts d = Failed \<or> status_of ts d = Superseded"
      using d(2) by (cases "status_of ts d") auto
    show ?thesis
    proof (cases "status_of ts d = Superseded")
      case True
      then show ?thesis using u d(1) by blast
    next
      case False
      then have f: "status_of ts d = Failed" using or by blast
      have "d \<in> set (dfs_collect (stranding_graph tks ts) [] (rev (t_depends_on u)))"
        using dfs_collect_stack[of "rev (t_depends_on u)" "stranding_graph tks ts" "[]"] d(1) mem
        by (auto simp: stranding_graph_keys)
      then have "\<exists>blockers. stranding_failures tks ts = Some blockers \<and> d \<in> set blockers"
        using u f by (auto simp: stranding_failures_Some[OF assms(2)])
      then show ?thesis by (metis empty_iff empty_set)
    qed
  qed
qed

section \<open>Instances\<close>


theorem validator_lane_completes_gate_witness:
  "\<exists>g \<in> set demo_plan. t_type g = Gate \<and> status_of demo_state (t_id g) = Pending
    \<and> (\<forall>d \<in> set (t_depends_on g). status_of demo_state d = Cleared
        \<or> d \<in> t_id ` set (validator_batch_for_pending_gate demo_plan demo_state (all_runnable_tasks demo_plan demo_state)))"
proof (rule validator_lane_completes_gate[OF demo_distinct])
  have "validator_batch_for_pending_gate demo_plan demo_state (all_runnable_tasks demo_plan demo_state) = [demo_check]"
    by code_simp
  then show "validator_batch_for_pending_gate demo_plan demo_state (all_runnable_tasks demo_plan demo_state) \<noteq> []" by simp
qed

theorem scheduler_progress_witness:
  "\<exists>blockers. stranding_failures demo_plan [(''w1'', \<lparr>e_status = Failed, e_last_attempt = Some ''a''\<rparr>)] = Some blockers
    \<and> blockers \<noteq> []"
proof -
  let ?ts = "[(''w1'', \<lparr>e_status = Failed, e_last_attempt = Some ''a''\<rparr>)]"
  have run: "\<forall>t \<in> set demo_plan. status_of ?ts (t_id t) \<noteq> Running" by (simp add: demo_defs status_of_def)
  have kept: "\<not> (\<exists>u \<in> set demo_plan. status_of ?ts (t_id u) = Pending
      \<and> (\<exists>d \<in> set (t_depends_on u). status_of ?ts d = Superseded))"
    by (simp add: demo_defs status_of_def)
  have pend: "status_of ?ts (t_id demo_check) = Pending" by (simp add: demo_defs status_of_def)
  have idle: "\<not> all_runnable_tasks demo_plan ?ts \<noteq> []" by code_simp
  have gates: "\<not> (\<exists>g \<in> set demo_plan. t_type g = Gate \<and> status_of ?ts (t_id g) = Pending
      \<and> (\<forall>d \<in> set (t_depends_on g). status_of ?ts d = Cleared))"
    by (simp add: demo_defs status_of_def)
  show ?thesis
    by (rule disjE[OF scheduler_progress[OF demo_distinct demo_closed demo_acyclic run demo_members(2) pend]],
        rule notE[OF idle], assumption, erule disjE, rule notE[OF gates], assumption, erule disjE,
        assumption, rule notE[OF kept], assumption)
qed

section \<open>Ready in the view, not runnable\<close>

text \<open>The frontier view and the scheduler disagree on superseded predecessors: after a patch that
  superseded a task by an already superseded one, the view lists the dependent as ready while the
  scheduler finds nothing runnable.\<close>

theorem ready_row_is_not_runnable:
  "let tks = [demo_other\<lparr>t_depends_on := []\<rparr>, demo_other\<lparr>t_id := ''w6'', t_targets := [], t_depends_on := [''w2'']\<rparr>];
       ts = set_status ''w2'' Superseded [];
       fr = collect_frontier (visible_tasks tks (Some ts)) (predecessors_index tks) (statuses_of tks (Some ts))
   in map t_id (fr_ready fr) = [''w6''] \<and> all_runnable_tasks tks ts = []"
  by code_simp

end
