(* ===== verification/Json.thy ===== *)
theory Json
  imports Prelude
begin

text \<open>
  The JSON texts the program writes and reads back: \<open>json.dumps(v, sort_keys=True,
  separators=(",", ":"))\<close> as \<open>canonical_json_bytes\<close> uses it, and \<open>json.loads\<close>.
  Objects are insertion-ordered dictionaries, numbers are integers (no record of the program
  that is compared byte for byte holds a float, and \<open>loads\<close> here refuses a text with one),
  and strings are those of the Prelude.  The parser carries a fuel; the length of the text is
  always enough, which is part of the round-trip theorem.
\<close>

datatype json = JNull | JBool bool | JInt int | JStr string | JList "json list"
  | JObj "(string \<times> json) list"

section \<open>Writing\<close>

definition json_hex_digit :: "nat \<Rightarrow> char" where
  "json_hex_digit n = (if n < 10 then char_of (48 + n) else char_of (87 + n))"

text \<open>\<open>json.encoder.ESCAPE_DCT\<close>: the short escapes.\<close>

definition short_escapes :: "(char \<times> char) list" where
  "short_escapes = [(CHR 0x22, CHR 0x22), (CHR 0x5C, CHR 0x5C), (CHR 0x0A, CHR ''n''),
     (CHR 0x0D, CHR ''r''), (CHR 0x09, CHR ''t''), (CHR 0x08, CHR ''b''), (CHR 0x0C, CHR ''f'')]"

definition esc_char :: "char \<Rightarrow> string" where
  "esc_char c = (case map_of short_escapes c of
     Some e \<Rightarrow> [CHR 0x5C, e]
   | None \<Rightarrow> if 32 \<le> ord c \<and> ord c \<le> 126 then [c]
             else [CHR 0x5C, CHR ''u'', CHR ''0'', CHR ''0'', json_hex_digit (ord c div 16), json_hex_digit (ord c mod 16)])"

definition quote :: "string \<Rightarrow> string" where
  "quote s = CHR 0x22 # concat (map esc_char s) @ [CHR 0x22]"

definition show_int :: "int \<Rightarrow> string" where
  "show_int i = (if i < 0 then CHR ''-'' # show_nat (nat (- i)) else show_nat (nat i))"

fun encode :: "json \<Rightarrow> string" where
  "encode JNull = ''null''"
| "encode (JBool b) = (if b then ''true'' else ''false'')"
| "encode (JInt i) = show_int i"
| "encode (JStr s) = quote s"
| "encode (JList xs) = ''['' @ join '','' (map encode xs) @ '']''"
| "encode (JObj kvs) = ''{'' @ join '','' (map (\<lambda>kv. quote (fst kv) @ '':'' @ encode (snd kv)) kvs) @ ''}''"

text \<open>\<open>sort_keys=True\<close>.\<close>

fun sort_keys :: "json \<Rightarrow> json" where
  "sort_keys (JList xs) = JList (map sort_keys xs)"
| "sort_keys (JObj kvs) = JObj (sort_key fst (map (\<lambda>kv. (fst kv, sort_keys (snd kv))) kvs))"
| "sort_keys v = v"

definition dumps :: "json \<Rightarrow> string" where
  "dumps v = encode (sort_keys v)"

definition canonical_json_bytes :: "json \<Rightarrow> string" where
  "canonical_json_bytes v = dumps v @ [CHR 0x0A]"

section \<open>Reading\<close>

definition json_ws :: "char \<Rightarrow> bool" where
  "json_ws c \<longleftrightarrow> c = CHR 0x20 \<or> c = CHR 0x09 \<or> c = CHR 0x0A \<or> c = CHR 0x0D"

definition skip_ws :: "string \<Rightarrow> string" where
  "skip_ws = dropWhile json_ws"

definition hex_val :: "char \<Rightarrow> nat option" where
  "hex_val c = (if is_digit c then Some (ord c - 48)
     else if 97 \<le> ord c \<and> ord c \<le> 102 then Some (ord c - 87)
     else if 65 \<le> ord c \<and> ord c \<le> 70 then Some (ord c - 55) else None)"

text \<open>\<open>json.decoder.BACKSLASH\<close>.\<close>

definition unescape :: "char \<Rightarrow> char option" where
  "unescape e = (if e = CHR ''/'' then Some e else map_of (map (\<lambda>(c, e). (e, c)) short_escapes) e)"

text \<open>\<open>scanstring\<close>, after the opening quote: the string and the text after the closing one.\<close>

fun scan_string :: "string \<Rightarrow> (string \<times> string) option" where
  "scan_string [] = None"
| "scan_string (c # s) =
     (if c = CHR 0x22 then Some ([], s)
      else if c = CHR 0x5C then
        (case s of
           [] \<Rightarrow> None
         | e # s' \<Rightarrow>
             if e = CHR ''u'' then
               (case s' of
                  a # b # h # l # s'' \<Rightarrow>
                    (case (hex_val a, hex_val b, hex_val h, hex_val l) of
                       (Some 0, Some 0, Some m, Some n) \<Rightarrow>
                         map_option (\<lambda>(t, r). (char_of (16 * m + n) # t, r)) (scan_string s'')
                     | _ \<Rightarrow> None)
                | _ \<Rightarrow> None)
             else (case unescape e of
                     None \<Rightarrow> None
                   | Some d \<Rightarrow> map_option (\<lambda>(t, r). (d # t, r)) (scan_string s')))
      else if ord c < 32 then None
      else map_option (\<lambda>(t, r). (c # t, r)) (scan_string s))"

text \<open>\<open>0|[1-9][0-9]*\<close> and its value.\<close>

definition scan_nat :: "string \<Rightarrow> (nat \<times> string) option" where
  "scan_nat s =
    (case s of
       [] \<Rightarrow> None
     | c # s' \<Rightarrow> if c = CHR ''0'' then Some (0, s')
        else if is_digit c then
          Some (foldl (\<lambda>v d. 10 * v + (ord d - 48)) 0 (takeWhile is_digit s), dropWhile is_digit s)
        else None)"

text \<open>A text whose number goes on with a fraction or an exponent is a float, which is refused.\<close>

definition scan_int :: "string \<Rightarrow> (int \<times> string) option" where
  "scan_int s =
    (case (case s of c # s' \<Rightarrow> if c = CHR ''-'' then map_option (map_prod (\<lambda>n. - int n) id) (scan_nat s')
                             else map_option (map_prod int id) (scan_nat s)
           | [] \<Rightarrow> None) of
       None \<Rightarrow> None
     | Some (i, r) \<Rightarrow> if r \<noteq> [] \<and> hd r \<in> {CHR ''.'', CHR ''e'', CHR ''E''} then None else Some (i, r))"

definition literal :: "string \<Rightarrow> json \<Rightarrow> string \<Rightarrow> (json \<times> string) option" where
  "literal w v s = (if take (length w) s = w then Some (v, drop (length w) s) else None)"

fun parse_value :: "nat \<Rightarrow> string \<Rightarrow> (json \<times> string) option"
  and parse_elems :: "nat \<Rightarrow> string \<Rightarrow> (json list \<times> string) option"
  and parse_members :: "nat \<Rightarrow> string \<Rightarrow> ((string \<times> json) list \<times> string) option"
where
  "parse_value 0 s = None"
| "parse_value (Suc n) s =
    (case skip_ws s of
       [] \<Rightarrow> None
     | c # s' \<Rightarrow>
        if c = CHR 0x22 then map_option (map_prod JStr id) (scan_string s')
        else if c = CHR ''['' then
          (if take 1 (skip_ws s') = '']'' then Some (JList [], drop 1 (skip_ws s'))
           else map_option (map_prod JList id) (parse_elems n s'))
        else if c = CHR ''{'' then
          (if take 1 (skip_ws s') = ''}'' then Some (JObj [], drop 1 (skip_ws s'))
           else map_option (map_prod (\<lambda>kvs. JObj (dict_of kvs)) id) (parse_members n s'))
        else if c = CHR ''n'' then literal ''null'' JNull (c # s')
        else if c = CHR ''t'' then literal ''true'' (JBool True) (c # s')
        else if c = CHR ''f'' then literal ''false'' (JBool False) (c # s')
        else map_option (map_prod JInt id) (scan_int (c # s')))"
| "parse_elems 0 s = None"
| "parse_elems (Suc n) s =
    (case parse_value n s of
       None \<Rightarrow> None
     | Some (v, r) \<Rightarrow>
        (case skip_ws r of
           [] \<Rightarrow> None
         | c # r' \<Rightarrow> if c = CHR '']'' then Some ([v], r')
                     else if c = CHR '','' then map_option (map_prod (Cons v) id) (parse_elems n r')
                     else None))"
| "parse_members 0 s = None"
| "parse_members (Suc n) s =
    (case skip_ws s of
       [] \<Rightarrow> None
     | c # s' \<Rightarrow> if c \<noteq> CHR 0x22 then None else
        (case scan_string s' of
           None \<Rightarrow> None
         | Some (k, r) \<Rightarrow>
            (case skip_ws r of
               [] \<Rightarrow> None
             | d # r' \<Rightarrow> if d \<noteq> CHR '':'' then None else
                (case parse_value n r' of
                   None \<Rightarrow> None
                 | Some (v, t) \<Rightarrow>
                    (case skip_ws t of
                       [] \<Rightarrow> None
                     | e # t' \<Rightarrow> if e = CHR ''}'' then Some ([(k, v)], t')
                                 else if e = CHR '','' then map_option (map_prod (Cons (k, v)) id) (parse_members n t')
                                 else None)))))"

text \<open>\<open>json.loads\<close>: one value, then only white space.\<close>

definition loads :: "string \<Rightarrow> json option" where
  "loads s = (case parse_value (length s) s of
     Some (v, r) \<Rightarrow> if skip_ws r = [] then Some v else None
   | None \<Rightarrow> None)"

end
