(* ===== verification/Effects.thy ===== *)
theory Effects
  imports Main
begin

text \<open>
  Python code that changes state and may raise: a function from the state to a result and the
  state afterwards, where the result is an exception (\<^const>\<open>Inl\<close>) or a value
  (\<^const>\<open>Inr\<close>).  An exception keeps the changes made before it, as it does in Python.
  The second half is the triple calculus the component proofs use: a precondition, a
  postcondition for the normal return and one for each exception.
\<close>

type_synonym ('s, 'e, 'a) eff = "'s \<Rightarrow> ('e + 'a) \<times> 's"

named_theorems eff_simps "evaluation of the effect combinators"
named_theorems eff_specs "triples of the effect combinators"
named_theorems keeps_intros "programs that keep an invariant, whether they return or raise"

definition ret :: "'a \<Rightarrow> ('s, 'e, 'a) eff" where
  "ret a s = (Inr a, s)"

definition throw :: "'e \<Rightarrow> ('s, 'e, 'a) eff" where
  "throw e s = (Inl e, s)"

definition reads :: "('s \<Rightarrow> 'a) \<Rightarrow> ('s, 'e, 'a) eff" where
  "reads f s = (Inr (f s), s)"

definition modifies :: "('s \<Rightarrow> 's) \<Rightarrow> ('s, 'e, unit) eff" where
  "modifies f s = (Inr (), f s)"

text \<open>A read that may raise.\<close>

definition tries :: "('s \<Rightarrow> 'e + 'a) \<Rightarrow> ('s, 'e, 'a) eff" where
  "tries f s = (f s, s)"

definition andthen :: "('s, 'e, 'a) eff \<Rightarrow> ('a \<Rightarrow> ('s, 'e, 'b) eff) \<Rightarrow> ('s, 'e, 'b) eff" where
  "andthen m f s = (case m s of (Inl e, t) \<Rightarrow> (Inl e, t) | (Inr a, t) \<Rightarrow> f a t)"

text \<open>\<open>if bad: raise e\<close>.\<close>

definition refuse_if :: "('s \<Rightarrow> bool) \<Rightarrow> 'e \<Rightarrow> ('s, 'e, unit) eff" where
  "refuse_if b e s = (if b s then (Inl e, s) else (Inr (), s))"

text \<open>\<open>try: m except: h\<close>.\<close>

definition handling :: "('s, 'e, 'a) eff \<Rightarrow> ('e \<Rightarrow> ('s, 'e, 'a) eff) \<Rightarrow> ('s, 'e, 'a) eff" where
  "handling m h s = (case m s of (Inl e, t) \<Rightarrow> h e t | (Inr a, t) \<Rightarrow> (Inr a, t))"

text \<open>A block of statements, and a \<open>for\<close> loop.\<close>

fun block :: "('s, 'e, unit) eff list \<Rightarrow> ('s, 'e, unit) eff" where
  "block [] = ret ()"
| "block (m # ms) = andthen m (\<lambda>_. block ms)"

definition for_each :: "'a list \<Rightarrow> ('a \<Rightarrow> ('s, 'e, unit) eff) \<Rightarrow> ('s, 'e, unit) eff" where
  "for_each xs f = block (map f xs)"

lemma ret_apply [eff_simps]: "ret a s = (Inr a, s)" by (simp add: ret_def)
lemma throw_apply [eff_simps]: "throw e s = (Inl e, s)" by (simp add: throw_def)
lemma reads_apply [eff_simps]: "reads f s = (Inr (f s), s)" by (simp add: reads_def)
lemma modifies_apply [eff_simps]: "modifies f s = (Inr (), f s)" by (simp add: modifies_def)
lemma tries_apply [eff_simps]: "tries f s = (f s, s)" by (simp add: tries_def)

lemma andthen_Inr [eff_simps]: "m s = (Inr a, t) \<Longrightarrow> andthen m f s = f a t"
  by (simp add: andthen_def)

lemma andthen_Inl [eff_simps]: "m s = (Inl e, t) \<Longrightarrow> andthen m f s = (Inl e, t)"
  by (simp add: andthen_def)

lemma refuse_if_apply [eff_simps]:
  "b s \<Longrightarrow> refuse_if b e s = (Inl e, s)" "\<not> b s \<Longrightarrow> refuse_if b e s = (Inr (), s)"
  by (simp_all add: refuse_if_def)

lemma handling_apply [eff_simps]:
  "m s = (Inl e, t) \<Longrightarrow> handling m h s = h e t" "m s = (Inr a, t) \<Longrightarrow> handling m h s = (Inr a, t)"
  by (simp_all add: handling_def)

lemma for_each_simps [simp]:
  "for_each [] f = ret ()" "for_each (x # xs) f = andthen (f x) (\<lambda>_. for_each xs f)"
  by (simp_all add: for_each_def)

section \<open>Triples\<close>

definition triple :: "('s \<Rightarrow> bool) \<Rightarrow> ('s, 'e, 'a) eff \<Rightarrow> ('a \<Rightarrow> 's \<Rightarrow> bool) \<Rightarrow> ('e \<Rightarrow> 's \<Rightarrow> bool) \<Rightarrow> bool" where
  "triple P m Q E \<longleftrightarrow> (\<forall>s. P s \<longrightarrow> (case m s of (Inl e, t) \<Rightarrow> E e t | (Inr a, t) \<Rightarrow> Q a t))"

lemma tripleI:
  "(\<And>s e t. P s \<Longrightarrow> m s = (Inl e, t) \<Longrightarrow> E e t) \<Longrightarrow> (\<And>s a t. P s \<Longrightarrow> m s = (Inr a, t) \<Longrightarrow> Q a t) \<Longrightarrow> triple P m Q E"
  unfolding triple_def by (auto split: prod.split sum.split)

lemma tripleD_Inl: "triple P m Q E \<Longrightarrow> P s \<Longrightarrow> m s = (Inl e, t) \<Longrightarrow> E e t"
  unfolding triple_def by fastforce

lemma tripleD_Inr: "triple P m Q E \<Longrightarrow> P s \<Longrightarrow> m s = (Inr a, t) \<Longrightarrow> Q a t"
  unfolding triple_def by fastforce

lemma triple_ret [eff_specs]: "(\<And>s. P s \<Longrightarrow> Q a s) \<Longrightarrow> triple P (ret a) Q E"
  by (simp add: triple_def ret_def)

lemma triple_throw [eff_specs]: "(\<And>s. P s \<Longrightarrow> E e s) \<Longrightarrow> triple P (throw e) Q E"
  by (simp add: triple_def throw_def)

lemma triple_reads [eff_specs]: "(\<And>s. P s \<Longrightarrow> Q (f s) s) \<Longrightarrow> triple P (reads f) Q E"
  by (simp add: triple_def reads_def)

lemma triple_modifies [eff_specs]: "(\<And>s. P s \<Longrightarrow> Q () (f s)) \<Longrightarrow> triple P (modifies f) Q E"
  by (simp add: triple_def modifies_def)

lemma triple_tries [eff_specs]:
  "(\<And>s e. P s \<Longrightarrow> f s = Inl e \<Longrightarrow> E e s) \<Longrightarrow> (\<And>s a. P s \<Longrightarrow> f s = Inr a \<Longrightarrow> Q a s) \<Longrightarrow> triple P (tries f) Q E"
  by (auto simp: triple_def tries_def split: sum.split)

lemma triple_refuse_if [eff_specs]:
  "(\<And>s. P s \<Longrightarrow> b s \<Longrightarrow> E e s) \<Longrightarrow> (\<And>s. P s \<Longrightarrow> \<not> b s \<Longrightarrow> Q () s) \<Longrightarrow> triple P (refuse_if b e) Q E"
  by (auto simp: triple_def refuse_if_def)

lemma triple_andthen:
  "triple P m R E \<Longrightarrow> (\<And>a. triple (R a) (f a) Q E) \<Longrightarrow> triple P (andthen m f) Q E"
  unfolding triple_def andthen_def by (fastforce split: prod.splits sum.splits)

lemma triple_handling:
  "triple P m Q F \<Longrightarrow> (\<And>e. triple (F e) (h e) Q E) \<Longrightarrow> triple P (handling m h) Q E"
  unfolding triple_def handling_def by (fastforce split: prod.splits sum.splits)

lemma triple_conseq:
  "triple P' m Q' E' \<Longrightarrow> (\<And>s. P s \<Longrightarrow> P' s) \<Longrightarrow> (\<And>a s. Q' a s \<Longrightarrow> Q a s) \<Longrightarrow> (\<And>e s. E' e s \<Longrightarrow> E e s) \<Longrightarrow>
   triple P m Q E"
  unfolding triple_def by (fastforce split: prod.splits sum.splits)

lemma triple_pre: "triple P' m Q E \<Longrightarrow> (\<And>s. P s \<Longrightarrow> P' s) \<Longrightarrow> triple P m Q E"
  by (rule triple_conseq)

lemma triple_if:
  "(b \<Longrightarrow> triple P m Q E) \<Longrightarrow> (\<not> b \<Longrightarrow> triple P n Q E) \<Longrightarrow> triple P (if b then m else n) Q E"
  by simp

lemma triple_state: "(\<And>s. P s \<Longrightarrow> triple (\<lambda>t. t = s) m Q E) \<Longrightarrow> triple P m Q E"
  unfolding triple_def by simp

text \<open>A loop, with an invariant over the part of the list already worked off.\<close>

lemma triple_for_each:
  assumes "\<And>ys x zs. xs = ys @ x # zs \<Longrightarrow> triple (I ys) (f x) (\<lambda>_. I (ys @ [x])) E"
  shows "triple (I []) (for_each xs f) (\<lambda>_. I xs) E"
proof -
  have "triple (I ys) (for_each zs f) (\<lambda>_. I xs) E" if "xs = ys @ zs" for ys zs
    using that
  proof (induction zs arbitrary: ys)
    case Nil
    then show ?case by (auto intro: triple_ret)
  next
    case (Cons z zs)
    have "triple (I ys) (f z) (\<lambda>_. I (ys @ [z])) E" using Cons.prems by (rule assms)
    moreover have "triple (I (ys @ [z])) (for_each zs f) (\<lambda>_. I xs) E" using Cons by simp
    ultimately show ?case by (auto intro: triple_andthen)
  qed
  from this [of "[]" xs] show ?thesis by simp
qed

text \<open>A block all of whose statements keep an invariant keeps it.\<close>

lemma triple_block_inv:
  "(\<And>m. m \<in> set ms \<Longrightarrow> triple I m (\<lambda>_. I) E) \<Longrightarrow> triple I (block ms) (\<lambda>_. I) E"
  by (induction ms) (auto intro!: triple_ret triple_andthen)

lemma triple_block_Cons:
  "triple P m (\<lambda>_. R) E \<Longrightarrow> triple R (block ms) Q E \<Longrightarrow> triple P (block (m # ms)) Q E"
  by (auto intro: triple_andthen)

lemma triple_block_Nil: "(\<And>s. P s \<Longrightarrow> Q () s) \<Longrightarrow> triple P (block []) Q E"
  by (simp add: triple_ret)

section \<open>Invariants kept on every path\<close>

definition keeps :: "('s \<Rightarrow> bool) \<Rightarrow> ('s, 'e, 'a) eff \<Rightarrow> bool" where
  "keeps I m \<longleftrightarrow> (\<forall>s. I s \<longrightarrow> I (snd (m s)))"

lemma keepsI: "(\<And>s. I s \<Longrightarrow> I (snd (m s))) \<Longrightarrow> keeps I m"
  by (simp add: keeps_def)

lemma keepsD: "keeps I m \<Longrightarrow> I s \<Longrightarrow> I (snd (m s))"
  by (simp add: keeps_def)

lemma keeps_result: "keeps I m \<Longrightarrow> I s \<Longrightarrow> m s = (x, t) \<Longrightarrow> I t"
  using keepsD[of I m s] by simp

lemma keeps_triple: "keeps I m \<Longrightarrow> triple I m (\<lambda>_. I) (\<lambda>_. I)"
  by (auto intro!: tripleI dest: keepsD)

lemma keeps_ret [keeps_intros]: "keeps I (ret a)"
  by (simp add: keeps_def ret_def)

lemma keeps_throw [keeps_intros]: "keeps I (throw e)"
  by (simp add: keeps_def throw_def)

lemma keeps_reads [keeps_intros]: "keeps I (reads f)"
  by (simp add: keeps_def reads_def)

lemma keeps_tries [keeps_intros]: "keeps I (tries f)"
  by (simp add: keeps_def tries_def)

lemma keeps_refuse_if [keeps_intros]: "keeps I (refuse_if b e)"
  by (simp add: keeps_def refuse_if_def)

lemma keeps_modifies [keeps_intros]: "(\<And>s. I s \<Longrightarrow> I (f s)) \<Longrightarrow> keeps I (modifies f)"
  by (simp add: keeps_def modifies_def)

lemma keeps_andthen [keeps_intros]: "keeps I m \<Longrightarrow> (\<And>a. keeps I (f a)) \<Longrightarrow> keeps I (andthen m f)"
  unfolding keeps_def andthen_def by (fastforce split: prod.splits sum.splits)

text \<open>What a read returns may be used to show that the rest keeps the invariant.\<close>

lemma keeps_tries_andthen:
  "(\<And>s a. I s \<Longrightarrow> f s = Inr a \<Longrightarrow> I (snd (g a s))) \<Longrightarrow> keeps I (andthen (tries f) g)"
  unfolding keeps_def andthen_def tries_def by (auto split: sum.splits)

lemma keeps_block: "(\<And>m. m \<in> set ms \<Longrightarrow> keeps I m) \<Longrightarrow> keeps I (block ms)"
  by (induction ms) (auto intro!: keeps_intros)

lemma keeps_block_Nil [keeps_intros]: "keeps I (block [])"
  by (simp add: keeps_ret)

lemma keeps_block_Cons [keeps_intros]: "keeps I m \<Longrightarrow> keeps I (block ms) \<Longrightarrow> keeps I (block (m # ms))"
  by (simp add: keeps_andthen)

lemma keeps_for_each [keeps_intros]: "(\<And>x. x \<in> set xs \<Longrightarrow> keeps I (f x)) \<Longrightarrow> keeps I (for_each xs f)"
  unfolding for_each_def by (rule keeps_block) auto

lemma keeps_if [keeps_intros]: "(b \<Longrightarrow> keeps I m) \<Longrightarrow> (\<not> b \<Longrightarrow> keeps I n) \<Longrightarrow> keeps I (if b then m else n)"
  by simp

lemma keeps_option [keeps_intros]:
  "(v = None \<Longrightarrow> keeps I m) \<Longrightarrow> (\<And>x. v = Some x \<Longrightarrow> keeps I (f x)) \<Longrightarrow> keeps I (case v of None \<Rightarrow> m | Some x \<Rightarrow> f x)"
  by (cases v) simp_all

lemma keeps_list [keeps_intros]:
  "(v = [] \<Longrightarrow> keeps I m) \<Longrightarrow> (\<And>x xs. v = x # xs \<Longrightarrow> keeps I (f x xs)) \<Longrightarrow>
   keeps I (case v of [] \<Rightarrow> m | x # xs \<Rightarrow> f x xs)"
  by (cases v) simp_all

lemma keeps_prod [keeps_intros]: "(\<And>x y. v = (x, y) \<Longrightarrow> keeps I (f x y)) \<Longrightarrow> keeps I (case v of (x, y) \<Rightarrow> f x y)"
  by (cases v) simp

end
