(* ===== verification/Patch_Transaction.thy ===== *)
theory Patch_Transaction
  imports Json Effects
begin

text \<open>
  \<open>patch_transaction.py\<close>: the write-ahead journal that installs the nine files of one
  decision batch as a unit, and its recovery.

  The file system is the part of it the module touches: the live files of the project as a
  tree keyed by the components of their relative path, and, per mission, the directory of
  transaction journals.  Modes are kept because the code checks them.  \<open>fsync\<close> changes no
  contents and has no counterpart; the device checks and the rename probe
  (\<open>_validate_same_filesystem\<close>, \<open>_probe_rename_support\<close>) are refusals of unsuitable file
  systems and are left out.  Every \<open>_event\<close> of the code is a point at which the run may be
  interrupted: \<open>fault\<close> says at which.  \<open>sha\<close> is \<open>hashlib.sha256(b).hexdigest()\<close>.
\<close>

section \<open>The file system\<close>

type_synonym bytes = string

datatype node = Dir | Reg nat bytes | Special

record journal =
  j_mode :: nat
  j_files :: "(string, node) dict"
  j_images :: "(nat \<times> (string, node) dict) option"

text \<open>Entries of \<open>patch-transactions\<close> and of \<open>missions\<close>.\<close>

datatype journal_entry = Journal_Dir journal | Not_Dir
datatype mission_entry = Mission_Dir "(nat \<times> (string, journal_entry) dict) option" | Not_Mission

record disk =
  live :: "(string list, node) dict"
  missions :: "(string, mission_entry) dict option"

datatype exn = Fault | Os_Error | Tx_Error string

type_synonym tx_eff = "(disk, exn, unit) eff"

definition integrity_error :: string where
  "integrity_error = ''patch_transaction_integrity_error''"

definition unsupported_batch :: string where
  "unsupported_batch = ''patch_transaction_unsupported_batch''"

abbreviation bad_integrity :: exn where
  "bad_integrity \<equiv> Tx_Error integrity_error"

abbreviation unsupported :: exn where
  "unsupported \<equiv> Tx_Error unsupported_batch"

text \<open>\<open>0o700\<close> and \<open>0o600\<close>.\<close>

definition private_dir :: nat where "private_dir = 448"
definition private_file :: nat where "private_file = 384"

definition mission_journals :: "disk \<Rightarrow> string \<Rightarrow> (nat \<times> (string, journal_entry) dict) option" where
  "mission_journals d mid =
    (case missions d of
       None \<Rightarrow> None
     | Some ms \<Rightarrow> (case map_of ms mid of Some (Mission_Dir r) \<Rightarrow> r | _ \<Rightarrow> None))"

definition journal_at :: "disk \<Rightarrow> string \<Rightarrow> string \<Rightarrow> journal option" where
  "journal_at d mid tid =
    (case mission_journals d mid of
       None \<Rightarrow> None
     | Some (m, js) \<Rightarrow> (case map_of js tid of Some (Journal_Dir j) \<Rightarrow> Some j | _ \<Rightarrow> None))"

definition put_journals :: "string \<Rightarrow> nat \<times> (string, journal_entry) dict \<Rightarrow> disk \<Rightarrow> disk" where
  "put_journals mid r d =
    d\<lparr>missions := Some (dict_put mid (Mission_Dir (Some r)) (case missions d of None \<Rightarrow> [] | Some ms \<Rightarrow> ms))\<rparr>"

definition put_journal :: "string \<Rightarrow> string \<Rightarrow> journal \<Rightarrow> disk \<Rightarrow> disk" where
  "put_journal mid tid j d =
    (case mission_journals d mid of
       None \<Rightarrow> d
     | Some (m, js) \<Rightarrow> put_journals mid (m, dict_put tid (Journal_Dir j) js) d)"

text \<open>\<open>shutil.rmtree(transaction_dir)\<close>.\<close>

definition remove_journal :: "string \<Rightarrow> string \<Rightarrow> disk \<Rightarrow> disk" where
  "remove_journal mid tid d =
    (case mission_journals d mid of
       None \<Rightarrow> d
     | Some (m, js) \<Rightarrow> put_journals mid (m, AList.delete tid js) d)"

section \<open>Targets\<close>

definition install_order :: "string list" where
  "install_order =
    [''task_list'', ''task_state'', ''contract_state'', ''supersession_lineage'', ''mission_seal'',
     ''project_record'', ''decision_record'', ''attention_cursor'', ''project_state'']"

type_synonym condition = string

definition absent :: condition where
  "absent = ''absent''"

definition condition_of :: "(bytes \<Rightarrow> string) \<Rightarrow> bytes option \<Rightarrow> condition" where
  "condition_of sha body = (case body of None \<Rightarrow> absent | Some b \<Rightarrow> ''sha256:'' @ sha b)"

record target =
  tg_kind :: string
  tg_path :: string
  tg_pre :: condition
  tg_post :: condition
  tg_bytes :: "bytes option"

definition from_images :: "(bytes \<Rightarrow> string) \<Rightarrow> string \<Rightarrow> string \<Rightarrow> bytes option \<Rightarrow> bytes option \<Rightarrow> target" where
  "from_images sha kind path pre post =
    \<lparr>tg_kind = kind, tg_path = path, tg_pre = condition_of sha pre, tg_post = condition_of sha post, tg_bytes = post\<rparr>"

record transaction =
  tx_mission :: string
  tx_id :: string
  tx_targets :: "target list"

fun split_slash :: "string \<Rightarrow> string list" where
  "split_slash [] = [[]]"
| "split_slash (c # s) =
    (if c = CHR ''/'' then [] # split_slash s
     else (case split_slash s of [] \<Rightarrow> [[c]] | p # ps \<Rightarrow> (c # p) # ps))"

text \<open>A relative path in normal form, not leaving the root.\<close>

definition posix_ok :: "string \<Rightarrow> bool" where
  "posix_ok rel \<longleftrightarrow> list_all (\<lambda>p. p \<notin> {[], ''.'', ''..''}) (split_slash rel)"

definition ancestors :: "string list \<Rightarrow> string list list" where
  "ancestors ps = map (\<lambda>k. take k ps) [1..<length ps]"

text \<open>The walk of \<open>_live_path\<close>: up to the first missing directory, everything is a directory.\<close>

fun walk_ok :: "(string list, node) dict \<Rightarrow> string list list \<Rightarrow> bool" where
  "walk_ok t [] = True"
| "walk_ok t (a # as) = (case map_of t a of None \<Rightarrow> True | Some n \<Rightarrow> n = Dir \<and> walk_ok t as)"

definition live_path :: "string \<Rightarrow> disk \<Rightarrow> exn + string list" where
  "live_path rel d =
    (let ps = split_slash rel in
     if \<not> posix_ok rel then Inl bad_integrity
     else if \<not> walk_ok (live d) (ancestors ps) then Inl unsupported
     else Inr ps)"

definition state_of :: "(bytes \<Rightarrow> string) \<Rightarrow> target \<Rightarrow> disk \<Rightarrow> exn + condition" where
  "state_of sha t d =
    (case live_path (tg_path t) d of
       Inl e \<Rightarrow> Inl e
     | Inr ps \<Rightarrow> (case map_of (live d) ps of
           None \<Rightarrow> Inr absent
         | Some (Reg m b) \<Rightarrow> Inr (condition_of sha (Some b))
         | Some _ \<Rightarrow> Inr ''third''))"

definition is_digest :: "string \<Rightarrow> bool" where
  "is_digest v \<longleftrightarrow> take 7 v = ''sha256:'' \<and> length v = 71 \<and>
     list_all (\<lambda>c. c \<in> set ''0123456789abcdef'') (drop 7 v)"

definition slug_char :: "char \<Rightarrow> bool" where
  "slug_char c \<longleftrightarrow> is_lower c \<or> is_digit c \<or> c = CHR ''-''"

text \<open>\<open>[0-9]+-[a-z0-9-]+\.md\<close>, the whole string.\<close>

definition decision_file_name :: "string \<Rightarrow> bool" where
  "decision_file_name s =
    (let r = dropWhile is_digit s; body = take (length r - 4) (drop 1 r) in
     takeWhile is_digit s \<noteq> [] \<and> take 1 r = ''-'' \<and> 4 < length r \<and> drop (length r - 3) r = ''.md''
     \<and> body \<noteq> [] \<and> list_all slug_char body)"

definition exact_path :: "string \<Rightarrow> string \<Rightarrow> string option" where
  "exact_path mid kind = map_of
    [(''task_list'', ''.unrest-runtime/missions/'' @ mid @ ''/tasks.json''),
     (''task_state'', ''.unrest-runtime/missions/'' @ mid @ ''/task-state.json''),
     (''contract_state'', ''.unrest-runtime/missions/'' @ mid @ ''/contract-state.json''),
     (''supersession_lineage'', ''.unrest/missions/'' @ mid @ ''/supersession-lineage.json''),
     (''mission_seal'', ''.unrest/missions/'' @ mid @ ''/closeout.md''),
     (''project_record'', ''.unrest-runtime/project.json''),
     (''attention_cursor'', ''.unrest-runtime/attention.json''),
     (''project_state'', ''.unrest-runtime/state.json'')] kind"

definition target_path_allowed :: "string \<Rightarrow> string \<Rightarrow> string \<Rightarrow> bool" where
  "target_path_allowed kind path mid =
    (if kind = ''decision_record''
     then take 18 path = ''.unrest/decisions/'' \<and> decision_file_name (drop 18 path)
     else exact_path mid kind = Some path)"

text \<open>One target of \<open>_validate_definition\<close>.\<close>

definition validate_target :: "(bytes \<Rightarrow> string) \<Rightarrow> string \<Rightarrow> disk \<Rightarrow> target \<Rightarrow> exn option" where
  "validate_target sha mid d t =
    (if \<not> target_path_allowed (tg_kind t) (tg_path t) mid then Some bad_integrity
     else case live_path (tg_path t) d of
       Inl e \<Rightarrow> Some e
     | Inr _ \<Rightarrow>
        if tg_post t \<noteq> condition_of sha (tg_bytes t) then Some unsupported
        else if tg_pre t \<noteq> absent \<and> \<not> is_digest (tg_pre t) then Some unsupported
        else None)"

fun first_error :: "('a \<Rightarrow> 'e option) \<Rightarrow> 'a list \<Rightarrow> 'e option" where
  "first_error f [] = None"
| "first_error f (x # xs) = (case f x of None \<Rightarrow> first_error f xs | Some e \<Rightarrow> Some e)"

definition validate_definition :: "(bytes \<Rightarrow> string) \<Rightarrow> transaction \<Rightarrow> disk \<Rightarrow> exn option" where
  "validate_definition sha tx d =
    (let ts = tx_targets tx; kinds = map tg_kind ts in
     if \<not> distinct (map tg_path ts) \<or> \<not> distinct kinds then Some unsupported
     else if ts = [] \<or> length ts \<noteq> length install_order then Some bad_integrity
     else if kinds \<noteq> install_order then Some bad_integrity
     else if tx_mission tx = [] \<or> CHR ''/'' \<in> set (tx_mission tx) then Some unsupported
     else if tx_id tx = [] \<or> CHR ''/'' \<in> set (tx_id tx) then Some unsupported
     else first_error (validate_target sha (tx_mission tx) d) ts)"

definition tx_schema :: string where
  "tx_schema = ''unrest.v045.patch-transaction.v1''"

definition manifest_row :: "target \<Rightarrow> json" where
  "manifest_row t = JObj [(''kind'', JStr (tg_kind t)), (''path'', JStr (tg_path t)),
     (''post'', JStr (tg_post t)), (''pre'', JStr (tg_pre t))]"

definition manifest_payload :: "transaction \<Rightarrow> (string \<times> json) list" where
  "manifest_payload tx = [(''mission_id'', JStr (tx_mission tx)), (''schema'', JStr tx_schema),
     (''targets'', JList (map manifest_row (tx_targets tx))), (''transaction_id'', JStr (tx_id tx))]"

definition manifest_bytes :: "transaction \<Rightarrow> bytes" where
  "manifest_bytes tx = canonical_json_bytes (JObj (manifest_payload tx))"

section \<open>Preparing, committing, installing, finishing\<close>

definition event :: "(string \<Rightarrow> bool) \<Rightarrow> string \<Rightarrow> tx_eff" where
  "event fault label = refuse_if (\<lambda>_. fault label) Fault"

text \<open>\<open>_mkdir_private\<close> of the three directories.\<close>

definition make_tx_root :: "transaction \<Rightarrow> tx_eff" where
  "make_tx_root tx d =
    (let ms = (case missions d of None \<Rightarrow> [] | Some ms \<Rightarrow> ms);
         js = (case mission_journals d (tx_mission tx) of None \<Rightarrow> [] | Some (m, js) \<Rightarrow> js) in
     if map_of ms (tx_mission tx) = Some Not_Mission then (Inl Os_Error, d)
     else (Inr (), put_journals (tx_mission tx) (private_dir, js) d))"

definition make_tx_dir :: "transaction \<Rightarrow> tx_eff" where
  "make_tx_dir tx d =
    (case mission_journals d (tx_mission tx) of
       None \<Rightarrow> (Inl Os_Error, d)
     | Some (m, js) \<Rightarrow>
        (case map_of js (tx_id tx) of
           Some Not_Dir \<Rightarrow> (Inl Os_Error, d)
         | Some (Journal_Dir j) \<Rightarrow> (Inr (), put_journal (tx_mission tx) (tx_id tx) (j\<lparr>j_mode := private_dir\<rparr>) d)
         | None \<Rightarrow> (Inr (), put_journal (tx_mission tx) (tx_id tx)
                        \<lparr>j_mode = private_dir, j_files = [], j_images = None\<rparr> d)))"

definition on_journal :: "transaction \<Rightarrow> (journal \<Rightarrow> exn + journal) \<Rightarrow> tx_eff" where
  "on_journal tx f d =
    (case journal_at d (tx_mission tx) (tx_id tx) of
       None \<Rightarrow> (Inl Os_Error, d)
     | Some j \<Rightarrow> (case f j of
           Inl e \<Rightarrow> (Inl e, d)
         | Inr j' \<Rightarrow> (Inr (), put_journal (tx_mission tx) (tx_id tx) j' d)))"

definition make_images_dir :: "transaction \<Rightarrow> tx_eff" where
  "make_images_dir tx = on_journal tx (\<lambda>j.
    if map_of (j_files j) ''post-images'' \<noteq> None then Inl Os_Error
    else Inr (j\<lparr>j_images := Some (private_dir, (case j_images j of None \<Rightarrow> [] | Some (m, is) \<Rightarrow> is))\<rparr>))"

text \<open>\<open>_open_exclusive(transaction_dir / name, body, 0o600)\<close>.\<close>

definition write_exclusive :: "transaction \<Rightarrow> string \<Rightarrow> bytes \<Rightarrow> tx_eff" where
  "write_exclusive tx name body = on_journal tx (\<lambda>j.
    if map_of (j_files j) name \<noteq> None then Inl Os_Error
    else Inr (j\<lparr>j_files := dict_put name (Reg private_file body) (j_files j)\<rparr>))"

definition write_image :: "transaction \<Rightarrow> string \<Rightarrow> bytes \<Rightarrow> tx_eff" where
  "write_image tx kind body = on_journal tx (\<lambda>j.
    case j_images j of
      None \<Rightarrow> Inl Os_Error
    | Some (m, is) \<Rightarrow> if map_of is kind \<noteq> None then Inl Os_Error
        else Inr (j\<lparr>j_images := Some (m, dict_put kind (Reg private_dir body) is)\<rparr>))"

definition labelled :: "string \<Rightarrow> string \<Rightarrow> string" where
  "labelled label kind = label @ '':'' @ kind"

definition stage_image :: "(string \<Rightarrow> bool) \<Rightarrow> transaction \<Rightarrow> target \<Rightarrow> tx_eff" where
  "stage_image fault tx t =
    (case tg_bytes t of
       None \<Rightarrow> ret ()
     | Some body \<Rightarrow> block
        [event fault (labelled ''before_post_image_write'' (tg_kind t)),
         write_image tx (tg_kind t) body,
         event fault (labelled ''after_post_image_write'' (tg_kind t)),
         event fault (labelled ''before_post_image_fsync'' (tg_kind t)),
         event fault (labelled ''after_post_image_fsync'' (tg_kind t))])"

definition prepare :: "(string \<Rightarrow> bool) \<Rightarrow> transaction \<Rightarrow> tx_eff" where
  "prepare fault tx = block
    [make_tx_root tx,
     make_tx_dir tx,
     make_images_dir tx,
     write_exclusive tx ''preconditions.json'' (manifest_bytes tx),
     for_each (tx_targets tx) (stage_image fault tx),
     event fault ''before_post_images_directory_fsync'',
     event fault ''after_post_images_directory_fsync'',
     event fault ''before_manifest_write'',
     write_exclusive tx ''manifest.json'' (manifest_bytes tx),
     event fault ''after_manifest_write'',
     event fault ''before_manifest_fsync'',
     event fault ''after_manifest_fsync'',
     event fault ''before_staging_directory_fsync'',
     event fault ''after_staging_directory_fsync'']"

definition commit :: "(string \<Rightarrow> bool) \<Rightarrow> transaction \<Rightarrow> tx_eff" where
  "commit fault tx = block
    [event fault ''before_commit_create'',
     write_exclusive tx ''COMMIT'' [],
     event fault ''after_commit_create'',
     event fault ''before_commit_fsync'',
     event fault ''after_commit_fsync'',
     event fault ''before_commit_directory_fsync'',
     event fault ''after_commit_directory_fsync'']"

definition has_file :: "journal \<Rightarrow> string \<Rightarrow> bool" where
  "has_file j name \<longleftrightarrow> map_of (j_files j) name \<noteq> None"

text \<open>\<open>_require_file\<close> together with the contents read next.\<close>

definition file_is :: "journal \<Rightarrow> string \<Rightarrow> bytes \<Rightarrow> bool" where
  "file_is j name body \<longleftrightarrow> map_of (j_files j) name = Some (Reg private_file body)"

text \<open>The last loop of \<open>_validate_staging\<close>, one target.\<close>

definition image_error :: "(bytes \<Rightarrow> string) \<Rightarrow> disk \<Rightarrow> (string, node) dict \<Rightarrow> target \<Rightarrow> exn option" where
  "image_error sha d is t =
    (case tg_bytes t of
       None \<Rightarrow> if map_of is (tg_kind t) \<noteq> None then Some bad_integrity else None
     | Some b \<Rightarrow>
        (case state_of sha t d of
           Inl e \<Rightarrow> Some e
         | Inr s \<Rightarrow> if s = tg_post t then None
                    else if map_of is (tg_kind t) \<noteq> Some (Reg private_dir b) then Some bad_integrity
                    else None))"

definition validate_staging :: "(bytes \<Rightarrow> string) \<Rightarrow> bool \<Rightarrow> transaction \<Rightarrow> disk \<Rightarrow> exn option" where
  "validate_staging sha committed tx d =
    (case journal_at d (tx_mission tx) (tx_id tx) of
       None \<Rightarrow> Some bad_integrity
     | Some j \<Rightarrow>
      if j_mode j \<noteq> private_dir then Some bad_integrity
      else (case j_images j of
         None \<Rightarrow> Some bad_integrity
       | Some (im, is) \<Rightarrow>
        if im \<noteq> private_dir then Some bad_integrity
        else if \<not> file_is j ''manifest.json'' (manifest_bytes tx) then Some bad_integrity
        else if \<exists>m \<in> set [''COMMIT'', ''DONE'']. has_file j m \<and> \<not> file_is j m [] then Some bad_integrity
        else if has_file j ''DONE'' \<and> \<not> has_file j ''COMMIT'' then Some bad_integrity
        else if committed \<and> \<not> has_file j ''COMMIT'' then Some bad_integrity
        else if has_file j ''preconditions.json'' \<and> \<not> file_is j ''preconditions.json'' (manifest_bytes tx)
          then Some bad_integrity
        else if \<not> set (dict_keys (j_files j)) \<subseteq> {''preconditions.json'', ''manifest.json'', ''COMMIT'', ''DONE''}
          then Some bad_integrity
        else if \<not> set (dict_keys is) \<subseteq> set (map tg_kind (filter (\<lambda>t. tg_bytes t \<noteq> None) (tx_targets tx)))
          then Some bad_integrity
        else first_error (image_error sha d is) (tx_targets tx)))"

text \<open>\<open>_safe_private_parents\<close>.\<close>

definition make_parents :: "string list \<Rightarrow> tx_eff" where
  "make_parents ps d =
    (let as = rev (ancestors ps);
         missing = rev (takeWhile (\<lambda>a. map_of (live d) a = None) as);
         there = dropWhile (\<lambda>a. map_of (live d) a = None) as in
     if \<exists>a \<in> set there. map_of (live d) a \<noteq> Some Dir then (Inl bad_integrity, d)
     else (Inr (), d\<lparr>live := fold (\<lambda>a. dict_put a Dir) missing (live d)\<rparr>))"

text \<open>\<open>path.unlink()\<close>, or \<open>os.replace(image, path); path.chmod(0o700)\<close>.\<close>

definition move_image :: "transaction \<Rightarrow> target \<Rightarrow> string list \<Rightarrow> tx_eff" where
  "move_image tx t ps d =
    (case tg_bytes t of
       None \<Rightarrow> if map_of (live d) ps = Some Dir then (Inl Os_Error, d)
               else (Inr (), d\<lparr>live := AList.delete ps (live d)\<rparr>)
     | Some _ \<Rightarrow>
        (case journal_at d (tx_mission tx) (tx_id tx) of
           None \<Rightarrow> (Inl Os_Error, d)
         | Some j \<Rightarrow>
            (case j_images j of
               None \<Rightarrow> (Inl Os_Error, d)
             | Some (im, is) \<Rightarrow>
                (case map_of is (tg_kind t) of
                   Some (Reg m b) \<Rightarrow>
                     if map_of (live d) ps = Some Dir then (Inl Os_Error, d)
                     else (Inr (), (put_journal (tx_mission tx) (tx_id tx)
                            (j\<lparr>j_images := Some (im, AList.delete (tg_kind t) is)\<rparr>) d)
                              \<lparr>live := dict_put ps (Reg private_dir b) (live d)\<rparr>)
                 | _ \<Rightarrow> (Inl Os_Error, d)))))"

definition install_target :: "(bytes \<Rightarrow> string) \<Rightarrow> (string \<Rightarrow> bool) \<Rightarrow> transaction \<Rightarrow> target \<Rightarrow> tx_eff" where
  "install_target sha fault tx t = andthen (tries (state_of sha t)) (\<lambda>s.
    if s = tg_post t then ret ()
    else if s \<noteq> tg_pre t then throw bad_integrity
    else andthen (tries (live_path (tg_path t))) (\<lambda>ps. block
      [make_parents ps,
       event fault (labelled ''before_target_install'' (tg_kind t)),
       move_image tx t ps,
       event fault (labelled ''after_target_install'' (tg_kind t)),
       event fault (labelled ''before_target_directory_fsync'' (tg_kind t)),
       event fault (labelled ''after_target_directory_fsync'' (tg_kind t))]))"

definition refuse_error :: "('s \<Rightarrow> 'e option) \<Rightarrow> ('s, 'e, unit) eff" where
  "refuse_error f = tries (\<lambda>s. case f s of None \<Rightarrow> Inr () | Some e \<Rightarrow> Inl e)"

definition install :: "(bytes \<Rightarrow> string) \<Rightarrow> (string \<Rightarrow> bool) \<Rightarrow> transaction \<Rightarrow> tx_eff" where
  "install sha fault tx = andthen (refuse_error (validate_staging sha True tx))
     (\<lambda>_. for_each (tx_targets tx) (install_target sha fault tx))"

text \<open>\<open>any(self._state(target) != wanted(target) for target in self.targets)\<close>, refused.\<close>

definition require_states :: "(bytes \<Rightarrow> string) \<Rightarrow> (target \<Rightarrow> condition) \<Rightarrow> transaction \<Rightarrow> tx_eff" where
  "require_states sha wanted tx = refuse_error (\<lambda>d. first_error (\<lambda>t.
     case state_of sha t d of Inl e \<Rightarrow> Some e | Inr s \<Rightarrow> if s = wanted t then None else Some bad_integrity)
     (tx_targets tx))"

definition cleanup :: "transaction \<Rightarrow> tx_eff" where
  "cleanup tx d =
    (case journal_at d (tx_mission tx) (tx_id tx) of
       None \<Rightarrow> (Inl Os_Error, d)
     | Some _ \<Rightarrow> (Inr (), remove_journal (tx_mission tx) (tx_id tx) d))"

definition finish :: "(bytes \<Rightarrow> string) \<Rightarrow> (string \<Rightarrow> bool) \<Rightarrow> transaction \<Rightarrow> tx_eff" where
  "finish sha fault tx = block
    [require_states sha tg_post tx,
     andthen (reads (\<lambda>d. case journal_at d (tx_mission tx) (tx_id tx) of
                           None \<Rightarrow> False | Some j \<Rightarrow> has_file j ''DONE''))
       (\<lambda>done_exists. if done_exists then ret () else block
         [event fault ''before_done_create'',
          write_exclusive tx ''DONE'' [],
          event fault ''after_done_create'',
          event fault ''before_done_fsync'',
          event fault ''after_done_fsync'',
          event fault ''before_done_directory_fsync'',
          event fault ''after_done_directory_fsync'']),
     event fault ''before_transaction_cleanup'',
     cleanup tx,
     event fault ''after_transaction_cleanup'']"

definition committed :: "transaction \<Rightarrow> disk \<Rightarrow> bool" where
  "committed tx d = (case journal_at d (tx_mission tx) (tx_id tx) of
     None \<Rightarrow> False | Some j \<Rightarrow> has_file j ''COMMIT'')"

definition execute :: "(bytes \<Rightarrow> string) \<Rightarrow> (string \<Rightarrow> bool) \<Rightarrow> transaction \<Rightarrow> tx_eff" where
  "execute sha fault tx = handling
    (block [prepare fault tx, require_states sha tg_pre tx, commit fault tx, install sha fault tx, finish sha fault tx])
    (\<lambda>e. if e = Os_Error
          then andthen (reads (committed tx)) (\<lambda>c. throw (if c then bad_integrity else unsupported))
          else throw e)"

section \<open>Recovery\<close>

definition recover :: "(bytes \<Rightarrow> string) \<Rightarrow> (string \<Rightarrow> bool) \<Rightarrow> transaction \<Rightarrow> tx_eff" where
  "recover sha fault tx d =
    (case journal_at d (tx_mission tx) (tx_id tx) of
       None \<Rightarrow> (Inr (), d)
     | Some j \<Rightarrow>
        if has_file j ''COMMIT'' then block [install sha fault tx, finish sha fault tx] d
        else block [require_states sha tg_pre tx, refuse_error (validate_staging sha False tx), cleanup tx] d)"

text \<open>\<open>_load_manifest\<close>: only the canonical text of an object with the four keys is accepted.\<close>

definition load_manifest :: "node option \<Rightarrow> exn + (string \<times> json) list" where
  "load_manifest n =
    (case n of
       Some (Reg m raw) \<Rightarrow>
         if m \<noteq> private_file then Inl bad_integrity
         else (case loads raw of
             Some (JObj p) \<Rightarrow>
               if set (dict_keys p) \<noteq> {''schema'', ''transaction_id'', ''mission_id'', ''targets''} then Inl bad_integrity
               else if map_of p ''schema'' \<noteq> Some (JStr tx_schema) \<or> canonical_json_bytes (JObj p) \<noteq> raw
                 then Inl bad_integrity
               else (case map_of p ''targets'' of Some (JList _) \<Rightarrow> Inr p | _ \<Rightarrow> Inl bad_integrity)
           | _ \<Rightarrow> Inl bad_integrity)
     | _ \<Rightarrow> Inl bad_integrity)"

definition payload_rows :: "(string \<times> json) list \<Rightarrow> json list" where
  "payload_rows p = (case map_of p ''targets'' of Some (JList rows) \<Rightarrow> rows | _ \<Rightarrow> [])"

text \<open>A manifest row: exactly the four keys, all strings.\<close>

definition row_fields :: "json \<Rightarrow> (string \<times> string \<times> string \<times> string) option" where
  "row_fields row =
    (case row of
       JObj r \<Rightarrow> if set (dict_keys r) \<noteq> {''kind'', ''path'', ''pre'', ''post''} then None
         else (case (map_of r ''kind'', map_of r ''path'', map_of r ''pre'', map_of r ''post'') of
             (Some (JStr k), Some (JStr p), Some (JStr a), Some (JStr b)) \<Rightarrow> Some (k, p, a, b)
           | _ \<Rightarrow> None)
     | _ \<Rightarrow> None)"

text \<open>The image of a row: the staged file, or the live file when it already has the digest.\<close>

definition row_image :: "(bytes \<Rightarrow> string) \<Rightarrow> disk \<Rightarrow> journal \<Rightarrow> string \<Rightarrow> string \<Rightarrow> condition \<Rightarrow> bytes option" where
  "row_image sha d j kind path post =
    (case (case j_images j of None \<Rightarrow> None | Some (m, is) \<Rightarrow> map_of is kind) of
       Some (Reg m b) \<Rightarrow> Some b
     | _ \<Rightarrow> (case map_of (live d) (split_slash path) of
           Some (Reg m b) \<Rightarrow> if condition_of sha (Some b) = post then Some b else None
         | _ \<Rightarrow> None))"

definition target_of_row :: "(bytes \<Rightarrow> string) \<Rightarrow> disk \<Rightarrow> journal \<Rightarrow> json \<Rightarrow> target option" where
  "target_of_row sha d j row =
    (case row_fields row of
       None \<Rightarrow> None
     | Some (kind, path, pre, post) \<Rightarrow>
        if post = absent
        then Some \<lparr>tg_kind = kind, tg_path = path, tg_pre = pre, tg_post = post, tg_bytes = None\<rparr>
        else (case row_image sha d j kind path post of
            None \<Rightarrow> None
          | Some b \<Rightarrow> if condition_of sha (Some b) \<noteq> post then None
              else Some \<lparr>tg_kind = kind, tg_path = path, tg_pre = pre, tg_post = post, tg_bytes = Some b\<rparr>))"

fun all_some :: "('a \<Rightarrow> 'b option) \<Rightarrow> 'a list \<Rightarrow> 'b list option" where
  "all_some f [] = Some []"
| "all_some f (x # xs) = (case f x of None \<Rightarrow> None | Some y \<Rightarrow> map_option (Cons y) (all_some f xs))"

definition targets_from_manifest :: "(bytes \<Rightarrow> string) \<Rightarrow> disk \<Rightarrow> journal \<Rightarrow> json list \<Rightarrow> target list option" where
  "targets_from_manifest sha d j rows =
    (case all_some (target_of_row sha d j) rows of
       None \<Rightarrow> None
     | Some ts \<Rightarrow> if map tg_kind ts = install_order then Some ts else None)"

text \<open>\<open>_live_state\<close>.\<close>

definition live_state :: "(bytes \<Rightarrow> string) \<Rightarrow> disk \<Rightarrow> string \<Rightarrow> exn + condition" where
  "live_state sha d rel =
    (let ps = split_slash rel in
     if \<not> posix_ok rel then Inl bad_integrity
     else if \<not> walk_ok (live d) (ancestors ps) then Inl bad_integrity
     else if \<exists>a \<in> set (ancestors ps). map_of (live d) a = None then Inr absent
     else (case map_of (live d) ps of
         None \<Rightarrow> Inr absent
       | Some (Reg m b) \<Rightarrow> Inr (condition_of sha (Some b))
       | Some _ \<Rightarrow> Inl bad_integrity))"

text \<open>The rows of \<open>_discard_incomplete_uncommitted\<close>, with the paths seen before.\<close>

fun discardable_rows :: "(bytes \<Rightarrow> string) \<Rightarrow> disk \<Rightarrow> string \<Rightarrow> string list \<Rightarrow> string list \<Rightarrow> json list \<Rightarrow> bool" where
  "discardable_rows sha d mid seen (k # ks) (row # rows) =
    (case row_fields row of
       None \<Rightarrow> False
     | Some (kind, path, pre, post) \<Rightarrow>
        kind = k \<and> path \<notin> set seen \<and> target_path_allowed kind path mid
        \<and> (pre = absent \<or> is_digest pre) \<and> (post = absent \<or> is_digest post)
        \<and> live_state sha d path = Inr pre
        \<and> discardable_rows sha d mid (path # seen) ks rows)"
| "discardable_rows sha d mid seen [] [] = True"
| "discardable_rows sha d mid seen _ _ = False"

definition staged_image_ok :: "(bytes \<Rightarrow> string) \<Rightarrow> json list \<Rightarrow> string \<times> node \<Rightarrow> bool" where
  "staged_image_ok sha rows entry =
    (case find (\<lambda>row. case row_fields row of None \<Rightarrow> False | Some (k, p, a, b) \<Rightarrow> k = fst entry) rows of
       None \<Rightarrow> False
     | Some row \<Rightarrow>
        (case (row_fields row, snd entry) of
           (Some (k, p, a, b), Reg m body) \<Rightarrow> b \<noteq> absent \<and> m = private_dir \<and> condition_of sha (Some body) = b
         | _ \<Rightarrow> False))"

definition discardable :: "(bytes \<Rightarrow> string) \<Rightarrow> disk \<Rightarrow> string \<Rightarrow> string \<Rightarrow> journal \<Rightarrow> bool" where
  "discardable sha d mid tid j =
    (\<not> has_file j ''COMMIT'' \<and> \<not> has_file j ''DONE'' \<and> j_mode j = private_dir
     \<and> (case load_manifest (map_of (j_files j) ''preconditions.json'') of
          Inl e \<Rightarrow> False
        | Inr p \<Rightarrow>
           map_of p ''transaction_id'' = Some (JStr tid) \<and> map_of p ''mission_id'' = Some (JStr mid)
           \<and> set (dict_keys (j_files j)) \<subseteq> {''preconditions.json''}
           \<and> (case j_images j of
                None \<Rightarrow> False
              | Some (im, is) \<Rightarrow>
                 im = private_dir
                 \<and> discardable_rows sha d mid [] install_order (payload_rows p)
                 \<and> list_all (staged_image_ok sha (payload_rows p)) is)))"

definition discard_incomplete :: "(bytes \<Rightarrow> string) \<Rightarrow> string \<Rightarrow> string \<Rightarrow> journal \<Rightarrow> tx_eff" where
  "discard_incomplete sha mid tid j d =
    (if discardable sha d mid tid j then (Inr (), remove_journal mid tid d) else (Inl bad_integrity, d))"

text \<open>
  The scan of one mission's journals: incomplete ones are discarded on the way, the others are
  collected with whether they are committed.
\<close>

type_synonym pending = "(string \<times> string \<times> (string \<times> json) list \<times> bool) list"

fun scan_journals :: "(bytes \<Rightarrow> string) \<Rightarrow> string \<Rightarrow> (string \<times> journal_entry) list \<Rightarrow> (disk, exn, pending) eff" where
  "scan_journals sha mid [] = ret []"
| "scan_journals sha mid ((tid, Not_Dir) # es) = throw bad_integrity"
| "scan_journals sha mid ((tid, Journal_Dir j) # es) =
    (if \<not> has_file j ''manifest.json''
     then andthen (discard_incomplete sha mid tid j) (\<lambda>_. scan_journals sha mid es)
     else andthen (tries (\<lambda>_. load_manifest (map_of (j_files j) ''manifest.json''))) (\<lambda>p.
            andthen (scan_journals sha mid es) (\<lambda>ps. ret ((mid, tid, p, has_file j ''COMMIT'') # ps))))"

fun scan_missions :: "(bytes \<Rightarrow> string) \<Rightarrow> (string \<times> mission_entry) list \<Rightarrow> (disk, exn, pending) eff" where
  "scan_missions sha [] = ret []"
| "scan_missions sha ((mid, Not_Mission) # es) = throw bad_integrity"
| "scan_missions sha ((mid, Mission_Dir None) # es) = scan_missions sha es"
| "scan_missions sha ((mid, Mission_Dir (Some (mode, js))) # es) =
    (if mode \<noteq> private_dir then throw bad_integrity
     else andthen (scan_journals sha mid (sort_key fst js)) (\<lambda>ps.
            andthen (scan_missions sha es) (\<lambda>qs. ret (ps @ qs))))"

text \<open>
  One pending journal.  A manifest whose identifiers are not strings cannot have been written
  by \<open>manifest_bytes\<close>; the code renders them with \<open>str\<close> and then refuses the byte comparison,
  with the same error.
\<close>

definition recover_pending ::
  "(bytes \<Rightarrow> string) \<Rightarrow> (string \<Rightarrow> bool) \<Rightarrow> string \<times> string \<times> (string \<times> json) list \<times> bool \<Rightarrow> tx_eff" where
  "recover_pending sha fault entry d =
    (case entry of (mid, tid, p, c) \<Rightarrow>
      (case (journal_at d mid tid, map_of p ''mission_id'', map_of p ''transaction_id'') of
         (Some j, Some (JStr m), Some (JStr t)) \<Rightarrow>
           (case targets_from_manifest sha d j (payload_rows p) of
              None \<Rightarrow> (Inl bad_integrity, d)
            | Some ts \<Rightarrow>
               (let tx = \<lparr>tx_mission = m, tx_id = t, tx_targets = ts\<rparr> in
                if validate_definition sha tx d \<noteq> None then (Inl bad_integrity, d)
                else if m \<noteq> mid \<or> t \<noteq> tid then (Inl bad_integrity, d)
                else recover sha fault tx d))
       | _ \<Rightarrow> (Inl bad_integrity, d)))"

definition recover_all :: "(bytes \<Rightarrow> string) \<Rightarrow> (string \<Rightarrow> bool) \<Rightarrow> tx_eff" where
  "recover_all sha fault d =
    (case missions d of
       None \<Rightarrow> (Inr (), d)
     | Some ms \<Rightarrow>
        andthen (scan_missions sha (sort_key fst ms)) (\<lambda>ps.
          if 1 < length (filter (\<lambda>(mid, tid, p, c). c) ps) then throw bad_integrity
          else for_each ps (recover_pending sha fault)) d)"

definition recover_patch_transactions :: "(bytes \<Rightarrow> string) \<Rightarrow> (string \<Rightarrow> bool) \<Rightarrow> tx_eff" where
  "recover_patch_transactions sha fault = handling (recover_all sha fault)
     (\<lambda>e. throw (if e = Os_Error then bad_integrity else e))"

end
