(* ===== verification/Json_Proofs.thy ===== *)
theory Json_Proofs
  imports Json
begin

text \<open>Reading back what was written, and uniqueness of the canonical text.\<close>

section \<open>Strings\<close>

lemma ord_less [simp]: "ord c < 256"
  by (simp add: ord_def)

lemma char_of_ord [simp]: "char_of (ord c) = c"
  by (simp add: ord_def)

lemma ord_char_of: "n < 256 \<Longrightarrow> ord (char_of n) = n"
  by (simp add: ord_def)

lemma hex_val_digit: "n < 16 \<Longrightarrow> hex_val (json_hex_digit n) = Some n"
  by (auto simp: hex_val_def json_hex_digit_def is_digit_def ord_char_of)

lemma hex_val_zero [simp]: "hex_val (CHR ''0'') = Some 0"
  by (simp add: hex_val_def is_digit_def ord_def)

lemma short_escape_props:
  assumes "map_of short_escapes c = Some e"
  shows "unescape e = Some c" "e \<noteq> CHR ''u''"
  using assms by (auto simp: short_escapes_def unescape_def split: if_splits)

lemma no_short_escape: "map_of short_escapes c = None \<Longrightarrow> c \<noteq> CHR 0x22 \<and> c \<noteq> CHR 0x5C"
  by (auto simp: short_escapes_def)

lemma scan_esc: "scan_string (esc_char c @ s) = map_option (\<lambda>(t, r). (c # t, r)) (scan_string s)"
proof (cases "map_of short_escapes c")
  case (Some e)
  then show ?thesis by (simp add: esc_char_def short_escape_props)
next
  case None
  show ?thesis
  proof (cases "32 \<le> ord c \<and> ord c \<le> 126")
    case True
    then show ?thesis using None no_short_escape [OF None] by (simp add: esc_char_def)
  next
    case False
    have "hex_val (json_hex_digit (ord c div 16)) = Some (ord c div 16)"
      by (rule hex_val_digit) (use ord_less [of c] in linarith)
    moreover have "hex_val (json_hex_digit (ord c mod 16)) = Some (ord c mod 16)"
      by (rule hex_val_digit) simp
    moreover have "esc_char c = [CHR 0x5C, CHR ''u'', CHR ''0'', CHR ''0'', json_hex_digit (ord c div 16), json_hex_digit (ord c mod 16)]"
      using None False by (auto simp: esc_char_def)
    ultimately show ?thesis by (simp add: mult_div_mod_eq)
  qed
qed

lemma scan_quote: "scan_string (concat (map esc_char s) @ CHR 0x22 # rest) = Some (s, rest)"
  by (induction s) (simp_all add: scan_esc)

section \<open>Numbers\<close>

definition delim :: "string \<Rightarrow> bool" where
  "delim rest \<longleftrightarrow> rest = [] \<or> hd rest \<in> {CHR '','', CHR '']'', CHR ''}'', CHR 0x0A}"

lemma delim_Cons [simp]: "delim (c # rest) \<longleftrightarrow> c \<in> {CHR '','', CHR '']'', CHR ''}'', CHR 0x0A}"
  by (simp add: delim_def)

lemma char_of_48 [simp]: "char_of (48::nat) = CHR ''0''"
  proof -
  have "ord (CHR ''0'') = 48" by (simp add: ord_def)
  then show ?thesis by (metis char_of_ord)
qed

lemma is_digit_char_of: "d < 10 \<Longrightarrow> is_digit (char_of (48 + d :: nat))"
  by (simp add: is_digit_def ord_char_of)

lemma show_nat_digits: "\<forall>c \<in> set (show_nat n). is_digit c"
proof (induction n rule: show_nat.induct)
  case (1 n)
  then show ?case
    by (cases "n < 10") (auto simp: show_nat.simps [of n] is_digit_char_of simp del: char_of_ord)
qed

lemma show_nat_value: "foldl (\<lambda>v d. 10 * v + (ord d - 48)) 0 (show_nat n) = n"
proof (induction n rule: show_nat.induct)
  case (1 n)
  then show ?case by (cases "n < 10") (auto simp: show_nat.simps [of n] ord_char_of)
qed

lemma show_nat_ne [simp]: "show_nat n \<noteq> []"
  by (subst show_nat.simps) simp

lemma show_nat_lead: "0 < n \<Longrightarrow> hd (show_nat n) \<noteq> CHR ''0''"
proof (induction n rule: show_nat.induct)
  case (1 n)
  have "char_of (48 + n) \<noteq> CHR ''0''" if "n < 10"
  proof
    assume "char_of (48 + n) = CHR ''0''"
    then have "ord (char_of (48 + n)) = ord (CHR ''0'')" by simp
    then show False using that 1 by (simp add: ord_char_of ord_def)
  qed
  then show ?case using 1 by (cases "n < 10") (simp_all add: show_nat.simps [of n])
qed

lemma delim_not_digit: "delim rest \<Longrightarrow> takeWhile is_digit rest = [] \<and> dropWhile is_digit rest = rest"
  by (cases rest) (auto simp: is_digit_def ord_def)

lemma scan_nat_show:
  assumes "delim rest"
  shows "scan_nat (show_nat n @ rest) = Some (n, rest)"
proof (cases "n = 0")
  case True
  then show ?thesis by (simp add: scan_nat_def show_nat.simps [of 0])
next
  case False
  obtain c s where cs: "show_nat n = c # s" by (cases "show_nat n") auto
  have d: "\<forall>x \<in> set (c # s). is_digit x" using show_nat_digits [of n] cs by simp
  have "c \<noteq> CHR ''0''" using show_nat_lead [of n] False cs by simp
  moreover have "takeWhile is_digit (c # s @ rest) = c # s" "dropWhile is_digit (c # s @ rest) = rest"
    using d delim_not_digit [OF assms] by (simp_all add: takeWhile_append2 dropWhile_append2)
  ultimately show ?thesis using d cs show_nat_value [of n] by (simp add: scan_nat_def)
qed

lemma show_nat_hd: "is_digit (hd (show_nat n))"
  using show_nat_digits [of n] by (cases "show_nat n") auto

lemma scan_int_show:
  assumes "delim rest"
  shows "scan_int (show_int i @ rest) = Some (i, rest)"
proof -
  have nf: "\<not> (rest \<noteq> [] \<and> hd rest \<in> {CHR ''.'', CHR ''e'', CHR ''E''})"
    using assms by (auto simp: delim_def)
  show ?thesis
  proof (cases "i < 0")
    case True
    then show ?thesis using nf by (simp add: scan_int_def show_int_def scan_nat_show [OF assms])
  next
    case False
    obtain c s where cs: "show_nat (nat i) = c # s" by (cases "show_nat (nat i)") auto
    have "c \<noteq> CHR ''-''" using show_nat_hd [of "nat i"] cs by (auto simp: is_digit_def ord_def)
    then show ?thesis
      using False nf scan_nat_show [OF assms, of "nat i"] cs by (simp add: scan_int_def show_int_def)
  qed
qed

section \<open>Values\<close>

fun json_ok :: "json \<Rightarrow> bool" where
  "json_ok (JList xs) = (\<forall>x \<in> set xs. json_ok x)"
| "json_ok (JObj kvs) = (distinct (map fst kvs) \<and> (\<forall>kv \<in> set kvs. json_ok (snd kv)))"
| "json_ok v = True"

text \<open>No encoding starts with white space or with a closing bracket.\<close>

definition opens :: "string \<Rightarrow> bool" where
  "opens s \<longleftrightarrow> s \<noteq> [] \<and> \<not> json_ws (hd s) \<and> hd s \<notin> {CHR '']'', CHR ''}''}"

lemma opens_encode: "opens (encode v)"
proof (cases v)
  case (JInt i)
  have "opens (show_nat n)" for n
    using show_nat_hd [of n] by (auto simp: opens_def json_ws_def is_digit_def ord_def)
  then show ?thesis using JInt by (simp add: show_int_def opens_def json_ws_def)
qed (simp_all add: opens_def json_ws_def quote_def)

lemma skip_opens [simp]: "opens s \<Longrightarrow> skip_ws (s @ r) = s @ r"
  by (cases s) (auto simp: opens_def skip_ws_def)

lemma skip_delim [simp]: "skip_ws (CHR '','' # r) = CHR '','' # r" "skip_ws (CHR '']'' # r) = CHR '']'' # r"
  "skip_ws (CHR ''}'' # r) = CHR ''}'' # r" "skip_ws (CHR '':'' # r) = CHR '':'' # r"
  "skip_ws (CHR 0x22 # r) = CHR 0x22 # r"
  by (simp_all add: skip_ws_def json_ws_def)

lemma join_Cons: "ys \<noteq> [] \<Longrightarrow> join sep (y # ys) = y @ sep @ join sep ys"
  by (cases ys) simp_all

abbreviation reads_back :: "json \<Rightarrow> bool" where
  "reads_back v \<equiv> \<forall>n rest. delim rest \<longrightarrow> length (encode v) \<le> n \<longrightarrow>
     parse_value n (encode v @ rest) = Some (v, rest)"

lemma parse_elems_join:
  "xs \<noteq> [] \<Longrightarrow> \<forall>x \<in> set xs. reads_back x \<Longrightarrow>
   length (join '','' (map encode xs)) < n \<Longrightarrow>
   parse_elems n (join '','' (map encode xs) @ CHR '']'' # rest) = Some (xs, rest)"
proof (induction xs arbitrary: n)
  case (Cons x xs)
  then obtain m where n: "n = Suc m" by (cases n) auto
  show ?case
  proof (cases "xs = []")
    case True
    then show ?thesis using Cons.prems n by simp
  next
    case False
    let ?j = "join '','' (map encode xs)"
    have j: "join '','' (map encode (x # xs)) = encode x @ CHR '','' # ?j"
      using False by (simp add: join_Cons)
    have "parse_value m (encode x @ CHR '','' # ?j @ CHR '']'' # rest) = Some (x, CHR '','' # ?j @ CHR '']'' # rest)"
      using Cons.prems n j by simp
    moreover have "parse_elems m (?j @ CHR '']'' # rest) = Some (xs, rest)"
      using Cons.IH False Cons.prems n j by simp
    ultimately show ?thesis by (simp only: n j) simp
  qed
qed simp

definition member_text :: "string \<times> json \<Rightarrow> string" where
  "member_text kv = quote (fst kv) @ '':'' @ encode (snd kv)"

lemma parse_members_join:
  "kvs \<noteq> [] \<Longrightarrow> \<forall>kv \<in> set kvs. reads_back (snd kv) \<Longrightarrow>
   length (join '','' (map member_text kvs)) < n \<Longrightarrow>
   parse_members n (join '','' (map member_text kvs) @ CHR ''}'' # rest) = Some (kvs, rest)"
proof (induction kvs arbitrary: n)
  case (Cons kv kvs)
  obtain k v where kv: "kv = (k, v)" by force
  obtain m where n: "n = Suc m" using Cons.prems by (cases n) auto
  have mt: "member_text kv @ r = CHR 0x22 # concat (map esc_char k) @ CHR 0x22 # CHR '':'' # encode v @ r" for r
    by (simp add: member_text_def kv quote_def)
  have len: "length (encode v) < length (member_text kv)"
    by (simp add: member_text_def kv)
  have rb: "delim r \<Longrightarrow> length (encode v) \<le> i \<Longrightarrow> parse_value i (encode v @ r) = Some (v, r)" for i r
    using Cons.prems(2) kv by simp
  show ?case
  proof (cases "kvs = []")
    case True
    then show ?thesis
      using Cons.prems(3) n len rb [of "CHR ''}'' # rest" m] by (simp add: mt scan_quote) (simp add: kv)
  next
    case False
    let ?j = "join '','' (map member_text kvs)"
    have j: "join '','' (map member_text (kv # kvs)) = member_text kv @ CHR '','' # ?j"
      using False by (simp add: join_Cons)
    have l: "length (encode v) \<le> m" using Cons.prems(3) [unfolded j] len n by simp
    have pv: "parse_value m (encode v @ CHR '','' # ?j @ CHR ''}'' # rest) = Some (v, CHR '','' # ?j @ CHR ''}'' # rest)"
      by (rule rb) (use l in simp_all)
    have "length ?j < m" using Cons.prems(3) [unfolded j] n len by simp
    then have pm: "parse_members m (?j @ CHR ''}'' # rest) = Some (kvs, rest)"
      using Cons.IH [of m] False Cons.prems(2) by simp
    show ?thesis using pv pm by (simp only: n j append_assoc append_Cons) (simp add: mt scan_quote, simp add: kv)
  qed
qed simp

lemma encode_obj: "encode (JObj kvs) = ''{'' @ join '','' (map member_text kvs) @ ''}''"
  by (simp add: member_text_def [abs_def])

lemma opens_join: "\<forall>s \<in> set ss. opens s \<Longrightarrow> ss \<noteq> [] \<Longrightarrow> opens (join sep ss)"
  by (cases "(sep, ss)" rule: join.cases) (auto simp: opens_def)

lemma opensE:
  assumes "opens s"
  obtains c t where "s = c # t" "\<not> json_ws c" "c \<noteq> CHR '']''" "c \<noteq> CHR ''}''"
  using assms by (cases s) (auto simp: opens_def)

lemma opens_member: "opens (member_text kv)"
  by (simp add: member_text_def quote_def opens_def json_ws_def)

lemma parse_encode: "json_ok v \<Longrightarrow> reads_back v"
proof (induction v)
  case (JInt i)
  have "parse_value n (encode (JInt i) @ rest) = Some (JInt i, rest)"
    if dl: "delim rest" and ln: "length (encode (JInt i)) \<le> n" for n rest
  proof -
    obtain m where n: "n = Suc m"
      using ln opens_encode [of "JInt i"] by (cases n) (auto simp: opens_def)
    obtain c s where cs: "show_int i = c # s" using opens_encode [of "JInt i"] by (cases "show_int i") (auto simp: opens_def)
    have "c = CHR ''-'' \<or> is_digit c"
      using cs show_nat_hd [of "nat i"] by (auto simp: show_int_def split: if_splits)
    then have c: "c \<noteq> CHR 0x22" "c \<noteq> CHR ''[''" "c \<noteq> CHR ''{''" "c \<noteq> CHR ''n''" "c \<noteq> CHR ''t''" "c \<noteq> CHR ''f''"
      by (auto simp: is_digit_def ord_def)
    have "skip_ws (show_int i @ rest) = show_int i @ rest" using opens_encode [of "JInt i"] by simp
    then show ?thesis using c scan_int_show [OF dl, of i] by (simp add: n cs)
  qed
  then show ?case by blast
next
  case (JList xs)
  have "parse_value n (encode (JList xs) @ rest) = Some (JList xs, rest)"
    if dl: "delim rest" and ln: "length (encode (JList xs)) \<le> n" for n rest
  proof -
    obtain m where n: "n = Suc m" using ln by (cases n) auto
    show ?thesis
    proof (cases "xs = []")
      case True
      then show ?thesis by (simp add: n skip_ws_def json_ws_def)
    next
      case False
      have "opens (join '','' (map encode xs))"
        by (rule opens_join) (use False opens_encode in auto)
      then obtain c b where j: "join '','' (map encode xs) = c # b" "\<not> json_ws c" "c \<noteq> CHR '']''"
        by (rule opensE)
      have "parse_elems m (join '','' (map encode xs) @ CHR '']'' # rest) = Some (xs, rest)"
        using ln JList False n by (intro parse_elems_join) auto
      then show ?thesis using j by (simp add: n skip_ws_def) (simp add: json_ws_def)
    qed
  qed
  then show ?case by blast
next
  case (JObj kvs)
  have "parse_value n (encode (JObj kvs) @ rest) = Some (JObj kvs, rest)"
    if dl: "delim rest" and ln: "length (encode (JObj kvs)) \<le> n" for n rest
  proof -
    obtain m where n: "n = Suc m" using ln by (cases n) auto
    show ?thesis
    proof (cases "kvs = []")
      case True
      then show ?thesis by (simp add: n skip_ws_def json_ws_def)
    next
      case False
      have "opens (join '','' (map member_text kvs))"
        by (rule opens_join) (use False opens_member in auto)
      then obtain c b where j: "join '','' (map member_text kvs) = c # b" "\<not> json_ws c" "c \<noteq> CHR ''}''"
        by (rule opensE)
      have "\<forall>kv \<in> set kvs. reads_back (snd kv)"
        using JObj by (metis (no_types, lifting) json_ok.simps(2) snds.intros surjective_pairing)
      then have "parse_members m (join '','' (map member_text kvs) @ CHR ''}'' # rest) = Some (kvs, rest)"
        using ln False n by (intro parse_members_join) (auto simp: encode_obj simp del: encode.simps)
      then show ?thesis using j JObj.prems
        by (simp add: n skip_ws_def encode_obj dict_of_distinct del: encode.simps) (simp add: json_ws_def)
    qed
  qed
  then show ?case by blast
qed (auto simp: skip_ws_def json_ws_def literal_def quote_def scan_quote Suc_le_eq dest!: less_imp_Suc_add)

section \<open>The canonical text\<close>

lemma map_fst_sort_key: "map fst (sort_key fst kvs) = sort (map fst kvs)"
proof -
  have "mset (map fst (sort_key fst kvs)) = mset (map fst kvs)" by (metis mset_map mset_sort)
  then show ?thesis by (metis properties_for_sort sorted_sort_key)
qed

lemma json_ok_sort_keys: "json_ok v \<Longrightarrow> json_ok (sort_keys v)"
proof (induction v)
  case (JObj kvs)
  then show ?case
    by (auto simp: map_fst_sort_key comp_def intro: snds.intros)
qed auto

lemma sort_keys_idem: "sort_keys (sort_keys v) = sort_keys v"
proof (induction v)
  case (JObj kvs)
  let ?f = "\<lambda>kv. (fst kv, sort_keys (snd kv))"
  have "map ?f (sort_key fst (map ?f kvs)) = sort_key fst (map ?f kvs)"
    by (rule map_idI) (use JObj in \<open>auto intro: snds.intros\<close>)
  then show ?case by (simp add: sort_key_id_if_sorted)
qed (auto simp: comp_def)

lemma loads_canonical_text:
  assumes "json_ok v"
  shows "loads (canonical_json_bytes v) = Some (sort_keys v)"
proof -
  have "parse_value (length (canonical_json_bytes v)) (dumps v @ [CHR 0x0A]) = Some (sort_keys v, [CHR 0x0A])"
    unfolding dumps_def
    by (rule parse_encode [OF json_ok_sort_keys [OF assms], rule_format])
       (simp_all add: canonical_json_bytes_def dumps_def)
  then show ?thesis by (simp add: loads_def canonical_json_bytes_def skip_ws_def json_ws_def)
qed

lemma canonical_sort_keys: "canonical_json_bytes (sort_keys v) = canonical_json_bytes v"
  by (simp add: canonical_json_bytes_def dumps_def sort_keys_idem)

text \<open>Parsing the canonical JSON text of a value whose objects have no duplicate keys returns
  that value, with the keys of each object in sorted order: the encoding loses nothing, and the
  length of the text is enough fuel for the parser.
\<close>

theorem loads_canonical:
  assumes "json_ok v"
  shows "loads (canonical_json_bytes v) = Some (sort_keys v)"
  using assms by (rule loads_canonical_text)

theorem loads_canonical_witness:
  "loads (canonical_json_bytes (JObj [(''b'', JInt (-120)), (''a'', JList [JNull, JBool True, JStr ''x\<newline>y'']), (''c'', JObj [])])) =
   Some (JObj [(''a'', JList [JNull, JBool True, JStr ''x\<newline>y'']), (''b'', JInt (-120)), (''c'', JObj [])])"
proof -
  let ?v = "JObj [(''b'', JInt (-120)), (''a'', JList [JNull, JBool True, JStr ''x\<newline>y'']), (''c'', JObj [])]"
  have "sort_keys ?v = JObj [(''a'', JList [JNull, JBool True, JStr ''x\<newline>y'']), (''b'', JInt (-120)), (''c'', JObj [])]"
    by code_simp
  moreover have "json_ok ?v" by simp
  ultimately show ?thesis using loads_canonical [of ?v] by simp
qed

end
