(* ===== verification/Patch_Transaction_Paths.thy ===== *)
theory Patch_Transaction_Paths
  imports Patch_Transaction Json_Proofs
begin

text \<open>
  The nine target paths, and what keeps them apart: no target is another target, and none is
  a directory on the way to one.
\<close>

lemma join_split_slash: "join ''/'' (split_slash s) = s \<and> split_slash s \<noteq> []"
proof (induction s)
  case (Cons c s)
  obtain p ps where s: "split_slash s = p # ps" using Cons by (cases "split_slash s") auto
  then show ?case using Cons by (cases ps) auto
qed simp

lemma split_slash_inj: "split_slash s = split_slash t \<longleftrightarrow> s = t"
  by (metis join_split_slash)

lemma split_slash_append: "CHR ''/'' \<notin> set p \<Longrightarrow> split_slash (p @ CHR ''/'' # s) = p # split_slash s"
  by (induction p) auto

lemma split_slash_single: "CHR ''/'' \<notin> set p \<Longrightarrow> split_slash p = [p]"
  by (induction p) auto

lemma split_slash_join:
  "ps \<noteq> [] \<Longrightarrow> \<forall>p \<in> set ps. CHR ''/'' \<notin> set p \<Longrightarrow> split_slash (join ''/'' ps) = ps"
proof (induction ps)
  case (Cons p ps)
  then show ?case
    by (cases ps) (simp_all add: split_slash_single split_slash_append)
qed simp

definition state_dir :: string where "state_dir = ''.unrest-runtime''"
definition docs_dir :: string where "docs_dir = ''.unrest''"

text \<open>Where the targets of the fixed kinds live, as components.\<close>

definition fixed_parts :: "string \<Rightarrow> (string \<times> string list) list" where
  "fixed_parts mid =
    [(''task_list'', [state_dir, ''missions'', mid, ''tasks.json'']),
     (''task_state'', [state_dir, ''missions'', mid, ''task-state.json'']),
     (''contract_state'', [state_dir, ''missions'', mid, ''contract-state.json'']),
     (''supersession_lineage'', [docs_dir, ''missions'', mid, ''supersession-lineage.json'']),
     (''mission_seal'', [docs_dir, ''missions'', mid, ''closeout.md'']),
     (''project_record'', [state_dir, ''project.json'']),
     (''attention_cursor'', [state_dir, ''attention.json'']),
     (''project_state'', [state_dir, ''state.json''])]"

lemma exact_path_join: "exact_path mid kind = map_option (join ''/'') (map_of (fixed_parts mid) kind)"
  by (simp add: exact_path_def fixed_parts_def state_dir_def docs_dir_def)

text \<open>The shape of a target path.\<close>

definition target_shape :: "string \<Rightarrow> string list \<Rightarrow> bool" where
  "target_shape mid ps \<longleftrightarrow>
     (\<exists>f. ps = [state_dir, ''missions'', mid, f]) \<or> (\<exists>f. ps = [docs_dir, ''missions'', mid, f])
     \<or> (\<exists>f. ps = [state_dir, f] \<and> f \<noteq> ''missions'') \<or> (\<exists>f. ps = [docs_dir, ''decisions'', f])"

lemma fixed_parts_shape: "(kind, ps) \<in> set (fixed_parts mid) \<Longrightarrow> target_shape mid ps"
  by (auto simp: fixed_parts_def target_shape_def)

lemma fixed_parts_no_slash:
  "(kind, ps) \<in> set (fixed_parts mid) \<Longrightarrow> CHR ''/'' \<notin> set mid \<Longrightarrow> ps \<noteq> [] \<and> (\<forall>p \<in> set ps. CHR ''/'' \<notin> set p)"
  by (auto simp: fixed_parts_def state_dir_def docs_dir_def)

lemma decision_file_no_slash:
  assumes "decision_file_name s" shows "CHR ''/'' \<notin> set s"
proof -
  let ?r = "dropWhile is_digit s"
  let ?body = "take (length ?r - 4) (drop 1 ?r)"
  have d: "take 1 ?r = ''-''" "4 < length ?r" "drop (length ?r - 3) ?r = ''.md''" "list_all slug_char ?body"
    using assms by (simp_all add: decision_file_name_def Let_def)
  have e: "length ?r - 4 + 1 = length ?r - 3" using d(2) by simp
  have "drop (length ?r - 4) (drop 1 ?r) = drop (length ?r - 3) ?r"
    unfolding drop_drop e ..
  then have r: "?r = take 1 ?r @ ?body @ drop (length ?r - 3) ?r"
    by (metis append_take_drop_id)
  have b: "CHR ''/'' \<notin> set ?body"
    using d(4) by (auto simp: list_all_iff slug_char_def is_lower_def is_digit_def ord_def)
  have "set ?r = set (take 1 ?r) \<union> set ?body \<union> set (drop (length ?r - 3) ?r)"
    by (subst r) (simp only: set_append Un_assoc)
  then have "CHR ''/'' \<notin> set ?r"
    unfolding d(1,3) using b by auto
  moreover have "CHR ''/'' \<notin> set (takeWhile is_digit s)"
    by (auto dest!: set_takeWhileD simp: ord_def is_digit_def)
  ultimately show ?thesis by (metis Un_iff set_append takeWhile_dropWhile_id)
qed

lemma allowed_shape:
  assumes "target_path_allowed kind path mid" "CHR ''/'' \<notin> set mid"
  shows "target_shape mid (split_slash path)"
proof (cases "kind = ''decision_record''")
  case True
  have a: "take 18 path = ''.unrest/decisions/''" "decision_file_name (drop 18 path)"
    using assms(1) unfolding target_path_allowed_def if_P [OF True] by blast+
  define f where "f = drop 18 path"
  have f: "CHR ''/'' \<notin> set f"
    unfolding f_def by (rule decision_file_no_slash [OF a(2)])
  have p: "path = ''.unrest/decisions/'' @ f"
    unfolding f_def a(1) [symmetric] by (rule append_take_drop_id [symmetric])
  have "split_slash path = [docs_dir, ''decisions'', f]"
    unfolding p by (simp add: split_slash_single [OF f] docs_dir_def)
  then show ?thesis by (auto simp: target_shape_def)
next
  case False
  then have "exact_path mid kind = Some path" using assms(1) by (simp add: target_path_allowed_def)
  then obtain ps where ps: "(kind, ps) \<in> set (fixed_parts mid)" "path = join ''/'' ps"
    by (auto simp: exact_path_join dest: map_of_SomeD)
  then have "split_slash path = ps"
    using fixed_parts_no_slash [OF ps(1) assms(2)] by (simp add: split_slash_join)
  then show ?thesis using fixed_parts_shape [OF ps(1)] by simp
qed

text \<open>No target path is a directory on the way to a target.\<close>

lemma ancestors_eval [simp]: "ancestors [a, b] = [[a]]" "ancestors [a, b, c] = [[a], [a, b]]"
  "ancestors [a, b, c, e] = [[a], [a, b], [a, b, c]]"
  by (simp_all add: ancestors_def upt_rec)

lemma dirs_differ [simp]: "state_dir \<noteq> docs_dir" "docs_dir \<noteq> state_dir"
  by (simp_all add: state_dir_def docs_dir_def)

lemma target_not_ancestor:
  assumes "target_shape mid ps" "target_shape mid qs"
  shows "ps \<notin> set (ancestors qs)"
  using assms unfolding target_shape_def by (elim disjE exE conjE) simp_all

end
