(* ===== verification/Patch_Transaction_Proofs.thy ===== *)
theory Patch_Transaction_Proofs
  imports Patch_Transaction_Paths
begin

text \<open>
  A run of a batch is atomic: interrupted at any point the code marks, recovery ends either
  with every target as it was or with every target as the batch wants it, and the journal gone.
\<close>

section \<open>The journal of one batch\<close>

abbreviation parts :: "target \<Rightarrow> string list" where
  "parts t \<equiv> split_slash (tg_path t)"

definition quiet_entry :: "mission_entry \<Rightarrow> bool" where
  "quiet_entry e \<longleftrightarrow> e = Mission_Dir None \<or> e = Mission_Dir (Some (private_dir, []))"

text \<open>No journal anywhere in the project.\<close>

definition no_journal :: "disk \<Rightarrow> bool" where
  "no_journal d \<longleftrightarrow>
    (case missions d of
       None \<Rightarrow> True
     | Some ms \<Rightarrow> distinct (dict_keys ms) \<and> (\<forall>me \<in> set ms. quiet_entry (snd me)))"

text \<open>Exactly one journal, that of the batch.\<close>

definition one_journal :: "transaction \<Rightarrow> journal \<Rightarrow> disk \<Rightarrow> bool" where
  "one_journal tx j d \<longleftrightarrow>
    (\<exists>ms. missions d = Some ms \<and> distinct (dict_keys ms)
       \<and> map_of ms (tx_mission tx) = Some (Mission_Dir (Some (private_dir, [(tx_id tx, Journal_Dir j)])))
       \<and> (\<forall>me \<in> set ms. fst me \<noteq> tx_mission tx \<longrightarrow> quiet_entry (snd me)))"

text \<open>The journal after so many of its four files have been written.\<close>

definition stage :: "transaction \<Rightarrow> nat \<Rightarrow> (string, node) dict \<Rightarrow> journal" where
  "stage tx k is =
    \<lparr>j_mode = private_dir,
     j_files = take k [(''preconditions.json'', Reg private_file (manifest_bytes tx)),
       (''manifest.json'', Reg private_file (manifest_bytes tx)),
       (''COMMIT'', Reg private_file []), (''DONE'', Reg private_file [])],
     j_images = Some (private_dir, is)\<rparr>"

definition staged :: "target list \<Rightarrow> (string, node) dict" where
  "staged ts = concat (map (\<lambda>t. case tg_bytes t of None \<Rightarrow> [] | Some b \<Rightarrow> [(tg_kind t, Reg private_dir b)]) ts)"

lemma one_journal_at: "one_journal tx j d \<Longrightarrow> journal_at d (tx_mission tx) (tx_id tx) = Some j"
  by (auto simp: one_journal_def journal_at_def mission_journals_def)

lemma live_put [simp]: "live (put_journal m i j d) = live d" "live (put_journals m r d) = live d"
  "live (remove_journal m i d) = live d"
  by (auto simp: put_journal_def put_journals_def remove_journal_def split: option.splits)

lemma put_journals_one:
  assumes "one_journal tx j d"
  shows "one_journal tx j' (put_journals (tx_mission tx) (private_dir, [(tx_id tx, Journal_Dir j')]) d)"
proof -
  obtain ms where ms: "missions d = Some ms" "distinct (dict_keys ms)"
    "\<forall>me \<in> set ms. fst me \<noteq> tx_mission tx \<longrightarrow> quiet_entry (snd me)"
    using assms by (auto simp: one_journal_def)
  have "quiet_entry e" if "(m, e) \<in> set (dict_put (tx_mission tx) v ms)" "m \<noteq> tx_mission tx" for m e v
    using that ms(2,3) by (metis AList.distinct_update fst_conv fun_upd_other map_of_SomeD map_of_eq_Some_iff snd_conv update_conv')
  then show ?thesis
    using ms by (auto simp: one_journal_def put_journals_def distinct_update update_conv')
qed

lemma put_journal_one:
  assumes "one_journal tx j d"
  shows "one_journal tx j' (put_journal (tx_mission tx) (tx_id tx) j' d)"
proof -
  have "mission_journals d (tx_mission tx) = Some (private_dir, [(tx_id tx, Journal_Dir j)])"
    using assms by (auto simp: one_journal_def mission_journals_def)
  then show ?thesis using put_journals_one [OF assms] by (simp add: put_journal_def)
qed

lemma remove_journal_one:
  assumes "one_journal tx j d"
  shows "no_journal (remove_journal (tx_mission tx) (tx_id tx) d)"
proof -
  obtain ms where ms: "missions d = Some ms" "distinct (dict_keys ms)"
    "\<forall>me \<in> set ms. fst me \<noteq> tx_mission tx \<longrightarrow> quiet_entry (snd me)"
    using assms by (auto simp: one_journal_def)
  have "mission_journals d (tx_mission tx) = Some (private_dir, [(tx_id tx, Journal_Dir j)])"
    using assms by (auto simp: one_journal_def mission_journals_def)
  then have r: "remove_journal (tx_mission tx) (tx_id tx) d = put_journals (tx_mission tx) (private_dir, []) d"
    by (simp add: remove_journal_def)
  have "quiet_entry e" if "(m, e) \<in> set (dict_put (tx_mission tx) (Mission_Dir (Some (private_dir, []))) ms)" for m e
  proof (cases "m = tx_mission tx")
    case True
    then have "e = Mission_Dir (Some (private_dir, []))"
      using that ms(2) by (metis distinct_update fun_upd_same map_of_eq_Some_iff option.inject update_conv')
    then show ?thesis by (simp add: quiet_entry_def)
  next
    case False
    then show ?thesis
      using that ms(2,3) by (metis distinct_update fst_conv fun_upd_other map_of_SomeD map_of_eq_Some_iff snd_conv update_conv')
  qed
  then show ?thesis using ms by (auto simp: r no_journal_def put_journals_def distinct_update)
qed

lemma on_journal_spec:
  assumes "f j = Inr j'"
  shows "triple (\<lambda>d. one_journal tx j d \<and> live d = L) (on_journal tx f) (\<lambda>_ d. one_journal tx j' d \<and> live d = L) E"
  unfolding triple_def
proof (intro allI impI)
  fix d assume d: "one_journal tx j d \<and> live d = L"
  then have "one_journal tx j' (put_journal (tx_mission tx) (tx_id tx) j' d)" using put_journal_one by blast
  then show "case on_journal tx f d of (Inl e, t) \<Rightarrow> E e t | (Inr a, t) \<Rightarrow> one_journal tx j' t \<and> live t = L"
    using d assms by (simp add: on_journal_def one_journal_at [of tx j])
qed

text \<open>An interruption at one of the marked points, in a state satisfying \<open>R\<close>.\<close>

definition fault_in :: "(string \<Rightarrow> bool) \<Rightarrow> (disk \<Rightarrow> bool) \<Rightarrow> exn \<Rightarrow> disk \<Rightarrow> bool" where
  "fault_in fault R e d \<longleftrightarrow> e = Fault \<and> (\<exists>l. fault l) \<and> R d"

lemma fault_in_mono: "fault_in fault R e d \<Longrightarrow> (\<And>d. R d \<Longrightarrow> S d) \<Longrightarrow> fault_in fault S e d"
  by (simp add: fault_in_def)

lemma block_event:
  "(\<And>s. P s \<Longrightarrow> R s) \<Longrightarrow> triple P (block ms) Q (fault_in fault R) \<Longrightarrow>
   triple P (block (event fault l # ms)) Q (fault_in fault R)"
  unfolding event_def
  by (rule triple_block_Cons [where R = P], rule triple_refuse_if) (auto simp: fault_in_def)

lemma block_event_last:
  "(\<And>s. P s \<Longrightarrow> R s) \<Longrightarrow> (\<And>s. P s \<Longrightarrow> Q () s) \<Longrightarrow> triple P (block [event fault l]) Q (fault_in fault R)"
  by (rule block_event) (auto intro: triple_ret)

section \<open>The live tree\<close>

text \<open>Every entry lies in a directory.\<close>

definition closed_tree :: "(string list, node) dict \<Rightarrow> bool" where
  "closed_tree L \<longleftrightarrow> (\<forall>p \<in> dom (map_of L). \<forall>a \<in> set (ancestors p). map_of L a = Some Dir)"

definition way_clear :: "transaction \<Rightarrow> disk \<Rightarrow> bool" where
  "way_clear tx d \<longleftrightarrow> closed_tree (live d) \<and>
     (\<forall>t \<in> set (tx_targets tx). \<forall>a \<in> set (ancestors (parts t)). map_of (live d) a \<in> {None, Some Dir})"

text \<open>The live file of a target has the contents \<open>b\<close>, or is absent.\<close>

definition holds :: "disk \<Rightarrow> target \<Rightarrow> bytes option \<Rightarrow> bool" where
  "holds d t b \<longleftrightarrow> (case b of None \<Rightarrow> map_of (live d) (parts t) = None
     | Some x \<Rightarrow> \<exists>m. map_of (live d) (parts t) = Some (Reg m x))"

definition same_elsewhere :: "transaction \<Rightarrow> (string list, node) dict \<Rightarrow> disk \<Rightarrow> bool" where
  "same_elsewhere tx L d \<longleftrightarrow> (\<forall>p. (\<forall>t \<in> set (tx_targets tx). p \<noteq> parts t \<and> p \<notin> set (ancestors (parts t))) \<longrightarrow>
     map_of (live d) p = map_of L p)"

text \<open>\<open>sha\<close> returns 64 lower-case hexadecimal digits.\<close>

definition hex_digest :: "(bytes \<Rightarrow> string) \<Rightarrow> bool" where
  "hex_digest sha \<longleftrightarrow> (\<forall>b. is_digest (''sha256:'' @ sha b))"

text \<open>
  A batch built by \<open>from_images\<close> from the images \<open>pre\<close>, accepted by the constructor on the disk
  \<open>d\<close>, whose images the digest tells apart.
\<close>

definition batch :: "(bytes \<Rightarrow> string) \<Rightarrow> transaction \<Rightarrow> (target \<Rightarrow> bytes option) \<Rightarrow> bool" where
  "batch sha tx pre \<longleftrightarrow>
     map tg_kind (tx_targets tx) = install_order \<and> distinct (map tg_path (tx_targets tx))
     \<and> tx_mission tx \<noteq> [] \<and> CHR ''/'' \<notin> set (tx_mission tx) \<and> tx_id tx \<noteq> [] \<and> CHR ''/'' \<notin> set (tx_id tx)
     \<and> (\<forall>t \<in> set (tx_targets tx).
          posix_ok (tg_path t) \<and> target_path_allowed (tg_kind t) (tg_path t) (tx_mission tx)
          \<and> tg_pre t = condition_of sha (pre t) \<and> tg_post t = condition_of sha (tg_bytes t)
          \<and> (condition_of sha (pre t) = condition_of sha (tg_bytes t) \<longrightarrow> pre t = tg_bytes t))"

lemma batch_target:
  assumes "batch sha tx pre" "t \<in> set (tx_targets tx)"
  shows "posix_ok (tg_path t)" "target_path_allowed (tg_kind t) (tg_path t) (tx_mission tx)"
    "tg_pre t = condition_of sha (pre t)" "tg_post t = condition_of sha (tg_bytes t)"
    "condition_of sha (pre t) = condition_of sha (tg_bytes t) \<Longrightarrow> pre t = tg_bytes t"
  using assms by (auto simp: batch_def)

lemma batch_kinds: "batch sha tx pre \<Longrightarrow> distinct (map tg_kind (tx_targets tx))"
  by (simp add: batch_def install_order_def)

lemma batch_parts_eq:
  assumes "batch sha tx pre" "t \<in> set (tx_targets tx)" "u \<in> set (tx_targets tx)"
  shows "parts t = parts u \<longleftrightarrow> t = u"
  using assms distinct_map_inj [of tg_path "tx_targets tx" t u] by (auto simp: batch_def split_slash_inj)

lemma batch_kind_eq:
  assumes "batch sha tx pre" "t \<in> set (tx_targets tx)" "u \<in> set (tx_targets tx)"
  shows "tg_kind t = tg_kind u \<longleftrightarrow> t = u"
  using assms distinct_map_inj [OF batch_kinds [OF assms(1)]] by blast

lemma batch_not_ancestor:
  assumes "batch sha tx pre" "t \<in> set (tx_targets tx)" "u \<in> set (tx_targets tx)"
  shows "parts t \<notin> set (ancestors (parts u))"
  by (rule target_not_ancestor [of "tx_mission tx"])
     (use assms in \<open>auto simp: batch_def intro!: allowed_shape\<close>)

lemma walk_clear: "\<forall>a \<in> set as. map_of L a \<in> {None, Some Dir} \<Longrightarrow> walk_ok L as"
  by (induction as) auto

lemma live_path_batch:
  assumes "batch sha tx pre" "way_clear tx d" "t \<in> set (tx_targets tx)"
  shows "live_path (tg_path t) d = Inr (parts t)"
proof -
  have "walk_ok (live d) (ancestors (parts t))"
    by (rule walk_clear) (use assms(2,3) in \<open>simp add: way_clear_def\<close>)
  then show ?thesis using batch_target(1) [OF assms(1,3)] by (simp add: live_path_def Let_def)
qed

lemma state_of_batch:
  assumes "batch sha tx pre" "way_clear tx d" "t \<in> set (tx_targets tx)" "holds d t b"
  shows "state_of sha t d = Inr (condition_of sha b)"
  using assms(4) by (auto simp: state_of_def live_path_batch [OF assms(1-3)] holds_def condition_of_def split: option.splits)

lemma condition_digest: "hex_digest sha \<Longrightarrow> condition_of sha b = absent \<or> is_digest (condition_of sha b)"
  by (cases b) (simp_all add: condition_of_def hex_digest_def)

lemma first_error_None: "first_error f xs = None \<longleftrightarrow> (\<forall>x \<in> set xs. f x = None)"
  by (induction xs) (auto split: option.splits)

lemma validate_definition_batch:
  assumes "hex_digest sha" "batch sha tx pre" "way_clear tx d"
  shows "validate_definition sha tx d = None"
proof -
  have "validate_target sha (tx_mission tx) d t = None" if "t \<in> set (tx_targets tx)" for t
    using batch_target [OF assms(2) that] condition_digest [OF assms(1), of "pre t"]
    by (auto simp: validate_target_def live_path_batch [OF assms(2,3) that])
  moreover have "tx_targets tx \<noteq> []" "length (tx_targets tx) = length install_order"
    using assms(2) by (auto simp: batch_def install_order_def dest: arg_cong [where f = length])
  moreover have "distinct (map tg_path (tx_targets tx))" "map tg_kind (tx_targets tx) = install_order"
    "distinct install_order" "tx_mission tx \<noteq> []" "CHR ''/'' \<notin> set (tx_mission tx)" "tx_id tx \<noteq> []" "CHR ''/'' \<notin> set (tx_id tx)"
    using assms(2) by (simp_all add: batch_def install_order_def)
  ultimately show ?thesis
    by (simp add: validate_definition_def Let_def first_error_None)
qed

section \<open>Preparing and committing\<close>

text \<open>Interrupted before the commit: nothing live has changed.\<close>

definition preparing :: "transaction \<Rightarrow> (string list, node) dict \<Rightarrow> disk \<Rightarrow> bool" where
  "preparing tx L d \<longleftrightarrow> live d = L \<and>
     ((\<exists>ys zs. tx_targets tx = ys @ zs \<and> one_journal tx (stage tx 1 (staged ys)) d)
      \<or> one_journal tx (stage tx 2 (staged (tx_targets tx))) d)"

lemma preparing_images: "tx_targets tx = ys @ zs \<Longrightarrow> one_journal tx (stage tx 1 (staged ys)) d \<and> live d = L \<Longrightarrow> preparing tx L d"
  by (auto simp: preparing_def)

lemma staged_append [simp]: "staged (ys @ zs) = staged ys @ staged zs"
  by (simp add: staged_def)

lemma staged_Nil [simp]: "staged [] = []"
  by (simp add: staged_def)

lemma staged_keys: "fst ` set (staged ts) \<subseteq> tg_kind ` set ts"
  by (auto simp: staged_def split: option.splits)

lemma stage_image_spec:
  assumes "batch sha tx pre" "tx_targets tx = ys @ t # zs"
  shows "triple (\<lambda>d. one_journal tx (stage tx 1 (staged ys)) d \<and> live d = L) (stage_image fault tx t)
    (\<lambda>_ d. one_journal tx (stage tx 1 (staged (ys @ [t]))) d \<and> live d = L) (fault_in fault (preparing tx L))"
proof (cases "tg_bytes t")
  case None
  then show ?thesis by (auto simp: stage_image_def staged_def intro: triple_ret)
next
  case (Some b)
  have new: "tg_kind t \<notin> fst ` set (staged ys)"
    using batch_kinds [OF assms(1)] assms(2) staged_keys [of ys] by auto
  then have new': "tg_kind t \<notin> set (dict_keys (staged ys))" by simp
  have st: "staged (ys @ [t]) = dict_put (tg_kind t) (Reg private_dir b) (staged ys)"
    unfolding dict_put_new [OF new'] staged_append using Some by (simp add: staged_def)
  have after: "preparing tx L d" if "one_journal tx (stage tx 1 (staged (ys @ [t]))) d \<and> live d = L" for d
    by (rule preparing_images [of _ "ys @ [t]" zs]) (use assms(2) that in simp_all)
  have w: "triple (\<lambda>d. one_journal tx (stage tx 1 (staged ys)) d \<and> live d = L) (write_image tx (tg_kind t) b)
    (\<lambda>_ d. one_journal tx (stage tx 1 (staged (ys @ [t]))) d \<and> live d = L) E" for E
    unfolding write_image_def
    by (rule on_journal_spec) (use new in \<open>simp add: stage_def st map_of_eq_None_iff del: staged_append\<close>)
  show ?thesis
    unfolding stage_image_def Some option.case
    by (intro block_event, use preparing_images assms(2) in blast)
       (rule triple_block_Cons [OF w], intro block_event block_event_last; use after in blast)
qed

lemma make_tx_root_spec:
  "triple (\<lambda>d. no_journal d \<and> live d = L) (make_tx_root tx)
     (\<lambda>_ d. no_journal d \<and> live d = L \<and> mission_journals d (tx_mission tx) = Some (private_dir, [])) E"
  unfolding triple_def
proof (intro allI impI)
  fix d assume d: "no_journal d \<and> live d = L"
  define ms where "ms = (case missions d of None \<Rightarrow> [] | Some ms \<Rightarrow> ms)"
  have ms: "distinct (dict_keys ms)" "\<forall>me \<in> set ms. quiet_entry (snd me)"
    using d by (auto simp: ms_def no_journal_def split: option.splits)
  have q: "quiet_entry e" if "map_of ms m = Some e" for m e
    using ms(2) map_of_SomeD [OF that] by auto
  have nm: "map_of ms (tx_mission tx) \<noteq> Some Not_Mission"
    using q by (auto simp: quiet_entry_def)
  have js: "(case mission_journals d (tx_mission tx) of None \<Rightarrow> [] | Some (m, js) \<Rightarrow> js) = []"
    using q [of "tx_mission tx"]
    by (auto simp: mission_journals_def ms_def quiet_entry_def split: option.splits mission_entry.splits)
  let ?ms = "dict_put (tx_mission tx) (Mission_Dir (Some (private_dir, []))) ms"
  have "distinct (dict_keys ?ms)" using ms(1) by (rule distinct_update)
  moreover have "quiet_entry (snd me)" if "me \<in> set ?ms" for me
  proof -
    have "map_of ?ms (fst me) = Some (snd me)"
      using that calculation by simp
    then show ?thesis using q by (auto simp: update_conv' quiet_entry_def split: if_splits)
  qed
  ultimately have "no_journal (put_journals (tx_mission tx) (private_dir, []) d)"
    by (simp add: no_journal_def put_journals_def ms_def)
  moreover have "mission_journals (put_journals (tx_mission tx) (private_dir, []) d) (tx_mission tx) = Some (private_dir, [])"
    by (simp add: mission_journals_def put_journals_def update_conv')
  ultimately show "case make_tx_root tx d of (Inl e, t) \<Rightarrow> E e t | (Inr a, t) \<Rightarrow>
      no_journal t \<and> live t = L \<and> mission_journals t (tx_mission tx) = Some (private_dir, [])"
    using d nm by (simp add: make_tx_root_def js) (simp add: ms_def)
qed

lemma make_tx_dir_spec:
  "triple (\<lambda>d. no_journal d \<and> live d = L \<and> mission_journals d (tx_mission tx) = Some (private_dir, [])) (make_tx_dir tx)
     (\<lambda>_ d. one_journal tx \<lparr>j_mode = private_dir, j_files = [], j_images = None\<rparr> d \<and> live d = L) E"
  unfolding triple_def
proof (intro allI impI)
  fix d assume d: "no_journal d \<and> live d = L \<and> mission_journals d (tx_mission tx) = Some (private_dir, [])"
  then obtain ms where ms: "missions d = Some ms" "distinct (dict_keys ms)" "\<forall>me \<in> set ms. quiet_entry (snd me)"
    by (auto simp: mission_journals_def no_journal_def split: option.splits)
  let ?j = "\<lparr>j_mode = private_dir, j_files = [], j_images = None\<rparr>"
  let ?ms = "dict_put (tx_mission tx) (Mission_Dir (Some (private_dir, [(tx_id tx, Journal_Dir ?j)]))) ms"
  have dk: "distinct (dict_keys ?ms)" using ms(2) by (rule distinct_update)
  have "quiet_entry (snd me)" if "me \<in> set ?ms" "fst me \<noteq> tx_mission tx" for me
  proof -
    have "map_of ?ms (fst me) = Some (snd me)" using that dk by simp
    then have "(fst me, snd me) \<in> set ms" using that(2) by (auto simp: update_conv' dest: map_of_SomeD)
    then show ?thesis using ms(3) by auto
  qed
  then have "one_journal tx ?j (put_journals (tx_mission tx) (private_dir, [(tx_id tx, Journal_Dir ?j)]) d)"
    using ms dk by (simp add: one_journal_def put_journals_def update_conv')
  then show "case make_tx_dir tx d of (Inl e, t) \<Rightarrow> E e t | (Inr a, t) \<Rightarrow> one_journal tx ?j t \<and> live t = L"
    using d by (simp add: make_tx_dir_def put_journal_def)
qed

lemma write_spec:
  assumes "k < 4"
    "name = [''preconditions.json'', ''manifest.json'', ''COMMIT'', ''DONE''] ! k"
    "body = [manifest_bytes tx, manifest_bytes tx, [], []] ! k"
  shows "triple (\<lambda>d. one_journal tx (stage tx k im) d \<and> live d = L) (write_exclusive tx name body)
    (\<lambda>_ d. one_journal tx (stage tx (Suc k) im) d \<and> live d = L) E"
  unfolding write_exclusive_def
proof (rule on_journal_spec)
  have "k \<in> {0, 1, 2, 3}" using assms(1) by auto
  then show "(if map_of (j_files (stage tx k im)) name \<noteq> None then Inl Os_Error
      else Inr (stage tx k im\<lparr>j_files := dict_put name (Reg private_file body) (j_files (stage tx k im))\<rparr>)) = Inr (stage tx (Suc k) im)"
    unfolding assms(2,3) by (elim insertE) (simp_all add: stage_def)
qed

lemma images_dir_spec:
  "triple (\<lambda>d. one_journal tx \<lparr>j_mode = private_dir, j_files = [], j_images = None\<rparr> d \<and> live d = L) (make_images_dir tx)
    (\<lambda>_ d. one_journal tx (stage tx 0 []) d \<and> live d = L) E"
  unfolding make_images_dir_def by (rule on_journal_spec) (simp add: stage_def)

lemma stage_images_spec:
  assumes "batch sha tx pre"
  shows "triple (\<lambda>d. one_journal tx (stage tx 1 []) d \<and> live d = L) (for_each (tx_targets tx) (stage_image fault tx))
    (\<lambda>_ d. one_journal tx (stage tx 1 (staged (tx_targets tx))) d \<and> live d = L) (fault_in fault (preparing tx L))"
proof -
  have "triple (\<lambda>d. one_journal tx (stage tx 1 (staged [])) d \<and> live d = L) (for_each (tx_targets tx) (stage_image fault tx))
    (\<lambda>_ d. one_journal tx (stage tx 1 (staged (tx_targets tx))) d \<and> live d = L) (fault_in fault (preparing tx L))"
    by (rule triple_for_each [where I = "\<lambda>ys d. one_journal tx (stage tx 1 (staged ys)) d \<and> live d = L"])
       (rule stage_image_spec [OF assms])
  then show ?thesis by simp
qed

lemma prepare_spec:
  assumes "batch sha tx pre"
  shows "triple (\<lambda>d. no_journal d \<and> live d = L) (prepare fault tx)
    (\<lambda>_ d. one_journal tx (stage tx 2 (staged (tx_targets tx))) d \<and> live d = L) (fault_in fault (preparing tx L))"
proof -
  have p1: "preparing tx L d" if "one_journal tx (stage tx 1 (staged (tx_targets tx))) d \<and> live d = L" for d
    by (rule preparing_images [of tx "tx_targets tx" "[]"]) (use that in simp_all)
  have p2: "preparing tx L d" if "one_journal tx (stage tx 2 (staged (tx_targets tx))) d \<and> live d = L" for d
    using that by (simp add: preparing_def)
  show ?thesis
    unfolding prepare_def
    apply (rule triple_block_Cons [OF make_tx_root_spec])
    apply (rule triple_block_Cons [OF make_tx_dir_spec])
    apply (rule triple_block_Cons [OF images_dir_spec])
    apply (rule triple_block_Cons [OF write_spec [where k = 0 and L = L and im = "[]"]], simp, simp, simp)
    apply (rule triple_block_Cons, simp only: One_nat_def [symmetric], rule stage_images_spec [OF assms])
    apply (rule block_event, erule p1)+
    apply (rule triple_block_Cons [OF write_spec [where k = 1 and L = L]], simp, simp, simp)
    apply (simp only: Suc_1)
    by (intro block_event block_event_last; (erule p2 | assumption))
qed

end
