(* ===== verification/Patch_Transaction_Install.thy ===== *)
theory Patch_Transaction_Install
  imports Patch_Transaction_Proofs
begin

lemma live_determines:
  assumes "live d = live e"
  shows "way_clear tx d \<longleftrightarrow> way_clear tx e" "holds d t b \<longleftrightarrow> holds e t b" "same_elsewhere tx L d \<longleftrightarrow> same_elsewhere tx L e"
  using assms by (simp_all add: way_clear_def holds_def same_elsewhere_def split: option.split)

definition all_hold :: "transaction \<Rightarrow> (target \<Rightarrow> bytes option) \<Rightarrow> disk \<Rightarrow> bool" where
  "all_hold tx img d \<longleftrightarrow> (\<forall>t \<in> set (tx_targets tx). holds d t (img t))"

text \<open>The staged images still needed are there, and no others than the batch's.\<close>

definition images_ok :: "transaction \<Rightarrow> (string, node) dict \<Rightarrow> bool" where
  "images_ok tx im \<longleftrightarrow>
     (\<forall>kn \<in> set im. \<exists>t \<in> set (tx_targets tx). \<exists>b. tg_kind t = fst kn \<and> tg_bytes t = Some b \<and> snd kn = Reg private_dir b)"

text \<open>A target is installed, or untouched with its image staged.\<close>

definition pending :: "(target \<Rightarrow> bytes option) \<Rightarrow> (string, node) dict \<Rightarrow> disk \<Rightarrow> target \<Rightarrow> bool" where
  "pending pre im d t \<longleftrightarrow> holds d t (tg_bytes t) \<or>
     holds d t (pre t) \<and> (\<forall>b. tg_bytes t = Some b \<longrightarrow> map_of im (tg_kind t) = Some (Reg private_dir b))"

text \<open>Interrupted after the commit.\<close>

definition installing :: "transaction \<Rightarrow> (target \<Rightarrow> bytes option) \<Rightarrow> (string list, node) dict \<Rightarrow> disk \<Rightarrow> bool" where
  "installing tx pre L d \<longleftrightarrow> way_clear tx d \<and> same_elsewhere tx L d \<and>
     (\<exists>k im. k \<in> {3, 4} \<and> one_journal tx (stage tx k im) d \<and> images_ok tx im
        \<and> (\<forall>t \<in> set (tx_targets tx). pending pre im d t))"

text \<open>Everything installed and the journal gone.\<close>

definition finished :: "transaction \<Rightarrow> (string list, node) dict \<Rightarrow> disk \<Rightarrow> bool" where
  "finished tx L d \<longleftrightarrow> no_journal d \<and> way_clear tx d \<and> same_elsewhere tx L d \<and> all_hold tx tg_bytes d"

lemma staged_lookup:
  "distinct (map tg_kind ts) \<Longrightarrow> t \<in> set ts \<Longrightarrow> tg_bytes t = Some b \<Longrightarrow> map_of (staged ts) (tg_kind t) = Some (Reg private_dir b)"
proof (induction ts)
  case (Cons u ts)
  have s: "staged (u # ts) = staged [u] @ staged ts" using staged_append [of "[u]" ts] by simp
  show ?case
  proof (cases "u = t")
    case True
    then show ?thesis using Cons.prems(3) by (simp add: s map_add_Some_iff) (simp add: staged_def)
  next
    case False
    then have t: "t \<in> set ts" using Cons.prems(2) by simp
    then have "tg_kind u \<noteq> tg_kind t" using Cons.prems(1) by auto
    then have "map_of (staged [u]) (tg_kind t) = None" by (simp add: staged_def split: option.split)
    then show ?thesis using Cons t by (simp add: s map_add_def)
  qed
qed simp

lemma images_ok_staged: "images_ok tx (staged (tx_targets tx))"
  by (force simp: images_ok_def staged_def split: option.splits)

lemma committed_installing:
  assumes "batch sha tx pre" "way_clear tx d0" "all_hold tx pre d0"
    "one_journal tx (stage tx 3 (staged (tx_targets tx))) d" "live d = live d0"
  shows "installing tx pre (live d0) d"
proof -
  note ld = live_determines [OF assms(5)]
  have "pending pre (staged (tx_targets tx)) d t" if "t \<in> set (tx_targets tx)" for t
    using that assms(3) staged_lookup [OF batch_kinds [OF assms(1)] that] by (simp add: pending_def all_hold_def ld)
  moreover have "same_elsewhere tx (live d0) d" using assms(5) by (simp add: same_elsewhere_def)
  ultimately show ?thesis
    using assms(2,4) images_ok_staged by (auto simp: installing_def ld)
qed

lemma require_states_spec:
  assumes "batch sha tx pre" "\<And>d. P d \<Longrightarrow> way_clear tx d" "\<And>d. P d \<Longrightarrow> all_hold tx img d"
    "\<And>t. t \<in> set (tx_targets tx) \<Longrightarrow> wanted t = condition_of sha (img t)"
  shows "triple P (require_states sha wanted tx) (\<lambda>_. P) E"
  unfolding triple_def
proof (intro allI impI)
  fix d assume d: "P d"
  have "state_of sha t d = Inr (wanted t)" if "t \<in> set (tx_targets tx)" for t
    using state_of_batch [OF assms(1) assms(2) [OF d] that] assms(3) [OF d] assms(4) [OF that] that
    by (simp add: all_hold_def)
  then have "first_error (\<lambda>t. case state_of sha t d of Inl e \<Rightarrow> Some e | Inr s \<Rightarrow> if s = wanted t then None else Some bad_integrity)
      (tx_targets tx) = None"
    by (simp add: first_error_None)
  then show "case require_states sha wanted tx d of (Inl e, t) \<Rightarrow> E e t | (Inr a, t) \<Rightarrow> P t"
    using d by (simp add: require_states_def refuse_error_def tries_def)
qed

lemma commit_spec:
  assumes "batch sha tx pre" "way_clear tx d0" "all_hold tx pre d0" "L = live d0"
  shows "triple (\<lambda>d. one_journal tx (stage tx 2 (staged (tx_targets tx))) d \<and> live d = L) (commit fault tx)
    (\<lambda>_. installing tx pre L) (fault_in fault (\<lambda>d. preparing tx L d \<or> installing tx pre L d))"
proof -
  have p2: "preparing tx L d \<or> installing tx pre L d" if "one_journal tx (stage tx 2 (staged (tx_targets tx))) d \<and> live d = L" for d
    using that by (simp add: preparing_def)
  have p3: "installing tx pre L d" if "one_journal tx (stage tx 3 (staged (tx_targets tx))) d \<and> live d = L" for d
    using committed_installing [OF assms(1-3)] that assms(4) by simp
  have w: "triple (\<lambda>d. one_journal tx (stage tx 2 (staged (tx_targets tx))) d \<and> live d = L) (write_exclusive tx ''COMMIT'' [])
     (\<lambda>_. installing tx pre L) E" for E
    by (rule triple_conseq [OF write_spec [where k = 2 and L = L]]) (use p3 in \<open>auto simp: numeral_3_eq_3\<close>)
  show ?thesis
    unfolding commit_def
    apply (rule block_event, erule p2)
    apply (rule triple_block_Cons [OF w])
    by (intro block_event block_event_last; simp)
qed

section \<open>Installing\<close>

lemma stage_simps [simp]: "j_mode (stage tx k im) = private_dir" "j_images (stage tx k im) = Some (private_dir, im)"
  by (simp_all add: stage_def)

lemma stage_files:
  assumes "k \<in> {2, 3, 4}"
  shows "file_is (stage tx k im) ''manifest.json'' (manifest_bytes tx)"
    "file_is (stage tx k im) ''preconditions.json'' (manifest_bytes tx)"
    "has_file (stage tx k im) ''COMMIT'' \<longleftrightarrow> k \<noteq> 2"
    "has_file (stage tx k im) ''COMMIT'' \<longrightarrow> file_is (stage tx k im) ''COMMIT'' []"
    "has_file (stage tx k im) ''DONE'' \<longrightarrow> k \<noteq> 2 \<and> file_is (stage tx k im) ''DONE'' []"
    "fst ` set (j_files (stage tx k im)) \<subseteq> {''preconditions.json'', ''manifest.json'', ''COMMIT'', ''DONE''}"
  using assms by (auto simp: stage_def has_file_def file_is_def)

lemma validate_staging_ok:
  assumes b: "batch sha tx pre" and k: "k \<in> {2, 3, 4}" "c \<longrightarrow> k \<noteq> 2" and j: "one_journal tx (stage tx k im) d"
    and im: "images_ok tx im" and p: "\<forall>t \<in> set (tx_targets tx). pending pre im d t" and wc: "way_clear tx d"
  shows "validate_staging sha c tx d = None"
proof -
  have keys: "set (dict_keys im) \<subseteq> set (map tg_kind (filter (\<lambda>t. tg_bytes t \<noteq> None) (tx_targets tx)))"
    using im by (fastforce simp: images_ok_def)
  have "image_error sha d im t = None" if t: "t \<in> set (tx_targets tx)" for t
  proof (cases "tg_bytes t")
    case None
    have "tg_kind t \<notin> fst ` set im"
    proof
      assume "tg_kind t \<in> fst ` set im"
      then obtain u b where "u \<in> set (tx_targets tx)" "tg_kind u = tg_kind t" "tg_bytes u = Some b"
        using im by (fastforce simp: images_ok_def)
      then show False using None batch_kind_eq [OF b t, of u] by simp
    qed
    then show ?thesis using None by (simp add: image_error_def map_of_eq_None_iff)
  next
    case (Some x)
    have "pending pre im d t" using p t by blast
    then consider "holds d t (tg_bytes t)" | "holds d t (pre t)" "map_of im (tg_kind t) = Some (Reg private_dir x)"
      using Some by (auto simp: pending_def)
    then show ?thesis
    proof cases
      case 1
      then show ?thesis
        using Some state_of_batch [OF b wc t 1] batch_target(4) [OF b t] by (simp add: image_error_def)
    next
      case 2
      then show ?thesis using Some state_of_batch [OF b wc t 2(1)] by (simp add: image_error_def)
    qed
  qed
  then have "first_error (image_error sha d im) (tx_targets tx) = None" by (simp add: first_error_None)
  then show ?thesis
    using keys k(2) one_journal_at [OF j] stage_files [OF k(1), of tx im]
    by (cases "k = 2") (simp_all add: validate_staging_def)
qed

lemma validate_staging_installing:
  assumes "batch sha tx pre" "installing tx pre L d"
  shows "validate_staging sha c tx d = None"
proof -
  obtain k im where k: "k \<in> {3, 4}" and j: "one_journal tx (stage tx k im) d" and im: "images_ok tx im"
    and p: "\<forall>t \<in> set (tx_targets tx). pending pre im d t" and wc: "way_clear tx d"
    using assms(2) by (auto simp: installing_def)
  show ?thesis by (rule validate_staging_ok [OF assms(1) _ _ j im p wc]) (use k in auto)
qed

lemma holds_other:
  assumes "map_of (live e) (parts t) = map_of (live d) (parts t)"
  shows "holds e t b = holds d t b"
  using assms by (simp add: holds_def split: option.split)

lemma ancestors_mem: "a \<in> set (ancestors ps) \<longleftrightarrow> (\<exists>i. 0 < i \<and> i < length ps \<and> a = take i ps)"
  by (simp add: ancestors_def image_iff Bex_def Suc_le_eq conj_assoc)

lemma ancestors_take: "0 < i \<Longrightarrow> i < k \<Longrightarrow> k \<le> length ps \<Longrightarrow> take i ps \<in> set (ancestors (take k ps))"
  unfolding ancestors_mem by (rule exI [of _ i]) (simp add: min_def)

lemma ancestors_trans: "a \<in> set (ancestors p) \<Longrightarrow> p \<in> set (ancestors q) \<Longrightarrow> a \<in> set (ancestors q)"
proof -
  assume "a \<in> set (ancestors p)" "p \<in> set (ancestors q)"
  then obtain i k where "0 < i" "i < length p" "a = take i p" "k < length q" "p = take k q"
    by (auto simp: ancestors_mem)
  then have "0 < i \<and> i < length q \<and> a = take i q" by (simp add: min_def)
  then show ?thesis by (auto simp: ancestors_mem)
qed

lemma map_of_fold_put:
  "map_of (fold (\<lambda>a. dict_put a v) as L) p = (if p \<in> set as then Some v else map_of L p)"
  by (induction as arbitrary: L) (auto simp: update_conv')

text \<open>Climbing from the target, once a directory exists, all above it do.\<close>

lemma existing_ancestors:
  assumes "closed_tree L" "\<forall>a \<in> set (ancestors ps). map_of L a \<in> {None, Some Dir}"
    "a \<in> set (dropWhile (\<lambda>a. map_of L a = None) (rev (ancestors ps)))"
  shows "map_of L a = Some Dir"
proof -
  let ?P = "\<lambda>k. map_of L (take k ps) = None"
  define ks where "ks = dropWhile ?P (rev [1..<length ps])"
  have "rev (ancestors ps) = map (\<lambda>k. take k ps) (rev [1..<length ps])"
    by (simp add: ancestors_def rev_map)
  then have there: "dropWhile (\<lambda>a. map_of L a = None) (rev (ancestors ps)) = map (\<lambda>k. take k ps) ks"
    by (simp add: ks_def dropWhile_map comp_def)
  have sorted: "sorted_wrt (>) ks"
    unfolding ks_def by (rule sorted_wrt_dropWhile) (simp add: sorted_wrt_rev)
  have ks: "set ks \<subseteq> {1..<length ps}"
    unfolding ks_def by (auto dest: set_dropWhileD)
  obtain i where i: "i \<in> set ks" "a = take i ps" using assms(3) there by auto
  obtain k ks' where k: "ks = k # ks'" using i(1) by (cases ks) auto
  have "\<not> ?P k" using k unfolding ks_def dropWhile_eq_Cons_conv by blast
  moreover have kr: "0 < k" "k < length ps" using ks k by auto
  ultimately have dk: "map_of L (take k ps) = Some Dir"
    using assms(2) ancestors_mem [of "take k ps" ps] by auto
  show ?thesis
  proof (cases "i = k")
    case False
    then have "i < k" using i(1) k sorted by auto
    moreover have "0 < i" using ks i(1) by auto
    ultimately have "a \<in> set (ancestors (take k ps))"
      using kr(2) by (simp add: i(2) ancestors_take)
    then show ?thesis using assms(1) dk unfolding closed_tree_def by blast
  qed (simp add: dk i(2))
qed

lemma make_parents_spec:
  assumes "batch sha tx pre" "way_clear tx d" "t \<in> set (tx_targets tx)"
  obtains e where "make_parents (parts t) d = (Inr (), e)" "missions e = missions d" "way_clear tx e"
    "\<And>p. p \<notin> set (ancestors (parts t)) \<Longrightarrow> map_of (live e) p = map_of (live d) p"
    "\<And>a. a \<in> set (ancestors (parts t)) \<Longrightarrow> map_of (live e) a = Some Dir"
proof -
  let ?as = "rev (ancestors (parts t))" and ?N = "\<lambda>a. map_of (live d) a = None"
  define e where "e = d\<lparr>live := fold (\<lambda>a. dict_put a Dir) (rev (takeWhile ?N ?as)) (live d)\<rparr>"
  have cl: "closed_tree (live d)" "\<forall>a \<in> set (ancestors (parts t)). map_of (live d) a \<in> {None, Some Dir}"
    using assms(2,3) by (auto simp: way_clear_def)
  note there = existing_ancestors [OF cl]
  have live_e: "map_of (live e) p = (if p \<in> set (takeWhile ?N ?as) then Some Dir else map_of (live d) p)" for p
    by (simp add: e_def map_of_fold_put)
  have nb: "\<not> (\<exists>a \<in> set (dropWhile ?N ?as). map_of (live d) a \<noteq> Some Dir)"
    using there by blast
  have mk: "make_parents (parts t) d = (Inr (), e)"
    unfolding make_parents_def Let_def if_not_P [OF nb] e_def ..
  have split: "set (ancestors (parts t)) = set (takeWhile ?N ?as) \<union> set (dropWhile ?N ?as)"
    by (metis set_append set_rev takeWhile_dropWhile_id)
  have anc: "map_of (live e) a = Some Dir" if "a \<in> set (ancestors (parts t))" for a
    using that there [of a] unfolding split by (auto simp: live_e)
  have out: "map_of (live e) p = map_of (live d) p" if "p \<notin> set (ancestors (parts t))" for p
    using that unfolding split by (simp add: live_e)
  have keep: "map_of (live d) p = Some Dir \<Longrightarrow> map_of (live e) p = Some Dir" for p
    by (simp add: live_e)
  have "closed_tree (live e)"
    unfolding closed_tree_def
  proof (intro ballI)
    fix p a assume p: "p \<in> dom (map_of (live e))" and a: "a \<in> set (ancestors p)"
    show "map_of (live e) a = Some Dir"
    proof (cases "p \<in> set (ancestors (parts t))")
      case True
      then show ?thesis using anc ancestors_trans [OF a] by blast
    next
      case False
      then have "p \<in> dom (map_of (live d))" using p out by auto
      then show ?thesis using keep cl(1) a by (auto simp: closed_tree_def)
    qed
  qed
  moreover have "map_of (live e) a \<in> {None, Some Dir}" if "u \<in> set (tx_targets tx)" "a \<in> set (ancestors (parts u))" for u a
    using that assms(2) by (auto simp: way_clear_def live_e)
  ultimately have "way_clear tx e" by (simp add: way_clear_def)
  then show ?thesis using that mk anc out by (simp add: e_def)
qed

text \<open>Changing the file of one target keeps the tree in order.\<close>

lemma way_clear_leaf:
  assumes "batch sha tx pre" "way_clear tx d" "t \<in> set (tx_targets tx)"
    "map_of (live d) (parts t) \<noteq> Some Dir"
    "\<And>p. p \<noteq> parts t \<Longrightarrow> map_of (live e) p = map_of (live d) p"
    "map_of (live e) (parts t) = None \<or> (\<forall>a \<in> set (ancestors (parts t)). map_of (live d) a = Some Dir)"
  shows "way_clear tx e"
proof -
  have keep: "map_of (live d) a = Some Dir \<Longrightarrow> map_of (live e) a = Some Dir" for a
    using assms(4,5) by (cases "a = parts t") auto
  have "map_of (live e) a = Some Dir" if p: "p \<in> dom (map_of (live e))" and a: "a \<in> set (ancestors p)" for p a
  proof (cases "p = parts t")
    case True
    then show ?thesis using p a assms(6) keep by auto
  next
    case False
    then have "p \<in> dom (map_of (live d))" using p assms(5) by auto
    then show ?thesis using a keep assms(2) by (auto simp: way_clear_def closed_tree_def)
  qed
  then have "closed_tree (live e)" by (simp add: closed_tree_def)
  moreover have "map_of (live e) a \<in> {None, Some Dir}" if u: "u \<in> set (tx_targets tx)" "a \<in> set (ancestors (parts u))" for u a
  proof -
    have "a \<noteq> parts t" using batch_not_ancestor [OF assms(1,3) u(1)] u(2) by auto
    then show ?thesis using assms(2,5) u by (simp add: way_clear_def)
  qed
  ultimately show ?thesis by (simp add: way_clear_def)
qed

text \<open>Moving one image in place.\<close>

lemma move_image_spec:
  assumes b: "batch sha tx pre" and wc: "way_clear tx d" and se: "same_elsewhere tx L d"
    and j: "one_journal tx (stage tx k im) d" and k: "k \<in> {3, 4}" and im: "images_ok tx im"
    and p: "\<forall>u \<in> set (tx_targets tx). pending pre im d u"
    and t: "t \<in> set (tx_targets tx)" and np: "\<not> holds d t (tg_bytes t)"
    and dirs: "\<forall>a \<in> set (ancestors (parts t)). map_of (live d) a = Some Dir"
  obtains e where "move_image tx t (parts t) d = (Inr (), e)" "installing tx pre L e" "holds e t (tg_bytes t)"
    "\<And>u. u \<in> set (tx_targets tx) \<Longrightarrow> holds d u (tg_bytes u) \<Longrightarrow> holds e u (tg_bytes u)"
proof -
  have ht: "holds d t (pre t)" "tg_bytes t = Some x \<Longrightarrow> map_of im (tg_kind t) = Some (Reg private_dir x)" for x
    using p t np by (auto simp: pending_def)
  have nd: "map_of (live d) (parts t) \<noteq> Some Dir"
    using ht(1) by (auto simp: holds_def split: option.splits)
  define e where "e = (case tg_bytes t of
      None \<Rightarrow> d\<lparr>live := AList.delete (parts t) (live d)\<rparr>
    | Some x \<Rightarrow> (put_journal (tx_mission tx) (tx_id tx) (stage tx k (AList.delete (tg_kind t) im)) d)
        \<lparr>live := dict_put (parts t) (Reg private_dir x) (live d)\<rparr>)"
  have e_other: "map_of (live e) q = map_of (live d) q" if "q \<noteq> parts t" for q
    using that by (simp add: e_def update_conv' delete_conv' split: option.split)
  have he: "holds e t (tg_bytes t)"
    by (auto simp: e_def holds_def update_conv' delete_conv' split: option.split)
  have wce: "way_clear tx e"
    by (rule way_clear_leaf [OF b wc t nd e_other]) (use dirs in auto)
  have see: "same_elsewhere tx L e"
    using se e_other t by (auto simp: same_elsewhere_def)
  have hu: "holds e u x = holds d u x" if "u \<in> set (tx_targets tx)" "u \<noteq> t" for u x
    using e_other [of "parts u"] batch_parts_eq [OF b that(1) t] that(2) by (simp add: holds_def split: option.split)
  define im' where "im' = (if tg_bytes t = None then im else AList.delete (tg_kind t) im)"
  have je: "one_journal tx (stage tx k im') e"
  proof (cases "tg_bytes t")
    case None
    then show ?thesis using j by (simp add: one_journal_def im'_def e_def)
  next
    case (Some x)
    have "missions e = missions (put_journal (tx_mission tx) (tx_id tx) (stage tx k im') d)"
      by (simp add: e_def Some im'_def)
    then show ?thesis using put_journal_one [OF j, of "stage tx k im'"] by (simp add: one_journal_def)
  qed
  have "set im' \<subseteq> set im" by (auto simp: im'_def AList.delete_eq)
  then have ime: "images_ok tx im'" using im by (auto simp: images_ok_def)
  have pe: "pending pre im' e u" if u: "u \<in> set (tx_targets tx)" for u
  proof (cases "u = t")
    case True
    then show ?thesis using he by (simp add: pending_def)
  next
    case False
    then have "tg_kind u \<noteq> tg_kind t" using batch_kind_eq [OF b u t] by simp
    then have "map_of im' (tg_kind u) = map_of im (tg_kind u)" by (simp add: im'_def delete_conv')
    then show ?thesis using p u hu [OF u False] by (simp add: pending_def)
  qed
  have "move_image tx t (parts t) d = (Inr (), e)"
  proof (cases "tg_bytes t")
    case None
    then show ?thesis using nd by (simp add: move_image_def e_def)
  next
    case (Some x)
    have "(stage tx k im)\<lparr>j_images := Some (private_dir, AList.delete (tg_kind t) im)\<rparr> = stage tx k (AList.delete (tg_kind t) im)"
      by (simp add: stage_def)
    then show ?thesis using nd Some ht(2) [OF Some] by (simp add: move_image_def e_def one_journal_at [OF j])
  qed
  moreover have "installing tx pre L e"
    unfolding installing_def using wce see je k ime pe by blast
  moreover have "holds e u (tg_bytes u)" if "u \<in> set (tx_targets tx)" "holds d u (tg_bytes u)" for u
    using hu [OF that(1)] he that(2) by (cases "u = t") auto
  ultimately show ?thesis using that he by blast
qed

text \<open>One target of \<open>install\<close>, from any interrupted installation.\<close>

definition installed_upto ::
  "transaction \<Rightarrow> (target \<Rightarrow> bytes option) \<Rightarrow> (string list, node) dict \<Rightarrow> target list \<Rightarrow> disk \<Rightarrow> bool" where
  "installed_upto tx pre L ys d \<longleftrightarrow> installing tx pre L d \<and> (\<forall>u \<in> set ys. holds d u (tg_bytes u))"

lemma install_target_spec:
  assumes b: "batch sha tx pre" and t: "t \<in> set (tx_targets tx)" and ys: "set ys \<subseteq> set (tx_targets tx)"
  shows "triple (installed_upto tx pre L ys) (install_target sha fault tx t)
    (\<lambda>_. installed_upto tx pre L (ys @ [t])) (fault_in fault (installing tx pre L))"
proof (rule triple_state)
  fix d assume I: "installed_upto tx pre L ys d"
  obtain k im where wc: "way_clear tx d" and se: "same_elsewhere tx L d" and k: "k \<in> {3, 4}"
    and j: "one_journal tx (stage tx k im) d" and im: "images_ok tx im"
    and p: "\<forall>u \<in> set (tx_targets tx). pending pre im d u"
    using I by (auto simp: installed_upto_def installing_def)
  show "triple (\<lambda>s. s = d) (install_target sha fault tx t) (\<lambda>_. installed_upto tx pre L (ys @ [t])) (fault_in fault (installing tx pre L))"
  proof (cases "holds d t (tg_bytes t)")
    case True
    have "state_of sha t d = Inr (tg_post t)"
      using state_of_batch [OF b wc t True] batch_target(4) [OF b t] by simp
    then show ?thesis
      using I True by (simp add: triple_def install_target_def andthen_def tries_def ret_def installed_upto_def)
  next
    case False
    have ht: "holds d t (pre t)" using p t False by (auto simp: pending_def)
    then have neq: "tg_pre t \<noteq> tg_post t"
      using batch_target(3-5) [OF b t] False by metis
    have st: "state_of sha t d = Inr (tg_pre t)"
      using state_of_batch [OF b wc t ht] batch_target(3) [OF b t] by simp
    obtain e where mk: "make_parents (parts t) d = (Inr (), e)" and me: "missions e = missions d" and wce: "way_clear tx e"
      and oth: "\<And>q. q \<notin> set (ancestors (parts t)) \<Longrightarrow> map_of (live e) q = map_of (live d) q"
      and dirs: "\<And>a. a \<in> set (ancestors (parts t)) \<Longrightarrow> map_of (live e) a = Some Dir"
      by (rule make_parents_spec [OF b wc t], rule that)
    have hd: "holds e u x = holds d u x" if "u \<in> set (tx_targets tx)" for u x
      using oth [OF batch_not_ancestor [OF b that t]] by (simp add: holds_def split: option.split)
    have pe: "\<forall>u \<in> set (tx_targets tx). pending pre im e u"
      using p hd by (simp add: pending_def)
    have je: "one_journal tx (stage tx k im) e" using j me by (simp add: one_journal_def)
    have see: "same_elsewhere tx L e" using se oth t by (auto simp: same_elsewhere_def)
    have ie: "installing tx pre L e"
      unfolding installing_def using wce see je k im pe by blast
    have npe: "\<not> holds e t (tg_bytes t)" using False hd [OF t] by simp
    obtain f where mv: "move_image tx t (parts t) e = (Inr (), f)" and fi: "installing tx pre L f" "holds f t (tg_bytes t)"
      "\<And>u. u \<in> set (tx_targets tx) \<Longrightarrow> holds e u (tg_bytes u) \<Longrightarrow> holds f u (tg_bytes u)"
      using move_image_spec [OF b wce see je k im pe t npe] dirs by blast
    have If: "installed_upto tx pre L (ys @ [t]) f"
      using I fi ys hd by (auto simp: installed_upto_def)
    have "triple (\<lambda>s. s = d) (block
      [make_parents (parts t),
       event fault (labelled ''before_target_install'' (tg_kind t)),
       move_image tx t (parts t),
       event fault (labelled ''after_target_install'' (tg_kind t)),
       event fault (labelled ''before_target_directory_fsync'' (tg_kind t)),
       event fault (labelled ''after_target_directory_fsync'' (tg_kind t))])
      (\<lambda>_. installed_upto tx pre L (ys @ [t])) (fault_in fault (installing tx pre L))"
      apply (rule triple_block_Cons [where R = "\<lambda>s. s = e"], simp add: triple_def mk)
      apply (rule block_event, simp add: ie)
      apply (rule triple_block_Cons [where R = "\<lambda>s. s = f"], simp add: triple_def mv)
      by (intro block_event block_event_last; simp add: If fi(1))
    then show ?thesis
      using neq by (simp add: triple_def install_target_def andthen_def tries_def st live_path_batch [OF b wc t])
  qed
qed

lemma install_spec:
  assumes "batch sha tx pre"
  shows "triple (installing tx pre L) (install sha fault tx)
    (\<lambda>_ d. installing tx pre L d \<and> all_hold tx tg_bytes d) (fault_in fault (installing tx pre L))"
proof -
  have "triple (installed_upto tx pre L []) (for_each (tx_targets tx) (install_target sha fault tx))
      (\<lambda>_. installed_upto tx pre L (tx_targets tx)) (fault_in fault (installing tx pre L))"
    by (rule triple_for_each) (rule install_target_spec [OF assms], auto)
  then have loop: "triple (installing tx pre L) (for_each (tx_targets tx) (install_target sha fault tx))
      (\<lambda>_ d. installing tx pre L d \<and> all_hold tx tg_bytes d) (fault_in fault (installing tx pre L))"
    by (simp add: installed_upto_def [abs_def] all_hold_def)
  have "triple (installing tx pre L) (refuse_error (validate_staging sha True tx)) (\<lambda>_. installing tx pre L)
      (fault_in fault (installing tx pre L))"
    using validate_staging_installing [OF assms] by (simp add: triple_def refuse_error_def tries_def)
  then show ?thesis unfolding install_def by (rule triple_andthen) (rule loop)
qed

section \<open>Finishing\<close>

lemma remove_installing:
  assumes "installing tx pre L d" "all_hold tx tg_bytes d"
  shows "finished tx L (remove_journal (tx_mission tx) (tx_id tx) d)"
proof -
  have l: "live (remove_journal (tx_mission tx) (tx_id tx) d) = live d" by simp
  obtain k im where j: "one_journal tx (stage tx k im) d" and d: "way_clear tx d" "same_elsewhere tx L d"
    using assms(1) by (auto simp: installing_def)
  show ?thesis
    using assms(2) d remove_journal_one [OF j]
    unfolding finished_def all_hold_def live_determines [OF l] by blast
qed

lemma installing_stage:
  assumes "way_clear tx d" "same_elsewhere tx L d" "all_hold tx tg_bytes d" "images_ok tx im" "one_journal tx (stage tx k im) d" "k \<in> {3, 4}"
  shows "installing tx pre L d"
  using assms by (auto simp: installing_def pending_def all_hold_def)

lemma finish_spec:
  assumes b: "batch sha tx pre"
  shows "triple (\<lambda>d. installing tx pre L d \<and> all_hold tx tg_bytes d) (finish sha fault tx)
    (\<lambda>_. finished tx L) (fault_in fault (\<lambda>d. installing tx pre L d \<or> finished tx L d))"
proof -
  let ?I = "\<lambda>d. installing tx pre L d \<and> all_hold tx tg_bytes d"
  let ?E = "fault_in fault (\<lambda>d. installing tx pre L d \<or> finished tx L d)"
  have mkdone: "triple (\<lambda>s. s = d) (write_exclusive tx ''DONE'' []) (\<lambda>_. ?I) ?E"
    if d: "?I d" and nd: "journal_at d (tx_mission tx) (tx_id tx) = Some j" "\<not> has_file j ''DONE''" for d j
  proof -
    obtain k im where wc: "way_clear tx d" and se: "same_elsewhere tx L d" and k: "k \<in> {3, 4}"
      and j: "one_journal tx (stage tx k im) d" and im: "images_ok tx im"
      using d by (auto simp: installing_def)
    have "k = 3" using nd one_journal_at [OF j] k by (auto simp: stage_def has_file_def)
    have "triple (\<lambda>e. one_journal tx (stage tx 3 im) e \<and> live e = live d) (write_exclusive tx ''DONE'' [])
        (\<lambda>_ e. one_journal tx (stage tx (Suc 3) im) e \<and> live e = live d) ?E"
      by (rule write_spec) simp_all
    then show ?thesis
    proof (rule triple_conseq)
      show "one_journal tx (stage tx 3 im) s \<and> live s = live d" if "s = d" for s
        using that j \<open>k = 3\<close> by simp
      show "?I s" if "one_journal tx (stage tx (Suc 3) im) s \<and> live s = live d" for s
        using that d wc se im installing_stage [of tx s L im 4 pre]
        by (auto simp: live_determines [of s d] all_hold_def)
    qed
  qed
  have mark: "triple ?I (andthen (reads (\<lambda>d. case journal_at d (tx_mission tx) (tx_id tx) of
                           None \<Rightarrow> False | Some j \<Rightarrow> has_file j ''DONE''))
       (\<lambda>done_exists. if done_exists then ret () else block
         [event fault ''before_done_create'',
          write_exclusive tx ''DONE'' [],
          event fault ''after_done_create'',
          event fault ''before_done_fsync'',
          event fault ''after_done_fsync'',
          event fault ''before_done_directory_fsync'',
          event fault ''after_done_directory_fsync''])) (\<lambda>_. ?I) ?E"
  proof (rule triple_state)
    fix d assume d: "?I d"
    then obtain k im where "one_journal tx (stage tx k im) d" by (auto simp: installing_def)
    then have j: "journal_at d (tx_mission tx) (tx_id tx) = Some (stage tx k im)" by (rule one_journal_at)
    have "triple (\<lambda>s. s = d) (block
         [event fault ''before_done_create'',
          write_exclusive tx ''DONE'' [],
          event fault ''after_done_create'',
          event fault ''before_done_fsync'',
          event fault ''after_done_fsync'',
          event fault ''before_done_directory_fsync'',
          event fault ''after_done_directory_fsync'']) (\<lambda>_. ?I) ?E" if "\<not> has_file (stage tx k im) ''DONE''"
      apply (rule block_event, simp add: d)
      apply (rule triple_block_Cons [OF mkdone [OF d j that]])
      by (intro block_event block_event_last; simp)
    then show "triple (\<lambda>s. s = d) (andthen (reads (\<lambda>d. case journal_at d (tx_mission tx) (tx_id tx) of
                           None \<Rightarrow> False | Some j \<Rightarrow> has_file j ''DONE''))
       (\<lambda>done_exists. if done_exists then ret () else block
         [event fault ''before_done_create'',
          write_exclusive tx ''DONE'' [],
          event fault ''after_done_create'',
          event fault ''before_done_fsync'',
          event fault ''after_done_fsync'',
          event fault ''before_done_directory_fsync'',
          event fault ''after_done_directory_fsync''])) (\<lambda>_. ?I) ?E"
      using d j by (simp add: triple_def andthen_def reads_def ret_def)
  qed
  have clean: "triple ?I (cleanup tx) (\<lambda>_. finished tx L) ?E"
    unfolding triple_def
  proof (intro allI impI)
    fix d assume d: "?I d"
    then obtain k im where "one_journal tx (stage tx k im) d" by (auto simp: installing_def)
    then have "journal_at d (tx_mission tx) (tx_id tx) = Some (stage tx k im)" by (rule one_journal_at)
    then show "case cleanup tx d of (Inl e, t) \<Rightarrow> ?E e t | (Inr a, t) \<Rightarrow> finished tx L t"
      using remove_installing [of tx pre L d] d by (simp add: cleanup_def)
  qed
  have states: "triple ?I (require_states sha tg_post tx) (\<lambda>_. ?I) ?E"
    by (rule require_states_spec [OF b]) (auto simp: installing_def batch_target [OF b])
  show ?thesis
    unfolding finish_def
    apply (rule triple_block_Cons [OF states])
    apply (rule triple_block_Cons [OF mark])
    apply (rule block_event, simp)
    apply (rule triple_block_Cons [OF clean])
    by (rule block_event_last; simp)
qed

end
