(* ===== verification/Patch_Transaction_Recovery.thy ===== *)
theory Patch_Transaction_Recovery
  imports Patch_Transaction_Install
begin

text \<open>Recovery reads the journal back and ends every interrupted batch in one of its two states.\<close>

section \<open>The manifest reads back\<close>

lemma payload_sorted:
  "sort_keys (JObj (manifest_payload tx)) = JObj (manifest_payload tx)"
proof -
  have row: "sort_keys (manifest_row t) = manifest_row t" for t
  proof -
    have "sorted [''kind'', ''path'', ''post'', ''pre'']" by code_simp
    then show ?thesis by (simp add: manifest_row_def sort_key_id_if_sorted)
  qed
  have "sorted [''mission_id'', ''schema'', ''targets'', ''transaction_id'']" by code_simp
  then show ?thesis by (simp add: manifest_payload_def sort_key_id_if_sorted row comp_def)
qed

lemma payload_ok: "json_ok (JObj (manifest_payload tx))"
  by (simp add: manifest_payload_def manifest_row_def)

lemma load_manifest_bytes: "load_manifest (Some (Reg private_file (manifest_bytes tx))) = Inr (manifest_payload tx)"
proof -
  have l: "loads (manifest_bytes tx) = Some (JObj (manifest_payload tx))"
    using loads_canonical_text [OF payload_ok [of tx]] by (simp only: manifest_bytes_def payload_sorted)
  have k: "set (dict_keys (manifest_payload tx)) = {''schema'', ''transaction_id'', ''mission_id'', ''targets''}"
    by (auto simp: manifest_payload_def)
  have m: "map_of (manifest_payload tx) ''schema'' = Some (JStr tx_schema)"
    "map_of (manifest_payload tx) ''targets'' = Some (JList (map manifest_row (tx_targets tx)))"
    by (simp_all add: manifest_payload_def)
  show ?thesis
    unfolding load_manifest_def node.case option.case l json.case k m by (simp add: manifest_bytes_def)
qed

lemma payload_fields:
  "payload_rows (manifest_payload tx) = map manifest_row (tx_targets tx)"
  "map_of (manifest_payload tx) ''mission_id'' = Some (JStr (tx_mission tx))"
  "map_of (manifest_payload tx) ''transaction_id'' = Some (JStr (tx_id tx))"
  by (simp_all add: payload_rows_def manifest_payload_def)

lemma row_fields_row [simp]: "row_fields (manifest_row t) = Some (tg_kind t, tg_path t, tg_pre t, tg_post t)"
proof -
  have "{''kind'', ''path'', ''post'', ''pre''} = {''kind'', ''path'', ''pre'', ''post''}" by auto
  then show ?thesis by (simp add: row_fields_def manifest_row_def)
qed

lemma condition_absent [simp]: "condition_of sha b = absent \<longleftrightarrow> b = None"
  by (cases b) (simp_all add: condition_of_def absent_def)

text \<open>Every target is rebuilt from its row, its staged image or its live file.\<close>

lemma target_of_row_batch:
  assumes b: "batch sha tx pre" and t: "t \<in> set (tx_targets tx)" and im: "images_ok tx im"
    and p: "pending pre im d t"
  shows "target_of_row sha d (stage tx k im) (manifest_row t) = Some t"
proof (cases "tg_bytes t")
  case None
  then have "tg_post t = absent" using batch_target(4) [OF b t] by simp
  then show ?thesis using None by (simp add: target_of_row_def)
next
  case (Some x)
  have post: "tg_post t = condition_of sha (Some x)" using batch_target(4) [OF b t] Some by simp
  have "row_image sha d (stage tx k im) (tg_kind t) (tg_path t) (tg_post t) = Some x"
  proof (cases "map_of im (tg_kind t)")
    case None
    then have "holds d t (tg_bytes t)" using p Some by (auto simp: pending_def)
    then show ?thesis using None Some post by (auto simp: row_image_def holds_def)
  next
    case (Some n)
    then obtain u y where u: "u \<in> set (tx_targets tx)" "tg_kind u = tg_kind t" "tg_bytes u = Some y" "n = Reg private_dir y"
      using im by (force simp: images_ok_def dest: map_of_SomeD)
    then have "u = t" using batch_kind_eq [OF b u(1) t] by simp
    then show ?thesis using u \<open>tg_bytes t = Some x\<close> Some by (simp add: row_image_def)
  qed
  then show ?thesis using Some post by (simp add: target_of_row_def)
qed

lemma all_some_map: "\<forall>x \<in> set xs. f (g x) = Some x \<Longrightarrow> all_some f (map g xs) = Some xs"
  by (induction xs) auto

lemma targets_from_manifest_batch:
  assumes "batch sha tx pre" "images_ok tx im" "\<forall>t \<in> set (tx_targets tx). pending pre im d t"
  shows "targets_from_manifest sha d (stage tx k im) (payload_rows (manifest_payload tx)) = Some (tx_targets tx)"
proof -
  have "all_some (target_of_row sha d (stage tx k im)) (map manifest_row (tx_targets tx)) = Some (tx_targets tx)"
    by (rule all_some_map) (use target_of_row_batch [OF assms(1) _ assms(2)] assms(3) in blast)
  then show ?thesis using assms(1) by (simp add: targets_from_manifest_def payload_fields batch_def)
qed

section \<open>Discarding an incomplete journal\<close>

lemma live_state_batch:
  assumes "batch sha tx pre" "way_clear tx d" "t \<in> set (tx_targets tx)" "holds d t x"
  shows "live_state sha d (tg_path t) = Inr (condition_of sha x)"
proof -
  have w: "walk_ok (live d) (ancestors (parts t))"
    by (rule walk_clear) (use assms(2,3) in \<open>simp add: way_clear_def\<close>)
  have "x = None" if "a \<in> set (ancestors (parts t))" "map_of (live d) a = None" for a
    using that assms(2,4) by (cases x) (auto simp: way_clear_def closed_tree_def holds_def dom_def)
  then show ?thesis
    using w batch_target(1) [OF assms(1,3)] assms(4)
    by (auto simp: live_state_def Let_def holds_def condition_of_def split: option.splits)
qed

lemma discardable_rows_batch:
  assumes "hex_digest sha" "batch sha tx pre" "way_clear tx d" "all_hold tx pre d"
  shows "set ts \<subseteq> set (tx_targets tx) \<Longrightarrow> distinct (map tg_path ts) \<Longrightarrow> set seen \<inter> tg_path ` set ts = {} \<Longrightarrow>
    discardable_rows sha d (tx_mission tx) seen (map tg_kind ts) (map manifest_row ts)"
proof (induction ts arbitrary: seen)
  case (Cons t ts)
  have t: "t \<in> set (tx_targets tx)" using Cons.prems by simp
  have "live_state sha d (tg_path t) = Inr (tg_pre t)"
    using live_state_batch [OF assms(2,3) t] assms(4) t batch_target(3) [OF assms(2) t] by (simp add: all_hold_def)
  moreover have "discardable_rows sha d (tx_mission tx) (tg_path t # seen) (map tg_kind ts) (map manifest_row ts)"
    using Cons by auto
  moreover have "tg_path t \<notin> set seen" using Cons.prems by auto
  moreover have "tg_pre t = absent \<or> is_digest (tg_pre t)" "tg_post t = absent \<or> is_digest (tg_post t)"
    using batch_target(3,4) [OF assms(2) t] condition_digest [OF assms(1)] by metis+
  ultimately show ?case
    using batch_target(2) [OF assms(2) t] by simp
qed simp

lemma find_row:
  "distinct (map tg_kind ts) \<Longrightarrow> t \<in> set ts \<Longrightarrow>
   find (\<lambda>row. case row_fields row of None \<Rightarrow> False | Some (k, p, a, b) \<Rightarrow> k = tg_kind t) (map manifest_row ts) = Some (manifest_row t)"
  by (induction ts) auto

lemma staged_images_ok:
  assumes "batch sha tx pre" "tx_targets tx = ys @ zs"
  shows "list_all (staged_image_ok sha (map manifest_row (tx_targets tx))) (staged ys)"
  unfolding list_all_iff
proof
  fix e assume "e \<in> set (staged ys)"
  then obtain t x where t: "t \<in> set ys" "tg_bytes t = Some x" "e = (tg_kind t, Reg private_dir x)"
    by (auto simp: staged_def split: option.splits)
  then have "t \<in> set (tx_targets tx)" using assms(2) by simp
  then show "staged_image_ok sha (map manifest_row (tx_targets tx)) e"
    unfolding staged_image_ok_def t(3) fst_conv snd_conv
    using find_row [OF batch_kinds [OF assms(1)]] batch_target(4) [OF assms(1)] t(2) by simp
qed

lemma discard_spec:
  assumes h: "hex_digest sha" and b: "batch sha tx pre" and wc: "way_clear tx d" and ah: "all_hold tx pre d"
    and t: "tx_targets tx = ys @ zs"
  shows "discardable sha d (tx_mission tx) (tx_id tx) (stage tx 1 (staged ys))"
proof -
  have "discardable_rows sha d (tx_mission tx) [] install_order (map manifest_row (tx_targets tx))"
    using discardable_rows_batch [OF h b wc ah, of "tx_targets tx" "[]"] b by (simp add: batch_def)
  moreover have "map_of (j_files (stage tx 1 (staged ys))) ''preconditions.json'' = Some (Reg private_file (manifest_bytes tx))"
    by (simp add: stage_def)
  moreover have "\<not> has_file (stage tx 1 (staged ys)) ''COMMIT''" "\<not> has_file (stage tx 1 (staged ys)) ''DONE''"
    "fst ` set (j_files (stage tx 1 (staged ys))) \<subseteq> {''preconditions.json''}"
    by (simp_all add: stage_def has_file_def)
  ultimately show ?thesis
    using staged_images_ok [OF b t] by (simp add: discardable_def load_manifest_bytes payload_fields)
qed

section \<open>Scanning\<close>

lemma scan_quiet:
  "\<forall>me \<in> set es. quiet_entry (snd me) \<Longrightarrow> scan_missions sha es d = (Inr [], d)"
proof (induction es)
  case (Cons me es)
  obtain m e where me: "me = (m, e)" by force
  show ?case
    using Cons by (auto simp: me quiet_entry_def andthen_def ret_def)
qed (simp add: ret_def)

lemma scan_one:
  assumes "\<forall>me \<in> set (as @ bs). quiet_entry (snd me)"
  shows "scan_missions sha (as @ (m, Mission_Dir (Some (private_dir, js))) # bs) d = scan_journals sha m (sort_key fst js) d"
  using assms
proof (induction as)
  case Nil
  then have "scan_missions sha bs e = (Inr [], e)" for e by (intro scan_quiet) auto
  then show ?case by (auto simp: andthen_def ret_def split: prod.splits sum.splits)
next
  case (Cons me as)
  obtain m e where me: "me = (m, e)" by force
  have "scan_journals sha m (sort_key fst []) d = (Inr [], d)" by (simp add: ret_def)
  then show ?case using Cons
    by (auto simp: me quiet_entry_def andthen_def ret_def split: prod.splits sum.splits)
qed

lemma scan_journal:
  assumes "one_journal tx j d"
  obtains ms where "missions d = Some ms"
    "scan_missions sha (sort_key fst ms) e = scan_journals sha (tx_mission tx) [(tx_id tx, Journal_Dir j)] e"
proof -
  obtain ms where ms: "missions d = Some ms" "distinct (dict_keys ms)"
    "map_of ms (tx_mission tx) = Some (Mission_Dir (Some (private_dir, [(tx_id tx, Journal_Dir j)])))"
    "\<forall>me \<in> set ms. fst me \<noteq> tx_mission tx \<longrightarrow> quiet_entry (snd me)"
    using assms by (auto simp: one_journal_def)
  let ?e = "(tx_mission tx, Mission_Dir (Some (private_dir, [(tx_id tx, Journal_Dir j)])))"
  have "?e \<in> set (sort_key fst ms)" using ms(3) by (auto dest: map_of_SomeD)
  then obtain as bs where s: "sort_key fst ms = as @ ?e # bs" by (meson split_list)
  have "distinct (map fst (sort_key fst ms))" using ms(2) by (simp add: map_fst_sort_key)
  then have "\<forall>me \<in> set (as @ bs). fst me \<noteq> tx_mission tx" unfolding s by (simp add: image_iff) auto
  moreover have "set (as @ ?e # bs) = set ms" unfolding s [symmetric] by simp
  then have "set (as @ bs) \<subseteq> set ms" by auto
  ultimately have "\<forall>me \<in> set (as @ bs). quiet_entry (snd me)" using ms(4) by blast
  from scan_one [OF this, of sha "tx_mission tx"] show ?thesis
    using that ms(1) by (simp add: s)
qed

lemma recover_all_quiet:
  assumes "no_journal d" shows "recover_all sha fault d = (Inr (), d)"
proof (cases "missions d")
  case (Some ms)
  then have "scan_missions sha (sort_key fst ms) d = (Inr [], d)"
    by (intro scan_quiet) (use assms in \<open>simp add: no_journal_def\<close>)
  then show ?thesis using Some by (simp add: recover_all_def andthen_def ret_def)
qed (simp add: recover_all_def)

lemma recover_all_discard:
  assumes "hex_digest sha" "batch sha tx pre" "way_clear tx d" "all_hold tx pre d"
    "tx_targets tx = ys @ zs" "one_journal tx (stage tx 1 (staged ys)) d"
  shows "recover_all sha fault d = (Inr (), remove_journal (tx_mission tx) (tx_id tx) d)"
proof -
  obtain ms where ms: "missions d = Some ms"
    "scan_missions sha (sort_key fst ms) d = scan_journals sha (tx_mission tx) [(tx_id tx, Journal_Dir (stage tx 1 (staged ys)))] d"
    by (rule scan_journal [OF assms(6)])
  have "\<not> has_file (stage tx 1 (staged ys)) ''manifest.json''" by (simp add: stage_def has_file_def)
  then show ?thesis
    using discard_spec [OF assms(1-5)] ms
    by (simp add: recover_all_def discard_incomplete_def andthen_def ret_def)
qed

lemma recover_all_pending:
  assumes h: "hex_digest sha" and b: "batch sha tx pre" and wc: "way_clear tx d" and k: "k \<in> {2, 3, 4}"
    and j: "one_journal tx (stage tx k im) d" and im: "images_ok tx im" and p: "\<forall>t \<in> set (tx_targets tx). pending pre im d t"
  shows "recover_all sha fault d = recover sha fault tx d"
proof -
  obtain ms where ms: "missions d = Some ms"
    "scan_missions sha (sort_key fst ms) d = scan_journals sha (tx_mission tx) [(tx_id tx, Journal_Dir (stage tx k im))] d"
    by (rule scan_journal [OF j])
  have hf: "has_file (stage tx k im) ''manifest.json''"
    "map_of (j_files (stage tx k im)) ''manifest.json'' = Some (Reg private_file (manifest_bytes tx))"
    using stage_files(1) [OF k, of tx im] by (simp_all add: file_is_def has_file_def)
  let ?p = "(tx_mission tx, tx_id tx, manifest_payload tx, has_file (stage tx k im) ''COMMIT'')"
  have scan: "scan_missions sha (sort_key fst ms) d = (Inr [?p], d)"
    using ms(2) hf by (simp add: load_manifest_bytes tries_def andthen_def ret_def)
  have tx: "\<lparr>tx_mission = tx_mission tx, tx_id = tx_id tx, tx_targets = tx_targets tx\<rparr> = tx" by simp
  have "recover_pending sha fault ?p d = recover sha fault tx d"
    using one_journal_at [OF j] targets_from_manifest_batch [OF b im p]
      validate_definition_batch [OF h b wc]
    by (simp add: recover_pending_def payload_fields Let_def tx)
  then show ?thesis
    using ms(1) scan by (simp add: recover_all_def andthen_def) (simp add: ret_def split: prod.split sum.split)
qed

end
