(* ===== verification/Patch_Transaction_Atomic.thy ===== *)
theory Patch_Transaction_Atomic
  imports Patch_Transaction_Recovery
begin

text \<open>
  The contract of a batch: it happens as a unit.  The abstract transaction sees only the
  contents of the nine targets; the journal, the staged images and the markers are the means.
\<close>

definition target_image :: "disk \<Rightarrow> target \<Rightarrow> bytes option" where
  "target_image d t = (case map_of (live d) (parts t) of Some (Reg m b) \<Rightarrow> Some b | _ \<Rightarrow> None)"

definition images :: "transaction \<Rightarrow> disk \<Rightarrow> bytes option list" where
  "images tx d = map (target_image d) (tx_targets tx)"

definition new_images :: "transaction \<Rightarrow> bytes option list" where
  "new_images tx = map tg_bytes (tx_targets tx)"

text \<open>The abstract step: all or nothing.\<close>

definition atomic_step :: "transaction \<Rightarrow> bytes option list \<Rightarrow> bytes option list \<Rightarrow> bool" where
  "atomic_step tx a b \<longleftrightarrow> b = a \<or> b = new_images tx"

text \<open>
  A batch ready to run: its rows describe the files on the disk, no journal is left over,
  and nothing but directories is in the way of its files.
\<close>

definition ready :: "(bytes \<Rightarrow> string) \<Rightarrow> transaction \<Rightarrow> disk \<Rightarrow> bool" where
  "ready sha tx d \<longleftrightarrow> batch sha tx (target_image d) \<and> way_clear tx d \<and> all_hold tx (target_image d) d \<and> no_journal d"

lemma holds_image: "holds d t x \<Longrightarrow> target_image d t = x"
  by (auto simp: holds_def target_image_def split: option.splits)

lemma all_hold_images: "all_hold tx img d \<Longrightarrow> images tx d = map img (tx_targets tx)"
  by (simp add: all_hold_def images_def holds_image)

lemma images_live: "live d = live e \<Longrightarrow> images tx d = images tx e"
  by (simp add: images_def target_image_def)

lemma live_transfer:
  "live e = live d \<Longrightarrow> way_clear tx d \<Longrightarrow> way_clear tx e"
  "live e = live d \<Longrightarrow> all_hold tx img d \<Longrightarrow> all_hold tx img e"
  using live_determines(1,2) [of e d] by (simp_all add: all_hold_def)

section \<open>Running\<close>

definition interrupted :: "transaction \<Rightarrow> (target \<Rightarrow> bytes option) \<Rightarrow> (string list, node) dict \<Rightarrow> disk \<Rightarrow> bool" where
  "interrupted tx pre L d \<longleftrightarrow>
     preparing tx L d \<or> installing tx pre L d \<or> finished tx L d \<or> no_journal d \<and> live d = L"

lemma execute_spec:
  assumes b: "batch sha tx pre" and wc: "way_clear tx d" and ah: "all_hold tx pre d"
  shows "triple (\<lambda>e. no_journal e \<and> live e = live d) (execute sha fault tx) (\<lambda>_. finished tx (live d))
    (fault_in fault (interrupted tx pre (live d)))"
proof -
  let ?L = "live d" and ?E = "fault_in fault (interrupted tx pre (live d))"
  have mono: "triple P m Q (fault_in fault R) \<Longrightarrow> (\<And>s. R s \<Longrightarrow> interrupted tx pre ?L s) \<Longrightarrow> triple P m Q ?E" for P m Q R
    by (erule triple_conseq) (auto elim: fault_in_mono)
  have states: "triple (\<lambda>e. one_journal tx (stage tx 2 (staged (tx_targets tx))) e \<and> live e = ?L)
      (require_states sha tg_pre tx) (\<lambda>_ e. one_journal tx (stage tx 2 (staged (tx_targets tx))) e \<and> live e = ?L) ?E"
    by (rule require_states_spec [OF b])
      (use live_transfer(1) [OF _ wc] live_transfer(2) [OF _ ah] batch_target(3) [OF b] in blast)+
  have prep: "triple (\<lambda>e. no_journal e \<and> live e = ?L) (prepare fault tx)
      (\<lambda>_ e. one_journal tx (stage tx 2 (staged (tx_targets tx))) e \<and> live e = ?L) ?E"
    by (rule mono [OF prepare_spec [OF b]]) (simp add: interrupted_def)
  have comm: "triple (\<lambda>e. one_journal tx (stage tx 2 (staged (tx_targets tx))) e \<and> live e = ?L) (commit fault tx)
      (\<lambda>_. installing tx pre ?L) ?E"
    by (rule mono [OF commit_spec [OF b wc ah refl]]) (auto simp: interrupted_def)
  have inst: "triple (installing tx pre ?L) (install sha fault tx) (\<lambda>_ e. installing tx pre ?L e \<and> all_hold tx tg_bytes e) ?E"
    by (rule mono [OF install_spec [OF b]]) (simp add: interrupted_def)
  have fin: "triple (\<lambda>e. installing tx pre ?L e \<and> all_hold tx tg_bytes e) (finish sha fault tx) (\<lambda>_. finished tx ?L) ?E"
    by (rule mono [OF finish_spec [OF b]]) (auto simp: interrupted_def)
  have "triple (\<lambda>e. no_journal e \<and> live e = ?L)
      (block [prepare fault tx, require_states sha tg_pre tx, commit fault tx, install sha fault tx, finish sha fault tx])
      (\<lambda>_. finished tx ?L) ?E"
    by (rule triple_block_Cons [OF prep] triple_block_Cons [OF states] triple_block_Cons [OF comm]
        triple_block_Cons [OF inst] triple_block_Cons [OF fin] triple_block_Nil)+
  then show ?thesis
    unfolding execute_def
    by (rule triple_handling) (auto simp: triple_def fault_in_def throw_def)
qed

lemma recover_uncommitted:
  assumes b: "batch sha tx pre" and wc: "way_clear tx d" and ah: "all_hold tx pre d"
    and j: "one_journal tx (stage tx 2 (staged (tx_targets tx))) d"
  shows "recover sha fault tx d = (Inr (), remove_journal (tx_mission tx) (tx_id tx) d)"
proof -
  have p: "\<forall>t \<in> set (tx_targets tx). pending pre (staged (tx_targets tx)) d t"
    using ah staged_lookup [OF batch_kinds [OF b]] by (simp add: pending_def all_hold_def)
  have v: "validate_staging sha False tx d = None"
    by (rule validate_staging_ok [OF b _ _ j images_ok_staged p wc]) auto
  have s: "require_states sha tg_pre tx d = (Inr (), d)"
    using require_states_spec [OF b, of "\<lambda>e. e = d" pre tg_pre "\<lambda>_ _. False"] wc ah batch_target(3) [OF b]
    by (auto simp: triple_def split: prod.splits sum.splits)
  have "\<not> has_file (stage tx 2 (staged (tx_targets tx))) ''COMMIT''"
    by (simp add: stage_def has_file_def)
  then show ?thesis
    using one_journal_at [OF j] v s
    by (simp add: recover_def andthen_def ret_def refuse_error_def tries_def cleanup_def)
qed

lemma recover_committed:
  assumes b: "batch sha tx pre"
  shows "triple (installing tx pre L) (recover sha fault tx) (\<lambda>_. finished tx L)
    (fault_in fault (\<lambda>d. installing tx pre L d \<or> finished tx L d))"
proof (rule triple_state)
  fix d assume d: "installing tx pre L d"
  then obtain k im where k: "k \<in> {3, 4}" and j: "one_journal tx (stage tx k im) d" by (auto simp: installing_def)
  have c: "has_file (stage tx k im) ''COMMIT''" using stage_files(3) [of k tx im] k by auto
  have inst: "triple (installing tx pre L) (install sha fault tx) (\<lambda>_ d. installing tx pre L d \<and> all_hold tx tg_bytes d)
      (fault_in fault (\<lambda>d. installing tx pre L d \<or> finished tx L d))"
    by (rule triple_conseq [OF install_spec [OF b]]) (auto elim: fault_in_mono)
  have "triple (installing tx pre L) (block [install sha fault tx, finish sha fault tx]) (\<lambda>_. finished tx L)
      (fault_in fault (\<lambda>d. installing tx pre L d \<or> finished tx L d))"
    by (rule triple_block_Cons [OF inst] triple_block_Cons [OF finish_spec [OF b]] triple_block_Nil)+
  then show "triple (\<lambda>s. s = d) (recover sha fault tx) (\<lambda>_. finished tx L)
      (fault_in fault (\<lambda>d. installing tx pre L d \<or> finished tx L d))"
    using d c one_journal_at [OF j] by (simp add: triple_def recover_def)
qed

lemma removed_quiet:
  assumes "one_journal tx j d"
  shows "no_journal (remove_journal (tx_mission tx) (tx_id tx) d)" "live (remove_journal (tx_mission tx) (tx_id tx) d) = live d"
  using remove_journal_one [OF assms] by simp_all

lemma committed_stage: "one_journal tx (stage tx k im) d \<Longrightarrow> committed tx d \<longleftrightarrow> has_file (stage tx k im) ''COMMIT''"
  by (simp add: committed_def one_journal_at [of tx "stage tx k im"])

lemma committed_quiet: "no_journal d \<Longrightarrow> \<not> committed tx d"
  unfolding committed_def journal_at_def mission_journals_def no_journal_def
  by (auto simp: quiet_entry_def split: option.splits mission_entry.splits dest!: map_of_SomeD)

text \<open>Where recovery ends is decided by whether the commit marker is there.\<close>

definition settled :: "transaction \<Rightarrow> (string list, node) dict \<Rightarrow> disk \<Rightarrow> disk \<Rightarrow> bool" where
  "settled tx L d f \<longleftrightarrow> (if committed tx d then finished tx L f else no_journal f \<and> live f = live d)"

lemma recover_all_spec:
  assumes h: "hex_digest sha" and b: "batch sha tx pre" and wc: "way_clear tx d0" and ah: "all_hold tx pre d0"
    and L: "L = live d0" and d: "interrupted tx pre L d"
  shows "triple (\<lambda>s. s = d) (recover_all sha fault) (\<lambda>_. settled tx L d) (fault_in fault (interrupted tx pre L))"
proof -
  consider (quiet) "no_journal d"
    | (preparing) ys zs where "tx_targets tx = ys @ zs" "one_journal tx (stage tx 1 (staged ys)) d" "live d = L"
    | (prepared) "one_journal tx (stage tx 2 (staged (tx_targets tx))) d" "live d = L"
    | (committed) "installing tx pre L d"
    using d by (auto simp: interrupted_def preparing_def finished_def)
  then show ?thesis
  proof cases
    case quiet
    then show ?thesis
      using recover_all_quiet [OF quiet] committed_quiet [OF quiet] by (simp add: triple_def settled_def)
  next
    case preparing
    have wcd: "way_clear tx d" "all_hold tx pre d"
      using live_transfer [of d d0 tx] wc ah preparing(3) L by blast+
    have "\<not> committed tx d"
      using committed_stage [OF preparing(2)] by (simp add: stage_def has_file_def)
    then show ?thesis
      using recover_all_discard [OF h b wcd preparing(1,2)] removed_quiet [OF preparing(2)]
      by (simp add: triple_def settled_def)
  next
    case prepared
    have wcd: "way_clear tx d" "all_hold tx pre d"
      using live_transfer [of d d0 tx] wc ah prepared(2) L by blast+
    have p: "\<forall>t \<in> set (tx_targets tx). pending pre (staged (tx_targets tx)) d t"
      using wcd(2) staged_lookup [OF batch_kinds [OF b]] by (simp add: pending_def all_hold_def)
    have "recover_all sha fault d = recover sha fault tx d"
      by (rule recover_all_pending [OF h b wcd(1) _ prepared(1) images_ok_staged p]) simp
    moreover have "\<not> committed tx d"
      using committed_stage [OF prepared(1)] by (simp add: stage_def has_file_def)
    ultimately show ?thesis
      using recover_uncommitted [OF b wcd prepared(1)] removed_quiet [OF prepared(1)]
      by (simp add: triple_def settled_def)
  next
    case committed
    then obtain k im where k: "k \<in> {3, 4}" and j: "one_journal tx (stage tx k im) d" and im: "images_ok tx im"
      and p: "\<forall>t \<in> set (tx_targets tx). pending pre im d t" and wcd: "way_clear tx d"
      by (auto simp: installing_def)
    have "recover_all sha fault d = recover sha fault tx d"
      by (rule recover_all_pending [OF h b wcd _ j im p]) (use k in auto)
    moreover have "committed tx d"
      using committed_stage [OF j] stage_files(3) [of k tx im] k by auto
    moreover have "triple (\<lambda>s. s = d) (recover sha fault tx) (\<lambda>_. finished tx L) (fault_in fault (interrupted tx pre L))"
      by (rule triple_conseq [OF recover_committed [OF b, of L]])
         (use committed in \<open>auto simp: interrupted_def elim: fault_in_mono\<close>)
    ultimately show ?thesis by (auto simp: triple_def settled_def split: prod.splits sum.splits)
  qed
qed

lemma recovery_spec:
  assumes "hex_digest sha" "batch sha tx pre" "way_clear tx d0" "all_hold tx pre d0" "L = live d0" "interrupted tx pre L d"
  shows "triple (\<lambda>s. s = d) (recover_patch_transactions sha fault) (\<lambda>_. settled tx L d) (fault_in fault (interrupted tx pre L))"
  unfolding recover_patch_transactions_def
  by (rule triple_handling [OF recover_all_spec [OF assms]]) (auto simp: triple_def fault_in_def throw_def)

text \<open>Outcomes as pairs.\<close>

lemma triple_cases:
  assumes "triple P m Q E" "P s" "m s = (r, t)"
  obtains a where "r = Inr a" "Q a t" | e where "r = Inl e" "E e t"
  using tripleD_Inr [OF assms(1,2), of _ t] tripleD_Inl [OF assms(1,2), of _ t] assms(3) by (cases r) auto

lemma no_fault: "\<not> fault_in (\<lambda>_. False) R e d"
  by (simp add: fault_in_def)

lemma settled_images:
  assumes "settled tx (live d) e f" "interrupted tx pre (live d) e"
  shows "no_journal f" "same_elsewhere tx (live d) f" "atomic_step tx (images tx d) (images tx f)"
    "images tx f = (if committed tx e then new_images tx else images tx e)"
proof -
  have fin: "images tx g = new_images tx" if "finished tx (live d) g" for g
    using that all_hold_images [of tx tg_bytes g] by (simp add: finished_def new_images_def)
  have c: "committed tx e" if i: "installing tx pre (live d) e"
  proof -
    obtain k im where "k \<in> {3, 4}" "one_journal tx (stage tx k im) e" using i by (auto simp: installing_def)
    then show ?thesis using committed_stage [of tx k im e] stage_files(3) [of k tx im] by auto
  qed
  have "no_journal f \<and> same_elsewhere tx (live d) f \<and> atomic_step tx (images tx d) (images tx f) \<and>
      images tx f = (if committed tx e then new_images tx else images tx e)"
  proof (cases "committed tx e")
    case True
    then have f: "finished tx (live d) f" using assms(1) by (simp add: settled_def)
    then show ?thesis using True fin by (simp add: finished_def atomic_step_def)
  next
    case False
    then have l: "live f = live e" "no_journal f" using assms(1) by (simp_all add: settled_def)
    then have i: "images tx f = images tx e" by (intro images_live)
    consider "live e = live d" | "finished tx (live d) e"
      using assms(2) c False by (auto simp: interrupted_def preparing_def)
    then show ?thesis
    proof cases
      case 1
      then show ?thesis using l False i images_live [of e d tx] by (simp add: same_elsewhere_def atomic_step_def)
    next
      case 2
      then show ?thesis using l False i fin [OF 2] live_determines(3) [of f e tx "live d"]
        by (simp add: finished_def atomic_step_def)
    qed
  qed
  then show "no_journal f" "same_elsewhere tx (live d) f" "atomic_step tx (images tx d) (images tx f)"
    "images tx f = (if committed tx e then new_images tx else images tx e)" by blast+
qed

text \<open>
  The life of a batch: started on a ready disk, stopped at any marked point, its recovery
  stopped again any number of times.
\<close>

inductive stopped :: "(bytes \<Rightarrow> string) \<Rightarrow> transaction \<Rightarrow> disk \<Rightarrow> disk \<Rightarrow> bool" for sha tx d where
  running: "execute sha fault tx d = (Inl Fault, e) \<Longrightarrow> stopped sha tx d e"
| recovering: "stopped sha tx d e \<Longrightarrow> recover_patch_transactions sha fault e = (Inl Fault, f) \<Longrightarrow> stopped sha tx d f"

lemma execute_outcome:
  assumes "ready sha tx d" "execute sha fault tx d = (r, e)"
  shows "(r = Inr () \<and> finished tx (live d) e \<or> r = Inl Fault \<and> (\<exists>l. fault l)) \<and> interrupted tx (target_image d) (live d) e"
proof -
  have r: "batch sha tx (target_image d)" "way_clear tx d" "all_hold tx (target_image d) d" "no_journal d"
    using assms(1) by (simp_all add: ready_def)
  show ?thesis
    by (rule triple_cases [OF execute_spec [OF r(1-3), of fault] _ assms(2)])
       (use r(4) in \<open>auto simp: fault_in_def interrupted_def\<close>)
qed

lemma recovery_outcome:
  assumes "hex_digest sha" "ready sha tx d" "interrupted tx (target_image d) (live d) e"
    "recover_patch_transactions sha fault e = (r, f)"
  shows "r = Inr () \<and> settled tx (live d) e f \<or> r = Inl Fault \<and> (\<exists>l. fault l) \<and> interrupted tx (target_image d) (live d) f"
proof -
  have r: "batch sha tx (target_image d)" "way_clear tx d" "all_hold tx (target_image d) d"
    using assms(2) by (simp_all add: ready_def)
  show ?thesis
    by (rule triple_cases [OF recovery_spec [OF assms(1) r refl assms(3), of fault] _ assms(4)])
       (auto simp: fault_in_def)
qed

lemma stopped_interrupted:
  assumes "hex_digest sha" "ready sha tx d" "stopped sha tx d e"
  shows "interrupted tx (target_image d) (live d) e"
  using assms(3)
proof induction
  case (running fault e)
  then show ?case using execute_outcome [OF assms(2)] by blast
next
  case (recovering e fault f)
  then show ?case using recovery_outcome [OF assms(1,2)] by blast
qed

section \<open>A file in a third state\<close>

lemma move_image_other:
  "triple (\<lambda>d. map_of (live d) q = n \<and> q \<noteq> parts t) (move_image tx t (parts t)) (\<lambda>_ d. map_of (live d) q = n) (\<lambda>_ d. map_of (live d) q = n)"
  by (auto simp: triple_def move_image_def update_conv' delete_conv' split: option.splits node.splits)

lemma live_fold:
  "map_of (live (d\<lparr>live := fold (\<lambda>a. dict_put a Dir) as (live d)\<rparr>)) q = (if q \<in> set as then Some Dir else map_of (live d) q)"
  by (simp add: map_of_fold_put)

lemma if_either: "(if b then x else y) = x \<or> (if b then x else y) = y"
  by simp

lemma make_parents_other:
  "triple (\<lambda>d. map_of (live d) q = n \<and> q \<notin> set (ancestors ps)) (make_parents ps) (\<lambda>_ d. map_of (live d) q = n) (\<lambda>_ d. map_of (live d) q = n)"
  unfolding triple_def
proof (intro allI impI)
  fix d :: disk assume d: "map_of (live d) q = n \<and> q \<notin> set (ancestors ps)"
  have nq: "q \<notin> set (takeWhile (\<lambda>a. map_of (live d) a = None) (rev (ancestors ps)))"
    using d set_takeWhileD [of q _ "rev (ancestors ps)"] by auto
  have "make_parents ps d = (Inl bad_integrity, d) \<or> make_parents ps d = (Inr (), d\<lparr>live :=
      fold (\<lambda>a. dict_put a Dir) (rev (takeWhile (\<lambda>a. map_of (live d) a = None) (rev (ancestors ps)))) (live d)\<rparr>)"
    unfolding make_parents_def Let_def by (rule if_either)
  then show "case make_parents ps d of (Inl e, t) \<Rightarrow> map_of (live t) q = n | (Inr a, t) \<Rightarrow> map_of (live t) q = n"
  proof
    assume "make_parents ps d = (Inl bad_integrity, d)"
    then show ?thesis using d by simp
  next
    assume m: "make_parents ps d = (Inr (), d\<lparr>live :=
      fold (\<lambda>a. dict_put a Dir) (rev (takeWhile (\<lambda>a. map_of (live d) a = None) (rev (ancestors ps)))) (live d)\<rparr>)"
    show ?thesis unfolding m prod.case sum.case live_fold set_rev if_not_P [OF nq] using d by (rule conjunct1)
  qed
qed

lemma event_any: "(\<And>s. P s \<Longrightarrow> E Fault s) \<Longrightarrow> triple P (event fault l) (\<lambda>_. P) E"
  unfolding event_def by (rule triple_refuse_if) auto

lemma install_target_other:
  assumes "q \<noteq> parts t" "q \<notin> set (ancestors (parts t))"
  shows "triple (\<lambda>d. map_of (live d) q = n) (install_target sha fault tx t) (\<lambda>_ d. map_of (live d) q = n) (\<lambda>_ d. map_of (live d) q = n)"
proof -
  let ?P = "\<lambda>d. map_of (live d) q = n"
  have path: "triple ?P (tries (live_path (tg_path t))) (\<lambda>ps d. ?P d \<and> ps = parts t) (\<lambda>_. ?P)"
    by (rule triple_tries) (auto simp: live_path_def Let_def split: if_splits)
  have mv: "triple ?P (move_image tx t (parts t)) (\<lambda>_. ?P) (\<lambda>_. ?P)"
    using assms(1) by (intro triple_pre [OF move_image_other]) auto
  have mk: "triple ?P (make_parents (parts t)) (\<lambda>_. ?P) (\<lambda>_. ?P)"
    using assms(2) by (intro triple_pre [OF make_parents_other]) auto
  have body: "triple (\<lambda>d. ?P d \<and> ps = parts t) (block
      [make_parents ps,
       event fault (labelled ''before_target_install'' (tg_kind t)),
       move_image tx t ps,
       event fault (labelled ''after_target_install'' (tg_kind t)),
       event fault (labelled ''before_target_directory_fsync'' (tg_kind t)),
       event fault (labelled ''after_target_directory_fsync'' (tg_kind t))]) (\<lambda>_. ?P) (\<lambda>_. ?P)" for ps
  proof (cases "ps = parts t")
    case True
    show ?thesis
      unfolding True
      by (rule triple_pre [OF triple_block_inv [where I = ?P]]) (auto intro: mk mv event_any)
  qed (simp add: triple_def)
  show ?thesis
    unfolding install_target_def
    by (rule triple_andthen [where R = "\<lambda>_. ?P"], rule triple_tries, simp, simp)
       (auto intro!: triple_if triple_ret triple_throw triple_andthen [OF path] body simp del: block.simps)
qed

end
