(* ===== verification/Patch_Transaction_Theorems.thy ===== *)
theory Patch_Transaction_Theorems
  imports Patch_Transaction_Atomic
begin

text \<open>The properties of decision batches, and a batch on which they are exercised.\<close>

section \<open>A batch\<close>

definition demo_sha :: "bytes \<Rightarrow> string" where
  "demo_sha b = replicate 64 (if b = ''old'' then CHR ''1'' else if b = ''new'' then CHR ''2'' else CHR ''0'')"

text \<open>
  One file is created, one removed, one stays as it is and the others change; the decisions
  directory does not exist yet.
\<close>

definition demo_tx :: transaction where
  "demo_tx = \<lparr>tx_mission = ''M1'', tx_id = ''t1'', tx_targets =
    [from_images demo_sha ''task_list'' ''.unrest-runtime/missions/M1/tasks.json'' (Some ''old'') (Some ''new''),
     from_images demo_sha ''task_state'' ''.unrest-runtime/missions/M1/task-state.json'' (Some ''old'') (Some ''new''),
     from_images demo_sha ''contract_state'' ''.unrest-runtime/missions/M1/contract-state.json'' (Some ''old'') (Some ''old''),
     from_images demo_sha ''supersession_lineage'' ''.unrest/missions/M1/supersession-lineage.json'' (Some ''old'') None,
     from_images demo_sha ''mission_seal'' ''.unrest/missions/M1/closeout.md'' None None,
     from_images demo_sha ''project_record'' ''.unrest-runtime/project.json'' (Some ''old'') (Some ''new''),
     from_images demo_sha ''decision_record'' ''.unrest/decisions/7-retry.md'' None (Some ''new''),
     from_images demo_sha ''attention_cursor'' ''.unrest-runtime/attention.json'' (Some ''old'') (Some ''new''),
     from_images demo_sha ''project_state'' ''.unrest-runtime/state.json'' (Some ''old'') (Some ''new'')]\<rparr>"

definition demo_disk :: disk where
  "demo_disk = \<lparr>live =
    [([''.unrest-runtime''], Dir), ([''.unrest-runtime'', ''missions''], Dir), ([''.unrest-runtime'', ''missions'', ''M1''], Dir),
     ([''.unrest''], Dir), ([''.unrest'', ''missions''], Dir), ([''.unrest'', ''missions'', ''M1''], Dir),
     ([''.unrest-runtime'', ''missions'', ''M1'', ''tasks.json''], Reg 448 ''old''),
     ([''.unrest-runtime'', ''missions'', ''M1'', ''task-state.json''], Reg 448 ''old''),
     ([''.unrest-runtime'', ''missions'', ''M1'', ''contract-state.json''], Reg 448 ''old''),
     ([''.unrest'', ''missions'', ''M1'', ''supersession-lineage.json''], Reg 448 ''old''),
     ([''.unrest-runtime'', ''project.json''], Reg 448 ''old''),
     ([''.unrest-runtime'', ''attention.json''], Reg 448 ''old''),
     ([''.unrest-runtime'', ''state.json''], Reg 448 ''old'')],
    missions = Some [(''M1'', Mission_Dir None)]\<rparr>"

lemma demo_sha_hex: "hex_digest demo_sha"
proof -
  have "is_digest (''sha256:'' @ replicate 64 c)" if "c \<in> {CHR ''0'', CHR ''1'', CHR ''2''}" for c
    using that by (auto simp: is_digest_def list_all_iff)
  then show ?thesis by (simp add: hex_digest_def demo_sha_def)
qed

lemma closed_tree_code: "closed_tree L \<longleftrightarrow> list_all (\<lambda>p. list_all (\<lambda>a. map_of L a = Some Dir) (ancestors p)) (map fst L)"
  by (auto simp: closed_tree_def list_all_iff dom_map_of_conv_image_fst)

lemma all_hold_code:
  "all_hold tx (target_image d) d \<longleftrightarrow>
   list_all (\<lambda>t. case map_of (live d) (parts t) of None \<Rightarrow> True | Some (Reg m b) \<Rightarrow> True | _ \<Rightarrow> False) (tx_targets tx)"
  unfolding all_hold_def list_all_iff
  by (rule ball_cong [OF refl]) (auto simp: holds_def target_image_def split: option.splits node.splits)

lemma demo_ready: "ready demo_sha demo_tx demo_disk"
proof -
  have 1: "closed_tree (live demo_disk)" unfolding closed_tree_code by code_simp
  have 2: "all_hold demo_tx (target_image demo_disk) demo_disk" unfolding all_hold_code by code_simp
  have 3: "no_journal demo_disk" by code_simp
  have 4: "\<forall>t \<in> set (tx_targets demo_tx). \<forall>a \<in> set (ancestors (parts t)). map_of (live demo_disk) a \<in> {None, Some Dir}" by code_simp
  have 5: "batch demo_sha demo_tx (target_image demo_disk)" by code_simp
  show ?thesis using 1 2 3 4 5 by (simp add: ready_def way_clear_def)
qed

section \<open>Properties\<close>

text \<open>
  A batch that is not interrupted returns normally; afterwards every target has its
  post-image, no journal is left, and no other file has changed.
\<close>

theorem execute_installs_batch:
  assumes "ready sha tx d" "execute sha (\<lambda>_. False) tx d = (r, e)"
  shows "r = Inr () \<and> images tx e = new_images tx \<and> no_journal e \<and> same_elsewhere tx (live d) e"
  using execute_outcome [OF assms] all_hold_images [of tx tg_bytes e]
  by (auto simp: finished_def new_images_def)

theorem execute_installs_batch_witness:
  "fst (execute demo_sha (\<lambda>_. False) demo_tx demo_disk) = Inr () \<and>
   images demo_tx (snd (execute demo_sha (\<lambda>_. False) demo_tx demo_disk)) =
     [Some ''new'', Some ''new'', Some ''old'', None, None, Some ''new'', Some ''new'', Some ''new'', Some ''new'']"
proof -
  have n: "new_images demo_tx = [Some ''new'', Some ''new'', Some ''old'', None, None, Some ''new'', Some ''new'', Some ''new'', Some ''new'']"
    by (simp add: new_images_def demo_tx_def from_images_def)
  show ?thesis
    using execute_installs_batch [OF demo_ready prod.collapse [symmetric]] unfolding n by blast
qed

text \<open>C21. A batch is atomic.  Wherever \<open>execute\<close> is interrupted, the recovery that follows returns
  normally, leaves no journal and no change outside the targets, and the contents of the targets
  make one abstract step: they are those from before or those of the batch.  Which of the two is
  decided by the commit marker: with it, all are new; without it, they stay as the interruption
  left them.
\<close>

theorem interrupted_batch_is_atomic:
  assumes "hex_digest sha" "ready sha tx d" "execute sha fault tx d = (r, e)"
    "recover_patch_transactions sha (\<lambda>_. False) e = (r', f)"
  shows "(r = Inr () \<or> r = Inl Fault) \<and> r' = Inr () \<and> no_journal f \<and> same_elsewhere tx (live d) f \<and>
    atomic_step tx (images tx d) (images tx f) \<and>
    images tx f = (if committed tx e then new_images tx else images tx e)"
proof -
  have e: "(r = Inr () \<or> r = Inl Fault) \<and> interrupted tx (target_image d) (live d) e"
    using execute_outcome [OF assms(2,3)] by blast
  then have f: "r' = Inr ()" "settled tx (live d) e f"
    using recovery_outcome [OF assms(1,2) _ assms(4)] by auto
  show ?thesis using e f settled_images [OF f(2)] by blast
qed

theorem interrupted_batch_is_atomic_witness:
  "let e = snd (execute demo_sha (\<lambda>l. l = ''after_target_install:contract_state'' \<or> l = ''after_target_install:task_state'') demo_tx demo_disk);
       f = recover_patch_transactions demo_sha (\<lambda>_. False) e
   in fst f = Inr () \<and> (images demo_tx (snd f) = images demo_tx demo_disk \<or> images demo_tx (snd f) = new_images demo_tx)"
  using interrupted_batch_is_atomic [OF demo_sha_hex demo_ready prod.collapse [symmetric] prod.collapse [symmetric]]
  unfolding Let_def atomic_step_def by blast

text \<open>Recovery may itself be interrupted at any marked point, any number of times.  The first
  recovery that runs to its end settles the batch as a whole, and recovering once more changes
  nothing.
\<close>

theorem stopped_batch_recovers:
  assumes "hex_digest sha" "ready sha tx d" "stopped sha tx d e" "recover_patch_transactions sha (\<lambda>_. False) e = (r, f)"
  shows "r = Inr () \<and> no_journal f \<and> same_elsewhere tx (live d) f \<and> atomic_step tx (images tx d) (images tx f) \<and>
    recover_patch_transactions sha (\<lambda>_. False) f = (Inr (), f)"
proof -
  have i: "interrupted tx (target_image d) (live d) e" by (rule stopped_interrupted [OF assms(1-3)])
  then have f: "r = Inr ()" "settled tx (live d) e f"
    using recovery_outcome [OF assms(1,2) i assms(4)] by auto
  have "recover_patch_transactions sha (\<lambda>_. False) f = (Inr (), f)"
    using recover_all_quiet [OF settled_images(1) [OF f(2) i]] by (simp add: recover_patch_transactions_def handling_def)
  then show ?thesis using f settled_images [OF f(2) i] by blast
qed

text \<open>A target whose live file is in neither of its two states stops the installation with an
  error, at whatever point it is reached, and keeps the contents it has.
\<close>

theorem third_state_is_never_overwritten:
  assumes "batch sha tx pre" "t \<in> set (tx_targets tx)"
    "map_of (live d) (parts t) = Some (Reg m b)" "condition_of sha (Some b) \<notin> {tg_pre t, tg_post t}"
    "install sha fault tx d = (r, e)"
  shows "r \<noteq> Inr () \<and> map_of (live e) (parts t) = Some (Reg m b)"
proof -
  let ?P = "\<lambda>d. map_of (live d) (parts t) = Some (Reg m b)"
  have other: "triple ?P (install_target sha fault tx u) (\<lambda>_. ?P) (\<lambda>_. ?P)" if u: "u \<in> set (tx_targets tx)" "u \<noteq> t" for u
    by (rule install_target_other)
       (use u batch_parts_eq [OF assms(1,2) u(1)] batch_not_ancestor [OF assms(1,2) u(1)] in auto)
  have self: "triple ?P (install_target sha fault tx t) (\<lambda>_ _. False) (\<lambda>_. ?P)"
    unfolding install_target_def
  proof (rule triple_andthen [where R = "\<lambda>s d. ?P d \<and> s = condition_of sha (Some b)"])
    show "triple ?P (tries (state_of sha t)) (\<lambda>s d. ?P d \<and> s = condition_of sha (Some b)) (\<lambda>_. ?P)"
      by (rule triple_tries) (auto simp: state_of_def live_path_def Let_def split: sum.splits if_splits)
  qed (use assms(4) in \<open>auto simp: triple_def throw_def\<close>)
  let ?I = "\<lambda>ys d. ?P d \<and> t \<notin> set ys"
  have "triple (?I []) (for_each (tx_targets tx) (install_target sha fault tx)) (\<lambda>_. ?I (tx_targets tx)) (\<lambda>_. ?P)"
  proof (rule triple_for_each)
    fix ys u zs assume tx: "tx_targets tx = ys @ u # zs"
    show "triple (?I ys) (install_target sha fault tx u) (\<lambda>_. ?I (ys @ [u])) (\<lambda>_. ?P)"
    proof (cases "u = t")
      case True
      then show ?thesis using self by (auto intro: triple_conseq)
    next
      case False
      then show ?thesis using other [of u] tx by (auto simp: triple_def split: prod.splits sum.splits)
    qed
  qed
  then have loop: "triple ?P (for_each (tx_targets tx) (install_target sha fault tx)) (\<lambda>_ _. False) (\<lambda>_. ?P)"
    using assms(2) by (auto simp: triple_def)
  have "triple ?P (install sha fault tx) (\<lambda>_ _. False) (\<lambda>_. ?P)"
    unfolding install_def refuse_error_def
    by (rule triple_andthen [where R = "\<lambda>_. ?P"], rule triple_tries, assumption, assumption) (rule loop)
  from triple_cases [OF this assms(3,5)] show ?thesis by auto
qed

text \<open>C22. The window before the first journal file.  A process that stops after creating the
  journal directory and before \<open>preconditions.json\<close> is in it leaves a directory that every
  later recovery refuses, although nothing has been staged and no target has changed.
\<close>

theorem bare_journal_is_refused:
  assumes "no_journal d" "make_tx_root tx d = (Inr (), d1)" "make_tx_dir tx d1 = (Inr (), e)"
  shows "recover_patch_transactions sha fault e = (Inl bad_integrity, e)"
proof -
  have 1: "no_journal d1 \<and> live d1 = live d \<and> mission_journals d1 (tx_mission tx) = Some (private_dir, [])"
    using tripleD_Inr [OF make_tx_root_spec [where L = "live d" and E = "\<lambda>_ _. True"] _ assms(2)] assms(1) by simp
  have "one_journal tx \<lparr>j_mode = private_dir, j_files = [], j_images = None\<rparr> e"
    using tripleD_Inr [OF make_tx_dir_spec [where L = "live d" and E = "\<lambda>_ _. True"] _ assms(3)] 1 by simp
  from scan_journal [OF this, of sha e] obtain ms where "missions e = Some ms"
    "scan_missions sha (sort_key fst ms) e = scan_journals sha (tx_mission tx)
       [(tx_id tx, Journal_Dir \<lparr>j_mode = private_dir, j_files = [], j_images = None\<rparr>)] e" by blast
  then show ?thesis
    by (simp add: recover_patch_transactions_def handling_def recover_all_def andthen_def has_file_def
        discard_incomplete_def discardable_def load_manifest_def throw_def)
qed

theorem third_state_is_never_overwritten_witness:
  "let d = demo_disk\<lparr>live := dict_put [''.unrest-runtime'', ''state.json''] (Reg 448 ''edited'') (live demo_disk)\<rparr>;
       e = install demo_sha (\<lambda>_. False) demo_tx d
   in fst e \<noteq> Inr () \<and> map_of (live (snd e)) [''.unrest-runtime'', ''state.json''] = Some (Reg 448 ''edited'')"
proof -
  define d where "d = demo_disk\<lparr>live := dict_put [''.unrest-runtime'', ''state.json''] (Reg 448 ''edited'') (live demo_disk)\<rparr>"
  define t where "t = from_images demo_sha ''project_state'' ''.unrest-runtime/state.json'' (Some ''old'') (Some ''new'')"
  have b: "batch demo_sha demo_tx (target_image demo_disk)" using demo_ready by (simp add: ready_def)
  have t: "t \<in> set (tx_targets demo_tx)" by (simp add: demo_tx_def t_def)
  have p: "parts t = [''.unrest-runtime'', ''state.json'']" unfolding t_def by code_simp
  have l: "map_of (live d) (parts t) = Some (Reg 448 ''edited'')" by (simp add: d_def p update_conv')
  have c: "condition_of demo_sha (Some ''edited'') \<notin> {tg_pre t, tg_post t}" unfolding t_def by code_simp
  show ?thesis
    using third_state_is_never_overwritten [OF b t l c prod.collapse [symmetric]] by (simp add: d_def p)
qed

theorem stopped_batch_recovers_witness:
  "\<exists>e. stopped demo_sha demo_tx demo_disk e \<and>
     fst (recover_patch_transactions demo_sha (\<lambda>_. False) e) = Inr () \<and>
     no_journal (snd (recover_patch_transactions demo_sha (\<lambda>_. False) e))"
proof -
  let ?x = "execute demo_sha (\<lambda>l. True) demo_tx demo_disk"
  have f: "fst ?x = Inl Fault"
    by (simp add: execute_def prepare_def handling_def andthen_def make_tx_root_def make_tx_dir_def make_images_dir_def
        write_exclusive_def on_journal_def journal_at_def mission_journals_def put_journal_def put_journals_def
        stage_image_def event_def refuse_if_def throw_def demo_disk_def demo_tx_def from_images_def)
  have s: "stopped demo_sha demo_tx demo_disk (snd ?x)"
    by (rule stopped.running [of _ "\<lambda>l. True"]) (use f prod.collapse [of ?x] in metis)
  show ?thesis
    using s stopped_batch_recovers [OF demo_sha_hex demo_ready s prod.collapse [symmetric]] by blast
qed

theorem bare_journal_is_refused_witness:
  "\<exists>d1 e. make_tx_root demo_tx demo_disk = (Inr (), d1) \<and> make_tx_dir demo_tx d1 = (Inr (), e) \<and>
     recover_patch_transactions demo_sha (\<lambda>_. False) e = (Inl bad_integrity, e)"
proof -
  let ?r = "make_tx_root demo_tx demo_disk"
  have f: "fst ?r = Inr () \<and> fst (make_tx_dir demo_tx (snd ?r)) = Inr ()" by code_simp
  have n: "no_journal demo_disk" using demo_ready by (simp add: ready_def)
  show ?thesis
    using f bare_journal_is_refused [OF n] by (metis prod.collapse)
qed

text \<open>Round trip of the manifest: the bytes written for a batch are accepted by
  \<open>_load_manifest\<close>, and the rows read back are the kinds, paths and conditions of its targets
  in order.
\<close>

theorem manifest_reads_back:
  "load_manifest (Some (Reg private_file (manifest_bytes tx))) = Inr (manifest_payload tx) \<and>
   map row_fields (payload_rows (manifest_payload tx)) =
     map (\<lambda>t. Some (tg_kind t, tg_path t, tg_pre t, tg_post t)) (tx_targets tx)"
  by (simp add: load_manifest_bytes payload_fields comp_def)

end
