(* ===== verification/Supervision_Models.thy ===== *)
theory Supervision_Models
  imports Models Effects
begin

text \<open>
  The supervision schemas of \<^verbatim>\<open>models.py\<close> with the checks of their validators, and the sparse
  checkpoint policy of \<^verbatim>\<open>supervision.py\<close>.  Times are nanoseconds of a monotonic clock, as
  integers.  The six identity fields of a binding, a receipt and an inbox are kept as one
  record, since the code always compares them together (\<open>_binding_key\<close>).
\<close>

section \<open>Schemas\<close>

datatype sup_role = Worker_Role | Validator_Role | Reviewer_Role
datatype sup_phase = Ph_Active | Ph_Waiting | Ph_Stopping | Ph_Terminal
datatype scope_status = In_Scope | Scope_Uncertain | Scope_Violation
datatype sup_status = St_Running | St_Checkpoint_Due | St_Waiting | St_Nudge_Pending | St_Stop_Requested | St_Terminal
datatype blocker_code = Dependency_Unavailable | Scope_Ambiguous | Blocker_Scope_Violation | Integrity_Refusal
  | Authority_Required | Blocker_Delivery_Blocked
datatype steer_action = Do_Continue | Do_Nudge | Do_Stop
datatype steer_actor = Orchestrator | Maintainer | Timeout_Policy
datatype delivery = Not_Applicable | Delivery_Pending | Delivery_Delivered | Delivery_Consumed | Delivery_Blocked
datatype receipt_code = Rc_Continued | Rc_Timeout_Continue | Rc_Nudge_Pending | Rc_Nudge_Delivered | Rc_Nudge_Consumed
  | Rc_Stop_Requested | Rc_Delivery_Blocked

record snapshot =
  sn_attempt :: string
  sn_blocker :: "blocker_code option"
  sn_requests :: nat
  sn_sequence :: nat
  sn_completed :: "string list"
  sn_elapsed :: nat
  sn_effect :: nat
  sn_mission :: string
  sn_node :: "string option"
  sn_phase :: sup_phase
  sn_project :: string
  sn_remaining :: "string list"
  sn_role :: sup_role
  sn_scope :: scope_status
  sn_status :: sup_status
  sn_review :: "string option"

text \<open>\<open>ActiveAttemptSnapshot._closed_identity_and_terminal_state\<close>.\<close>

definition opt_identity_ok :: "string option \<Rightarrow> bool" where
  "opt_identity_ok v = (case v of None \<Rightarrow> True | Some s \<Rightarrow> identity_ok s)"

definition snapshot_ok :: "snapshot \<Rightarrow> bool" where
  "snapshot_ok s \<longleftrightarrow>
     identity_ok (sn_attempt s) \<and> identity_ok (sn_mission s) \<and> identity_ok (sn_project s)
     \<and> opt_identity_ok (sn_node s) \<and> opt_identity_ok (sn_review s)
     \<and> (sn_node s = None) \<noteq> (sn_review s = None)
     \<and> \<not> (sn_role s = Reviewer_Role \<and> sn_review s = None)
     \<and> \<not> (sn_role s \<noteq> Reviewer_Role \<and> sn_node s = None)
     \<and> list_all assertion_id_ok (sn_completed s @ sn_remaining s)
     \<and> distinct (sn_completed s) \<and> distinct (sn_remaining s)
     \<and> list_all (\<lambda>t. t \<notin> set (sn_remaining s)) (sn_completed s)
     \<and> (sn_phase s = Ph_Terminal) = (sn_status s = St_Terminal)"

record steering_binding =
  b_project :: string
  b_mission :: string
  b_node :: "string option"
  b_review :: "string option"
  b_attempt :: string
  b_sequence :: nat

text \<open>\<open>SteeringBinding._closed_identity\<close>.\<close>

definition binding_ok :: "steering_binding \<Rightarrow> bool" where
  "binding_ok b \<longleftrightarrow> identity_ok (b_project b) \<and> identity_ok (b_mission b) \<and> opt_identity_ok (b_node b)
     \<and> opt_identity_ok (b_review b) \<and> identity_ok (b_attempt b) \<and> (b_node b = None) \<noteq> (b_review b = None)"

record steering_request =
  rq_binding :: steering_binding
  rq_action :: steer_action
  rq_actor :: steer_actor
  rq_body :: "string option"

text \<open>\<open>SteeringRequest._body_matches_action\<close>.\<close>

definition request_ok :: "steering_request \<Rightarrow> bool" where
  "request_ok r \<longleftrightarrow> binding_ok (rq_binding r) \<and> rq_actor r \<noteq> Timeout_Policy
     \<and> (if rq_action r = Do_Nudge then rq_body r \<noteq> None \<and> rq_body r \<noteq> Some [] else rq_body r = None)"

record receipt =
  rc_binding :: steering_binding
  rc_sequence :: nat
  rc_action :: steer_action
  rc_actor :: steer_actor
  rc_byte_count :: nat
  rc_sha :: "string option"
  rc_delivery :: delivery
  rc_code :: receipt_code

text \<open>\<open>SupervisionReceipt._closed_tuple\<close> with the bounds of its fields.\<close>

definition receipt_ok :: "receipt \<Rightarrow> bool" where
  "receipt_ok r \<longleftrightarrow>
     1 \<le> rc_sequence r \<and> rc_byte_count r \<le> 2048 \<and> binding_ok (rc_binding r)
     \<and> (let digest_valid = (case rc_sha r of None \<Rightarrow> False | Some h \<Rightarrow> sha256_hex_ok h);
            nudge_identity = 1 \<le> rc_byte_count r \<and> rc_byte_count r \<le> 2048 \<and> digest_valid
        in case rc_action r of
             Do_Continue \<Rightarrow> rc_byte_count r = 0 \<and> rc_sha r = None \<and> rc_delivery r = Not_Applicable
               \<and> (rc_actor r \<in> {Orchestrator, Maintainer} \<and> rc_code r = Rc_Continued
                  \<or> rc_actor r = Timeout_Policy \<and> rc_code r = Rc_Timeout_Continue)
           | Do_Stop \<Rightarrow> rc_actor r \<in> {Orchestrator, Maintainer} \<and> rc_byte_count r = 0 \<and> rc_sha r = None
               \<and> (rc_delivery r = Not_Applicable \<and> rc_code r = Rc_Stop_Requested
                  \<or> rc_delivery r = Delivery_Blocked \<and> rc_code r = Rc_Delivery_Blocked)
           | Do_Nudge \<Rightarrow> rc_actor r \<in> {Orchestrator, Maintainer} \<and> nudge_identity
               \<and> (rc_delivery r = Delivery_Pending \<and> rc_code r = Rc_Nudge_Pending
                  \<or> rc_delivery r = Delivery_Delivered \<and> rc_code r = Rc_Nudge_Delivered
                  \<or> rc_delivery r = Delivery_Consumed \<and> rc_code r = Rc_Nudge_Consumed
                  \<or> rc_delivery r = Delivery_Blocked \<and> rc_code r = Rc_Delivery_Blocked))"

datatype inbox_state = Inbox_Pending | Inbox_Consumed

record nudge_inbox =
  ib_binding :: steering_binding
  ib_actor :: steer_actor
  ib_body :: string
  ib_byte_count :: nat
  ib_sha :: string
  ib_state :: inbox_state

text \<open>\<open>s.encode("utf-8")\<close> for code points below 256.\<close>

definition utf8 :: "string \<Rightarrow> string" where
  "utf8 s = concat (map (\<lambda>c. if ord c < 128 then [c] else [char_of (192 + ord c div 64), char_of (128 + ord c mod 64)]) s)"

text \<open>\<open>NudgeInbox._binding_and_body\<close> with the bounds of its fields.\<close>

definition inbox_ok :: "(string \<Rightarrow> string) \<Rightarrow> nudge_inbox \<Rightarrow> bool" where
  "inbox_ok sha i \<longleftrightarrow> ib_actor i \<in> {Orchestrator, Maintainer} \<and> 1 \<le> ib_byte_count i \<and> ib_byte_count i \<le> 2048
     \<and> binding_ok (ib_binding i) \<and> length (utf8 (ib_body i)) = ib_byte_count i \<and> sha (utf8 (ib_body i)) = ib_sha i"

section \<open>The checkpoint policy\<close>

definition POLL_NANOSECONDS :: int where "POLL_NANOSECONDS = 30000000000"
definition FIRST_CHECKPOINT_NANOSECONDS :: int where "FIRST_CHECKPOINT_NANOSECONDS = 900000000000"
definition SILENCE_NANOSECONDS :: int where "SILENCE_NANOSECONDS = 600000000000"
definition BACKOFF_MULTIPLIERS :: "int list" where "BACKOFF_MULTIPLIERS = [1, 2, 4]"
definition MAX_CHECKPOINT_REQUESTS :: nat where "MAX_CHECKPOINT_REQUESTS = 2"
definition MAX_NUDGE_BYTES :: nat where "MAX_NUDGE_BYTES = 2048"

record policy_state =
  ps_started :: int
  ps_backoff :: nat
  ps_requests :: nat
  ps_effect_time :: int
  ps_effect :: nat
  ps_latest :: "int option"

text \<open>The field bounds of \<open>CheckpointPolicyState\<close>.\<close>

definition policy_ok :: "policy_state \<Rightarrow> bool" where
  "policy_ok p \<longleftrightarrow> 0 \<le> ps_started p \<and> ps_backoff p \<le> 2 \<and> ps_requests p \<le> MAX_CHECKPOINT_REQUESTS
     \<and> 0 \<le> ps_effect_time p \<and> (case ps_latest p of None \<Rightarrow> True | Some t \<Rightarrow> 0 \<le> t)"

datatype policy_reason = Early_Signal | Normal_Threshold | Not_Poll_Tick | Too_Early | Silence_Below_Threshold
  | Request_Cap | Invalid_Monotonic_Time | Regressive_Effect_Time

record evaluation =
  ev_due :: bool
  ev_reason :: policy_reason
  ev_state :: policy_state

definition initial_checkpoint_policy :: "int \<Rightarrow> nat \<Rightarrow> policy_state" where
  "initial_checkpoint_policy started last_effect =
    \<lparr>ps_started = started, ps_backoff = 0, ps_requests = 0, ps_effect_time = started, ps_effect = last_effect,
     ps_latest = None\<rparr>"

definition verdict_at :: "bool \<Rightarrow> policy_reason \<Rightarrow> policy_state \<Rightarrow> evaluation" where
  "verdict_at due reason p = \<lparr>ev_due = due, ev_reason = reason, ev_state = p\<rparr>"

text \<open>What an effect newer than the last one seen does to the state, or why its time is refused.\<close>

definition observe_effect :: "snapshot \<Rightarrow> policy_state \<Rightarrow> int \<Rightarrow> policy_reason + policy_state" where
  "observe_effect s p now =
    (if sn_effect s \<le> ps_effect p then Inr p
     else let effect_time = ps_started p + int (sn_elapsed s) in
       if now < effect_time then Inl Invalid_Monotonic_Time
       else if effect_time < ps_effect_time p then Inl Regressive_Effect_Time
       else Inr (p\<lparr>ps_effect := sn_effect s, ps_effect_time := effect_time, ps_backoff := min 2 (ps_backoff p + 1)\<rparr>))"

definition silence_anchor :: "policy_state \<Rightarrow> int" where
  "silence_anchor p = (case ps_latest p of None \<Rightarrow> ps_effect_time p | Some t \<Rightarrow> max (ps_effect_time p) t)"

definition evaluate_checkpoint_policy :: "snapshot \<Rightarrow> policy_state \<Rightarrow> int \<Rightarrow> evaluation" where
  "evaluate_checkpoint_policy s p now =
    (let elapsed = now - ps_started p in
     if elapsed < 0 then verdict_at False Invalid_Monotonic_Time p
     else if elapsed mod POLL_NANOSECONDS \<noteq> 0 then verdict_at False Not_Poll_Tick p
     else case observe_effect s p now of
       Inl reason \<Rightarrow> verdict_at False reason p
     | Inr q \<Rightarrow>
        if MAX_CHECKPOINT_REQUESTS \<le> ps_requests q then verdict_at False Request_Cap q
        else if sn_blocker s \<noteq> None \<or> sn_scope s \<in> {Scope_Uncertain, Scope_Violation} then verdict_at True Early_Signal q
        else if elapsed < FIRST_CHECKPOINT_NANOSECONDS then verdict_at False Too_Early q
        else if now - silence_anchor q < SILENCE_NANOSECONDS * BACKOFF_MULTIPLIERS ! ps_backoff q
          then verdict_at False Silence_Below_Threshold q
        else verdict_at True Normal_Threshold q)"

definition record_checkpoint_request :: "evaluation \<Rightarrow> int \<Rightarrow> string + policy_state" where
  "record_checkpoint_request ev now =
    (if \<not> ev_due ev then Inl ''checkpoint request is not due''
     else if MAX_CHECKPOINT_REQUESTS \<le> ps_requests (ev_state ev) then Inl ''checkpoint request cap reached''
     else Inr ((ev_state ev)\<lparr>ps_requests := ps_requests (ev_state ev) + 1, ps_latest := Some now\<rparr>))"

end
