(* ===== verification/Supervision.thy ===== *)
theory Supervision
  imports Supervision_Models
begin

text \<open>
  \<^verbatim>\<open>supervision.py\<close>: the snapshots of active attempts, the append-only steering receipts and the
  private nudge inbox of one mission.

  The state is what the module keeps on disk for that mission.  Every operation of the code runs
  under the mission's transaction lock, so it is one state transformer here; the lock files,
  directory checks and \<open>fsync\<close> calls change none of this state.  Each \<open>_fault(label)\<close> is a point
  where the process may stop, selected by \<open>fault\<close>; what was written before it stays.  \<open>sha\<close> is
  \<open>hashlib.sha256(b).hexdigest()\<close>.  Since every transaction creates the runtime directory before
  recovery runs, the branch of \<open>_recover_supervision_locked\<close> for a missing directory cannot be
  reached and is left out.
\<close>

datatype sup_exn = Snapshot_Error string | Steering_Error string | Validation_Error | Stop_Iteration | Sup_Fault

record sup_store =
  ss_project :: string
  ss_mission :: string
  ss_tasks :: task_list
  ss_snapshots :: "(string, snapshot) dict"
  ss_policies :: "(string, policy_state) dict"
  ss_receipts :: "receipt list"
  ss_inboxes :: "(string, nudge_inbox) dict"

type_synonym 'a sup_eff = "(sup_store, sup_exn, 'a) eff"

section \<open>Snapshots\<close>

definition path_identifier_ok :: "string \<Rightarrow> bool" where
  "path_identifier_ok v \<longleftrightarrow> v \<noteq> [] \<and> v \<noteq> ''.'' \<and> v \<noteq> ''..''
     \<and> list_all (\<lambda>c. is_alnum c \<or> c \<in> {CHR ''.'', CHR ''_'', CHR '':'', CHR ''-''}) v"

definition load_snapshot :: "string \<Rightarrow> sup_store \<Rightarrow> sup_exn + snapshot option" where
  "load_snapshot attempt st =
    (if \<not> path_identifier_ok attempt then Inl (Snapshot_Error ''invalid supervision path identity'')
     else case map_of (ss_snapshots st) attempt of
       None \<Rightarrow> Inr None
     | Some s \<Rightarrow>
        if \<not> snapshot_ok s then Inl (Snapshot_Error ''invalid active-attempt snapshot'')
        else if sn_project s \<noteq> ss_project st \<or> sn_mission s \<noteq> ss_mission st \<or> sn_attempt s \<noteq> attempt
          then Inl (Snapshot_Error ''snapshot path identity mismatch'')
        else Inr (Some s))"

definition validate_target_partition :: "snapshot \<Rightarrow> string list \<Rightarrow> sup_exn option" where
  "validate_target_partition s assigned =
    (if \<not> distinct assigned then Some (Snapshot_Error ''assigned target ids must be unique'')
     else if set (sn_completed s) \<union> set (sn_remaining s) \<noteq> set assigned
       then Some (Snapshot_Error ''snapshot targets must equal assigned targets'')
     else if sn_completed s \<noteq> filter (\<lambda>t. t \<in> set (sn_completed s)) assigned
       then Some (Snapshot_Error ''completed targets are not in assigned order'')
     else if sn_remaining s \<noteq> filter (\<lambda>t. t \<in> set (sn_remaining s)) assigned
       then Some (Snapshot_Error ''remaining targets are not in assigned order'')
     else None)"

fun phase_rank :: "sup_phase \<Rightarrow> nat" where
  "phase_rank Ph_Active = 0" | "phase_rank Ph_Waiting = 0" | "phase_rank Ph_Stopping = 1" | "phase_rank Ph_Terminal = 2"

fun status_rank :: "sup_status \<Rightarrow> nat" where
  "status_rank St_Stop_Requested = 1" | "status_rank St_Terminal = 2" | "status_rank _ = 0"

definition validate_monotonic_update :: "snapshot \<Rightarrow> snapshot \<Rightarrow> string list \<Rightarrow> sup_exn option" where
  "validate_monotonic_update cur cand assigned =
    (if sn_attempt cur \<noteq> sn_attempt cand \<or> sn_mission cur \<noteq> sn_mission cand \<or> sn_node cur \<noteq> sn_node cand
        \<or> sn_project cur \<noteq> sn_project cand \<or> sn_role cur \<noteq> sn_role cand \<or> sn_review cur \<noteq> sn_review cand
       then Some (Snapshot_Error ''snapshot identity conflicts with current record'')
     else if sn_sequence cand < sn_sequence cur then Some (Snapshot_Error ''stale checkpoint sequence'')
     else if sn_phase cur = Ph_Active \<and> sn_phase cand = Ph_Waiting \<and> sn_sequence cand = sn_sequence cur
       then Some (Snapshot_Error ''a new checkpoint must advance its sequence'')
     else if sn_sequence cand = sn_sequence cur \<and> (sn_blocker cand \<noteq> sn_blocker cur \<or> sn_scope cand \<noteq> sn_scope cur)
       then Some (Snapshot_Error ''equal-sequence checkpoint content conflicts'')
     else if sn_elapsed cand < sn_elapsed cur \<or> sn_requests cand < sn_requests cur \<or> sn_effect cand < sn_effect cur
       then Some (Snapshot_Error ''snapshot counters are not monotonic'')
     else if \<not> set (sn_completed cur) \<subseteq> set (sn_completed cand) then Some (Snapshot_Error ''completed targets cannot shrink'')
     else if \<not> set (sn_remaining cand) \<subseteq> set (sn_remaining cur) then Some (Snapshot_Error ''remaining targets cannot grow'')
     else if phase_rank (sn_phase cand) < phase_rank (sn_phase cur) \<or> status_rank (sn_status cand) < status_rank (sn_status cur)
       then Some (Snapshot_Error ''snapshot phase and status cannot roll back'')
     else validate_target_partition cand assigned)"

definition raise_if :: "sup_exn option \<Rightarrow> unit sup_eff" where
  "raise_if e = tries (\<lambda>_. case e of None \<Rightarrow> Inr () | Some x \<Rightarrow> Inl x)"

definition put_snapshot :: "snapshot \<Rightarrow> sup_store \<Rightarrow> sup_store" where
  "put_snapshot s st = st\<lparr>ss_snapshots := dict_put (sn_attempt s) s (ss_snapshots st)\<rparr>"

definition binding_from_snapshot :: "snapshot \<Rightarrow> steering_binding" where
  "binding_from_snapshot s = \<lparr>b_project = sn_project s, b_mission = sn_mission s, b_node = sn_node s,
     b_review = sn_review s, b_attempt = sn_attempt s, b_sequence = sn_sequence s\<rparr>"

section \<open>Receipts\<close>

text \<open>\<open>groups[key]\<close> so far, and the attempts with an accepted nudge.\<close>

definition binding_receipts :: "receipt list \<Rightarrow> steering_binding \<Rightarrow> receipt list" where
  "binding_receipts rs b = filter (\<lambda>r. rc_binding r = b) rs"

definition attempt_key :: "receipt \<Rightarrow> string \<times> string \<times> string" where
  "attempt_key r = (b_project (rc_binding r), b_mission (rc_binding r), b_attempt (rc_binding r))"

text \<open>One turn of the loop of \<open>_validate_receipt_transitions\<close>: is the next receipt a legal one?\<close>

definition next_receipt_ok :: "nat \<Rightarrow> receipt list \<Rightarrow> (string \<times> string \<times> string) list \<Rightarrow> receipt \<Rightarrow> bool" where
  "next_receipt_ok expected rows nudged r \<longleftrightarrow>
     rc_sequence r = expected
     \<and> (case rows of
          [] \<Rightarrow> (if rc_action r = Do_Nudge
                then rc_delivery r \<in> {Delivery_Pending, Delivery_Blocked}
                  \<and> \<not> (rc_delivery r = Delivery_Pending \<and> attempt_key r \<in> set nudged)
                else rc_delivery r \<in> {Not_Applicable, Delivery_Blocked})
        | first # others \<Rightarrow>
            \<not> (rc_delivery first = Delivery_Blocked \<or> rc_action first \<noteq> Do_Nudge)
            \<and> length rows \<le> 2
            \<and> rc_delivery r = (if length rows = 1 then Delivery_Delivered else Delivery_Consumed)
            \<and> rc_action r = rc_action first \<and> rc_actor r = rc_actor first
            \<and> rc_byte_count r = rc_byte_count first \<and> rc_sha r = rc_sha first)"

fun transitions_from :: "receipt list \<Rightarrow> (string \<times> string \<times> string) list \<Rightarrow> receipt list \<Rightarrow> bool" where
  "transitions_from past nudged [] = True"
| "transitions_from past nudged (r # rs) =
    (let rows = binding_receipts past (rc_binding r) in
     next_receipt_ok (length past + 1) rows nudged r
     \<and> transitions_from (past @ [r])
         (if rows = [] \<and> rc_action r = Do_Nudge \<and> rc_delivery r = Delivery_Pending then attempt_key r # nudged else nudged) rs)"

definition validate_receipt_transitions :: "receipt list \<Rightarrow> bool" where
  "validate_receipt_transitions rs = transitions_from [] [] rs"

abbreviation receipt_integrity :: sup_exn where
  "receipt_integrity \<equiv> Steering_Error ''supervision_receipt_integrity_error''"

abbreviation inbox_integrity :: sup_exn where
  "inbox_integrity \<equiv> Steering_Error ''supervision_inbox_integrity_error''"

definition load_receipts :: "sup_store \<Rightarrow> sup_exn + receipt list" where
  "load_receipts st =
    (if list_all receipt_ok (ss_receipts st) \<and> validate_receipt_transitions (ss_receipts st)
     then Inr (ss_receipts st) else Inl receipt_integrity)"

definition sup_event :: "(string \<Rightarrow> bool) \<Rightarrow> string \<Rightarrow> unit sup_eff" where
  "sup_event fault label = refuse_if (\<lambda>_. fault label) Sup_Fault"

fun code_name :: "receipt_code \<Rightarrow> string" where
  "code_name Rc_Continued = ''continued''"
| "code_name Rc_Timeout_Continue = ''timeout_continue''"
| "code_name Rc_Nudge_Pending = ''nudge_pending''"
| "code_name Rc_Nudge_Delivered = ''nudge_delivered''"
| "code_name Rc_Nudge_Consumed = ''nudge_consumed''"
| "code_name Rc_Stop_Requested = ''stop_requested''"
| "code_name Rc_Delivery_Blocked = ''delivery_blocked''"

definition append_receipt ::
  "(string \<Rightarrow> bool) \<Rightarrow> steering_binding \<Rightarrow> steer_action \<Rightarrow> steer_actor \<Rightarrow> nat \<Rightarrow> string option \<Rightarrow> delivery \<Rightarrow> receipt_code
   \<Rightarrow> receipt sup_eff" where
  "append_receipt fault b action actor n digest del code =
    andthen (tries load_receipts) (\<lambda>rs.
      let r = \<lparr>rc_binding = b, rc_sequence = length rs + 1, rc_action = action, rc_actor = actor, rc_byte_count = n,
               rc_sha = digest, rc_delivery = del, rc_code = code\<rparr> in
      if \<not> receipt_ok r then throw Validation_Error
      else if \<not> validate_receipt_transitions (rs @ [r]) then throw receipt_integrity
      else andthen (block
        [sup_event fault (''before_receipt_fsync:'' @ code_name code),
         modifies (\<lambda>st. st\<lparr>ss_receipts := rs @ [r]\<rparr>),
         sup_event fault (''after_receipt_fsync:'' @ code_name code)]) (\<lambda>_. ret r))"

section \<open>Saving snapshots\<close>

definition load_inbox :: "(string \<Rightarrow> string) \<Rightarrow> nudge_inbox \<Rightarrow> sup_exn + nudge_inbox" where
  "load_inbox sha i = (if inbox_ok sha i then Inr i else Inl inbox_integrity)"

definition inbox_matches :: "nudge_inbox \<Rightarrow> receipt \<Rightarrow> bool" where
  "inbox_matches i r \<longleftrightarrow> ib_binding i = rc_binding r \<and> ib_actor i = rc_actor r
     \<and> ib_byte_count i = rc_byte_count r \<and> Some (ib_sha i) = rc_sha r"

definition pending_row :: "receipt list \<Rightarrow> receipt option" where
  "pending_row rows = find (\<lambda>r. rc_delivery r = Delivery_Pending) rows"

text \<open>\<open>_require_durable_resume_authority\<close>.\<close>

definition resume_authority :: "(string \<Rightarrow> string) \<Rightarrow> snapshot \<Rightarrow> sup_store \<Rightarrow> sup_exn option" where
  "resume_authority sha s st =
    (case load_receipts st of
       Inl e \<Rightarrow> Some e
     | Inr rs \<Rightarrow>
        (let rows = binding_receipts rs (binding_from_snapshot s);
             refusal = Some (Snapshot_Error ''waiting snapshot resume requires exact durable steering authority'') in
         if \<exists>r \<in> set rows. rc_action r = Do_Continue \<or> rc_delivery r = Delivery_Blocked then None
         else if \<exists>r \<in> set rows. rc_action r = Do_Nudge \<and> rc_delivery r = Delivery_Consumed then None
         else case map_of (ss_inboxes st) (sn_attempt s) of
           None \<Rightarrow> refusal
         | Some i \<Rightarrow>
            (case load_inbox sha i of
               Inl e \<Rightarrow> Some e
             | Inr _ \<Rightarrow>
                (case find (\<lambda>r. rc_action r = Do_Nudge \<and> rc_delivery r = Delivery_Pending) rows of
                   Some p \<Rightarrow> if ib_state i = Inbox_Consumed then (if inbox_matches i p then None else Some inbox_integrity)
                             else refusal
                 | None \<Rightarrow> refusal))))"

definition save_snapshot :: "(string \<Rightarrow> string) \<Rightarrow> snapshot \<Rightarrow> string list \<Rightarrow> unit sup_eff" where
  "save_snapshot sha s assigned =
    andthen (raise_if (validate_target_partition s assigned)) (\<lambda>_.
    if MAX_CHECKPOINT_REQUESTS < sn_requests s then throw (Snapshot_Error ''checkpoint request cap exceeded'')
    else andthen (tries (load_snapshot (sn_attempt s))) (\<lambda>found.
      case found of
        None \<Rightarrow> modifies (put_snapshot s)
      | Some cur \<Rightarrow>
          andthen (raise_if (validate_monotonic_update cur s assigned)) (\<lambda>_.
          if cur = s then ret ()
          else if sn_phase cur = Ph_Waiting \<and> (sn_phase s = Ph_Active \<or> sn_status s = St_Running)
          then andthen (tries (\<lambda>st. case resume_authority sha cur st of None \<Rightarrow> Inr () | Some e \<Rightarrow> Inl e))
                 (\<lambda>_. modifies (put_snapshot s))
          else modifies (put_snapshot s))))"

text \<open>\<open>save_advisory_snapshot\<close>: whether the poll was committed.\<close>

definition save_advisory_snapshot :: "snapshot \<Rightarrow> snapshot \<Rightarrow> string list \<Rightarrow> bool sup_eff" where
  "save_advisory_snapshot expected projected assigned =
    (if sn_phase expected \<notin> {Ph_Active, Ph_Stopping}
     then throw (Snapshot_Error ''advisory update requires a progressing attempt'')
     else if expected\<lparr>sn_elapsed := sn_elapsed projected, sn_requests := sn_requests projected,
              sn_status := sn_status projected\<rparr> \<noteq> projected \<or> MAX_CHECKPOINT_REQUESTS < sn_requests projected
     then throw (Snapshot_Error ''invalid advisory snapshot update'')
     else andthen (raise_if (validate_monotonic_update expected projected assigned)) (\<lambda>_.
       andthen (tries (load_snapshot (sn_attempt expected))) (\<lambda>found.
         case found of
           None \<Rightarrow> throw (Snapshot_Error ''advisory snapshot disappeared'')
         | Some cur \<Rightarrow>
            andthen (raise_if (validate_monotonic_update expected cur assigned)) (\<lambda>_.
              if cur \<noteq> expected then ret False
              else if cur \<noteq> projected then andthen (modifies (put_snapshot projected)) (\<lambda>_. ret True)
              else ret True))))"

definition terminal_snapshot :: "snapshot \<Rightarrow> snapshot" where
  "terminal_snapshot s = s\<lparr>sn_phase := Ph_Terminal, sn_status := St_Terminal\<rparr>"

fun ordered_unique_from :: "string list \<Rightarrow> string list \<Rightarrow> string list" where
  "ordered_unique_from seen [] = []"
| "ordered_unique_from seen (v # vs) =
    (if v \<in> set seen then ordered_unique_from seen vs else v # ordered_unique_from (v # seen) vs)"

definition ordered_unique :: "string list \<Rightarrow> string list" where
  "ordered_unique vs = ordered_unique_from [] vs"

definition assigned_targets :: "snapshot \<Rightarrow> sup_store \<Rightarrow> sup_exn + string list" where
  "assigned_targets s st =
    (case sn_node s of
       Some n \<Rightarrow> (case find (\<lambda>t. t_id t = n) (ss_tasks st) of
                    None \<Rightarrow> Inl (Steering_Error ''steering_binding_mismatch'')
                  | Some t \<Rightarrow> Inr (t_targets t))
     | None \<Rightarrow> Inr (ordered_unique (concat (map t_targets (ss_tasks st)))))"

section \<open>Bound checkpoints\<close>

definition require_bound_snapshot :: "steering_binding \<Rightarrow> sup_store \<Rightarrow> sup_exn + snapshot" where
  "require_bound_snapshot b st =
    (case load_snapshot (b_attempt b) st of
       Inl e \<Rightarrow> Inl e
     | Inr None \<Rightarrow> Inl (Steering_Error ''steering_binding_mismatch'')
     | Inr (Some s) \<Rightarrow>
        if sn_sequence s \<noteq> b_sequence b then Inl (Steering_Error ''stale_checkpoint_binding'')
        else if binding_from_snapshot s \<noteq> b then Inl (Steering_Error ''steering_binding_mismatch'')
        else Inr s)"

definition at_checkpoint :: "snapshot \<Rightarrow> bool" where
  "at_checkpoint s \<longleftrightarrow> sn_phase s = Ph_Waiting \<and> sn_status s = St_Waiting"

definition stop_pending :: "snapshot \<Rightarrow> bool" where
  "stop_pending s \<longleftrightarrow> sn_phase s = Ph_Stopping \<and> sn_status s = St_Stop_Requested"

definition require_current_or_stopping :: "steering_binding \<Rightarrow> sup_store \<Rightarrow> sup_exn + snapshot" where
  "require_current_or_stopping b st =
    (case require_bound_snapshot b st of
       Inl e \<Rightarrow> Inl e
     | Inr s \<Rightarrow> if at_checkpoint s \<or> stop_pending s then Inr s else Inl (Steering_Error ''not_at_semantic_checkpoint''))"

definition save_with_targets :: "(string \<Rightarrow> string) \<Rightarrow> snapshot \<Rightarrow> snapshot \<Rightarrow> unit sup_eff" where
  "save_with_targets sha s s' = andthen (tries (assigned_targets s)) (\<lambda>assigned. save_snapshot sha s' assigned)"

definition resume_after_continue :: "(string \<Rightarrow> string) \<Rightarrow> steering_binding \<Rightarrow> unit sup_eff" where
  "resume_after_continue sha b = andthen (tries (require_current_or_stopping b)) (\<lambda>s.
     if sn_phase s = Ph_Stopping then ret ()
     else save_with_targets sha s (s\<lparr>sn_phase := Ph_Active, sn_status := St_Running\<rparr>))"

section \<open>Recovery\<close>

definition is_stop :: "receipt \<Rightarrow> bool" where
  "is_stop r \<longleftrightarrow> rc_action r = Do_Stop \<and> rc_code r = Rc_Stop_Requested"

definition stopping :: "snapshot \<Rightarrow> snapshot" where
  "stopping s = s\<lparr>sn_phase := Ph_Stopping, sn_status := St_Stop_Requested\<rparr>"

text \<open>One receipt of \<open>_recover_stop_receipts\<close>.\<close>

definition recover_stop_receipt :: "(string \<Rightarrow> string) \<Rightarrow> receipt \<Rightarrow> unit sup_eff" where
  "recover_stop_receipt sha r =
    (if \<not> is_stop r then ret ()
     else andthen (tries (require_bound_snapshot (rc_binding r))) (\<lambda>s.
       if stop_pending s \<or> sn_phase s = Ph_Terminal \<and> sn_status s = St_Terminal then ret ()
       else if \<not> at_checkpoint s then throw receipt_integrity
       else save_with_targets sha s (stopping s)))"

definition remove_inbox :: "(string \<Rightarrow> bool) \<Rightarrow> string \<Rightarrow> unit sup_eff" where
  "remove_inbox fault attempt = andthen (sup_event fault ''before_consumed_inbox_cleanup'') (\<lambda>_.
     andthen (reads (\<lambda>st. map_of (ss_inboxes st) attempt = None)) (\<lambda>gone.
       if gone then ret ()
       else block [modifies (\<lambda>st. st\<lparr>ss_inboxes := AList.delete attempt (ss_inboxes st)\<rparr>),
                   sup_event fault ''after_consumed_inbox_cleanup'']))"

definition append_for_inbox ::
  "(string \<Rightarrow> bool) \<Rightarrow> nudge_inbox \<Rightarrow> delivery \<Rightarrow> receipt_code \<Rightarrow> receipt sup_eff" where
  "append_for_inbox fault i del code =
     append_receipt fault (ib_binding i) Do_Nudge (ib_actor i) (ib_byte_count i) (Some (ib_sha i)) del code"

text \<open>
  One inbox of \<open>_recover_supervision_locked\<close>, with the receipts read at its start; returns them
  with the pending one it may have repaired.
\<close>

definition recover_inbox ::
  "(string \<Rightarrow> string) \<Rightarrow> (string \<Rightarrow> bool) \<Rightarrow> receipt list \<Rightarrow> string \<times> nudge_inbox \<Rightarrow> (steering_binding \<times> receipt list) sup_eff" where
  "recover_inbox sha fault rs entry =
    andthen (tries (\<lambda>_. load_inbox sha (snd entry))) (\<lambda>i.
    let b = ib_binding i in
    andthen (reads (\<lambda>st. b_project b \<noteq> ss_project st \<or> b_mission b \<noteq> ss_mission st)) (\<lambda>foreign.
    if foreign \<or> fst entry \<noteq> b_attempt b then throw inbox_integrity
    else andthen (tries (require_bound_snapshot b)) (\<lambda>_.
    andthen (case pending_row (binding_receipts rs b) of
               Some p \<Rightarrow> ret (p, rs)
             | None \<Rightarrow> andthen (append_for_inbox fault i Delivery_Pending Rc_Nudge_Pending) (\<lambda>p. ret (p, rs @ [p])))
      (\<lambda>(p, rs').
        if \<not> inbox_matches i p then throw inbox_integrity
        else let consumed = find (\<lambda>r. rc_delivery r = Delivery_Consumed) (binding_receipts rs' b) in
          if ib_state i = Inbox_Pending
          then (if consumed \<noteq> None then throw inbox_integrity else ret (b, rs'))
          else andthen (if consumed = None then andthen (append_for_inbox fault i Delivery_Consumed Rc_Nudge_Consumed) (\<lambda>_. ret ())
                        else ret ())
                 (\<lambda>_. andthen (remove_inbox fault (b_attempt b)) (\<lambda>_. ret (b, rs')))))))"

fun recover_inboxes ::
  "(string \<Rightarrow> string) \<Rightarrow> (string \<Rightarrow> bool) \<Rightarrow> receipt list \<Rightarrow> (string \<times> nudge_inbox) list
   \<Rightarrow> (steering_binding list \<times> receipt list) sup_eff" where
  "recover_inboxes sha fault rs [] = ret ([], rs)"
| "recover_inboxes sha fault rs (e # es) = andthen (recover_inbox sha fault rs e) (\<lambda>(b, rs').
     andthen (recover_inboxes sha fault rs' es) (\<lambda>(bs, rs''). ret (b # bs, rs'')))"

text \<open>A nudge whose last receipt waits for delivery needs its inbox.\<close>

definition orphan_nudge :: "steering_binding list \<Rightarrow> receipt list \<Rightarrow> bool" where
  "orphan_nudge bs rs \<longleftrightarrow> (\<exists>r \<in> set rs. let l = last (binding_receipts rs (rc_binding r)) in
     rc_action l = Do_Nudge \<and> rc_delivery l \<in> {Delivery_Pending, Delivery_Delivered} \<and> rc_binding r \<notin> set bs)"

definition inbox_order :: "(string \<times> nudge_inbox) list \<Rightarrow> (string \<times> nudge_inbox) list" where
  "inbox_order = sort_key (\<lambda>(a, i). a @ ''.inbox.json'')"

definition recover_supervision :: "(string \<Rightarrow> string) \<Rightarrow> (string \<Rightarrow> bool) \<Rightarrow> unit sup_eff" where
  "recover_supervision sha fault =
    andthen (tries load_receipts) (\<lambda>rs.
    andthen (for_each rs (recover_stop_receipt sha)) (\<lambda>_.
    andthen (reads (\<lambda>st. inbox_order (ss_inboxes st))) (\<lambda>entries.
    andthen (recover_inboxes sha fault rs entries) (\<lambda>(bs, rs').
      if orphan_nudge bs rs' then throw inbox_integrity else ret ()))))"

text \<open>\<open>with _supervision_transaction(...)\<close> followed by recovery.\<close>

definition supervised :: "(string \<Rightarrow> string) \<Rightarrow> (string \<Rightarrow> bool) \<Rightarrow> 'a sup_eff \<Rightarrow> 'a sup_eff" where
  "supervised sha fault m = andthen (block
     [sup_event fault ''before_supervision_transaction'',
      sup_event fault ''after_supervision_transaction'',
      recover_supervision sha fault]) (\<lambda>_. m)"

section \<open>Steering\<close>

definition accepted_nudge :: "steering_binding \<Rightarrow> receipt \<Rightarrow> bool" where
  "accepted_nudge b r \<longleftrightarrow> rc_action r = Do_Nudge \<and> rc_delivery r \<noteq> Delivery_Blocked
     \<and> b_attempt (rc_binding r) = b_attempt b \<and> b_project (rc_binding r) = b_project b \<and> b_mission (rc_binding r) = b_mission b"

definition nudge_refusal :: "steering_request \<Rightarrow> receipt list \<Rightarrow> sup_exn option" where
  "nudge_refusal rq rs =
    (if rq_action rq \<noteq> Do_Nudge then None
     else if MAX_NUDGE_BYTES < length (utf8 (the (rq_body rq))) then Some (Steering_Error ''nudge_too_large'')
     else if \<exists>r \<in> set rs. accepted_nudge (rq_binding rq) r then Some (Steering_Error ''nudge_limit_exceeded'')
     else None)"

definition request_bytes :: "steering_request \<Rightarrow> string" where
  "request_bytes rq = (if rq_action rq = Do_Nudge then utf8 (the (rq_body rq)) else [])"

definition request_digest :: "(string \<Rightarrow> string) \<Rightarrow> steering_request \<Rightarrow> string option" where
  "request_digest sha rq = (if rq_action rq = Do_Nudge then Some (sha (request_bytes rq)) else None)"

definition put_inbox :: "nudge_inbox \<Rightarrow> sup_store \<Rightarrow> sup_store" where
  "put_inbox i st = st\<lparr>ss_inboxes := dict_put (b_attempt (ib_binding i)) i (ss_inboxes st)\<rparr>"

definition request_inbox :: "(string \<Rightarrow> string) \<Rightarrow> steering_request \<Rightarrow> nudge_inbox" where
  "request_inbox sha rq = \<lparr>ib_binding = rq_binding rq, ib_actor = rq_actor rq, ib_body = the (rq_body rq),
     ib_byte_count = length (request_bytes rq), ib_sha = sha (request_bytes rq), ib_state = Inbox_Pending\<rparr>"

text \<open>The two parts of \<open>steer_attempt\<close> behind its refusals.\<close>

definition accept_action ::
  "(string \<Rightarrow> string) \<Rightarrow> (string \<Rightarrow> bool) \<Rightarrow> steering_request \<Rightarrow> snapshot \<Rightarrow> receipt sup_eff" where
  "accept_action sha fault rq s =
    andthen (append_receipt fault (rq_binding rq) (rq_action rq) (rq_actor rq) 0 None Not_Applicable
              (if rq_action rq = Do_Continue then Rc_Continued else Rc_Stop_Requested))
      (\<lambda>r. if rq_action rq = Do_Stop then andthen (save_with_targets sha s (stopping s)) (\<lambda>_. ret r) else ret r)"

definition deposit_nudge :: "(string \<Rightarrow> string) \<Rightarrow> (string \<Rightarrow> bool) \<Rightarrow> steering_request \<Rightarrow> receipt sup_eff" where
  "deposit_nudge sha fault rq =
    (if \<not> inbox_ok sha (request_inbox sha rq) then throw Validation_Error
     else andthen (block
       [sup_event fault ''before_pending_inbox_fsync'',
        modifies (put_inbox (request_inbox sha rq)),
        sup_event fault ''after_pending_inbox_fsync''])
       (\<lambda>_. append_for_inbox fault (request_inbox sha rq) Delivery_Pending Rc_Nudge_Pending))"

definition steer_locked ::
  "(string \<Rightarrow> string) \<Rightarrow> (string \<Rightarrow> bool) \<Rightarrow> bool \<Rightarrow> steering_request \<Rightarrow> receipt sup_eff" where
  "steer_locked sha fault delivery_supported rq =
    andthen (tries (require_bound_snapshot (rq_binding rq))) (\<lambda>s.
    andthen (tries load_receipts) (\<lambda>rs.
    if binding_receipts rs (rq_binding rq) \<noteq> [] then throw (Steering_Error ''steering_action_replayed'')
    else if \<not> at_checkpoint s then throw (Steering_Error ''not_at_semantic_checkpoint'')
    else andthen (raise_if (nudge_refusal rq rs)) (\<lambda>_.
      if \<not> delivery_supported \<and> rq_action rq \<in> {Do_Nudge, Do_Stop}
      then append_receipt fault (rq_binding rq) (rq_action rq) (rq_actor rq) (length (request_bytes rq)) (request_digest sha rq)
             Delivery_Blocked Rc_Delivery_Blocked
      else if rq_action rq = Do_Nudge then deposit_nudge sha fault rq
      else accept_action sha fault rq s)))"

definition steer_attempt ::
  "(string \<Rightarrow> string) \<Rightarrow> (string \<Rightarrow> bool) \<Rightarrow> bool \<Rightarrow> steering_request \<Rightarrow> receipt sup_eff" where
  "steer_attempt sha fault delivery_supported rq = supervised sha fault (steer_locked sha fault delivery_supported rq)"

section \<open>Waiting at a checkpoint\<close>

datatype steering_outcome = Steering_Outcome (so_action: steer_action) (so_body: "string option") (so_code: string)

text \<open>The end of \<open>_consume_nudge_locked\<close>, once the inbox is known to be the pending nudge of \<open>rows\<close>.\<close>

definition deliver_nudge ::
  "(string \<Rightarrow> string) \<Rightarrow> (string \<Rightarrow> bool) \<Rightarrow> steering_binding \<Rightarrow> receipt list \<Rightarrow> nudge_inbox \<Rightarrow> steering_outcome sup_eff" where
  "deliver_nudge sha fault b rows i =
    andthen (if find (\<lambda>r. rc_delivery r = Delivery_Delivered) rows = None
             then andthen (append_for_inbox fault i Delivery_Delivered Rc_Nudge_Delivered) (\<lambda>_. ret ())
             else ret ()) (\<lambda>_.
    andthen (block
      [sup_event fault ''before_consumed_inbox_fsync'',
       modifies (put_inbox (i\<lparr>ib_state := Inbox_Consumed\<rparr>)),
       sup_event fault ''after_consumed_inbox_fsync'']) (\<lambda>_.
    andthen (append_for_inbox fault i Delivery_Consumed Rc_Nudge_Consumed) (\<lambda>_.
    andthen (remove_inbox fault (b_attempt b)) (\<lambda>_.
    andthen (resume_after_continue sha b) (\<lambda>_.
    ret (Steering_Outcome Do_Nudge (Some (ib_body i)) ''nudge_consumed''))))))"

definition consume_nudge :: "(string \<Rightarrow> string) \<Rightarrow> (string \<Rightarrow> bool) \<Rightarrow> steering_binding \<Rightarrow> steering_outcome sup_eff" where
  "consume_nudge sha fault b =
    andthen (tries load_receipts) (\<lambda>rs.
    let rows = binding_receipts rs b in
    if \<exists>r \<in> set rows. rc_delivery r = Delivery_Consumed
    then andthen (resume_after_continue sha b) (\<lambda>_. ret (Steering_Outcome Do_Continue None ''nudge_already_consumed''))
    else andthen (reads (\<lambda>st. map_of (ss_inboxes st) (b_attempt b))) (\<lambda>found.
      case found of
        None \<Rightarrow> throw inbox_integrity
      | Some raw \<Rightarrow>
         andthen (tries (\<lambda>_. load_inbox sha raw)) (\<lambda>i.
         case pending_row rows of
           None \<Rightarrow> throw inbox_integrity
         | Some p \<Rightarrow>
            if ib_state i \<noteq> Inbox_Pending then throw inbox_integrity
            else if \<not> inbox_matches i p then throw inbox_integrity
            else deliver_nudge sha fault b rows i)))"

text \<open>
  One turn of the loop of \<open>wait_for_steering_action\<close>: an outcome, or \<open>None\<close> to sleep and try again.
  \<open>expired\<close> says whether the deadline has passed.
\<close>

definition wait_locked ::
  "(string \<Rightarrow> string) \<Rightarrow> (string \<Rightarrow> bool) \<Rightarrow> steering_binding \<Rightarrow> bool \<Rightarrow> steering_outcome option sup_eff" where
  "wait_locked sha fault b expired =
     andthen (tries (require_current_or_stopping b)) (\<lambda>_.
     andthen (tries load_receipts) (\<lambda>rs.
     case binding_receipts rs b of
       first # others \<Rightarrow>
         if rc_delivery first = Delivery_Blocked
         then andthen (resume_after_continue sha b) (\<lambda>_. ret (Some (Steering_Outcome Do_Continue None ''delivery_blocked'')))
         else if rc_action first = Do_Continue
         then andthen (resume_after_continue sha b) (\<lambda>_. ret (Some (Steering_Outcome Do_Continue None (code_name (rc_code first)))))
         else if rc_action first = Do_Stop then ret (Some (Steering_Outcome Do_Stop None (code_name (rc_code first))))
         else andthen (consume_nudge sha fault b) (\<lambda>out. ret (Some out))
     | [] \<Rightarrow>
         if expired
         then andthen (append_receipt fault b Do_Continue Timeout_Policy 0 None Not_Applicable Rc_Timeout_Continue)
                (\<lambda>_. andthen (resume_after_continue sha b)
                (\<lambda>_. ret (Some (Steering_Outcome Do_Continue None ''timeout_continue''))))
         else ret None))"

definition wait_turn ::
  "(string \<Rightarrow> string) \<Rightarrow> (string \<Rightarrow> bool) \<Rightarrow> steering_binding \<Rightarrow> bool \<Rightarrow> steering_outcome option sup_eff" where
  "wait_turn sha fault b expired = supervised sha fault (wait_locked sha fault b expired)"

text \<open>
  The loop, over the moments at which it looks: what others did to the store in between, and
  whether the deadline has passed.
\<close>

fun wait_loop ::
  "(string \<Rightarrow> string) \<Rightarrow> (string \<Rightarrow> bool) \<Rightarrow> steering_binding \<Rightarrow> ((sup_store \<Rightarrow> sup_store) \<times> bool) list
   \<Rightarrow> steering_outcome option sup_eff" where
  "wait_loop sha fault b [] = ret None"
| "wait_loop sha fault b ((others, expired) # moments) =
     andthen (modifies others) (\<lambda>_. andthen (wait_turn sha fault b expired) (\<lambda>out.
       case out of Some result \<Rightarrow> ret (Some result) | None \<Rightarrow> wait_loop sha fault b moments))"

section \<open>Finalization and the start of an attempt\<close>

definition finalize_locked :: "string \<Rightarrow> string list \<Rightarrow> (snapshot option \<times> bool) sup_eff" where
  "finalize_locked attempt assigned =
     andthen (tries (load_snapshot attempt)) (\<lambda>found.
       case found of
         None \<Rightarrow> ret (None, False)
       | Some cur \<Rightarrow>
          andthen (tries load_receipts) (\<lambda>rs.
          let stopped = stop_pending cur \<or> (\<exists>r \<in> set (binding_receipts rs (binding_from_snapshot cur)). is_stop r) in
          if sn_phase cur = Ph_Terminal then ret (Some cur, stopped)
          else andthen (raise_if (validate_monotonic_update cur (terminal_snapshot cur) assigned)) (\<lambda>_.
               andthen (modifies (put_snapshot (terminal_snapshot cur))) (\<lambda>_. ret (Some cur, stopped)))))"

definition finalize_attempt ::
  "(string \<Rightarrow> string) \<Rightarrow> string \<Rightarrow> string list \<Rightarrow> (snapshot option \<times> bool) sup_eff" where
  "finalize_attempt sha attempt assigned = supervised sha (\<lambda>_. False) (finalize_locked attempt assigned)"

text \<open>The checkpoint a role reports: refused while another worker runs the same node.\<close>

definition other_worker :: "snapshot \<Rightarrow> snapshot \<Rightarrow> bool" where
  "other_worker s e \<longleftrightarrow> sn_attempt e \<noteq> sn_attempt s \<and> sn_node e = sn_node s \<and> sn_role e = Worker_Role \<and> sn_phase e \<noteq> Ph_Terminal"

text \<open>The snapshot files in directory order; the names of policies and inboxes are skipped.\<close>

definition attempt_order :: "sup_store \<Rightarrow> string list" where
  "attempt_order st = filter (\<lambda>a. drop (length a - 7) a \<noteq> ''.policy'' \<and> drop (length a - 6) a \<noteq> ''.inbox'')
     (sort_key (\<lambda>a. a @ ''.json'') (dict_keys (ss_snapshots st)))"

fun worker_conflict :: "snapshot \<Rightarrow> sup_store \<Rightarrow> string list \<Rightarrow> sup_exn option" where
  "worker_conflict s st [] = None"
| "worker_conflict s st (a # as) = (case load_snapshot a st of
     Inl e \<Rightarrow> Some e
   | Inr None \<Rightarrow> worker_conflict s st as
   | Inr (Some e) \<Rightarrow> if other_worker s e then Some (Steering_Error ''mutable_worker_already_active'') else worker_conflict s st as)"

definition report_locked :: "(string \<Rightarrow> string) \<Rightarrow> snapshot \<Rightarrow> string list \<Rightarrow> unit sup_eff" where
  "report_locked sha s assigned =
    (if sn_role s = Worker_Role
     then andthen (tries (\<lambda>st. case worker_conflict s st (attempt_order st) of None \<Rightarrow> Inr () | Some e \<Rightarrow> Inl e))
            (\<lambda>_. save_snapshot sha s assigned)
     else save_snapshot sha s assigned)"

definition report_checkpoint :: "(string \<Rightarrow> string) \<Rightarrow> snapshot \<Rightarrow> string list \<Rightarrow> steering_binding sup_eff" where
  "report_checkpoint sha s assigned =
    (if \<not> at_checkpoint s then throw (Steering_Error ''not_at_semantic_checkpoint'')
     else andthen (supervised sha (\<lambda>_. False) (report_locked sha s assigned)) (\<lambda>_. ret (binding_from_snapshot s)))"

text \<open>\<open>require_attempt_start_authority\<close>: the code of the refusal.\<close>

definition start_refusal :: "sup_role \<Rightarrow> bool \<Rightarrow> bool \<Rightarrow> bool \<Rightarrow> bool \<Rightarrow> int \<Rightarrow> string option" where
  "start_refusal role mutable_worker_active replacement_requested explicit_supersession explicit_action attempts_remaining =
    (if role = Worker_Role \<and> mutable_worker_active then Some ''mutable_worker_already_active''
     else if role = Worker_Role \<and> replacement_requested \<and> \<not> explicit_supersession then Some ''explicit_supersession_required''
     else if role \<in> {Validator_Role, Reviewer_Role} then
       (if \<not> explicit_action then Some ''explicit_attempt_action_required''
        else if attempts_remaining \<le> 0 then Some ''provider_budget_exhausted'' else None)
     else None)"

section \<open>The active attempts of the task list\<close>

definition assigned_of_active :: "task_list \<Rightarrow> snapshot \<Rightarrow> sup_exn + string list" where
  "assigned_of_active tks s =
    (case sn_node s of
       None \<Rightarrow> Inr (ordered_unique (concat (map t_targets tks)))
     | Some n \<Rightarrow> (case map_of (by_id tks) n of
          None \<Rightarrow> Inl (Snapshot_Error ''snapshot node is not an authored task'')
        | Some t \<Rightarrow>
           if t_type t = Gate \<or> sn_role s \<noteq> (if t_type t = Validate then Validator_Role else Worker_Role)
           then Inl (Snapshot_Error ''snapshot role does not match authored task'')
           else Inr (t_targets t)))"

fun collect_active :: "task_list \<Rightarrow> sup_store \<Rightarrow> string list \<Rightarrow> sup_exn + snapshot list" where
  "collect_active tks st [] = Inr []"
| "collect_active tks st (a # as) = (case load_snapshot a st of
     Inl e \<Rightarrow> Inl e
   | Inr None \<Rightarrow> collect_active tks st as
   | Inr (Some s) \<Rightarrow>
      (case assigned_of_active tks s of
         Inl e \<Rightarrow> Inl e
       | Inr assigned \<Rightarrow>
          (case validate_target_partition s assigned of
             Some e \<Rightarrow> Inl e
           | None \<Rightarrow> map_sum id (\<lambda>ss. if sn_phase s \<noteq> Ph_Terminal then s # ss else ss) (collect_active tks st as))))"

text \<open>The sort key: task attempts in authored order, then terminal reviews.\<close>

definition active_rank :: "task_list \<Rightarrow> snapshot \<Rightarrow> nat \<times> nat \<times> string" where
  "active_rank tks s =
    (case sn_node s of
       None \<Rightarrow> (1, length tks, (case sn_review s of None \<Rightarrow> [] | Some r \<Rightarrow> r))
     | Some n \<Rightarrow> (0, (case map_of (rev (zip (task_ids tks) [0..<length tks])) n of None \<Rightarrow> length tks | Some k \<Rightarrow> k),
                  (case sn_review s of None \<Rightarrow> [] | Some r \<Rightarrow> r)))"

definition load_active_attempts :: "task_list \<Rightarrow> sup_store \<Rightarrow> sup_exn + snapshot list" where
  "load_active_attempts tks st = map_sum id (sort_key (active_rank tks)) (collect_active tks st (attempt_order st))"

end
