(* ===== verification/Supervision_History.thy ===== *)
theory Supervision_History
  imports Supervision
begin

text \<open>
  What the replay check of \<open>_validate_receipt_transitions\<close> accepts, said without the replay: the
  sequence numbers count from one, the rows of each binding have one of the legal shapes, and no
  attempt has two pending nudges.
\<close>

section \<open>Legal histories\<close>

definition nudge_of :: "receipt \<Rightarrow> steer_action \<times> steer_actor \<times> nat \<times> string option" where
  "nudge_of r = (rc_action r, rc_actor r, rc_byte_count r, rc_sha r)"

definition accepts_nudge :: "receipt \<Rightarrow> bool" where
  "accepts_nudge r \<longleftrightarrow> rc_action r = Do_Nudge \<and> rc_delivery r = Delivery_Pending"

text \<open>One final row, or a nudge on its way from pending over delivered to consumed.\<close>

definition legal_rows :: "receipt list \<Rightarrow> bool" where
  "legal_rows rows =
    (case rows of
       [] \<Rightarrow> True
     | first # others \<Rightarrow>
        others = [] \<and> (rc_delivery first = Delivery_Blocked \<or> rc_action first \<noteq> Do_Nudge \<and> rc_delivery first = Not_Applicable)
        \<or> rc_action first = Do_Nudge
          \<and> map rc_delivery rows \<in> {[Delivery_Pending], [Delivery_Pending, Delivery_Delivered],
                                   [Delivery_Pending, Delivery_Delivered, Delivery_Consumed]}
          \<and> list_all (\<lambda>r. nudge_of r = nudge_of first) others)"

definition legal_history :: "receipt list \<Rightarrow> bool" where
  "legal_history rs \<longleftrightarrow>
     map rc_sequence rs = [1..<length rs + 1]
     \<and> (\<forall>r \<in> set rs. legal_rows (binding_receipts rs (rc_binding r)))
     \<and> distinct (map attempt_key (filter accepts_nudge rs))"

lemma binding_receipts_snoc [simp]:
  "binding_receipts (rs @ [r]) b = binding_receipts rs b @ (if rc_binding r = b then [r] else [])"
  by (simp add: binding_receipts_def)

lemma binding_receipts_append:
  "binding_receipts (rs @ qs) b = binding_receipts rs b @ binding_receipts qs b"
  by (simp add: binding_receipts_def)

lemma in_binding_receipts [simp]: "r \<in> set (binding_receipts rs b) \<longleftrightarrow> r \<in> set rs \<and> rc_binding r = b"
  by (auto simp: binding_receipts_def)

text \<open>The condition on the rows in one turn of the replay.\<close>

definition row_step :: "receipt list \<Rightarrow> receipt \<Rightarrow> bool" where
  "row_step rows r =
    (case rows of
       [] \<Rightarrow> (if rc_action r = Do_Nudge then rc_delivery r \<in> {Delivery_Pending, Delivery_Blocked}
             else rc_delivery r \<in> {Not_Applicable, Delivery_Blocked})
     | first # others \<Rightarrow>
         rc_delivery first \<noteq> Delivery_Blocked \<and> rc_action first = Do_Nudge \<and> length others \<le> 1
         \<and> rc_delivery r = (if others = [] then Delivery_Delivered else Delivery_Consumed)
         \<and> nudge_of r = nudge_of first)"

lemma next_receipt_ok_row_step:
  "next_receipt_ok k rows nudged r \<longleftrightarrow>
     rc_sequence r = k \<and> row_step rows r \<and> \<not> (accepts_nudge r \<and> rows = [] \<and> attempt_key r \<in> set nudged)"
  unfolding next_receipt_ok_def row_step_def accepts_nudge_def nudge_of_def
  by (cases rows) auto

lemma row_step_accepts: "row_step rows r \<Longrightarrow> accepts_nudge r \<Longrightarrow> rows = []"
  by (cases rows) (auto simp: row_step_def accepts_nudge_def split: if_splits)

lemma legal_rows_Nil [simp]: "legal_rows []" by (simp add: legal_rows_def)

lemma legal_rows_single:
  "legal_rows [r] \<longleftrightarrow> row_step [] r"
  by (cases "rc_action r"; cases "rc_delivery r") (auto simp: legal_rows_def row_step_def)

lemma legal_rows_snoc: "legal_rows (rows @ [r]) \<longleftrightarrow> legal_rows rows \<and> row_step rows r"
proof -
  consider "rows = []" | a where "rows = [a]" | a b where "rows = [a, b]" | a b c ds where "rows = a # b # c # ds"
    by (metis list.exhaust)
  then show ?thesis
  proof cases
    case 1
    then show ?thesis by (simp add: legal_rows_single)
  next
    case 2
    then show ?thesis by (auto simp: legal_rows_def row_step_def)
  next
    case 3
    then show ?thesis by (auto simp: legal_rows_def row_step_def)
  next
    case 4
    then show ?thesis by (simp add: legal_rows_def row_step_def)
  qed
qed

lemma legal_history_Nil [simp]: "legal_history []"
  by (simp add: legal_history_def)

lemma upt_one_snoc: "xs @ [n] = [1..<Suc (length xs) + 1] \<longleftrightarrow> xs = [1..<length xs + 1] \<and> n = length xs + 1"
  by simp

lemma legal_history_snoc:
  "legal_history (rs @ [r]) \<longleftrightarrow> legal_history rs
     \<and> next_receipt_ok (length rs + 1) (binding_receipts rs (rc_binding r)) (map attempt_key (filter accepts_nudge rs)) r"
proof -
  let ?rows = "binding_receipts rs (rc_binding r)"
  let ?L = "\<lambda>rs. \<forall>x \<in> set rs. legal_rows (binding_receipts rs (rc_binding x))"
  have old: "legal_rows ?rows" if "?L rs"
  proof (cases ?rows)
    case (Cons x xs)
    then have "x \<in> set ?rows" by (metis list.set_intros(1))
    then show ?thesis using that by (metis in_binding_receipts)
  qed simp
  have rows: "?L (rs @ [r]) \<longleftrightarrow> ?L rs \<and> row_step ?rows r"
  proof
    assume new: "?L (rs @ [r])"
    then have "legal_rows (?rows @ [r])" by simp
    then have step: "legal_rows ?rows" "row_step ?rows r" by (simp_all add: legal_rows_snoc)
    have "legal_rows (binding_receipts rs (rc_binding x))" if "x \<in> set rs" for x
      using that new step by (cases "rc_binding r = rc_binding x") auto
    with step show "?L rs \<and> row_step ?rows r" by blast
  next
    assume "?L rs \<and> row_step ?rows r"
    then show "?L (rs @ [r])" using old by (auto simp: legal_rows_snoc)
  qed
  have seq: "map rc_sequence (rs @ [r]) = [1..<length (rs @ [r]) + 1] \<longleftrightarrow>
      map rc_sequence rs = [1..<length rs + 1] \<and> rc_sequence r = length rs + 1"
    using upt_one_snoc[of "map rc_sequence rs" "rc_sequence r"] by simp
  have dist: "distinct (map attempt_key (filter accepts_nudge (rs @ [r]))) \<longleftrightarrow>
      distinct (map attempt_key (filter accepts_nudge rs))
      \<and> \<not> (accepts_nudge r \<and> ?rows = [] \<and> attempt_key r \<in> set (map attempt_key (filter accepts_nudge rs)))"
    if "row_step ?rows r"
    using row_step_accepts[OF that] by auto
  show ?thesis
    unfolding legal_history_def next_receipt_ok_row_step seq rows using dist by blast
qed

lemma legal_history_prefix: "legal_history (rs @ qs) \<Longrightarrow> legal_history rs"
  by (induction qs rule: rev_induct) (auto simp: legal_history_snoc simp flip: append_assoc)

lemma next_receipt_ok_cong:
  "set nudged = set nudged' \<Longrightarrow> next_receipt_ok k rows nudged r = next_receipt_ok k rows nudged' r"
  by (simp add: next_receipt_ok_row_step)

lemma transitions_from_legal:
  assumes "legal_history past" "set nudged = attempt_key ` set (filter accepts_nudge past)"
  shows "transitions_from past nudged rs \<longleftrightarrow> legal_history (past @ rs)"
  using assms
proof (induction rs arbitrary: past nudged)
  case Nil
  then show ?case by simp
next
  case (Cons r rs)
  let ?rows = "binding_receipts past (rc_binding r)"
  let ?nudged = "if ?rows = [] \<and> rc_action r = Do_Nudge \<and> rc_delivery r = Delivery_Pending then attempt_key r # nudged else nudged"
  have ok: "next_receipt_ok (length past + 1) ?rows nudged r \<longleftrightarrow> legal_history (past @ [r])"
    using Cons.prems next_receipt_ok_cong[of nudged "map attempt_key (filter accepts_nudge past)"]
    by (simp add: legal_history_snoc)
  show ?case
  proof (cases "legal_history (past @ [r])")
    case True
    then have "row_step ?rows r" by (simp add: legal_history_snoc next_receipt_ok_row_step)
    then have "set ?nudged = attempt_key ` set (filter accepts_nudge (past @ [r]))"
      using Cons.prems(2) row_step_accepts by (auto simp: accepts_nudge_def)
    then show ?thesis using Cons.IH[OF True] True ok by (simp add: Let_def)
  next
    case False
    then have "\<not> legal_history (past @ r # rs)" using legal_history_prefix[of "past @ [r]" rs] by auto
    then show ?thesis using False ok by (simp add: Let_def)
  qed
qed

lemma validate_receipt_transitions_legal: "validate_receipt_transitions rs \<longleftrightarrow> legal_history rs"
  unfolding validate_receipt_transitions_def using transitions_from_legal[of "[]" "[]" rs] by simp

section \<open>What a legal history says about one binding\<close>

lemma legal_binding_rows:
  assumes "legal_history rs"
  shows "legal_rows (binding_receipts rs b)"
proof (cases "binding_receipts rs b")
  case (Cons x xs)
  then have "x \<in> set (binding_receipts rs b)" by simp
  then have "x \<in> set rs" "rc_binding x = b" by simp_all
  then show ?thesis using assms unfolding legal_history_def by blast
qed simp

text \<open>A row other than a nudge is the only row of its binding.\<close>

lemma final_row_alone:
  assumes "legal_history rs" "r \<in> set rs" "rc_action r \<noteq> Do_Nudge"
  shows "binding_receipts rs (rc_binding r) = [r]"
proof -
  have "legal_rows (binding_receipts rs (rc_binding r))" using assms(1) by (rule legal_binding_rows)
  moreover have "r \<in> set (binding_receipts rs (rc_binding r))" using assms(2) by simp
  ultimately show ?thesis using assms(3)
    by (cases "binding_receipts rs (rc_binding r)") (auto simp: legal_rows_def list_all_iff nudge_of_def)
qed

text \<open>A consumed row has the pending row of its binding before it.\<close>

lemma consumed_has_pending:
  assumes "legal_history rs" "r \<in> set rs" "rc_delivery r = Delivery_Consumed"
  shows "\<exists>p \<in> set rs. rc_binding p = rc_binding r \<and> accepts_nudge p"
proof -
  let ?rows = "binding_receipts rs (rc_binding r)"
  have legal: "legal_rows ?rows" using assms(1) by (rule legal_binding_rows)
  have mem: "r \<in> set ?rows" using assms(2) by simp
  then obtain p others where rows: "?rows = p # others" by (cases ?rows) auto
  with legal mem assms(3) have "accepts_nudge p" by (auto simp: legal_rows_def accepts_nudge_def)
  moreover have "p \<in> set ?rows" using rows by simp
  ultimately show ?thesis by auto
qed

lemma one_pending_per_attempt:
  assumes "legal_history rs" "p \<in> set rs" "q \<in> set rs" "accepts_nudge p" "accepts_nudge q" "attempt_key p = attempt_key q"
  shows "p = q"
proof -
  have "inj_on attempt_key (set (filter accepts_nudge rs))"
    using assms(1) by (simp add: legal_history_def distinct_map)
  then show ?thesis using assms(2-) by (auto dest: inj_onD)
qed

end
