(* ===== verification/Supervision_Invariants.thy ===== *)
theory Supervision_Invariants
  imports Supervision_History
begin

text \<open>
  Invariants of the supervision store.  The first locale lists the writes every operation is made
  of, as laws an invariant has to obey; the operations keep any such invariant.  The interpretations at
  the end are the invariants the properties rest on.
\<close>

section \<open>The writes\<close>

definition put_receipts :: "receipt list \<Rightarrow> sup_store \<Rightarrow> sup_store" where
  "put_receipts rs st = st\<lparr>ss_receipts := rs\<rparr>"

definition halted :: "snapshot \<Rightarrow> bool" where
  "halted s \<longleftrightarrow> stop_pending s \<or> sn_phase s = Ph_Terminal \<and> sn_status s = St_Terminal"

lemma put_snapshot_simps [simp]:
  "ss_receipts (put_snapshot s st) = ss_receipts st" "ss_inboxes (put_snapshot s st) = ss_inboxes st"
  "ss_tasks (put_snapshot s st) = ss_tasks st" "ss_project (put_snapshot s st) = ss_project st"
  "ss_mission (put_snapshot s st) = ss_mission st"
  "map_of (ss_snapshots (put_snapshot s st)) a = (if a = sn_attempt s then Some s else map_of (ss_snapshots st) a)"
  by (simp_all add: put_snapshot_def update_conv)

lemma put_receipts_simps [simp]:
  "ss_receipts (put_receipts rs st) = rs" "ss_inboxes (put_receipts rs st) = ss_inboxes st"
  "ss_snapshots (put_receipts rs st) = ss_snapshots st" "ss_tasks (put_receipts rs st) = ss_tasks st"
  "ss_project (put_receipts rs st) = ss_project st" "ss_mission (put_receipts rs st) = ss_mission st"
  by (simp_all add: put_receipts_def)

lemma load_snapshot_put_receipts [simp]: "load_snapshot a (put_receipts rs st) = load_snapshot a st"
  by (simp add: load_snapshot_def split: option.split)

lemma load_snapshotD:
  "load_snapshot a st = Inr (Some s) \<Longrightarrow> map_of (ss_snapshots st) a = Some s \<and> sn_attempt s = a \<and> snapshot_ok s"
  by (auto simp: load_snapshot_def split: if_splits option.splits)

lemma load_snapshot_NoneD: "load_snapshot a st = Inr None \<Longrightarrow> map_of (ss_snapshots st) a = None"
  by (auto simp: load_snapshot_def split: if_splits option.splits)

lemma require_bound_snapshotD:
  "require_bound_snapshot b st = Inr s \<Longrightarrow>
     load_snapshot (b_attempt b) st = Inr (Some s) \<and> binding_from_snapshot s = b \<and> sn_attempt s = b_attempt b"
  by (auto simp: require_bound_snapshot_def dest: load_snapshotD split: sum.splits option.splits if_splits)

lemma require_current_or_stoppingD:
  "require_current_or_stopping b st = Inr s \<Longrightarrow> require_bound_snapshot b st = Inr s \<and> (at_checkpoint s \<or> stop_pending s)"
  by (auto simp: require_current_or_stopping_def split: sum.splits if_splits)

lemma load_receiptsD:
  "load_receipts st = Inr rs \<Longrightarrow> ss_receipts st = rs \<and> list_all receipt_ok rs \<and> legal_history rs"
  by (auto simp: load_receipts_def validate_receipt_transitions_legal split: if_splits)

lemma snapshot_ok_moved:
  "snapshot_ok s \<Longrightarrow> (ph = Ph_Terminal) = (stt = St_Terminal) \<Longrightarrow> snapshot_ok (s\<lparr>sn_phase := ph, sn_status := stt\<rparr>)"
  unfolding snapshot_ok_def by (cases "sn_review s") auto

text \<open>What an append leaves behind: the store as it was, or with one more receipt that the replay accepts.\<close>

lemma append_receipt_cases:
  obtains e where "append_receipt fault b action actor n digest del code st = (Inl e, st)"
  | rs r y where "append_receipt fault b action actor n digest del code st = (y, put_receipts (rs @ [r]) st)"
      "load_receipts st = Inr rs" "receipt_ok r" "validate_receipt_transitions (rs @ [r])"
      "rc_binding r = b" "rc_action r = action" "rc_code r = code" "rc_delivery r = del" "y = Inr r \<or> y = Inl Sup_Fault"
proof (cases "load_receipts st")
  case (Inl e)
  then show ?thesis using that(1)[of e] by (simp add: append_receipt_def andthen_def tries_def)
next
  case (Inr rs)
  let ?r = "\<lparr>rc_binding = b, rc_sequence = length rs + 1, rc_action = action, rc_actor = actor, rc_byte_count = n,
               rc_sha = digest, rc_delivery = del, rc_code = code\<rparr>"
  consider "\<not> receipt_ok ?r" | "receipt_ok ?r" "\<not> validate_receipt_transitions (rs @ [?r])"
    | "receipt_ok ?r" "validate_receipt_transitions (rs @ [?r])" by blast
  then show ?thesis
  proof cases
    case 1
    then show ?thesis using that(1)[of Validation_Error] Inr
      by (simp add: append_receipt_def Let_def andthen_def tries_def throw_def)
  next
    case 2
    then show ?thesis using that(1)[of receipt_integrity] Inr
      by (simp add: append_receipt_def Let_def andthen_def tries_def throw_def)
  next
    case 3
    let ?eff = "append_receipt fault b action actor n digest del code st"
    show ?thesis
    proof (cases "fault (''before_receipt_fsync:'' @ code_name code)")
      case True
      then have "?eff = (Inl Sup_Fault, st)" using 3 Inr
        by (simp add: append_receipt_def Let_def andthen_def tries_def sup_event_def refuse_if_def)
      then show ?thesis by (rule that(1))
    next
      case False
      then have "?eff = (if fault (''after_receipt_fsync:'' @ code_name code) then Inl Sup_Fault else Inr ?r, put_receipts (rs @ [?r]) st)"
        using 3 Inr
        by (simp add: append_receipt_def Let_def andthen_def tries_def sup_event_def refuse_if_def modifies_def ret_def put_receipts_def)
      then show ?thesis by (rule that(2)[OF _ Inr 3]) simp_all
    qed
  qed
qed

locale supervision_laws =
  fixes sha :: "string \<Rightarrow> string" and I :: "sup_store \<Rightarrow> bool"
  assumes inboxes: "I st \<Longrightarrow> I (st\<lparr>ss_inboxes := d\<rparr>)"
    and tasks: "I st \<Longrightarrow> I (st\<lparr>ss_tasks := ts\<rparr>)"
    and policies: "I st \<Longrightarrow> I (st\<lparr>ss_policies := ps\<rparr>)"
    and append: "I st \<Longrightarrow> load_receipts st = Inr rs \<Longrightarrow> receipt_ok r \<Longrightarrow> validate_receipt_transitions (rs @ [r])
      \<Longrightarrow> \<not> is_stop r \<Longrightarrow> I (put_receipts (rs @ [r]) st)"
    and halt: "I st \<Longrightarrow> load_snapshot (sn_attempt cur) st = Inr (Some cur)
      \<Longrightarrow> validate_monotonic_update cur (cur\<lparr>sn_phase := ph, sn_status := stt\<rparr>) assigned = None
      \<Longrightarrow> halted (cur\<lparr>sn_phase := ph, sn_status := stt\<rparr>)
      \<Longrightarrow> I (put_snapshot (cur\<lparr>sn_phase := ph, sn_status := stt\<rparr>) st)"
    and poll: "I st \<Longrightarrow> load_snapshot (sn_attempt cur) st = Inr (Some cur) \<Longrightarrow> snapshot_ok s
      \<Longrightarrow> validate_monotonic_update cur s assigned = None
      \<Longrightarrow> sn_phase cur \<in> {Ph_Active, Ph_Stopping} \<Longrightarrow> sn_phase s = sn_phase cur
      \<Longrightarrow> binding_from_snapshot s = binding_from_snapshot cur \<Longrightarrow> I (put_snapshot s st)"
    and restart: "I st \<Longrightarrow> load_snapshot (sn_attempt cur) st = Inr (Some cur) \<Longrightarrow> snapshot_ok s
      \<Longrightarrow> sn_phase s = Ph_Active \<Longrightarrow> sn_status s = St_Running \<Longrightarrow> validate_monotonic_update cur s assigned = None
      \<Longrightarrow> (sn_phase cur = Ph_Waiting \<Longrightarrow> resume_authority sha cur st = None) \<Longrightarrow> I (put_snapshot s st)"
    and first_save: "I st \<Longrightarrow> snapshot_ok s \<Longrightarrow> map_of (ss_snapshots st) (sn_attempt s) = None \<Longrightarrow> I (put_snapshot s st)"
begin

lemma append_receipt_keeps:
  assumes "\<not> (action = Do_Stop \<and> code = Rc_Stop_Requested)"
  shows "keeps I (append_receipt fault b action actor n digest del code)"
proof -
  have "I (snd (andthen (block
        [sup_event fault (''before_receipt_fsync:'' @ code_name code),
         modifies (\<lambda>st. st\<lparr>ss_receipts := rs @ [r]\<rparr>),
         sup_event fault (''after_receipt_fsync:'' @ code_name code)]) (\<lambda>_. ret r) st))"
    if "I st" "load_receipts st = Inr rs" "receipt_ok r" "validate_receipt_transitions (rs @ [r])" "\<not> is_stop r" for st rs r
    using append[OF that] that(1)
    by (simp add: andthen_def sup_event_def refuse_if_def modifies_def ret_def put_receipts_def)
  moreover have "\<not> is_stop \<lparr>rc_binding = b, rc_sequence = k, rc_action = action, rc_actor = actor, rc_byte_count = n,
               rc_sha = digest, rc_delivery = del, rc_code = code\<rparr>" for k
    using assms by (simp add: is_stop_def)
  ultimately show ?thesis
    unfolding append_receipt_def
    by (auto simp: Let_def throw_def intro!: keeps_tries_andthen)
qed

lemma append_for_inbox_keeps [keeps_intros]: "keeps I (append_for_inbox fault i del code)"
  unfolding append_for_inbox_def by (rule append_receipt_keeps) simp

lemma sup_event_keeps [keeps_intros]: "keeps I (sup_event fault label)"
  unfolding sup_event_def by (rule keeps_refuse_if)

lemma raise_if_keeps [keeps_intros]: "keeps I (raise_if e)"
  unfolding raise_if_def by (rule keeps_tries)

lemma put_inbox_keeps [keeps_intros]: "keeps I (modifies (put_inbox i))"
  by (rule keeps_modifies) (simp add: put_inbox_def inboxes)

lemma remove_inbox_keeps [keeps_intros]: "keeps I (remove_inbox fault a)"
  unfolding remove_inbox_def by (auto intro!: keeps_intros inboxes)

lemma save_halted:
  assumes "I st" "require_bound_snapshot b st = Inr s" "halted (s\<lparr>sn_phase := ph, sn_status := stt\<rparr>)"
  shows "I (snd (save_with_targets sha s (s\<lparr>sn_phase := ph, sn_status := stt\<rparr>) st))"
proof -
  have load: "load_snapshot (sn_attempt s) st = Inr (Some s)" using require_bound_snapshotD[OF assms(2)] by simp
  have "\<not> (ph = Ph_Active \<or> stt = St_Running)" using assms(3) by (auto simp: halted_def stop_pending_def)
  then show ?thesis
    using assms(1) load halt[OF assms(1) load _ assms(3)]
    unfolding save_with_targets_def save_snapshot_def
    by (auto simp: andthen_def tries_def raise_if_def modifies_def ret_def throw_def split: sum.splits option.splits)
qed

lemma append_continue_keeps [keeps_intros]:
  "keeps I (append_receipt fault b Do_Continue actor n digest del code)"
  "keeps I (append_receipt fault b action actor n digest del Rc_Delivery_Blocked)"
  by (rule append_receipt_keeps, simp)+

lemma deposit_nudge_keeps [keeps_intros]: "keeps I (deposit_nudge sha fault rq)"
  unfolding deposit_nudge_def by (intro keeps_intros)

text \<open>A stop: the receipt first, then the snapshot.\<close>

lemma accept_action_result:
  assumes "I st" "require_bound_snapshot (rq_binding rq) st = Inr s"
    and "\<And>rs r. load_receipts st = Inr rs \<Longrightarrow> receipt_ok r \<Longrightarrow> validate_receipt_transitions (rs @ [r])
      \<Longrightarrow> rc_binding r = rq_binding rq \<Longrightarrow> I (put_receipts (rs @ [r]) st)"
  shows "I (snd (accept_action sha fault rq s st))"
  unfolding accept_action_def andthen_def
proof (cases rule: append_receipt_cases[where fault = fault and b = "rq_binding rq" and action = "rq_action rq"
      and actor = "rq_actor rq" and n = 0 and digest = None and del = Not_Applicable
      and code = "if rq_action rq = Do_Continue then Rc_Continued else Rc_Stop_Requested" and st = st])
  case (1 e)
  then show "I (snd (case append_receipt fault (rq_binding rq) (rq_action rq) (rq_actor rq) 0 None Not_Applicable
              (if rq_action rq = Do_Continue then Rc_Continued else Rc_Stop_Requested) st of
      (Inl e, t) \<Rightarrow> (Inl e, t)
    | (Inr r, t) \<Rightarrow> (if rq_action rq = Do_Stop then \<lambda>s'. case save_with_targets sha s (stopping s) s' of
          (Inl e, t) \<Rightarrow> (Inl e, t) | (Inr u, t) \<Rightarrow> ret r t else ret r) t))"
    using assms(1) by simp
next
  case (2 rs r y)
  let ?st = "put_receipts (rs @ [r]) st"
  have st: "I ?st" using 2 assms(3) by blast
  have "require_bound_snapshot (rq_binding rq) ?st = Inr s" using assms(2) by (simp add: require_bound_snapshot_def)
  then have "I (snd (save_with_targets sha s (stopping s) ?st))"
    using save_halted[OF st, of "rq_binding rq" s] by (simp add: stopping_def halted_def stop_pending_def)
  with 2(1,9) st show "I (snd (case append_receipt fault (rq_binding rq) (rq_action rq) (rq_actor rq) 0 None Not_Applicable
              (if rq_action rq = Do_Continue then Rc_Continued else Rc_Stop_Requested) st of
      (Inl e, t) \<Rightarrow> (Inl e, t)
    | (Inr r, t) \<Rightarrow> (if rq_action rq = Do_Stop then \<lambda>s'. case save_with_targets sha s (stopping s) s' of
          (Inl e, t) \<Rightarrow> (Inl e, t) | (Inr u, t) \<Rightarrow> ret r t else ret r) t))"
    by (auto simp: ret_def split: prod.split sum.split)
qed

lemma steer_locked_result:
  assumes "I st"
    and "\<And>s rs r. require_bound_snapshot (rc_binding r) st = Inr s \<Longrightarrow> at_checkpoint s \<Longrightarrow> load_receipts st = Inr rs
      \<Longrightarrow> receipt_ok r \<Longrightarrow> validate_receipt_transitions (rs @ [r]) \<Longrightarrow> I (put_receipts (rs @ [r]) st)"
  shows "I (snd (steer_locked sha fault supported rq st))"
proof -
  have "I (snd (accept_action sha fault rq s st))"
    if "require_bound_snapshot (rq_binding rq) st = Inr s" "at_checkpoint s" for s
    using that assms(2) by (intro accept_action_result[OF assms(1)]) metis+
  moreover have "I (snd (deposit_nudge sha fault rq st))" by (rule keepsD[OF deposit_nudge_keeps assms(1)])
  moreover have "I (snd (append_receipt fault b action actor n digest del Rc_Delivery_Blocked st))" for b action actor n digest del
    by (rule keepsD[OF append_continue_keeps(2) assms(1)])
  ultimately show ?thesis using assms(1) unfolding steer_locked_def
    by (auto simp: andthen_def tries_def raise_if_def throw_def split: sum.splits option.splits)
qed

lemma recover_stop_receipt_keeps [keeps_intros]: "keeps I (recover_stop_receipt sha r)"
  unfolding recover_stop_receipt_def
  by (auto intro!: keeps_intros keeps_tries_andthen save_halted
      simp: stopping_def halted_def stop_pending_def throw_def ret_def)

lemma recover_inbox_keeps [keeps_intros]: "keeps I (recover_inbox sha fault rs e)"
  unfolding recover_inbox_def Let_def by (intro keeps_intros)

lemma recover_inboxes_keeps [keeps_intros]: "keeps I (recover_inboxes sha fault rs es)"
  by (induction es arbitrary: rs) (auto intro!: keeps_intros)

lemma recover_supervision_keeps [keeps_intros]: "keeps I (recover_supervision sha fault)"
  unfolding recover_supervision_def by (intro keeps_intros)

lemma transaction_keeps: "keeps I m \<Longrightarrow> keeps I (supervised sha fault m)"
  unfolding supervised_def by (auto intro!: keeps_intros)

lemma save_running_keeps:
  assumes "snapshot_ok s" "sn_phase s = Ph_Active" "sn_status s = St_Running"
  shows "keeps I (save_snapshot sha s assigned)"
proof (rule keepsI)
  fix st assume st: "I st"
  have "I (put_snapshot s st)" if "load_snapshot (sn_attempt s) st = Inr None"
    using first_save[OF st assms(1)] load_snapshot_NoneD[OF that] by blast
  moreover have "I (put_snapshot s st)"
    if "load_snapshot (sn_attempt s) st = Inr (Some cur)" "validate_monotonic_update cur s assigned = None"
      "sn_phase cur = Ph_Waiting \<Longrightarrow> resume_authority sha cur st = None" for cur
    using restart[OF st _ assms that(2) that(3)] that(1) load_snapshotD[OF that(1)] by simp
  ultimately show "I (snd (save_snapshot sha s assigned st))" using st assms(2)
    unfolding save_snapshot_def
    by (auto simp: andthen_def tries_def raise_if_def modifies_def ret_def throw_def split: sum.splits option.splits)
qed

lemma resume_after_continue_keeps [keeps_intros]: "keeps I (resume_after_continue sha b)"
  unfolding resume_after_continue_def
proof (rule keeps_tries_andthen)
  fix st s assume st: "I st" and cur: "require_current_or_stopping b st = Inr s"
  let ?s = "s\<lparr>sn_phase := Ph_Active, sn_status := St_Running\<rparr>"
  have "load_snapshot (sn_attempt s) st = Inr (Some s)"
    using require_current_or_stoppingD[OF cur] require_bound_snapshotD[of b st s] by auto
  then have "snapshot_ok ?s" by (auto intro: snapshot_ok_moved dest: load_snapshotD)
  then have "keeps I (save_with_targets sha s ?s)"
    unfolding save_with_targets_def by (intro keeps_intros save_running_keeps) simp_all
  then show "I (snd ((if sn_phase s = Ph_Stopping then ret () else save_with_targets sha s ?s) st))"
    using st by (auto simp: ret_def dest: keepsD)
qed

lemma save_advisory_keeps:
  assumes "snapshot_ok projected"
  shows "keeps I (save_advisory_snapshot expected projected assigned)"
proof (rule keepsI)
  fix st assume st: "I st"
  show "I (snd (save_advisory_snapshot expected projected assigned st))"
  proof (cases "load_snapshot (sn_attempt expected) st = Inr (Some expected)
      \<and> sn_phase expected \<in> {Ph_Active, Ph_Stopping}
      \<and> expected\<lparr>sn_elapsed := sn_elapsed projected, sn_requests := sn_requests projected, sn_status := sn_status projected\<rparr> = projected
      \<and> validate_monotonic_update expected projected assigned = None")
    case True
    then have eq: "projected = expected\<lparr>sn_elapsed := sn_elapsed projected, sn_requests := sn_requests projected, sn_status := sn_status projected\<rparr>"
      by simp
    have "sn_phase projected = sn_phase expected" by (subst eq) simp
    moreover have "binding_from_snapshot projected = binding_from_snapshot expected"
      by (subst eq) (simp add: binding_from_snapshot_def)
    ultimately have "I (put_snapshot projected st)" using True poll[OF st _ assms] by blast
    then show ?thesis using st unfolding save_advisory_snapshot_def
      by (auto simp: andthen_def tries_def raise_if_def modifies_def throw_def ret_def split: sum.splits option.splits)
  next
    case False
    then show ?thesis using st unfolding save_advisory_snapshot_def
      by (auto simp: andthen_def tries_def raise_if_def modifies_def throw_def ret_def dest: load_snapshotD
          split: sum.splits option.splits)
  qed
qed

end

section \<open>The operations behind a recovered transaction\<close>

locale supervision_runs = supervision_laws +
  assumes publish: "I st \<Longrightarrow> load_snapshot (sn_attempt cur) st = Inr (Some cur) \<Longrightarrow> at_checkpoint s \<Longrightarrow> snapshot_ok s
      \<Longrightarrow> validate_monotonic_update cur s assigned = None \<Longrightarrow> I (put_snapshot s st)"
begin

lemma consume_nudge_keeps [keeps_intros]: "keeps I (consume_nudge sha fault b)"
  unfolding consume_nudge_def deliver_nudge_def Let_def by (intro keeps_intros)

lemma wait_locked_keeps: "keeps I (wait_locked sha fault b expired)"
  unfolding wait_locked_def by (intro keeps_intros)

lemma save_checkpoint_keeps:
  assumes "at_checkpoint s" "snapshot_ok s"
  shows "keeps I (save_snapshot sha s assigned)"
proof (rule keepsI)
  fix st assume st: "I st"
  have "sn_phase s \<noteq> Ph_Active" "sn_status s \<noteq> St_Running" using assms(1) by (simp_all add: at_checkpoint_def)
  moreover have "I (put_snapshot s st)" if "load_snapshot (sn_attempt s) st = Inr None"
    using first_save[OF st assms(2)] load_snapshot_NoneD[OF that] by blast
  moreover have "I (put_snapshot s st)"
    if "load_snapshot (sn_attempt s) st = Inr (Some cur)" "validate_monotonic_update cur s assigned = None" for cur
    using publish[OF st _ assms that(2)] that(1) load_snapshotD[OF that(1)] by simp
  ultimately show "I (snd (save_snapshot sha s assigned st))" using st
    unfolding save_snapshot_def
    by (auto simp: andthen_def tries_def raise_if_def modifies_def ret_def throw_def split: sum.splits option.splits)
qed

lemma report_locked_keeps: "at_checkpoint s \<Longrightarrow> snapshot_ok s \<Longrightarrow> keeps I (report_locked sha s assigned)"
  unfolding report_locked_def by (intro keeps_intros save_checkpoint_keeps)

lemma terminal_snapshot_halted: "halted (terminal_snapshot s)"
  by (simp add: terminal_snapshot_def halted_def)

lemma finalize_locked_keeps: "keeps I (finalize_locked attempt assigned)"
proof -
  have "I (snd ((case found of
         None \<Rightarrow> ret (None, False)
       | Some cur \<Rightarrow>
          andthen (tries load_receipts) (\<lambda>rs.
          let stopped = stop_pending cur \<or> (\<exists>r \<in> set (binding_receipts rs (binding_from_snapshot cur)). is_stop r) in
          if sn_phase cur = Ph_Terminal then ret (Some cur, stopped)
          else andthen (raise_if (validate_monotonic_update cur (terminal_snapshot cur) assigned)) (\<lambda>_.
               andthen (modifies (put_snapshot (terminal_snapshot cur))) (\<lambda>_. ret (Some cur, stopped))))) st))"
    if st: "I st" and load: "load_snapshot attempt st = Inr found" for st found
  proof (cases found)
    case None
    then show ?thesis using st by (simp add: ret_def)
  next
    case (Some cur)
    have "I (put_snapshot (terminal_snapshot cur) st)" if "validate_monotonic_update cur (terminal_snapshot cur) assigned = None"
      using halt[OF st, of cur St_Terminal Ph_Terminal assigned] that load Some load_snapshotD[of attempt st cur]
        terminal_snapshot_halted[of cur] by (simp add: terminal_snapshot_def)
    then show ?thesis using Some st
      by (auto simp: andthen_def tries_def raise_if_def modifies_def ret_def throw_def Let_def split: sum.splits option.splits)
  qed
  then show ?thesis unfolding finalize_locked_def by (intro keeps_tries_andthen) blast
qed

end

end
