(* ===== verification/Supervision_Steps.thy ===== *)
theory Supervision_Steps
  imports Supervision_Invariants
begin

text \<open>
  The supervision store as a state machine: one step is one call of an operation, with any
  arguments the schemas admit and any fault, whether it returns or raises.  The invariants are
  interpretations of the locales of \<^theory_text>\<open>Supervision_Invariants\<close>.
\<close>

inductive sup_step :: "(string \<Rightarrow> string) \<Rightarrow> sup_store \<Rightarrow> sup_store \<Rightarrow> bool" for sha where
  steer: "request_ok rq \<Longrightarrow> sup_step sha st (snd (steer_attempt sha fault supported rq st))"
| wait: "sup_step sha st (snd (wait_turn sha fault b expired st))"
| report: "snapshot_ok s \<Longrightarrow> sup_step sha st (snd (report_checkpoint sha s assigned st))"
| finalize: "sup_step sha st (snd (finalize_attempt sha attempt assigned st))"
| recover: "sup_step sha st (snd (supervised sha fault (ret ()) st))"
| poll: "snapshot_ok projected \<Longrightarrow> sup_step sha st (snd (save_advisory_snapshot expected projected assigned st))"
| begin_attempt: "snapshot_ok s \<Longrightarrow> sn_phase s = Ph_Active \<Longrightarrow> sn_status s = St_Running \<Longrightarrow>
    sup_step sha st (snd (save_snapshot sha s assigned st))"
| policy: "sup_step sha st (st\<lparr>ss_policies := ps\<rparr>)"
| replan: "sup_step sha st (st\<lparr>ss_tasks := tks\<rparr>)"

inductive_cases sup_stepE: "sup_step sha st st'"

abbreviation sup_steps :: "(string \<Rightarrow> string) \<Rightarrow> sup_store \<Rightarrow> sup_store \<Rightarrow> bool" where
  "sup_steps sha \<equiv> (sup_step sha)\<^sup>*\<^sup>*"

section \<open>Invariants that do not depend on the recovery\<close>

locale supervision_ledger = supervision_runs +
  assumes append_stop: "I st \<Longrightarrow> load_receipts st = Inr rs \<Longrightarrow> receipt_ok r
    \<Longrightarrow> validate_receipt_transitions (rs @ [r]) \<Longrightarrow> is_stop r \<Longrightarrow> I (put_receipts (rs @ [r]) st)"
begin

lemma steer_attempt_keeps: "keeps I (steer_attempt sha fault supported rq)"
  unfolding steer_attempt_def
  by (intro transaction_keeps keepsI steer_locked_result) (metis append append_stop)+

lemma wait_turn_keeps: "keeps I (wait_turn sha fault b expired)"
  unfolding wait_turn_def by (intro transaction_keeps wait_locked_keeps)

lemma step: "sup_step sha st st' \<Longrightarrow> I st \<Longrightarrow> I st'"
proof (induction rule: sup_step.induct)
  case (report s st assigned)
  have "keeps I (report_checkpoint sha s assigned)"
    unfolding report_checkpoint_def using report.hyps
    by (intro keeps_intros transaction_keeps report_locked_keeps) simp_all
  then show ?case using report.prems by (rule keepsD)
next
  case (finalize st attempt assigned)
  have "keeps I (finalize_attempt sha attempt assigned)"
    unfolding finalize_attempt_def by (intro transaction_keeps finalize_locked_keeps)
  then show ?case using finalize.prems by (rule keepsD)
qed (auto intro: keepsD[OF steer_attempt_keeps] keepsD[OF wait_turn_keeps] keepsD[OF save_advisory_keeps] keepsD[OF save_running_keeps] tasks policies
    keepsD[OF transaction_keeps[OF keeps_ret]])

lemma steps: "sup_steps sha st st' \<Longrightarrow> I st \<Longrightarrow> I st'"
  by (induction rule: rtranclp_induct) (auto intro: step)

end

section \<open>The receipt history only grows\<close>

definition history_from :: "receipt list \<Rightarrow> sup_store \<Rightarrow> bool" where
  "history_from old st \<longleftrightarrow> (\<exists>new. ss_receipts st = old @ new) \<and> load_receipts st = Inr (ss_receipts st)"

lemma load_receipts_put: "load_receipts (put_receipts rs st) = (if list_all receipt_ok rs \<and> validate_receipt_transitions rs
    then Inr rs else Inl receipt_integrity)"
  by (simp add: load_receipts_def)

lemma load_receipts_cong: "ss_receipts st = ss_receipts st' \<Longrightarrow> load_receipts st = load_receipts st'"
  by (simp add: load_receipts_def)

lemma history_from_cong: "ss_receipts st = ss_receipts st' \<Longrightarrow> history_from old st = history_from old st'"
  using load_receipts_cong[of st st'] by (simp add: history_from_def)

lemma history_from_append:
  assumes "history_from old st" "load_receipts st = Inr rs" "receipt_ok r" "validate_receipt_transitions (rs @ [r])"
  shows "history_from old (put_receipts (rs @ [r]) st)"
  using assms load_receiptsD[OF assms(2)] unfolding history_from_def load_receipts_put by auto

interpretation history: supervision_ledger sha "history_from old" for sha old
proof unfold_locales
  show "history_from old (put_receipts (rs @ [r]) st)"
    if "history_from old st" "load_receipts st = Inr rs" "receipt_ok r" "validate_receipt_transitions (rs @ [r])" for st rs r
    using that by (rule history_from_append)
  then show "history_from old (put_receipts (rs @ [r]) st)"
    if "history_from old st" "load_receipts st = Inr rs" "receipt_ok r" "validate_receipt_transitions (rs @ [r])" for st rs r
    using that by blast
qed (simp_all cong: history_from_cong)

section \<open>Snapshots only advance\<close>

definition advances :: "snapshot \<Rightarrow> snapshot \<Rightarrow> bool" where
  "advances cur new \<longleftrightarrow>
     sn_attempt new = sn_attempt cur \<and> sn_mission new = sn_mission cur \<and> sn_project new = sn_project cur
     \<and> sn_node new = sn_node cur \<and> sn_review new = sn_review cur \<and> sn_role new = sn_role cur
     \<and> sn_sequence cur \<le> sn_sequence new
     \<and> (sn_phase cur = Ph_Active \<and> sn_phase new = Ph_Waiting \<longrightarrow> sn_sequence cur < sn_sequence new)
     \<and> (sn_sequence new = sn_sequence cur \<longrightarrow> sn_blocker new = sn_blocker cur \<and> sn_scope new = sn_scope cur)
     \<and> sn_elapsed cur \<le> sn_elapsed new \<and> sn_requests cur \<le> sn_requests new \<and> sn_effect cur \<le> sn_effect new
     \<and> set (sn_completed cur) \<subseteq> set (sn_completed new) \<and> set (sn_remaining new) \<subseteq> set (sn_remaining cur)
     \<and> phase_rank (sn_phase cur) \<le> phase_rank (sn_phase new) \<and> status_rank (sn_status cur) \<le> status_rank (sn_status new)"

lemma validate_monotonic_advances: "validate_monotonic_update cur new assigned = None \<Longrightarrow> advances cur new"
  by (auto simp: validate_monotonic_update_def advances_def split: if_splits)

lemma advances_refl: "advances s s" by (simp add: advances_def)

lemma advances_trans:
  assumes "advances a b" "advances b c"
  shows "advances a c"
proof -
  have "sn_sequence a < sn_sequence c" if "sn_phase a = Ph_Active" "sn_phase c = Ph_Waiting"
  proof (cases "sn_phase b")
    case Ph_Stopping
    then show ?thesis using assms(2) that by (simp add: advances_def)
  next
    case Ph_Terminal
    then show ?thesis using assms(2) that by (simp add: advances_def)
  qed (use assms that in \<open>simp_all add: advances_def\<close>)
  moreover have "sn_blocker c = sn_blocker a \<and> sn_scope c = sn_scope a" if "sn_sequence c = sn_sequence a"
    using assms that by (simp add: advances_def)
  ultimately show ?thesis using assms unfolding advances_def by (elim conjE, intro conjI impI) auto
qed

definition advanced_from :: "sup_store \<Rightarrow> sup_store \<Rightarrow> bool" where
  "advanced_from old st \<longleftrightarrow> (\<forall>a s. map_of (ss_snapshots old) a = Some s \<longrightarrow>
     (\<exists>t. map_of (ss_snapshots st) a = Some t \<and> advances s t))"

lemma advanced_from_put:
  assumes "advanced_from old st" "load_snapshot (sn_attempt cur) st = Inr (Some cur)"
    "validate_monotonic_update cur s assigned = None"
  shows "advanced_from old (put_snapshot s st)"
proof -
  have adv: "advances cur s" using assms(3) by (rule validate_monotonic_advances)
  then have "sn_attempt s = sn_attempt cur" by (simp add: advances_def)
  then show ?thesis using assms(1) load_snapshotD[OF assms(2)] advances_trans[OF _ adv]
    unfolding advanced_from_def by fastforce
qed

lemma advanced_from_first:
  "advanced_from old st \<Longrightarrow> map_of (ss_snapshots st) (sn_attempt s) = None \<Longrightarrow> advanced_from old (put_snapshot s st)"
  unfolding advanced_from_def by fastforce

lemma advanced_from_cong: "ss_snapshots st = ss_snapshots st' \<Longrightarrow> advanced_from old st = advanced_from old st'"
  by (simp add: advanced_from_def)

interpretation advance: supervision_ledger sha "advanced_from old" for sha old
  by unfold_locales
    (simp_all add: advanced_from_put advanced_from_first cong: advanced_from_cong)

section \<open>Every stored record satisfies its schema\<close>

definition records_ok :: "sup_store \<Rightarrow> bool" where
  "records_ok st \<longleftrightarrow> list_all receipt_ok (ss_receipts st)
     \<and> (\<forall>a s. map_of (ss_snapshots st) a = Some s \<longrightarrow> snapshot_ok s \<and> sn_attempt s = a)"

lemma records_ok_put: "records_ok st \<Longrightarrow> snapshot_ok s \<Longrightarrow> records_ok (put_snapshot s st)"
  by (simp add: records_ok_def)

lemma records_ok_append: "records_ok st \<Longrightarrow> load_receipts st = Inr rs \<Longrightarrow> receipt_ok r \<Longrightarrow> records_ok (put_receipts (rs @ [r]) st)"
  using load_receiptsD[of st rs] by (auto simp: records_ok_def)

lemma records_ok_cong:
  "ss_snapshots st = ss_snapshots st' \<Longrightarrow> ss_receipts st = ss_receipts st' \<Longrightarrow> records_ok st = records_ok st'"
  by (simp add: records_ok_def)

lemma halted_snapshot_ok: "load_snapshot a st = Inr (Some cur) \<Longrightarrow> halted (cur\<lparr>sn_phase := ph, sn_status := stt\<rparr>)
    \<Longrightarrow> snapshot_ok (cur\<lparr>sn_phase := ph, sn_status := stt\<rparr>)"
  by (rule snapshot_ok_moved) (auto dest: load_snapshotD simp: halted_def stop_pending_def)

interpretation records: supervision_ledger sha records_ok for sha
  by unfold_locales
    (auto intro!: records_ok_put records_ok_append intro: halted_snapshot_ok cong: records_ok_cong)

end
