(* ===== verification/Supervision_Stops.thy ===== *)
theory Supervision_Stops
  imports Supervision_Steps
begin

text \<open>
  The stop protocol.  A stop is recorded first and moves the snapshot afterwards, so a crash may
  leave its attempt at the checkpoint; the recovery at the start of the next transaction finishes the
  move.  \<open>stops_bound\<close> holds between operations, \<open>stops_settled\<close> behind a recovery.
\<close>

section \<open>The attempt of a stop receipt\<close>

definition held :: "(snapshot \<Rightarrow> bool) \<Rightarrow> receipt \<Rightarrow> sup_store \<Rightarrow> bool" where
  "held P r st \<longleftrightarrow> (\<exists>s. map_of (ss_snapshots st) (b_attempt (rc_binding r)) = Some s
     \<and> binding_from_snapshot s = rc_binding r \<and> P s)"

definition stops_hold :: "(snapshot \<Rightarrow> bool) \<Rightarrow> sup_store \<Rightarrow> bool" where
  "stops_hold P st \<longleftrightarrow> (\<forall>r \<in> set (ss_receipts st). is_stop r \<longrightarrow> held P r st)"

definition halting :: "snapshot \<Rightarrow> bool" where
  "halting s \<longleftrightarrow> at_checkpoint s \<or> halted s"

abbreviation stops_bound :: "sup_store \<Rightarrow> bool" where
  "stops_bound \<equiv> stops_hold halting"

abbreviation stops_settled :: "sup_store \<Rightarrow> bool" where
  "stops_settled \<equiv> stops_hold halted"

lemma settled_bound: "stops_settled st \<Longrightarrow> stops_bound st"
  unfolding stops_hold_def held_def halting_def by blast

lemma binding_attempt: "binding_from_snapshot s = b \<Longrightarrow> b_attempt b = sn_attempt s"
  by (auto simp: binding_from_snapshot_def)

lemma binding_moved [simp]:
  "binding_from_snapshot (s\<lparr>sn_phase := ph, sn_status := stt\<rparr>) = binding_from_snapshot s"
  by (simp add: binding_from_snapshot_def)

lemma held_put:
  assumes "held P r st" "load_snapshot (sn_attempt cur) st = Inr (Some cur)"
    "binding_from_snapshot s = binding_from_snapshot cur" "P cur \<Longrightarrow> P s"
  shows "held P r (put_snapshot s st)"
proof -
  have "sn_attempt s = sn_attempt cur"
    using binding_attempt[of s "binding_from_snapshot s"] binding_attempt[of cur "binding_from_snapshot cur"] assms(3) by simp
  then show ?thesis using assms load_snapshotD[OF assms(2)] unfolding held_def by auto
qed

lemma held_first: "held P r st \<Longrightarrow> map_of (ss_snapshots st) (sn_attempt s) = None \<Longrightarrow> held P r (put_snapshot s st)"
  unfolding held_def by auto

lemma held_other:
  assumes "held P r st" "load_snapshot (sn_attempt cur) st = Inr (Some cur)" "\<not> P cur" "sn_attempt s = sn_attempt cur"
  shows "held P r (put_snapshot s st)"
  using assms load_snapshotD[OF assms(2)] unfolding held_def by auto

lemma held_cong: "ss_snapshots st = ss_snapshots st' \<Longrightarrow> held P r st = held P r st'"
  by (simp add: held_def)

text \<open>A poll keeps a stopping attempt stopping.\<close>

lemma polled_halted:
  assumes "halted cur" "sn_phase cur \<in> {Ph_Active, Ph_Stopping}" "snapshot_ok s"
    "validate_monotonic_update cur s assigned = None" "sn_phase s = sn_phase cur"
  shows "halted s"
proof -
  have "stop_pending cur" using assms(1,2) by (auto simp: halted_def)
  moreover have "advances cur s" using assms(4) by (rule validate_monotonic_advances)
  moreover have "(sn_phase s = Ph_Terminal) = (sn_status s = St_Terminal)" using assms(3) by (simp add: snapshot_ok_def)
  ultimately show ?thesis using assms(5)
    by (cases "sn_status s") (auto simp: halted_def stop_pending_def advances_def)
qed

lemma polled_halting:
  assumes "halting cur" "sn_phase cur \<in> {Ph_Active, Ph_Stopping}" "snapshot_ok s"
    "validate_monotonic_update cur s assigned = None" "sn_phase s = sn_phase cur"
  shows "halting s"
proof -
  have "halted cur" using assms(1,2) by (auto simp: halting_def at_checkpoint_def)
  then show ?thesis using polled_halted assms(2-) by (auto simp: halting_def)
qed

lemma stops_hold_append:
  "stops_hold P st \<Longrightarrow> load_receipts st = Inr rs \<Longrightarrow> (is_stop r \<Longrightarrow> held P r st) \<Longrightarrow> stops_hold P (put_receipts (rs @ [r]) st)"
  using load_receiptsD[of st rs] by (auto simp: stops_hold_def held_def)

lemma stops_hold_update:
  "stops_hold P st \<Longrightarrow> (\<And>r. held P r st \<Longrightarrow> held P r (put_snapshot s st)) \<Longrightarrow> stops_hold P (put_snapshot s st)"
  by (auto simp: stops_hold_def)

lemma stops_hold_cong:
  "ss_snapshots st = ss_snapshots st' \<Longrightarrow> ss_receipts st = ss_receipts st' \<Longrightarrow> stops_hold P st = stops_hold P st'"
  by (simp add: stops_hold_def held_def)

lemma advances_active: "advances cur s \<Longrightarrow> sn_phase s = Ph_Active \<Longrightarrow> \<not> halted cur"
  by (auto simp: advances_def halted_def stop_pending_def)

lemma restart_not_held:
  assumes "held halted r st" "load_snapshot (sn_attempt cur) st = Inr (Some cur)" "sn_phase s = Ph_Active"
    "validate_monotonic_update cur s assigned = None"
  shows "held halted r (put_snapshot s st)"
proof -
  have "advances cur s" using assms(4) by (rule validate_monotonic_advances)
  then show ?thesis using held_other[OF assms(1,2)] advances_active assms(3) by (auto simp: advances_def)
qed

text \<open>An attempt waiting at a stopped checkpoint has no authority to run on.\<close>

lemma stop_denies_resume:
  assumes "r \<in> set (ss_receipts st)" "is_stop r" "binding_from_snapshot cur = rc_binding r"
  shows "resume_authority sha cur st \<noteq> None"
proof (cases "load_receipts st")
  case (Inr rs)
  have rs: "rs = ss_receipts st" "list_all receipt_ok rs" "legal_history rs" using load_receiptsD[OF Inr] by auto
  have "rc_action r \<noteq> Do_Nudge" using assms(2) by (simp add: is_stop_def)
  then have rows: "binding_receipts rs (rc_binding r) = [r]" using final_row_alone[OF rs(3)] assms(1) rs(1) by blast
  have "receipt_ok r" using rs(1,2) assms(1) by (auto simp: list_all_iff)
  then have "rc_delivery r = Not_Applicable" using assms(2) by (auto simp: receipt_ok_def is_stop_def Let_def)
  then show ?thesis using Inr rows assms(2,3)
    by (auto simp: resume_authority_def is_stop_def Let_def split: option.splits sum.splits)
qed (simp add: resume_authority_def)

lemma restart_bound:
  assumes st: "stops_bound st" and load: "load_snapshot (sn_attempt cur) st = Inr (Some cur)" and s: "sn_phase s = Ph_Active"
    and mono: "validate_monotonic_update cur s assigned = None"
    and auth: "sn_phase cur = Ph_Waiting \<Longrightarrow> resume_authority sha cur st = None"
  shows "stops_bound (put_snapshot s st)"
proof -
  have adv: "advances cur s" using mono by (rule validate_monotonic_advances)
  then have att: "sn_attempt s = sn_attempt cur" by (simp add: advances_def)
  have "held halting r (put_snapshot s st)" if r: "r \<in> set (ss_receipts st)" "is_stop r" for r
  proof (cases "binding_from_snapshot cur = rc_binding r")
    case True
    have "held halting r st" using st r by (auto simp: stops_hold_def)
    then have "halting cur" using load_snapshotD[OF load] True binding_attempt[OF True] by (auto simp: held_def)
    then have "sn_phase cur = Ph_Waiting" using advances_active[OF adv s] by (auto simp: halting_def at_checkpoint_def)
    then show ?thesis using auth stop_denies_resume[OF r True] by blast
  next
    case False
    have "held halting r st" using st r by (auto simp: stops_hold_def)
    then show ?thesis using False load_snapshotD[OF load] att by (auto simp: held_def)
  qed
  then show ?thesis by (auto simp: stops_hold_def)
qed

interpretation stop_row: supervision_laws sha "held halted r" for sha r
  by unfold_locales
    (auto intro: held_put held_first polled_halted restart_not_held simp: halting_def cong: held_cong)

interpretation bound: supervision_laws sha stops_bound for sha
proof unfold_locales
  show "stops_bound (put_snapshot s st)"
    if "stops_bound st" "load_snapshot (sn_attempt cur) st = Inr (Some cur)" "sn_phase s = Ph_Active"
      "validate_monotonic_update cur s assigned = None" "sn_phase cur = Ph_Waiting \<Longrightarrow> resume_authority sha cur st = None"
    for st cur s assigned
    using that by (rule restart_bound)
qed (auto intro!: stops_hold_append stops_hold_update intro: held_put held_first polled_halting
      simp: halting_def[of "_\<lparr>sn_phase := _, sn_status := _\<rparr>"] cong: stops_hold_cong)

lemma advances_halted: "advances cur s \<Longrightarrow> at_checkpoint s \<Longrightarrow> \<not> halted cur"
  by (auto simp: advances_def at_checkpoint_def halted_def stop_pending_def)

interpretation settled: supervision_runs sha stops_settled for sha
proof unfold_locales
  fix st cur s assigned
  assume "stops_settled st" "load_snapshot (sn_attempt cur) st = Inr (Some cur)" "at_checkpoint s" "snapshot_ok s"
    "validate_monotonic_update cur s assigned = None"
  moreover have "advances cur s" by (rule validate_monotonic_advances) fact
  moreover have "sn_attempt s = sn_attempt cur" using \<open>advances cur s\<close> by (simp add: advances_def)
  ultimately show "stops_settled (put_snapshot s st)"
    by (intro stops_hold_update held_other[of _ _ _ cur]) (auto dest: advances_halted)
qed (auto intro!: stops_hold_append stops_hold_update intro: held_put held_first polled_halted restart_not_held cong: stops_hold_cong)

section \<open>Recovery settles every stop\<close>

lemma save_snapshot_Inr:
  "save_snapshot sha s assigned st = (Inr u, st') \<Longrightarrow> map_of (ss_snapshots st') (sn_attempt s) = Some s"
  unfolding save_snapshot_def
  by (auto simp: andthen_def tries_def raise_if_def modifies_def ret_def throw_def dest!: load_snapshotD
      split: sum.splits option.splits if_splits)

lemma recover_stop_receipt_settles:
  assumes "recover_stop_receipt sha r st = (Inr u, st')" "is_stop r"
  shows "held halted r st'"
proof -
  have *: "held halted r st'" if "save_snapshot sha (stopping s) assigned st = (Inr w, st')"
    "require_bound_snapshot (rc_binding r) st = Inr s" for s assigned w
    using save_snapshot_Inr[OF that(1)] require_bound_snapshotD[OF that(2)]
    by (auto simp: held_def stopping_def halted_def stop_pending_def)
  have "held halted r st" if "require_bound_snapshot (rc_binding r) st = Inr s" "halted s" for s
    using require_bound_snapshotD[OF that(1)] load_snapshotD[of "b_attempt (rc_binding r)" st s] that(2) by (auto simp: held_def)
  with * assms show ?thesis
    unfolding recover_stop_receipt_def save_with_targets_def halted_def
    by (auto simp: andthen_def tries_def ret_def throw_def split: sum.splits if_splits)
qed

lemma save_snapshot_receipts: "keeps (\<lambda>st. ss_receipts st = rs) (save_snapshot sha s assigned)"
  unfolding save_snapshot_def raise_if_def by (intro keeps_intros) simp_all

lemma recover_stop_receipt_receipts: "keeps (\<lambda>st. ss_receipts st = rs) (recover_stop_receipt sha r)"
  unfolding recover_stop_receipt_def save_with_targets_def
  by (intro keeps_intros save_snapshot_receipts)

lemma recover_stops:
  "triple (\<lambda>st. stops_bound st \<and> ss_receipts st = rs) (for_each rs (recover_stop_receipt sha))
     (\<lambda>_. stops_settled) (\<lambda>_. stops_bound)"
proof (rule triple_conseq)
  let ?I = "\<lambda>ys st. stops_bound st \<and> ss_receipts st = rs \<and> (\<forall>r \<in> set ys. is_stop r \<longrightarrow> held halted r st)"
  show "triple (?I []) (for_each rs (recover_stop_receipt sha)) (\<lambda>_. ?I rs) (\<lambda>_. stops_bound)"
  proof (rule triple_for_each, rule tripleI)
    fix ys r zs st e st'
    assume st: "?I ys st" and res: "recover_stop_receipt sha r st = (Inl e, st')"
    show "stops_bound st'" using keeps_result[OF bound.recover_stop_receipt_keeps _ res] st by blast
  next
    fix ys r zs st u st'
    assume st: "?I ys st" and res: "recover_stop_receipt sha r st = (Inr u, st')"
    have "stops_bound st'" using keeps_result[OF bound.recover_stop_receipt_keeps _ res] st by blast
    moreover have "ss_receipts st' = rs" using keeps_result[OF recover_stop_receipt_receipts _ res] st by blast
    moreover have "held halted q st'" if "q \<in> set ys" "is_stop q" for q
      using keeps_result[OF stop_row.recover_stop_receipt_keeps _ res] st that by blast
    ultimately show "?I (ys @ [r]) st'" using recover_stop_receipt_settles[OF res] by auto
  qed
qed (auto simp: stops_hold_def)

lemma recovery_settles:
  "triple stops_bound (recover_supervision sha fault) (\<lambda>_. stops_settled) (\<lambda>_. stops_bound)"
  unfolding recover_supervision_def
proof (rule triple_andthen)
  show "triple stops_bound (tries load_receipts) (\<lambda>rs st. stops_bound st \<and> ss_receipts st = rs) (\<lambda>_. stops_bound)"
    using load_receiptsD by (intro triple_tries) blast+
next
  fix rs
  let ?rest = "\<lambda>_. andthen (reads (\<lambda>st. inbox_order (ss_inboxes st))) (\<lambda>entries.
    andthen (recover_inboxes sha fault rs entries) (\<lambda>(bs, rs').
      if orphan_nudge bs rs' then throw inbox_integrity else ret ()))"
  have "keeps stops_settled (?rest ())" by (intro keeps_intros settled.recover_inboxes_keeps)
  then have "triple stops_settled (?rest ()) (\<lambda>_. stops_settled) (\<lambda>_. stops_bound)"
    using settled_bound by (intro triple_conseq[OF keeps_triple]) blast+
  then show "triple (\<lambda>st. stops_bound st \<and> ss_receipts st = rs)
      (andthen (for_each rs (recover_stop_receipt sha)) ?rest) (\<lambda>_. stops_settled) (\<lambda>_. stops_bound)"
    by (intro triple_andthen[OF recover_stops]) simp
qed

lemma transaction_settles:
  assumes "\<And>st. stops_settled st \<Longrightarrow> stops_bound (snd (m st))"
  shows "keeps stops_bound (supervised sha fault m)"
proof (rule keepsI)
  fix st assume st: "stops_bound st"
  obtain x t where rec: "recover_supervision sha fault st = (x, t)" by fastforce
  have "stops_bound (snd (m t))" if "x = Inr u" for u
    using tripleD_Inr[OF recovery_settles st, of sha fault u t] rec that assms by blast
  moreover have "stops_bound t" if "x = Inl e" for e
    using tripleD_Inl[OF recovery_settles st, of sha fault e t] rec that by blast
  ultimately show "stops_bound (snd (supervised sha fault m st))"
    using rec st by (cases x) (simp_all add: supervised_def andthen_def sup_event_def refuse_if_def ret_def)
qed

section \<open>Every step keeps the stops bound\<close>

lemma settled_then: "keeps stops_settled m \<Longrightarrow> stops_settled st \<Longrightarrow> stops_bound (snd (m st))"
  by (rule settled_bound, rule keepsD)

lemma steer_keeps_stops: "keeps stops_bound (steer_attempt sha fault supported rq)"
  unfolding steer_attempt_def
proof (rule transaction_settles, rule bound.steer_locked_result)
  fix st s rs and r :: receipt
  assume st: "stops_settled st" and s: "require_bound_snapshot (rc_binding r) st = Inr s" "at_checkpoint s"
    and rs: "load_receipts st = Inr rs"
  show "stops_bound (put_receipts (rs @ [r]) st)"
    using require_bound_snapshotD[OF s(1)] s(2) load_snapshotD[of "b_attempt (rc_binding r)" st s]
    by (intro stops_hold_append[OF settled_bound[OF st] rs]) (auto simp: held_def halting_def)
qed (rule settled_bound)

lemma stops_bound_step: "sup_step sha st st' \<Longrightarrow> stops_bound st \<Longrightarrow> stops_bound st'"
proof (induction rule: sup_step.induct)
  case (steer rq st fault supported)
  then show ?case using keepsD[OF steer_keeps_stops] by blast
next
  case (wait st fault b expired)
  have "keeps stops_bound (wait_turn sha fault b expired)"
    unfolding wait_turn_def by (intro transaction_settles settled_then settled.wait_locked_keeps)
  then show ?case using wait.prems by (rule keepsD)
next
  case (report s st assigned)
  have "keeps stops_bound (supervised sha (\<lambda>_. False) (report_locked sha s assigned))" if "at_checkpoint s"
    using that report.hyps by (intro transaction_settles settled_then settled.report_locked_keeps)
  then have "keeps stops_bound (report_checkpoint sha s assigned)"
    unfolding report_checkpoint_def by (intro keeps_intros) simp_all
  then show ?case using report.prems by (rule keepsD)
next
  case (finalize st attempt assigned)
  have "keeps stops_bound (finalize_attempt sha attempt assigned)"
    unfolding finalize_attempt_def by (intro transaction_settles settled_then settled.finalize_locked_keeps)
  then show ?case using finalize.prems by (rule keepsD)
next
  case (recover st fault)
  have "keeps stops_bound (supervised sha fault (ret ()))" by (intro transaction_settles settled_then keeps_ret)
  then show ?case using recover.prems by (rule keepsD)
next
  case (poll projected st expected assigned)
  then show ?case using keepsD[OF bound.save_advisory_keeps] by blast
next
  case (begin_attempt s st assigned)
  then show ?case using keepsD[OF bound.save_running_keeps] by blast
next
  case (policy st ps)
  then show ?case using bound.policies by blast
next
  case (replan st tks)
  then show ?case using bound.tasks by blast
qed

lemma stops_bound_steps: "sup_steps sha st st' \<Longrightarrow> stops_bound st \<Longrightarrow> stops_bound st'"
  by (induction rule: rtranclp_induct) (auto intro: stops_bound_step)

end
