(* ===== verification/Supervision_Theorems.thy ===== *)
theory Supervision_Theorems
  imports Supervision_Stops Demo_Mission
begin

text \<open>The properties of the supervision component, with the lemmas about single waits they need.\<close>

section \<open>One wait\<close>

lemma transaction_Inr:
  assumes "supervised sha fault m st = (Inr x, st')"
  obtains t where "recover_supervision sha fault st = (Inr (), t)" "m t = (Inr x, st')"
  using assms unfolding supervised_def
  by (auto simp: andthen_def sup_event_def refuse_if_def ret_def split: prod.splits sum.splits if_splits)

lemma andthen_InrE:
  assumes "andthen m f st = (Inr x, st')"
  obtains a t where "m st = (Inr a, t)" "f a t = (Inr x, st')"
  using assms by (auto simp: andthen_def split: prod.splits sum.splits)

lemma tries_InrE: "tries f st = (Inr a, t) \<Longrightarrow> f st = Inr a \<and> t = st"
  by (auto simp: tries_def)

lemma reads_InrE: "reads f st = (Inr a, t) \<Longrightarrow> f st = a \<and> t = st"
  by (auto simp: reads_def)

lemma append_receipt_InrE:
  assumes "append_receipt fault b action actor n digest del code st = (Inr r, st')"
  obtains rs where "load_receipts st = Inr rs" "st' = put_receipts (rs @ [r]) st" "receipt_ok r"
    "validate_receipt_transitions (rs @ [r])" "rc_binding r = b" "rc_action r = action" "rc_delivery r = del" "rc_code r = code"
  by (rule append_receipt_cases[of fault b action actor n digest del code st]) (use assms in auto)

lemma history_recovered:
  assumes "load_receipts st = Inr (ss_receipts st)" "recover_supervision sha fault st = (x, t)"
  shows "history_from (ss_receipts st) t"
  using keeps_result[OF history.recover_supervision_keeps _ assms(2), of "ss_receipts st"] assms(1)
  by (simp add: history_from_def)

lemma history_load: "history_from old st \<Longrightarrow> load_receipts st = Inr (ss_receipts st)"
  by (simp add: history_from_def)

lemma history_mem: "history_from old st \<Longrightarrow> r \<in> set old \<Longrightarrow> r \<in> set (ss_receipts st)"
  by (auto simp: history_from_def)

section \<open>A nudge is delivered once\<close>

definition consumed_for :: "string \<times> string \<times> string \<Rightarrow> receipt list \<Rightarrow> bool" where
  "consumed_for k rs \<longleftrightarrow> (\<exists>c \<in> set rs. rc_delivery c = Delivery_Consumed \<and> attempt_key c = k)"

definition binding_attempt_key :: "steering_binding \<Rightarrow> string \<times> string \<times> string" where
  "binding_attempt_key b = (b_project b, b_mission b, b_attempt b)"

lemma attempt_key_binding: "attempt_key r = binding_attempt_key (rc_binding r)"
  by (simp add: attempt_key_def binding_attempt_key_def)

lemma pending_row_accepts:
  assumes "legal_history rs" "pending_row (binding_receipts rs b) = Some p"
  shows "p \<in> set rs \<and> rc_binding p = b \<and> accepts_nudge p"
proof -
  have p: "p \<in> set (binding_receipts rs b)" "rc_delivery p = Delivery_Pending"
    using assms(2) unfolding pending_row_def find_Some_iff by (metis nth_mem)+
  have "legal_rows (binding_receipts rs b)" using assms(1) by (rule legal_binding_rows)
  then have "rc_action p = Do_Nudge" using p
    by (cases "binding_receipts rs b") (auto simp: legal_rows_def list_all_iff nudge_of_def split: if_splits)
  then show ?thesis using p by (simp add: accepts_nudge_def)
qed

lemma consume_nudge_delivers:
  assumes run: "consume_nudge sha fault b st = (Inr out, st')" and hist: "load_receipts st = Inr (ss_receipts st)"
    and nudge: "so_action out = Do_Nudge"
  shows "\<not> consumed_for (binding_attempt_key b) (ss_receipts st)"
    and "consumed_for (binding_attempt_key b) (ss_receipts st')"
    and "\<exists>p body. p \<in> set (ss_receipts st) \<and> rc_binding p = b \<and> accepts_nudge p
           \<and> so_body out = Some body \<and> rc_sha p = Some (sha (utf8 body))"
proof -
  let ?rs = "ss_receipts st"
  let ?rows = "binding_receipts ?rs b"
  have legal: "legal_history ?rs" using load_receiptsD[OF hist] by blast
  have none: "\<not> (\<exists>r \<in> set ?rows. rc_delivery r = Delivery_Consumed)"
  proof
    assume ex: "\<exists>r \<in> set ?rows. rc_delivery r = Delivery_Consumed"
    have "andthen (resume_after_continue sha b) (\<lambda>_. ret (Steering_Outcome Do_Continue None ''nudge_already_consumed'')) st
        = (Inr out, st')"
      using run hist unfolding consume_nudge_def andthen_def[of "tries _"] tries_def by (simp add: if_P[OF ex] Let_def)
    then show False using nudge by (auto elim!: andthen_InrE simp: ret_def)
  qed
  from run hist none obtain raw i p where i: "map_of (ss_inboxes st) (b_attempt b) = Some raw" "load_inbox sha raw = Inr i"
    and p: "pending_row ?rows = Some p" "inbox_matches i p"
    and rest: "deliver_nudge sha fault b ?rows i st = (Inr out, st')"
    unfolding consume_nudge_def
    by (auto elim!: andthen_InrE dest!: tries_InrE reads_InrE simp: Let_def throw_def split: option.splits if_splits)
  have pend: "p \<in> set ?rs" "rc_binding p = b" "accepts_nudge p" using pending_row_accepts[OF legal p(1)] by auto
  have ok: "inbox_ok sha i" using i(2) by (auto simp: load_inbox_def split: if_splits)
  have ib: "ib_binding i = b" using p(2) pend(2) by (simp add: inbox_matches_def)
  show "\<not> consumed_for (binding_attempt_key b) ?rs"
  proof
    assume "consumed_for (binding_attempt_key b) ?rs"
    then obtain c where c: "c \<in> set ?rs" "rc_delivery c = Delivery_Consumed" "attempt_key c = binding_attempt_key b"
      by (auto simp: consumed_for_def)
    obtain q where q: "q \<in> set ?rs" "rc_binding q = rc_binding c" "accepts_nudge q"
      using consumed_has_pending[OF legal c(1,2)] by blast
    have "attempt_key p = attempt_key q" using c(3) q(2) pend(2) by (simp add: attempt_key_binding)
    then have "p = q" using one_pending_per_attempt[OF legal pend(1) q(1) pend(3) q(3)] by blast
    then show False using none c q(2) pend(2) by auto
  qed
  from rest obtain u v t t' where t: "append_for_inbox fault i Delivery_Consumed Rc_Nudge_Consumed t = (Inr u, t')"
    and after: "andthen (remove_inbox fault (b_attempt b)) (\<lambda>_. andthen (resume_after_continue sha b)
              (\<lambda>_. ret (Steering_Outcome Do_Nudge (Some (ib_body i)) ''nudge_consumed''))) t' = (Inr out, st')"
    unfolding deliver_nudge_def by - (erule andthen_InrE, erule andthen_InrE, erule andthen_InrE, blast)
  from t[unfolded append_for_inbox_def] obtain rs where u: "t' = put_receipts (rs @ [u]) t" "receipt_ok u" "load_receipts t = Inr rs"
    "validate_receipt_transitions (rs @ [u])" "rc_binding u = b" "rc_delivery u = Delivery_Consumed"
    by (rule append_receipt_InrE) (use ib in auto)
  have start: "history_from (rs @ [u]) t'"
    using u(1,2,4) load_receiptsD[OF u(3)] by (simp add: history_from_def load_receipts_put)
  have keep: "keeps (history_from (rs @ [u])) (andthen (remove_inbox fault (b_attempt b)) (\<lambda>_. andthen (resume_after_continue sha b)
              (\<lambda>_. ret (Steering_Outcome Do_Nudge (Some (ib_body i)) ''nudge_consumed''))))"
    by (intro keeps_intros history.remove_inbox_keeps history.resume_after_continue_keeps)
  have "history_from (rs @ [u]) st'" by (rule keeps_result[OF keep start after])
  then have "u \<in> set (ss_receipts st')" by (rule history_mem) simp
  then show "consumed_for (binding_attempt_key b) (ss_receipts st')"
    using u(5,6) unfolding consumed_for_def attempt_key_binding by blast
  have "out = Steering_Outcome Do_Nudge (Some (ib_body i)) ''nudge_consumed''"
    using after by (auto elim!: andthen_InrE simp: ret_def)
  then show "\<exists>p body. p \<in> set ?rs \<and> rc_binding p = b \<and> accepts_nudge p
           \<and> so_body out = Some body \<and> rc_sha p = Some (sha (utf8 body))"
    using pend ok p(2) by (auto simp: inbox_ok_def inbox_matches_def)
qed

lemma wait_turn_delivers:
  assumes run: "wait_turn sha fault b expired st = (Inr (Some out), st')" and hist: "load_receipts st = Inr (ss_receipts st)"
    and nudge: "so_action out = Do_Nudge"
  shows "\<not> consumed_for (binding_attempt_key b) (ss_receipts st)"
    and "consumed_for (binding_attempt_key b) (ss_receipts st')"
    and "\<exists>p body. p \<in> set (ss_receipts st') \<and> rc_binding p = b \<and> accepts_nudge p
           \<and> so_body out = Some body \<and> rc_sha p = Some (sha (utf8 body))"
proof -
  from run obtain t where rec: "recover_supervision sha fault st = (Inr (), t)"
    and body: "wait_locked sha fault b expired t = (Inr (Some out), st')"
    unfolding wait_turn_def by (rule transaction_Inr)
  have t: "history_from (ss_receipts st) t" using hist rec by (rule history_recovered)
  have con: "consume_nudge sha fault b t = (Inr out, st')"
    using body nudge unfolding wait_locked_def
    by (auto elim!: andthen_InrE dest!: tries_InrE simp: ret_def split: list.splits if_splits)
  note del = consume_nudge_delivers[OF con history_load[OF t] nudge]
  show "\<not> consumed_for (binding_attempt_key b) (ss_receipts st)"
    using del(1) history_mem[OF t] unfolding consumed_for_def by blast
  show "consumed_for (binding_attempt_key b) (ss_receipts st')" by (rule del(2))
  have "keeps (history_from (ss_receipts t)) (consume_nudge sha fault b)" by (rule history.consume_nudge_keeps)
  moreover have "history_from (ss_receipts t) t" using t by (simp add: history_from_def)
  ultimately have "history_from (ss_receipts t) st'" using con by (rule keeps_result)
  then have "p \<in> set (ss_receipts t) \<Longrightarrow> p \<in> set (ss_receipts st')" for p by (rule history_mem)
  with del(3) show "\<exists>p body. p \<in> set (ss_receipts st') \<and> rc_binding p = b \<and> accepts_nudge p
           \<and> so_body out = Some body \<and> rc_sha p = Some (sha (utf8 body))" by blast
qed

text \<open>C2. A nudge reaches its attempt at most once.  When a wait has returned a nudge, the body it
  returned has the digest of the receipt that accepted it, and no later wait of the same attempt, at any
  checkpoint and after any further operations, crashes or recoveries, returns a nudge again.\<close>

theorem nudge_delivered_once:
  assumes "load_receipts st = Inr (ss_receipts st)"
    and "wait_turn sha fault b expired st = (Inr (Some out), st1)" "so_action out = Do_Nudge"
  shows "(\<exists>p body. p \<in> set (ss_receipts st1) \<and> rc_binding p = b \<and> accepts_nudge p
           \<and> so_body out = Some body \<and> rc_sha p = Some (sha (utf8 body)))
    \<and> (\<forall>st2 st3 fault' b' expired' out'.
         sup_steps sha st1 st2 \<and> binding_attempt_key b' = binding_attempt_key b
         \<and> wait_turn sha fault' b' expired' st2 = (Inr (Some out'), st3) \<longrightarrow> so_action out' \<noteq> Do_Nudge)"
proof (intro conjI allI impI)
  note del = wait_turn_delivers[OF assms(2,1,3)]
  show "\<exists>p body. p \<in> set (ss_receipts st1) \<and> rc_binding p = b \<and> accepts_nudge p
           \<and> so_body out = Some body \<and> rc_sha p = Some (sha (utf8 body))" by (rule del(3))
  fix st2 st3 fault' b' expired' out'
  assume later: "sup_steps sha st1 st2 \<and> binding_attempt_key b' = binding_attempt_key b
         \<and> wait_turn sha fault' b' expired' st2 = (Inr (Some out'), st3)"
  have "history_from (ss_receipts st) st" using assms(1) by (simp add: history_from_def)
  then have "history_from (ss_receipts st) st1" using keeps_result[OF history.wait_turn_keeps _ assms(2)] by blast
  then have "history_from (ss_receipts st1) st1" by (simp add: history_from_def)
  then have two: "history_from (ss_receipts st1) st2" using later history.steps by blast
  then have "consumed_for (binding_attempt_key b) (ss_receipts st2)"
    using del(2) history_mem unfolding consumed_for_def by blast
  then show "so_action out' \<noteq> Do_Nudge" using wait_turn_delivers(1)[OF _ history_load[OF two]] later by metis
qed

section \<open>A stop is final\<close>

lemma stopped_waits:
  assumes bound: "stops_bound st" and hist: "load_receipts st = Inr (ss_receipts st)"
    and r: "r \<in> set (ss_receipts st)" "is_stop r"
    and run: "wait_turn sha fault (rc_binding r) expired st = (Inr out, st')"
  shows "out = Some (Steering_Outcome Do_Stop None ''stop_requested'')"
proof -
  from run obtain t where rec: "recover_supervision sha fault st = (Inr (), t)"
    and body: "wait_locked sha fault (rc_binding r) expired t = (Inr out, st')"
    unfolding wait_turn_def by (rule transaction_Inr)
  have t: "history_from (ss_receipts st) t" using hist rec by (rule history_recovered)
  have rs: "load_receipts t = Inr (ss_receipts t)" using t by (rule history_load)
  have mem: "r \<in> set (ss_receipts t)" using t r(1) by (rule history_mem)
  have "rc_action r \<noteq> Do_Nudge" using r(2) by (simp add: is_stop_def)
  then have rows: "binding_receipts (ss_receipts t) (rc_binding r) = [r]"
    using final_row_alone[of "ss_receipts t" r] mem load_receiptsD[OF rs] by blast
  have "receipt_ok r" using mem load_receiptsD[OF rs] by (auto simp: list_all_iff)
  then have "rc_delivery r \<noteq> Delivery_Blocked" using r(2) by (auto simp: receipt_ok_def is_stop_def Let_def)
  then show ?thesis using body r(2) rs rows unfolding wait_locked_def
    by (auto elim!: andthen_InrE dest!: tries_InrE simp: is_stop_def ret_def)
qed

lemma stopped_finalizes:
  assumes bound: "stops_bound st" and hist: "load_receipts st = Inr (ss_receipts st)"
    and r: "r \<in> set (ss_receipts st)" "is_stop r"
    and run: "finalize_attempt sha (b_attempt (rc_binding r)) assigned st = (Inr (found, stopped), st')"
  shows "found \<noteq> None \<and> stopped"
proof -
  from run obtain t where rec: "recover_supervision sha (\<lambda>_. False) st = (Inr (), t)"
    and body: "finalize_locked (b_attempt (rc_binding r)) assigned t = (Inr (found, stopped), st')"
    unfolding finalize_attempt_def by (rule transaction_Inr)
  have t: "history_from (ss_receipts st) t" using hist rec by (rule history_recovered)
  have rs: "load_receipts t = Inr (ss_receipts t)" using t by (rule history_load)
  have mem: "r \<in> set (ss_receipts t)" using t r(1) by (rule history_mem)
  have "stops_settled t" using tripleD_Inr[OF recovery_settles bound rec] .
  then obtain s where s: "map_of (ss_snapshots t) (b_attempt (rc_binding r)) = Some s" "binding_from_snapshot s = rc_binding r"
    using mem r(2) unfolding stops_hold_def held_def by blast
  from body obtain v where v: "load_snapshot (b_attempt (rc_binding r)) t = Inr v"
    unfolding finalize_locked_def by (auto elim!: andthen_InrE dest!: tries_InrE)
  have "v = Some s" using v s(1) by (auto simp: load_snapshot_def split: if_splits)
  then show ?thesis using body v rs mem s(2) r(2) unfolding finalize_locked_def
    by (auto elim!: andthen_InrE dest!: tries_InrE simp: ret_def Let_def split: if_splits)
qed

lemma stop_retained:
  assumes "ss_receipts st0 = []" "sup_steps sha st0 st1" "r \<in> set (ss_receipts st1)" "sup_steps sha st1 st2"
  shows "stops_bound st2" "load_receipts st2 = Inr (ss_receipts st2)" "r \<in> set (ss_receipts st2)"
proof -
  have h0: "history_from [] st0"
    using assms(1) by (simp add: history_from_def load_receipts_def validate_receipt_transitions_legal)
  have "stops_bound st0" using assms(1) by (simp add: stops_hold_def)
  then show "stops_bound st2" using stops_bound_steps assms(2,4) by blast
  have "history_from [] st1" by (rule history.steps[OF assms(2) h0])
  then have "history_from (ss_receipts st1) st1" by (simp add: history_from_def)
  then have h2: "history_from (ss_receipts st1) st2" using history.steps[OF assms(4)] by blast
  then show "load_receipts st2 = Inr (ss_receipts st2)" "r \<in> set (ss_receipts st2)"
    using history_load history_mem[OF h2 assms(3)] by blast+
qed

text \<open>C1. A stop is final.  From a store with no receipts, once a stop has been recorded for a checkpoint,
  then after any further operations, crashes or recoveries the attempt is still the one of that checkpoint,
  at it, stopping or terminal and never active again; every wait at the checkpoint that returns, returns the
  stop; and every finalization of the attempt that returns, reports it stopped.\<close>

theorem stop_is_final:
  assumes "ss_receipts st0 = []" "sup_steps sha st0 st1" "r \<in> set (ss_receipts st1)" "is_stop r" "sup_steps sha st1 st2"
  shows "(\<exists>s. map_of (ss_snapshots st2) (b_attempt (rc_binding r)) = Some s \<and> binding_from_snapshot s = rc_binding r
            \<and> (at_checkpoint s \<or> stop_pending s \<or> sn_phase s = Ph_Terminal))
    \<and> (\<forall>fault expired out st3. wait_turn sha fault (rc_binding r) expired st2 = (Inr out, st3) \<longrightarrow>
         out = Some (Steering_Outcome Do_Stop None ''stop_requested''))
    \<and> (\<forall>assigned found stopped st3.
         finalize_attempt sha (b_attempt (rc_binding r)) assigned st2 = (Inr (found, stopped), st3) \<longrightarrow> found \<noteq> None \<and> stopped)"
proof -
  note kept = stop_retained [OF assms(1-3,5)]
  have "held halting r st2" using kept(1,3) assms(4) by (auto simp: stops_hold_def)
  then have "\<exists>s. map_of (ss_snapshots st2) (b_attempt (rc_binding r)) = Some s \<and> binding_from_snapshot s = rc_binding r
            \<and> (at_checkpoint s \<or> stop_pending s \<or> sn_phase s = Ph_Terminal)"
    unfolding held_def halting_def halted_def by blast
  then show ?thesis using stopped_waits [OF kept assms(4)] stopped_finalizes [OF kept assms(4)] by blast
qed

section \<open>Histories and snapshots\<close>

text \<open>C23. The replay that guards every read of the receipts accepts a list exactly when it is a legal
  history: sequence numbers 1 to n, for each checkpoint either one final row or a nudge on its way from
  pending over delivered to consumed with the same actor, size and digest, and at most one accepted nudge
  per attempt.\<close>

theorem receipt_replay_iff_legal:
  "validate_receipt_transitions rs \<longleftrightarrow>
     map rc_sequence rs = [1..<length rs + 1]
     \<and> list_all (\<lambda>r. legal_rows (binding_receipts rs (rc_binding r))) rs
     \<and> distinct (map attempt_key (filter accepts_nudge rs))"
  by (simp only: validate_receipt_transitions_legal legal_history_def list_all_iff)

lemma receipts_kept:
  assumes "load_receipts st = Inr (ss_receipts st)" "sup_steps sha st st'"
  shows "(\<exists>new. ss_receipts st' = ss_receipts st @ new) \<and> load_receipts st' = Inr (ss_receipts st')"
proof -
  have "history_from (ss_receipts st) st" using assms(1) by (simp add: history_from_def)
  from history.steps[OF assms(2) this] show ?thesis by (simp add: history_from_def)
qed

text \<open>C24. Receipts are append-only: no operation, whether it returns, raises or crashes, changes or drops a
  recorded receipt, and a history the replay accepts stays one.\<close>

theorem receipts_append_only:
  assumes "load_receipts st = Inr (ss_receipts st)" "sup_steps sha st st'"
  shows "(\<exists>new. ss_receipts st' = ss_receipts st @ new) \<and> load_receipts st' = Inr (ss_receipts st')"
  using assms by (rule receipts_kept)

text \<open>The record of an attempt only advances: under any operations it keeps its identity and role, its
  checkpoint sequence and counters never fall, completed targets stay completed and no target is added to
  the remaining ones, a stopping or terminal attempt never runs again, and waiting again needs a new
  checkpoint.\<close>

theorem attempts_only_advance:
  assumes "sup_steps sha st st'" "map_of (ss_snapshots st) a = Some s"
  shows "\<exists>t. map_of (ss_snapshots st') a = Some t \<and> advances s t"
proof -
  have "advanced_from st st" using advances_refl by (simp add: advanced_from_def)
  from advance.steps[OF assms(1) this] show ?thesis using assms(2) by (simp add: advanced_from_def)
qed

text \<open>C25. Every record in the store satisfies its schema: under any operations the receipts keep the closed
  tuples of their action, actor, delivery and code, and each snapshot is a valid one filed under its own
  attempt.\<close>

theorem stored_records_stay_valid:
  assumes "sup_steps sha st st'" "records_ok st"
  shows "records_ok st'"
  using assms by (rule records.steps)

text \<open>One action per checkpoint: while the history has a receipt for a checkpoint, every further action on
  it is refused and leaves the receipts a recovery would leave.\<close>

theorem second_action_is_refused:
  assumes "load_receipts st = Inr (ss_receipts st)" "r \<in> set (ss_receipts st)" "rc_binding r = rq_binding rq"
  shows "\<exists>e. steer_attempt sha fault supported rq st = (Inl e, snd (supervised sha fault (ret ()) st))"
proof -
  obtain x t where rec: "recover_supervision sha fault st = (x, t)" by fastforce
  have t: "history_from (ss_receipts st) t" using assms(1) rec by (rule history_recovered)
  have "r \<in> set (binding_receipts (ss_receipts t) (rq_binding rq))" using history_mem[OF t assms(2)] assms(3) by simp
  then have rows: "binding_receipts (ss_receipts t) (rq_binding rq) \<noteq> []" by (metis empty_iff list.set(1))
  have "\<exists>e. steer_locked sha fault supported rq t = (Inl e, t)"
    using history_load[OF t] rows unfolding steer_locked_def
    by (cases "require_bound_snapshot (rq_binding rq) t") (auto simp: andthen_def tries_def throw_def)
  then show ?thesis using rec unfolding steer_attempt_def supervised_def
    by (cases x) (auto simp: andthen_def sup_event_def refuse_if_def ret_def)
qed

section \<open>Waiting ends\<close>

lemma expired_wait_decides: "wait_turn sha fault b True st \<noteq> (Inr None, st')"
proof
  assume "wait_turn sha fault b True st = (Inr None, st')"
  then obtain t where "wait_locked sha fault b True t = (Inr None, st')"
    unfolding wait_turn_def by (rule transaction_Inr)
  then show False unfolding wait_locked_def
    by (auto elim!: andthen_InrE dest!: tries_InrE simp: ret_def split: list.splits if_splits)
qed

text \<open>C26. Waiting at a checkpoint ends: whatever others do to the store in between, the loop has returned an
  outcome or raised once one of its looks is at or behind the deadline.\<close>

theorem wait_loop_ends:
  assumes "\<exists>m \<in> set moments. snd m"
  shows "fst (wait_loop sha fault b moments st) \<noteq> Inr None"
  using assms
proof (induction moments arbitrary: st)
  case (Cons m moments)
  obtain others expired where m: "m = (others, expired)" by fastforce
  obtain x t where run: "wait_turn sha fault b expired (others st) = (x, t)" by fastforce
  show ?case
  proof (cases x)
    case (Inr out)
    show ?thesis
    proof (cases out)
      case None
      then have "\<not> expired" using run Inr expired_wait_decides[of sha fault b "others st" t] by (cases expired) auto
      then show ?thesis using Cons m run Inr None by (simp add: andthen_def modifies_def)
    qed (use m run Inr in \<open>simp add: andthen_def modifies_def ret_def\<close>)
  qed (use m run in \<open>simp add: andthen_def modifies_def\<close>)
qed simp

lemma quiet_transaction:
  "recover_supervision sha (\<lambda>_. False) st = (Inr (), st) \<Longrightarrow> supervised sha (\<lambda>_. False) m st = m st"
  by (simp add: supervised_def andthen_def sup_event_def refuse_if_def ret_def)

lemma binding_ok_of_snapshot: "snapshot_ok s \<Longrightarrow> binding_ok (binding_from_snapshot s)"
  by (auto simp: snapshot_ok_def binding_ok_def binding_from_snapshot_def)

definition timeout_receipt :: "sup_store \<Rightarrow> steering_binding \<Rightarrow> receipt" where
  "timeout_receipt st b = \<lparr>rc_binding = b, rc_sequence = length (ss_receipts st) + 1, rc_action = Do_Continue,
     rc_actor = Timeout_Policy, rc_byte_count = 0, rc_sha = None, rc_delivery = Not_Applicable, rc_code = Rc_Timeout_Continue\<rparr>"

text \<open>No one answers: at a checkpoint of a store that needs no recovery and has no receipt for it, with
  the targets assigned as the task list says, the look behind the deadline records one timeout receipt,
  sets the attempt running again and returns to continue; the looks before it change nothing.\<close>

theorem timeout_resumes_attempt:
  assumes quiet: "recover_supervision sha (\<lambda>_. False) st = (Inr (), st)"
    and s: "require_bound_snapshot b st = Inr s" "at_checkpoint s" "sn_requests s \<le> MAX_CHECKPOINT_REQUESTS"
    and rows: "load_receipts st = Inr (ss_receipts st)" "binding_receipts (ss_receipts st) b = []"
    and targets: "assigned_targets s st = Inr assigned" "validate_target_partition s assigned = None"
  shows "wait_loop sha (\<lambda>_. False) b (replicate n (id, False) @ [(id, True)]) st =
    (Inr (Some (Steering_Outcome Do_Continue None ''timeout_continue'')),
     put_snapshot (s\<lparr>sn_phase := Ph_Active, sn_status := St_Running\<rparr>)
       (put_receipts (ss_receipts st @ [timeout_receipt st b]) st))"
proof -
  let ?r = "timeout_receipt st b" and ?s = "s\<lparr>sn_phase := Ph_Active, sn_status := St_Running\<rparr>"
  let ?rs = "ss_receipts st @ [?r]"
  let ?st = "put_receipts ?rs st"
  have load: "load_snapshot (sn_attempt s) st = Inr (Some s)" and b: "binding_from_snapshot s = b"
    using require_bound_snapshotD[OF s(1)] by auto
  have sok: "snapshot_ok s" using load_snapshotD[OF load] by blast
  have bound: "require_bound_snapshot b ?st = Inr s" using s(1) by (simp add: require_bound_snapshot_def)
  have cur: "require_current_or_stopping b st = Inr s" "require_current_or_stopping b ?st = Inr s"
    using s(1,2) bound by (simp_all add: require_current_or_stopping_def)
  have ok: "receipt_ok ?r" using binding_ok_of_snapshot[OF sok] b by (simp add: receipt_ok_def timeout_receipt_def)
  have old: "list_all receipt_ok (ss_receipts st)" "legal_history (ss_receipts st)" using load_receiptsD[OF rows(1)] by auto
  have "next_receipt_ok (length (ss_receipts st) + 1) (binding_receipts (ss_receipts st) (rc_binding ?r))
      (map attempt_key (filter accepts_nudge (ss_receipts st))) ?r"
    using rows(2) by (simp add: next_receipt_ok_row_step row_step_def timeout_receipt_def accepts_nudge_def)
  then have valid: "validate_receipt_transitions ?rs"
    using old(2) unfolding validate_receipt_transitions_legal legal_history_snoc by blast
  have new: "load_receipts ?st = Inr ?rs" using ok old(1) valid by (simp add: load_receipts_put)
  have wait: "sn_phase s = Ph_Waiting" "sn_status s = St_Waiting" using s(2) by (simp_all add: at_checkpoint_def)
  have "validate_target_partition ?s assigned = validate_target_partition s assigned"
    by (simp add: validate_target_partition_def)
  with targets(2) have "validate_target_partition ?s assigned = None" by simp
  then have mono: "validate_monotonic_update s ?s assigned = None" and part: "validate_target_partition ?s assigned = None"
    using wait by (simp_all add: validate_monotonic_update_def)
  have auth: "resume_authority sha s ?st = None"
    using new b by (simp add: resume_authority_def timeout_receipt_def)
  have neq: "s \<noteq> ?s" 
  proof
    assume "s = ?s"
    then have "sn_phase s = sn_phase ?s" by (rule arg_cong)
    then show False using wait by simp
  qed
  have tgt: "assigned_targets s ?st = Inr assigned" using targets(1) by (simp add: assigned_targets_def cong: option.case_cong)
  have "save_snapshot sha ?s assigned ?st = (Inr (), put_snapshot ?s ?st)"
    using part s(3) load mono neq wait auth
    by (simp add: save_snapshot_def andthen_def tries_def raise_if_def modifies_def)
  then have resume: "resume_after_continue sha b ?st = (Inr (), put_snapshot ?s ?st)"
    using cur(2) wait tgt by (simp add: resume_after_continue_def save_with_targets_def andthen_def tries_def)
  have "append_receipt (\<lambda>_. False) b Do_Continue Timeout_Policy 0 None Not_Applicable Rc_Timeout_Continue st = (Inr ?r, ?st)"
    using rows(1) ok valid
    by (simp add: append_receipt_def timeout_receipt_def Let_def andthen_def tries_def sup_event_def refuse_if_def
        modifies_def ret_def put_receipts_def)
  then have last: "wait_turn sha (\<lambda>_. False) b True st =
      (Inr (Some (Steering_Outcome Do_Continue None ''timeout_continue'')), put_snapshot ?s ?st)"
    using cur(1) rows resume unfolding wait_turn_def quiet_transaction[OF quiet] wait_locked_def
    by (simp add: andthen_def tries_def ret_def)
  have early: "wait_turn sha (\<lambda>_. False) b False st = (Inr None, st)"
    using cur(1) rows unfolding wait_turn_def quiet_transaction[OF quiet] wait_locked_def
    by (simp add: andthen_def tries_def ret_def)
  show ?thesis
    using last early by (induction n) (simp_all add: andthen_def modifies_def ret_def)
qed

section \<open>The checkpoint policy\<close>

lemma BACKOFF_positive: "k \<le> 2 \<Longrightarrow> 1 \<le> BACKOFF_MULTIPLIERS ! k"
  by (auto simp: BACKOFF_MULTIPLIERS_def nth_Cons split: nat.split)

text \<open>The sparse checkpoint policy.  A checkpoint is due exactly at a poll tick on a clock that has not run
  backwards, with fewer than two requests so far, and then only on an early signal or when 15 minutes have
  passed and the attempt has been silent for 10 minutes times the backoff; recording a request keeps the
  state within its bounds, and the third request is impossible.\<close>

theorem checkpoint_policy_sparse:
  assumes "policy_ok p" "evaluate_checkpoint_policy s p now = ev"
  shows "policy_ok (ev_state ev) \<and> ps_requests (ev_state ev) = ps_requests p \<and> ps_backoff p \<le> ps_backoff (ev_state ev)
    \<and> (ev_due ev \<longleftrightarrow> ps_started p \<le> now \<and> 30000000000 dvd now - ps_started p
         \<and> observe_effect s p now = Inr (ev_state ev) \<and> ps_requests p < 2
         \<and> (sn_blocker s \<noteq> None \<or> sn_scope s \<noteq> In_Scope
            \<or> 900000000000 \<le> now - ps_started p
              \<and> 600000000000 * BACKOFF_MULTIPLIERS ! ps_backoff (ev_state ev) \<le> now - silence_anchor (ev_state ev)))
    \<and> (case record_checkpoint_request ev now of
         Inl _ \<Rightarrow> \<not> ev_due ev
       | Inr q \<Rightarrow> ev_due ev \<and> policy_ok q \<and> ps_requests q = ps_requests p + 1 \<and> ps_latest q = Some now)"
proof -
  have obs: "policy_ok q \<and> ps_requests q = ps_requests p \<and> ps_backoff p \<le> ps_backoff q" if "observe_effect s p now = Inr q" for q
    using that assms(1) by (auto simp: observe_effect_def policy_ok_def Let_def split: if_splits)
  have scope: "sn_scope s \<in> {Scope_Uncertain, Scope_Violation} \<longleftrightarrow> sn_scope s \<noteq> In_Scope"
    by (cases "sn_scope s") auto
  note bounds = POLL_NANOSECONDS_def FIRST_CHECKPOINT_NANOSECONDS_def SILENCE_NANOSECONDS_def MAX_CHECKPOINT_REQUESTS_def
  have main: "policy_ok (ev_state ev) \<and> ps_requests (ev_state ev) = ps_requests p \<and> ps_backoff p \<le> ps_backoff (ev_state ev)
    \<and> (ev_due ev \<longleftrightarrow> ps_started p \<le> now \<and> 30000000000 dvd now - ps_started p
         \<and> observe_effect s p now = Inr (ev_state ev) \<and> ps_requests p < 2
         \<and> (sn_blocker s \<noteq> None \<or> sn_scope s \<noteq> In_Scope
            \<or> 900000000000 \<le> now - ps_started p
              \<and> 600000000000 * BACKOFF_MULTIPLIERS ! ps_backoff (ev_state ev) \<le> now - silence_anchor (ev_state ev)))"
    using assms(1) unfolding assms(2)[symmetric] evaluate_checkpoint_policy_def Let_def scope bounds dvd_eq_mod_eq_0
    by (cases "observe_effect s p now") (auto simp: verdict_at_def dest: obs)
  have "policy_ok q \<and> ps_requests q = ps_requests p + 1 \<and> ps_latest q = Some now" if "ev_due ev"
    "q = (ev_state ev)\<lparr>ps_requests := ps_requests (ev_state ev) + 1, ps_latest := Some now\<rparr>" for q
    using main that assms(1) by (auto simp: policy_ok_def MAX_CHECKPOINT_REQUESTS_def)
  moreover have "ps_requests (ev_state ev) < 2" if "ev_due ev" using main that by simp
  ultimately show ?thesis using main by (auto simp: record_checkpoint_request_def MAX_CHECKPOINT_REQUESTS_def)
qed

section \<open>Concrete instances\<close>

definition demo_digest :: "string \<Rightarrow> string" where
  "demo_digest b = replicate 64 (CHR ''0'')"

definition demo_waiting :: snapshot where
  "demo_waiting = \<lparr>sn_attempt = ''at1'', sn_blocker = None, sn_requests = 0, sn_sequence = 1, sn_completed = [],
     sn_elapsed = 0, sn_effect = 0, sn_mission = ''m1'', sn_node = Some ''w1'', sn_phase = Ph_Waiting,
     sn_project = ''p1'', sn_remaining = [''A-1''], sn_role = Worker_Role, sn_scope = In_Scope,
     sn_status = St_Waiting, sn_review = None\<rparr>"

definition demo_store :: sup_store where
  "demo_store = \<lparr>ss_project = ''p1'', ss_mission = ''m1'', ss_tasks = demo_plan,
     ss_snapshots = [(''at1'', demo_waiting)], ss_policies = [], ss_receipts = [], ss_inboxes = []\<rparr>"

definition demo_request :: "steer_action \<Rightarrow> string option \<Rightarrow> steering_request" where
  "demo_request action body = \<lparr>rq_binding = binding_from_snapshot demo_waiting, rq_action = action,
     rq_actor = Maintainer, rq_body = body\<rparr>"

definition demo_stopped :: sup_store where
  "demo_stopped = snd (steer_attempt demo_digest (\<lambda>_. False) True (demo_request Do_Stop None) demo_store)"

definition demo_nudged :: sup_store where
  "demo_nudged = snd (steer_attempt demo_digest (\<lambda>_. False) True (demo_request Do_Nudge (Some ''hurry'')) demo_store)"

lemma demo_request_ok: "request_ok (demo_request Do_Stop None)" by code_simp

lemma demo_stopped_step: "sup_steps demo_digest demo_store demo_stopped"
  unfolding demo_stopped_def by (rule r_into_rtranclp) (rule sup_step.steer[OF demo_request_ok])

lemma demo_stopped_receipts:
  "map rc_code (ss_receipts demo_stopped) = [Rc_Stop_Requested]"
  by code_simp

lemma demo_nudged_wait:
  "fst (wait_turn demo_digest (\<lambda>_. False) (binding_from_snapshot demo_waiting) False demo_nudged)
     = Inr (Some (Steering_Outcome Do_Nudge (Some ''hurry'') ''nudge_consumed''))"
  by code_simp

lemma demo_store_loads: "load_receipts demo_store = Inr (ss_receipts demo_store)" by code_simp

lemma demo_stopped_loads: "load_receipts demo_stopped = Inr (ss_receipts demo_stopped)"
  using receipts_kept[OF demo_store_loads demo_stopped_step] by blast

lemma demo_nudged_loads: "load_receipts demo_nudged = Inr (ss_receipts demo_nudged)" by code_simp

lemma demo_stop_row: "\<exists>r \<in> set (ss_receipts demo_stopped). is_stop r \<and> rc_binding r = binding_from_snapshot demo_waiting"
  by code_simp

theorem stop_is_final_witness:
  "\<exists>r \<in> set (ss_receipts demo_stopped). is_stop r
     \<and> (\<exists>s. map_of (ss_snapshots demo_stopped) (b_attempt (rc_binding r)) = Some s \<and> binding_from_snapshot s = rc_binding r
            \<and> (at_checkpoint s \<or> stop_pending s \<or> sn_phase s = Ph_Terminal))"
proof -
  obtain r where r: "r \<in> set (ss_receipts demo_stopped)" "is_stop r" using demo_stop_row by blast
  have "ss_receipts demo_store = []" by (simp add: demo_store_def)
  from stop_is_final[OF this demo_stopped_step r rtranclp.rtrancl_refl] r show ?thesis by blast
qed

theorem nudge_delivered_once_witness:
  "\<exists>(st1 :: sup_store) (p :: receipt). p \<in> set (ss_receipts st1) \<and> rc_binding p = binding_from_snapshot demo_waiting \<and> accepts_nudge p
     \<and> rc_sha p = Some (demo_digest (utf8 ''hurry''))"
proof -
  obtain st1 where "wait_turn demo_digest (\<lambda>_. False) (binding_from_snapshot demo_waiting) False demo_nudged
      = (Inr (Some (Steering_Outcome Do_Nudge (Some ''hurry'') ''nudge_consumed'')), st1)"
    using demo_nudged_wait by (metis prod.collapse)
  from nudge_delivered_once[OF demo_nudged_loads this]
  obtain p where "p \<in> set (ss_receipts st1)" "rc_binding p = binding_from_snapshot demo_waiting" "accepts_nudge p"
    "rc_sha p = Some (demo_digest (utf8 ''hurry''))" by auto
  then show ?thesis by blast
qed

theorem receipts_append_only_witness:
  "\<exists>new. ss_receipts demo_stopped = ss_receipts demo_store @ new"
  using receipts_append_only[OF demo_store_loads demo_stopped_step] by blast

theorem attempts_only_advance_witness:
  "\<exists>t. map_of (ss_snapshots demo_stopped) ''at1'' = Some t \<and> advances demo_waiting t"
  by (rule attempts_only_advance[OF demo_stopped_step]) (simp add: demo_store_def)

theorem stored_records_stay_valid_witness: "records_ok demo_stopped"
proof (rule stored_records_stay_valid[OF demo_stopped_step])
  have "snapshot_ok demo_waiting" by code_simp
  then show "records_ok demo_store" by (simp add: records_ok_def demo_store_def demo_waiting_def)
qed

theorem second_action_is_refused_witness:
  "\<exists>e. steer_attempt demo_digest (\<lambda>_. False) True (demo_request Do_Continue None) demo_stopped
     = (Inl e, snd (supervised demo_digest (\<lambda>_. False) (ret ()) demo_stopped))"
proof -
  obtain r where "r \<in> set (ss_receipts demo_stopped)" "rc_binding r = binding_from_snapshot demo_waiting"
    using demo_stop_row by blast
  then show ?thesis by (intro second_action_is_refused[OF demo_stopped_loads]) (simp_all add: demo_request_def)
qed

theorem wait_loop_ends_witness:
  "fst (wait_loop demo_digest (\<lambda>_. False) (binding_from_snapshot demo_waiting) [(id, False), (id, True)] demo_store) \<noteq> Inr None"
  by (rule wait_loop_ends) simp

theorem timeout_resumes_attempt_witness:
  "fst (wait_loop demo_digest (\<lambda>_. False) (binding_from_snapshot demo_waiting) (replicate 2 (id, False) @ [(id, True)]) demo_store)
     = Inr (Some (Steering_Outcome Do_Continue None ''timeout_continue''))"
proof -
  have "recover_supervision demo_digest (\<lambda>_. False) demo_store = (Inr (), demo_store)"
    "require_bound_snapshot (binding_from_snapshot demo_waiting) demo_store = Inr demo_waiting"
    "at_checkpoint demo_waiting" "sn_requests demo_waiting \<le> MAX_CHECKPOINT_REQUESTS"
    "binding_receipts (ss_receipts demo_store) (binding_from_snapshot demo_waiting) = []"
    "assigned_targets demo_waiting demo_store = Inr [''A-1'']" "validate_target_partition demo_waiting [''A-1''] = None"
    by code_simp+
  from timeout_resumes_attempt[OF this(1-4) demo_store_loads this(5-7)] show ?thesis by simp
qed

theorem checkpoint_policy_sparse_witness:
  "ev_due (evaluate_checkpoint_policy demo_waiting (initial_checkpoint_policy 0 0) 900000000000)
   \<and> ps_requests (ev_state (evaluate_checkpoint_policy demo_waiting (initial_checkpoint_policy 0 0) 900000000000)) = 0"
proof -
  have "policy_ok (initial_checkpoint_policy 0 0)" by code_simp
  from checkpoint_policy_sparse[OF this refl, of demo_waiting 900000000000]
  show ?thesis by (auto simp: observe_effect_def initial_checkpoint_policy_def demo_waiting_def evaluate_checkpoint_policy_def
      POLL_NANOSECONDS_def FIRST_CHECKPOINT_NANOSECONDS_def SILENCE_NANOSECONDS_def MAX_CHECKPOINT_REQUESTS_def
      silence_anchor_def BACKOFF_MULTIPLIERS_def verdict_at_def)
qed

end
