(* ===== verification/Mission_Store.thy ===== *)
theory Mission_Store
  imports Supervision Envelope
begin

text \<open>
  The part of a project's store the coordinator works on: the state, the attention queue, and for
  each mission its task list, cursors, attempts, terminal reviews and supervision store.  A file
  that has been parsed is its value; what a closed check of the reader refuses is a constructor of
  its own.  The provider-review carriers of \<^verbatim>\<open>storage.py\<close> are here as well, since they decide
  what an attempt says and which tasks may be dispatched.
\<close>

section \<open>Provider reviews\<close>

datatype block_reason = Review_Denied | Review_Invalid_Context | Review_Unavailable | Review_Interrupted

record review_identity =
  ri_thread :: string
  ri_turn :: string
  ri_review :: string

record review_block =
  bl_reason :: block_reason
  bl_review :: "review_identity option"

text \<open>
  The files kept for one attempt and node.  \<open>Unreadable_Cursor\<close> is one that is too long or is no
  object with a valid session; \<open>Other_Cursor\<close> is any other object than the two the code writes for
  this attempt and node.
\<close>

datatype cursor_file = No_Cursor | Unreadable_Cursor | Other_Cursor | Active_Cursor string | Blocked_Cursor string
datatype durable_file = No_Durable | Bad_Durable | Durable_Block string block_reason "review_identity option"
datatype disposition = Appeal_Submitting | Appeal_Queued | Appeal_Uncertain | Appeal_Re_Denied | Appeal_Completed
  | Appeal_Other
datatype appeal_file = No_Appeal | Bad_Appeal | Appeal disposition review_identity

record carrier =
  cr_cursor :: cursor_file
  cr_durable :: durable_file
  cr_appeal :: appeal_file

definition no_carrier :: carrier where
  "no_carrier = \<lparr>cr_cursor = No_Cursor, cr_durable = No_Durable, cr_appeal = No_Appeal\<rparr>"

definition invalid_review :: "bool \<Rightarrow> string + review_block option" where
  "invalid_review replay_guard =
    (if replay_guard then Inl ''invalid provider review persistence''
     else Inr (Some \<lparr>bl_reason = Review_Unavailable, bl_review = None\<rparr>))"

definition interrupted_review :: "bool \<Rightarrow> string + review_block option" where
  "interrupted_review replay_guard =
    (if replay_guard then invalid_review True else Inr (Some \<lparr>bl_reason = Review_Interrupted, bl_review = None\<rparr>))"

definition read_provider_review :: "bool \<Rightarrow> bool \<Rightarrow> carrier \<Rightarrow> string + review_block option" where
  "read_provider_review allow_active replay_guard c =
    (case cr_durable c of
       No_Durable \<Rightarrow>
        (case cr_cursor c of
           No_Cursor \<Rightarrow> Inr None
         | Unreadable_Cursor \<Rightarrow> if allow_active then invalid_review replay_guard else interrupted_review replay_guard
         | Active_Cursor _ \<Rightarrow> if allow_active then Inr None else interrupted_review replay_guard
         | _ \<Rightarrow> interrupted_review replay_guard)
     | Bad_Durable \<Rightarrow> invalid_review replay_guard
     | Durable_Block session reason review \<Rightarrow>
        if cr_cursor c \<noteq> Blocked_Cursor session \<or> reason = Review_Interrupted then invalid_review replay_guard
        else if (case review of None \<Rightarrow> reason = Review_Denied | Some r \<Rightarrow> ri_thread r \<noteq> session)
          then invalid_review replay_guard
        else (case cr_appeal c of
            No_Appeal \<Rightarrow> Inr (Some \<lparr>bl_reason = reason, bl_review = review\<rparr>)
          | Bad_Appeal \<Rightarrow> invalid_review replay_guard
          | Appeal disp origin \<Rightarrow>
             if review \<noteq> Some origin then invalid_review replay_guard
             else if replay_guard \<and> disp = Appeal_Other then invalid_review True
             else if disp = Appeal_Completed \<and> \<not> replay_guard then Inr None
             else Inr (Some \<lparr>bl_reason = reason, bl_review = review\<rparr>)))"

fun reason_text :: "block_reason \<Rightarrow> string" where
  "reason_text Review_Denied = ''denied''"
| "reason_text Review_Invalid_Context = ''invalid_context''"
| "reason_text Review_Unavailable = ''persistence_unavailable''"
| "reason_text Review_Interrupted = ''interrupted''"

definition EXPLANATION :: string where
  "EXPLANATION = ''Provider review blocked this attempt. Recorded prose consent is not a provider override. ''
    @ ''Native exact-action recovery is unavailable pending supported appeal integration. ''
    @ ''Continue, retry and steering do not authorize replay. Independent repair work may be ''
    @ ''planned while preserving this block.''"

fun blocked_handoff :: "handoff \<Rightarrow> review_block \<Rightarrow> string \<Rightarrow> handoff" where
  "blocked_handoff (WorkHandoff n _ _ _ _) b attempt =
     WorkHandoff n (Some attempt) False (EXPLANATION @ newline @ ''Review outcome: '' @ reason_text (bl_reason b) @ ''.'') True"
| "blocked_handoff (ValidateHandoff n _ _ _ _ _ _) b attempt =
     ValidateHandoff n (Some attempt) False (EXPLANATION @ newline @ ''Review outcome: '' @ reason_text (bl_reason b) @ ''.'')
       [] False True"

section \<open>Missions and projects\<close>

text \<open>An attempt file: refused by the parser, or a handoff and whether it names its generation.\<close>

datatype attempt_file = Bad_Attempt string | Attempt handoff bool

text \<open>The lineage file: its rows, once the JSON has the required shape; a missing file has none.\<close>

datatype lineage_file = Unreadable_Lineage | Lineage_Rows "lineage_edge list"

record mission =
  m_tasks :: "task_list option"
  m_cursor :: task_state
  m_contract :: contract_state
  m_assertions :: "string list"
  m_attempts :: "(string \<times> string, attempt_file) dict"
  m_carriers :: "(string \<times> string, carrier) dict"
  m_stray_carrier :: bool
  m_terminal_reviews :: "(string, terminal_review_handoff) dict"
  m_closeout :: "(string \<times> string) option"
  m_supervision :: sup_store
  m_contract_errors :: "validation_error list"
  m_lineage :: lineage_file

record project =
  p_id :: string
  p_state :: "project_state option"
  p_attention :: "attention_item list"
  p_missions :: "(string, mission) dict"
  p_max_parallel :: int
  p_current :: "string option"
  p_decisions :: "(nat \<times> decision list \<times> attention_item list) list"

datatype run_exn = File_Missing | Attempt_Invalid string | Supervision_Raised sup_exn | Item_Invalid string
  | Run_Error string | Killed_Process

type_synonym 'a run_eff = "(project, run_exn, 'a) eff"

definition empty_mission :: "string \<Rightarrow> string \<Rightarrow> mission" where
  "empty_mission pid mid = \<lparr>m_tasks = None, m_cursor = [], m_contract = [], m_assertions = [], m_attempts = [],
     m_carriers = [], m_stray_carrier = False, m_terminal_reviews = [], m_closeout = None,
     m_supervision = \<lparr>ss_project = pid, ss_mission = mid, ss_tasks = [], ss_snapshots = [], ss_policies = [],
       ss_receipts = [], ss_inboxes = []\<rparr>, m_contract_errors = [], m_lineage = Lineage_Rows []\<rparr>"

definition mission_of :: "string \<Rightarrow> project \<Rightarrow> mission" where
  "mission_of mid pj = (case map_of (p_missions pj) mid of None \<Rightarrow> empty_mission (p_id pj) mid | Some m \<Rightarrow> m)"

definition put_mission :: "string \<Rightarrow> mission \<Rightarrow> project \<Rightarrow> project" where
  "put_mission mid m pj = pj\<lparr>p_missions := dict_put mid m (p_missions pj)\<rparr>"

definition update_mission :: "string \<Rightarrow> (mission \<Rightarrow> mission) \<Rightarrow> project \<Rightarrow> project" where
  "update_mission mid f pj = put_mission mid (f (mission_of mid pj)) pj"

definition load_task_list :: "string \<Rightarrow> project \<Rightarrow> run_exn + task_list" where
  "load_task_list mid pj = (case m_tasks (mission_of mid pj) of None \<Rightarrow> Inl File_Missing | Some tks \<Rightarrow> Inr tks)"

definition load_task_state :: "string \<Rightarrow> project \<Rightarrow> task_state" where
  "load_task_state mid pj = m_cursor (mission_of mid pj)"

definition save_task_state :: "string \<Rightarrow> task_state \<Rightarrow> project \<Rightarrow> project" where
  "save_task_state mid ts = update_mission mid (\<lambda>m. m\<lparr>m_cursor := ts\<rparr>)"

definition save_task_list :: "string \<Rightarrow> task_list \<Rightarrow> project \<Rightarrow> project" where
  "save_task_list mid tks = update_mission mid (\<lambda>m. m\<lparr>m_tasks := Some tks\<rparr>)"

definition save_contract_state :: "string \<Rightarrow> contract_state \<Rightarrow> project \<Rightarrow> project" where
  "save_contract_state mid cs = update_mission mid (\<lambda>m. m\<lparr>m_contract := cs\<rparr>)"

definition save_state :: "project_state \<Rightarrow> project \<Rightarrow> project" where
  "save_state st pj = pj\<lparr>p_state := Some st\<rparr>"

definition save_attention :: "attention_item list \<Rightarrow> project \<Rightarrow> project" where
  "save_attention items pj = pj\<lparr>p_attention := items\<rparr>"

text \<open>\<open>seal_mission\<close>: the status and the body of the closeout.\<close>

definition seal_mission :: "string \<Rightarrow> string \<Rightarrow> string \<Rightarrow> project \<Rightarrow> project" where
  "seal_mission mid status body = update_mission mid (\<lambda>m. m\<lparr>m_closeout := Some (status, body)\<rparr>)"

section \<open>Attempts\<close>

text \<open>What the reader without authority says about an attempt: \<open>read_provider_review\<close> with its defaults.\<close>

definition review_of :: "mission \<Rightarrow> string \<Rightarrow> string \<Rightarrow> review_block option" where
  "review_of m attempt node =
    (case read_provider_review False False (dict_get (m_carriers m) no_carrier (attempt, node)) of
       Inl _ \<Rightarrow> None | Inr b \<Rightarrow> b)"

definition under_review :: "mission \<Rightarrow> string \<Rightarrow> string \<Rightarrow> handoff \<Rightarrow> handoff" where
  "under_review m spawn_ts node h = (case review_of m spawn_ts node of None \<Rightarrow> h | Some b \<Rightarrow> blocked_handoff h b spawn_ts)"

definition save_attempt :: "string \<Rightarrow> string \<Rightarrow> string \<Rightarrow> handoff \<Rightarrow> project \<Rightarrow> project" where
  "save_attempt mid spawn_ts node h = update_mission mid (\<lambda>m. m\<lparr>m_attempts :=
     dict_put (spawn_ts, node) (Attempt (with_attempt_id (Some spawn_ts) (under_review m spawn_ts node h)) True) (m_attempts m)\<rparr>)"

definition read_attempt :: "mission \<Rightarrow> string \<Rightarrow> string \<Rightarrow> string + handoff option" where
  "read_attempt m spawn_ts node =
    (case map_of (m_attempts m) (spawn_ts, node) of
       None \<Rightarrow> Inr None
     | Some (Bad_Attempt e) \<Rightarrow> Inl e
     | Some (Attempt h named) \<Rightarrow>
        if h_node_id h \<noteq> node then Inl ''attempt node_id does not match running task''
        else if named \<and> h_attempt_id h = None then Inl ''attempt_id must not be null''
        else if named \<and> h_attempt_id h \<noteq> Some spawn_ts then Inl ''attempt_id does not match running generation''
        else let h' = under_review m spawn_ts node h
             in Inr (Some (if named then h' else with_attempt_id (Some spawn_ts) h')))"

text \<open>The generations of a node in the order of their file names.\<close>

definition list_attempts :: "mission \<Rightarrow> string \<Rightarrow> string list" where
  "list_attempts m node =
    map fst (filter (\<lambda>(s, n). n = node) (sort_key (\<lambda>(s, n). s @ ''__'' @ n @ ''.json'') (map fst (m_attempts m))))"

section \<open>Replay guards\<close>

text \<open>The checks for one carrier: \<open>None\<close> when its review is still active, else the guarded generation.\<close>

definition guard_of :: "mission \<Rightarrow> task_list \<Rightarrow> task_state \<Rightarrow> string \<times> string \<Rightarrow> string + string option" where
  "guard_of m tks ts key = (case key of (attempt, node) \<Rightarrow>
    (let c = dict_get (m_carriers m) no_carrier key in
     case read_provider_review True True c of
       Inl e \<Rightarrow> Inl e
     | Inr blk \<Rightarrow>
        (case map_of ts node of
           None \<Rightarrow> Inl ''provider review generation conflicts with task state''
         | Some entry \<Rightarrow>
            if e_last_attempt entry \<noteq> Some attempt then Inl ''provider review generation conflicts with task state''
            else if blk = None
            then (if e_status entry \<noteq> Running then Inl ''active provider review lacks running owner'' else Inr None)
            else if e_status entry = Superseded \<or> e_status entry = Cleared \<and> review_of m attempt node \<noteq> None
            then Inl ''provider review conflicts with task disposition''
            else (case read_attempt m attempt node of
                Inl e \<Rightarrow> Inl e
              | Inr found \<Rightarrow>
                 (case map_of (by_id tks) node of
                    None \<Rightarrow> Inl ''invalid provider review inventory''
                  | Some t \<Rightarrow>
                     if t_type t = Gate
                        \<or> (case found of None \<Rightarrow> False | Some h \<Rightarrow> is_validate_handoff h = (t_type t = Work))
                     then Inl ''provider review handoff type conflicts with task''
                     else if found = None \<and> e_status entry \<noteq> Running
                     then Inl ''provider review lacks originating handoff''
                     else Inr (Some attempt))))))"

fun collect_guards ::
  "mission \<Rightarrow> task_list \<Rightarrow> task_state \<Rightarrow> (string \<times> string) list \<Rightarrow> (string, string) dict \<Rightarrow> string + (string, string) dict" where
  "collect_guards m tks ts [] guards = Inr guards"
| "collect_guards m tks ts (key # keys) guards =
    (case guard_of m tks ts key of
       Inl e \<Rightarrow> Inl e
     | Inr None \<Rightarrow> collect_guards m tks ts keys guards
     | Inr (Some attempt) \<Rightarrow>
        if snd key \<in> set (dict_keys guards) then Inl ''conflicting provider review origins''
        else collect_guards m tks ts keys (dict_put (snd key) attempt guards))"

definition provider_replay_guards :: "mission \<Rightarrow> task_list \<Rightarrow> task_state \<Rightarrow> run_exn + string list" where
  "provider_replay_guards m tks ts =
    (if m_stray_carrier m \<or> list_ex (\<lambda>(attempt, node). node \<notin> t_id ` set tks) (map fst (m_carriers m))
     then Inl (Attempt_Invalid ''invalid provider review inventory'')
     else (case collect_guards m tks ts (sort (map fst (m_carriers m))) [] of
         Inl e \<Rightarrow> Inl (Attempt_Invalid e)
       | Inr guards \<Rightarrow> Inr (dict_keys guards)))"

section \<open>Running supervision on a mission\<close>

definition sup_view :: "string \<Rightarrow> project \<Rightarrow> sup_store" where
  "sup_view mid pj = (m_supervision (mission_of mid pj))
     \<lparr>ss_tasks := (case m_tasks (mission_of mid pj) of None \<Rightarrow> [] | Some tks \<Rightarrow> tks)\<rparr>"

definition on_supervision :: "string \<Rightarrow> 'a sup_eff \<Rightarrow> 'a run_eff" where
  "on_supervision mid m pj = (case m (sup_view mid pj) of (x, st) \<Rightarrow>
     (map_sum Supervision_Raised id x, update_mission mid (\<lambda>ms. ms\<lparr>m_supervision := st\<rparr>) pj))"

end
