(* ===== verification/Coordinator.thy ===== *)
theory Coordinator
  imports Mission_Store Gates Scheduler
begin

text \<open>
  \<^verbatim>\<open>coordinator.py\<close>: one call of \<open>step\<close> and of \<open>close_mission\<close>, with everything they write.

  What the coordinator does not own is an argument, the record \<open>env\<close>: clocks, the random part of
  attention ids, \<open>sha256\<close>, \<open>str\<close> of an exception, the redaction of credentials, and the roles.  A role
  effect is the list of what it did to the project between two polls, with the time of the poll
  behind it, and how it ended: it returned, raised an \<open>Exception\<close>, or the process was killed, which
  is the exception \<open>Killed_Process\<close> here.  Isolated work batches (git worktrees) are one effect of the
  environment, and so is the check of the review roots.
\<close>

datatype step_result = Idle string | Advanced string | Attention_Needed string | Terminal string

datatype 'a role_outcome = Returned 'a | Raised run_exn | Killed

type_synonym 'a role_run = "((project \<Rightarrow> project) \<times> int) list \<times> (project \<Rightarrow> 'a role_outcome \<times> project)"

record env =
  en_now :: string
  en_clock :: int
  en_token :: "string \<Rightarrow> nat \<Rightarrow> string"
  en_sha :: "string \<Rightarrow> string"
  en_text :: "run_exn \<Rightarrow> string"
  en_redact :: "string \<Rightarrow> string"
  en_isolation :: isolation_env
  en_dispatch :: "string \<Rightarrow> task \<Rightarrow> string \<Rightarrow> handoff role_run"
  en_batch :: "(string \<Rightarrow> (task \<times> string) list \<Rightarrow> handoff list role_run) option"
  en_isolated :: "string \<Rightarrow> task list \<Rightarrow> step_result run_eff"
  en_review :: "string \<Rightarrow> string \<Rightarrow> terminal_review_handoff role_run"
  en_roots :: "string \<Rightarrow> run_exn option"

section \<open>Polling the active attempts\<close>

definition poll_targets :: "task_list \<Rightarrow> snapshot \<Rightarrow> sup_exn + string list" where
  "poll_targets tks s =
    (if sn_role s = Reviewer_Role then Inr (ordered_unique (concat (map t_targets tks)))
     else case find (\<lambda>t. Some (t_id t) = sn_node s) tks of None \<Rightarrow> Inl Stop_Iteration | Some t \<Rightarrow> Inr (t_targets t))"

definition load_policy :: "string \<Rightarrow> sup_store \<Rightarrow> sup_exn + policy_state option" where
  "load_policy attempt st = (case map_of (ss_policies st) attempt of
     None \<Rightarrow> Inr None
   | Some p \<Rightarrow> if policy_ok p then Inr (Some p) else Inl (Snapshot_Error ''invalid checkpoint policy state''))"

definition save_policy :: "string \<Rightarrow> policy_state \<Rightarrow> sup_store \<Rightarrow> sup_store" where
  "save_policy attempt p st = st\<lparr>ss_policies := dict_put attempt p (ss_policies st)\<rparr>"

text \<open>The policy at the last poll tick: what the snapshot becomes and the new policy state.\<close>

definition poll_decision :: "int \<Rightarrow> snapshot \<Rightarrow> policy_state \<Rightarrow> sup_exn + snapshot \<times> policy_state" where
  "poll_decision now s p =
    (let elapsed = max 0 (now - ps_started p);
         poll_elapsed = elapsed - elapsed mod 30000000000;
         poll_time = ps_started p + poll_elapsed;
         ev = evaluate_checkpoint_policy s p poll_time;
         due = ev_due ev \<and> sn_phase s = Ph_Active \<and> sn_status s = St_Running
     in case (if due then record_checkpoint_request ev poll_time else Inr (ev_state ev)) of
          Inl _ \<Rightarrow> Inl Validation_Error
        | Inr q \<Rightarrow> Inr (s\<lparr>sn_requests := ps_requests q, sn_elapsed := max (sn_elapsed s) (nat poll_elapsed),
                       sn_status := (if due then St_Checkpoint_Due else sn_status s)\<rparr>, q))"

definition poll_attempt :: "int \<Rightarrow> task_list \<Rightarrow> snapshot \<Rightarrow> unit sup_eff" where
  "poll_attempt now tks s =
    andthen (tries (load_policy (sn_attempt s))) (\<lambda>found.
    let p = (case found of Some p \<Rightarrow> p | None \<Rightarrow> initial_checkpoint_policy (max 0 (now - int (sn_elapsed s))) (sn_effect s)) in
    andthen (tries (\<lambda>_. poll_decision now s p)) (\<lambda>(projected, q).
    andthen (if sn_phase s = Ph_Waiting then ret True
             else andthen (tries (\<lambda>_. poll_targets tks projected)) (\<lambda>assigned. save_advisory_snapshot s projected assigned))
      (\<lambda>kept. if kept then modifies (save_policy (sn_attempt s) q) else ret ())))"

definition poll_supervision :: "int \<Rightarrow> task_list \<Rightarrow> unit sup_eff" where
  "poll_supervision now tks = andthen (tries (load_active_attempts tks)) (\<lambda>active. for_each active (poll_attempt now tks))"

definition poll_tick :: "string \<Rightarrow> int \<Rightarrow> unit run_eff" where
  "poll_tick mid now = andthen (tries (load_task_list mid)) (\<lambda>tks. on_supervision mid (poll_supervision now tks))"

text \<open>
  A role effect with the polls of \<open>_await_role_effect\<close>: after a poll has raised there are no more, and
  its exception replaces what the role returned, but not what it raised.
\<close>

fun run_polled :: "string \<Rightarrow> ((project \<Rightarrow> project) \<times> int) list \<Rightarrow> run_exn option \<Rightarrow> project \<Rightarrow> run_exn option \<times> project" where
  "run_polled mid [] err pj = (err, pj)"
| "run_polled mid ((f, now) # fs) err pj =
    (if err \<noteq> None then run_polled mid fs err (f pj)
     else case poll_tick mid now (f pj) of
       (Inl e, pj') \<Rightarrow> run_polled mid fs (Some e) pj'
     | (Inr _, pj') \<Rightarrow> run_polled mid fs None pj')"

definition await_role_effect :: "string \<Rightarrow> 'a role_run \<Rightarrow> (run_exn + 'a) run_eff" where
  "await_role_effect mid run pj =
    (case run_polled mid (fst run) None pj of (err, pj1) \<Rightarrow>
     (case snd run pj1 of
        (Killed, pj2) \<Rightarrow> (Inl Killed_Process, pj2)
      | (Raised e, pj2) \<Rightarrow> (Inr (Inl e), pj2)
      | (Returned a, pj2) \<Rightarrow> (Inr (case err of None \<Rightarrow> Inr a | Some e \<Rightarrow> Inl e), pj2)))"

section \<open>Starting an attempt\<close>

definition fresh_snapshot :: "string \<Rightarrow> string \<Rightarrow> string \<Rightarrow> sup_role \<Rightarrow> string list \<Rightarrow> string option \<Rightarrow> snapshot" where
  "fresh_snapshot pid mid attempt role assigned node = \<lparr>sn_attempt = attempt, sn_blocker = None, sn_requests = 0,
     sn_sequence = 0, sn_completed = [], sn_elapsed = 0, sn_effect = 0, sn_mission = mid, sn_node = node,
     sn_phase = Ph_Active, sn_project = pid, sn_remaining = assigned, sn_role = role, sn_scope = In_Scope,
     sn_status = St_Running, sn_review = (if role = Reviewer_Role then Some attempt else None)\<rparr>"

definition begin_supervision_attempt ::
  "env \<Rightarrow> string \<Rightarrow> string \<Rightarrow> sup_role \<Rightarrow> string list \<Rightarrow> string option \<Rightarrow> unit run_eff" where
  "begin_supervision_attempt env mid attempt role assigned node =
    andthen (reads (\<lambda>pj. fresh_snapshot (p_id pj) mid attempt role assigned node)) (\<lambda>s.
    if \<not> snapshot_ok s then throw (Supervision_Raised Validation_Error)
    else andthen (on_supervision mid (save_snapshot (en_sha env) s assigned)) (\<lambda>_.
         on_supervision mid (modifies (save_policy attempt (initial_checkpoint_policy (en_clock env) 0)))))"

definition pad4 :: "nat \<Rightarrow> string" where
  "pad4 k = replicate (4 - length (show_nat k)) CHR ''0'' @ show_nat k"

definition numbered :: "string \<Rightarrow> nat \<Rightarrow> string" where
  "numbered candidate k = candidate @ ''-'' @ pad4 k"

text \<open>The loop of \<open>_unique_attempt_id\<close> with fuel; one more turn than there are snapshots is enough.\<close>

fun free_index :: "sup_store \<Rightarrow> string \<Rightarrow> nat \<Rightarrow> nat \<Rightarrow> sup_exn + string option" where
  "free_index st candidate 0 k = Inr None"
| "free_index st candidate (Suc fuel) k =
    (case load_snapshot (numbered candidate k) st of
       Inl e \<Rightarrow> Inl e
     | Inr None \<Rightarrow> Inr (Some (numbered candidate k))
     | Inr (Some _) \<Rightarrow> free_index st candidate fuel (k + 1))"

definition unique_attempt_id :: "string \<Rightarrow> sup_store \<Rightarrow> sup_exn + string option" where
  "unique_attempt_id candidate st =
    (case load_snapshot candidate st of
       Inl e \<Rightarrow> Inl e
     | Inr None \<Rightarrow> Inr (Some candidate)
     | Inr (Some _) \<Rightarrow> free_index st candidate (length (ss_snapshots st) + 1) 1)"

definition fresh_attempt :: "string \<Rightarrow> string \<Rightarrow> string run_eff" where
  "fresh_attempt mid candidate = tries (\<lambda>pj. case unique_attempt_id candidate (sup_view mid pj) of
     Inl e \<Rightarrow> Inl (Supervision_Raised e)
   | Inr None \<Rightarrow> Inl (Run_Error ''attempt ids exhausted'')
   | Inr (Some a) \<Rightarrow> Inr a)"

section \<open>Handoffs\<close>

definition synthesize_handoff :: "task \<Rightarrow> string \<Rightarrow> handoff" where
  "synthesize_handoff t report =
    (if t_type t = Validate then ValidateHandoff (t_id t) None False report [] False False
     else WorkHandoff (t_id t) None False report False)"

definition bind_dispatched_handoff :: "task \<Rightarrow> handoff \<Rightarrow> string \<Rightarrow> handoff" where
  "bind_dispatched_handoff t h spawn_ts = with_attempt_id (Some spawn_ts)
    (if h_node_id h \<noteq> t_id t then synthesize_handoff t ''Dispatcher returned a handoff for a different task.''
     else if h_attempt_id h = None then synthesize_handoff t ''Dispatcher returned a handoff with a null attempt identity.''
     else if h_attempt_id h \<noteq> Some spawn_ts then synthesize_handoff t ''Dispatcher returned a handoff for a stale generation.''
     else h)"

definition bounded_dispatch_failure :: "env \<Rightarrow> string \<Rightarrow> run_exn \<Rightarrow> string" where
  "bounded_dispatch_failure env lead e = take 2000 (lead @ en_redact env (en_text env e))"

definition lift_item :: "(string + attention_item) \<Rightarrow> attention_item run_eff" where
  "lift_item r = tries (\<lambda>_. case r of Inl e \<Rightarrow> Inl (Item_Invalid e) | Inr it \<Rightarrow> Inr it)"

text \<open>\<open>attention.cooperative_stop\<close>.\<close>

definition cooperative_stop :: "(string \<Rightarrow> string) \<Rightarrow> snapshot \<Rightarrow> string \<Rightarrow> string + attention_item" where
  "cooperative_stop token s safe_handoff =
    (if sn_phase s \<noteq> Ph_Terminal \<or> sn_status s \<noteq> St_Terminal then Inl ''cooperative stop requires a retained terminal snapshot''
     else if sn_role s = Reviewer_Role then check_attention_item
       \<lparr>a_id = new_attention_id ''terminal-review'' (token ''terminal-review''), a_report = safe_handoff, a_kind = Terminal_review,
        a_mission_id = sn_mission s, a_node_id = None, a_attempt_id = None, a_terminal_review_id = sn_review s\<rparr>
     else let name = (case sn_node s of None \<Rightarrow> ''attempt'' | Some n \<Rightarrow> if n = [] then ''attempt'' else n) in check_attention_item
       \<lparr>a_id = new_attention_id name (token name), a_report = safe_handoff, a_kind = Node_attention,
        a_mission_id = sn_mission s, a_node_id = sn_node s, a_attempt_id = Some (sn_attempt s), a_terminal_review_id = None\<rparr>)"

definition record_verdict :: "validation_item \<Rightarrow> contract_state \<Rightarrow> contract_state" where
  "record_verdict i cs =
    (let cs' = dict_setdefault (v_item_id i) APending cs in
     if v_passed i then dict_put (v_item_id i) APassed cs'
     else if dict_get cs' APending (v_item_id i) \<noteq> APassed then dict_put (v_item_id i) AFailed cs'
     else cs')"

definition node_stop_report :: string where
  "node_stop_report = ''Attempt stopped cooperatively at a semantic checkpoint.''"

text \<open>The part of \<open>_apply_handoff_collect\<close> behind the supervision fence.\<close>

definition settle_handoff ::
  "env \<Rightarrow> string \<Rightarrow> task \<Rightarrow> task_list \<Rightarrow> task_state \<Rightarrow> contract_state \<Rightarrow> handoff \<Rightarrow> attention_item list run_eff" where
  "settle_handoff env mid t tks ts cs h =
    (let failed = modifies (save_task_state mid (set_status (t_id t) Failed ts));
         cleared = modifies (save_task_state mid (set_status (t_id t) Cleared ts));
         request = (\<lambda>items. if h_request_attention h
           then andthen (lift_item (node_attention (en_token env (t_id t) 1) mid t h)) (\<lambda>it. ret (items @ [it]))
           else ret items)
     in case t_type t of
          Work \<Rightarrow>
            if \<not> h_done h
            then andthen failed (\<lambda>_. if is_validate_handoff h then throw (Run_Error ''AssertionError'')
                   else andthen (lift_item (node_failed (en_token env (t_id t) 0) mid t h)) (\<lambda>it. ret [it]))
            else andthen cleared (\<lambda>_. request [])
        | Validate \<Rightarrow>
            if \<not> h_done h
            then andthen failed (\<lambda>_. andthen (lift_item (node_attention (en_token env (t_id t) 0) mid t h)) (\<lambda>it. ret [it]))
            else andthen cleared (\<lambda>_.
              if \<not> is_validate_handoff h then request []
              else andthen (modifies (save_contract_state mid (fold record_verdict (h_items h) cs))) (\<lambda>_.
                if validate_failure_needs_attention tks (set_status (t_id t) Cleared ts) t h
                then andthen (lift_item (node_attention (en_token env (t_id t) 0) mid t h)) (\<lambda>it. request [it])
                else request []))
        | Gate \<Rightarrow> request [])"

definition apply_handoff_collect :: "env \<Rightarrow> string \<Rightarrow> task \<Rightarrow> handoff \<Rightarrow> string \<Rightarrow> attention_item list run_eff" where
  "apply_handoff_collect env mid t h0 spawn_ts =
    andthen (reads (\<lambda>pj. with_attempt_id (Some spawn_ts) (under_review (mission_of mid pj) spawn_ts (t_id t) h0))) (\<lambda>h.
    andthen (tries (load_task_list mid)) (\<lambda>tks.
    andthen (reads (load_task_state mid)) (\<lambda>ts.
    andthen (reads (\<lambda>pj. m_contract (mission_of mid pj))) (\<lambda>cs.
    andthen (on_supervision mid (finalize_attempt (en_sha env) spawn_ts (t_targets t))) (\<lambda>(found, stopped).
      case found of
        Some s \<Rightarrow>
          if stopped
          then andthen (modifies (save_task_state mid (set_status (t_id t) Failed ts))) (\<lambda>_.
               andthen (lift_item (cooperative_stop (\<lambda>name. en_token env name 0) (terminal_snapshot s) node_stop_report)) (\<lambda>it.
               ret [it]))
          else settle_handoff env mid t tks ts cs h
      | None \<Rightarrow> settle_handoff env mid t tks ts cs h)))))"

section \<open>The attention queue\<close>

text \<open>Two writes, the queue and then the state, with no crash between them in this model.\<close>

definition raise_attention :: "attention_item list \<Rightarrow> unit run_eff" where
  "raise_attention items =
    andthen (reads p_attention) (\<lambda>existing.
    andthen (modifies (save_attention (existing @ items))) (\<lambda>_.
    modifies (save_state (AttentionNeeded (public_attention_items (existing @ items))))))"

fun kind_text :: "attention_kind \<Rightarrow> string" where
  "kind_text Node_failed = ''node_failed''"
| "kind_text Node_attention = ''node_attention''"
| "kind_text Gate_failed = ''gate_failed''"
| "kind_text Gate_checkpoint = ''gate_checkpoint''"
| "kind_text Terminal_review = ''terminal_review''"

definition apply_handoff :: "env \<Rightarrow> string \<Rightarrow> task \<Rightarrow> handoff \<Rightarrow> string \<Rightarrow> step_result run_eff" where
  "apply_handoff env mid t h spawn_ts =
    andthen (apply_handoff_collect env mid t h spawn_ts) (\<lambda>items.
      case items of
        first # _ \<Rightarrow> andthen (raise_attention items) (\<lambda>_. ret (Attention_Needed (kind_text (a_kind first))))
      | [] \<Rightarrow> ret (Advanced (t_id t @ '' cleared'')))"

section \<open>Resuming from disk\<close>

definition reconcile_attempt :: "env \<Rightarrow> string \<Rightarrow> task_state \<Rightarrow> task \<Rightarrow> attention_item list run_eff" where
  "reconcile_attempt env mid ts t =
    (case last_attempt_of ts (t_id t) of
       None \<Rightarrow>
        (let h = synthesize_handoff t ''Coordinator resumed with a running task that has no dispatch generation.'' in
         andthen (modifies (save_attempt mid (en_now env) (t_id t) h)) (\<lambda>_. apply_handoff_collect env mid t h (en_now env)))
     | Some spawn_ts \<Rightarrow>
        andthen (reads (\<lambda>pj. read_attempt (mission_of mid pj) spawn_ts (t_id t))) (\<lambda>found.
          case found of
            Inl e \<Rightarrow> apply_handoff_collect env mid t
                       (synthesize_handoff t (''Coordinator rejected the persisted attempt: '' @ e)) spawn_ts
          | Inr None \<Rightarrow>
             (let h = synthesize_handoff t (''Coordinator resumed with task marked running but no attempt ''
                        @ ''file was present for its current generation.'') in
              andthen (modifies (save_attempt mid spawn_ts (t_id t) h)) (\<lambda>_. apply_handoff_collect env mid t h spawn_ts))
          | Inr (Some h) \<Rightarrow> apply_handoff_collect env mid t h spawn_ts))"

fun reconcile_tasks :: "env \<Rightarrow> string \<Rightarrow> task_state \<Rightarrow> task list \<Rightarrow> attention_item list run_eff" where
  "reconcile_tasks env mid ts [] = ret []"
| "reconcile_tasks env mid ts (t # tks) =
    (if status_of ts (t_id t) \<noteq> Running then reconcile_tasks env mid ts tks
     else andthen (reconcile_attempt env mid ts t) (\<lambda>items.
          andthen (reconcile_tasks env mid ts tks) (\<lambda>more. ret (items @ more))))"

definition reconcile_pending_attempts ::
  "env \<Rightarrow> string \<Rightarrow> task_list \<Rightarrow> task_state \<Rightarrow> step_result option run_eff" where
  "reconcile_pending_attempts env mid tks ts =
    (if \<not> list_ex (\<lambda>t. status_of ts (t_id t) = Running) tks then ret None
     else andthen (reconcile_tasks env mid ts tks) (\<lambda>items.
       if items \<noteq> [] then andthen (raise_attention items) (\<lambda>_. ret (Some (Attention_Needed ''resume_attention'')))
       else ret (Some (Advanced ''reconciled pending attempts''))))"

section \<open>Dispatching\<close>

text \<open>The guards of the store, reconciled into the cursor \<open>ts\<close> the caller holds.\<close>

definition reconcile_denials :: "string \<Rightarrow> task_list \<Rightarrow> task_state \<Rightarrow> (string list \<times> task_state) run_eff" where
  "reconcile_denials mid tks ts =
    andthen (tries (\<lambda>pj. provider_replay_guards (mission_of mid pj) tks ts)) (\<lambda>guards.
    let ts' = reconcile_provider_denials guards ts in
    andthen (if list_ex (\<lambda>node. status_of ts node = Pending) guards then modifies (save_task_state mid ts') else ret ())
      (\<lambda>_. ret (guards, ts')))"

definition still_eligible :: "string \<Rightarrow> task list \<Rightarrow> task list run_eff" where
  "still_eligible mid tasks =
    andthen (tries (load_task_list mid)) (\<lambda>tks.
    andthen (reads (load_task_state mid)) (\<lambda>ts.
    andthen (reconcile_denials mid tks ts) (\<lambda>(blocked, ts'). ret (guard_dispatch blocked tks ts' tasks))))"

definition assert_dispatch_unblocked :: "string \<Rightarrow> task list \<Rightarrow> unit run_eff" where
  "assert_dispatch_unblocked mid tasks =
    andthen (tries (load_task_list mid)) (\<lambda>tks.
    andthen (reads (load_task_state mid)) (\<lambda>ts.
    andthen (tries (\<lambda>pj. provider_replay_guards (mission_of mid pj) tks ts)) (\<lambda>guards.
    if list_ex (\<lambda>t. t_id t \<in> set guards) tasks then throw (Attempt_Invalid ''provider review prohibits fresh dispatch'')
    else ret ())))"

definition role_of_task :: "task \<Rightarrow> sup_role" where
  "role_of_task t = (if t_type t = Work then Worker_Role else Validator_Role)"

definition mark_running :: "string \<Rightarrow> string \<Rightarrow> task_state \<Rightarrow> task_state" where
  "mark_running node spawn_ts ts = set_last_attempt node spawn_ts (set_status node Running ts)"

text \<open>The part of \<open>_dispatch_one\<close> behind the write that marks the task running.\<close>

definition run_attempt :: "env \<Rightarrow> string \<Rightarrow> task \<Rightarrow> string \<Rightarrow> step_result run_eff" where
  "run_attempt env mid t spawn_ts =
    andthen (begin_supervision_attempt env mid spawn_ts (role_of_task t) (t_targets t) (Some (t_id t))) (\<lambda>_.
    andthen (assert_dispatch_unblocked mid [t]) (\<lambda>_.
    andthen (await_role_effect mid (en_dispatch env mid t spawn_ts)) (\<lambda>out.
    let h = (case out of
        Inl e \<Rightarrow> synthesize_handoff t (bounded_dispatch_failure env ''Dispatcher crashed: '' e)
      | Inr h \<Rightarrow> bind_dispatched_handoff t h spawn_ts) in
    andthen (modifies (save_attempt mid spawn_ts (t_id t) h)) (\<lambda>_. apply_handoff env mid t h spawn_ts))))"

definition dispatch_one :: "env \<Rightarrow> string \<Rightarrow> task \<Rightarrow> step_result run_eff" where
  "dispatch_one env mid t =
    andthen (still_eligible mid [t]) (\<lambda>eligible.
    if eligible = [] then ret (Idle ''selected task is no longer eligible'')
    else andthen (fresh_attempt mid (en_now env)) (\<lambda>spawn_ts.
      andthen (reads (load_task_state mid)) (\<lambda>ts.
      andthen (modifies (save_task_state mid (mark_running (t_id t) spawn_ts ts))) (\<lambda>_.
      run_attempt env mid t spawn_ts))))"

text \<open>The attempts of a batch: ids first, all against the same supervision store, then one write.\<close>

fun claim_batch :: "env \<Rightarrow> string \<Rightarrow> nat \<Rightarrow> task list \<Rightarrow> task_state \<Rightarrow> ((task \<times> string) list \<times> task_state) run_eff" where
  "claim_batch env mid k [] ts = ret ([], ts)"
| "claim_batch env mid k (t # tasks) ts =
    andthen (fresh_attempt mid (numbered (en_now env) k)) (\<lambda>spawn_ts.
    andthen (claim_batch env mid (k + 1) tasks (mark_running (t_id t) spawn_ts ts)) (\<lambda>(attempts, ts').
    ret ((t, spawn_ts) # attempts, ts')))"

text \<open>
  The thread pool of \<open>_dispatch_requests\<close>: the effects one after the other.  There are no more polls once
  one has raised, and its exception is raised when every effect has ended.
\<close>

definition pooled_effect :: "string \<Rightarrow> run_exn option \<Rightarrow> 'a role_run \<Rightarrow> (run_exn option \<times> (run_exn + 'a)) run_eff" where
  "pooled_effect mid err run pj =
    (case run_polled mid (fst run) err pj of (err', pj1) \<Rightarrow>
     (case snd run pj1 of
        (Killed, pj2) \<Rightarrow> (Inl Killed_Process, pj2)
      | (Raised e, pj2) \<Rightarrow> (Inr (err', Inl e), pj2)
      | (Returned a, pj2) \<Rightarrow> (Inr (err', Inr a), pj2)))"

fun dispatch_each :: "env \<Rightarrow> string \<Rightarrow> run_exn option \<Rightarrow> (task \<times> string) list \<Rightarrow> (string, handoff) dict run_eff" where
  "dispatch_each env mid err [] = (case err of None \<Rightarrow> ret [] | Some e \<Rightarrow> throw e)"
| "dispatch_each env mid err ((t, spawn_ts) # attempts) =
    andthen (pooled_effect mid err (en_dispatch env mid t spawn_ts)) (\<lambda>(err', out).
    andthen (dispatch_each env mid err' attempts) (\<lambda>rest.
    ret ((t_id t, (case out of Inl e \<Rightarrow> synthesize_handoff t (bounded_dispatch_failure env ''Dispatcher crashed: '' e)
                   | Inr h \<Rightarrow> h)) # rest)))"

definition dispatch_requests :: "env \<Rightarrow> string \<Rightarrow> (task \<times> string) list \<Rightarrow> (string, handoff) dict run_eff" where
  "dispatch_requests env mid attempts =
    (if attempts = [] then ret []
     else andthen (assert_dispatch_unblocked mid (map fst attempts)) (\<lambda>_.
      case en_batch env of
        None \<Rightarrow> dispatch_each env mid None attempts
      | Some batch \<Rightarrow>
         andthen (await_role_effect mid (batch mid attempts)) (\<lambda>out.
           let crashed = (\<lambda>e. ret (map (\<lambda>(t, _). (t_id t,
                 synthesize_handoff t (bounded_dispatch_failure env ''Dispatcher batch crashed: '' e))) attempts))
           in case out of
                Inl e \<Rightarrow> crashed e
              | Inr hs \<Rightarrow>
                 if length hs \<noteq> length attempts
                 then crashed (Run_Error (''dispatch_batch returned '' @ show_nat (length hs) @ '' handoff(s) for ''
                        @ show_nat (length attempts) @ '' request(s)''))
                 else ret (dict_of (zip (map (t_id \<circ> fst) attempts) hs)))))"

fun apply_batch ::
  "env \<Rightarrow> string \<Rightarrow> (string, handoff) dict \<Rightarrow> (task \<times> string) list \<Rightarrow> attention_item list run_eff" where
  "apply_batch env mid hs [] = ret []"
| "apply_batch env mid hs ((t, spawn_ts) # attempts) =
    (case map_of hs (t_id t) of
       None \<Rightarrow> throw (Run_Error ''KeyError'')
     | Some h0 \<Rightarrow>
        (let h = bind_dispatched_handoff t h0 spawn_ts in
         andthen (modifies (save_attempt mid spawn_ts (t_id t) h)) (\<lambda>_.
         andthen (apply_handoff_collect env mid t h spawn_ts) (\<lambda>items.
         andthen (apply_batch env mid hs attempts) (\<lambda>more. ret (items @ more))))))"

definition run_batch :: "env \<Rightarrow> string \<Rightarrow> task list \<Rightarrow> step_result run_eff" where
  "run_batch env mid tasks =
    andthen (reads (load_task_state mid)) (\<lambda>ts.
    andthen (claim_batch env mid 0 tasks ts) (\<lambda>(attempts, ts').
    andthen (modifies (save_task_state mid ts')) (\<lambda>_.
    andthen (for_each attempts (\<lambda>(t, spawn_ts).
      begin_supervision_attempt env mid spawn_ts (role_of_task t) (t_targets t) (Some (t_id t)))) (\<lambda>_.
    andthen (dispatch_requests env mid attempts) (\<lambda>hs.
    andthen (apply_batch env mid hs (sort_key (\<lambda>(t, _). t_id t) attempts)) (\<lambda>items.
    if items \<noteq> [] then andthen (raise_attention items) (\<lambda>_. ret (Attention_Needed ''batch_attention''))
    else ret (Advanced (''batch cleared: '' @ join '', '' (map (t_id \<circ> fst) attempts)))))))))"

definition dispatch_batch :: "env \<Rightarrow> string \<Rightarrow> task list \<Rightarrow> step_result run_eff" where
  "dispatch_batch env mid tasks =
    (let works = list_ex (\<lambda>t. t_type t = Work) tasks in
     if works \<and> \<not> list_all (\<lambda>t. t_type t = Work) tasks
     then throw (Run_Error ''mutable and validation work cannot share a batch'')
     else if works \<and> (length tasks < 2 \<or> \<not> isolated_work_supported (en_isolation env) tasks)
     then throw (Run_Error ''mutable work batch requires isolated disjoint workspaces'')
     else andthen (still_eligible mid tasks) (\<lambda>eligible.
       case eligible of
         [] \<Rightarrow> ret (Idle ''selected tasks are no longer eligible'')
       | [t] \<Rightarrow> dispatch_one env mid t
       | _ \<Rightarrow> if list_ex (\<lambda>t. t_type t = Work) eligible then en_isolated env mid eligible else run_batch env mid eligible))"

section \<open>Retained failures\<close>

definition stranded_item :: "env \<Rightarrow> string \<Rightarrow> task_state \<Rightarrow> task \<Rightarrow> (string \<times> attention_item) run_eff" where
  "stranded_item env mid ts t =
    (case last_attempt_of ts (t_id t) of
       None \<Rightarrow> throw (Attempt_Invalid ''stranded task has no retained generation'')
     | Some attempt \<Rightarrow>
        andthen (reads (\<lambda>pj. list_attempts (mission_of mid pj) (t_id t))) (\<lambda>attempts.
        if attempts = [] \<or> last attempts \<noteq> attempt
        then throw (Attempt_Invalid ''stranded task generation is not the latest attempt'')
        else andthen (tries (\<lambda>pj. map_sum Attempt_Invalid id (read_attempt (mission_of mid pj) attempt (t_id t)))) (\<lambda>found.
          case found of
            None \<Rightarrow> throw (Attempt_Invalid ''stranded task lacks a matching failed handoff'')
          | Some h \<Rightarrow>
             if is_validate_handoff h = (t_type t = Work) \<or> h_done h
             then throw (Attempt_Invalid ''stranded task lacks a matching failed handoff'')
             else if is_validate_handoff h \<and> h_passed h
             then throw (Attempt_Invalid ''stranded validator has contradictory completion'')
             else andthen (lift_item ((if t_type t = Work then node_failed else node_attention) (en_token env (t_id t) 0) mid t h))
               (\<lambda>it. ret (attempt, it)))))"

definition recovery_note :: string where
  "recovery_note = ''Scheduling recovery: retained failed attempt blocks pending tasks. ''
     @ ''No new attempt was executed.'' @ newline @ newline"

definition same_attempt_item :: "string \<Rightarrow> task \<Rightarrow> string \<Rightarrow> attention_kind \<Rightarrow> attention_item \<Rightarrow> bool" where
  "same_attempt_item mid t attempt kind it \<longleftrightarrow>
     a_mission_id it = mid \<and> a_node_id it = Some (t_id t) \<and> a_attempt_id it = Some attempt \<and> a_kind it = kind"

definition recover_stranded_failure ::
  "env \<Rightarrow> string \<Rightarrow> task_list \<Rightarrow> task_state \<Rightarrow> step_result option run_eff" where
  "recover_stranded_failure env mid tks ts =
    andthen (tries (\<lambda>pj. map_sum Supervision_Raised id (load_active_attempts tks (sup_view mid pj)))) (\<lambda>active.
    if active \<noteq> [] then ret None
    else case first_stranding_failure tks ts of
      None \<Rightarrow> throw (Run_Error ''KeyError'')
    | Some None \<Rightarrow> ret None
    | Some (Some t) \<Rightarrow>
       andthen (stranded_item env mid ts t) (\<lambda>(attempt, it).
       andthen (reads p_attention) (\<lambda>existing.
       let items = (if list_ex (same_attempt_item mid t attempt (a_kind it)) existing then existing
                    else existing @ [it\<lparr>a_report := recovery_note @ a_report it\<rparr>]) in
       andthen (if items = existing then ret () else modifies (save_attention items)) (\<lambda>_.
       andthen (modifies (save_state (AttentionNeeded (public_attention_items items)))) (\<lambda>_.
       ret (Some (Attention_Needed ''retained_failure'')))))))"

section \<open>Gates and the step\<close>

definition mission_reader :: "string \<Rightarrow> project \<Rightarrow> attempt_reader" where
  "mission_reader mid pj = \<lparr>rd_attempt = read_attempt (mission_of mid pj),
     rd_attempt_path = (\<lambda>spawn_ts node. spawn_ts @ ''__'' @ node @ ''.json''),
     rd_report_path = (\<lambda>spawn_ts node. spawn_ts @ ''__'' @ node @ ''.md'')\<rparr>"

definition apply_gate_event :: "env \<Rightarrow> string \<Rightarrow> task_state \<Rightarrow> task \<times> gate_result \<Rightarrow> step_result run_eff" where
  "apply_gate_event env mid ts ev = (case ev of (gate, result) \<Rightarrow>
    (let cleared = gr_cleared result;
         tokens = (en_token env (t_id gate) 0, en_token env (t_id gate) 1, en_token env (t_id gate) 2) in
     andthen (modifies (save_task_state mid (set_status (t_id gate) (if cleared then Cleared else Failed) ts))) (\<lambda>_.
     andthen (lift_item (bounded_gate_attention tokens mid gate result cleared)) (\<lambda>it.
     andthen (raise_attention [it]) (\<lambda>_.
     ret (Attention_Needed (if cleared then ''gate_checkpoint'' else ''gate_failed'')))))))"

definition seed_contract :: "string \<Rightarrow> unit run_eff" where
  "seed_contract mid =
    andthen (reads (mission_of mid)) (\<lambda>m.
    if m_contract m \<noteq> [] then ret ()
    else modifies (save_contract_state mid (fold (\<lambda>a. dict_setdefault a APending) (m_assertions m) [])))"

definition dispatch_next :: "env \<Rightarrow> string \<Rightarrow> task_list \<Rightarrow> task_state \<Rightarrow> step_result run_eff" where
  "dispatch_next env mid tks ts =
    (let runnable = all_runnable_tasks tks ts in
     if runnable = []
     then andthen (recover_stranded_failure env mid tks ts) (\<lambda>recovered.
       case recovered of
         Some r \<Rightarrow> ret r
       | None \<Rightarrow> ret (Idle ''no runnable task work; call end_mission to request closure''))
     else andthen (reads p_max_parallel) (\<lambda>capacity.
       let selected = select_dispatch_tasks capacity (en_isolation env) tks ts runnable in
       if length selected = 1 then dispatch_one env mid (hd selected) else dispatch_batch env mid selected))"

definition step_mission :: "env \<Rightarrow> string \<Rightarrow> step_result run_eff" where
  "step_mission env mid =
    andthen (reads (\<lambda>pj. m_tasks (mission_of mid pj))) (\<lambda>found.
    case found of
      None \<Rightarrow> andthen (modifies (save_state (ProjectFailed (''tasks.json missing for '' @ mid)))) (\<lambda>_.
                ret (Terminal ''task_list missing''))
    | Some tks \<Rightarrow>
       andthen (reads (load_task_state mid)) (\<lambda>ts0.
       andthen (reconcile_denials mid tks ts0) (\<lambda>(_, ts).
       andthen (on_supervision mid (poll_supervision (en_clock env) tks)) (\<lambda>_.
       andthen (seed_contract mid) (\<lambda>_.
       andthen (reconcile_pending_attempts env mid tks ts) (\<lambda>resumed.
       case resumed of
         Some r \<Rightarrow> ret r
       | None \<Rightarrow>
          andthen (reads (\<lambda>pj. try_evaluate_a_gate (mission_reader mid pj) tks ts)) (\<lambda>gate_event.
          case gate_event of
            Some ev \<Rightarrow> apply_gate_event env mid ts ev
          | None \<Rightarrow> dispatch_next env mid tks ts)))))))"

definition step :: "env \<Rightarrow> step_result run_eff" where
  "step env = andthen (reads p_state) (\<lambda>st.
    case st of
      None \<Rightarrow> ret (Idle [])
    | Some Draft \<Rightarrow> ret (Idle [])
    | Some (MissionPlanning _) \<Rightarrow> ret (Idle [])
    | Some (AttentionNeeded _) \<Rightarrow> ret (Attention_Needed [])
    | Some Done \<Rightarrow> ret (Terminal [])
    | Some (ProjectFailed _) \<Rightarrow> ret (Terminal [])
    | Some (Aborted _) \<Rightarrow> ret (Terminal [])
    | Some (MissionRunning mid) \<Rightarrow> step_mission env mid)"

section \<open>Closing a mission\<close>

definition review_stop_report :: string where
  "review_stop_report = ''Terminal review stopped cooperatively at a semantic checkpoint.''"

definition save_terminal_review :: "string \<Rightarrow> string \<Rightarrow> terminal_review_handoff \<Rightarrow> project \<Rightarrow> project" where
  "save_terminal_review mid spawn_ts review =
    update_mission mid (\<lambda>m. m\<lparr>m_terminal_reviews := dict_setdefault spawn_ts review (m_terminal_reviews m)\<rparr>)"

definition crashed_review :: "env \<Rightarrow> run_exn \<Rightarrow> terminal_review_handoff" where
  "crashed_review env e = \<lparr>tr_done = False, tr_report =
     ''Terminal reviewer runtime failure; mission artifacts were preserved and closure can be retried after resolving this ''
     @ ''attention item.'' @ newline @ newline @ ''Error: '' @ en_text env e\<rparr>"

definition conclude_review ::
  "env \<Rightarrow> string \<Rightarrow> string \<Rightarrow> string list \<Rightarrow> bool \<Rightarrow> terminal_review_handoff \<Rightarrow> step_result run_eff" where
  "conclude_review env mid spawn_ts assigned crashed report =
    andthen (on_supervision mid (finalize_attempt (en_sha env) spawn_ts assigned)) (\<lambda>(found, stopped).
    andthen (modifies (save_terminal_review mid spawn_ts report)) (\<lambda>_.
    case (if stopped then found else None) of
      Some s \<Rightarrow>
        andthen (lift_item (cooperative_stop (\<lambda>name. en_token env name 0) (terminal_snapshot s) review_stop_report)) (\<lambda>it.
        andthen (raise_attention [it]) (\<lambda>_. ret (Attention_Needed ''terminal_review_stop'')))
    | None \<Rightarrow>
        if tr_done report
        then andthen (block [modifies (seal_mission mid ''done'' (if tr_report report = [] then ''Mission complete; terminal review clean.''
                                                         else tr_report report)),
                             modifies (save_state Done)]) (\<lambda>_. ret (Terminal ''done''))
        else andthen (lift_item (terminal_review (en_token env ''terminal-review'' 0) mid report (Some spawn_ts))) (\<lambda>it.
             andthen (raise_attention [it]) (\<lambda>_.
             ret (Attention_Needed (if crashed then ''terminal_review_crash'' else ''terminal_review''))))))"

definition enter_terminal_review :: "env \<Rightarrow> string \<Rightarrow> step_result run_eff" where
  "enter_terminal_review env mid =
    andthen (tries (\<lambda>_. case en_roots env mid of None \<Rightarrow> Inr () | Some e \<Rightarrow> Inl e)) (\<lambda>_.
    andthen (fresh_attempt mid (en_now env)) (\<lambda>spawn_ts.
    andthen (tries (load_task_list mid)) (\<lambda>tks.
    let assigned = ordered_unique (concat (map t_targets tks)) in
    andthen (begin_supervision_attempt env mid spawn_ts Reviewer_Role assigned None) (\<lambda>_.
    andthen (await_role_effect mid (en_review env mid spawn_ts)) (\<lambda>out.
    case out of
      Inl e \<Rightarrow> andthen (modifies (save_terminal_review mid spawn_ts (crashed_review env e)))
                 (\<lambda>_. conclude_review env mid spawn_ts assigned True (crashed_review env e))
    | Inr report \<Rightarrow> conclude_review env mid spawn_ts assigned False report)))))"

definition under_provider_review :: "mission \<Rightarrow> task_state \<Rightarrow> bool" where
  "under_provider_review m ts \<longleftrightarrow> list_ex (\<lambda>(node, e). case e_last_attempt e of
     None \<Rightarrow> False | Some a \<Rightarrow> a \<noteq> [] \<and> review_of m a node \<noteq> None) ts"

definition close_at_rest :: "env \<Rightarrow> string \<Rightarrow> task_list \<Rightarrow> task_state \<Rightarrow> step_result run_eff" where
  "close_at_rest env mid tks ts =
    andthen (reads (mission_of mid)) (\<lambda>m.
    if under_provider_review m ts then ret (Idle EXPLANATION)
    else if ready_gate tks ts \<noteq> None then ret (Idle ''mission has a ready gate; call advance_project first'')
    else case next_runnable_task tks ts of
      Some t \<Rightarrow> ret (Idle (''mission has runnable task work ('' @ t_id t @ ''); call advance_project first''))
    | None \<Rightarrow> enter_terminal_review env mid)"

definition close_mission :: "env \<Rightarrow> string \<Rightarrow> step_result run_eff" where
  "close_mission env mid =
    andthen (reads p_state) (\<lambda>st.
    case st of
      Some (MissionRunning _) \<Rightarrow>
        andthen (reads (\<lambda>pj. m_tasks (mission_of mid pj))) (\<lambda>found.
        case found of
          None \<Rightarrow> andthen (modifies (save_state (ProjectFailed (''tasks.json missing for '' @ mid)))) (\<lambda>_.
                    ret (Terminal ''task_list missing''))
        | Some tks \<Rightarrow>
           andthen (reads (load_task_state mid)) (\<lambda>ts.
           andthen (reconcile_pending_attempts env mid tks ts) (\<lambda>resumed.
           case resumed of
             Some r \<Rightarrow> ret r
           | None \<Rightarrow> close_at_rest env mid tks ts)))
    | _ \<Rightarrow> ret (Idle ''close_mission requires mission_running''))"

end
