(* ===== verification/Lineage.thy ===== *)
theory Lineage
  imports Envelope
begin

text \<open>
  The supersession lineage: the cycle check \<^verbatim>\<open>storage.py\<close> makes when it reads the file and
  \<^verbatim>\<open>controller.py\<close> before it writes it, and the edges a decision batch adds.
\<close>

definition lineage_successors :: "lineage_edge list \<Rightarrow> lineage_key graph" where
  "lineage_successors edges = fold (\<lambda>e. dict_append (le_old e) (le_new e)) edges []"

lemma fewer_open: "n \<notin> set path \<Longrightarrow> n \<in> set (dict_keys g) \<Longrightarrow>
    card (set (dict_keys g) - set (n # path)) < card (set (dict_keys g) - set path)"
  by (rule psubset_card_mono) auto

text \<open>
  The nested function \<open>visit\<close> over a list of nodes: \<open>path\<close> is \<open>visiting\<close>, \<open>seen\<close> is \<open>visited\<close>, and a node
  met on the path is a cycle, \<open>None\<close>.
\<close>

function visit :: "'k graph \<Rightarrow> 'k list \<Rightarrow> 'k list \<Rightarrow> 'k list \<Rightarrow> 'k list option" where
  "visit g path seen [] = Some seen"
| "visit g path seen (n # ns) =
    (if n \<in> set path then None
     else if n \<in> set seen then visit g path seen ns
     else case visit g (n # path) seen (succs g n) of
       None \<Rightarrow> None
     | Some seen' \<Rightarrow> visit g path (n # seen') ns)"
  by pat_completeness auto

termination
proof (relation "measures [\<lambda>(g, path, seen, ns). card (set (dict_keys g) - set path), \<lambda>(g, path, seen, ns). length ns]", goal_cases)
  case (3 g path seen n ns)
  show ?case
  proof (cases "n \<in> set (dict_keys g)")
    case True
    then show ?thesis using fewer_open[OF 3(1) True] by simp
  next
    case False
    then have "set (dict_keys g) - set (n # path) = set (dict_keys g) - set path" by auto
    then show ?thesis using succs_not_key[of n g] False by simp
  qed
qed auto

lemma visit_Some:
  "visit g path seen ns = Some seen' \<Longrightarrow> set seen \<subseteq> Wellfounded.acc ((arcs g)\<inverse>) \<Longrightarrow>
   set seen \<union> set ns \<subseteq> set seen' \<and> set seen' \<subseteq> Wellfounded.acc ((arcs g)\<inverse>)"
proof (induction g path seen ns arbitrary: seen' rule: visit.induct)
  case (2 g path seen n ns)
  show ?case
  proof (cases "n \<in> set seen")
    case True
    then show ?thesis using 2 by (auto split: if_splits)
  next
    case False
    with 2(4) obtain inner where path: "n \<notin> set path" and inner: "visit g (n # path) seen (succs g n) = Some inner"
      and rest: "visit g path (n # inner) ns = Some seen'"
      by (auto split: if_splits option.splits)
    have below: "set seen \<union> set (succs g n) \<subseteq> set inner" "set inner \<subseteq> Wellfounded.acc ((arcs g)\<inverse>)"
      using 2(2)[OF path False inner 2(5)] by auto
    have "n \<in> Wellfounded.acc ((arcs g)\<inverse>)"
      by (rule accI) (use below in \<open>auto simp: arcs_iff\<close>)
    then show ?thesis using 2(3)[OF path False inner rest] below by auto
  qed
qed simp

lemma visit_None:
  "visit g path seen ns = None \<Longrightarrow> \<forall>p \<in> set path. \<forall>n \<in> set ns. (p, n) \<in> (arcs g)\<^sup>+ \<Longrightarrow> \<exists>x. (x, x) \<in> (arcs g)\<^sup>+"
proof (induction g path seen ns rule: visit.induct)
  case (2 g path seen n ns)
  show ?case
  proof (cases "n \<in> set path \<or> n \<in> set seen")
    case True
    then show ?thesis using 2 by (auto split: if_splits)
  next
    case False
    then have new: "n \<notin> set path" "n \<notin> set seen" by simp_all
    have below: "\<forall>p \<in> set (n # path). \<forall>c \<in> set (succs g n). (p, c) \<in> (arcs g)\<^sup>+"
      using 2(5) by (auto simp: arcs_iff intro: trancl_into_trancl r_into_trancl)
    show ?thesis
    proof (cases "visit g (n # path) seen (succs g n)")
      case None
      then show ?thesis using 2(2)[OF new None below] by simp
    next
      case (Some inner)
      then show ?thesis using 2(3)[OF new Some] 2(4,5) new by auto
    qed
  qed
qed simp

lemma visit_accepts: "visit g [] [] (dict_keys g) \<noteq> None \<longleftrightarrow> acyclic (arcs g)"
proof
  assume "visit g [] [] (dict_keys g) \<noteq> None"
  then obtain seen where seen: "visit g [] [] (dict_keys g) = Some seen" by blast
  have keys: "set (dict_keys g) \<subseteq> Wellfounded.acc ((arcs g)\<inverse>)" using visit_Some[OF seen] by auto
  have all: "x \<in> Wellfounded.acc ((arcs g)\<inverse>)" for x
  proof (cases "x \<in> set (dict_keys g)")
    case True
    then show ?thesis using keys by blast
  next
    case False
    then have "succs g x = []" using succs_not_key[of x g] by simp
    then show ?thesis by - (rule accI, simp add: arcs_iff)
  qed
  have "wf ((arcs g)\<inverse>)" by (rule acc_wfI) (rule allI, rule all)
  from wf_acyclic[OF this] show "acyclic (arcs g)" unfolding acyclic_converse .
next
  assume acyclic: "acyclic (arcs g)"
  show "visit g [] [] (dict_keys g) \<noteq> None"
  proof (rule notI)
    assume none: "visit g [] [] (dict_keys g) = None"
    have "\<forall>p \<in> set []. \<forall>n \<in> set (dict_keys g). (p, n) \<in> (arcs g)\<^sup>+" by simp
    from visit_None[OF none this] acyclic show False unfolding acyclic_def by blast
  qed
qed

section \<open>Edges\<close>

definition lineage_acyclic :: "lineage_edge list \<Rightarrow> bool" where
  "lineage_acyclic edges \<longleftrightarrow> visit (lineage_successors edges) [] [] (dict_keys (lineage_successors edges)) \<noteq> None"


lemma lineage_successors_succs: "succs (lineage_successors edges) k = map le_new (filter (\<lambda>e. le_old e = k) edges)"
proof -
  have "dict_get (fold (\<lambda>e. dict_append (le_old e) (le_new e)) edges d) [] k
      = dict_get d [] k @ map le_new (filter (\<lambda>e. le_old e = k) edges)" for d
    by (induction edges arbitrary: d) (auto simp: dict_simps)
  then show ?thesis by (simp add: succs_def lineage_successors_def)
qed

lemma lineage_successors_arcs: "arcs (lineage_successors edges) = (\<lambda>e. (le_old e, le_new e)) ` set edges"
  by (auto simp: arcs_def lineage_successors_succs intro: rev_image_eqI)

lemma lineage_acyclic_iff: "lineage_acyclic edges \<longleftrightarrow> acyclic ((\<lambda>e. (le_old e, le_new e)) ` set edges)"
  by (simp only: lineage_acyclic_def visit_accepts lineage_successors_arcs)

text \<open>
  \<open>load_supersession_edges\<close> on rows of the required shape.  The identities of a row are its key, so a
  row that was seen is a row that occurs twice.
\<close>

definition lineage_identity_ok :: "lineage_key \<Rightarrow> bool" where
  "lineage_identity_ok k \<longleftrightarrow> fst k \<noteq> [] \<and> snd k \<noteq> []"

definition load_lineage_rows :: "lineage_edge list \<Rightarrow> lineage_edge list option" where
  "load_lineage_rows rows =
    (if 256 < length rows then None
     else if \<not> list_all (\<lambda>e. lineage_identity_ok (le_new e) \<and> lineage_identity_ok (le_old e)) rows then None
     else if \<not> distinct rows then None
     else if list_ex (\<lambda>e. le_old e = le_new e) rows then None
     else if \<not> lineage_acyclic rows then None
     else Some rows)"

text \<open>The edges of \<open>_extended_lineage\<close>: those of the patches of a batch, and the checks on the whole.\<close>

datatype lineage_refusal = Duplicate_Edge | Too_Many_Edges | Cyclic_Lineage

fun add_edges :: "string \<Rightarrow> (string \<times> string) list \<Rightarrow> lineage_edge list \<Rightarrow> lineage_edge list option" where
  "add_edges mid [] edges = Some edges"
| "add_edges mid ((old_id, new_id) # ps) edges =
    (let e = \<lparr>le_old = (mid, old_id), le_new = (mid, new_id)\<rparr> in
     if e \<in> set edges then None else add_edges mid ps (edges @ [e]))"

definition batch_supersessions :: "decision list \<Rightarrow> (string \<times> string) list" where
  "batch_supersessions ds = concat (map (\<lambda>d. case d_patch d of
     None \<Rightarrow> [] | Some p \<Rightarrow> if d_action d = Patch then p_supersede p else []) ds)"

definition extended_lineage :: "string \<Rightarrow> decision list \<Rightarrow> lineage_edge list \<Rightarrow> lineage_refusal + lineage_edge list" where
  "extended_lineage mid ds edges =
    (case add_edges mid (batch_supersessions ds) edges of
       None \<Rightarrow> Inl Duplicate_Edge
     | Some es \<Rightarrow> if 256 < length es then Inl Too_Many_Edges
                  else if \<not> lineage_acyclic es then Inl Cyclic_Lineage else Inr es)"

definition edge_of :: "string \<Rightarrow> string \<times> string \<Rightarrow> lineage_edge" where
  "edge_of mid p = \<lparr>le_old = (mid, fst p), le_new = (mid, snd p)\<rparr>"

lemma add_edges_iff:
  "distinct edges \<Longrightarrow> add_edges mid ps edges
     = (if distinct (edges @ map (edge_of mid) ps) then Some (edges @ map (edge_of mid) ps) else None)"
proof (induction ps arbitrary: edges)
  case (Cons p ps)
  have step: "add_edges mid (p # ps) edges
      = (if edge_of mid p \<in> set edges then None else add_edges mid ps (edges @ [edge_of mid p]))"
    by (cases p) (simp add: edge_of_def Let_def)
  show ?case
  proof (cases "edge_of mid p \<in> set edges")
    case True
    then show ?thesis unfolding step by simp
  next
    case False
    then have "distinct (edges @ [edge_of mid p])" using Cons.prems by simp
    from Cons.IH[OF this] show ?thesis unfolding step using False by simp
  qed
qed simp

text \<open>The lineage file a batch writes can always be read again.  From a file that was accepted, the extension
  by the supersessions of a batch of a mission is refused exactly when an edge would occur twice, there would
  be more than 256 or the edges would form a cycle; otherwise it appends the edges in order, and the reader
  accepts the result as it is, provided the ids of the new edges are not empty.\<close>

theorem lineage_stays_readable:
  assumes "load_lineage_rows rows = Some edges" "mid \<noteq> []"
    "list_all (\<lambda>p. fst p \<noteq> [] \<and> snd p \<noteq> []) (batch_supersessions ds)"
  shows "(case extended_lineage mid ds edges of
       Inr es \<Rightarrow> es = edges @ map (edge_of mid) (batch_supersessions ds) \<and> load_lineage_rows es = Some es
     | Inl r \<Rightarrow> let es = edges @ map (edge_of mid) (batch_supersessions ds) in
         \<not> distinct es \<or> 256 < length es \<or> \<not> acyclic ((\<lambda>e. (le_old e, le_new e)) ` set es))"
proof -
  define es where "es = edges @ map (edge_of mid) (batch_supersessions ds)"
  have edges: "distinct edges" "list_all (\<lambda>e. lineage_identity_ok (le_new e) \<and> lineage_identity_ok (le_old e)) edges"
    using assms(1) by (auto simp: load_lineage_rows_def split: if_splits)
  have added: "extended_lineage mid ds edges = (if \<not> distinct es then Inl Duplicate_Edge else if 256 < length es then Inl Too_Many_Edges
      else if \<not> lineage_acyclic es then Inl Cyclic_Lineage else Inr es)"
    by (simp add: extended_lineage_def add_edges_iff[OF edges(1)] es_def)
  have "list_all (\<lambda>e. lineage_identity_ok (le_new e) \<and> lineage_identity_ok (le_old e)) (map (edge_of mid) (batch_supersessions ds))"
    using assms(2,3) by (simp add: list_all_iff lineage_identity_ok_def edge_of_def)
  then have named: "list_all (\<lambda>e. lineage_identity_ok (le_new e) \<and> lineage_identity_ok (le_old e)) es"
    using edges(2) by (simp add: es_def)
  have loops: "\<not> list_ex (\<lambda>e. le_old e = le_new e) es" if "lineage_acyclic es"
  proof
    assume "list_ex (\<lambda>e. le_old e = le_new e) es"
    then obtain e where e: "e \<in> set es" "le_old e = le_new e" unfolding list_ex_iff by blast
    have "(\<lambda>e. (le_old e, le_new e)) e \<in> (\<lambda>e. (le_old e, le_new e)) ` set es" using e(1) by (rule imageI)
    then have "(le_new e, le_new e) \<in> (\<lambda>e. (le_old e, le_new e)) ` set es" unfolding e(2) .
    then show False using that unfolding lineage_acyclic_iff acyclic_def by blast
  qed
  have "load_lineage_rows es = Some es" if "distinct es" "length es \<le> 256" "lineage_acyclic es"
    using that named loops[OF that(3)] by (simp add: load_lineage_rows_def)
  then show ?thesis unfolding es_def[symmetric] added Let_def lineage_acyclic_iff[symmetric] by simp
qed

theorem lineage_stays_readable_witness:
  "load_lineage_rows [edge_of ''m1'' (''w1'', ''w3'')] = Some [edge_of ''m1'' (''w1'', ''w3'')]"
proof -
  let ?ds = "[\<lparr>d_item_id = ''i1'', d_action = Patch,
    d_patch = Some \<lparr>p_add_items = [], p_add = [], p_supersede = [(''w1'', ''w3'')], p_cancel = []\<rparr>, d_justification = []\<rparr>] :: decision list"
  have start: "load_lineage_rows [] = Some []" by code_simp
  have ext: "extended_lineage ''m1'' ?ds [] = Inr [edge_of ''m1'' (''w1'', ''w3'')]" by code_simp
  from lineage_stays_readable[OF start, of "''m1''" ?ds] ext show ?thesis
    by (simp add: batch_supersessions_def)
qed

end
