(* ===== verification/Controller.thy ===== *)
theory Controller
  imports Coordinator Lineage Task_List_Patch
begin

text \<open>
  \<^verbatim>\<open>controller.py\<close>: the tools of the orchestrator.  Each is one effect on the project, from the project lock
  to the state it leaves; \<open>build_envelope\<close> is the reply.

  The project here is the one the store shows after the recovery of a pending decision batch, which
  every tool runs first.  A batch with a patch is planned in memory and installed by one patch
  transaction; how that ended is an argument, and by the atomicity of the transactions
  (\<^theory_text>\<open>Patch_Transaction_Theorems\<close>) nothing else can be left behind.  The text of the decision record, the
  redaction of what is written and the paths in the reply are left out.
\<close>

datatype ctl_exn = Tool_Error string string "validation_error list" | Uncaught run_exn

type_synonym 'a ctl_eff = "(project, ctl_exn, 'a) eff"

text \<open>The transaction was executed, or stopped with a code, before or after its commit marker.\<close>

datatype commit_outcome = Executed | Stopped string bool

record ctl_env =
  ce_env :: env
  ce_access :: "ctl_exn option"
  ce_commit :: commit_outcome
  ce_sync :: "run_exn option"
  ce_resolve :: "string \<Rightarrow> string list \<Rightarrow> string + string list"
  ce_reference :: "string \<Rightarrow> string \<Rightarrow> string \<Rightarrow> review_identity \<Rightarrow> string option"
  ce_fuel :: nat

definition lifted :: "'a run_eff \<Rightarrow> 'a ctl_eff" where
  "lifted m pj = (case m pj of (x, pj') \<Rightarrow> (map_sum Uncaught id x, pj'))"

definition with_access :: "ctl_env \<Rightarrow> 'a ctl_eff \<Rightarrow> 'a ctl_eff" where
  "with_access ce m = (case ce_access ce of Some e \<Rightarrow> throw e | None \<Rightarrow> m)"

definition invalid_decisions :: ctl_exn where
  "invalid_decisions = Tool_Error ''invalid_decisions'' EXPLANATION []"

definition wrong_state :: "string \<Rightarrow> ctl_exn" where
  "wrong_state tool = Tool_Error ''wrong_state'' tool []"

definition require_state :: "project_state ctl_eff" where
  "require_state = andthen (reads p_state) (\<lambda>st. case st of
     None \<Rightarrow> throw (Tool_Error ''not_found'' ''project has no state'' []) | Some s \<Rightarrow> ret s)"

text \<open>The missions with a runtime directory, which saving their task list makes.\<close>

definition list_missions :: "project \<Rightarrow> string list" where
  "list_missions pj = map fst (filter (\<lambda>(_, m). m_tasks m \<noteq> None) (p_missions pj))"

definition generate_mission_id :: "nat \<Rightarrow> string" where
  "generate_mission_id n = ''mission-'' @ replicate (3 - length (show_nat n)) CHR ''0'' @ show_nat n"

definition current_mission_id :: "project_state option \<Rightarrow> project \<Rightarrow> string option" where
  "current_mission_id st pj = (case st of
     Some (MissionPlanning mid) \<Rightarrow> Some mid | Some (MissionRunning mid) \<Rightarrow> Some mid | _ \<Rightarrow> p_current pj)"

section \<open>Planning and advancing\<close>

definition fresh_cursor :: "task_list \<Rightarrow> task_state" where
  "fresh_cursor tks = fold (\<lambda>t. set_status (t_id t) Pending) tks []"

definition seed_assertions :: "string list \<Rightarrow> contract_state \<Rightarrow> contract_state" where
  "seed_assertions ids cs = fold (\<lambda>a. dict_setdefault a APending) ids cs"

definition submit_plan :: "ctl_env \<Rightarrow> task_list \<Rightarrow> unit ctl_eff" where
  "submit_plan ce tks = with_access ce (andthen require_state (\<lambda>st.
    case st of
      MissionPlanning mid \<Rightarrow>
        andthen (reads (mission_of mid)) (\<lambda>m.
        if m_contract_errors m \<noteq> []
        then throw (Tool_Error ''invalid_contract_dir'' ''contract directory invalid'' (m_contract_errors m))
        else let errs = validate_task_list_submission (m_assertions m) tks in
        if errs \<noteq> [] then throw (Tool_Error ''invalid_task_list'' ''task list validation failed'' errs)
        else block [modifies (save_task_list mid tks),
                    modifies (save_task_state mid (fresh_cursor tks)),
                    modifies (save_contract_state mid (seed_assertions (m_assertions m) [])),
                    modifies (save_state (MissionRunning mid))])
    | _ \<Rightarrow> throw (wrong_state ''submit_plan requires MissionPlanning'')))"

text \<open>The loop of \<open>_advance_project\<close>, with fuel for its turns; \<open>None\<close> when the fuel was not enough.\<close>

fun advance_loop :: "ctl_env \<Rightarrow> nat option \<Rightarrow> nat \<Rightarrow> nat \<Rightarrow> step_result option ctl_eff" where
  "advance_loop ce max_steps 0 steps = ret None"
| "advance_loop ce max_steps (Suc fuel) steps =
    andthen (lifted (step (ce_env ce))) (\<lambda>r. case r of
      Advanced w \<Rightarrow>
        if (case max_steps of None \<Rightarrow> False | Some n \<Rightarrow> n \<le> steps + 1) then ret (Some r)
        else advance_loop ce max_steps fuel (steps + 1)
    | _ \<Rightarrow> ret (Some r))"

definition sync_surfaces :: "ctl_env \<Rightarrow> unit ctl_eff" where
  "sync_surfaces ce = (case ce_sync ce of None \<Rightarrow> ret () | Some e \<Rightarrow> throw (Uncaught e))"

definition advance_project :: "ctl_env \<Rightarrow> nat option \<Rightarrow> step_result option ctl_eff" where
  "advance_project ce max_steps = with_access ce (
    andthen (reads p_state) (\<lambda>st.
    andthen (case st of
        Some (MissionRunning mid) \<Rightarrow>
          andthen (reads (\<lambda>pj. m_tasks (mission_of mid pj))) (\<lambda>found. case found of
            None \<Rightarrow> ret ()
          | Some tks \<Rightarrow> andthen (reads (load_task_state mid)) (\<lambda>ts.
              andthen (lifted (reconcile_denials mid tks ts)) (\<lambda>_. ret ())))
      | _ \<Rightarrow> ret ()) (\<lambda>_.
    andthen (sync_surfaces ce) (\<lambda>_.
    andthen (advance_loop ce max_steps (ce_fuel ce) 0) (\<lambda>r.
    andthen (sync_surfaces ce) (\<lambda>_. ret r))))))"

text \<open>What is a \<open>ValueError\<close> in Python: \<open>end_mission\<close> reports all of them as invalid review roots.\<close>

fun value_error :: "run_exn \<Rightarrow> bool" where
  "value_error (Attempt_Invalid _) = True"
| "value_error (Item_Invalid _) = True"
| "value_error (Supervision_Raised e) = (e \<noteq> Stop_Iteration \<and> e \<noteq> Sup_Fault)"
| "value_error _ = False"

definition end_refusal :: "ctl_env \<Rightarrow> ctl_exn \<Rightarrow> ctl_exn" where
  "end_refusal ce e = (case e of
     Uncaught e' \<Rightarrow> if value_error e' then Tool_Error ''invalid_deliverable_roots'' (en_text (ce_env ce) e') [] else e
   | _ \<Rightarrow> e)"

definition close_for_end :: "ctl_env \<Rightarrow> string \<Rightarrow> unit ctl_eff" where
  "close_for_end ce mid =
    andthen (handling (lifted (close_mission (ce_env ce) mid)) (\<lambda>e. throw (end_refusal ce e))) (\<lambda>r. case r of
      Idle detail \<Rightarrow> throw (Tool_Error ''mission_not_ready_to_close''
         (if detail = [] then ''mission still has runnable task work'' else detail) [])
    | _ \<Rightarrow> ret ())"

definition end_mission :: "ctl_env \<Rightarrow> string list option \<Rightarrow> unit ctl_eff" where
  "end_mission ce roots = with_access ce (andthen require_state (\<lambda>st.
    case st of
      MissionRunning mid \<Rightarrow>
        (case (case roots of None \<Rightarrow> Inr None | Some rs \<Rightarrow> map_sum id Some (ce_resolve ce mid rs)) of
           Inl e \<Rightarrow> throw (Tool_Error ''invalid_deliverable_roots'' e [])
         | Inr _ \<Rightarrow> close_for_end ce mid)
    | _ \<Rightarrow> throw (wrong_state ''end_mission requires MissionRunning'')))"

section \<open>Decisions\<close>

text \<open>\<open>_validate_decisions\<close>: every open item decided exactly once, by an action its kind allows.\<close>

fun duplicate_decisions :: "string list \<Rightarrow> decision list \<Rightarrow> validation_error list" where
  "duplicate_decisions seen [] = []"
| "duplicate_decisions seen (d # ds) =
    (if d_item_id d \<in> set seen then [ValidationError ''duplicate_decision'' (d_item_id d)] else [])
    @ duplicate_decisions (d_item_id d # seen) ds"

definition item_by_id :: "attention_item list \<Rightarrow> string \<Rightarrow> attention_item option" where
  "item_by_id items i = map_of (rev (map (\<lambda>it. (a_id it, it)) items)) i"

definition check_action :: "attention_item list \<Rightarrow> decision \<Rightarrow> validation_error list" where
  "check_action items d = (case item_by_id items (d_item_id d) of
     None \<Rightarrow> []
   | Some it \<Rightarrow>
      (if d_action d = Retry \<and> a_kind it \<noteq> Node_failed
       then [ValidationError ''invalid_action'' ''retry is only valid for node_failed''] else [])
      @ (if d_action d = Next_mission \<and> a_kind it \<noteq> Terminal_review
         then [ValidationError ''invalid_action'' ''next_mission is only valid for runtime closure reports''] else [])
      @ (if d_action d = Patch
         then (case d_patch d of
             None \<Rightarrow> [ValidationError ''missing_patch'' (''item '' @ d_item_id d @ '' action=patch requires patch'')]
           | Some p \<Rightarrow> if is_empty_patch p then [ValidationError ''empty_patch'' (d_item_id d)] else [])
         else []))"

definition validate_decisions :: "decision list \<Rightarrow> attention_item list \<Rightarrow> validation_error list" where
  "validate_decisions ds items =
    (let item_ids = map a_id items; decided = map d_item_id ds in
     map (ValidationError ''unresolved_attention_item'') (sorted_set (filter (\<lambda>i. i \<notin> set decided) item_ids))
     @ map (ValidationError ''unknown_attention_item'') (sorted_set (filter (\<lambda>i. i \<notin> set item_ids) decided))
     @ duplicate_decisions [] ds
     @ concat (map (check_action items) ds))"

text \<open>\<open>_check_provider_decision\<close>, with the guards of the item's mission as the store shows them.\<close>

definition mission_guards :: "string \<Rightarrow> project \<Rightarrow> ctl_exn + string list" where
  "mission_guards mid pj =
    (case load_task_list mid pj of
       Inl e \<Rightarrow> Inl (Uncaught e)
     | Inr tks \<Rightarrow> map_sum Uncaught id (provider_replay_guards (mission_of mid pj) tks (load_task_state mid pj)))"

definition retired_ids :: "task_list_patch \<Rightarrow> string list" where
  "retired_ids p = p_cancel p @ dict_keys (p_supersede p)"

definition guarded_item :: "string list \<Rightarrow> attention_item \<Rightarrow> bool" where
  "guarded_item guards it = (case a_node_id it of None \<Rightarrow> False | Some n \<Rightarrow> n \<in> set guards)"

definition check_provider_decision :: "attention_item \<Rightarrow> decision \<Rightarrow> project \<Rightarrow> ctl_exn + unit" where
  "check_provider_decision it d pj =
    (case mission_guards (a_mission_id it) pj of
       Inl e \<Rightarrow> Inl e
     | Inr guards \<Rightarrow>
        if (case d_patch d of None \<Rightarrow> False | Some p \<Rightarrow> list_ex (\<lambda>i. i \<in> set guards) (retired_ids p)) then Inl invalid_decisions
        else if \<not> guarded_item guards it \<or> d_action d = Abort then Inr ()
        else if d_action d = Patch \<and> (case d_patch d of None \<Rightarrow> False | Some p \<Rightarrow> retired_ids p = []) then Inr ()
        else Inl invalid_decisions)"

definition node_of_item :: "attention_item \<Rightarrow> string" where
  "node_of_item it = (case a_node_id it of None \<Rightarrow> [] | Some n \<Rightarrow> n)"

definition failed_kind :: "attention_item \<Rightarrow> bool" where
  "failed_kind it \<longleftrightarrow> a_kind it \<in> {Node_failed, Gate_failed}"

definition abort_reason :: "decision \<Rightarrow> string" where
  "abort_reason d = (if d_justification d = [] then ''aborted'' else d_justification d)"

definition gap_body :: string where
  "gap_body = ''Sealed with gap(s) acknowledged via next_mission decision.''"

definition next_id :: "project \<Rightarrow> string" where
  "next_id pj = generate_mission_id (length (list_missions pj) + 1)"

text \<open>Where a batch without a deciding outcome goes.\<close>

definition default_state :: "string option \<Rightarrow> project_state" where
  "default_state current = (case current of None \<Rightarrow> Draft | Some mid \<Rightarrow> if mid = [] then Draft else MissionRunning mid)"

section \<open>A batch without a patch\<close>

definition set_node :: "string \<Rightarrow> string \<Rightarrow> task_status \<Rightarrow> unit ctl_eff" where
  "set_node mid node st = andthen (reads (load_task_state mid)) (\<lambda>ts. modifies (save_task_state mid (set_status node st ts)))"

definition seal_and_plan_next :: "string \<Rightarrow> project_state ctl_eff" where
  "seal_and_plan_next mid =
    andthen (modifies (seal_mission mid ''done_with_acknowledged_gaps'' gap_body)) (\<lambda>_.
    andthen (reads next_id) (\<lambda>new_mid.
    andthen (modifies (\<lambda>pj. pj\<lparr>p_current := Some new_mid\<rparr>)) (\<lambda>_.
    ret (MissionPlanning new_mid))))"

text \<open>
  \<open>_apply_task_list_patch\<close> and what \<open>_apply_one\<close> does behind it; \<open>decide_attention\<close> sends every batch with a
  patch through a transaction instead.
\<close>

definition apply_task_list_patch :: "string \<Rightarrow> task_list_patch \<Rightarrow> unit ctl_eff" where
  "apply_task_list_patch mid p =
    andthen (lifted (tries (load_task_list mid))) (\<lambda>tks.
    andthen (reads (load_task_state mid)) (\<lambda>ts.
    andthen (reads (mission_of mid)) (\<lambda>m.
    let old_ids = dict_keys (m_contract m) in
    case apply_patch tks ts old_ids p (Some (filter (\<lambda>a. a \<notin> set old_ids) (m_assertions m))) of (tks', ts', ids, errors) \<Rightarrow>
      if errors \<noteq> [] then throw (Tool_Error ''invalid_patch'' ''patch validation failed'' errors)
      else block [modifies (save_task_list mid tks'), modifies (save_task_state mid ts'),
                  modifies (save_contract_state mid (seed_assertions (filter (\<lambda>a. a \<notin> set old_ids) ids) (m_contract m)))])))"

definition reopen_patched :: "attention_item \<Rightarrow> task_list_patch \<Rightarrow> unit ctl_eff" where
  "reopen_patched it p =
    (let mid = a_mission_id it; node = node_of_item it in
     andthen (reads (load_task_state mid)) (\<lambda>ts.
     andthen (if failed_kind it \<and> node \<noteq> [] \<and> node \<notin> set (retired_ids p)
              then tries (\<lambda>pj. map_sum id (\<lambda>guards. \<not> guarded_item guards it) (mission_guards mid pj)) else ret False) (\<lambda>reopen.
     modifies (save_task_state mid (if reopen then set_status node Pending ts else ts)))))"

definition apply_one :: "attention_item \<Rightarrow> decision \<Rightarrow> project_state option ctl_eff" where
  "apply_one it d =
    andthen (tries (check_provider_decision it d)) (\<lambda>_.
    let mid = a_mission_id it; node = node_of_item it in
    case d_action d of
      Patch \<Rightarrow> (case d_patch d of
          None \<Rightarrow> throw (Uncaught (Run_Error ''AssertionError''))
        | Some p \<Rightarrow> andthen (apply_task_list_patch mid p) (\<lambda>_. andthen (reopen_patched it p) (\<lambda>_. ret (Some (MissionRunning mid)))))
    | Retry \<Rightarrow> if node \<noteq> [] then andthen (set_node mid node Pending) (\<lambda>_. ret (Some (MissionRunning mid))) else ret None
    | Continue \<Rightarrow>
        if failed_kind it \<and> node \<noteq> [] then andthen (set_node mid node Cleared) (\<lambda>_. ret (Some (MissionRunning mid)))
        else if a_kind it = Terminal_review then ret None else ret (Some (MissionRunning mid))
    | Abort \<Rightarrow> ret (Some (Aborted (abort_reason d)))
    | Next_mission \<Rightarrow> andthen (seal_and_plan_next mid) (\<lambda>st. ret (Some st)))"

fun apply_each :: "(attention_item \<times> decision) list \<Rightarrow> project_state option \<Rightarrow> project_state option ctl_eff" where
  "apply_each [] next = ret next"
| "apply_each ((it, d) # ds) next =
    andthen (apply_one it d) (\<lambda>outcome. apply_each ds (case outcome of None \<Rightarrow> next | Some st \<Rightarrow> Some st))"

definition apply_decisions :: "(attention_item \<times> decision) list \<Rightarrow> project_state ctl_eff" where
  "apply_decisions ds =
    andthen (apply_each ds None) (\<lambda>next. case next of
      Some st \<Rightarrow> ret st
    | None \<Rightarrow> andthen (reads p_current) (\<lambda>current. ret (default_state current)))"

definition next_decision_number :: "project \<Rightarrow> nat" where
  "next_decision_number pj = fold (\<lambda>(n, _). max n) (p_decisions pj) 0 + 1"

definition record_decision :: "nat \<Rightarrow> decision list \<Rightarrow> attention_item list \<Rightarrow> project \<Rightarrow> project" where
  "record_decision n ds items pj = pj\<lparr>p_decisions := p_decisions pj @ [(n, ds, items)]\<rparr>"

definition append_decision_record :: "decision list \<Rightarrow> attention_item list \<Rightarrow> project \<Rightarrow> project" where
  "append_decision_record ds items pj = record_decision (next_decision_number pj) ds items pj"

section \<open>A batch with a patch\<close>

text \<open>What the loop over the decisions builds up in memory.\<close>

record draft =
  dr_tasks :: task_list
  dr_state :: task_state
  dr_contract :: contract_state
  dr_seal :: "(string \<times> string) option"
  dr_current :: "string option"
  dr_next :: "project_state option"

definition draft_patch :: "string \<Rightarrow> project \<Rightarrow> attention_item \<Rightarrow> task_list_patch \<Rightarrow> draft \<Rightarrow> ctl_exn + draft" where
  "draft_patch mid pj it p dr =
    (let old_ids = dict_keys (dr_contract dr);
         on_disk = filter (\<lambda>a. a \<notin> set old_ids) (m_assertions (mission_of mid pj))
     in case apply_patch (dr_tasks dr) (dr_state dr) old_ids p (Some on_disk) of (tks, ts, ids, errors) \<Rightarrow>
       if errors \<noteq> [] then Inl (Tool_Error ''invalid_patch'' ''patch validation failed'' errors)
       else let dr' = dr\<lparr>dr_tasks := tks, dr_state := ts,
                dr_contract := seed_assertions (filter (\<lambda>a. a \<notin> set old_ids) ids) (dr_contract dr),
                dr_next := Some (MissionRunning mid)\<rparr>
       in if failed_kind it \<and> node_of_item it \<noteq> [] \<and> node_of_item it \<notin> set (retired_ids p)
          then (case mission_guards (a_mission_id it) pj of
              Inl e \<Rightarrow> Inl e
            | Inr guards \<Rightarrow> Inr (if guarded_item guards it then dr' else dr'\<lparr>dr_state := set_status (node_of_item it) Pending ts\<rparr>))
          else Inr dr')"

definition draft_one :: "string \<Rightarrow> project \<Rightarrow> attention_item \<times> decision \<Rightarrow> draft \<Rightarrow> ctl_exn + draft" where
  "draft_one mid pj itd dr = (case itd of (it, d) \<Rightarrow> (let node = node_of_item it in
    case d_action d of
      Patch \<Rightarrow> (case d_patch d of
          None \<Rightarrow> Inl (Uncaught (Run_Error ''AssertionError'')) | Some p \<Rightarrow> draft_patch mid pj it p dr)
    | Retry \<Rightarrow> Inr (if node \<noteq> [] then dr\<lparr>dr_state := set_status node Pending (dr_state dr), dr_next := Some (MissionRunning mid)\<rparr>
                    else dr)
    | Continue \<Rightarrow> Inr (
        if failed_kind it \<and> node \<noteq> []
        then dr\<lparr>dr_state := set_status node Cleared (dr_state dr), dr_next := Some (MissionRunning mid)\<rparr>
        else if a_kind it \<noteq> Terminal_review then dr\<lparr>dr_next := Some (MissionRunning mid)\<rparr> else dr)
    | Abort \<Rightarrow> Inr (dr\<lparr>dr_next := Some (Aborted (abort_reason d))\<rparr>)
    | Next_mission \<Rightarrow> Inr (dr\<lparr>dr_seal := Some (''done_with_acknowledged_gaps'', gap_body),
                            dr_current := Some (next_id pj), dr_next := Some (MissionPlanning (next_id pj))\<rparr>)))"

fun draft_all :: "string \<Rightarrow> project \<Rightarrow> (attention_item \<times> decision) list \<Rightarrow> draft \<Rightarrow> ctl_exn + draft" where
  "draft_all mid pj [] dr = Inr dr"
| "draft_all mid pj (itd # ds) dr = (case draft_one mid pj itd dr of Inl e \<Rightarrow> Inl e | Inr dr' \<Rightarrow> draft_all mid pj ds dr')"

definition load_supersession_edges :: "mission \<Rightarrow> lineage_edge list option" where
  "load_supersession_edges m = (case m_lineage m of Unreadable_Lineage \<Rightarrow> None | Lineage_Rows rows \<Rightarrow> load_lineage_rows rows)"

definition integrity_error :: "string \<Rightarrow> ctl_exn" where
  "integrity_error text = Tool_Error ''patch_transaction_integrity_error'' text []"

fun lineage_error :: "lineage_refusal \<Rightarrow> ctl_exn" where
  "lineage_error Duplicate_Edge = Tool_Error ''invalid_patch'' ''duplicate supersession edge'' []"
| "lineage_error Too_Many_Edges = Tool_Error ''lineage_limit_exceeded'' ''supersession lineage exceeds 256 edges'' []"
| "lineage_error Cyclic_Lineage = Tool_Error ''invalid_patch'' ''cyclic supersession lineage'' []"

definition batch_lineage :: "string \<Rightarrow> decision list \<Rightarrow> project \<Rightarrow> ctl_exn + lineage_edge list" where
  "batch_lineage mid ds pj = (case load_supersession_edges (mission_of mid pj) of
     None \<Rightarrow> Inl (integrity_error ''invalid supersession lineage'')
   | Some edges \<Rightarrow> map_sum lineage_error id (extended_lineage mid ds edges))"

definition start_draft :: "string \<Rightarrow> task_list \<Rightarrow> project \<Rightarrow> draft" where
  "start_draft mid tks pj = \<lparr>dr_tasks = tks, dr_state = load_task_state mid pj, dr_contract = m_contract (mission_of mid pj),
     dr_seal = m_closeout (mission_of mid pj), dr_current = p_current pj, dr_next = None\<rparr>"

text \<open>The images the transaction installs, all together.\<close>

definition install_batch ::
  "string \<Rightarrow> draft \<Rightarrow> lineage_edge list \<Rightarrow> nat \<Rightarrow> decision list \<Rightarrow> attention_item list \<Rightarrow> project \<Rightarrow> project" where
  "install_batch mid dr edges n ds items pj =
    save_state (case dr_next dr of None \<Rightarrow> default_state (dr_current dr) | Some st \<Rightarrow> st)
      (save_attention [] (record_decision n ds items (update_mission mid
        (\<lambda>m. m\<lparr>m_tasks := Some (dr_tasks dr), m_cursor := dr_state dr, m_contract := dr_contract dr,
              m_lineage := Lineage_Rows edges, m_closeout := dr_seal dr\<rparr>) pj)))\<lparr>p_current := dr_current dr\<rparr>"

definition plan_batch ::
  "decision list \<Rightarrow> attention_item list \<Rightarrow> (attention_item \<times> decision) list \<Rightarrow> project \<Rightarrow> ctl_exn + (project \<Rightarrow> project)" where
  "plan_batch ds items pairs pj =
    (case remdups (map a_mission_id items) of
       [mid] \<Rightarrow>
        (case load_task_list mid pj of
           Inl e \<Rightarrow> Inl (Uncaught e)
         | Inr tks \<Rightarrow>
            (case batch_lineage mid ds pj of
               Inl e \<Rightarrow> Inl e
             | Inr edges \<Rightarrow>
                (case draft_all mid pj pairs (start_draft mid tks pj) of
                   Inl e \<Rightarrow> Inl e
                 | Inr dr \<Rightarrow>
                    (let n = next_decision_number pj in
                     if n \<in> fst ` set (p_decisions pj) then Inl (integrity_error ''decision record already exists'')
                     else Inr (install_batch mid dr edges n ds items)))))
     | _ \<Rightarrow> Inl (Tool_Error ''patch_transaction_unsupported_batch'' ''decision batch spans multiple missions'' []))"

definition commit_batch :: "ctl_env \<Rightarrow> (project \<Rightarrow> project) \<Rightarrow> unit ctl_eff" where
  "commit_batch ce images = (case ce_commit ce of
     Executed \<Rightarrow> modifies images
   | Stopped code committed \<Rightarrow>
      andthen (if committed then modifies images else ret ()) (\<lambda>_.
      throw (Tool_Error code ''project transaction unavailable'' [])))"

definition apply_transactional_decisions ::
  "ctl_env \<Rightarrow> decision list \<Rightarrow> attention_item list \<Rightarrow> (attention_item \<times> decision) list \<Rightarrow> unit ctl_eff" where
  "apply_transactional_decisions ce ds items pairs =
    andthen (for_each pairs (\<lambda>(it, d). tries (check_provider_decision it d))) (\<lambda>_.
    andthen (tries (plan_batch ds items pairs)) (commit_batch ce))"

definition decide_attention :: "ctl_env \<Rightarrow> decision list \<Rightarrow> unit ctl_eff" where
  "decide_attention ce ds = with_access ce (andthen require_state (\<lambda>st.
    case st of
      AttentionNeeded _ \<Rightarrow>
        andthen (reads p_attention) (\<lambda>items.
        let errs = validate_decisions ds items in
        if errs \<noteq> [] then throw (Tool_Error ''invalid_decisions'' ''decision validation failed'' errs)
        else let pairs = map (\<lambda>d. (the (item_by_id items (d_item_id d)), d)) ds in
        andthen (for_each pairs (\<lambda>(it, d). tries (check_provider_decision it d))) (\<lambda>_.
        if list_ex (\<lambda>d. d_action d = Patch) ds then apply_transactional_decisions ce ds items pairs
        else andthen (apply_decisions pairs) (\<lambda>next.
             block [modifies (append_decision_record ds items), modifies (save_attention []), modifies (save_state next)])))
    | _ \<Rightarrow> throw (wrong_state ''decide_attention requires AttentionNeeded'')))"

section \<open>Steering\<close>

definition sup_refusal :: "string \<Rightarrow> ctl_exn \<Rightarrow> ctl_exn" where
  "sup_refusal text e = (case e of
     Uncaught (Supervision_Raised (Steering_Error code)) \<Rightarrow> Tool_Error code text []
   | Uncaught (Supervision_Raised (Snapshot_Error _)) \<Rightarrow> Tool_Error ''invalid_supervision_snapshot'' text []
   | _ \<Rightarrow> e)"

definition supervising :: "string \<Rightarrow> 'a run_eff \<Rightarrow> 'a ctl_eff" where
  "supervising text m = handling (lifted m) (\<lambda>e. throw (sup_refusal text e))"

definition assigned_supervision_targets :: "snapshot \<Rightarrow> project \<Rightarrow> run_exn + string list" where
  "assigned_supervision_targets s pj =
    (case load_task_list (sn_mission s) pj of
       Inl e \<Rightarrow> Inl e
     | Inr tks \<Rightarrow>
        (case sn_node s of
           None \<Rightarrow> Inr (ordered_unique (concat (map t_targets tks)))
         | Some n \<Rightarrow>
            (case find (\<lambda>t. t_id t = n) tks of
               None \<Rightarrow> Inl (Supervision_Raised (Steering_Error ''steering_binding_mismatch''))
             | Some t \<Rightarrow>
                if t_type t = Gate \<or> sn_role s \<noteq> (if t_type t = Validate then Validator_Role else Worker_Role)
                then Inl (Supervision_Raised (Steering_Error ''steering_binding_mismatch''))
                else Inr (t_targets t))))"

definition report_supervision_checkpoint :: "ctl_env \<Rightarrow> snapshot \<Rightarrow> steering_binding ctl_eff" where
  "report_supervision_checkpoint ce s = supervising ''supervision checkpoint refused'' (
    andthen (tries (assigned_supervision_targets s)) (\<lambda>assigned.
    on_supervision (sn_mission s) (report_checkpoint (en_sha (ce_env ce)) s assigned)))"

definition active_review :: "mission \<Rightarrow> string \<Rightarrow> string \<Rightarrow> review_block option" where
  "active_review m attempt node =
    (case read_provider_review True False (dict_get (m_carriers m) no_carrier (attempt, node)) of Inl _ \<Rightarrow> None | Inr b \<Rightarrow> b)"

definition steer :: "ctl_env \<Rightarrow> steering_request \<Rightarrow> bool \<Rightarrow> receipt ctl_eff" where
  "steer ce rq supported =
    (let b = rq_binding rq; node = (case b_node b of None \<Rightarrow> [] | Some n \<Rightarrow> n) in
     andthen (reads (mission_of (b_mission b))) (\<lambda>m.
     if node \<noteq> [] \<and> rq_action rq \<noteq> Do_Stop \<and> active_review m (b_attempt b) node \<noteq> None then throw invalid_decisions
     else supervising ''steering action refused''
       (on_supervision (b_mission b) (steer_attempt (en_sha (ce_env ce)) (\<lambda>_. False) supported rq))))"

text \<open>\<open>complete_cooperative_stop\<close>; the lock is that of the project of the binding.\<close>

definition stop_rows_ok :: "steering_binding \<Rightarrow> receipt list \<Rightarrow> bool" where
  "stop_rows_ok b rs = (case filter (\<lambda>r. rc_binding r = b) rs of [r] \<Rightarrow> rc_code r = Rc_Stop_Requested | _ \<Rightarrow> False)"

definition same_stop_item :: "steering_binding \<Rightarrow> attention_item \<Rightarrow> bool" where
  "same_stop_item b it \<longleftrightarrow> a_mission_id it = b_mission b \<and> a_node_id it = b_node b \<and> a_attempt_id it = Some (b_attempt b)
     \<and> a_terminal_review_id it = b_review b"

definition fail_node :: "string \<Rightarrow> string option \<Rightarrow> unit ctl_eff" where
  "fail_node mid node = (case node of None \<Rightarrow> ret () | Some n \<Rightarrow> set_node mid n Failed)"

definition stop_item :: "ctl_env \<Rightarrow> snapshot \<Rightarrow> string \<Rightarrow> attention_item ctl_eff" where
  "stop_item ce s safe_handoff = lifted (lift_item (cooperative_stop (\<lambda>name. en_token (ce_env ce) name 0) s safe_handoff))"

definition show_queue :: "attention_item list \<Rightarrow> unit ctl_eff" where
  "show_queue items = modifies (save_state (AttentionNeeded (public_attention_items items)))"

definition complete_stop :: "ctl_env \<Rightarrow> steering_binding \<Rightarrow> string \<Rightarrow> snapshot \<Rightarrow> unit ctl_eff" where
  "complete_stop ce b safe_handoff s =
    andthen (reads p_attention) (\<lambda>existing.
    if sn_phase s = Ph_Terminal then
      (case filter (same_stop_item b) existing of
         [] \<Rightarrow>
           andthen (stop_item ce s safe_handoff) (\<lambda>it.
           block [modifies (save_attention (existing @ [it])), fail_node (b_mission b) (sn_node s), show_queue (existing @ [it])])
       | [_] \<Rightarrow> block [fail_node (b_mission b) (sn_node s), show_queue existing]
       | _ \<Rightarrow> throw (Tool_Error ''stop_handoff_integrity_error'' ''cooperative stop has duplicate attention'' []))
    else if sn_phase s \<noteq> Ph_Stopping \<or> sn_status s \<noteq> St_Stop_Requested
    then throw (Tool_Error ''stop_not_requested'' ''cooperative stop was not requested'' [])
    else
      andthen (lifted (tries (assigned_supervision_targets s))) (\<lambda>assigned.
      andthen (lifted (on_supervision (b_mission b) (save_snapshot (en_sha (ce_env ce)) (terminal_snapshot s) assigned))) (\<lambda>_.
      andthen (stop_item ce (terminal_snapshot s) safe_handoff) (\<lambda>it.
      block [modifies (save_attention (existing @ [it])), fail_node (b_mission b) (sn_node s), show_queue (existing @ [it])]))))"

definition complete_cooperative_stop :: "ctl_env \<Rightarrow> steering_binding \<Rightarrow> string \<Rightarrow> unit ctl_eff" where
  "complete_cooperative_stop ce b safe_handoff = with_access ce (
    andthen (supervising ''cooperative stop recovery refused''
      (on_supervision (b_mission b) (supervised (en_sha (ce_env ce)) (\<lambda>_. False) (ret ())))) (\<lambda>_.
    andthen (lifted (tries (\<lambda>pj. map_sum Supervision_Raised id (load_snapshot (b_attempt b) (sup_view (b_mission b) pj))))) (\<lambda>found.
    case found of
      None \<Rightarrow> throw (Tool_Error ''steering_binding_mismatch'' ''cooperative stop binding refused'' [])
    | Some s \<Rightarrow>
       if binding_from_snapshot s \<noteq> b
       then throw (Tool_Error ''steering_binding_mismatch'' ''cooperative stop binding refused'' [])
       else andthen (lifted (tries (\<lambda>pj. map_sum Supervision_Raised id (load_receipts (sup_view (b_mission b) pj))))) (\<lambda>rs.
         if \<not> stop_rows_ok b rs then throw (Tool_Error ''stop_handoff_integrity_error'' ''stop receipt is missing'' [])
         else complete_stop ce b safe_handoff s))))"

section \<open>Aborting\<close>

definition MAX_ABORT_REASON_BYTES :: nat where
  "MAX_ABORT_REASON_BYTES = 4096"

text \<open>A string of this model has code points below 256, which all encode, so the refusal of an unencodable reason
  is not a branch; and a mission always has its directory, so the seal is written and the
  \<open>FileNotFoundError\<close> the code swallows does not occur.\<close>

definition abort_project :: "ctl_env \<Rightarrow> string \<Rightarrow> unit ctl_eff" where
  "abort_project ce reason = with_access ce (
    if blank reason then throw (Tool_Error ''invalid_abort_reason'' ''abort reason is empty'' [])
    else if MAX_ABORT_REASON_BYTES < length (utf8 reason)
    then throw (Tool_Error ''abort_reason_too_large'' ''abort reason exceeds 4096 UTF-8 bytes'' [])
    else andthen (reads (\<lambda>pj. current_mission_id (p_state pj) pj)) (\<lambda>mid.
      block [(case mid of None \<Rightarrow> ret () | Some m \<Rightarrow> if m = [] then ret () else modifies (seal_mission m ''aborted'' reason)),
             modifies (save_attention []),
             modifies (save_state (Aborted reason))]))"

section \<open>The reply\<close>

definition blocked_report :: string where
  "blocked_report = ''provider review blocked; prose consent is not an override; ''
     @ ''native recovery unavailable; inspect the originating attempt''"

definition provider_blocked :: "project \<Rightarrow> attention_item \<Rightarrow> bool" where
  "provider_blocked pj it = (case (a_node_id it, a_attempt_id it) of
     (Some n, Some a) \<Rightarrow> n \<noteq> [] \<and> a \<noteq> [] \<and> review_of (mission_of (a_mission_id it) pj) a n \<noteq> None
   | _ \<Rightarrow> False)"

definition shown_state :: "project \<Rightarrow> project_state" where
  "shown_state pj = (case p_state pj of
     None \<Rightarrow> Draft
   | Some (AttentionNeeded _) \<Rightarrow> AttentionNeeded (map (\<lambda>(source, item). if provider_blocked pj source then item\<lparr>a_report := blocked_report\<rparr> else item)
        (zip (p_attention pj) (public_attention_items (p_attention pj))))
   | Some st \<Rightarrow> st)"

text \<open>The lines for the attempts under review, and the references to reviews that can be appealed.\<close>

definition blocked_entries :: "mission \<Rightarrow> task_state \<Rightarrow> (string \<times> string \<times> review_block) list" where
  "blocked_entries m ts = concat (map (\<lambda>(node, e). case e_last_attempt e of
     None \<Rightarrow> []
   | Some a \<Rightarrow> if a = [] then [] else (case active_review m a node of None \<Rightarrow> [] | Some b \<Rightarrow> [(node, a, b)]))
     (sort_key fst ts))"

definition blocked_line :: "string \<times> string \<times> review_block \<Rightarrow> string" where
  "blocked_line e = (case e of (node, a, b) \<Rightarrow>
     ''provider-review: node='' @ node @ '' attempt='' @ a @ '' outcome='' @ reason_text (bl_reason b))"

definition pending_reviews :: "ctl_env \<Rightarrow> string \<Rightarrow> (string \<times> string \<times> review_block) list \<Rightarrow> string list" where
  "pending_reviews ce mid es = concat (map (\<lambda>(node, a, b). case bl_review b of
     None \<Rightarrow> []
   | Some r \<Rightarrow> if bl_reason b = Review_Denied
       then (case ce_reference ce mid a node r of None \<Rightarrow> [] | Some x \<Rightarrow> [x]) else []) es)"

fun lstrip_newlines :: "string \<Rightarrow> string" where
  "lstrip_newlines [] = []"
| "lstrip_newlines (c # cs) = (if [c] = newline then lstrip_newlines cs else c # cs)"

definition show_reviews :: "ctl_env \<Rightarrow> string \<Rightarrow> mission \<Rightarrow> task_state \<Rightarrow> envelope \<Rightarrow> envelope" where
  "show_reviews ce mid m ts env =
    (let es = blocked_entries m ts; pending = pending_reviews ce mid es in
     if es = [] then env
     else env\<lparr>env_frontier := Some (lstrip_newlines (join newline
                ((case env_frontier env of None \<Rightarrow> [] | Some f \<Rightarrow> f) # map blocked_line es
                 @ (if pending = [] then [EXPLANATION] else pending)))),
              env_next_action := (if env_next_action env = End_mission then No_action else env_next_action env)\<rparr>)"

definition build_envelope :: "ctl_env \<Rightarrow> dag_mode option \<Rightarrow> project \<Rightarrow> ctl_exn + envelope \<times> snapshot list" where
  "build_envelope ce mode pj =
    (let st = shown_state pj;
         reply = (\<lambda>tks ts lineage. make_envelope (p_id pj) st [] [] tks ts mode (Some lineage))
     in case current_mission_id (Some st) pj of
          None \<Rightarrow> Inr (reply None None [], [])
        | Some mid \<Rightarrow> if mid = [] then Inr (reply None None [], []) else
           (let m = mission_of mid pj; tks = m_tasks m;
                ts = (case tks of None \<Rightarrow> None | Some _ \<Rightarrow> Some (m_cursor m))
            in case load_supersession_edges m of
                 None \<Rightarrow> Inl (integrity_error ''invalid supersession lineage'')
               | Some edges \<Rightarrow>
                  (let env = reply tks ts (project_supersession_lineage mid tks ts edges) in
                   case tks of
                     None \<Rightarrow> Inr (env, [])
                   | Some tks' \<Rightarrow>
                      (case load_active_attempts tks' (sup_view mid pj) of
                         Inl (Snapshot_Error _) \<Rightarrow> Inl (integrity_error ''invalid active-attempt snapshot'')
                       | Inl e \<Rightarrow> Inl (Uncaught (Supervision_Raised e))
                       | Inr active \<Rightarrow> Inr (show_reviews ce mid m (m_cursor m) env, active)))))"

definition inspect_project :: "ctl_env \<Rightarrow> (envelope \<times> snapshot list) ctl_eff" where
  "inspect_project ce = with_access ce (tries (build_envelope ce (Some Full)))"

end
