(* ===== verification/Coordinator_Proofs.thy ===== *)
theory Coordinator_Proofs
  imports Coordinator Supervision_Stops
begin

text \<open>
  Invariants of the coordinator.  Whatever an invariant of the project says, the coordinator keeps it
  as long as it is kept by writes to the mission at hand and by the roles; the queue and the state
  are written in one place only.
\<close>

lemma mission_of_update [simp]: "mission_of mid (update_mission mid f pj) = f (mission_of mid pj)"
  by (simp add: mission_of_def update_mission_def put_mission_def update_conv cong: option.case_cong)

lemma mission_of_update_other: "m \<noteq> mid \<Longrightarrow> mission_of m (update_mission mid f pj) = mission_of m pj"
  by (simp add: mission_of_def update_mission_def put_mission_def update_conv cong: option.case_cong)

lemma update_mission_simps [simp]:
  "p_id (update_mission mid f pj) = p_id pj" "p_state (update_mission mid f pj) = p_state pj"
  "p_attention (update_mission mid f pj) = p_attention pj" "p_max_parallel (update_mission mid f pj) = p_max_parallel pj"
  by (simp_all add: update_mission_def put_mission_def)

lemma mission_of_state [simp]: "mission_of mid (save_state st pj) = mission_of mid pj" "mission_of mid (save_attention q pj) = mission_of mid pj"
  by (simp_all add: mission_of_def save_state_def save_attention_def cong: option.case_cong)

text \<open>The writes of the coordinator and of supervision to its mission.\<close>

definition run_keeps :: "(project \<Rightarrow> bool) \<Rightarrow> 'a role_run \<Rightarrow> bool" where
  "run_keeps I run \<longleftrightarrow> (\<forall>f \<in> fst ` set (fst run). \<forall>pj. I pj \<longrightarrow> I (f pj)) \<and> (\<forall>pj. I pj \<longrightarrow> I (snd (snd run pj)))"

text \<open>The roles keep \<open>I\<close>, and there is no support for isolated work batches.\<close>

definition roles_keep :: "env \<Rightarrow> string \<Rightarrow> (project \<Rightarrow> bool) \<Rightarrow> bool" where
  "roles_keep env mid I \<longleftrightarrow>
     \<not> iso_supported (en_isolation env)
     \<and> (\<forall>t a. run_keeps I (en_dispatch env mid t a))
     \<and> (\<forall>batch as. en_batch env = Some batch \<longrightarrow> run_keeps I (batch mid as))
     \<and> (\<forall>a. run_keeps I (en_review env mid a))"

lemma keeps_task_type [keeps_intros]:
  "keeps I a \<Longrightarrow> keeps I b \<Longrightarrow> keeps I c \<Longrightarrow> keeps I (case ty of Work \<Rightarrow> a | Validate \<Rightarrow> b | Gate \<Rightarrow> c)"
  by (cases ty) simp_all

lemma keeps_sum [keeps_intros]:
  "(\<And>e. v = Inl e \<Longrightarrow> keeps I (f e)) \<Longrightarrow> (\<And>a. v = Inr a \<Longrightarrow> keeps I (g a)) \<Longrightarrow>
   keeps I (case v of Inl e \<Rightarrow> f e | Inr a \<Rightarrow> g a)"
  by (cases v) simp_all

lemma keeps_andthen_result:
  "keeps I m \<Longrightarrow> (\<And>s a t. m s = (Inr a, t) \<Longrightarrow> keeps I (f a)) \<Longrightarrow> keeps I (andthen m f)"
  unfolding keeps_def andthen_def by (fastforce split: prod.splits sum.splits)

lemma still_eligible_subset: "still_eligible mid tasks pj = (Inr e, pj') \<Longrightarrow> set e \<subseteq> set tasks"
  by (auto simp: still_eligible_def andthen_def tries_def reads_def reconcile_denials_def Let_def ret_def modifies_def
      guard_dispatch_def split: sum.splits if_splits)

text \<open>Without isolation a batch of work is refused, so what is dispatched holds no work.\<close>

lemma no_work_batch:
  "\<not> iso_supported isolation \<Longrightarrow> \<not> (list_ex (\<lambda>t. t_type t = Work) tasks \<and> \<not> list_all (\<lambda>t. t_type t = Work) tasks) \<Longrightarrow>
   \<not> (list_ex (\<lambda>t. t_type t = Work) tasks \<and> (length tasks < 2 \<or> \<not> isolated_work_supported isolation tasks)) \<Longrightarrow>
   set e \<subseteq> set tasks \<Longrightarrow> \<not> list_ex (\<lambda>t. t_type t = Work) e"
  by (auto simp: isolated_work_supported_def list_ex_iff)

section \<open>Supervision, as the coordinator drives it\<close>

lemma sup_steps_keeps: "(\<And>st. sup_step sha st (snd (m st))) \<Longrightarrow> keeps (sup_steps sha st0) m"
  by (rule keepsI) (meson rtranclp.rtrancl_into_rtrancl)

lemma sup_stepI_keeps [keeps_intros]:
  "keeps (sup_steps sha st0) (finalize_attempt sha attempt assigned)"
  "keeps (sup_steps sha st0) (modifies (save_policy attempt p))"
  "snapshot_ok projected \<Longrightarrow> keeps (sup_steps sha st0) (save_advisory_snapshot expected projected assigned)"
  by (rule sup_steps_keeps, simp add: sup_step.finalize save_policy_def modifies_def sup_step.policy sup_step.poll)+

lemma begin_keeps:
  "snapshot_ok (fresh_snapshot pid mid attempt role assigned node) \<Longrightarrow>
   keeps (sup_steps sha st0) (save_snapshot sha (fresh_snapshot pid mid attempt role assigned node) targets)"
  by (rule sup_steps_keeps) (rule sup_step.begin_attempt; simp add: fresh_snapshot_def)

lemma collect_active_ok: "collect_active tks st as = Inr ss \<Longrightarrow> s \<in> set ss \<Longrightarrow> snapshot_ok s"
proof (induction as arbitrary: ss)
  case (Cons a as)
  then show ?case
    by (auto split: sum.splits option.splits if_splits dest!: load_snapshotD simp: map_sum_def)
qed simp

lemma load_active_ok: "load_active_attempts tks st = Inr ss \<Longrightarrow> s \<in> set ss \<Longrightarrow> snapshot_ok s"
  by (auto simp: load_active_attempts_def map_sum_def split: sum.splits dest: collect_active_ok)

lemma poll_decision_ok:
  assumes "poll_decision now s p = Inr (projected, q)" "snapshot_ok s"
  shows "snapshot_ok projected"
proof -
  from assms(1) obtain n e d where eq: "projected = s\<lparr>sn_requests := n, sn_elapsed := e, sn_status := (if d then St_Checkpoint_Due else sn_status s)\<rparr>"
    and d: "d \<Longrightarrow> sn_phase s = Ph_Active"
    by (auto simp: poll_decision_def Let_def split: sum.splits)
  show ?thesis using assms(2) d unfolding eq snapshot_ok_def by (cases d) auto
qed

lemma poll_attempt_keeps: "snapshot_ok s \<Longrightarrow> keeps (sup_steps sha st0) (poll_attempt now tks s)"
  unfolding poll_attempt_def Let_def
proof (rule keeps_andthen[OF keeps_tries], rule keeps_tries_andthen)
  fix found st v
  assume ok: "snapshot_ok s" and st: "sup_steps sha st0 st"
    and dec: "poll_decision now s (case found of None \<Rightarrow> initial_checkpoint_policy (max 0 (now - int (sn_elapsed s))) (sn_effect s) | Some p \<Rightarrow> p)
      = Inr v"
  obtain projected q where v: "v = (projected, q)" by fastforce
  have "snapshot_ok projected" using poll_decision_ok dec ok v by blast
  then have "keeps (sup_steps sha st0)
      (andthen (if sn_phase s = Ph_Waiting then ret True
             else andthen (tries (\<lambda>_. poll_targets tks projected)) (\<lambda>assigned. save_advisory_snapshot s projected assigned))
      (\<lambda>kept. if kept then modifies (save_policy (sn_attempt s) q) else ret ()))"
    by (intro keeps_intros)
  then show "sup_steps sha st0 (snd ((case v of (projected, q) \<Rightarrow>
      andthen (if sn_phase s = Ph_Waiting then ret True
             else andthen (tries (\<lambda>_. poll_targets tks projected)) (\<lambda>assigned. save_advisory_snapshot s projected assigned))
      (\<lambda>kept. if kept then modifies (save_policy (sn_attempt s) q) else ret ())) st))"
    using st v by (simp add: keepsD)
qed

lemma poll_supervision_keeps: "keeps (sup_steps sha st0) (poll_supervision now tks)"
  unfolding poll_supervision_def
proof (rule keeps_tries_andthen)
  fix st active
  assume st: "sup_steps sha st0 st" and active: "load_active_attempts tks st = Inr active"
  have "keeps (sup_steps sha st0) (for_each active (poll_attempt now tks))"
    by (rule keeps_for_each, rule poll_attempt_keeps, erule load_active_ok[OF active])
  from keepsD[OF this st] show "sup_steps sha st0 (snd (for_each active (poll_attempt now tks) st))" .
qed

section \<open>Writes of a mission\<close>

locale role_laws =
  fixes mid :: string and sha :: "string \<Rightarrow> string" and I :: "project \<Rightarrow> bool"
  assumes contract_write: "I pj \<Longrightarrow> I (save_contract_state mid cs pj)"
    and attempt_write: "I pj \<Longrightarrow> I (save_attempt mid spawn_ts node h pj)"
    and review_write: "I pj \<Longrightarrow> I (save_terminal_review mid spawn_ts r pj)"
    and seal_write: "I pj \<Longrightarrow> I (seal_mission mid status body pj)"
    and supervised_write: "I pj \<Longrightarrow> sup_steps sha (sup_view mid pj) st
      \<Longrightarrow> I (update_mission mid (\<lambda>m. m\<lparr>m_supervision := st\<rparr>) pj)"
begin

lemma on_supervision_keeps: "(\<And>st0. keeps (sup_steps sha st0) m) \<Longrightarrow> keeps I (on_supervision mid m)"
proof (rule keepsI)
  fix pj assume m: "\<And>st0. keeps (sup_steps sha st0) m" and pj: "I pj"
  obtain x st where run: "m (sup_view mid pj) = (x, st)" by fastforce
  have "sup_steps sha (sup_view mid pj) st" by (rule keeps_result[OF m _ run]) simp
  from supervised_write[OF pj this] show "I (snd (on_supervision mid m pj))"
    by (simp add: on_supervision_def run)
qed

lemma mission_writes [keeps_intros]:
  "keeps I (modifies (save_contract_state mid cs))"
  "keeps I (modifies (save_attempt mid spawn_ts node h))" "keeps I (modifies (save_terminal_review mid spawn_ts r))"
  "keeps I (modifies (seal_mission mid status body))"
  by (auto intro!: keeps_modifies contract_write attempt_write review_write seal_write)

lemma finalize_keeps [keeps_intros]:
  "sha' = sha \<Longrightarrow> keeps I (on_supervision mid (finalize_attempt sha' attempt assigned))"
  by (simp add: on_supervision_keeps sup_stepI_keeps)

lemma supervision_writes [keeps_intros]:
  "keeps I (on_supervision mid (modifies (save_policy attempt p)))"
  "keeps I (on_supervision mid (poll_supervision now tks))"
  by (rule on_supervision_keeps, rule sup_stepI_keeps poll_supervision_keeps)+

lemma begin_supervision_attempt_keeps [keeps_intros]:
  "en_sha env = sha \<Longrightarrow> keeps I (begin_supervision_attempt env mid attempt role assigned node)"
proof (rule keepsI)
  fix pj assume sha: "en_sha env = sha" and pj: "I pj"
  let ?s = "fresh_snapshot (p_id pj) mid attempt role assigned node"
  show "I (snd (begin_supervision_attempt env mid attempt role assigned node pj))"
  proof (cases "snapshot_ok ?s")
    case True
    have "keeps I (andthen (on_supervision mid (save_snapshot sha ?s assigned)) (\<lambda>_.
         on_supervision mid (modifies (save_policy attempt (initial_checkpoint_policy (en_clock env) 0)))))"
      using True by (intro keeps_intros on_supervision_keeps begin_keeps)
    from keepsD[OF this pj] show ?thesis
      using True by (simp add: begin_supervision_attempt_def sha andthen_def reads_def)
  qed (simp add: begin_supervision_attempt_def andthen_def reads_def throw_def pj)
qed

lemma poll_tick_keeps [keeps_intros]: "keeps I (poll_tick mid now)"
  unfolding poll_tick_def by (intro keeps_intros)

lemma run_polled_keeps:
  "\<forall>f \<in> fst ` set fs. \<forall>pj. I pj \<longrightarrow> I (f pj) \<Longrightarrow> I pj \<Longrightarrow> I (snd (run_polled mid fs err pj))"
proof (induction fs arbitrary: err pj)
  case (Cons fn fs)
  obtain f now where fn: "fn = (f, now)" by fastforce
  have f: "I (f pj)" using Cons.prems fn by simp
  have rest: "\<forall>f \<in> fst ` set fs. \<forall>pj. I pj \<longrightarrow> I (f pj)" using Cons.prems(1) by simp
  obtain x pj' where tick: "poll_tick mid now (f pj) = (x, pj')" by fastforce
  have "I pj'" using keeps_result[OF poll_tick_keeps f tick] .
  then show ?case using Cons.IH[OF rest] f fn tick by (cases x) simp_all
qed simp

lemma role_effect_keeps:
  assumes "run_keeps I run"
  shows "keeps I (await_role_effect mid run)" "keeps I (pooled_effect mid err run)"
proof -
  have "I (snd (snd run (snd (run_polled mid (fst run) err pj))))" if "I pj" for pj err
    using assms run_polled_keeps[of "fst run" pj err] that by (simp add: run_keeps_def)
  from this this[of _ None] show "keeps I (await_role_effect mid run)" "keeps I (pooled_effect mid err run)"
    by (auto intro!: keepsI simp: await_role_effect_def pooled_effect_def split: prod.splits role_outcome.splits)
      (metis snd_conv)+
qed

lemma lift_item_keeps [keeps_intros]: "keeps I (lift_item r)"
  unfolding lift_item_def by (rule keeps_tries)

lemma fresh_attempt_keeps [keeps_intros]: "keeps I (fresh_attempt mid candidate)"
  unfolding fresh_attempt_def by (rule keeps_tries)

lemma assert_dispatch_unblocked_keeps [keeps_intros]: "keeps I (assert_dispatch_unblocked mid tasks)"
  unfolding assert_dispatch_unblocked_def by (intro keeps_intros)

lemma seed_contract_keeps [keeps_intros]: "keeps I (seed_contract mid)"
  unfolding seed_contract_def by (intro keeps_intros)

lemma claim_batch_keeps [keeps_intros]: "keeps I (claim_batch env mid k tasks ts)"
  by (induction tasks arbitrary: k ts) (auto intro!: keeps_intros)

lemma dispatch_each_keeps: "roles_keep env mid I \<Longrightarrow> keeps I (dispatch_each env mid err attempts)"
  by (induction attempts arbitrary: err) (auto intro!: keeps_intros role_effect_keeps simp: roles_keep_def split: prod.split)

lemma dispatch_requests_keeps: "roles_keep env mid I \<Longrightarrow> keeps I (dispatch_requests env mid attempts)"
  unfolding dispatch_requests_def Let_def
  by (auto intro!: keeps_intros role_effect_keeps dispatch_each_keeps simp: roles_keep_def split: option.split sum.split)

lemma stranded_item_keeps [keeps_intros]: "keeps I (stranded_item env mid ts t)"
  unfolding stranded_item_def by (intro keeps_intros)

end

locale mission_laws = role_laws +
  assumes cursor_write: "I pj \<Longrightarrow> I (save_task_state mid ts pj)"
begin

lemma cursor_keeps [keeps_intros]: "keeps I (modifies (save_task_state mid ts))"
  by (auto intro!: keeps_modifies cursor_write)

lemma settle_handoff_keeps [keeps_intros]: "keeps I (settle_handoff env mid t tks ts cs h)"
  unfolding settle_handoff_def Let_def by (intro keeps_intros)

lemma apply_handoff_collect_keeps [keeps_intros]:
  "en_sha env = sha \<Longrightarrow> keeps I (apply_handoff_collect env mid t h spawn_ts)"
  unfolding apply_handoff_collect_def by (auto intro!: keeps_intros)

lemma reconcile_attempt_keeps: "en_sha env = sha \<Longrightarrow> keeps I (reconcile_attempt env mid ts t)"
  unfolding reconcile_attempt_def Let_def by (auto intro!: keeps_intros split: option.split sum.split)

lemma reconcile_tasks_keeps [keeps_intros]: "en_sha env = sha \<Longrightarrow> keeps I (reconcile_tasks env mid ts tks)"
  by (induction tks) (auto intro!: keeps_intros reconcile_attempt_keeps)

lemma reconcile_denials_keeps [keeps_intros]: "keeps I (reconcile_denials mid tks ts)"
  unfolding reconcile_denials_def Let_def by (intro keeps_intros)

lemma still_eligible_keeps [keeps_intros]: "keeps I (still_eligible mid tasks)"
  unfolding still_eligible_def by (intro keeps_intros)

lemma apply_batch_keeps [keeps_intros]: "en_sha env = sha \<Longrightarrow> keeps I (apply_batch env mid hs attempts)"
  by (induction attempts) (auto intro!: keeps_intros simp: Let_def split: option.split)

end

section \<open>What a step leaves in the state and the queue\<close>

definition quiet :: "project_state option \<Rightarrow> attention_item list \<Rightarrow> project \<Rightarrow> bool" where
  "quiet st queue pj \<longleftrightarrow> p_state pj = st \<and> p_attention pj = queue"

text \<open>
  Only items raised change the queue, and then the state shows it in full; a step without attention
  changes neither.
\<close>

definition outcome_ok :: "project_state option \<Rightarrow> attention_item list \<Rightarrow> step_result \<Rightarrow> project \<Rightarrow> bool" where
  "outcome_ok st queue r pj = (case r of
     Idle _ \<Rightarrow> quiet st queue pj
   | Advanced _ \<Rightarrow> quiet st queue pj
   | Attention_Needed _ \<Rightarrow> \<exists>items. p_attention pj = queue @ items \<and> p_attention pj \<noteq> []
       \<and> p_state pj = Some (AttentionNeeded (public_attention_items (p_attention pj)))
   | Terminal _ \<Rightarrow> p_attention pj = queue \<and> (p_state pj = Some Done \<or> (\<exists>why. p_state pj = Some (ProjectFailed why))))"

abbreviation settles :: "project_state option \<Rightarrow> attention_item list \<Rightarrow> step_result run_eff \<Rightarrow> bool" where
  "settles st queue m \<equiv> triple (quiet st queue) m (outcome_ok st queue) (\<lambda>_. quiet st queue)"

interpretation quiet: mission_laws mid sha "quiet st queue" for mid sha st queue
  by unfold_locales
    (simp_all add: quiet_def save_task_state_def save_contract_state_def save_attempt_def save_terminal_review_def seal_mission_def)

named_theorems settles_intros "programs that settle a step"

lemma settles_after: "keeps (quiet st queue) m \<Longrightarrow> (\<And>a. settles st queue (f a)) \<Longrightarrow> settles st queue (andthen m f)"
  by (rule triple_andthen [OF keeps_triple])

lemma settles_read:
  "(\<And>pj. quiet st queue pj \<Longrightarrow> triple (\<lambda>pj'. pj' = pj) (f (g pj)) (outcome_ok st queue) (\<lambda>_. quiet st queue)) \<Longrightarrow>
   settles st queue (andthen (reads g) f)"
  unfolding triple_def andthen_def reads_def by simp

lemma settles_after_result:
  "keeps (quiet st queue) m \<Longrightarrow> (\<And>s a t. m s = (Inr a, t) \<Longrightarrow> settles st queue (f a)) \<Longrightarrow> settles st queue (andthen m f)"
  unfolding keeps_def triple_def andthen_def by (fastforce split: prod.splits sum.splits)

lemma settles_quiet [settles_intros]:
  "settles st queue (ret (Idle w))" "settles st queue (ret (Advanced w))"
  by (auto intro!: triple_ret simp: outcome_ok_def)

lemma settles_throw [settles_intros]: "settles st queue (throw e)"
  by (auto intro!: triple_throw)

lemma settles_raise [settles_intros]:
  "items \<noteq> [] \<Longrightarrow> settles st queue (andthen (raise_attention items) (\<lambda>_. ret (Attention_Needed w)))"
  by (auto intro!: tripleI
    simp: raise_attention_def andthen_def reads_def modifies_def ret_def outcome_ok_def quiet_def save_attention_def save_state_def)

lemma settles_failed [settles_intros]:
  "settles st queue (andthen (modifies (save_state (ProjectFailed why))) (\<lambda>_. ret (Terminal w)))"
  by (auto intro!: tripleI simp: andthen_def modifies_def ret_def outcome_ok_def quiet_def save_state_def)

lemma settles_if [settles_intros]:
  "(b \<Longrightarrow> settles st queue m) \<Longrightarrow> (\<not> b \<Longrightarrow> settles st queue n) \<Longrightarrow> settles st queue (if b then m else n)"
  by simp

lemma settles_option [settles_intros]:
  "(v = None \<Longrightarrow> settles st queue m) \<Longrightarrow> (\<And>x. v = Some x \<Longrightarrow> settles st queue (f x)) \<Longrightarrow>
   settles st queue (case v of None \<Rightarrow> m | Some x \<Rightarrow> f x)"
  by (cases v) simp_all

lemma settles_list [settles_intros]:
  "(v = [] \<Longrightarrow> settles st queue m) \<Longrightarrow> (\<And>x xs. v = x # xs \<Longrightarrow> settles st queue (f x xs)) \<Longrightarrow>
   settles st queue (case v of [] \<Rightarrow> m | x # xs \<Rightarrow> f x xs)"
  by (cases v) simp_all

lemma settles_prod [settles_intros]:
  "(\<And>x y. v = (x, y) \<Longrightarrow> settles st queue (f x y)) \<Longrightarrow> settles st queue (case v of (x, y) \<Rightarrow> f x y)"
  by (cases v) simp

lemma settles_sum [settles_intros]:
  "(\<And>e. v = Inl e \<Longrightarrow> settles st queue (f e)) \<Longrightarrow> (\<And>a. v = Inr a \<Longrightarrow> settles st queue (g a)) \<Longrightarrow>
   settles st queue (case v of Inl e \<Rightarrow> f e | Inr a \<Rightarrow> g a)"
  by (cases v) simp_all

lemma apply_handoff_settles [settles_intros]: "settles st queue (apply_handoff env mid t h spawn_ts)"
  unfolding apply_handoff_def by (intro settles_after settles_intros quiet.apply_handoff_collect_keeps) (rule refl | simp)+

lemma run_attempt_settles:
  "roles_keep env mid (quiet st queue) \<Longrightarrow> settles st queue (run_attempt env mid t spawn_ts)"
  unfolding run_attempt_def Let_def
  by (intro settles_after settles_intros quiet.begin_supervision_attempt_keeps quiet.assert_dispatch_unblocked_keeps
      quiet.role_effect_keeps quiet.mission_writes quiet.cursor_keeps) (simp_all add: roles_keep_def)

lemma dispatch_one_settles [settles_intros]:
  "roles_keep env mid (quiet st queue) \<Longrightarrow> settles st queue (dispatch_one env mid t)"
  unfolding dispatch_one_def
  by (intro settles_after settles_intros run_attempt_settles quiet.still_eligible_keeps quiet.fresh_attempt_keeps
      keeps_reads quiet.mission_writes quiet.cursor_keeps)

lemma run_batch_settles [settles_intros]:
  "roles_keep env mid (quiet st queue) \<Longrightarrow> settles st queue (run_batch env mid tasks)"
  unfolding run_batch_def
  by (intro settles_after settles_intros keeps_intros quiet.begin_supervision_attempt_keeps
      quiet.dispatch_requests_keeps quiet.apply_batch_keeps quiet.claim_batch_keeps quiet.mission_writes quiet.cursor_keeps) (rule refl | assumption)+

lemma dispatch_batch_settles [settles_intros]:
  assumes "roles_keep env mid (quiet st queue)"
  shows "settles st queue (dispatch_batch env mid tasks)"
  unfolding dispatch_batch_def Let_def
proof (rule settles_if, rule settles_throw, rule settles_if, rule settles_throw, rule settles_after_result)
  fix pj e pj'
  assume fits: "\<not> (list_ex (\<lambda>t. t_type t = Work) tasks \<and> \<not> list_all (\<lambda>t. t_type t = Work) tasks)"
      "\<not> (list_ex (\<lambda>t. t_type t = Work) tasks \<and> (length tasks < 2 \<or> \<not> isolated_work_supported (en_isolation env) tasks))"
    and "still_eligible mid tasks pj = (Inr e, pj')"
  from this(3) have "\<not> list_ex (\<lambda>t. t_type t = Work) e"
    using no_work_batch[OF _ fits] assms still_eligible_subset by (simp add: roles_keep_def)
  then show "settles st queue (case e of [] \<Rightarrow> ret (Idle ''selected tasks are no longer eligible'')
       | [t] \<Rightarrow> dispatch_one env mid t
       | _ \<Rightarrow> if list_ex (\<lambda>t. t_type t = Work) e then en_isolated env mid e else run_batch env mid e)"
    using assms by (auto intro!: settles_intros)
qed (rule quiet.still_eligible_keeps)

text \<open>A part of a step that may end it.\<close>

abbreviation may_settle :: "project_state option \<Rightarrow> attention_item list \<Rightarrow> step_result option run_eff \<Rightarrow> bool" where
  "may_settle st queue m \<equiv> triple (quiet st queue) m
     (\<lambda>r. case r of None \<Rightarrow> quiet st queue | Some r \<Rightarrow> outcome_ok st queue r) (\<lambda>_. quiet st queue)"

lemma may_settle_None: "may_settle st queue (ret None)"
  by (simp add: triple_ret)

lemma may_settle_after: "keeps (quiet st queue) m \<Longrightarrow> (\<And>a. may_settle st queue (f a)) \<Longrightarrow> may_settle st queue (andthen m f)"
  by (rule triple_andthen [OF keeps_triple])

lemma may_settle_Some: "settles st queue (andthen m (\<lambda>x. ret r)) \<Longrightarrow> may_settle st queue (andthen m (\<lambda>x. ret (Some r)))"
  unfolding triple_def andthen_def ret_def by (fastforce split: prod.splits sum.splits)

lemma settles_rest [settles_intros]:
  "may_settle st queue m \<Longrightarrow> settles st queue n \<Longrightarrow>
   settles st queue (andthen m (\<lambda>r. case r of None \<Rightarrow> n | Some r \<Rightarrow> ret r))"
  by (rule triple_andthen, assumption) (auto intro: triple_ret split: option.split)

lemma reconcile_may_settle: "may_settle st queue (reconcile_pending_attempts env mid tks ts)"
  unfolding reconcile_pending_attempts_def
  by (intro triple_if may_settle_None may_settle_after quiet.reconcile_tasks_keeps may_settle_Some settles_intros refl)
    (simp_all add: triple_ret outcome_ok_def)

lemma queue_recovered:
  "may_settle st queue (andthen (reads p_attention) (\<lambda>existing.
       let items = (if list_ex q existing then existing else existing @ [it]) in
       andthen (if items = existing then ret () else modifies (save_attention items)) (\<lambda>_.
       andthen (modifies (save_state (AttentionNeeded (public_attention_items items)))) (\<lambda>_.
       ret (Some (Attention_Needed w))))))"
  unfolding triple_def quiet_def Let_def
  by (auto simp: andthen_def reads_def modifies_def ret_def outcome_ok_def save_attention_def save_state_def
      split: if_splits)

lemma recover_may_settle: "may_settle st queue (recover_stranded_failure env mid tks ts)"
  unfolding recover_stranded_failure_def
proof (intro may_settle_after keeps_tries triple_if may_settle_None)
  fix active :: "snapshot list"
  show "may_settle st queue (case first_stranding_failure tks ts of None \<Rightarrow> throw (Run_Error ''KeyError'')
    | Some None \<Rightarrow> ret None
    | Some (Some t) \<Rightarrow>
       andthen (stranded_item env mid ts t) (\<lambda>(attempt, it).
       andthen (reads p_attention) (\<lambda>existing.
       let items = (if list_ex (same_attempt_item mid t attempt (a_kind it)) existing then existing
                    else existing @ [it\<lparr>a_report := recovery_note @ a_report it\<rparr>]) in
       andthen (if items = existing then ret () else modifies (save_attention items)) (\<lambda>_.
       andthen (modifies (save_state (AttentionNeeded (public_attention_items items)))) (\<lambda>_.
       ret (Some (Attention_Needed ''retained_failure'')))))))"
    by (auto intro!: triple_throw may_settle_None may_settle_after quiet.stranded_item_keeps queue_recovered
        split: option.split prod.split)
qed

lemma apply_gate_event_settles [settles_intros]: "settles st queue (apply_gate_event env mid ts ev)"
  unfolding apply_gate_event_def Let_def
  by (intro settles_prod settles_after settles_raise quiet.mission_writes quiet.cursor_keeps quiet.lift_item_keeps) simp

lemma dispatch_next_settles [settles_intros]:
  "roles_keep env mid (quiet st queue) \<Longrightarrow> settles st queue (dispatch_next env mid tks ts)"
  unfolding dispatch_next_def Let_def
  by (intro settles_intros recover_may_settle settles_after keeps_reads)

lemma step_mission_settles [settles_intros]:
  "roles_keep env mid (quiet st queue) \<Longrightarrow> settles st queue (step_mission env mid)"
  unfolding step_mission_def
  by (rule settles_after [OF keeps_reads] settles_option settles_failed)+
    (intro settles_prod settles_after settles_rest settles_option settles_intros keeps_reads quiet.reconcile_denials_keeps
      quiet.supervision_writes quiet.seed_contract_keeps reconcile_may_settle)

lemma settles_done [settles_intros]:
  "settles st queue (andthen (block [modifies (seal_mission mid status body), modifies (save_state Done)]) (\<lambda>_. ret (Terminal w)))"
  by (auto intro!: tripleI simp: andthen_def modifies_def ret_def outcome_ok_def quiet_def save_state_def seal_mission_def)

lemma conclude_review_settles:
  "en_sha env = sha \<Longrightarrow> settles st queue (conclude_review env mid spawn_ts assigned crashed report)"
  unfolding conclude_review_def
  by (rule settles_after, erule quiet.finalize_keeps, rule settles_prod, rule settles_after, rule quiet.mission_writes quiet.cursor_keeps,
      rule settles_option)
    ((rule settles_if settles_done settles_after [OF quiet.lift_item_keeps] settles_raise | simp)+)

lemma enter_terminal_review_settles [settles_intros]:
  "roles_keep env mid (quiet st queue) \<Longrightarrow> settles st queue (enter_terminal_review env mid)"
  unfolding enter_terminal_review_def Let_def
  by (intro settles_sum settles_after keeps_tries quiet.fresh_attempt_keeps quiet.begin_supervision_attempt_keeps
      quiet.role_effect_keeps quiet.mission_writes quiet.cursor_keeps conclude_review_settles refl) (simp_all add: roles_keep_def)

lemma settles_state [settles_intros]:
  "(\<And>m. settles st queue (f m)) \<Longrightarrow> settles st queue n \<Longrightarrow>
   settles st queue (case v of Some (MissionRunning m) \<Rightarrow> f m | _ \<Rightarrow> n)"
  by (auto split: option.split project_state.split)

lemma closing_settles:
  "roles_keep env mid (quiet st queue) \<Longrightarrow> settles st queue (close_mission env mid)"
  unfolding close_mission_def close_at_rest_def
  by (rule settles_after [OF keeps_reads], rule settles_state)
    (assumption | intro settles_rest reconcile_may_settle settles_after [OF keeps_reads] settles_intros)+

section \<open>What a step keeps\<close>

locale coordinator_laws = mission_laws +
  assumes attention_write: "I pj \<Longrightarrow> I (save_attention items pj)"
    and state_write: "I pj \<Longrightarrow> I (save_state st pj)"
begin

lemma project_writes [keeps_intros]:
  "keeps I (modifies (save_attention items))" "keeps I (modifies (save_state st))"
  by (auto intro!: keeps_modifies attention_write state_write)

lemma raise_attention_keeps [keeps_intros]: "keeps I (raise_attention items)"
  unfolding raise_attention_def by (intro keeps_intros)

lemma reconcile_pending_keeps [keeps_intros]:
  "en_sha env = sha \<Longrightarrow> keeps I (reconcile_pending_attempts env mid tks ts)"
  unfolding reconcile_pending_attempts_def by (intro keeps_intros)

lemma apply_handoff_keeps [keeps_intros]: "en_sha env = sha \<Longrightarrow> keeps I (apply_handoff env mid t h spawn_ts)"
  unfolding apply_handoff_def by (intro keeps_intros)

lemma dispatch_one_keeps [keeps_intros]:
  "en_sha env = sha \<Longrightarrow> roles_keep env mid I \<Longrightarrow> keeps I (dispatch_one env mid t)"
  unfolding dispatch_one_def run_attempt_def Let_def
  by (intro keeps_intros role_effect_keeps) (simp_all add: roles_keep_def)

lemma run_batch_keeps [keeps_intros]:
  "en_sha env = sha \<Longrightarrow> roles_keep env mid I \<Longrightarrow> keeps I (run_batch env mid tasks)"
  unfolding run_batch_def by (intro keeps_intros dispatch_requests_keeps)

lemma dispatch_batch_keeps [keeps_intros]:
  assumes "en_sha env = sha" "roles_keep env mid I"
  shows "keeps I (dispatch_batch env mid tasks)"
  unfolding dispatch_batch_def Let_def
proof (rule keeps_if, rule keeps_throw, rule keeps_if, rule keeps_throw, rule keeps_andthen_result)
  fix pj e pj'
  assume fits: "\<not> (list_ex (\<lambda>t. t_type t = Work) tasks \<and> \<not> list_all (\<lambda>t. t_type t = Work) tasks)"
      "\<not> (list_ex (\<lambda>t. t_type t = Work) tasks \<and> (length tasks < 2 \<or> \<not> isolated_work_supported (en_isolation env) tasks))"
    and "still_eligible mid tasks pj = (Inr e, pj')"
  from this(3) have "\<not> list_ex (\<lambda>t. t_type t = Work) e"
    using no_work_batch[OF _ fits] assms(2) still_eligible_subset by (simp add: roles_keep_def)
  then show "keeps I (case e of [] \<Rightarrow> ret (Idle ''selected tasks are no longer eligible'')
       | [t] \<Rightarrow> dispatch_one env mid t
       | _ \<Rightarrow> if list_ex (\<lambda>t. t_type t = Work) e then en_isolated env mid e else run_batch env mid e)"
    using assms by (auto intro!: keeps_intros)
qed (rule still_eligible_keeps)

lemma recover_stranded_keeps [keeps_intros]: "keeps I (recover_stranded_failure env mid tks ts)"
  unfolding recover_stranded_failure_def Let_def by (intro keeps_intros)

lemma step_mission_keeps: "en_sha env = sha \<Longrightarrow> roles_keep env mid I \<Longrightarrow> keeps I (step_mission env mid)"
  unfolding step_mission_def dispatch_next_def apply_gate_event_def Let_def by (intro keeps_intros)

lemma close_mission_keeps: "en_sha env = sha \<Longrightarrow> roles_keep env mid I \<Longrightarrow> keeps I (close_mission env mid)"
  unfolding close_mission_def close_at_rest_def enter_terminal_review_def conclude_review_def Let_def
  by (auto intro!: keeps_intros role_effect_keeps simp: roles_keep_def split: project_state.split)

end

text \<open>A step drives the supervision of its mission only by its operations, and touches no other mission.\<close>

lemma sup_view_writes [simp]:
  "sup_view mid (save_task_state mid ts pj) = sup_view mid pj"
  "sup_view mid (save_contract_state mid cs pj) = sup_view mid pj"
  "sup_view mid (save_attempt mid a n h pj) = sup_view mid pj"
  "sup_view mid (save_terminal_review mid a r pj) = sup_view mid pj"
  "sup_view mid (seal_mission mid status body pj) = sup_view mid pj"
  "sup_view mid (save_attention items pj) = sup_view mid pj"
  "sup_view mid (save_state s pj) = sup_view mid pj"
  by (simp_all add: sup_view_def save_task_state_def save_contract_state_def save_attempt_def save_terminal_review_def
      seal_mission_def)

text \<open>The task list is read from its own file: as if it were published again.\<close>

lemma sup_view_supervised:
  "sup_steps sha st0 st \<Longrightarrow> sup_steps sha st0 (sup_view mid (update_mission mid (\<lambda>m. m\<lparr>m_supervision := st\<rparr>) pj))"
  by (simp add: sup_view_def) (erule rtranclp.rtrancl_into_rtrancl, rule sup_step.replan)

interpretation supervised: coordinator_laws mid sha "\<lambda>pj. sup_steps sha st0 (sup_view mid pj)" for mid sha st0
  by unfold_locales
    (auto intro: sup_view_supervised rtranclp_trans)

interpretation elsewhere: coordinator_laws mid sha "\<lambda>pj. m \<noteq> mid \<and> mission_of m pj = old" for mid sha m old
  by unfold_locales
    (auto simp: save_task_state_def save_contract_state_def save_attempt_def save_terminal_review_def seal_mission_def
      mission_of_update_other)

end
