(* ===== verification/Coordinator_Theorems.thy ===== *)
theory Coordinator_Theorems
  imports Coordinator_Proofs Supervision_Theorems Json_Proofs
begin

text \<open>The properties of the coordinator, with the lemmas about single handoffs they need.\<close>

section \<open>What becomes of a handoff\<close>

lemma load_task_state_save [simp]:
  "load_task_state mid (save_task_state mid ts pj) = ts"
  "load_task_state mid (save_contract_state mid cs pj) = load_task_state mid pj"
  "load_task_state mid (save_attempt mid a n h pj) = load_task_state mid pj"
  "load_task_state mid (update_mission mid (\<lambda>m. m\<lparr>m_supervision := st\<rparr>) pj) = load_task_state mid pj"
  by (simp_all add: load_task_state_def save_task_state_def save_contract_state_def save_attempt_def)

lemma andthen_reads: "andthen (reads f) g s = g (f s) s"
  by (simp add: andthen_def reads_def)

lemma modifies_InrE: "modifies f st = (Inr a, t) \<Longrightarrow> t = f st"
  by (auto simp: modifies_def)

lemma ret_InrE: "ret b st = (Inr a, t) \<Longrightarrow> b = a \<and> t = st"
  by (auto simp: ret_def)

lemmas run_elims = andthen_InrE
lemmas run_dests = tries_InrE reads_InrE modifies_InrE ret_InrE

lemma on_supervision_InrE:
  assumes "on_supervision mid m pj = (Inr x, pj')"
  obtains st where "m (sup_view mid pj) = (Inr x, st)" "pj' = update_mission mid (\<lambda>ms. ms\<lparr>m_supervision := st\<rparr>) pj"
  using assms unfolding on_supervision_def by (auto split: prod.splits simp: map_sum_def split: sum.splits)

text \<open>The frame of one handoff: the attempts and carriers stay.\<close>

definition files_are :: "string \<Rightarrow> mission \<Rightarrow> project \<Rightarrow> bool" where
  "files_are mid m pj \<longleftrightarrow> m_attempts (mission_of mid pj) = m_attempts m \<and> m_carriers (mission_of mid pj) = m_carriers m"

lemma files_are_writes [keeps_intros]:
  "keeps (files_are mid m) (modifies (save_task_state mid ts))"
  "keeps (files_are mid m) (modifies (save_contract_state mid cs))"
  "keeps (files_are mid m) (on_supervision mid k)"
  "keeps (files_are mid m) (lift_item r)"
  by (rule keepsI; simp add: files_are_def modifies_def save_task_state_def save_contract_state_def on_supervision_def
      lift_item_def tries_def split: prod.split)+

lemma settle_handoff_files [keeps_intros]: "keeps (files_are mid m) (settle_handoff env mid t tks ts cs h)"
  unfolding settle_handoff_def Let_def by (intro keeps_intros)

lemma apply_handoff_collect_files: "keeps (files_are mid m) (apply_handoff_collect env mid t h spawn_ts)"
  unfolding apply_handoff_collect_def by (intro keeps_intros)

text \<open>The cursor is what it is set to by the first write.\<close>

abbreviation cursor_is :: "string \<Rightarrow> task_state \<Rightarrow> project \<Rightarrow> bool" where
  "cursor_is mid ts pj \<equiv> load_task_state mid pj = ts"

lemma lift_item_triple [eff_specs]: "(\<And>s it. P s \<Longrightarrow> Q it s) \<Longrightarrow> triple P (lift_item r) Q (\<lambda>_ _. True)"
  unfolding lift_item_def by (rule triple_tries) auto

definition cursor_post :: "string \<Rightarrow> task_state \<Rightarrow> bool \<Rightarrow> attention_item list run_eff \<Rightarrow> bool" where
  "cursor_post mid ts fine m \<longleftrightarrow> triple (cursor_is mid ts) m (\<lambda>items pj. cursor_is mid ts pj \<and> (fine \<or> items \<noteq> [])) (\<lambda>_ _. True)"

lemma cursor_post_ret [intro!]: "fine \<or> items \<noteq> [] \<Longrightarrow> cursor_post mid ts fine (ret items)"
  unfolding cursor_post_def by (rule triple_ret) simp

lemma cursor_post_throw [intro!]: "cursor_post mid ts fine (throw e)"
  unfolding cursor_post_def by (rule triple_throw) simp

lemma cursor_post_lift [intro!]: "(\<And>it. cursor_post mid ts fine (k it)) \<Longrightarrow> cursor_post mid ts fine (andthen (lift_item r) k)"
  unfolding cursor_post_def by (rule triple_andthen, rule lift_item_triple) assumption+

lemma cursor_post_contract [intro!]:
  "cursor_post mid ts fine k \<Longrightarrow> cursor_post mid ts fine (andthen (modifies (save_contract_state mid cs)) (\<lambda>_. k))"
  unfolding cursor_post_def by (rule triple_andthen, rule triple_modifies) auto

lemma cursor_post_if [intro!]:
  "(b \<Longrightarrow> cursor_post mid ts fine m) \<Longrightarrow> (\<not> b \<Longrightarrow> cursor_post mid ts fine n) \<Longrightarrow> cursor_post mid ts fine (if b then m else n)"
  by simp

definition settled_with :: "string \<Rightarrow> task_state \<Rightarrow> bool \<Rightarrow> attention_item list run_eff \<Rightarrow> bool" where
  "settled_with mid ts fine m \<longleftrightarrow>
     triple (\<lambda>_. True) m (\<lambda>items pj. cursor_is mid ts pj \<and> (fine \<or> items \<noteq> [])) (\<lambda>_ _. True)"

lemma set_cursor [intro!]:
  "cursor_post mid ts fine k \<Longrightarrow> settled_with mid ts fine (andthen (modifies (save_task_state mid ts)) (\<lambda>_. k))"
  unfolding cursor_post_def settled_with_def by (rule triple_andthen, rule triple_modifies) auto

lemma settle_handoff_result:
  "t_type t \<noteq> Gate \<Longrightarrow>
   settled_with mid (set_status (t_id t) (if h_done h then Cleared else Failed) ts) (h_done h) (settle_handoff env mid t tks ts cs h)"
  unfolding settle_handoff_def Let_def by (cases "t_type t"; cases "h_done h") auto

text \<open>
  The status a handoff leads to: cleared when it is done, under no provider review and its attempt was not
  stopped, and an item is raised in every other case.
\<close>

definition handoff_clears :: "string \<Rightarrow> task \<Rightarrow> handoff \<Rightarrow> string \<Rightarrow> project \<Rightarrow> bool \<Rightarrow> bool" where
  "handoff_clears mid t h spawn_ts pj stopped \<longleftrightarrow>
     \<not> stopped \<and> review_of (mission_of mid pj) spawn_ts (t_id t) = None \<and> h_done h"

lemma with_attempt_done [simp]: "h_done (with_attempt_id a h) = h_done h"
  by (cases h) simp_all

lemma blocked_done [simp]: "\<not> h_done (blocked_handoff h b a)"
  by (cases h) simp_all

lemma under_review_done: "h_done (under_review m a n h) \<longleftrightarrow> review_of m a n = None \<and> h_done h"
  by (simp add: under_review_def split: option.split)

lemma cooperative_stop_report:
  "lift_item (cooperative_stop token s report) pj = (Inr it, pj') \<Longrightarrow> a_report it = report"
  "lift_item r pj = (Inr it, pj') \<Longrightarrow> pj' = pj"
  by (auto simp: lift_item_def tries_def cooperative_stop_def check_attention_item_def Let_def split: if_splits sum.splits)

lemma collected_handoff:
  assumes run: "apply_handoff_collect env mid t h spawn_ts pj = (Inr items, pj')" and ty: "t_type t \<noteq> Gate"
  obtains found stopped st where
    "finalize_attempt (en_sha env) spawn_ts (t_targets t) (sup_view mid pj) = (Inr (found, stopped), st)"
    "load_task_state mid pj' = set_status (t_id t)
       (if handoff_clears mid t h spawn_ts pj (found \<noteq> None \<and> stopped) then Cleared else Failed) (load_task_state mid pj)"
    "items \<noteq> [] \<or> handoff_clears mid t h spawn_ts pj (found \<noteq> None \<and> stopped)"
    "found \<noteq> None \<and> stopped \<Longrightarrow> map a_report items = [node_stop_report]"
proof -
  let ?h = "with_attempt_id (Some spawn_ts) (under_review (mission_of mid pj) spawn_ts (t_id t) h)"
  from run obtain tks found stopped pj1 where
    sup: "on_supervision mid (finalize_attempt (en_sha env) spawn_ts (t_targets t)) pj = (Inr (found, stopped), pj1)"
    and rest: "(case found of
        Some s \<Rightarrow>
          if stopped
          then andthen (modifies (save_task_state mid (set_status (t_id t) Failed (load_task_state mid pj)))) (\<lambda>_.
               andthen (lift_item (cooperative_stop (\<lambda>name. en_token env name 0) (terminal_snapshot s) node_stop_report)) (\<lambda>it.
               ret [it]))
          else settle_handoff env mid t tks (load_task_state mid pj) (m_contract (mission_of mid pj)) ?h
      | None \<Rightarrow> settle_handoff env mid t tks (load_task_state mid pj) (m_contract (mission_of mid pj)) ?h) pj1 = (Inr items, pj')"
    unfolding apply_handoff_collect_def by (elim run_elims) (auto dest!: run_dests)
  from sup obtain st where fin: "finalize_attempt (en_sha env) spawn_ts (t_targets t) (sup_view mid pj) = (Inr (found, stopped), st)"
    by (rule on_supervision_InrE)
  show ?thesis
  proof (cases "found \<noteq> None \<and> stopped")
    case True
    then obtain s where s: "found = Some s" by auto
    from rest True s obtain it pj2 where
      "lift_item (cooperative_stop (\<lambda>name. en_token env name 0) (terminal_snapshot s) node_stop_report) pj2 = (Inr it, pj')"
      "items = [it]" "load_task_state mid pj2 = set_status (t_id t) Failed (load_task_state mid pj)"
      by (auto elim!: run_elims dest!: run_dests)
    moreover from this(1) have "a_report it = node_stop_report" "pj' = pj2" by (rule cooperative_stop_report)+
    ultimately show ?thesis using True by (intro that[OF fin]) (simp_all add: handoff_clears_def)
  next
    case False
    then have "settle_handoff env mid t tks (load_task_state mid pj) (m_contract (mission_of mid pj)) ?h pj1 = (Inr items, pj')"
      using rest by (auto split: option.splits)
    from tripleD_Inr[OF settle_handoff_result[OF ty, unfolded settled_with_def] TrueI this]
    show ?thesis using False fin by (intro that[OF fin]) (auto simp: handoff_clears_def under_review_done)
  qed
qed

section \<open>Stops and the end of an attempt\<close>

text \<open>A stop of an attempt: its receipt, or a snapshot that is stopping.\<close>

definition stop_recorded :: "string \<Rightarrow> sup_store \<Rightarrow> bool" where
  "stop_recorded a st \<longleftrightarrow> (\<exists>r \<in> set (ss_receipts st). is_stop r \<and> b_attempt (rc_binding r) = a)"

definition stop_marked :: "string \<Rightarrow> sup_store \<Rightarrow> bool" where
  "stop_marked a st \<longleftrightarrow> stop_recorded a st \<or> (\<exists>s. map_of (ss_snapshots st) a = Some s \<and> stop_pending s)"

abbreviation unmarked :: "string \<Rightarrow> sup_store \<Rightarrow> bool" where
  "unmarked a st \<equiv> \<not> stop_marked a st"

lemma stop_tasks [simp]:
  "stop_recorded a (st\<lparr>ss_tasks := ts\<rparr>) = stop_recorded a st" "stop_marked a (st\<lparr>ss_tasks := ts\<rparr>) = stop_marked a st"
  "stop_marked a (st\<lparr>ss_inboxes := d\<rparr>) = stop_marked a st"
  by (simp_all add: stop_recorded_def stop_marked_def)

lemma unmarked_put: "unmarked a st \<Longrightarrow> (sn_attempt s = a \<Longrightarrow> \<not> stop_pending s) \<Longrightarrow> unmarked a (put_snapshot s st)"
  by (auto simp: stop_marked_def stop_recorded_def)

lemma unmarked_append: "keeps (unmarked a) (append_for_inbox fault i del code)"
proof (rule keepsI)
  fix st assume st: "unmarked a st"
  show "unmarked a (snd (append_for_inbox fault i del code st))"
    unfolding append_for_inbox_def
  proof (cases rule: append_receipt_cases[where fault = fault and b = "ib_binding i" and action = Do_Nudge and actor = "ib_actor i"
        and n = "ib_byte_count i" and digest = "Some (ib_sha i)" and del = del and code = code and st = st])
    case (2 rs r y)
    have "unmarked a (put_receipts (rs @ [r]) st)"
      using st load_receiptsD[OF 2(2)] 2(6) by (auto simp: stop_marked_def stop_recorded_def is_stop_def)
    then show "unmarked a (snd (append_receipt fault (ib_binding i) Do_Nudge (ib_actor i) (ib_byte_count i) (Some (ib_sha i)) del code st))"
      using 2(1) by simp
  qed (use st in simp)
qed

lemma unmarked_save: "sn_attempt s \<noteq> a \<Longrightarrow> keeps (unmarked a) (save_snapshot sha s assigned)"
  unfolding save_snapshot_def raise_if_def by (intro keeps_intros) (simp_all add: unmarked_put)

lemma unmarked_recover_stop:
  assumes "is_stop r \<Longrightarrow> b_attempt (rc_binding r) \<noteq> a"
  shows "keeps (unmarked a) (recover_stop_receipt sha r)"
  unfolding recover_stop_receipt_def
proof (rule keeps_if[OF keeps_ret], rule keeps_tries_andthen)
  fix st s assume stop: "\<not> \<not> is_stop r" and st: "unmarked a st" and s: "require_bound_snapshot (rc_binding r) st = Inr s"
  have "sn_attempt (stopping s) \<noteq> a" using require_bound_snapshotD[OF s] assms stop by (simp add: stopping_def)
  then have "keeps (unmarked a) (save_with_targets sha s (stopping s))"
    unfolding save_with_targets_def by (intro keeps_intros unmarked_save)
  then have "keeps (unmarked a) (if stop_pending s \<or> sn_phase s = Ph_Terminal \<and> sn_status s = St_Terminal then ret ()
       else if \<not> at_checkpoint s then throw receipt_integrity else save_with_targets sha s (stopping s))"
    by (intro keeps_intros)
  then show "unmarked a (snd ((if stop_pending s \<or> sn_phase s = Ph_Terminal \<and> sn_status s = St_Terminal then ret ()
       else if \<not> at_checkpoint s then throw receipt_integrity else save_with_targets sha s (stopping s)) st))"
    using st by (rule keepsD)
qed

lemma unmarked_recover_inboxes: "keeps (unmarked a) (recover_inboxes sha fault rs es)"
proof (induction es arbitrary: rs)
  case (Cons e es)
  have "keeps (unmarked a) (recover_inbox sha fault rs e)"
    unfolding recover_inbox_def remove_inbox_def sup_event_def Let_def by (intro keeps_intros unmarked_append) simp_all
  then show ?case by (auto intro!: keeps_intros Cons.IH)
qed (simp add: keeps_ret)

lemma unmarked_recover: "keeps (unmarked a) (recover_supervision sha fault)"
  unfolding recover_supervision_def
proof (rule keeps_tries_andthen)
  fix st rs assume st: "unmarked a st" and rs: "load_receipts st = Inr rs"
  have "is_stop r \<Longrightarrow> b_attempt (rc_binding r) \<noteq> a" if "r \<in> set rs" for r
    using st that load_receiptsD[OF rs] by (auto simp: stop_marked_def stop_recorded_def)
  then have "keeps (unmarked a) (andthen (for_each rs (recover_stop_receipt sha)) (\<lambda>_.
    andthen (reads (\<lambda>st. inbox_order (ss_inboxes st))) (\<lambda>entries.
    andthen (recover_inboxes sha fault rs entries) (\<lambda>(bs, rs').
      if orphan_nudge bs rs' then throw inbox_integrity else ret ()))))"
    by (intro keeps_intros unmarked_recover_stop unmarked_recover_inboxes)
  then show "unmarked a (snd (andthen (for_each rs (recover_stop_receipt sha)) (\<lambda>_.
    andthen (reads (\<lambda>st. inbox_order (ss_inboxes st))) (\<lambda>entries.
    andthen (recover_inboxes sha fault rs entries) (\<lambda>(bs, rs').
      if orphan_nudge bs rs' then throw inbox_integrity else ret ()))) st))"
    using st by (rule keepsD)
qed

lemma terminal_not_pending [simp]: "\<not> stop_pending (terminal_snapshot s)"
  by (simp add: stop_pending_def terminal_snapshot_def)

lemma unmarked_finalize: "keeps (unmarked a) (finalize_attempt sha b assigned)"
  unfolding finalize_attempt_def supervised_def sup_event_def finalize_locked_def Let_def raise_if_def
  by (intro keeps_intros unmarked_recover) (simp_all add: unmarked_put)

interpretation receipt_row: supervision_runs sha "\<lambda>st. r \<in> set (ss_receipts st)" for sha r
  by unfold_locales (auto dest: load_receiptsD)

lemma recorded_finalize: "keeps (stop_recorded a) (finalize_attempt sha b assigned)"
proof (rule keepsI)
  fix st assume "stop_recorded a st"
  then obtain r where r: "r \<in> set (ss_receipts st)" "is_stop r" "b_attempt (rc_binding r) = a" by (auto simp: stop_recorded_def)
  have "keeps (\<lambda>st. r \<in> set (ss_receipts st)) (finalize_attempt sha b assigned)"
    unfolding finalize_attempt_def by (rule receipt_row.transaction_keeps[OF receipt_row.finalize_locked_keeps])
  from keepsD[OF this, of st] r show "stop_recorded a (snd (finalize_attempt sha b assigned st))" by (auto simp: stop_recorded_def)
qed

text \<open>A recovery that returns has settled every stop, whatever the store looked like.\<close>

lemma recovered_stops: "triple (\<lambda>_. True) (recover_supervision sha fault) (\<lambda>_. stops_settled) (\<lambda>_ _. True)"
  unfolding recover_supervision_def
proof (rule triple_andthen)
  show "triple (\<lambda>_. True) (tries load_receipts) (\<lambda>rs st. ss_receipts st = rs) (\<lambda>_ _. True)"
    using load_receiptsD by (intro triple_tries) blast+
next
  fix rs
  let ?I = "\<lambda>ys st. ss_receipts st = rs \<and> (\<forall>r \<in> set ys. is_stop r \<longrightarrow> held halted r st)"
  let ?rest = "\<lambda>_. andthen (reads (\<lambda>st. inbox_order (ss_inboxes st))) (\<lambda>entries.
    andthen (recover_inboxes sha fault rs entries) (\<lambda>(bs, rs').
      if orphan_nudge bs rs' then throw inbox_integrity else ret ()))"
  have "triple (?I []) (for_each rs (recover_stop_receipt sha)) (\<lambda>_. ?I rs) (\<lambda>_ _. True)"
  proof (rule triple_for_each, rule tripleI)
    fix ys r zs st u st'
    assume st: "?I ys st" and res: "recover_stop_receipt sha r st = (Inr u, st')"
    have "ss_receipts st' = rs" using keeps_result[OF recover_stop_receipt_receipts _ res] st by blast
    moreover have "held halted q st'" if "q \<in> set ys" "is_stop q" for q
      using keeps_result[OF stop_row.recover_stop_receipt_keeps _ res] st that by blast
    ultimately show "?I (ys @ [r]) st'" using recover_stop_receipt_settles[OF res] by auto
  qed simp
  then have "triple (\<lambda>st. ss_receipts st = rs) (for_each rs (recover_stop_receipt sha)) (\<lambda>_. stops_settled) (\<lambda>_ _. True)"
    by (rule triple_conseq) (auto simp: stops_hold_def)
  moreover have "keeps stops_settled (?rest ())" by (intro keeps_intros settled.recover_inboxes_keeps)
  then have "triple stops_settled (?rest ()) (\<lambda>_. stops_settled) (\<lambda>_ _. True)"
    by (rule triple_conseq[OF keeps_triple]) simp_all
  ultimately show "triple (\<lambda>st. ss_receipts st = rs) (andthen (for_each rs (recover_stop_receipt sha)) ?rest) (\<lambda>_. stops_settled) (\<lambda>_ _. True)"
    by (rule triple_andthen)
qed

text \<open>When the end of an attempt returns, it reports a stop if a receipt of one was recorded, and only if a stop was
  marked.\<close>

lemma finalized_stop:
  assumes "finalize_attempt sha a assigned st = (Inr (found, stopped), st')"
  shows "stop_recorded a st \<Longrightarrow> found \<noteq> None \<and> stopped" "found \<noteq> None \<and> stopped \<Longrightarrow> stop_marked a st"
proof -
  from assms obtain t where rec: "recover_supervision sha (\<lambda>_. False) st = (Inr (), t)"
    and body: "finalize_locked a assigned t = (Inr (found, stopped), st')"
    unfolding finalize_attempt_def by (rule transaction_Inr)
  from body obtain v where v: "load_snapshot a t = Inr v"
    unfolding finalize_locked_def by (auto elim!: andthen_InrE dest!: tries_InrE)
  show "found \<noteq> None \<and> stopped" if recorded: "stop_recorded a st"
  proof -
    obtain r where r: "r \<in> set (ss_receipts st)" "is_stop r" "b_attempt (rc_binding r) = a"
      using recorded by (auto simp: stop_recorded_def)
    have mem: "r \<in> set (ss_receipts t)" using keeps_result[OF receipt_row.recover_supervision_keeps r(1) rec] .
    have "stops_settled t" using tripleD_Inr[OF recovered_stops TrueI rec] .
    then obtain s where s: "map_of (ss_snapshots t) a = Some s" "binding_from_snapshot s = rc_binding r"
      using mem r(2,3) unfolding stops_hold_def held_def by blast
    have "v = Some s" using v s(1) by (auto simp: load_snapshot_def split: if_splits)
    then show ?thesis using body v mem s(2) r(2) unfolding finalize_locked_def
      by (auto elim!: andthen_InrE dest!: tries_InrE load_receiptsD simp: ret_def Let_def binding_receipts_def split: if_splits)
  qed
  show "stop_marked a st" if "found \<noteq> None \<and> stopped"
  proof (rule ccontr)
    assume "unmarked a st"
    then have t: "unmarked a t" by (rule keeps_result[OF unmarked_recover _ rec])
    have none: "\<not> is_stop r" if "r \<in> set (binding_receipts (ss_receipts t) (binding_from_snapshot y))" "sn_attempt y = a" for r y
    proof -
      have "r \<in> set (ss_receipts t)" "rc_binding r = binding_from_snapshot y" using that(1) by (auto simp: binding_receipts_def)
      then show ?thesis using t that(2) by (auto simp: stop_marked_def stop_recorded_def binding_from_snapshot_def)
    qed
    have calm: "\<not> stop_pending y" if "map_of (ss_snapshots t) a = Some y" for y using t that by (simp add: stop_marked_def)
    show False using body v that none calm load_snapshotD[of a t] unfolding finalize_locked_def
      by (auto elim!: andthen_InrE dest!: tries_InrE load_receiptsD simp: ret_def Let_def split: if_splits option.splits)
  qed
qed

text \<open>What the end of an attempt keeps of the supervision store, a collected handoff keeps of the mission's.\<close>

lemma sup_view_saved [simp]:
  "sup_view mid (save_task_state mid ts pj) = sup_view mid pj" "sup_view mid (save_contract_state mid cs pj) = sup_view mid pj"
  "sup_view mid (save_attempt mid a n h pj) = sup_view mid pj"
  by (simp_all add: sup_view_def save_task_state_def save_contract_state_def save_attempt_def)

lemma collect_supervision:
  assumes P: "\<And>st ts. P (st\<lparr>ss_tasks := ts\<rparr>) = P st" "\<And>b assigned. keeps P (finalize_attempt (en_sha env) b assigned)"
  shows "keeps (\<lambda>pj. P (sup_view mid pj)) (apply_handoff_collect env mid t h spawn_ts)"
proof -
  have sup: "keeps (\<lambda>pj. P (sup_view mid pj)) (on_supervision mid (finalize_attempt (en_sha env) b assigned))" for b assigned
  proof (rule keepsI)
    fix pj assume pj: "P (sup_view mid pj)"
    have view: "P (sup_view mid (update_mission mid (\<lambda>m. m\<lparr>m_supervision := st\<rparr>) pj)) = P st" for st
      by (simp add: sup_view_def P(1))
    show "P (sup_view mid (snd (on_supervision mid (finalize_attempt (en_sha env) b assigned) pj)))"
      using keepsD[OF P(2) pj, of b assigned]
      by (cases "finalize_attempt (en_sha env) b assigned (sup_view mid pj)") (simp add: on_supervision_def view)
  qed
  have items: "keeps (\<lambda>pj. P (sup_view mid pj)) (lift_item r)" for r unfolding lift_item_def by (rule keeps_tries)
  have "keeps (\<lambda>pj. P (sup_view mid pj)) (settle_handoff env mid t tks ts cs g)" for tks ts cs g
    unfolding settle_handoff_def Let_def by (intro keeps_intros items) simp_all
  then show ?thesis unfolding apply_handoff_collect_def by (intro keeps_intros sup items) simp_all
qed

section \<open>Resuming from disk\<close>

text \<open>Work on one task leaves the attempts of all others as they were read.\<close>

definition others_read :: "string \<Rightarrow> string \<Rightarrow> mission \<Rightarrow> project \<Rightarrow> bool" where
  "others_read mid node m pj \<longleftrightarrow> (\<forall>a n. n \<noteq> node \<longrightarrow> read_attempt (mission_of mid pj) a n = read_attempt m a n)"

lemma read_attempt_cong:
  "map_of (m_attempts m) (a, n) = map_of (m_attempts m') (a, n) \<Longrightarrow> m_carriers m = m_carriers m' \<Longrightarrow>
   read_attempt m a n = read_attempt m' a n"
proof -
  assume eq: "map_of (m_attempts m) (a, n) = map_of (m_attempts m') (a, n)" "m_carriers m = m_carriers m'"
  have "under_review m a n = under_review m' a n" by (rule ext) (simp add: under_review_def review_of_def eq)
  then show ?thesis by (auto simp: read_attempt_def eq split: option.split attempt_file.split)
qed

lemma collect_reads: "keeps (others_read mid node m) (apply_handoff_collect env mid t h spawn_ts)"
proof (rule keepsI)
  fix pj assume pj: "others_read mid node m pj"
  let ?pj' = "snd (apply_handoff_collect env mid t h spawn_ts pj)"
  have "files_are mid (mission_of mid pj) ?pj'"
    by (rule keepsD [OF apply_handoff_collect_files]) (simp add: files_are_def)
  then have "read_attempt (mission_of mid ?pj') a n = read_attempt (mission_of mid pj) a n" for a n
    by (intro read_attempt_cong) (simp_all add: files_are_def)
  then show "others_read mid node m ?pj'" using pj by (simp add: others_read_def)
qed

lemma save_attempt_reads [keeps_intros]: "keeps (others_read mid node m) (modifies (save_attempt mid a node h))"
proof (rule keepsI)
  fix pj assume pj: "others_read mid node m pj"
  have "read_attempt (mission_of mid (save_attempt mid a node h pj)) b n = read_attempt (mission_of mid pj) b n" if "n \<noteq> node" for b n
    using that by (intro read_attempt_cong) (simp_all add: save_attempt_def update_conv)
  then show "others_read mid node m (snd (modifies (save_attempt mid a node h) pj))"
    using pj by (simp add: others_read_def modifies_def)
qed

lemma reconcile_attempt_reads: "keeps (others_read mid (t_id t) m) (reconcile_attempt env mid ts t)"
  unfolding reconcile_attempt_def Let_def by (intro keeps_intros collect_reads)

definition persisted_done :: "mission \<Rightarrow> task_state \<Rightarrow> string \<Rightarrow> bool" where
  "persisted_done m ts node \<longleftrightarrow>
     (\<exists>a h. last_attempt_of ts node = Some a \<and> read_attempt m a node = Inr (Some h) \<and> h_done h)"

lemma synthesized_done [simp]: "\<not> h_done (synthesize_handoff t report)"
  by (simp add: synthesize_handoff_def)

text \<open>What the cursor says of a running task, and what the supervision store says of its current attempt.\<close>

definition current_stop :: "(string \<Rightarrow> sup_store \<Rightarrow> bool) \<Rightarrow> task_state \<Rightarrow> sup_store \<Rightarrow> string \<Rightarrow> bool" where
  "current_stop P ts st node \<longleftrightarrow> (\<exists>a. last_attempt_of ts node = Some a \<and> P a st)"

lemma collected_status:
  assumes "apply_handoff_collect env mid t h a pj = (Inr items, pj')" "t_type t \<noteq> Gate"
  shows "\<exists>st \<in> {Failed, Cleared}. load_task_state mid pj' = set_status (t_id t) st (load_task_state mid pj)
    \<and> (st = Failed \<longrightarrow> items \<noteq> []) \<and> (st = Cleared \<longrightarrow> h_done h \<and> \<not> stop_recorded a (sup_view mid pj))
    \<and> (h_done h \<and> review_of (mission_of mid pj) a (t_id t) = None \<and> unmarked a (sup_view mid pj) \<longrightarrow> st = Cleared)"
proof (rule collected_handoff [OF assms])
  fix found stopped st
  assume fin: "finalize_attempt (en_sha env) a (t_targets t) (sup_view mid pj) = (Inr (found, stopped), st)"
    and "load_task_state mid pj' = set_status (t_id t)
       (if handoff_clears mid t h a pj (found \<noteq> None \<and> stopped) then Cleared else Failed) (load_task_state mid pj)"
    and "items \<noteq> [] \<or> handoff_clears mid t h a pj (found \<noteq> None \<and> stopped)"
  then show ?thesis using finalized_stop[OF fin]
    by (intro bexI[of _ "if handoff_clears mid t h a pj (found \<noteq> None \<and> stopped) then Cleared else Failed"])
      (auto simp: handoff_clears_def)
qed

lemma read_done_free: "read_attempt m a node = Inr (Some h) \<Longrightarrow> h_done h \<Longrightarrow> review_of m a node = None"
  by (auto simp: read_attempt_def Let_def under_review_done split: option.splits attempt_file.splits if_splits)

lemma reconciled_attempt:
  assumes "reconcile_attempt env mid ts t pj = (Inr items, pj')" "t_type t \<noteq> Gate"
  shows "\<exists>st \<in> {Failed, Cleared}. load_task_state mid pj' = set_status (t_id t) st (load_task_state mid pj)
    \<and> (st = Failed \<longrightarrow> items \<noteq> [])
    \<and> (st = Cleared \<longrightarrow> persisted_done (mission_of mid pj) ts (t_id t) \<and> \<not> current_stop stop_recorded ts (sup_view mid pj) (t_id t))
    \<and> (persisted_done (mission_of mid pj) ts (t_id t) \<and> \<not> current_stop stop_marked ts (sup_view mid pj) (t_id t) \<longrightarrow> st = Cleared)"
proof (cases "last_attempt_of ts (t_id t)")
  case None
  let ?h = "synthesize_handoff t ''Coordinator resumed with a running task that has no dispatch generation.''"
  have run: "apply_handoff_collect env mid t ?h (en_now env) (save_attempt mid (en_now env) (t_id t) ?h pj) = (Inr items, pj')"
    using assms(1) None by (simp add: reconcile_attempt_def Let_def andthen_def modifies_def)
  from collected_status[OF run assms(2)] show ?thesis using None by (auto simp: persisted_done_def)
next
  case (Some a)
  have stops: "current_stop P ts st (t_id t) = P a st" for P st using Some by (simp add: current_stop_def)
  show ?thesis
  proof (cases "read_attempt (mission_of mid pj) a (t_id t)")
    case (Inl e)
    let ?h = "synthesize_handoff t (''Coordinator rejected the persisted attempt: '' @ e)"
    have run: "apply_handoff_collect env mid t ?h a pj = (Inr items, pj')"
      using assms(1) Some Inl by (simp add: reconcile_attempt_def andthen_def reads_def)
    from collected_status[OF run assms(2)] show ?thesis using Some Inl by (auto simp: persisted_done_def)
  next
    case (Inr found)
    show ?thesis
    proof (cases found)
      case None
      let ?h = "synthesize_handoff t (''Coordinator resumed with task marked running but no attempt ''
                        @ ''file was present for its current generation.'')"
      have run: "apply_handoff_collect env mid t ?h a (save_attempt mid a (t_id t) ?h pj) = (Inr items, pj')"
        using assms(1) Some Inr None by (simp add: reconcile_attempt_def Let_def andthen_def reads_def modifies_def)
      from collected_status[OF run assms(2)] show ?thesis using Some Inr None by (auto simp: persisted_done_def)
    next
      case left: (Some h)
      have run: "apply_handoff_collect env mid t h a pj = (Inr items, pj')"
        using assms(1) Some Inr left by (simp add: reconcile_attempt_def andthen_def reads_def)
      have "persisted_done (mission_of mid pj) ts (t_id t) \<longleftrightarrow> h_done h" using Some Inr left by (simp add: persisted_done_def)
      moreover have "h_done h \<Longrightarrow> review_of (mission_of mid pj) a (t_id t) = None"
        using read_done_free[OF Inr[unfolded left]] .
      ultimately show ?thesis using collected_status[OF run assms(2)] unfolding stops by blast
    qed
  qed
qed

lemma reconcile_attempt_supervision:
  assumes P: "\<And>st ts. P (st\<lparr>ss_tasks := ts\<rparr>) = P st" "\<And>b assigned. keeps P (finalize_attempt (en_sha env) b assigned)"
  shows "keeps (\<lambda>pj. P (sup_view mid pj)) (reconcile_attempt env mid ts t)"
  unfolding reconcile_attempt_def Let_def by (intro keeps_intros collect_supervision[OF P]) simp_all

definition reconciled :: "mission \<Rightarrow> sup_store \<Rightarrow> task_state \<Rightarrow> task_state \<Rightarrow> attention_item list \<Rightarrow> string \<Rightarrow> bool" where
  "reconciled m sv ts ts' items node \<longleftrightarrow>
     (status_of ts' node = Failed \<and> items \<noteq> []
      \<or> status_of ts' node = Cleared \<and> persisted_done m ts node \<and> \<not> current_stop stop_recorded ts sv node)
     \<and> (persisted_done m ts node \<and> \<not> current_stop stop_marked ts sv node \<longrightarrow> status_of ts' node = Cleared)"

lemma reconciled_tasks:
  assumes "reconcile_tasks env mid ts tks pj = (Inr items, pj')" "distinct (map t_id tks)"
    "\<forall>t \<in> set tks. status_of ts (t_id t) = Running \<longrightarrow> t_type t \<noteq> Gate"
  shows "(\<forall>t \<in> set tks. status_of ts (t_id t) = Running \<longrightarrow>
        reconciled (mission_of mid pj) (sup_view mid pj) ts (load_task_state mid pj') items (t_id t))
    \<and> (\<forall>n. n \<in> t_id ` set tks \<and> status_of ts n = Running \<or>
         status_of (load_task_state mid pj') n = status_of (load_task_state mid pj) n)"
  using assms
proof (induction tks arbitrary: pj items)
  case Nil
  then show ?case by (auto dest: ret_InrE)
next
  case (Cons t tks)
  have smaller: "distinct (map t_id tks)" "\<forall>t \<in> set tks. status_of ts (t_id t) = Running \<longrightarrow> t_type t \<noteq> Gate"
    using Cons.prems(2,3) by simp_all
  show ?case
  proof (cases "status_of ts (t_id t) = Running")
    case False
    then have "reconcile_tasks env mid ts tks pj = (Inr items, pj')" using Cons.prems(1) by simp
    note IH = Cons.IH [OF this smaller]
    from IH [THEN conjunct1] IH [THEN conjunct2] show ?thesis using False by auto
  next
    case True
    with Cons.prems(1) obtain first pj1 rest where
      head: "reconcile_attempt env mid ts t pj = (Inr first, pj1)" and tail: "reconcile_tasks env mid ts tks pj1 = (Inr rest, pj')"
      and items: "items = first @ rest"
      by (auto elim!: run_elims dest!: run_dests)
    have ty: "t_type t \<noteq> Gate" using Cons.prems(3) True by simp
    have reads: "others_read mid (t_id t) (mission_of mid pj) pj1"
      by (rule keeps_result [OF reconcile_attempt_reads _ head]) (simp add: others_read_def)
    have recorded: "stop_recorded a (sup_view mid pj) \<Longrightarrow> stop_recorded a (sup_view mid pj1)" for a
      by (rule keeps_result [OF reconcile_attempt_supervision _ head]) (simp_all add: recorded_finalize)
    have unmarked: "unmarked a (sup_view mid pj) \<Longrightarrow> unmarked a (sup_view mid pj1)" for a
      by (rule keeps_result [OF reconcile_attempt_supervision _ head]) (simp_all add: unmarked_finalize)
    have fresh: "t_id t \<notin> t_id ` set tks" using Cons.prems(2) by auto
    have IH: "\<forall>u \<in> set tks. status_of ts (t_id u) = Running \<longrightarrow>
          reconciled (mission_of mid pj1) (sup_view mid pj1) ts (load_task_state mid pj') rest (t_id u)"
      "\<forall>n. n \<in> t_id ` set tks \<and> status_of ts n = Running \<or>
         status_of (load_task_state mid pj') n = status_of (load_task_state mid pj1) n"
      by (rule Cons.IH [OF tail smaller, THEN conjunct1], rule Cons.IH [OF tail smaller, THEN conjunct2])
    have moved: "reconciled (mission_of mid pj) (sup_view mid pj) ts (load_task_state mid pj') items (t_id u)"
      if "u \<in> set tks" "status_of ts (t_id u) = Running" for u
    proof -
      have "t_id u \<noteq> t_id t" using that(1) fresh by (metis image_eqI)
      then have "persisted_done (mission_of mid pj1) ts (t_id u) = persisted_done (mission_of mid pj) ts (t_id u)"
        using reads by (simp add: persisted_done_def others_read_def)
      moreover have "current_stop stop_recorded ts (sup_view mid pj) (t_id u) \<Longrightarrow> current_stop stop_recorded ts (sup_view mid pj1) (t_id u)"
        "\<not> current_stop stop_marked ts (sup_view mid pj) (t_id u) \<Longrightarrow> \<not> current_stop stop_marked ts (sup_view mid pj1) (t_id u)"
        using recorded unmarked by (auto simp: current_stop_def)
      ultimately show ?thesis using IH(1) that items by (auto simp: reconciled_def)
    qed
    obtain st where st: "st \<in> {Failed, Cleared}" "load_task_state mid pj1 = set_status (t_id t) st (load_task_state mid pj)"
      "st = Failed \<longrightarrow> first \<noteq> []"
      "st = Cleared \<longrightarrow> persisted_done (mission_of mid pj) ts (t_id t) \<and> \<not> current_stop stop_recorded ts (sup_view mid pj) (t_id t)"
      "persisted_done (mission_of mid pj) ts (t_id t) \<and> \<not> current_stop stop_marked ts (sup_view mid pj) (t_id t) \<longrightarrow> st = Cleared"
      using reconciled_attempt [OF head ty] by blast
    have "status_of (load_task_state mid pj') (t_id t) = st"
      using IH(2) [rule_format, of "t_id t"] fresh st(2) by (simp add: status.get_put)
    then have "reconciled (mission_of mid pj) (sup_view mid pj) ts (load_task_state mid pj') items (t_id t)"
      using st items by (auto simp: reconciled_def)
    moreover have "n \<in> t_id ` set (t # tks) \<and> status_of ts n = Running
        \<or> status_of (load_task_state mid pj') n = status_of (load_task_state mid pj) n" for n
      using IH(2) [rule_format, of n] st(2) True by (auto simp: status.get_put split: if_splits)
    ultimately show ?thesis using moved by auto
  qed
qed

text \<open>The status and the report a running task is left with.\<close>

definition settled_from_disk :: "string \<Rightarrow> project \<Rightarrow> project \<Rightarrow> step_result option \<Rightarrow> string \<Rightarrow> bool" where
  "settled_from_disk mid pj pj' r node \<longleftrightarrow>
     (if persisted_done (mission_of mid pj) (load_task_state mid pj) node
         \<and> \<not> current_stop stop_marked (load_task_state mid pj) (sup_view mid pj) node
      then status_of (load_task_state mid pj') node = Cleared
      else if \<not> persisted_done (mission_of mid pj) (load_task_state mid pj) node
         \<or> current_stop stop_recorded (load_task_state mid pj) (sup_view mid pj) node
      then status_of (load_task_state mid pj') node = Failed \<and> r = Some (Attention_Needed ''resume_attention'')
      else status_of (load_task_state mid pj') node = Cleared
        \<or> status_of (load_task_state mid pj') node = Failed \<and> r = Some (Attention_Needed ''resume_attention''))"

lemma reconcile_outcome:
  assumes "reconcile_pending_attempts env mid tks (load_task_state mid pj) pj = (Inr r, pj')"
    and "distinct (map t_id tks)"
    and "list_all (\<lambda>t. status_of (load_task_state mid pj) (t_id t) \<noteq> Running \<or> t_type t \<noteq> Gate) tks"
  shows "list_all (\<lambda>t. if status_of (load_task_state mid pj) (t_id t) = Running then settled_from_disk mid pj pj' r (t_id t)
           else status_of (load_task_state mid pj') (t_id t) = status_of (load_task_state mid pj) (t_id t)) tks
    \<and> (r = None \<longleftrightarrow> list_all (\<lambda>t. status_of (load_task_state mid pj) (t_id t) \<noteq> Running) tks)"
proof (cases "list_ex (\<lambda>t. status_of (load_task_state mid pj) (t_id t) = Running) tks")
  case False
  then have "r = None" "pj' = pj" using assms(1) by (auto simp: reconcile_pending_attempts_def dest: ret_InrE)
  then show ?thesis using False by (auto simp: list_all_iff list_ex_iff)
next
  case True
  with assms(1) obtain items pj1 where run: "reconcile_tasks env mid (load_task_state mid pj) tks pj = (Inr items, pj1)"
    and r: "r = Some (if items \<noteq> [] then Attention_Needed ''resume_attention'' else Advanced ''reconciled pending attempts'')"
    and cursor: "load_task_state mid pj' = load_task_state mid pj1"
    by (auto simp: reconcile_pending_attempts_def raise_attention_def load_task_state_def elim!: run_elims dest!: run_dests split: if_splits)
  have "\<forall>t \<in> set tks. status_of (load_task_state mid pj) (t_id t) = Running \<longrightarrow> t_type t \<noteq> Gate"
    using assms(3) by (auto simp: list_all_iff)
  from reconciled_tasks [OF run assms(2) this]
  have each: "\<forall>t \<in> set tks. status_of (load_task_state mid pj) (t_id t) = Running \<longrightarrow>
      reconciled (mission_of mid pj) (sup_view mid pj) (load_task_state mid pj) (load_task_state mid pj') items (t_id t)"
    and rest: "\<forall>n. n \<in> t_id ` set tks \<and> status_of (load_task_state mid pj) n = Running \<or>
         status_of (load_task_state mid pj') n = status_of (load_task_state mid pj) n"
    by (simp_all add: cursor)
  have "settled_from_disk mid pj pj' r n"
    if "reconciled (mission_of mid pj) (sup_view mid pj) (load_task_state mid pj) (load_task_state mid pj') items n" for n
    using that r unfolding reconciled_def settled_from_disk_def by auto
  then show ?thesis using each rest r True by (auto simp: list_all_iff list_ex_iff)
qed

text \<open>C7. Resuming a mission from disk settles every running task by its persisted handoff.  When the
  reconciliation at the start of a step or a closing returns for a task list with distinct ids, none of whose
  gates is running, then a task that was running is cleared if the attempt file of its current generation is
  accepted, under no provider review, and says done, and no stop of that attempt is on record; it is failed, and
  an attention item is raised, if there is no such file or the receipt of a stop of that attempt is on record
  (a snapshot that is stopping without a receipt decides neither way).  No other task changes its status, and
  nothing is reported exactly when nothing was running.\<close>

theorem reconcile_settles_running:
  assumes "reconcile_pending_attempts env mid tks (load_task_state mid pj) pj = (Inr r, pj')"
    and "distinct (map t_id tks)"
    and "list_all (\<lambda>t. status_of (load_task_state mid pj) (t_id t) \<noteq> Running \<or> t_type t \<noteq> Gate) tks"
  shows "list_all (\<lambda>t. if status_of (load_task_state mid pj) (t_id t) = Running then settled_from_disk mid pj pj' r (t_id t)
           else status_of (load_task_state mid pj') (t_id t) = status_of (load_task_state mid pj) (t_id t)) tks
    \<and> (r = None \<longleftrightarrow> list_all (\<lambda>t. status_of (load_task_state mid pj) (t_id t) \<noteq> Running) tks)"
  using assms by (rule reconcile_outcome)

section \<open>A stopped attempt\<close>

text \<open>C5. A stop wins over whatever the role hands in.  Once a stop has been recorded for an attempt, then,
  however supervision went on afterwards, a handoff collected for that attempt always fails its task and
  raises exactly one item, which reports the stop and nothing of the handoff.\<close>

theorem stop_fails_task:
  assumes "ss_receipts st0 = []" "sup_steps (en_sha env) st0 st1" "r \<in> set (ss_receipts st1)" "is_stop r"
    and "sup_steps (en_sha env) st1 (sup_view mid pj)" "t_type t \<noteq> Gate"
    and "apply_handoff_collect env mid t h (b_attempt (rc_binding r)) pj = (Inr items, pj')"
  shows "load_task_state mid pj' = set_status (t_id t) Failed (load_task_state mid pj)
    \<and> map a_report items = [node_stop_report]"
proof (rule collected_handoff [OF assms(7,6)])
  fix found stopped st
  assume fin: "finalize_attempt (en_sha env) (b_attempt (rc_binding r)) (t_targets t) (sup_view mid pj) = (Inr (found, stopped), st)"
    and cursor: "load_task_state mid pj' = set_status (t_id t)
       (if handoff_clears mid t h (b_attempt (rc_binding r)) pj (found \<noteq> None \<and> stopped) then Cleared else Failed) (load_task_state mid pj)"
    and report: "found \<noteq> None \<and> stopped \<Longrightarrow> map a_report items = [node_stop_report]"
  note kept = stop_retained [OF assms(1-3,5)]
  have "found \<noteq> None \<and> stopped" by (rule stopped_finalizes [OF kept assms(4) fin])
  then show ?thesis using cursor report by (simp add: handoff_clears_def)
qed

section \<open>Steps\<close>

lemma step_keeps_queue:
  assumes "p_state pj = Some (MissionRunning mid)" "roles_keep env mid (quiet (p_state pj) (p_attention pj))"
  shows "(case step env pj of (Inl e, pj') \<Rightarrow> quiet (p_state pj) (p_attention pj) pj'
      | (Inr r, pj') \<Rightarrow> outcome_ok (p_state pj) (p_attention pj) r pj')
    \<and> (case close_mission env mid pj of (Inl e, pj') \<Rightarrow> quiet (p_state pj) (p_attention pj) pj'
      | (Inr r, pj') \<Rightarrow> outcome_ok (p_state pj) (p_attention pj) r pj')"
proof -
  have pj: "quiet (p_state pj) (p_attention pj) pj" by (simp add: quiet_def)
  have "step env pj = step_mission env mid pj" using assms(1) by (simp add: step_def andthen_def reads_def)
  then show ?thesis
    using step_mission_settles [OF assms(2)] closing_settles [OF assms(2)] pj unfolding triple_def by simp
qed



section \<open>Closing\<close>

lemma save_state_p_state [simp]: "p_state (save_state st pj) = Some st"
  by (simp add: save_state_def)

lemma crashed_review_done [simp]: "\<not> tr_done (crashed_review env e)"
  by (simp add: crashed_review_def)

lemma await_role_effect_Inr:
  assumes "await_role_effect mid run pj = (Inr (Inr a), pj')"
  shows "\<exists>pj1. snd run pj1 = (Returned a, pj')"
  using assms by (auto simp: await_role_effect_def split: prod.splits role_outcome.splits option.splits)

definition closeout_text :: "terminal_review_handoff \<Rightarrow> string" where
  "closeout_text report = (if tr_report report = [] then ''Mission complete; terminal review clean.'' else tr_report report)"

lemma conclude_review_done:
  assumes "conclude_review env mid spawn_ts assigned crashed report pj = (Inr (Terminal w), pj')"
  shows "w = ''done'' \<and> tr_done report \<and> p_state pj' = Some Done \<and> m_closeout (mission_of mid pj') = Some (''done'', closeout_text report)"
  using assms unfolding conclude_review_def
  by (auto elim!: run_elims dest!: run_dests split: option.splits if_splits simp: seal_mission_def closeout_text_def)

lemma enter_terminal_review_done:
  assumes "enter_terminal_review env mid pj = (Inr (Terminal w), pj')"
  shows "\<exists>spawn_ts report pj1 pj2. w = ''done'' \<and> snd (en_review env mid spawn_ts) pj1 = (Returned report, pj2) \<and> tr_done report
    \<and> p_state pj' = Some Done \<and> m_closeout (mission_of mid pj') = Some (''done'', closeout_text report)"
proof -
  from assms obtain spawn_ts assigned out pj1 pj2 where
    await: "await_role_effect mid (en_review env mid spawn_ts) pj1 = (Inr out, pj2)"
    and rest: "(case out of
      Inl e \<Rightarrow> andthen (modifies (save_terminal_review mid spawn_ts (crashed_review env e)))
                 (\<lambda>_. conclude_review env mid spawn_ts assigned True (crashed_review env e))
    | Inr report \<Rightarrow> conclude_review env mid spawn_ts assigned False report) pj2 = (Inr (Terminal w), pj')"
    unfolding enter_terminal_review_def Let_def by (elim run_elims) blast
  show ?thesis
  proof (cases out)
    case (Inl e)
    then show ?thesis using rest by (auto elim!: run_elims dest!: conclude_review_done)
  next
    case (Inr report)
    with rest have "conclude_review env mid spawn_ts assigned False report pj2 = (Inr (Terminal w), pj')" by simp
    from conclude_review_done [OF this] await_role_effect_Inr [OF await [unfolded Inr]] show ?thesis by blast
  qed
qed

text \<open>A mission is closed only at rest, and only by its reviewer.  When \<open>close_mission\<close> ends a project
  whose mission has a task list, then no task was running, no gate was ready, no task was runnable and no
  attempt stood under a provider review; a reviewer returned a report that says done; and the state is done
  and the closeout is the text of that report.\<close>

theorem close_mission_at_rest:
  assumes "close_mission env mid pj = (Inr (Terminal w), pj')" "m_tasks (mission_of mid pj) = Some tks"
  shows "list_all (\<lambda>t. status_of (load_task_state mid pj) (t_id t) \<noteq> Running) tks
    \<and> ready_gate tks (load_task_state mid pj) = None
    \<and> next_runnable_task tks (load_task_state mid pj) = None
    \<and> \<not> under_provider_review (mission_of mid pj) (load_task_state mid pj)
    \<and> (\<exists>spawn_ts report pj1 pj2. snd (en_review env mid spawn_ts) pj1 = (Returned report, pj2) \<and> tr_done report
         \<and> p_state pj' = Some Done \<and> m_closeout (mission_of mid pj') = Some (''done'', closeout_text report))"
proof -
  let ?ts = "load_task_state mid pj"
  obtain m' where "p_state pj = Some (MissionRunning m')"
    using assms(1) by (auto simp: close_mission_def andthen_reads ret_def split: option.splits project_state.splits)
  with assms obtain resumed pj1 where rec: "reconcile_pending_attempts env mid tks ?ts pj = (Inr resumed, pj1)"
    and rest: "(case resumed of Some r \<Rightarrow> ret r | None \<Rightarrow> close_at_rest env mid tks ?ts) pj1 = (Inr (Terminal w), pj')"
    by (auto simp: close_mission_def andthen_reads elim!: andthen_InrE)
  have quiet: "resumed = None" "pj1 = pj" "list_all (\<lambda>t. status_of ?ts (t_id t) \<noteq> Running) tks"
    using rec rest by (auto simp: reconcile_pending_attempts_def list_all_iff list_ex_iff
        elim!: run_elims dest!: run_dests split: if_splits)
  then have "close_at_rest env mid tks ?ts pj = (Inr (Terminal w), pj')" using rest by simp
  then have guards: "\<not> under_provider_review (mission_of mid pj) ?ts" "ready_gate tks ?ts = None" "next_runnable_task tks ?ts = None"
    and review: "enter_terminal_review env mid pj = (Inr (Terminal w), pj')"
    by (auto simp: close_at_rest_def andthen_reads ret_def split: if_splits option.splits)
  then show ?thesis using quiet(3) enter_terminal_review_done [OF review] by blast
qed

section \<open>Attempt ids\<close>

lemma pad4_value: "foldl (\<lambda>v d. 10 * v + (ord d - 48)) 0 (pad4 k) = k"
proof -
  have "foldl (\<lambda>v d. 10 * v + (ord d - 48)) (0::nat) (replicate n CHR ''0'') = 0" for n
    by (induction n) (simp_all add: ord_def)
  then show ?thesis by (simp add: pad4_def show_nat_value)
qed

lemma numbered_inj: "numbered c i = numbered c j \<longleftrightarrow> i = j"
  by (metis pad4_value numbered_def same_append_eq)

lemma free_index_None:
  "free_index st c fuel k = Inr None \<Longrightarrow> numbered c ` {k ..< k + fuel} \<subseteq> fst ` set (ss_snapshots st)"
proof (induction fuel arbitrary: k)
  case (Suc fuel)
  then obtain s where s: "load_snapshot (numbered c k) st = Inr (Some s)" and rest: "free_index st c fuel (k + 1) = Inr None"
    by (auto split: sum.splits option.splits)
  have "numbered c k \<in> fst ` set (ss_snapshots st)"
    using load_snapshotD [OF s] by (metis domI dom_map_of_conv_image_fst)
  moreover have "{k ..< k + Suc fuel} = insert k {k + 1 ..< k + 1 + fuel}" by auto
  ultimately show ?case using Suc.IH [OF rest] by (simp only: image_insert) blast
qed simp

lemma free_index_Some: "free_index st c fuel k = Inr (Some a) \<Longrightarrow> load_snapshot a st = Inr None"
  by (induction fuel arbitrary: k) (auto split: sum.splits option.splits)

text \<open>C9. The search for an attempt id ends.  One more turn than there are snapshots is always enough, and
  the id found has no snapshot yet; the search fails only where the store refuses a snapshot it reads.\<close>

theorem unique_attempt_id_ends:
  "case unique_attempt_id candidate st of
     Inl e \<Rightarrow> \<exists>a. load_snapshot a st = Inl e
   | Inr found \<Rightarrow> \<exists>a. found = Some a \<and> load_snapshot a st = Inr None"
proof -
  let ?n = "length (ss_snapshots st)"
  have ends: "free_index st candidate (?n + 1) 1 \<noteq> Inr None"
  proof
    assume "free_index st candidate (?n + 1) 1 = Inr None"
    from card_mono [OF _ free_index_None [OF this]]
    have "card (numbered candidate ` {1 ..< 1 + (?n + 1)}) \<le> card (fst ` set (ss_snapshots st))" by simp
    moreover have "card (fst ` set (ss_snapshots st)) \<le> ?n"
      by (metis card_length image_set length_map)
    moreover have "card (numbered candidate ` {1 ..< 1 + (?n + 1)}) = ?n + 1"
      by (subst card_image) (auto simp: inj_on_def numbered_inj)
    ultimately show False by simp
  qed
  have fails: "\<exists>a. load_snapshot a st = Inl e" if "free_index st candidate fuel k = Inl e" for fuel k e
    using that by (induction fuel arbitrary: k) (auto split: sum.splits option.splits)
  show ?thesis
  proof (cases "load_snapshot candidate st")
    case (Inr found)
    then show ?thesis using ends fails free_index_Some
      by (cases found) (fastforce simp: unique_attempt_id_def split: sum.split option.split)+
  qed (auto simp: unique_attempt_id_def)
qed

section \<open>Concrete instances\<close>

text \<open>Roles that return at once: the worker and the reviewer say done.\<close>

definition demo_env :: env where
  "demo_env = \<lparr>en_now = ''n1'', en_clock = 0, en_token = (\<lambda>_ _. ''0a1b2c3d''), en_sha = demo_digest, en_text = (\<lambda>_. ''crash''), en_redact = id,
     en_isolation = \<lparr>iso_supported = False, iso_git_root = False\<rparr>,
     en_dispatch = (\<lambda>_ t a. ([], \<lambda>pj. (Returned (WorkHandoff (t_id t) (Some a) True ''ok'' False), pj))),
     en_batch = None, en_isolated = (\<lambda>_ _. ret (Idle [])),
     en_review = (\<lambda>_ _. ([], \<lambda>pj. (Returned \<lparr>tr_done = True, tr_report = ''good''\<rparr>, pj))), en_roots = (\<lambda>_. None)\<rparr>"

definition demo_project :: "task_state \<Rightarrow> sup_store \<Rightarrow> project" where
  "demo_project ts st = \<lparr>p_id = ''p1'', p_state = Some (MissionRunning ''m1''), p_attention = [],
     p_missions = [(''m1'', (empty_mission ''p1'' ''m1'')\<lparr>m_tasks := Some demo_plan, m_cursor := ts, m_supervision := st\<rparr>)],
     p_max_parallel = 2, p_current = Some ''m1'', p_decisions = []\<rparr>"

definition demo_idle :: sup_store where
  "demo_idle = demo_store\<lparr>ss_snapshots := []\<rparr>"

lemma demo_roles: "roles_keep demo_env mid I"
  by (simp add: roles_keep_def run_keeps_def demo_env_def)

text \<open>A whole step: the work task is dispatched, its handoff collected and the task cleared.\<close>

lemma demo_step: "map_prod id (\<lambda>pj. map_of (load_task_state ''m1'' pj) ''w1'') (step demo_env (demo_project [] demo_idle))
   = (Inr (Advanced ''w1 cleared''), Some \<lparr>e_status = Cleared, e_last_attempt = Some ''n1''\<rparr>)"
  by code_simp



lemma demo_stop_collected:
  "isl (fst (apply_handoff_collect demo_env ''m1'' demo_work (WorkHandoff ''w1'' (Some ''at1'') True ''ok'' False) ''at1''
     (demo_project [] demo_stopped))) = False"
  by code_simp

theorem stop_fails_task_witness:
  "\<exists>items pj'. apply_handoff_collect demo_env ''m1'' demo_work (WorkHandoff ''w1'' (Some ''at1'') True ''ok'' False) ''at1''
     (demo_project [] demo_stopped) = (Inr items, pj') \<and> load_task_state ''m1'' pj' = set_status ''w1'' Failed []"
proof -
  let ?pj = "demo_project [] demo_stopped"
  obtain items pj' where run: "apply_handoff_collect demo_env ''m1'' demo_work (WorkHandoff ''w1'' (Some ''at1'') True ''ok'' False) ''at1'' ?pj
      = (Inr items, pj')"
    using demo_stop_collected by (metis isl_def prod.collapse sum.collapse(2))
  obtain r where r: "r \<in> set (ss_receipts demo_stopped)" "is_stop r" "rc_binding r = binding_from_snapshot demo_waiting"
    using demo_stop_row by blast
  have attempt: "b_attempt (rc_binding r) = ''at1''"
    using binding_attempt [OF r(3) [symmetric]] by (simp add: demo_waiting_def)
  have fresh: "ss_receipts demo_store = []" by (simp add: demo_store_def)
  have "sup_view ''m1'' ?pj = demo_stopped\<lparr>ss_tasks := demo_plan\<rparr>"
    by (simp add: sup_view_def mission_of_def demo_project_def)
  then have later: "sup_steps demo_digest demo_stopped (sup_view ''m1'' ?pj)"
    by (simp add: r_into_rtranclp sup_step.replan)
  have sha: "en_sha demo_env = demo_digest" by (simp add: demo_env_def)
  have "load_task_state ''m1'' pj' = set_status (t_id demo_work) Failed (load_task_state ''m1'' ?pj)"
    using stop_fails_task [of demo_store demo_env demo_stopped r "''m1''" ?pj demo_work] fresh demo_stopped_step r(1,2) later run
    by (simp add: sha attempt demo_work_def)
  then show ?thesis using run by (simp add: load_task_state_def mission_of_def demo_project_def demo_work_def)
qed

definition demo_resumed :: project where
  "demo_resumed = save_attempt ''m1'' ''a1'' ''w1'' (WorkHandoff ''w1'' (Some ''a1'') True ''ok'' False)
     (demo_project (mark_running ''w1'' ''a1'' []) demo_idle)"

lemma demo_reconciled:
  "fst (reconcile_pending_attempts demo_env ''m1'' demo_plan (load_task_state ''m1'' demo_resumed) demo_resumed)
     = Inr (Some (Advanced ''reconciled pending attempts''))"
  by code_simp

theorem reconcile_settles_running_witness:
  "\<exists>r pj'. reconcile_pending_attempts demo_env ''m1'' demo_plan (load_task_state ''m1'' demo_resumed) demo_resumed = (Inr r, pj')
     \<and> status_of (load_task_state ''m1'' pj') ''w1'' = Cleared
     \<and> persisted_done (mission_of ''m1'' demo_resumed) (load_task_state ''m1'' demo_resumed) ''w1''
     \<and> \<not> current_stop stop_marked (load_task_state ''m1'' demo_resumed) (sup_view ''m1'' demo_resumed) ''w1''"
proof -
  have "ss_receipts (sup_view ''m1'' demo_resumed) = []" "ss_snapshots (sup_view ''m1'' demo_resumed) = []" by code_simp+
  then have calm: "\<not> current_stop stop_marked (load_task_state ''m1'' demo_resumed) (sup_view ''m1'' demo_resumed) ''w1''"
    by (simp add: current_stop_def stop_marked_def stop_recorded_def)
  have "(case last_attempt_of (load_task_state ''m1'' demo_resumed) ''w1'' of None \<Rightarrow> False | Some a \<Rightarrow>
      (case read_attempt (mission_of ''m1'' demo_resumed) a ''w1'' of Inr (Some h) \<Rightarrow> h_done h | _ \<Rightarrow> False))"
    by code_simp
  then have handed: "persisted_done (mission_of ''m1'' demo_resumed) (load_task_state ''m1'' demo_resumed) ''w1''"
    by (auto simp: persisted_done_def split: option.splits sum.splits)
  obtain pj' where run: "reconcile_pending_attempts demo_env ''m1'' demo_plan (load_task_state ''m1'' demo_resumed) demo_resumed
      = (Inr (Some (Advanced ''reconciled pending attempts'')), pj')"
    using demo_reconciled by (metis prod.collapse)
  have running: "status_of (load_task_state ''m1'' demo_resumed) ''w1'' = Running" by code_simp
  have gates: "list_all (\<lambda>t. status_of (load_task_state ''m1'' demo_resumed) (t_id t) \<noteq> Running \<or> t_type t \<noteq> Gate) demo_plan"
    by code_simp
  have "distinct (map t_id demo_plan)" by code_simp
  from reconcile_settles_running [OF run this gates] running
  show ?thesis using run calm handed by (auto simp: demo_plan_def demo_work_def settled_from_disk_def split: if_splits)
qed

definition demo_finished :: project where
  "demo_finished = demo_project (map (\<lambda>n. (n, \<lparr>e_status = Cleared, e_last_attempt = None\<rparr>)) [''w1'', ''v1'', ''g1'', ''w2'']) demo_idle"

lemma demo_closed: "fst (close_mission demo_env ''m1'' demo_finished) = Inr (Terminal ''done'')"
  by code_simp

theorem close_mission_at_rest_witness:
  "\<exists>pj' report. close_mission demo_env ''m1'' demo_finished = (Inr (Terminal ''done''), pj') \<and> tr_done report
     \<and> p_state pj' = Some Done \<and> m_closeout (mission_of ''m1'' pj') = Some (''done'', closeout_text report)"
proof -
  obtain pj' where run: "close_mission demo_env ''m1'' demo_finished = (Inr (Terminal ''done''), pj')"
    using demo_closed by (metis prod.collapse)
  have "m_tasks (mission_of ''m1'' demo_finished) = Some demo_plan"
    by (simp add: demo_finished_def demo_project_def mission_of_def)
  from close_mission_at_rest [OF run this] run show ?thesis by blast
qed

end
