(* ===== verification/Controller_Proofs.thy ===== *)
theory Controller_Proofs
  imports Controller Coordinator_Theorems
begin

text \<open>
  The tools as steps on the project: which state each leaves, what the queue shows afterwards, and what
  a batch of decisions may touch.
\<close>

section \<open>Effects of the controller\<close>

lemma keeps_lifted [keeps_intros]: "keeps I m \<Longrightarrow> keeps I (lifted m)"
  unfolding keeps_def lifted_def by (simp add: split_beta)

lemma keeps_handling [keeps_intros]: "keeps I m \<Longrightarrow> (\<And>e. keeps I (h e)) \<Longrightarrow> keeps I (handling m h)"
  unfolding keeps_def handling_def by (fastforce split: prod.splits sum.splits)

lemma keeps_with_access [keeps_intros]: "keeps I m \<Longrightarrow> keeps I (with_access ce m)"
  unfolding with_access_def by (intro keeps_intros)

lemma keeps_sync [keeps_intros]: "keeps I (sync_surfaces ce)"
  unfolding sync_surfaces_def by (intro keeps_intros)

lemma keeps_supervising [keeps_intros]: "keeps I m \<Longrightarrow> keeps I (supervising text m)"
  unfolding supervising_def by (intro keeps_intros)

lemma lifted_cases:
  assumes "lifted m pj = (x, pj')"
  obtains y where "m pj = (y, pj')" "x = map_sum Uncaught id y"
  using assms by (cases "m pj") (auto simp: lifted_def)

text \<open>A state is read first: what follows need only be right for that state.\<close>

lemma keeps_require_state:
  assumes "\<And>pj st. I pj \<Longrightarrow> p_state pj = Some st \<Longrightarrow> I (snd (f st pj))"
  shows "keeps I (andthen require_state f)"
proof (rule keepsI)
  fix pj assume "I pj"
  then show "I (snd (andthen require_state f pj))"
    using assms by (cases "p_state pj") (auto simp: require_state_def andthen_def reads_def ret_def throw_def)
qed

section \<open>The queue is always shown\<close>

definition queue_shown :: "project \<Rightarrow> bool" where
  "queue_shown pj \<longleftrightarrow> (case p_state pj of
     Some (AttentionNeeded items) \<Rightarrow> p_attention pj \<noteq> [] \<and> items = public_attention_items (p_attention pj)
   | _ \<Rightarrow> p_attention pj = [])"

lemma quiet_shown: "queue_shown pj \<Longrightarrow> quiet (p_state pj) (p_attention pj) pj' \<Longrightarrow> queue_shown pj'"
  by (auto simp: queue_shown_def quiet_def split: option.splits project_state.splits)

lemma keeps_quiet_shown: "(\<And>st queue. keeps (quiet st queue) m) \<Longrightarrow> keeps queue_shown m"
proof (rule keepsI)
  fix pj assume m: "\<And>st queue. keeps (quiet st queue) m" and pj: "queue_shown pj"
  have "quiet (p_state pj) (p_attention pj) pj" by (simp add: quiet_def)
  from quiet_shown[OF pj keepsD[OF m this]] show "queue_shown (snd (m pj))" .
qed

lemma outcome_shown:
  assumes "outcome_ok (Some (MissionRunning mid)) [] r pj'"
  shows "queue_shown pj'"
  using assms by (auto simp: outcome_ok_def queue_shown_def quiet_def split: step_result.splits)

text \<open>The roles leave the state and the queue alone.\<close>

definition roles_quiet :: "env \<Rightarrow> bool" where
  "roles_quiet env \<longleftrightarrow> (\<forall>mid st queue. roles_keep env mid (quiet st queue))"

lemma settles_shown:
  assumes m: "settles (Some (MissionRunning mid)) [] m" and pj: "queue_shown pj" "p_state pj = Some (MissionRunning mid)"
  shows "queue_shown (snd (m pj))"
proof -
  have q: "quiet (Some (MissionRunning mid)) [] pj" using pj by (simp add: queue_shown_def quiet_def)
  obtain x pj' where run: "m pj = (x, pj')" by fastforce
  show ?thesis
  proof (cases x)
    case (Inl e)
    then have "quiet (Some (MissionRunning mid)) [] pj'" using tripleD_Inl[OF m q] run by simp
    then show ?thesis using run by (simp add: queue_shown_def quiet_def)
  next
    case (Inr r)
    then show ?thesis using tripleD_Inr[OF m q] run outcome_shown by simp
  qed
qed

lemma step_shown: "roles_quiet env \<Longrightarrow> keeps queue_shown (step env)"
proof (rule keepsI)
  fix pj assume roles: "roles_quiet env" and pj: "queue_shown pj"
  show "queue_shown (snd (step env pj))"
  proof (cases "\<exists>mid. p_state pj = Some (MissionRunning mid)")
    case True
    then obtain mid where mid: "p_state pj = Some (MissionRunning mid)" by blast
    have "settles (Some (MissionRunning mid)) [] (step_mission env mid)"
      using roles by (intro step_mission_settles) (simp add: roles_quiet_def)
    from settles_shown[OF this pj mid] show ?thesis using mid by (simp add: step_def andthen_reads)
  next
    case False
    then show ?thesis using pj
      by (auto simp: step_def andthen_reads ret_def split: option.split project_state.split)
  qed
qed

lemma advance_loop_keeps [keeps_intros]: "keeps I (step (ce_env ce)) \<Longrightarrow> keeps I (advance_loop ce max_steps fuel steps)"
proof (induction fuel arbitrary: steps)
  case (Suc fuel)
  then show ?case by (auto intro!: keeps_intros split: step_result.split)
qed (simp add: keeps_intros)

lemma advance_shown: "roles_quiet (ce_env ce) \<Longrightarrow> keeps queue_shown (advance_project ce max_steps)"
  unfolding advance_project_def
  by (intro keeps_with_access keeps_andthen keeps_reads keeps_sync advance_loop_keeps step_shown keeps_ret)
    (auto intro!: keeps_intros keeps_quiet_shown quiet.reconcile_denials_keeps split: option.split project_state.split)

lemma submit_shown: "keeps queue_shown (submit_plan ce tks)"
  unfolding submit_plan_def
  by (rule keeps_with_access, rule keeps_require_state, rename_tac pj st, case_tac st)
    (auto simp: andthen_def reads_def throw_def modifies_def ret_def queue_shown_def Let_def
        save_task_list_def save_task_state_def save_contract_state_def save_state_def)

lemma closing_shown: "roles_quiet env \<Longrightarrow> queue_shown pj \<Longrightarrow> p_state pj = Some (MissionRunning m) \<Longrightarrow>
  queue_shown (snd (close_mission env mid pj))"
proof -
  assume roles: "roles_quiet env" and pj: "queue_shown pj" and m: "p_state pj = Some (MissionRunning m)"
  have "settles (Some (MissionRunning m)) [] (close_mission env mid)"
    using roles by (intro closing_settles) (simp add: roles_quiet_def)
  from settles_shown[OF this pj m] show ?thesis .
qed

lemma close_for_end_snd: "snd (close_for_end ce mid pj) = snd (close_mission (ce_env ce) mid pj)"
  by (auto simp: close_for_end_def andthen_def handling_def lifted_def throw_def ret_def
      split: prod.splits sum.splits step_result.splits)

lemma end_shown:
  assumes "roles_quiet (ce_env ce)"
  shows "keeps queue_shown (end_mission ce roots)"
  unfolding end_mission_def
  by (rule keeps_with_access, rule keeps_require_state, rename_tac pj st, case_tac st)
    (simp_all add: throw_def close_for_end_snd closing_shown[OF assms] split: sum.split)

section \<open>Decisions\<close>

text \<open>The checks write nothing.\<close>

lemma for_each_tries:
  "for_each xs (\<lambda>x. tries (f x)) pj = ((case find (\<lambda>x. isl (f x pj)) xs of None \<Rightarrow> Inr () | Some x \<Rightarrow> Inl (projl (f x pj))), pj)"
proof (induction xs)
  case (Cons x xs)
  then show ?case by (cases "f x pj") (simp_all add: andthen_def tries_def)
qed (simp add: ret_def)

lemma apply_one_quiet: "keeps (quiet st queue) (apply_one it d)"
  unfolding apply_one_def apply_task_list_patch_def reopen_patched_def seal_and_plan_next_def set_node_def Let_def
  by (auto intro!: keeps_intros split: action_name.split option.split prod.split
      simp: quiet_def save_task_list_def save_task_state_def save_contract_state_def seal_mission_def)

lemma apply_each_quiet: "keeps (quiet st queue) (apply_each ds nxt)"
  by (induction ds arbitrary: nxt) (auto intro!: keeps_intros apply_one_quiet)

text \<open>No decision leads to a state that needs attention, is done or failed.\<close>

definition decided :: "project_state option \<Rightarrow> bool" where
  "decided st \<longleftrightarrow> st \<noteq> Some Done \<and> (\<forall>items. st \<noteq> Some (AttentionNeeded items)) \<and> (\<forall>why. st \<noteq> Some (ProjectFailed why))"

lemma apply_one_decided: "apply_one it d pj = (Inr st, pj') \<Longrightarrow> decided st"
  by (cases "d_action d")
    (auto simp: apply_one_def decided_def Let_def seal_and_plan_next_def throw_def elim!: run_elims dest!: run_dests split: if_splits option.splits)

lemma apply_each_decided: "apply_each ds nxt pj = (Inr st, pj') \<Longrightarrow> decided nxt \<Longrightarrow> decided st"
proof (induction ds arbitrary: nxt pj)
  case (Cons itd ds)
  obtain it d where itd: "itd = (it, d)" by fastforce
  from Cons.prems(1) obtain outcome pj1 where one: "apply_one it d pj = (Inr outcome, pj1)"
    and rest: "apply_each ds (case outcome of None \<Rightarrow> nxt | Some st \<Rightarrow> Some st) pj1 = (Inr st, pj')"
    unfolding itd by (auto elim!: run_elims)
  have "decided (case outcome of None \<Rightarrow> nxt | Some st \<Rightarrow> Some st)"
    using apply_one_decided[OF one] Cons.prems(2) by (cases outcome) simp_all
  then show ?case by (rule Cons.IH[OF rest])
qed (auto dest: run_dests)

lemma default_decided [simp]: "decided (Some (default_state current))" "default_state current \<noteq> AttentionNeeded items"
  unfolding decided_def by (simp_all add: default_state_def split: option.split)

lemma draft_one_next:
  assumes "draft_one mid pj itd dr = Inr dr'" "decided (dr_next dr)"
  shows "decided (dr_next dr')"
  using assms by (cases itd; cases "d_action (snd itd)")
    (auto simp: draft_one_def draft_patch_def decided_def Let_def split: option.splits prod.splits if_splits sum.splits)

lemma draft_all_next: "draft_all mid pj ds dr = Inr dr' \<Longrightarrow> decided (dr_next dr) \<Longrightarrow> decided (dr_next dr')"
  by (induction ds arbitrary: dr) (auto split: sum.splits dest: draft_one_next)

lemma plan_batch_InrE:
  assumes "plan_batch ds items pairs pj = Inr images"
  obtains mid tks edges dr where "remdups (map a_mission_id items) = [mid]" "m_tasks (mission_of mid pj) = Some tks"
    "batch_lineage mid ds pj = Inr edges" "draft_all mid pj pairs (start_draft mid tks pj) = Inr dr"
    "images = install_batch mid dr edges (next_decision_number pj) ds items"
  using assms unfolding plan_batch_def
  by (auto simp: load_task_list_def Let_def split: list.splits sum.splits option.splits if_splits)

lemma install_shown: "decided (dr_next dr) \<Longrightarrow> queue_shown (install_batch mid dr edges n ds items pj)"
  by (auto simp: install_batch_def queue_shown_def save_state_def save_attention_def decided_def
      split: option.split project_state.split)

lemma plan_batch_queue: "plan_batch ds items pairs pj = Inr images \<Longrightarrow> p_attention (images pj') = []"
  by (erule plan_batch_InrE) (simp add: install_batch_def save_state_def save_attention_def)

lemma plan_batch_shown: "plan_batch ds items pairs pj = Inr images \<Longrightarrow> queue_shown (images pj')"
  by (erule plan_batch_InrE) (auto intro!: install_shown dest!: draft_all_next simp: start_draft_def decided_def)

lemma transactional_shown:
  "keeps queue_shown (apply_transactional_decisions ce ds items pairs)"
proof (rule keepsI)
  fix pj assume "queue_shown pj"
  then show "queue_shown (snd (apply_transactional_decisions ce ds items pairs pj))"
    unfolding apply_transactional_decisions_def commit_batch_def
    by (auto simp: andthen_def tries_def modifies_def throw_def ret_def plan_batch_shown for_each_tries case_prod_unfold
        split: prod.splits sum.splits commit_outcome.splits option.splits)
qed

lemma install_decided: "decided (dr_next dr) \<Longrightarrow> decided (p_state (install_batch mid dr edges n ds items pj))"
  by (cases "dr_next dr") (simp_all add: install_batch_def save_state_def)

lemma plan_batch_decided:
  assumes "plan_batch ds items pairs pj = Inr images"
  shows "decided (p_state (images pj'))"
proof (rule plan_batch_InrE[OF assms])
  fix mid tks edges dr
  assume draft: "draft_all mid pj pairs (start_draft mid tks pj) = Inr dr"
    and images: "images = install_batch mid dr edges (next_decision_number pj) ds items"
  have "decided (dr_next dr)" by (rule draft_all_next[OF draft]) (simp add: start_draft_def decided_def)
  then show ?thesis unfolding images by (rule install_decided)
qed

text \<open>A batch of decisions leaves the state and the queue alone or decides all of it.\<close>

definition decided_from :: "project \<Rightarrow> project \<Rightarrow> bool" where
  "decided_from pj pj' \<longleftrightarrow> quiet (p_state pj) (p_attention pj) pj' \<or> p_attention pj' = [] \<and> decided (p_state pj')"

lemma apply_decisions_result:
  assumes "apply_decisions pairs pj = (x, pj')"
  shows "quiet (p_state pj) (p_attention pj) pj' \<and> (\<forall>st. x = Inr st \<longrightarrow> decided (Some st))"
proof -
  have pj: "quiet (p_state pj) (p_attention pj) pj" by (simp add: quiet_def)
  have "keeps (quiet (p_state pj) (p_attention pj)) (apply_decisions pairs)"
    unfolding apply_decisions_def by (intro keeps_intros apply_each_quiet)
  from keeps_result[OF this pj assms] have "quiet (p_state pj) (p_attention pj) pj'" .
  moreover have "decided (Some st)" if "x = Inr st" for st
    using assms that unfolding apply_decisions_def
    by (auto elim!: run_elims dest!: run_dests apply_each_decided split: option.splits) (auto simp: decided_def)
  ultimately show ?thesis by blast
qed

lemma transactional_decided: "decided_from pj (snd (apply_transactional_decisions ce ds items pairs pj))"
  unfolding apply_transactional_decisions_def commit_batch_def decided_from_def
  by (auto simp: andthen_def tries_def modifies_def throw_def ret_def quiet_def for_each_tries case_prod_unfold
      plan_batch_decided plan_batch_queue split: prod.splits sum.splits commit_outcome.splits option.splits)

definition decision_pairs :: "decision list \<Rightarrow> project \<Rightarrow> (attention_item \<times> decision) list" where
  "decision_pairs ds pj = map (\<lambda>d. (the (item_by_id (p_attention pj) (d_item_id d)), d)) ds"

definition accepted :: "decision list \<Rightarrow> project \<Rightarrow> bool" where
  "accepted ds pj \<longleftrightarrow> (\<exists>items. p_state pj = Some (AttentionNeeded items)) \<and> validate_decisions ds (p_attention pj) = []
     \<and> find (\<lambda>(it, d). isl (check_provider_decision it d pj)) (decision_pairs ds pj) = None"

lemma checks_pass: "(\<forall>(it, d) \<in> set pairs. check_provider_decision it d pj = Inr ())
    \<longleftrightarrow> find (\<lambda>(it, d). isl (check_provider_decision it d pj)) pairs = None"
proof -
  have "check_provider_decision it d pj = Inr () \<longleftrightarrow> \<not> isl (check_provider_decision it d pj)" for it d
    by (cases "check_provider_decision it d pj") simp_all
  then show ?thesis unfolding find_None_iff by (simp add: case_prod_unfold Ball_def)
qed

lemma decide_cases:
  obtains (refused) "snd (decide_attention ce ds pj) = pj"
  | (patch) "accepted ds pj"
      "snd (decide_attention ce ds pj) = snd (apply_transactional_decisions ce ds (p_attention pj) (decision_pairs ds pj) pj)"
  | (plain) x pj1 where "accepted ds pj" "\<not> list_ex (\<lambda>d. d_action d = Patch) ds" "apply_decisions (decision_pairs ds pj) pj = (x, pj1)"
      "snd (decide_attention ce ds pj) = (case x of Inl e \<Rightarrow> pj1
         | Inr next_state \<Rightarrow> save_state next_state (save_attention [] (append_decision_record ds (p_attention pj) pj1)))"
proof (cases "ce_access ce = None \<and> accepted ds pj")
  case False
  then have "snd (decide_attention ce ds pj) = pj"
    by (auto simp: decide_attention_def with_access_def require_state_def andthen_def reads_def ret_def throw_def Let_def
        accepted_def decision_pairs_def for_each_tries case_prod_unfold split: option.split project_state.split)
  then show ?thesis by (rule refused)
next
  case True
  then obtain items where st: "p_state pj = Some (AttentionNeeded items)" by (auto simp: accepted_def)
  have eq: "decide_attention ce ds pj = (if list_ex (\<lambda>d. d_action d = Patch) ds
      then apply_transactional_decisions ce ds (p_attention pj) (decision_pairs ds pj) pj
      else andthen (apply_decisions (decision_pairs ds pj)) (\<lambda>next_state.
         block [modifies (append_decision_record ds (p_attention pj)), modifies (save_attention []), modifies (save_state next_state)]) pj)"
    using True st unfolding accepted_def
    by (simp add: decide_attention_def with_access_def require_state_def andthen_def[of "reads _"] reads_def ret_def Let_def
        andthen_def[of "andthen _ _"] andthen_def[of "for_each _ _"] for_each_tries case_prod_unfold
        decision_pairs_def)
  show ?thesis
  proof (cases "list_ex (\<lambda>d. d_action d = Patch) ds")
    case patches: True
    then show ?thesis using eq True by (intro patch) simp_all
  next
    case False
    obtain x pj1 where run: "apply_decisions (decision_pairs ds pj) pj = (x, pj1)" by fastforce
    show ?thesis using eq False True by (intro plain[OF _ False run]) (simp_all add: andthen_def run modifies_def ret_def split: sum.split)
  qed
qed

lemma decide_result:
  shows "decided_from pj (snd (decide_attention ce ds pj))"
    and "\<nexists>items. p_state pj = Some (AttentionNeeded items) \<Longrightarrow> snd (decide_attention ce ds pj) = pj"
proof -
  show "decided_from pj (snd (decide_attention ce ds pj))"
  proof (rule decide_cases[of ce ds pj])
    fix x pj1
    assume run: "apply_decisions (decision_pairs ds pj) pj = (x, pj1)"
      and after: "snd (decide_attention ce ds pj) = (case x of Inl e \<Rightarrow> pj1
         | Inr next_state \<Rightarrow> save_state next_state (save_attention [] (append_decision_record ds (p_attention pj) pj1)))"
    show ?thesis using apply_decisions_result[OF run] unfolding after
      by (auto simp: decided_from_def save_attention_def save_state_def split: sum.split)
  next
    assume "snd (decide_attention ce ds pj) = pj"
    then show ?thesis by (simp add: decided_from_def quiet_def)
  next
    assume "snd (decide_attention ce ds pj) = snd (apply_transactional_decisions ce ds (p_attention pj) (decision_pairs ds pj) pj)"
    then show ?thesis by (simp only: transactional_decided)
  qed
  show "snd (decide_attention ce ds pj) = pj" if "\<nexists>items. p_state pj = Some (AttentionNeeded items)"
    using that by (rule_tac decide_cases[of ce ds pj]) (auto simp: accepted_def)
qed

lemma empty_shown: "p_attention pj = [] \<Longrightarrow> decided (p_state pj) \<or> (\<exists>why. p_state pj = Some (Aborted why)) \<Longrightarrow> queue_shown pj"
  by (auto simp: queue_shown_def decided_def split: option.split project_state.split)

lemma decide_shown: "keeps queue_shown (decide_attention ce ds)"
proof (rule keepsI)
  fix pj assume "queue_shown pj"
  then show "queue_shown (snd (decide_attention ce ds pj))"
    using decide_result(1)[of pj ce ds] unfolding decided_from_def by (metis quiet_shown empty_shown)
qed

section \<open>Aborting and steering\<close>

lemma abort_result:
  "snd (abort_project ce reason pj) = pj \<or>
   p_attention (snd (abort_project ce reason pj)) = [] \<and> p_state (snd (abort_project ce reason pj)) = Some (Aborted reason)"
  by (auto simp: abort_project_def with_access_def throw_def andthen_def reads_def modifies_def ret_def save_state_def
      save_attention_def split: option.split)

lemma abort_shown: "keeps queue_shown (abort_project ce reason)"
proof (rule keepsI)
  fix pj assume "queue_shown pj"
  then show "queue_shown (snd (abort_project ce reason pj))"
    using abort_result[of ce reason pj] empty_shown by metis
qed

lemma on_supervision_quiet: "keeps (quiet st queue) (on_supervision mid m)"
  by (rule keepsI) (simp add: on_supervision_def quiet_def split: prod.split)

lemma steering_quiet:
  "keeps (quiet st queue) (steer ce rq supported)" "keeps (quiet st queue) (report_supervision_checkpoint ce s)"
  unfolding steer_def report_supervision_checkpoint_def Let_def
  by (auto intro!: keeps_intros on_supervision_quiet)

definition attention_shown :: "project \<Rightarrow> bool" where
  "attention_shown pj \<longleftrightarrow> p_attention pj \<noteq> [] \<and> p_state pj = Some (AttentionNeeded (public_attention_items (p_attention pj)))"

abbreviation may_stop :: "project_state option \<Rightarrow> attention_item list \<Rightarrow> unit ctl_eff \<Rightarrow> bool" where
  "may_stop st queue m \<equiv> triple (quiet st queue) m (\<lambda>_ pj. quiet st queue pj \<or> attention_shown pj)
     (\<lambda>_ pj. quiet st queue pj \<or> attention_shown pj)"

lemma may_stop_after: "keeps (quiet st queue) m \<Longrightarrow> (\<And>a. may_stop st queue (f a)) \<Longrightarrow> may_stop st queue (andthen m f)"
  by (rule triple_andthen [where R = "\<lambda>_. quiet st queue"]) (auto intro: triple_conseq [OF keeps_triple])

lemma may_stop_throw: "may_stop st queue (throw e)"
  by (rule triple_throw) simp

lemma fail_node_quiet: "keeps (quiet st queue) (fail_node mid node)"
  unfolding fail_node_def set_node_def
  by (auto intro!: keeps_intros split: option.split simp: quiet_def save_task_state_def)

lemma may_stop_block:
  assumes "items \<noteq> []"
  shows "may_stop st queue (block [modifies (save_attention items), fail_node mid node, show_queue items])"
    "items = queue \<Longrightarrow> may_stop st queue (block [fail_node mid node, show_queue items])"
  using assms
  by (cases node; auto intro!: tripleI simp: andthen_def modifies_def ret_def fail_node_def set_node_def reads_def show_queue_def
      attention_shown_def quiet_def save_attention_def save_state_def save_task_state_def)+

lemma stop_item_quiet: "keeps (quiet st queue) (stop_item ce s text)"
  unfolding stop_item_def lift_item_def by (intro keeps_intros)

lemma may_stop_queue: "may_stop st queue (f queue) \<Longrightarrow> may_stop st queue (andthen (reads p_attention) f)"
  unfolding triple_def andthen_def reads_def by (simp add: quiet_def)

lemma filter_nonempty: "filter P xs = y # ys \<Longrightarrow> xs \<noteq> []"
  by auto

lemma complete_stop_result: "may_stop st queue (complete_stop ce b text s)"
  unfolding complete_stop_def
proof (rule may_stop_queue, intro triple_if may_stop_throw may_stop_after keeps_lifted keeps_tries on_supervision_quiet stop_item_quiet)
  show "may_stop st queue (case filter (same_stop_item b) queue of
         [] \<Rightarrow>
           andthen (stop_item ce s text) (\<lambda>it.
           block [modifies (save_attention (queue @ [it])), fail_node (b_mission b) (sn_node s), show_queue (queue @ [it])])
       | [_] \<Rightarrow> block [fail_node (b_mission b) (sn_node s), show_queue queue]
       | _ \<Rightarrow> throw (Tool_Error ''stop_handoff_integrity_error'' ''cooperative stop has duplicate attention'' []))"
  proof (cases "filter (same_stop_item b) queue")
    case Nil
    show ?thesis unfolding Nil list.case
      by (rule may_stop_after, rule stop_item_quiet, rule may_stop_block) simp
  next
    case (Cons it its)
    have "queue \<noteq> []" using Cons by (rule filter_nonempty)
    then show ?thesis using Cons by (cases its) (auto intro: may_stop_block may_stop_throw simp del: block.simps)
  qed
  show "may_stop st queue (block [modifies (save_attention (queue @ [it])), fail_node (b_mission b) (sn_node s), show_queue (queue @ [it])])" for it
    by (rule may_stop_block) simp
qed

lemma stop_result: "may_stop st queue (complete_cooperative_stop ce b text)"
  unfolding complete_cooperative_stop_def with_access_def supervising_def
  by (auto intro!: may_stop_throw may_stop_after keeps_handling keeps_lifted keeps_throw keeps_tries on_supervision_quiet
      complete_stop_result split: option.split)

lemma stop_shown: "keeps queue_shown (complete_cooperative_stop ce b text)"
proof (rule keepsI)
  fix pj assume pj: "queue_shown pj"
  have start: "quiet (p_state pj) (p_attention pj) pj" by (simp add: quiet_def)
  have "quiet (p_state pj) (p_attention pj) (snd (complete_cooperative_stop ce b text pj))
      \<or> attention_shown (snd (complete_cooperative_stop ce b text pj))"
    using start stop_result [of "p_state pj" "p_attention pj" ce b "text"] unfolding triple_def
    by (fastforce split: prod.splits sum.splits)
  then show "queue_shown (snd (complete_cooperative_stop ce b text pj))"
    using quiet_shown [OF pj] by (auto simp: attention_shown_def queue_shown_def)
qed

section \<open>The tools as steps\<close>

text \<open>One call of a tool, whether it returns or raises, with any arguments and any environment whose roles leave
  the state and the queue alone; and a step of any tool or of a completed stop.\<close>

inductive tool_step :: "project \<Rightarrow> project \<Rightarrow> bool" where
  submit: "tool_step pj (snd (submit_plan ce tks pj))"
| advance: "roles_quiet (ce_env ce) \<Longrightarrow> tool_step pj (snd (advance_project ce max_steps pj))"
| end_mission: "roles_quiet (ce_env ce) \<Longrightarrow> tool_step pj (snd (end_mission ce roots pj))"
| decide: "tool_step pj (snd (decide_attention ce ds pj))"
| abort: "tool_step pj (snd (abort_project ce reason pj))"
| inspect: "tool_step pj (snd (inspect_project ce pj))"
| steer: "tool_step pj (snd (steer ce rq supported pj))"
| report: "tool_step pj (snd (report_supervision_checkpoint ce s pj))"

inductive ctl_step :: "project \<Rightarrow> project \<Rightarrow> bool" where
  tool: "tool_step pj pj' \<Longrightarrow> ctl_step pj pj'"
| stop: "ctl_step pj (snd (complete_cooperative_stop ce b text pj))"

lemma inspect_keeps: "keeps I (inspect_project ce)"
  unfolding inspect_project_def by (intro keeps_intros)

lemma tool_step_shown: "tool_step pj pj' \<Longrightarrow> queue_shown pj \<Longrightarrow> queue_shown pj'"
  by (induction rule: tool_step.induct)
    (blast intro: keepsD [OF submit_shown] keepsD [OF advance_shown] keepsD [OF end_shown] keepsD [OF decide_shown]
      keepsD [OF abort_shown] keepsD [OF inspect_keeps] keepsD [OF keeps_quiet_shown] steering_quiet)+


section \<open>The life of a project\<close>

inductive moves :: "project_state option \<Rightarrow> project_state option \<Rightarrow> bool" where
  stays: "moves st st"
| planned: "moves (Some (MissionPlanning mid)) (Some (MissionRunning mid))"
| needs_attention: "moves (Some (MissionRunning mid)) (Some (AttentionNeeded items))"
| closed: "moves (Some (MissionRunning mid)) (Some Done)"
| lost: "moves (Some (MissionRunning mid)) (Some (ProjectFailed why))"
| decided: "decided st \<Longrightarrow> moves (Some (AttentionNeeded items)) st"
| aborted: "moves st (Some (Aborted reason))"

definition ran_from :: "project_state option \<Rightarrow> project \<Rightarrow> bool" where
  "ran_from st pj \<longleftrightarrow> p_state pj = st \<or> (\<exists>mid. st = Some (MissionRunning mid)) \<and>
     (p_state pj = Some Done \<or> (\<exists>items. p_state pj = Some (AttentionNeeded items)) \<or> (\<exists>why. p_state pj = Some (ProjectFailed why)))"

lemma ran_from_moves: "ran_from st pj \<Longrightarrow> moves st (p_state pj)"
  by (auto simp: ran_from_def intro: moves.intros)

lemma ran_from_quiet: "(\<And>queue. keeps (quiet (p_state pj) queue) m) \<Longrightarrow> ran_from st pj \<Longrightarrow> ran_from st (snd (m pj))"
proof -
  assume m: "\<And>queue. keeps (quiet (p_state pj) queue) m" and pj: "ran_from st pj"
  have "quiet (p_state pj) (p_attention pj) (snd (m pj))" by (rule keepsD [OF m]) (simp add: quiet_def)
  then show ?thesis using pj by (simp add: ran_from_def quiet_def)
qed

lemma settles_ran:
  assumes m: "settles (Some (MissionRunning mid)) (p_attention pj) m" and pj: "p_state pj = Some (MissionRunning mid)"
  shows "ran_from (Some (MissionRunning mid)) (snd (m pj))"
proof -
  have q: "quiet (Some (MissionRunning mid)) (p_attention pj) pj" using pj by (simp add: quiet_def)
  obtain x pj' where run: "m pj = (x, pj')" by fastforce
  show ?thesis
  proof (cases x)
    case (Inl e)
    then have "quiet (Some (MissionRunning mid)) (p_attention pj) pj'" using tripleD_Inl [OF m q] run by simp
    then show ?thesis using run by (simp add: ran_from_def quiet_def)
  next
    case (Inr r)
    then have "outcome_ok (Some (MissionRunning mid)) (p_attention pj) r pj'" using tripleD_Inr [OF m q] run by simp
    then show ?thesis using run by (auto simp: outcome_ok_def ran_from_def quiet_def split: step_result.splits)
  qed
qed

lemma step_ran: "roles_quiet env \<Longrightarrow> keeps (ran_from st) (step env)"
proof (rule keepsI)
  fix pj assume roles: "roles_quiet env" and pj: "ran_from st pj"
  show "ran_from st (snd (step env pj))"
  proof (cases "\<exists>mid. p_state pj = Some (MissionRunning mid)")
    case True
    then obtain mid where mid: "p_state pj = Some (MissionRunning mid)" by blast
    then have st: "st = Some (MissionRunning mid)" using pj by (simp add: ran_from_def)
    have "settles (Some (MissionRunning mid)) (p_attention pj) (step_mission env mid)"
      using roles by (intro step_mission_settles) (simp add: roles_quiet_def)
    from settles_ran [OF this mid] show ?thesis using mid st by (simp add: step_def andthen_reads)
  next
    case False
    then have "snd (step env pj) = pj" by (auto simp: step_def andthen_reads ret_def split: option.split project_state.split)
    then show ?thesis using pj by simp
  qed
qed

lemma keeps_ran: "(\<And>st queue. keeps (quiet st queue) m) \<Longrightarrow> keeps (ran_from st) m"
  by (rule keepsI, rule ran_from_quiet)

lemma advance_ran: "roles_quiet (ce_env ce) \<Longrightarrow> keeps (ran_from st) (advance_project ce max_steps)"
  unfolding advance_project_def
  by (intro keeps_with_access keeps_andthen keeps_reads keeps_sync advance_loop_keeps step_ran keeps_ret)
    (auto intro!: keeps_intros keeps_ran quiet.reconcile_denials_keeps split: option.split project_state.split)

lemma end_ran:
  assumes "roles_quiet (ce_env ce)"
  shows "ran_from (p_state pj) (snd (end_mission ce roots pj))"
proof -
  have closing: "ran_from (Some (MissionRunning m)) (snd (close_mission (ce_env ce) m pj))" if "p_state pj = Some (MissionRunning m)" for m
    using assms that by (intro settles_ran closing_settles) (simp_all add: roles_quiet_def)
  show ?thesis
    using closing unfolding end_mission_def with_access_def require_state_def
    by (auto simp: andthen_def [of "andthen _ _"] andthen_reads throw_def ret_def close_for_end_snd ran_from_def
        split: option.split project_state.split sum.split)
qed

lemma submit_moves: "moves (p_state pj) (p_state (snd (submit_plan ce tks pj)))"
  unfolding submit_plan_def with_access_def require_state_def
  by (auto simp: andthen_def reads_def throw_def modifies_def ret_def Let_def save_task_list_def save_task_state_def
      save_contract_state_def save_state_def intro: moves.intros split: option.split project_state.split)

lemma quiet_moves: "(\<And>st queue. keeps (quiet st queue) m) \<Longrightarrow> moves (p_state pj) (p_state (snd (m pj)))"
  by (rule ran_from_moves, rule ran_from_quiet) (simp_all add: ran_from_def)


section \<open>Which decisions are accepted\<close>

definition action_allowed :: "attention_item \<Rightarrow> decision \<Rightarrow> bool" where
  "action_allowed it d = (case d_action d of
     Retry \<Rightarrow> a_kind it = Node_failed
   | Next_mission \<Rightarrow> a_kind it = Terminal_review
   | Patch \<Rightarrow> (case d_patch d of None \<Rightarrow> False | Some p \<Rightarrow> \<not> is_empty_patch p)
   | _ \<Rightarrow> True)"

lemma duplicate_decisions_Nil: "duplicate_decisions seen ds = [] \<longleftrightarrow> distinct (map d_item_id ds) \<and> set seen \<inter> d_item_id ` set ds = {}"
  by (induction ds arbitrary: seen) auto

lemma check_action_Nil: "check_action items d = [] \<longleftrightarrow> (case item_by_id items (d_item_id d) of None \<Rightarrow> True | Some it \<Rightarrow> action_allowed it d)"
  by (cases "d_action d") (auto simp: check_action_def action_allowed_def split: option.split)

lemma item_by_id_Some: "item_by_id items i = Some it \<Longrightarrow> it \<in> set items \<and> a_id it = i"
  by (auto simp: item_by_id_def dest!: map_of_SomeD)

text \<open>A batch of decisions is accepted exactly when it decides every open item once and no other, and each
  decision's action is one its item allows: a retry for a failed node, the next mission for a terminal
  review, a patch that is there and not empty, and continue or abort for any item.\<close>

theorem decisions_accepted_iff:
  "validate_decisions ds items = [] \<longleftrightarrow>
     distinct (map d_item_id ds) \<and> set (map d_item_id ds) = set (map a_id items)
     \<and> list_all (\<lambda>d. case item_by_id items (d_item_id d) of None \<Rightarrow> True | Some it \<Rightarrow> action_allowed it d) ds"
proof -
  have "validate_decisions ds items = [] \<longleftrightarrow> (\<forall>i \<in> set (map a_id items). i \<in> set (map d_item_id ds))
      \<and> (\<forall>i \<in> set (map d_item_id ds). i \<in> set (map a_id items)) \<and> distinct (map d_item_id ds)
      \<and> (\<forall>d \<in> set ds. check_action items d = [])"
    by (simp add: validate_decisions_def Let_def filter_empty_conv duplicate_decisions_Nil)
  then show ?thesis by (auto simp: check_action_Nil list_all_iff)
qed

end
