(* ===== verification/Controller_Decisions.thy ===== *)
theory Controller_Decisions
  imports Controller_Proofs Task_List_Patch_Proofs
begin

text \<open>
  What a batch of decisions does to the plan: the tasks an open provider review guards are left alone,
  and the plan stays well formed.  Both walk the decisions one by one; the two ways to apply a batch,
  one file after the other or one transaction, make the same step on the cursor.
\<close>

section \<open>Retiring\<close>

lemma set_retired [simp]: "set (retired_ids p) = set (p_cancel p) \<union> fst ` set (p_supersede p)"
  by (auto simp: retired_ids_def dict_simps)

lemma patched_status_other:
  assumes "apply_patch tks ts contract p on_disk = (tks', ts', contract', [])"
    and "n \<in> t_id ` set tks" "n \<notin> set (retired_ids p)"
  shows "status_of ts' n = status_of ts n"
  using apply_patch_accepted(2,5)[OF assms(1)] assms(2,3) by (auto simp: status_of_patched additions_ok_def)

lemma patched_keeps_ids:
  assumes "apply_patch tks ts contract p on_disk = (tks', ts', contract', [])"
  shows "t_id ` set tks \<subseteq> t_id ` set tks'"
proof -
  have "task_ids tks' = task_ids tks @ task_ids (p_add p)" unfolding apply_patch_accepted(1)[OF assms] by simp
  then have "set (task_ids tks) \<subseteq> set (task_ids tks')" by simp
  then show ?thesis by simp
qed

section \<open>Guarded tasks\<close>

lemma collect_guards_keys:
  "collect_guards m tks ts keys guards = Inr gs \<Longrightarrow> set (dict_keys gs) \<subseteq> set (dict_keys guards) \<union> snd ` set keys"
proof (induction keys arbitrary: guards)
  case (Cons key keys)
  show ?case
  proof (cases "guard_of m tks ts key")
    case (Inr found)
    show ?thesis
    proof (cases found)
      case None
      then show ?thesis using Cons.IH[of guards] Cons.prems Inr by auto
    next
      case (Some attempt)
      then have "collect_guards m tks ts keys (dict_put (snd key) attempt guards) = Inr gs"
        using Cons.prems Inr by (simp split: if_splits)
      from Cons.IH[OF this] show ?thesis by (auto simp: dict_simps)
    qed
  qed (use Cons.prems in simp)
qed simp

lemma guards_are_tasks:
  assumes "mission_guards mid pj = Inr guards" "n \<in> set guards" "m_tasks (mission_of mid pj) = Some tks"
  shows "n \<in> t_id ` set tks"
proof -
  let ?m = "mission_of mid pj" and ?ts = "load_task_state mid pj"
  have owned: "\<not> list_ex (\<lambda>(attempt, node). node \<notin> t_id ` set tks) (map fst (m_carriers ?m))"
    and "\<exists>gs. collect_guards ?m tks ?ts (sort (map fst (m_carriers ?m))) [] = Inr gs \<and> guards = dict_keys gs"
    using assms(1,3) unfolding mission_guards_def load_task_list_def provider_replay_guards_def
    by (simp_all split: sum.splits if_splits)
  then obtain gs where "collect_guards ?m tks ?ts (sort (map fst (m_carriers ?m))) [] = Inr gs" "guards = dict_keys gs" by blast
  from collect_guards_keys[OF this(1)] this(2) assms(2) have "n \<in> snd ` set (map fst (m_carriers ?m))"
    by (simp only: set_sort dict_simps list.map list.set image_empty Un_empty_left subset_iff)
  then show ?thesis using owned unfolding list_ex_iff by fastforce
qed

text \<open>A decision that passes the check leaves a guarded task of the mission alone.\<close>

definition spares :: "string list \<Rightarrow> attention_item \<Rightarrow> decision \<Rightarrow> bool" where
  "spares guards it d \<longleftrightarrow> (case d_patch d of None \<Rightarrow> True | Some p \<Rightarrow> \<not> list_ex (\<lambda>i. i \<in> set guards) (retired_ids p))
     \<and> (guarded_item guards it \<longrightarrow> d_action d \<in> {Abort, Patch})"

lemma checked_spares:
  "check_provider_decision it d pj = Inr () \<Longrightarrow> mission_guards (a_mission_id it) pj = Inr guards \<Longrightarrow> spares guards it d"
  by (simp add: check_provider_decision_def spares_def split: if_splits option.splits)

lemma guarded_node: "n \<in> set guards \<Longrightarrow> \<not> guarded_item guards it \<Longrightarrow> node_of_item it \<noteq> [] \<Longrightarrow> node_of_item it \<noteq> n"
  by (auto simp: guarded_item_def node_of_item_def split: option.splits)

text \<open>An accepted patch of a draft: the patched plan, with the failed task of the item reopened or not.\<close>

lemma draft_patch_InrE:
  assumes "draft_patch mid pj it p dr = Inr dr'"
  obtains tks ts ids where "apply_patch (dr_tasks dr) (dr_state dr) (dict_keys (dr_contract dr)) p
      (Some (filter (\<lambda>a. a \<notin> set (dict_keys (dr_contract dr))) (m_assertions (mission_of mid pj)))) = (tks, ts, ids, [])"
    "dr_tasks dr' = tks" "dr_contract dr' = seed_assertions (filter (\<lambda>a. a \<notin> set (dict_keys (dr_contract dr))) ids) (dr_contract dr)"
    "dr_state dr' = ts \<or> dr_state dr' = set_status (node_of_item it) Pending ts \<and> node_of_item it \<noteq> []
       \<and> node_of_item it \<notin> set (retired_ids p)
       \<and> (\<exists>guards. mission_guards (a_mission_id it) pj = Inr guards \<and> \<not> guarded_item guards it)"
proof -
  obtain tks ts ids errors where run: "apply_patch (dr_tasks dr) (dr_state dr) (dict_keys (dr_contract dr)) p
      (Some (filter (\<lambda>a. a \<notin> set (dict_keys (dr_contract dr))) (m_assertions (mission_of mid pj)))) = (tks, ts, ids, errors)"
    by (metis prod_cases4)
  have "errors = []" using assms unfolding draft_patch_def Let_def run prod.case by (simp split: if_splits)
  with run that[of tks ts ids] assms show ?thesis
    unfolding draft_patch_def Let_def run prod.case by (simp split: if_splits sum.splits) auto
qed

lemma draft_one_spares:
  assumes step: "draft_one mid pj (it, d) dr = Inr dr'" and spares: "spares guards it d"
    and item: "a_mission_id it = mid" and guards: "mission_guards mid pj = Inr guards" "n \<in> set guards"
    and task: "n \<in> t_id ` set (dr_tasks dr)"
  shows "status_of (dr_state dr') n = status_of (dr_state dr) n \<and> n \<in> t_id ` set (dr_tasks dr')"
proof (cases "d_action d = Patch")
  case True
  then obtain p where p: "d_patch d = Some p" and draft: "draft_patch mid pj it p dr = Inr dr'"
    using step by (auto simp: draft_one_def Let_def split: option.splits)
  have kept: "n \<notin> set (retired_ids p)" using spares guards(2) p by (auto simp: spares_def list_ex_iff)
  show ?thesis
  proof (rule draft_patch_InrE[OF draft])
    fix tks ts ids
    assume run: "apply_patch (dr_tasks dr) (dr_state dr) (dict_keys (dr_contract dr)) p
        (Some (filter (\<lambda>a. a \<notin> set (dict_keys (dr_contract dr))) (m_assertions (mission_of mid pj)))) = (tks, ts, ids, [])"
      and after: "dr_tasks dr' = tks" "dr_state dr' = ts \<or> dr_state dr' = set_status (node_of_item it) Pending ts \<and> node_of_item it \<noteq> []
       \<and> node_of_item it \<notin> set (retired_ids p)
       \<and> (\<exists>guards. mission_guards (a_mission_id it) pj = Inr guards \<and> \<not> guarded_item guards it)"
    have "status_of (dr_state dr') n = status_of ts n"
      using after(2) guards item guarded_node[OF guards(2), of it] by (auto simp: status_simps)
    then show ?thesis using patched_status_other[OF run task kept] patched_keeps_ids[OF run] task after(1) by auto
  qed
next
  case False
  then show ?thesis using step spares task guarded_node[OF guards(2), of it]
    by (cases "d_action d") (auto simp: draft_one_def Let_def spares_def status_simps split: if_splits)
qed

lemma draft_all_spares:
  assumes "draft_all mid pj pairs dr = Inr dr'" "\<forall>(it, d) \<in> set pairs. a_mission_id it = mid \<and> spares guards it d"
    and guards: "mission_guards mid pj = Inr guards" "n \<in> set guards" and "n \<in> t_id ` set (dr_tasks dr)"
  shows "status_of (dr_state dr') n = status_of (dr_state dr) n"
  using assms(1,2,5)
proof (induction pairs arbitrary: dr)
  case (Cons itd pairs)
  obtain it d where itd: "itd = (it, d)" by fastforce
  from Cons.prems(1) obtain dr1 where one: "draft_one mid pj (it, d) dr = Inr dr1" and rest: "draft_all mid pj pairs dr1 = Inr dr'"
    by (auto simp: itd split: sum.splits)
  have "spares guards it d" "a_mission_id it = mid" using Cons.prems(2) itd by auto
  from draft_one_spares[OF one this guards Cons.prems(3)] Cons.IH[OF rest] Cons.prems(2) show ?case by simp
qed simp

text \<open>The same for the decisions that are applied one file after the other.\<close>

lemma mission_of_cong: "p_missions pj' = p_missions pj \<Longrightarrow> p_id pj' = p_id pj \<Longrightarrow> mission_of mid pj' = mission_of mid pj"
  by (simp add: mission_of_def split: option.split)

lemma mission_of_records [simp]:
  "mission_of mid (pj\<lparr>p_current := current\<rparr>) = mission_of mid pj"
  "mission_of mid (append_decision_record ds items pj) = mission_of mid pj"
  "mission_of mid (record_decision n ds items pj) = mission_of mid pj"
  by (rule mission_of_cong; simp add: append_decision_record_def record_decision_def)+

lemma mission_of_writes [simp]:
  "mission_of mid (update_mission m f pj) = (if m = mid then f (mission_of mid pj) else mission_of mid pj)"
  by (simp add: mission_of_update_other)

lemma load_task_state_writes [simp]:
  "load_task_state mid (save_task_state m ts pj) = (if m = mid then ts else load_task_state mid pj)"
  "load_task_state mid (seal_mission m status body pj) = load_task_state mid pj"
  "load_task_state mid (pj\<lparr>p_current := current\<rparr>) = load_task_state mid pj"
  by (simp_all add: load_task_state_def save_task_state_def seal_mission_def)

text \<open>What one decision without a patch does to the cursors: it sets the status of the task of its item.\<close>

lemma apply_one_cursor:
  assumes "d_action d \<noteq> Patch"
  obtains "\<And>mid. load_task_state mid (snd (apply_one it d pj)) = load_task_state mid pj"
  | st where "st \<in> {Pending, Cleared}" "d_action d \<in> {Retry, Continue}" "node_of_item it \<noteq> []"
      "\<And>mid. load_task_state mid (snd (apply_one it d pj)) = (if mid = a_mission_id it
         then set_status (node_of_item it) st (load_task_state mid pj) else load_task_state mid pj)"
proof (cases "check_provider_decision it d pj")
  case (Inl e)
  then show ?thesis by (intro that(1)) (simp add: apply_one_def andthen_def tries_def)
next
  case (Inr u)
  note run = apply_one_def Let_def andthen_def tries_def Inr
  show ?thesis
  proof (cases "d_action d")
    case Retry
    show ?thesis
    proof (cases "node_of_item it = []")
      case True
      then show ?thesis using Retry by (intro that(1)) (simp add: run ret_def)
    next
      case False
      then show ?thesis using Retry by (intro that(2)[of Pending]) (simp_all add: run ret_def set_node_def reads_def modifies_def)
    qed
  next
    case Continue
    show ?thesis
    proof (cases "failed_kind it \<and> node_of_item it \<noteq> []")
      case True
      then show ?thesis using Continue by (intro that(2)[of Cleared]) (simp_all add: run ret_def set_node_def reads_def modifies_def)
    next
      case False
      then show ?thesis using Continue by (intro that(1)) (auto simp: run ret_def)
    qed
  next
    case Next_mission
    then show ?thesis by (intro that(1)) (simp add: run ret_def seal_and_plan_next_def reads_def modifies_def)
  qed (use assms in \<open>auto intro!: that(1) simp: run ret_def\<close>)
qed

lemma apply_each_status:
  assumes "\<forall>(it, d) \<in> set pairs. d_action d \<noteq> Patch \<and> (a_mission_id it = mid \<and> node_of_item it = n \<and> n \<noteq> [] \<longrightarrow> d_action d = Abort)"
  shows "status_of (load_task_state mid (snd (apply_each pairs nxt pj))) n = status_of (load_task_state mid pj) n"
  using assms
proof (induction pairs arbitrary: nxt pj)
  case (Cons itd pairs)
  obtain it d where itd: "itd = (it, d)" by fastforce
  have step: "status_of (load_task_state mid (snd (apply_one it d pj))) n = status_of (load_task_state mid pj) n"
    using Cons.prems by (rule_tac apply_one_cursor[of d it pj]) (auto simp: itd status_simps)
  obtain x pj1 where one: "apply_one it d pj = (x, pj1)" by fastforce
  show ?case using step Cons.IH[of _ pj1] Cons.prems by (auto simp: itd andthen_def one split: sum.split)
qed (simp add: ret_def)

lemma apply_decisions_snd: "snd (apply_decisions pairs pj) = snd (apply_each pairs None pj)"
  by (auto simp: apply_decisions_def andthen_def reads_def ret_def split: prod.splits sum.splits option.splits)

lemma install_mission [simp]: "mission_of m (install_batch mid dr edges n ds items pj) = (if m = mid
    then (mission_of m pj)\<lparr>m_tasks := Some (dr_tasks dr), m_cursor := dr_state dr, m_contract := dr_contract dr,
      m_lineage := Lineage_Rows edges, m_closeout := dr_seal dr\<rparr>
    else mission_of m pj)"
  by (simp add: install_batch_def)

text \<open>What a batch with a patch leaves: the project it found, or the images it planned.\<close>

lemma transactional_cases:
  obtains "snd (apply_transactional_decisions ce ds items pairs pj) = pj"
  | images where "plan_batch ds items pairs pj = Inr images" "snd (apply_transactional_decisions ce ds items pairs pj) = images pj"
proof (cases "find (\<lambda>(it, d). isl (check_provider_decision it d pj)) pairs = None \<and> (\<exists>images. plan_batch ds items pairs pj = Inr images)")
  case True
  then obtain images where "plan_batch ds items pairs pj = Inr images" by blast
  moreover have "snd (commit_batch ce images pj) \<in> {pj, images pj}"
    by (auto simp: commit_batch_def andthen_def modifies_def ret_def throw_def split: commit_outcome.split)
  ultimately show ?thesis using True that
    by (auto simp: apply_transactional_decisions_def for_each_tries case_prod_unfold andthen_def tries_def)
next
  case False
  then have "snd (apply_transactional_decisions ce ds items pairs pj) = pj"
    by (cases "plan_batch ds items pairs pj") (auto simp: commit_batch_def apply_transactional_decisions_def for_each_tries case_prod_unfold
        andthen_def tries_def split: option.splits)
  then show ?thesis by (rule that(1))
qed

lemma pair_items:
  assumes "accepted ds pj" "(it, d) \<in> set (decision_pairs ds pj)"
  shows "it \<in> set (p_attention pj)" "a_id it = d_item_id d" "d \<in> set ds" "check_provider_decision it d pj = Inr ()"
    and "action_allowed it d"
proof -
  have valid: "validate_decisions ds (p_attention pj) = []" using assms(1) by (simp add: accepted_def)
  have d: "d \<in> set ds" "it = the (item_by_id (p_attention pj) (d_item_id d))" using assms(2) by (auto simp: decision_pairs_def)
  then have "d_item_id d \<in> set (map a_id (p_attention pj))" using valid unfolding decisions_accepted_iff by auto
  then obtain it' where it': "item_by_id (p_attention pj) (d_item_id d) = Some it'"
    by (cases "item_by_id (p_attention pj) (d_item_id d)") (auto simp: item_by_id_def map_of_eq_None_iff image_image)
  then show "it \<in> set (p_attention pj)" "a_id it = d_item_id d" using item_by_id_Some[OF it'] d(2) by simp_all
  show "d \<in> set ds" by (rule d(1))
  show "check_provider_decision it d pj = Inr ()"
    using assms unfolding accepted_def checks_pass[symmetric] by blast
  show "action_allowed it d" using valid d it' unfolding decisions_accepted_iff list_all_iff by auto
qed

text \<open>C13. Work under an open provider review is never decided away.  A batch of decisions, accepted or
  refused, with or without a patch, leaves the status of every task alone whose last attempt a review
  still guards: no decision retries, continues, cancels or supersedes it.\<close>

theorem guarded_node_untouched:
  assumes guards: "mission_guards mid pj = Inr guards" "n \<in> set guards"
  shows "status_of (load_task_state mid (snd (decide_attention ce ds pj))) n = status_of (load_task_state mid pj) n"
proof (rule decide_cases[of ce ds pj])
  have spared: "spares guards it d" if "accepted ds pj" "(it, d) \<in> set (decision_pairs ds pj)" "a_mission_id it = mid" for it d
    using checked_spares pair_items(4)[OF that(1,2)] that(3) guards(1) by blast
  { fix x pj1
    assume ok: "accepted ds pj" and plain: "\<not> list_ex (\<lambda>d. d_action d = Patch) ds"
      and run: "apply_decisions (decision_pairs ds pj) pj = (x, pj1)"
      and after: "snd (decide_attention ce ds pj) = (case x of Inl e \<Rightarrow> pj1
         | Inr next_state \<Rightarrow> save_state next_state (save_attention [] (append_decision_record ds (p_attention pj) pj1)))"
    have "d_action d \<noteq> Patch \<and> (a_mission_id it = mid \<and> node_of_item it = n \<and> n \<noteq> [] \<longrightarrow> d_action d = Abort)"
      if "(it, d) \<in> set (decision_pairs ds pj)" for it d
    proof -
      have no_patch: "d_action d \<noteq> Patch" using plain pair_items(3)[OF ok that] by (auto simp: list_ex_iff)
      then show ?thesis using spared[OF ok that] guarded_node[OF guards(2), of it] by (auto simp: spares_def)
    qed
    then have "status_of (load_task_state mid (snd (apply_each (decision_pairs ds pj) None pj))) n = status_of (load_task_state mid pj) n"
      by (intro apply_each_status) blast
    moreover have "load_task_state mid (snd (decide_attention ce ds pj)) = load_task_state mid pj1"
      unfolding after by (simp add: load_task_state_def split: sum.split)
    ultimately show ?thesis using apply_decisions_snd[of "decision_pairs ds pj" pj] run by simp }
  assume ok: "accepted ds pj"
    and after: "snd (decide_attention ce ds pj) = snd (apply_transactional_decisions ce ds (p_attention pj) (decision_pairs ds pj) pj)"
  show ?thesis
  proof (rule transactional_cases[of ce ds "p_attention pj" "decision_pairs ds pj" pj])
    fix images
    assume planned: "plan_batch ds (p_attention pj) (decision_pairs ds pj) pj = Inr images"
      and images: "snd (apply_transactional_decisions ce ds (p_attention pj) (decision_pairs ds pj) pj) = images pj"
    show ?thesis
    proof (rule plan_batch_InrE[OF planned])
      fix m tks edges dr
      assume one: "remdups (map a_mission_id (p_attention pj)) = [m]" and tks: "m_tasks (mission_of m pj) = Some tks"
        and draft: "draft_all m pj (decision_pairs ds pj) (start_draft m tks pj) = Inr dr"
        and eq: "images = install_batch m dr edges (next_decision_number pj) ds (p_attention pj)"
      have items: "a_mission_id it = m" if "(it, d) \<in> set (decision_pairs ds pj)" for it d
      proof -
        have "a_mission_id it \<in> set (remdups (map a_mission_id (p_attention pj)))" using pair_items(1)[OF ok that] by simp
        then show ?thesis unfolding one by simp
      qed
      show ?thesis
      proof (cases "m = mid")
        case True
        have "status_of (dr_state dr) n = status_of (dr_state (start_draft m tks pj)) n"
        proof (rule draft_all_spares[OF _ _ guards])
          show "draft_all mid pj (decision_pairs ds pj) (start_draft m tks pj) = Inr dr" using draft True by simp
          show "\<forall>(it, d) \<in> set (decision_pairs ds pj). a_mission_id it = mid \<and> spares guards it d"
            using spared[OF ok] items True by blast
          show "n \<in> t_id ` set (dr_tasks (start_draft m tks pj))"
            using guards_are_tasks[OF guards] tks True by (simp add: start_draft_def)
        qed
        then show ?thesis using True by (simp add: after images eq load_task_state_def start_draft_def)
      qed (simp add: after images eq load_task_state_def)
    qed
  qed (simp add: after)
qed simp

section \<open>The plan stays well formed\<close>

lemma plan_ok_cong:
  assumes "\<And>i. (st i = Superseded) = (st' i = Superseded)" "plan_ok C tks st"
  shows "plan_ok C tks st'"
proof -
  have "owners tks st a = owners tks st' a" for a
    unfolding owners_def using assms(1) by (intro arg_cong[of _ _ concat] map_cong) auto
  then show ?thesis using assms(2) by (simp add: plan_ok_def covered_once_def)
qed

lemma plan_ok_set_status:
  "plan_ok C tks (status_of ts) \<Longrightarrow> status_of ts n \<noteq> Superseded \<Longrightarrow> st \<noteq> Superseded \<Longrightarrow> plan_ok C tks (status_of (set_status n st ts))"
  by (rule plan_ok_cong[of "status_of ts"]) (auto simp: status_simps)

lemma seed_assertions_keys: "set (dict_keys (seed_assertions ids cs)) = set ids \<union> set (dict_keys cs)"
proof -
  have step: "set (dict_keys (dict_setdefault a v cs)) = insert a (set (dict_keys cs))" for a v and cs :: contract_state
    by (cases "map_of cs a") (force simp: dict_setdefault_def dict_simps dest: map_of_SomeD)+
  show ?thesis unfolding seed_assertions_def
  proof (induction ids arbitrary: cs)
    case (Cons a ids)
    show ?case unfolding fold.simps comp_apply Cons.IH step by simp
  qed simp
qed

definition draft_ok :: "draft \<Rightarrow> bool" where
  "draft_ok dr \<longleftrightarrow> plan_ok (set (dict_keys (dr_contract dr))) (dr_tasks dr) (status_of (dr_state dr))"

lemma draft_patch_ok:
  assumes "draft_patch mid pj it p dr = Inr dr'" "node_of_item it \<noteq> [] \<Longrightarrow> status_of (dr_state dr) (node_of_item it) \<noteq> Superseded"
  shows "draft_ok dr' \<and> (status_of (dr_state dr) n \<noteq> Superseded \<and> n \<notin> set (retired_ids p) \<longrightarrow> status_of (dr_state dr') n \<noteq> Superseded)"
proof (rule draft_patch_InrE[OF assms(1)])
  fix tks ts ids
  let ?old = "dict_keys (dr_contract dr)"
  assume run: "apply_patch (dr_tasks dr) (dr_state dr) ?old p
      (Some (filter (\<lambda>a. a \<notin> set ?old) (m_assertions (mission_of mid pj)))) = (tks, ts, ids, [])"
    and tks: "dr_tasks dr' = tks" and contract: "dr_contract dr' = seed_assertions (filter (\<lambda>a. a \<notin> set ?old) ids) (dr_contract dr)"
    and st: "dr_state dr' = ts \<or> dr_state dr' = set_status (node_of_item it) Pending ts \<and> node_of_item it \<noteq> []
       \<and> node_of_item it \<notin> set (retired_ids p)
       \<and> (\<exists>guards. mission_guards (a_mission_id it) pj = Inr guards \<and> \<not> guarded_item guards it)"
  have ts: "status_of ts i \<noteq> Superseded" if "status_of (dr_state dr) i \<noteq> Superseded" "i \<notin> set (retired_ids p)" for i
    using that unfolding apply_patch_accepted(2)[OF run] by (simp add: status_of_patched)
  have "set ?old \<subseteq> set ids" unfolding apply_patch_accepted(3)[OF run] set_patched_contract by blast
  then have "set (dict_keys (dr_contract dr')) = set ids" unfolding contract seed_assertions_keys by auto
  moreover have "plan_ok (set ids) tks (status_of ts)" by (rule apply_patch_accepted(6)[OF run])
  moreover from this have "plan_ok (set ids) tks (status_of (dr_state dr'))"
    using st assms(2) ts plan_ok_set_status[of "set ids" tks ts "node_of_item it" Pending] by auto
  ultimately show ?thesis using st ts tks by (auto simp: draft_ok_def status_simps split: if_splits)
qed

text \<open>No patch retires the task of an item that is decided after it.\<close>

fun spares_later :: "(attention_item \<times> decision) list \<Rightarrow> bool" where
  "spares_later [] \<longleftrightarrow> True"
| "spares_later ((it, d) # pairs) \<longleftrightarrow>
     (case d_patch d of None \<Rightarrow> True | Some p \<Rightarrow> d_action d \<noteq> Patch
        \<or> list_all (\<lambda>it'. node_of_item it' \<notin> set (retired_ids p)) (map fst pairs))
     \<and> spares_later pairs"

definition live_nodes :: "(attention_item \<times> decision) list \<Rightarrow> task_state \<Rightarrow> bool" where
  "live_nodes pairs ts \<longleftrightarrow> list_all (\<lambda>it. node_of_item it = [] \<or> status_of ts (node_of_item it) \<noteq> Superseded) (map fst pairs)"

lemma live_set_status: "live_nodes pairs ts \<Longrightarrow> st \<noteq> Superseded \<Longrightarrow> live_nodes pairs (set_status n st ts)"
  by (auto simp: live_nodes_def list_all_iff status_simps split: if_splits)

lemma draft_one_ok:
  assumes step: "draft_one mid pj (it, d) dr = Inr dr'" and ok: "draft_ok dr" "live_nodes ((it, d) # pairs) (dr_state dr)"
    and later: "spares_later ((it, d) # pairs)"
  shows "draft_ok dr' \<and> live_nodes pairs (dr_state dr')"
proof (cases "d_action d = Patch")
  case True
  then obtain p where p: "d_patch d = Some p" and draft: "draft_patch mid pj it p dr = Inr dr'"
    using step by (auto simp: draft_one_def Let_def split: option.splits)
  have "node_of_item it \<noteq> [] \<Longrightarrow> status_of (dr_state dr) (node_of_item it) \<noteq> Superseded" using ok(2) by (auto simp: live_nodes_def)
  from draft_patch_ok[OF draft this] have after: "draft_ok dr'"
    "\<And>n. status_of (dr_state dr) n \<noteq> Superseded \<Longrightarrow> n \<notin> set (retired_ids p) \<Longrightarrow> status_of (dr_state dr') n \<noteq> Superseded" by blast+
  have "live_nodes pairs (dr_state dr')"
    unfolding live_nodes_def list_all_iff
  proof (intro ballI)
    fix it' assume other: "it' \<in> set (map fst pairs)"
    have "node_of_item it' \<notin> set (retired_ids p)" using later p True other by (auto simp: list_all_iff)
    then show "node_of_item it' = [] \<or> status_of (dr_state dr') (node_of_item it') \<noteq> Superseded"
      using after(2)[of "node_of_item it'"] ok(2) other by (auto simp: live_nodes_def list_all_iff)
  qed
  then show ?thesis using after(1) by blast
next
  case False
  have node: "node_of_item it \<noteq> [] \<Longrightarrow> status_of (dr_state dr) (node_of_item it) \<noteq> Superseded" and rest: "live_nodes pairs (dr_state dr)"
    using ok(2) by (auto simp: live_nodes_def)
  show ?thesis using step False ok(1) node rest
    by (cases "d_action d") (auto simp: draft_one_def Let_def draft_ok_def plan_ok_set_status live_set_status split: if_splits)
qed

lemma draft_all_ok:
  assumes "draft_all mid pj pairs dr = Inr dr'" "draft_ok dr" "live_nodes pairs (dr_state dr)" "spares_later pairs"
  shows "draft_ok dr'"
  using assms
proof (induction pairs arbitrary: dr)
  case (Cons itd pairs)
  obtain it d where itd: "itd = (it, d)" by fastforce
  from Cons.prems(1) obtain dr1 where one: "draft_one mid pj (it, d) dr = Inr dr1" and rest: "draft_all mid pj pairs dr1 = Inr dr'"
    by (auto simp: itd split: sum.splits)
  from draft_one_ok[OF one Cons.prems(2)] Cons.prems(3,4) have "draft_ok dr1" "live_nodes pairs (dr_state dr1)" by (auto simp: itd)
  then show ?case using Cons.IH[OF rest] Cons.prems(4) by (simp add: itd)
qed simp

definition mission_plan_ok :: "string \<Rightarrow> project \<Rightarrow> bool" where
  "mission_plan_ok mid pj \<longleftrightarrow> (case m_tasks (mission_of mid pj) of None \<Rightarrow> False
     | Some tks \<Rightarrow> plan_ok (set (dict_keys (m_contract (mission_of mid pj)))) tks (status_of (load_task_state mid pj)))"

lemma apply_one_plan:
  assumes "d_action d \<noteq> Patch"
  shows "m_tasks (mission_of mid (snd (apply_one it d pj))) = m_tasks (mission_of mid pj)"
    and "m_contract (mission_of mid (snd (apply_one it d pj))) = m_contract (mission_of mid pj)"
proof -
  have "keeps (\<lambda>pj'. m_tasks (mission_of mid pj') = m_tasks (mission_of mid pj)
      \<and> m_contract (mission_of mid pj') = m_contract (mission_of mid pj)) (apply_one it d)"
    using assms unfolding apply_one_def seal_and_plan_next_def set_node_def Let_def
    by (cases "d_action d") (auto intro!: keeps_intros simp: save_task_state_def seal_mission_def)
  from keepsD[OF this, of pj] show "m_tasks (mission_of mid (snd (apply_one it d pj))) = m_tasks (mission_of mid pj)"
    "m_contract (mission_of mid (snd (apply_one it d pj))) = m_contract (mission_of mid pj)" by simp_all
qed

text \<open>The items of one mission among the decisions.\<close>

definition of_mission :: "string \<Rightarrow> (attention_item \<times> decision) list \<Rightarrow> (attention_item \<times> decision) list" where
  "of_mission mid pairs = filter (\<lambda>(it, d). a_mission_id it = mid) pairs"

lemma apply_each_plan_ok:
  assumes "list_all (\<lambda>(it, d). d_action d \<noteq> Patch) pairs" "mission_plan_ok mid pj" "live_nodes (of_mission mid pairs) (load_task_state mid pj)"
  shows "mission_plan_ok mid (snd (apply_each pairs nxt pj))"
  using assms
proof (induction pairs arbitrary: nxt pj)
  case (Cons itd pairs)
  obtain it d where itd: "itd = (it, d)" by fastforce
  have no_patch: "d_action d \<noteq> Patch" using Cons.prems(1) itd by simp
  obtain x pj1 where one: "apply_one it d pj = (x, pj1)" by fastforce
  have files: "m_tasks (mission_of mid pj1) = m_tasks (mission_of mid pj)" "m_contract (mission_of mid pj1) = m_contract (mission_of mid pj)"
    using apply_one_plan[OF no_patch, of mid it pj] one by simp_all
  have rest: "live_nodes (of_mission mid pairs) (load_task_state mid pj)"
    and node: "a_mission_id it = mid \<Longrightarrow> node_of_item it \<noteq> [] \<Longrightarrow> status_of (load_task_state mid pj) (node_of_item it) \<noteq> Superseded"
    using Cons.prems(3) by (auto simp: itd of_mission_def live_nodes_def split: if_splits)
  have "mission_plan_ok mid pj1 \<and> live_nodes (of_mission mid pairs) (load_task_state mid pj1)"
    using no_patch
  proof (rule apply_one_cursor[of d it pj])
    assume "\<And>mid. load_task_state mid (snd (apply_one it d pj)) = load_task_state mid pj"
    then have "load_task_state mid pj1 = load_task_state mid pj" using one by (metis snd_conv)
    then show ?thesis using Cons.prems(2) files rest by (auto simp: mission_plan_ok_def split: option.splits)
  next
    fix st assume st: "st \<in> {Pending, Cleared}" "node_of_item it \<noteq> []"
      and after: "\<And>mid. load_task_state mid (snd (apply_one it d pj)) = (if mid = a_mission_id it
         then set_status (node_of_item it) st (load_task_state mid pj) else load_task_state mid pj)"
    have "load_task_state mid pj1 = (if mid = a_mission_id it then set_status (node_of_item it) st (load_task_state mid pj)
        else load_task_state mid pj)" using after one by (metis snd_conv)
    then show ?thesis using Cons.prems(2) files rest node st
      by (auto simp: mission_plan_ok_def live_set_status plan_ok_set_status split: option.splits)
  qed
  then show ?case using Cons.IH[of pj1] Cons.prems(1) by (auto simp: itd andthen_def one split: sum.split)
qed (simp add: ret_def)

text \<open>C12. The plan survives every batch of decisions.  If the plan of a mission is well formed (distinct ids,
  task shapes, closed and acyclic dependencies, one active work task for every assertion), no item of
  the mission names a superseded task and no patch of the batch retires the task of an item decided
  later, then the plan is well formed after the batch, however it was applied and whatever it returned.\<close>

theorem decide_keeps_plan:
  assumes plan: "mission_plan_ok mid pj"
    and live: "live_nodes (of_mission mid (decision_pairs ds pj)) (load_task_state mid pj)"
    and later: "spares_later (decision_pairs ds pj)"
  shows "mission_plan_ok mid (snd (decide_attention ce ds pj))"
proof (rule decide_cases[of ce ds pj])
  { fix x pj1
    assume ok: "accepted ds pj" and plain: "\<not> list_ex (\<lambda>d. d_action d = Patch) ds"
      and run: "apply_decisions (decision_pairs ds pj) pj = (x, pj1)"
      and after: "snd (decide_attention ce ds pj) = (case x of Inl e \<Rightarrow> pj1
         | Inr next_state \<Rightarrow> save_state next_state (save_attention [] (append_decision_record ds (p_attention pj) pj1)))"
    have "list_all (\<lambda>(it, d). d_action d \<noteq> Patch) (decision_pairs ds pj)"
      using plain by (auto simp: decision_pairs_def list_all_iff list_ex_iff)
    from apply_each_plan_ok[OF this plan live, of None] have "mission_plan_ok mid pj1"
      using apply_decisions_snd[of "decision_pairs ds pj" pj] run by simp
    then show ?thesis unfolding after by (auto simp: mission_plan_ok_def load_task_state_def split: sum.split option.splits) }
  assume ok: "accepted ds pj"
    and after: "snd (decide_attention ce ds pj) = snd (apply_transactional_decisions ce ds (p_attention pj) (decision_pairs ds pj) pj)"
  show ?thesis
  proof (rule transactional_cases[of ce ds "p_attention pj" "decision_pairs ds pj" pj])
    fix images
    assume planned: "plan_batch ds (p_attention pj) (decision_pairs ds pj) pj = Inr images"
      and images: "snd (apply_transactional_decisions ce ds (p_attention pj) (decision_pairs ds pj) pj) = images pj"
    show ?thesis
    proof (rule plan_batch_InrE[OF planned])
      fix m tks edges dr
      assume one: "remdups (map a_mission_id (p_attention pj)) = [m]" and tks: "m_tasks (mission_of m pj) = Some tks"
        and draft: "draft_all m pj (decision_pairs ds pj) (start_draft m tks pj) = Inr dr"
        and eq: "images = install_batch m dr edges (next_decision_number pj) ds (p_attention pj)"
      show ?thesis
      proof (cases "m = mid")
        case True
        have "of_mission mid (decision_pairs ds pj) = decision_pairs ds pj"
          unfolding of_mission_def
        proof (rule filter_True, clarify)
          fix it d assume "(it, d) \<in> set (decision_pairs ds pj)"
          from pair_items(1)[OF ok this] have "a_mission_id it \<in> set (remdups (map a_mission_id (p_attention pj)))" by simp
          then show "a_mission_id it = mid" unfolding one True by simp
        qed
        moreover have "draft_ok (start_draft m tks pj)" "dr_state (start_draft m tks pj) = load_task_state mid pj"
          using plan tks unfolding True by (simp_all add: start_draft_def draft_ok_def mission_plan_ok_def)
        ultimately have "draft_ok dr" using live later by (intro draft_all_ok[OF draft]) simp_all
        then show ?thesis using True by (simp add: after images eq mission_plan_ok_def draft_ok_def load_task_state_def)
      next
        case False
        then have "mission_of mid (images pj) = mission_of mid pj" by (simp add: eq)
        then show ?thesis using plan unfolding after images mission_plan_ok_def load_task_state_def by (simp only:)
      qed
    qed
  qed (simp add: after plan)
qed (simp add: plan)

section \<open>Concrete instances\<close>

definition demo_ctl :: ctl_env where
  "demo_ctl = \<lparr>ce_env = demo_env, ce_access = None, ce_commit = Executed, ce_sync = None, ce_resolve = (\<lambda>_ rs. Inr rs),
     ce_reference = (\<lambda>_ _ _ _. None), ce_fuel = 20\<rparr>"

definition demo_decisions :: "attention_item list \<Rightarrow> mission \<Rightarrow> project" where
  "demo_decisions items m = \<lparr>p_id = ''p1'', p_state = Some (AttentionNeeded (public_attention_items items)), p_attention = items,
     p_missions = [(''m1'', m)], p_max_parallel = 2, p_current = Some ''m1'', p_decisions = []\<rparr>"

definition demo_mission :: "task_state \<Rightarrow> mission" where
  "demo_mission ts = (empty_mission ''p1'' ''m1'')\<lparr>m_tasks := Some demo_plan, m_cursor := ts,
     m_contract := [(''A-1'', APending), (''B-1'', APending)], m_assertions := demo_contract\<rparr>"

definition demo_failed :: "string \<Rightarrow> string \<Rightarrow> string \<Rightarrow> attention_item" where
  "demo_failed i node attempt = \<lparr>a_id = i, a_report = ''it failed'', a_kind = Node_failed, a_mission_id = ''m1'', a_node_id = Some node,
     a_attempt_id = Some attempt, a_terminal_review_id = None\<rparr>"

definition demo_failures :: task_state where
  "demo_failures = [(''w1'', \<lparr>e_status = Failed, e_last_attempt = Some ''a1''\<rparr>), (''w2'', \<lparr>e_status = Failed, e_last_attempt = Some ''a2''\<rparr>)]"

definition demo_decided :: project where
  "demo_decided = demo_decisions [demo_failed ''i1'' ''w1'' ''a1'', demo_failed ''i2'' ''w2'' ''a2''] (demo_mission demo_failures)"

definition decide :: "string \<Rightarrow> action_name \<Rightarrow> task_list_patch option \<Rightarrow> decision" where
  "decide i action p = \<lparr>d_item_id = i, d_action = action, d_patch = p, d_justification = ''because''\<rparr>"

lemma demo_decided_ok: "mission_plan_ok ''m1'' demo_decided"
proof -
  have files: "m_tasks (mission_of ''m1'' demo_decided) = Some demo_plan" "set (dict_keys (m_contract (mission_of ''m1'' demo_decided))) = set demo_contract"
    "load_task_state ''m1'' demo_decided = demo_failures"
    by (simp_all add: demo_decided_def demo_decisions_def demo_mission_def mission_of_def load_task_state_def demo_contract_def dict_simps)
  have "plan_ok (set demo_contract) demo_plan (status_of demo_failures)"
    by (rule plan_ok_cong[OF _ demo_plan_ok]) (simp add: demo_failures_def status_of_def)
  then show ?thesis unfolding mission_plan_ok_def files option.case .
qed

text \<open>The first task is replaced and the second retried.\<close>

definition replace_w2 :: "decision list" where
  "replace_w2 = [decide ''i1'' Retry None, decide ''i2'' Patch (Some demo_patch)]"

theorem decide_keeps_plan_witness:
  "mission_plan_ok ''m1'' (snd (decide_attention demo_ctl replace_w2 demo_decided))
   \<and> status_of (load_task_state ''m1'' (snd (decide_attention demo_ctl replace_w2 demo_decided))) ''w3'' = Pending"
proof -
  have "live_nodes (of_mission ''m1'' (decision_pairs replace_w2 demo_decided)) (load_task_state ''m1'' demo_decided)"
    by code_simp
  moreover have "spares_later (decision_pairs replace_w2 demo_decided)" by code_simp
  moreover have "status_of (load_task_state ''m1'' (snd (decide_attention demo_ctl replace_w2 demo_decided))) ''w3'' = Pending
     \<and> p_state (snd (decide_attention demo_ctl replace_w2 demo_decided)) = Some (MissionRunning ''m1'')" by code_simp
  ultimately show ?thesis using decide_keeps_plan[OF demo_decided_ok] by blast
qed

text \<open>
  The order of the decisions matters: when a batch replaces a failed task and then retries it, the retry
  makes the superseded task pending again, and its assertion has two owners.
\<close>

definition replace_then_retry :: "decision list" where
  "replace_then_retry = [decide ''i1'' Patch (Some demo_patch), decide ''i2'' Retry None]"

text \<open>A retry can revive the task a patch of the same batch has superseded.  The batch is accepted, the
  plan was well formed, and afterwards the replaced task and its replacement are both pending and both
  own the same assertion: the plan is no longer one the submission checks accept.\<close>

theorem retry_revives_superseded:
  "mission_plan_ok ''m1'' demo_decided
   \<and> fst (decide_attention demo_ctl replace_then_retry demo_decided) = Inr ()
   \<and> \<not> mission_plan_ok ''m1'' (snd (decide_attention demo_ctl replace_then_retry demo_decided))"
proof -
  let ?pj = "snd (decide_attention demo_ctl replace_then_retry demo_decided)"
  have run: "fst (decide_attention demo_ctl replace_then_retry demo_decided) = Inr ()" by code_simp
  have tks: "m_tasks (mission_of ''m1'' ?pj) = Some (patched_tasks demo_plan demo_patch)" by code_simp
  have contract: "dict_keys (m_contract (mission_of ''m1'' ?pj)) = demo_contract" by code_simp
  have both: "owners (patched_tasks demo_plan demo_patch) (status_of (load_task_state ''m1'' ?pj)) ''B-1'' = [''w2'', ''w3'']" by code_simp
  have "''B-1'' \<in> set demo_contract" by (simp add: demo_contract_def)
  then have "\<not> covered_once (set demo_contract) (patched_tasks demo_plan demo_patch) (status_of (load_task_state ''m1'' ?pj))"
    using both unfolding covered_once_def by fastforce
  then have "\<not> mission_plan_ok ''m1'' ?pj" unfolding mission_plan_ok_def tks option.case contract plan_ok_def by blast
  then show ?thesis using demo_decided_ok run by blast
qed

text \<open>An attempt under review: its task failed, and the review still guards it.\<close>

definition demo_guarded :: project where
  "demo_guarded = demo_decisions [demo_failed ''i1'' ''w1'' ''a1'', demo_failed ''i2'' ''w2'' ''a2'']
     ((demo_mission demo_failures)\<lparr>m_attempts := [((''a1'', ''w1''), Attempt (WorkHandoff ''w1'' (Some ''a1'') False ''blocked'' True) True)],
        m_carriers := [((''a1'', ''w1''), \<lparr>cr_cursor = Blocked_Cursor ''s1'', cr_durable = Durable_Block ''s1'' Review_Unavailable None,
                          cr_appeal = No_Appeal\<rparr>)]\<rparr>)"

definition check_w1 :: task_list_patch where
  "check_w1 = \<lparr>p_add_items = [], p_add = [demo_check\<lparr>t_id := ''v2''\<rparr>], p_supersede = [], p_cancel = []\<rparr>"

theorem guarded_node_untouched_witness:
  "status_of (load_task_state ''m1'' (snd (decide_attention demo_ctl
      [decide ''i1'' Patch (Some check_w1), decide ''i2'' Retry None] demo_guarded))) ''w1'' = Failed
   \<and> status_of (load_task_state ''m1'' (snd (decide_attention demo_ctl
      [decide ''i1'' Patch (Some check_w1), decide ''i2'' Retry None] demo_guarded))) ''w2'' = Pending"
proof -
  have guards: "mission_guards ''m1'' demo_guarded = Inr [''w1'']" by code_simp
  have failed: "status_of (load_task_state ''m1'' demo_guarded) ''w1'' = Failed" by code_simp
  have "status_of (load_task_state ''m1'' (snd (decide_attention demo_ctl
      [decide ''i1'' Patch (Some check_w1), decide ''i2'' Retry None] demo_guarded))) ''w2'' = Pending" by code_simp
  then show ?thesis using guarded_node_untouched[OF guards, of "''w1''"] failed by simp
qed

lemma demo_quiet: "roles_quiet demo_env"
  using demo_roles by (simp add: roles_quiet_def)



text \<open>A stop that is completed after the project was aborted.\<close>

definition stopped_project :: project where
  "stopped_project = (demo_project (mark_running ''w1'' ''at1'' []) demo_stopped)\<lparr>p_state := Some (Aborted ''enough'')\<rparr>"

text \<open>Completing a cooperative stop does not look at the state of the project: for an attempt that had
  accepted a stop before the project was aborted, the completed stop turns the aborted project back into
  one that needs attention.\<close>

theorem completed_stop_reopens_aborted:
  "p_state stopped_project = Some (Aborted ''enough'')
   \<and> fst (complete_cooperative_stop demo_ctl (binding_from_snapshot demo_waiting) ''safe'' stopped_project) = Inr ()
   \<and> (\<exists>items. p_state (snd (complete_cooperative_stop demo_ctl (binding_from_snapshot demo_waiting) ''safe'' stopped_project))
        = Some (AttentionNeeded items))"
proof -
  let ?run = "complete_cooperative_stop demo_ctl (binding_from_snapshot demo_waiting) ''safe'' stopped_project"
  have "fst ?run = Inr ()" by code_simp
  moreover have "(case p_state (snd ?run) of Some (AttentionNeeded items) \<Rightarrow> True | _ \<Rightarrow> False)" by code_simp
  ultimately show ?thesis by (auto simp: stopped_project_def split: option.splits project_state.splits)
qed

end
