(* ===== verification/Controller_Progress.thy ===== *)
theory Controller_Progress
  imports Controller_Decisions Scheduler_Proofs
begin

text \<open>
  Why \<open>advance_project\<close> returns: a step that reports an advance has settled at least one task that was
  pending or running, and has opened none.
\<close>

section \<open>Progress of a cursor\<close>

definition open_status :: "task_status \<Rightarrow> bool" where
  "open_status st \<longleftrightarrow> st = Pending \<or> st = Running"

text \<open>Every task is as it was, or was open and is settled.\<close>

definition progress :: "task_list \<Rightarrow> task_state \<Rightarrow> task_state \<Rightarrow> bool" where
  "progress tks ts ts' \<longleftrightarrow> (\<forall>t \<in> set tks. status_of ts' (t_id t) = status_of ts (t_id t)
     \<or> open_status (status_of ts (t_id t)) \<and> status_of ts' (t_id t) \<in> {Cleared, Failed})"

definition open_tasks :: "task_list \<Rightarrow> task_state \<Rightarrow> task list" where
  "open_tasks tks ts = filter (\<lambda>t. open_status (status_of ts (t_id t))) tks"

definition gates_idle :: "task_list \<Rightarrow> task_state \<Rightarrow> bool" where
  "gates_idle tks ts \<longleftrightarrow> list_all (\<lambda>t. status_of ts (t_id t) \<noteq> Running \<or> t_type t \<noteq> Gate) tks"

lemma progress_refl [simp]: "progress tks ts ts"
  by (simp add: progress_def)

lemma progress_trans: "progress tks a b \<Longrightarrow> progress tks b c \<Longrightarrow> progress tks a c"
  unfolding progress_def open_status_def by (metis insertE singletonD task_status.distinct)

lemma progress_gates: "progress tks ts ts' \<Longrightarrow> gates_idle tks ts \<Longrightarrow> gates_idle tks ts'"
  unfolding progress_def gates_idle_def list_all_iff by fastforce

lemma filter_smaller:
  assumes "\<And>x. x \<in> set xs \<Longrightarrow> Q x \<Longrightarrow> P x" "x \<in> set xs" "P x" "\<not> Q x"
  shows "length (filter Q xs) < length (filter P xs)"
proof -
  have eq: "filter Q xs = filter Q (filter P xs)" using assms(1) by (auto intro: filter_cong)
  have "x \<in> set (filter P xs)" using assms(2,3) by simp
  from length_filter_less[OF this, of Q] show ?thesis using assms(4) unfolding eq by simp
qed

lemma progress_settles:
  assumes "progress tks ts ts'" "t \<in> set tks" "open_status (status_of ts (t_id t))" "\<not> open_status (status_of ts' (t_id t))"
  shows "length (open_tasks tks ts') < length (open_tasks tks ts)"
proof -
  have "open_status (status_of ts (t_id u))" if "u \<in> set tks" "open_status (status_of ts' (t_id u))" for u
    using assms(1) that by (auto simp: progress_def open_status_def)
  then show ?thesis unfolding open_tasks_def using assms(2-4) by (intro filter_smaller[where x = t]) simp_all
qed

definition advances_by :: "task_list \<Rightarrow> task_state \<Rightarrow> task_state \<Rightarrow> bool" where
  "advances_by tks ts ts' \<longleftrightarrow> progress tks ts ts'
     \<and> (\<exists>t \<in> set tks. open_status (status_of ts (t_id t)) \<and> \<not> open_status (status_of ts' (t_id t)))"

lemma advances_after: "progress tks a b \<Longrightarrow> advances_by tks b c \<Longrightarrow> advances_by tks a c"
  unfolding advances_by_def progress_def open_status_def by (metis insertE singletonD)

section \<open>What leaves the cursor alone\<close>

definition plan_is :: "string \<Rightarrow> task_list \<Rightarrow> task_state \<Rightarrow> project \<Rightarrow> bool" where
  "plan_is mid tks ts pj \<longleftrightarrow> m_tasks (mission_of mid pj) = Some tks \<and> load_task_state mid pj = ts"

interpretation planned: role_laws mid sha "plan_is mid tks ts" for mid sha tks ts
  by unfold_locales (simp_all add: plan_is_def load_task_state_def save_contract_state_def save_attempt_def
      save_terminal_review_def seal_mission_def)

text \<open>The task list stays through a whole step.\<close>

definition tasks_are :: "string \<Rightarrow> task_list \<Rightarrow> project \<Rightarrow> bool" where
  "tasks_are mid tks pj \<longleftrightarrow> m_tasks (mission_of mid pj) = Some tks"

interpretation listed: coordinator_laws mid sha "tasks_are mid tks" for mid sha tks
  by unfold_locales (simp_all add: tasks_are_def save_contract_state_def save_attempt_def save_task_state_def
      save_terminal_review_def seal_mission_def)

lemma plan_is_save: "plan_is mid tks ts pj \<Longrightarrow> plan_is mid tks ts' (save_task_state mid ts' pj)"
  by (simp add: plan_is_def save_task_state_def load_task_state_def)

lemma reconcile_quiet_guards: "\<not> list_ex (\<lambda>node. status_of ts node = Pending) guards \<Longrightarrow> reconcile_provider_denials guards ts = ts"
  unfolding reconcile_provider_denials_def by (induction guards arbitrary: ts) auto

lemma reconcile_denials_progress: "progress tks ts (reconcile_provider_denials guards ts)"
  unfolding reconcile_provider_denials_def
proof (induction guards arbitrary: ts)
  case (Cons node guards)
  have "progress tks ts (if status_of ts node = Pending then set_status node Failed ts else ts)"
    by (auto simp: progress_def open_status_def status_simps)
  from progress_trans[OF this Cons.IH] show ?case by simp
qed simp

lemma reconcile_denials_run:
  assumes "reconcile_denials mid tks ts pj = (Inr (guards, ts'), pj')" "plan_is mid tks ts pj"
  shows "plan_is mid tks ts' pj' \<and> progress tks ts ts'"
  using assms reconcile_quiet_guards[of ts guards] reconcile_denials_progress[of tks ts guards]
  by (auto simp: reconcile_denials_def Let_def elim!: run_elims dest!: run_dests intro: plan_is_save split: if_splits)

lemma still_eligible_run:
  assumes "still_eligible mid tasks pj = (Inr eligible, pj')" "plan_is mid tks ts pj"
  obtains ts' where "plan_is mid tks ts' pj'" "progress tks ts ts'"
    "set eligible \<subseteq> {t \<in> set tasks. t_id t \<in> t_id ` set (all_runnable_tasks tks ts')}"
proof -
  have load: "load_task_list mid pj = Inr tks" "load_task_state mid pj = ts" using assms(2) by (simp_all add: plan_is_def load_task_list_def)
  from assms(1) obtain guards ts' where run: "reconcile_denials mid tks ts pj = (Inr (guards, ts'), pj')"
    and eligible: "eligible = guard_dispatch guards tks ts' tasks"
    unfolding still_eligible_def by (elim run_elims) (auto simp: load dest!: run_dests)
  from reconcile_denials_run[OF run assms(2)] eligible show ?thesis
    by (intro that[of ts']) (auto simp: guard_dispatch_def)
qed

section \<open>Handing in\<close>

lemma apply_handoff_advanced:
  assumes "apply_handoff env mid t h spawn_ts pj = (Inr (Advanced w), pj')" "t_type t \<noteq> Gate"
  shows "load_task_state mid pj' = set_status (t_id t) Cleared (load_task_state mid pj)"
proof -
  from assms(1) have run: "apply_handoff_collect env mid t h spawn_ts pj = (Inr [], pj')"
    by (auto simp: apply_handoff_def elim!: run_elims dest!: run_dests split: list.splits)
  from collected_status[OF run assms(2)] show ?thesis by auto
qed

lemma run_attempt_advanced:
  assumes run: "run_attempt env mid t spawn_ts pj = (Inr (Advanced w), pj')" and ty: "t_type t \<noteq> Gate"
    and plan: "plan_is mid tks ts pj" and roles: "roles_keep env mid (plan_is mid tks ts)"
  shows "load_task_state mid pj' = set_status (t_id t) Cleared ts"
proof -
  from run obtain u1 pj1 u2 pj2 out pj3 h where
    begun: "begin_supervision_attempt env mid spawn_ts (role_of_task t) (t_targets t) (Some (t_id t)) pj = (Inr u1, pj1)"
    and unblocked: "assert_dispatch_unblocked mid [t] pj1 = (Inr u2, pj2)"
    and ran: "await_role_effect mid (en_dispatch env mid t spawn_ts) pj2 = (Inr out, pj3)"
    and rest: "apply_handoff env mid t h spawn_ts (save_attempt mid spawn_ts (t_id t) h pj3) = (Inr (Advanced w), pj')"
    unfolding run_attempt_def Let_def by (elim run_elims) (auto dest!: run_dests)
  have "plan_is mid tks ts pj1" by (rule keeps_result[OF planned.begin_supervision_attempt_keeps[OF refl] plan begun])
  from keeps_result[OF planned.assert_dispatch_unblocked_keeps this unblocked] have "plan_is mid tks ts pj2" .
  from keeps_result[OF planned.role_effect_keeps(1) this ran] roles have "plan_is mid tks ts pj3" by (auto simp: roles_keep_def)
  from planned.attempt_write[OF this] apply_handoff_advanced[OF rest ty] show ?thesis by (simp add: plan_is_def)
qed

lemma status_mark_running: "status_of (mark_running n a ts) i = (if i = n then Running else status_of ts i)"
  by (simp add: mark_running_def status_simps)

lemma cleared_advances:
  assumes "t_id t \<in> t_id ` set (all_runnable_tasks tks ts)"
    and "\<And>i. status_of ts' i = (if i = t_id t then Cleared else status_of ts i)"
  shows "advances_by tks ts ts'"
proof -
  obtain u where u: "u \<in> set tks" "t_id u = t_id t" "status_of ts (t_id t) = Pending"
    using assms(1) by (auto dest!: runnable_in)
  then show ?thesis using assms(2) by (auto simp: advances_by_def progress_def open_status_def)
qed

lemma dispatch_one_advances:
  assumes run: "dispatch_one env mid t pj = (Inr (Advanced w), pj')" and ty: "t_type t \<noteq> Gate"
    and plan: "plan_is mid tks ts pj" and roles: "\<And>ts. roles_keep env mid (plan_is mid tks ts)"
  shows "advances_by tks ts (load_task_state mid pj')"
proof -
  from run obtain eligible pj1 spawn_ts pj2 where el: "still_eligible mid [t] pj = (Inr eligible, pj1)" "eligible \<noteq> []"
    and fresh: "fresh_attempt mid (en_now env) pj1 = (Inr spawn_ts, pj2)"
    and rest: "run_attempt env mid t spawn_ts (save_task_state mid (mark_running (t_id t) spawn_ts (load_task_state mid pj2)) pj2)
        = (Inr (Advanced w), pj')"
    unfolding dispatch_one_def by (elim run_elims) (auto elim!: run_elims dest!: run_dests split: if_splits)
  show ?thesis
  proof (rule still_eligible_run[OF el(1) plan])
    fix ts1 assume plan1: "plan_is mid tks ts1 pj1" and before: "progress tks ts ts1"
      and sub: "set eligible \<subseteq> {u \<in> set [t]. t_id u \<in> t_id ` set (all_runnable_tasks tks ts1)}"
    have runnable: "t_id t \<in> t_id ` set (all_runnable_tasks tks ts1)" using sub el(2) by (cases eligible) auto
    have plan2: "plan_is mid tks ts1 pj2" by (rule keeps_result[OF planned.fresh_attempt_keeps plan1 fresh])
    then have "load_task_state mid pj2 = ts1" by (simp add: plan_is_def)
    from run_attempt_advanced[OF rest[unfolded this] ty plan_is_save[OF plan2] roles]
    have "load_task_state mid pj' = set_status (t_id t) Cleared (mark_running (t_id t) spawn_ts ts1)" .
    then have "advances_by tks ts1 (load_task_state mid pj')"
      by (intro cleared_advances[OF runnable]) (simp add: status_simps status_mark_running)
    then show ?thesis by (rule advances_after[OF before])
  qed
qed

section \<open>Batches\<close>

lemma claim_batch_run:
  assumes "claim_batch env mid k tasks ts pj = (Inr (attempts, ts'), pj')"
  shows "map fst attempts = tasks \<and> (\<forall>i. status_of ts' i = (if i \<in> t_id ` set tasks then Running else status_of ts i))"
  using assms
proof (induction tasks arbitrary: k ts attempts pj)
  case Nil
  then show ?case by (auto dest!: run_dests)
next
  case (Cons t tasks)
  from Cons.prems obtain spawn_ts pj1 rest where
    run: "claim_batch env mid (k + 1) tasks (mark_running (t_id t) spawn_ts ts) pj1 = (Inr (rest, ts'), pj')"
    and attempts: "attempts = (t, spawn_ts) # rest"
    by (auto elim!: run_elims dest!: run_dests)
  from Cons.IH[OF run] show ?case by (auto simp: attempts status_mark_running)
qed

lemma apply_batch_run:
  assumes "apply_batch env mid hs attempts pj = (Inr [], pj')" "\<forall>t \<in> fst ` set attempts. t_type t \<noteq> Gate"
  shows "status_of (load_task_state mid pj') i = (if i \<in> t_id ` fst ` set attempts then Cleared else status_of (load_task_state mid pj) i)"
  using assms
proof (induction attempts arbitrary: pj)
  case Nil
  then show ?case by (auto dest!: run_dests)
next
  case (Cons ta attempts)
  obtain t a where ta: "ta = (t, a)" by fastforce
  from Cons.prems(1) obtain h pj1 where
    first: "apply_handoff_collect env mid t h a (save_attempt mid a (t_id t) h pj) = (Inr [], pj1)"
    and rest: "apply_batch env mid hs attempts pj1 = (Inr [], pj')"
    unfolding ta by (auto simp: Let_def throw_def elim!: run_elims dest!: run_dests split: option.splits)
  from collected_status[OF first] Cons.prems(2) have "load_task_state mid pj1 = set_status (t_id t) Cleared (load_task_state mid pj)"
    by (auto simp: ta)
  then show ?case using Cons.IH[OF rest] Cons.prems(2) by (auto simp: ta status_simps)
qed

lemma begin_all_keeps:
  "keeps (plan_is mid tks ts) (for_each attempts (\<lambda>(t, a). begin_supervision_attempt env mid a (role_of_task t) (t_targets t) (Some (t_id t))))"
  by (intro keeps_for_each) (auto intro!: planned.begin_supervision_attempt_keeps split: prod.split)

lemma run_batch_advances:
  assumes run: "run_batch env mid tasks pj = (Inr (Advanced w), pj')" and plan: "plan_is mid tks ts pj"
    and roles: "\<And>ts. roles_keep env mid (plan_is mid tks ts)"
    and tasks: "tasks \<noteq> []" "\<forall>t \<in> set tasks. t_type t \<noteq> Gate \<and> t_id t \<in> t_id ` set (all_runnable_tasks tks ts)"
  shows "advances_by tks ts (load_task_state mid pj')"
proof -
  from run obtain attempts ts' pj1 u2 pj2 hs pj3 where
    claim: "claim_batch env mid 0 tasks (load_task_state mid pj) pj = (Inr (attempts, ts'), pj1)"
    and begun: "for_each attempts (\<lambda>(t, a). begin_supervision_attempt env mid a (role_of_task t) (t_targets t) (Some (t_id t)))
        (save_task_state mid ts' pj1) = (Inr u2, pj2)"
    and sent: "dispatch_requests env mid attempts pj2 = (Inr hs, pj3)"
    and rest: "apply_batch env mid hs (sort_key (\<lambda>(t, _). t_id t) attempts) pj3 = (Inr [], pj')"
    unfolding run_batch_def by (elim run_elims) (auto elim!: run_elims dest!: run_dests split: if_splits)
  have ts: "load_task_state mid pj = ts" using plan by (simp add: plan_is_def)
  note claimed = claim_batch_run[OF claim[unfolded ts]]
  have "plan_is mid tks ts pj1" by (rule keeps_result[OF planned.claim_batch_keeps plan claim])
  from keeps_result[OF begin_all_keeps plan_is_save[OF this] begun] have "plan_is mid tks ts' pj2" .
  from keeps_result[OF planned.dispatch_requests_keeps[OF roles] this sent] have at: "load_task_state mid pj3 = ts'" by (simp add: plan_is_def)
  have "fst ` set attempts = set tasks" using claimed by (metis set_map)
  then have ids: "fst ` set (sort_key (\<lambda>(t, _). t_id t) attempts) = set tasks" by simp
  have after: "status_of (load_task_state mid pj') i = (if i \<in> t_id ` set tasks then Cleared else status_of ts i)" for i
    using apply_batch_run[OF rest, of i] tasks(2) claimed unfolding ids at by auto
  obtain t where t: "t \<in> set tasks" using tasks(1) by (cases tasks) auto
  obtain u where u: "u \<in> set tks" "t_id u = t_id t" "status_of ts (t_id u) = Pending"
    using t tasks(2) by (auto dest!: runnable_in)
  have "status_of ts i = Pending" if "i \<in> t_id ` set tasks" for i
    using that tasks(2) by (fastforce dest!: runnable_in)
  then have "progress tks ts (load_task_state mid pj')" by (auto simp: progress_def after open_status_def)
  moreover have "status_of (load_task_state mid pj') (t_id u) = Cleared" using u(2) t by (simp add: after)
  ultimately show ?thesis using u(1,3) unfolding advances_by_def open_status_def by (intro conjI bexI[of _ u]) simp_all
qed

lemma dispatch_batch_advances:
  assumes run: "dispatch_batch env mid tasks pj = (Inr (Advanced w), pj')" and plan: "plan_is mid tks ts pj"
    and roles: "\<And>ts. roles_keep env mid (plan_is mid tks ts)" and ty: "\<forall>t \<in> set tasks. t_type t \<noteq> Gate"
  shows "advances_by tks ts (load_task_state mid pj')"
proof -
  have fits: "\<not> (list_ex (\<lambda>t. t_type t = Work) tasks \<and> \<not> list_all (\<lambda>t. t_type t = Work) tasks)"
      "\<not> (list_ex (\<lambda>t. t_type t = Work) tasks \<and> (length tasks < 2 \<or> \<not> isolated_work_supported (en_isolation env) tasks))"
    using run by (auto simp: dispatch_batch_def Let_def throw_def split: if_splits)
  then have "dispatch_batch env mid tasks pj = andthen (still_eligible mid tasks) (\<lambda>eligible.
       case eligible of
         [] \<Rightarrow> ret (Idle ''selected tasks are no longer eligible'')
       | [t] \<Rightarrow> dispatch_one env mid t
       | _ \<Rightarrow> if list_ex (\<lambda>t. t_type t = Work) eligible then en_isolated env mid eligible else run_batch env mid eligible) pj"
    by (simp only: dispatch_batch_def Let_def if_False)
  with run obtain eligible pj1 where el: "still_eligible mid tasks pj = (Inr eligible, pj1)"
    and rest: "(case eligible of
         [] \<Rightarrow> ret (Idle ''selected tasks are no longer eligible'')
       | [t] \<Rightarrow> dispatch_one env mid t
       | _ \<Rightarrow> if list_ex (\<lambda>t. t_type t = Work) eligible then en_isolated env mid eligible else run_batch env mid eligible) pj1
       = (Inr (Advanced w), pj')"
    by (auto elim!: run_elims)
  have no_work: "\<not> list_ex (\<lambda>t. t_type t = Work) eligible"
    using no_work_batch[OF _ fits still_eligible_subset[OF el]] roles by (simp add: roles_keep_def)
  show ?thesis
  proof (rule still_eligible_run[OF el plan])
    fix ts1 assume plan1: "plan_is mid tks ts1 pj1" and before: "progress tks ts ts1"
      and sub: "set eligible \<subseteq> {u \<in> set tasks. t_id u \<in> t_id ` set (all_runnable_tasks tks ts1)}"
    have "advances_by tks ts1 (load_task_state mid pj')"
    proof (cases "\<exists>t. eligible = [t]")
      case True
      then obtain t where t: "eligible = [t]" by blast
      then have "t_type t \<noteq> Gate" using sub ty by auto
      then show ?thesis using dispatch_one_advances[OF _ _ plan1 roles] rest t by simp
    next
      case False
      then have "run_batch env mid eligible pj1 = (Inr (Advanced w), pj')" "eligible \<noteq> []"
        using rest no_work by (auto dest!: run_dests split: list.splits)
      then show ?thesis using run_batch_advances[OF _ plan1 roles] sub ty by blast
    qed
    then show ?thesis by (rule advances_after[OF before])
  qed
qed

section \<open>A step\<close>

lemma recover_not_advanced: "recover_stranded_failure env mid tks ts pj = (Inr r, pj') \<Longrightarrow> r \<noteq> Some (Advanced w)"
  unfolding recover_stranded_failure_def Let_def
  by (elim run_elims) (auto elim!: run_elims dest!: run_dests simp: throw_def split: if_splits option.splits)

lemma dispatch_next_advances:
  assumes run: "dispatch_next env mid tks ts pj = (Inr (Advanced w), pj')" and plan: "plan_is mid tks ts pj"
    and roles: "\<And>ts. roles_keep env mid (plan_is mid tks ts)" and ids: "distinct (task_ids tks)"
  shows "advances_by tks ts (load_task_state mid pj')"
proof (cases "all_runnable_tasks tks ts = []")
  case True
  then show ?thesis using run
    by (auto simp: dispatch_next_def elim!: run_elims dest!: run_dests recover_not_advanced split: option.splits)
next
  case False
  define sel where "sel = select_dispatch_tasks (p_max_parallel pj) (en_isolation env) tks ts (all_runnable_tasks tks ts)"
  have sel: "set sel \<subseteq> set (all_runnable_tasks tks ts)" "sel \<noteq> []"
    using selection_facts[OF ids, of "p_max_parallel pj" "en_isolation env" ts] False by (simp_all add: sel_def)
  then have ty: "\<forall>t \<in> set sel. t_type t \<noteq> Gate" by (auto dest!: runnable_in)
  have "(if length sel = 1 then dispatch_one env mid (hd sel) else dispatch_batch env mid sel) pj = (Inr (Advanced w), pj')"
    using run False by (simp add: dispatch_next_def Let_def andthen_reads sel_def split: if_splits)
  then show ?thesis
    using dispatch_one_advances[OF _ _ plan roles, of "hd sel" w pj'] dispatch_batch_advances[OF _ plan roles ty, of w pj'] ty sel(2)
    by (simp split: if_splits)
qed

lemma settled_clears: "settled_from_disk mid pj pj' (Some (Advanced w)) node \<Longrightarrow> status_of (load_task_state mid pj') node = Cleared"
  by (simp add: settled_from_disk_def split: if_splits)

lemma reconcile_advances:
  assumes run: "reconcile_pending_attempts env mid tks ts pj = (Inr (Some (Advanced w)), pj')" and plan: "plan_is mid tks ts pj"
    and ids: "distinct (task_ids tks)" and gates: "gates_idle tks ts"
  shows "advances_by tks ts (load_task_state mid pj')"
proof -
  have ts: "load_task_state mid pj = ts" using plan by (simp add: plan_is_def)
  have "list_all (\<lambda>t. status_of ts (t_id t) \<noteq> Running \<or> t_type t \<noteq> Gate) tks" using gates by (simp add: gates_idle_def)
  from reconcile_outcome[of env mid tks pj "Some (Advanced w)" pj', unfolded ts, OF run ids this]
  have after: "\<forall>t \<in> set tks. if status_of ts (t_id t) = Running then status_of (load_task_state mid pj') (t_id t) = Cleared
        else status_of (load_task_state mid pj') (t_id t) = status_of ts (t_id t)"
    and "\<exists>t \<in> set tks. status_of ts (t_id t) = Running"
    by (auto simp: list_all_iff dest!: settled_clears split: if_splits)
  then obtain t where t: "t \<in> set tks" "status_of ts (t_id t) = Running" by blast
  have "progress tks ts (load_task_state mid pj')" unfolding progress_def open_status_def using after by (metis insertI1)
  moreover have "status_of (load_task_state mid pj') (t_id t) = Cleared" using after t by simp
  ultimately show ?thesis using t unfolding advances_by_def open_status_def by (intro conjI bexI[of _ t]) simp_all
qed

lemma step_advances:
  assumes st: "p_state pj = Some (MissionRunning mid)" and run: "step env pj = (Inr (Advanced w), pj')"
    and plan: "plan_is mid tks ts pj" and roles: "\<And>ts. roles_keep env mid (plan_is mid tks ts)"
    and ids: "distinct (task_ids tks)" and gates: "gates_idle tks ts"
  shows "advances_by tks ts (load_task_state mid pj')"
proof -
  have tks: "m_tasks (mission_of mid pj) = Some tks" "load_task_state mid pj = ts" using plan by (simp_all add: plan_is_def)
  have "step_mission env mid pj = (Inr (Advanced w), pj')" using run st by (simp add: step_def andthen_reads)
  then obtain guards ts1 pj1 u2 pj2 u3 pj3 resumed pj4 where
    denials: "reconcile_denials mid tks ts pj = (Inr (guards, ts1), pj1)"
    and polled: "on_supervision mid (poll_supervision (en_clock env) tks) pj1 = (Inr u2, pj2)"
    and seeded: "seed_contract mid pj2 = (Inr u3, pj3)"
    and resume: "reconcile_pending_attempts env mid tks ts1 pj3 = (Inr resumed, pj4)"
    and rest: "(case resumed of
         Some r \<Rightarrow> ret r
       | None \<Rightarrow>
          andthen (reads (\<lambda>pj. try_evaluate_a_gate (mission_reader mid pj) tks ts1)) (\<lambda>gate_event.
          case gate_event of
            Some ev \<Rightarrow> apply_gate_event env mid ts1 ev
          | None \<Rightarrow> dispatch_next env mid tks ts1)) pj4 = (Inr (Advanced w), pj')"
    unfolding step_mission_def andthen_reads tks option.case by (auto elim!: run_elims)
  note denied = reconcile_denials_run[OF denials plan]
  have "plan_is mid tks ts1 pj2" by (rule keeps_result[OF planned.supervision_writes(2) denied[THEN conjunct1] polled])
  from keeps_result[OF planned.seed_contract_keeps this seeded] have plan3: "plan_is mid tks ts1 pj3" .
  have gates1: "gates_idle tks ts1" by (rule progress_gates[OF denied[THEN conjunct2] gates])
  have "advances_by tks ts1 (load_task_state mid pj')"
  proof (cases resumed)
    case (Some r)
    then have "r = Advanced w" "pj4 = pj'" using rest by (auto dest!: run_dests)
    then show ?thesis using reconcile_advances[OF _ plan3 ids gates1] resume Some by simp
  next
    case None
    then have "pj4 = pj3" using resume
      by (auto simp: reconcile_pending_attempts_def elim!: run_elims dest!: run_dests split: if_splits)
    with plan3 have plan4: "plan_is mid tks ts1 pj4" by simp
    show ?thesis
    proof (cases "try_evaluate_a_gate (mission_reader mid pj4) tks ts1")
      case None
      then show ?thesis using rest \<open>resumed = None\<close> dispatch_next_advances[OF _ plan4 roles ids] by (simp add: andthen_reads)
    next
      case (Some ev)
      then have "apply_gate_event env mid ts1 ev pj4 = (Inr (Advanced w), pj')"
        using rest \<open>resumed = None\<close> by (simp add: andthen_reads)
      then show ?thesis by (cases ev) (auto simp: apply_gate_event_def Let_def elim!: run_elims dest!: run_dests)
    qed
  qed
  then show ?thesis by (rule advances_after[OF denied[THEN conjunct2]])
qed

section \<open>The loop\<close>

text \<open>The roles leave the state and the queue of the project, and the plan and cursor of the mission.\<close>

definition roles_leave_plan :: "env \<Rightarrow> string \<Rightarrow> task_list \<Rightarrow> bool" where
  "roles_leave_plan env mid tks \<longleftrightarrow> roles_quiet env
     \<and> (\<forall>ts. roles_keep env mid (plan_is mid tks ts)) \<and> roles_keep env mid (tasks_are mid tks)"

lemma advance_loop_returns:
  assumes "p_state pj = Some (MissionRunning mid)" "m_tasks (mission_of mid pj) = Some tks" "distinct (task_ids tks)"
    "gates_idle tks (load_task_state mid pj)" "roles_leave_plan (ce_env ce) mid tks"
    "length (open_tasks tks (load_task_state mid pj)) < fuel"
  shows "fst (advance_loop ce max_steps fuel steps pj) \<noteq> Inr None"
  using assms
proof (induction fuel arbitrary: steps pj)
  case (Suc fuel)
  let ?env = "ce_env ce" and ?ts = "load_task_state mid pj"
  obtain x pj' where run: "step ?env pj = (x, pj')" by fastforce
  show ?case
  proof (cases "\<exists>w. x = Inr (Advanced w)")
    case True
    then obtain w where adv: "step ?env pj = (Inr (Advanced w), pj')" using run by blast
    have roles: "\<And>ts. roles_keep ?env mid (plan_is mid tks ts)" "roles_keep ?env mid (tasks_are mid tks)" "roles_quiet ?env"
      using Suc.prems(5) by (simp_all add: roles_leave_plan_def)
    have plan: "plan_is mid tks ?ts pj" using Suc.prems(2) by (simp add: plan_is_def)
    have more: "advances_by tks ?ts (load_task_state mid pj')"
      by (rule step_advances[OF Suc.prems(1) adv plan roles(1) Suc.prems(3,4)])
    then have "gates_idle tks (load_task_state mid pj')" using Suc.prems(4) by (auto simp: advances_by_def intro: progress_gates)
    moreover have "length (open_tasks tks (load_task_state mid pj')) < fuel"
      using more Suc.prems(6) unfolding advances_by_def by (auto dest: progress_settles)
    moreover have "m_tasks (mission_of mid pj') = Some tks"
    proof -
      have "step_mission ?env mid pj = (Inr (Advanced w), pj')" using adv Suc.prems(1) by (simp add: step_def andthen_reads)
      from keeps_result[OF listed.step_mission_keeps[OF refl roles(2)] _ this] Suc.prems(2) show ?thesis by (simp add: tasks_are_def)
    qed
    moreover have "p_state pj' = Some (MissionRunning mid)"
      using step_keeps_queue[OF Suc.prems(1), of ?env] adv roles(3) Suc.prems(1) by (simp add: roles_quiet_def outcome_ok_def quiet_def)
    ultimately have "fst (advance_loop ce max_steps fuel (steps + 1) pj') \<noteq> Inr None" by (intro Suc.IH[OF _ _ Suc.prems(3) _ Suc.prems(5)])
    then show ?thesis using adv by (simp add: andthen_def lifted_def ret_def)
  next
    case False
    then show ?thesis using run by (cases x) (auto simp: andthen_def lifted_def ret_def split: step_result.split)
  qed
qed simp

lemma open_tasks_progress: "progress tks ts ts' \<Longrightarrow> length (open_tasks tks ts') \<le> length (open_tasks tks ts)"
  unfolding open_tasks_def
proof (induction tks)
  case (Cons t tks)
  then show ?case by (auto simp: progress_def open_status_def)
qed simp

lemma before_loop:
  assumes "p_state pj = Some (MissionRunning mid)" "plan_is mid tks ts pj"
    and "andthen (lifted (reconcile_denials mid tks ts)) (\<lambda>_. ret ()) pj = (Inr (), pj')"
  shows "\<exists>ts'. plan_is mid tks ts' pj' \<and> progress tks ts ts' \<and> p_state pj' = Some (MissionRunning mid)"
proof -
  obtain guards ts' where run: "reconcile_denials mid tks ts pj = (Inr (guards, ts'), pj')"
    using assms(3) by (cases "reconcile_denials mid tks ts pj"; cases "fst (reconcile_denials mid tks ts pj)")
      (auto simp: andthen_def lifted_def ret_def)
  from keeps_result[OF quiet.reconcile_denials_keeps _ run, of "p_state pj" "p_attention pj"] assms(1)
  have "p_state pj' = Some (MissionRunning mid)" by (simp add: quiet_def)
  then show ?thesis using reconcile_denials_run[OF run assms(2)] by blast
qed



end
