(* ===== verification/Provider_Review.thy ===== *)
theory Provider_Review
  imports Mission_Store Json
begin

text \<open>
  \<^verbatim>\<open>provider_review.py\<close>: the capture of provider reviews in the frames of one prompt, a latch for denials;
  the files \<^verbatim>\<open>storage.py\<close> keeps of it; and the prompt of \<^verbatim>\<open>acp_runner.py\<close> that uses both.

  A frame is a JSON value.  A number with a fraction occurs in no accepted review, and any value the
  checks refuse stands for it.  \<open>sha256\<close> is an argument.
\<close>

section \<open>Reading JSON objects\<close>

definition jget :: "json \<Rightarrow> string \<Rightarrow> json option" where
  "jget v k = (case v of JObj kvs \<Rightarrow> map_of kvs k | _ \<Rightarrow> None)"

definition is_obj :: "json option \<Rightarrow> bool" where
  "is_obj v \<longleftrightarrow> (case v of Some (JObj _) \<Rightarrow> True | _ \<Rightarrow> False)"

definition keys_are :: "json \<Rightarrow> string list \<Rightarrow> bool" where
  "keys_are v ks \<longleftrightarrow> (case v of JObj kvs \<Rightarrow> set (map fst kvs) = set ks | _ \<Rightarrow> False)"

fun is_str :: "json \<Rightarrow> bool" where
  "is_str (JStr _) = True" | "is_str _ = False"

fun is_str_or_null :: "json \<Rightarrow> bool" where
  "is_str_or_null JNull = True" | "is_str_or_null v = is_str v"

fun is_str_list :: "json \<Rightarrow> bool" where
  "is_str_list (JList xs) = list_all is_str xs" | "is_str_list _ = False"

definition field :: "json \<Rightarrow> string \<Rightarrow> (json \<Rightarrow> bool) \<Rightarrow> bool" where
  "field v k ok \<longleftrightarrow> (case jget v k of None \<Rightarrow> False | Some x \<Rightarrow> ok x)"

definition one_of :: "string list \<Rightarrow> json \<Rightarrow> bool" where
  "one_of ss v \<longleftrightarrow> (case v of JStr s \<Rightarrow> s \<in> set ss | _ \<Rightarrow> False)"

definition null_or :: "(json \<Rightarrow> bool) \<Rightarrow> json \<Rightarrow> bool" where
  "null_or ok v \<longleftrightarrow> v = JNull \<or> ok v"

definition nat_up_to :: "int \<Rightarrow> json \<Rightarrow> bool" where
  "nat_up_to m v \<longleftrightarrow> (case v of JInt i \<Rightarrow> 0 \<le> i \<and> i \<le> m | _ \<Rightarrow> False)"

section \<open>The action under review\<close>

record layout =
  ly_strings :: "string list"
  ly_arrays :: "string list"
  ly_nullable :: "string list"
  ly_rest :: "string list"

definition layout_keys :: "layout \<Rightarrow> string list" where
  "layout_keys l = ly_strings l @ ly_arrays l @ ly_nullable l @ ly_rest l"

definition layouts :: "(string \<times> layout) list" where
  "layouts = [
    (''command'', \<lparr>ly_strings = [''command'', ''cwd''], ly_arrays = [], ly_nullable = [], ly_rest = [''source'']\<rparr>),
    (''execve'', \<lparr>ly_strings = [''program'', ''cwd''], ly_arrays = [''argv''], ly_nullable = [], ly_rest = [''source'']\<rparr>),
    (''writeStdin'', \<lparr>ly_strings = [''approvalId'', ''processId'', ''stdin'', ''cwd''], ly_arrays = [], ly_nullable = [], ly_rest = []\<rparr>),
    (''applyPatch'', \<lparr>ly_strings = [''cwd''], ly_arrays = [''files''], ly_nullable = [], ly_rest = []\<rparr>),
    (''networkAccess'', \<lparr>ly_strings = [''target'', ''host'', ''protocol''], ly_arrays = [], ly_nullable = [], ly_rest = [''port'']\<rparr>),
    (''mcpToolCall'', \<lparr>ly_strings = [''server'', ''toolName''], ly_arrays = [],
       ly_nullable = [''connectorId'', ''connectorName'', ''toolTitle''], ly_rest = []\<rparr>),
    (''requestPermissions'', \<lparr>ly_strings = [], ly_arrays = [], ly_nullable = [''reason''], ly_rest = [''permissions'']\<rparr>)]"

definition valid_filesystem_path :: "json \<Rightarrow> bool" where
  "valid_filesystem_path p = (case jget p ''type'' of
     Some (JStr kind) \<Rightarrow>
       if kind = ''path'' \<or> kind = ''glob_pattern''
       then (let key = (if kind = ''path'' then ''path'' else ''pattern'') in keys_are p [''type'', key] \<and> field p key is_str)
       else if kind \<noteq> ''special'' \<or> \<not> keys_are p [''type'', ''value''] then False
       else (case jget p ''value'' of
           None \<Rightarrow> False
         | Some v \<Rightarrow> (case jget v ''kind'' of
             Some (JStr special) \<Rightarrow>
               if special \<in> {''root'', ''minimal'', ''tmpdir'', ''slash_tmp''} then keys_are v [''kind'']
               else if special = ''project_roots'' then keys_are v [''kind'', ''subpath''] \<and> field v ''subpath'' is_str_or_null
               else if special = ''unknown'' then keys_are v [''kind'', ''path'', ''subpath''] \<and> field v ''path'' is_str
                 \<and> field v ''subpath'' is_str_or_null
               else False
           | _ \<Rightarrow> False))
   | _ \<Rightarrow> False)"

definition valid_entry :: "json \<Rightarrow> bool" where
  "valid_entry e \<longleftrightarrow> keys_are e [''path'', ''access''] \<and> field e ''access'' (one_of [''read'', ''write'', ''deny''])
     \<and> field e ''path'' valid_filesystem_path"

definition valid_filesystem :: "json \<Rightarrow> bool" where
  "valid_filesystem v = (case v of
     JObj kvs \<Rightarrow>
       {''read'', ''write''} \<subseteq> set (map fst kvs) \<and> set (map fst kvs) \<subseteq> {''read'', ''write'', ''globScanMaxDepth'', ''entries''}
       \<and> field v ''read'' (null_or is_str_list) \<and> field v ''write'' (null_or is_str_list)
       \<and> (case jget v ''globScanMaxDepth'' of None \<Rightarrow> True | Some (JInt i) \<Rightarrow> 0 \<le> i | _ \<Rightarrow> False)
       \<and> (case jget v ''entries'' of None \<Rightarrow> True | Some (JList es) \<Rightarrow> list_all valid_entry es | _ \<Rightarrow> False)
   | _ \<Rightarrow> False)"

definition valid_network :: "json \<Rightarrow> bool" where
  "valid_network v \<longleftrightarrow> keys_are v [''enabled''] \<and> field v ''enabled'' (null_or (\<lambda>x. case x of JBool _ \<Rightarrow> True | _ \<Rightarrow> False))"

definition valid_permissions :: "json \<Rightarrow> bool" where
  "valid_permissions v \<longleftrightarrow> keys_are v [''network'', ''fileSystem''] \<and> field v ''network'' (null_or valid_network)
     \<and> field v ''fileSystem'' (null_or valid_filesystem)"

definition valid_action :: "json \<Rightarrow> bool" where
  "valid_action a = (case jget a ''type'' of
     Some (JStr kind) \<Rightarrow> (case map_of layouts kind of
         None \<Rightarrow> False
       | Some l \<Rightarrow>
          keys_are a (''type'' # layout_keys l)
          \<and> list_all (\<lambda>k. field a k is_str) (ly_strings l)
          \<and> list_all (\<lambda>k. field a k is_str_or_null) (ly_nullable l)
          \<and> list_all (\<lambda>k. field a k is_str_list) (ly_arrays l)
          \<and> (kind = ''command'' \<or> kind = ''execve'' \<longrightarrow> field a ''source'' (one_of [''shell'', ''unifiedExec'']))
          \<and> (kind = ''networkAccess'' \<longrightarrow> field a ''protocol'' (one_of [''http'', ''https'', ''socks5Tcp'', ''socks5Udp''])
               \<and> field a ''port'' (nat_up_to 65535))
          \<and> (kind = ''requestPermissions'' \<longrightarrow> field a ''permissions'' valid_permissions))
   | _ \<Rightarrow> False)"

section \<open>The capture\<close>

datatype review_status = In_Progress | Approved | Denied | Timed_Out | Review_Aborted

definition review_statuses :: "(string \<times> review_status) list" where
  "review_statuses = [(''inProgress'', In_Progress), (''approved'', Approved), (''denied'', Denied), (''timedOut'', Timed_Out),
     (''aborted'', Review_Aborted)]"

definition MAX_REVIEWS :: nat where "MAX_REVIEWS = 64"

definition review_identity_ok :: "string \<Rightarrow> bool" where
  "review_identity_ok s \<longleftrightarrow> identity_ok s \<and> length s \<le> 128"

text \<open>
  The state of a capture.  \<open>cp_published\<close> are the calls of the callback \<open>publish\<close>, in their order; whether
  one of them raises is the argument \<open>fails\<close>.
\<close>

record capture =
  cp_session :: string
  cp_credentials :: "string list"
  cp_blocked :: "review_block option"
  cp_reviews :: "(string, review_identity \<times> review_status) dict"
  cp_turn :: "string option"
  cp_signatures :: "(string, string \<times> string) dict"
  cp_published :: "review_block list"

definition new_capture :: "string \<Rightarrow> string list \<Rightarrow> capture" where
  "new_capture session credentials = \<lparr>cp_session = session, cp_credentials = credentials, cp_blocked = None, cp_reviews = [],
     cp_turn = None, cp_signatures = [], cp_published = []\<rparr>"

definition block_capture :: "(review_block \<Rightarrow> bool) \<Rightarrow> block_reason \<Rightarrow> review_identity option \<Rightarrow> capture \<Rightarrow> capture" where
  "block_capture fails reason review cap =
    (case cp_blocked cap of
       Some _ \<Rightarrow> cap
     | None \<Rightarrow>
        (let b = \<lparr>bl_reason = reason, bl_review = review\<rparr>
         in cap\<lparr>cp_blocked := Some (if fails b then \<lparr>bl_reason = Review_Unavailable, bl_review = review\<rparr> else b),
                cp_published := cp_published cap @ [b]\<rparr>))"

definition assessment :: string where
  "assessment = ''guardian_assessment:''"

definition prefixed :: "json option \<Rightarrow> bool" where
  "prefixed call \<longleftrightarrow> (case call of Some (JStr c) \<Rightarrow> take (length assessment) c = assessment | _ \<Rightarrow> False)"

definition known :: "capture \<Rightarrow> json option \<Rightarrow> bool" where
  "known cap call \<longleftrightarrow> (case call of Some (JStr c) \<Rightarrow> c \<in> set (dict_keys (cp_reviews cap)) | _ \<Rightarrow> False)"

definition direct :: "json \<Rightarrow> string \<Rightarrow> bool" where
  "direct u k \<longleftrightarrow> (case jget u k of Some v \<Rightarrow> jget v ''reviewId'' \<noteq> None \<and> jget v ''review'' \<noteq> None | None \<Rightarrow> False)"

definition recognizes :: "capture \<Rightarrow> json option \<Rightarrow> bool" where
  "recognizes cap v = (case v of
     Some u \<Rightarrow> if \<not> is_obj v then False else
       (let call = jget u ''toolCallId'';
            titled = (jget u ''kind'' = Some (JStr ''think'') \<and> jget u ''title'' = Some (JStr ''Guardian Review''));
            raw = direct u ''rawInput'' \<or> direct u ''rawOutput'';
            wrapper = ((case jget u ''rawInput'' of Some i \<Rightarrow> keys_are i [''server'', ''tool'', ''arguments''] | None \<Rightarrow> False)
              \<or> (case jget u ''rawOutput'' of Some r \<Rightarrow> keys_are r [''result'', ''error''] | None \<Rightarrow> False));
            ordinary = (jget u ''sessionUpdate'' = Some (JStr ''tool_call'') \<and> jget u ''kind'' = Some (JStr ''other'')
              \<and> jget u ''title'' \<noteq> Some (JStr ''Guardian Review'') \<and> is_obj (jget u ''rawInput''))
        in if wrapper \<and> \<not> titled \<and> \<not> raw then False
           else titled \<or> raw \<or> (known cap call \<or> prefixed call) \<and> \<not> ordinary)
   | None \<Rightarrow> False)"

definition json_str :: "json option \<Rightarrow> string option" where
  "json_str v = (case v of Some (JStr s) \<Rightarrow> Some s | _ \<Rightarrow> None)"

text \<open>The checks on the update around an event, and the place of the event.\<close>

definition envelope_ok :: "capture \<Rightarrow> json \<Rightarrow> bool" where
  "envelope_ok cap u \<longleftrightarrow>
     (let kind = json_str (jget u ''sessionUpdate''); call = jget u ''toolCallId'' in
      (kind = Some ''tool_call'' \<or> kind = Some ''tool_call_update'')
      \<and> (kind = Some ''tool_call_update'' \<longrightarrow> known cap call
           \<and> (case jget u ''kind'' of None \<Rightarrow> True | Some k \<Rightarrow> k = JStr ''think'')
           \<and> (case jget u ''title'' of None \<Rightarrow> True | Some t \<Rightarrow> t = JStr ''Guardian Review'')
           \<and> jget u ''rawInput'' = None)
      \<and> (kind = Some ''tool_call'' \<longrightarrow> jget u ''rawOutput'' = None
           \<and> jget u ''kind'' = Some (JStr ''think'') \<and> jget u ''title'' = Some (JStr ''Guardian Review''))
      \<and> prefixed call)"

definition event_of :: "json \<Rightarrow> json option" where
  "event_of u = jget u (if json_str (jget u ''sessionUpdate'') = Some ''tool_call'' then ''rawInput'' else ''rawOutput'')"

fun occurs :: "string \<Rightarrow> string \<Rightarrow> bool" where
  "occurs sub [] = (sub = [])"
| "occurs sub (c # cs) = (take (length sub) (c # cs) = sub \<or> occurs sub cs)"

text \<open>The three ids of an event, bound to the session, the call and the turn.\<close>

definition event_identity :: "capture \<Rightarrow> json \<Rightarrow> string \<Rightarrow> json \<Rightarrow> review_identity option" where
  "event_identity cap params call e =
    (case (json_str (jget e ''threadId''), json_str (jget e ''turnId''), json_str (jget e ''reviewId'')) of
       (Some th, Some tu, Some rv) \<Rightarrow>
         if json_str (jget params ''sessionId'') = Some (cp_session cap)
            \<and> review_identity_ok th \<and> review_identity_ok tu \<and> review_identity_ok rv
            \<and> th = cp_session cap \<and> call = assessment @ rv
            \<and> \<not> list_ex (\<lambda>secret. secret \<noteq> [] \<and> list_ex (occurs secret) [th, tu, rv]) (cp_credentials cap)
            \<and> (case cp_turn cap of None \<Rightarrow> True | Some t \<Rightarrow> t = tu)
         then Some \<lparr>ri_thread = th, ri_turn = tu, ri_review = rv\<rparr> else None
     | _ \<Rightarrow> None)"

definition review_ok :: "json \<Rightarrow> bool" where
  "review_ok r \<longleftrightarrow> keys_are r [''status'', ''riskLevel'', ''userAuthorization'', ''rationale'']
     \<and> field r ''riskLevel'' (null_or (one_of [''low'', ''medium'', ''high'', ''critical'']))
     \<and> field r ''userAuthorization'' (null_or (one_of [''unknown'', ''low'', ''medium'', ''high'']))
     \<and> field r ''rationale'' is_str_or_null"

definition MAX_SAFE_INTEGER :: int where "MAX_SAFE_INTEGER = 2 ^ 53 - 1"

definition event_status :: "json \<Rightarrow> review_status option" where
  "event_status e = (case jget e ''review'' of None \<Rightarrow> None | Some r \<Rightarrow>
     (case json_str (jget r ''status'') of None \<Rightarrow> None | Some s \<Rightarrow> map_of review_statuses s))"

definition event_ok :: "json \<Rightarrow> review_status \<Rightarrow> bool" where
  "event_ok e status \<longleftrightarrow>
     (let completed = jget e ''completedAtMs'' \<noteq> None in
      keys_are e ([''threadId'', ''turnId'', ''reviewId'', ''startedAtMs'', ''targetItemId'', ''review'', ''action'']
        @ (if completed then [''completedAtMs'', ''decisionSource''] else []))
      \<and> field e ''startedAtMs'' (nat_up_to MAX_SAFE_INTEGER)
      \<and> (completed \<longrightarrow> field e ''completedAtMs'' (nat_up_to MAX_SAFE_INTEGER) \<and> jget e ''decisionSource'' = Some (JStr ''agent'')
           \<and> (case (jget e ''startedAtMs'', jget e ''completedAtMs'') of (Some (JInt a), Some (JInt b)) \<Rightarrow> a \<le> b | _ \<Rightarrow> False))
      \<and> field e ''targetItemId'' (null_or (\<lambda>v. case v of JStr i \<Rightarrow> review_identity_ok i | _ \<Rightarrow> False))
      \<and> field e ''review'' review_ok
      \<and> completed = (status \<noteq> In_Progress)
      \<and> field e ''action'' valid_action)"

definition expected_status :: "review_status \<Rightarrow> string" where
  "expected_status status = (if status = In_Progress then ''in_progress'' else if status = Approved then ''completed'' else ''failed'')"

text \<open>\<open>json.dumps(value, sort_keys=True)\<close>, whose digests tell conflicting deliveries.\<close>

fun encode_spaced :: "json \<Rightarrow> string" where
  "encode_spaced (JList xs) = ''['' @ join '', '' (map encode_spaced xs) @ '']''"
| "encode_spaced (JObj kvs) = ''{'' @ join '', '' (map (\<lambda>kv. quote (fst kv) @ '': '' @ encode_spaced (snd kv)) kvs) @ ''}''"
| "encode_spaced v = encode v"

definition event_digest :: "(string \<Rightarrow> string) \<Rightarrow> json \<Rightarrow> string" where
  "event_digest sha e = sha (encode_spaced (sort_keys e))"

definition origin_digest :: "(string \<Rightarrow> string) \<Rightarrow> json \<Rightarrow> string" where
  "origin_digest sha e = sha (encode_spaced (sort_keys (JObj (map (\<lambda>k. (k, the (jget e k)))
     [''threadId'', ''turnId'', ''reviewId'', ''startedAtMs'', ''targetItemId'', ''action'']))))"

text \<open>What the capture knows of the same call already.\<close>

definition consistent :: "(string \<Rightarrow> string) \<Rightarrow> capture \<Rightarrow> string \<Rightarrow> review_identity \<Rightarrow> review_status \<Rightarrow> json \<Rightarrow> bool" where
  "consistent sha cap call binding status e \<longleftrightarrow>
     (case map_of (cp_reviews cap) call of
        None \<Rightarrow> length (cp_reviews cap) < MAX_REVIEWS
      | Some (b, s) \<Rightarrow> b = binding \<and> (s = In_Progress \<or> s = status))
     \<and> (case map_of (cp_signatures cap) call of
        None \<Rightarrow> True
      | Some (origin, last_event) \<Rightarrow> origin = origin_digest sha e
          \<and> (case map_of (cp_reviews cap) call of
               Some (_, s) \<Rightarrow> s = In_Progress \<or> last_event = event_digest sha e
             | None \<Rightarrow> True))"

text \<open>The call, the identity and the status of an update that passes every check.\<close>

definition accepted_review :: "(string \<Rightarrow> string) \<Rightarrow> capture \<Rightarrow> json \<Rightarrow> json \<Rightarrow> (string \<times> review_identity \<times> review_status \<times> json) option" where
  "accepted_review sha cap params u =
    (if \<not> envelope_ok cap u then None else
     case (json_str (jget u ''toolCallId''), event_of u) of
       (Some call, Some e) \<Rightarrow>
        (case (event_identity cap params call e, event_status e) of
           (Some binding, Some status) \<Rightarrow>
             if event_ok e status \<and> jget u ''status'' = Some (JStr (expected_status status)) \<and> consistent sha cap call binding status e
             then Some (call, binding, status, e) else None
         | _ \<Rightarrow> None)
     | _ \<Rightarrow> None)"

definition consume :: "(string \<Rightarrow> string) \<Rightarrow> (review_block \<Rightarrow> bool) \<Rightarrow> json \<Rightarrow> capture \<Rightarrow> capture" where
  "consume sha fails params cap =
    (case jget params ''update'' of
       None \<Rightarrow> cap
     | Some u \<Rightarrow>
        if \<not> recognizes cap (Some u) then cap
        else (case accepted_review sha cap params u of
            None \<Rightarrow> block_capture fails Review_Invalid_Context None cap
          | Some (call, binding, status, e) \<Rightarrow>
             (let cap' = cap\<lparr>cp_signatures := dict_put call (origin_digest sha e, event_digest sha e) (cp_signatures cap),
                          cp_turn := Some (ri_turn binding), cp_reviews := dict_put call (binding, status) (cp_reviews cap)\<rparr>
              in if status = Denied then block_capture fails Review_Denied (Some binding) cap' else cap')))"

definition envelope_of_frame :: "json \<Rightarrow> bool" where
  "envelope_of_frame frame \<longleftrightarrow> jget frame ''jsonrpc'' = Some (JStr ''2.0'') \<and> jget frame ''method'' = Some (JStr ''session/update'')
     \<and> jget frame ''id'' = None \<and> jget frame ''result'' = None \<and> jget frame ''error'' = None"

definition frame_update :: "json \<Rightarrow> json option" where
  "frame_update frame = (case jget frame ''params'' of None \<Rightarrow> None | Some params \<Rightarrow> jget params ''update'')"

definition misplaced :: "capture \<Rightarrow> json \<Rightarrow> bool" where
  "misplaced cap frame \<longleftrightarrow> recognizes cap (jget frame ''params'') \<or> recognizes cap (Some frame) \<or> recognizes cap (jget frame ''update'')"

definition consume_frame :: "(string \<Rightarrow> string) \<Rightarrow> (review_block \<Rightarrow> bool) \<Rightarrow> json \<Rightarrow> capture \<Rightarrow> bool \<times> capture" where
  "consume_frame sha fails frame cap =
    (if \<not> recognizes cap (frame_update frame)
     then (if misplaced cap frame then (True, block_capture fails Review_Invalid_Context None cap) else (False, cap))
     else (True, if \<not> envelope_of_frame frame then block_capture fails Review_Invalid_Context None cap
                 else consume sha fails (the (jget frame ''params'')) cap))"

definition transport_invalid :: "(review_block \<Rightarrow> bool) \<Rightarrow> capture \<Rightarrow> capture" where
  "transport_invalid fails = block_capture fails Review_Invalid_Context None"

section \<open>The files of a review\<close>

text \<open>\<open>json.dumps(value, ensure_ascii=True, indent=2)\<close>, whose length the writers bound.\<close>

definition indented :: "nat \<Rightarrow> string" where
  "indented d = newline @ replicate d CHR '' ''"

fun encode_pretty :: "nat \<Rightarrow> json \<Rightarrow> string" where
  "encode_pretty d (JList xs) = (if xs = [] then ''[]''
     else ''['' @ indented (d + 2) @ join ('','' @ indented (d + 2)) (map (encode_pretty (d + 2)) xs) @ indented d @ '']'')"
| "encode_pretty d (JObj kvs) = (if kvs = [] then ''{}''
     else ''{'' @ indented (d + 2) @ join ('','' @ indented (d + 2)) (map (\<lambda>kv. quote (fst kv) @ '': '' @ encode_pretty (d + 2) (snd kv)) kvs)
       @ indented d @ ''}'')"
| "encode_pretty d v = encode v"

definition cursor_value :: "string \<Rightarrow> string \<Rightarrow> string \<Rightarrow> string \<Rightarrow> string \<Rightarrow> string \<Rightarrow> json" where
  "cursor_value pid mid attempt node session phase = JObj [(''schema'', JStr ''unrest.provider-review-cursor.v1''), (''session_id'', JStr session),
     (''resumable'', JBool False), (''phase'', JStr phase), (''project_id'', JStr pid), (''mission_id'', JStr mid),
     (''attempt_id'', JStr attempt), (''node_id'', JStr node)]"

definition block_value :: "string \<Rightarrow> string \<Rightarrow> string \<Rightarrow> string \<Rightarrow> string \<Rightarrow> review_block \<Rightarrow> json" where
  "block_value pid mid attempt node session b = JObj [(''schema'', JStr ''unrest.provider-review-block.v1''), (''provider'', JStr ''codex''),
     (''project_id'', JStr pid), (''mission_id'', JStr mid), (''attempt_id'', JStr attempt), (''node_id'', JStr node),
     (''session_id'', JStr session), (''reason'', JStr (reason_text (bl_reason b))),
     (''review'', (case bl_review b of None \<Rightarrow> JNull
        | Some r \<Rightarrow> JObj [(''thread_id'', JStr (ri_thread r)), (''turn_id'', JStr (ri_turn r)), (''review_id'', JStr (ri_review r))]))]"

definition carrier_of :: "string \<Rightarrow> string \<Rightarrow> string \<Rightarrow> project \<Rightarrow> carrier" where
  "carrier_of mid attempt node pj = dict_get (m_carriers (mission_of mid pj)) no_carrier (attempt, node)"

definition put_carrier :: "string \<Rightarrow> string \<Rightarrow> string \<Rightarrow> (carrier \<Rightarrow> carrier) \<Rightarrow> project \<Rightarrow> project" where
  "put_carrier mid attempt node f pj = update_mission mid
     (\<lambda>m. m\<lparr>m_carriers := dict_put (attempt, node) (f (dict_get (m_carriers m) no_carrier (attempt, node))) (m_carriers m)\<rparr>) pj"

text \<open>Writes of which the first \<open>done_writes\<close> succeed; the next one raises.\<close>

fun writes :: "nat \<Rightarrow> (project \<Rightarrow> project) list \<Rightarrow> unit run_eff" where
  "writes n [] = ret ()"
| "writes 0 (f # fs) = throw (Run_Error ''OSError'')"
| "writes (Suc n) (f # fs) = andthen (modifies f) (\<lambda>_. writes n fs)"

definition review_value_error :: "string \<Rightarrow> run_exn" where
  "review_value_error text = Run_Error text"

definition begin_provider_review :: "nat \<Rightarrow> string \<Rightarrow> string \<Rightarrow> string \<Rightarrow> string \<Rightarrow> unit run_eff" where
  "begin_provider_review n mid attempt node session =
    andthen (reads id) (\<lambda>pj.
    if review_of (mission_of mid pj) attempt node \<noteq> None then throw (review_value_error ''provider review context already exists'')
    else if \<not> review_identity_ok session then throw (review_value_error ''invalid review identity'')
    else if 2048 < length (encode_pretty 0 (cursor_value (p_id pj) mid attempt node session ''active''))
    then throw (review_value_error ''provider review binding exceeds bound'')
    else writes n [put_carrier mid attempt node (\<lambda>c. c\<lparr>cr_cursor := Active_Cursor session\<rparr>)])"

definition save_provider_review :: "nat \<Rightarrow> string \<Rightarrow> string \<Rightarrow> string \<Rightarrow> string \<Rightarrow> review_block \<Rightarrow> unit run_eff" where
  "save_provider_review n mid attempt node session b =
    andthen (reads id) (\<lambda>pj.
    if 4000 < length (encode_pretty 0 (block_value (p_id pj) mid attempt node session b))
    then throw (review_value_error ''provider review record exceeds bound'')
    else case cr_durable (carrier_of mid attempt node pj) of
      No_Durable \<Rightarrow> writes n
        [put_carrier mid attempt node (\<lambda>c. c\<lparr>cr_cursor := Blocked_Cursor session\<rparr>),
         put_carrier mid attempt node (\<lambda>c. c\<lparr>cr_durable := Durable_Block session (bl_reason b) (bl_review b)\<rparr>)]
    | d \<Rightarrow> if d = Durable_Block session (bl_reason b) (bl_review b) then ret ()
           else throw (review_value_error ''provider review identity conflicts''))"

definition finish_provider_review :: "nat \<Rightarrow> string \<Rightarrow> string \<Rightarrow> string \<Rightarrow> unit run_eff" where
  "finish_provider_review n mid attempt node = writes n [put_carrier mid attempt node (\<lambda>c. c\<lparr>cr_cursor := No_Cursor\<rparr>)]"

section \<open>A prompt under review\<close>

text \<open>
  What the transport reader of \<^verbatim>\<open>acp_runner.py\<close> meets once the prompt is sent: an entry (of a line that holds one,
  or of a batch), a line that is no JSON, or a read that raises; the reader stops behind the last two.  The
  capture publishes to the store; \<open>w\<close> is how many of the writes of a call succeed.
\<close>

datatype transport_event = Entry json | Bad_Line | Read_Failure

definition publish :: "nat \<Rightarrow> string \<Rightarrow> string \<Rightarrow> string \<Rightarrow> string \<Rightarrow> (capture \<Rightarrow> capture) \<Rightarrow> capture \<Rightarrow> capture run_eff" where
  "publish w mid attempt node session f cap =
    (let cap' = f cap in
     case drop (length (cp_published cap)) (cp_published cap') of
       [] \<Rightarrow> ret cap'
     | b # _ \<Rightarrow> andthen (handling (save_provider_review w mid attempt node session b) (\<lambda>_. ret ())) (\<lambda>_. ret cap'))"

text \<open>Whether the call of \<open>publish\<close> raises is decided by the store at the time of the frame.\<close>

definition publish_fails :: "nat \<Rightarrow> string \<Rightarrow> string \<Rightarrow> string \<Rightarrow> string \<Rightarrow> project \<Rightarrow> review_block \<Rightarrow> bool" where
  "publish_fails w mid attempt node session pj b \<longleftrightarrow> isl (fst (save_provider_review w mid attempt node session b pj))"

text \<open>The future of the prompt, the one request that is pending, under the id \<open>rid\<close>.\<close>

datatype prompt_answer = Unanswered | Answered json | Prompt_Failed

definition fail_pending :: "prompt_answer \<Rightarrow> prompt_answer" where
  "fail_pending ans = (if ans = Unanswered then Prompt_Failed else ans)"

definition is_response :: "json \<Rightarrow> bool" where
  "is_response frame \<longleftrightarrow> jget frame ''result'' \<noteq> None \<or> jget frame ''error'' \<noteq> None"

text \<open>\<open>_handle_response\<close>; a response whose id is no number and no string raises.\<close>

definition response_outcome :: "json \<Rightarrow> prompt_answer" where
  "response_outcome frame = (case jget frame ''error'' of
     Some _ \<Rightarrow> Prompt_Failed
   | None \<Rightarrow> Answered (case jget frame ''result'' of None \<Rightarrow> JNull | Some r \<Rightarrow> r))"

definition handle_response :: "int \<Rightarrow> json \<Rightarrow> prompt_answer \<Rightarrow> string + prompt_answer" where
  "handle_response rid frame ans = (case jget frame ''id'' of
     None \<Rightarrow> Inr ans
   | Some v \<Rightarrow> (case v of
       JNull \<Rightarrow> Inr ans
     | JStr _ \<Rightarrow> Inr ans
     | JInt i \<Rightarrow> Inr (if i = rid \<and> ans = Unanswered then response_outcome frame else ans)
     | _ \<Rightarrow> Inl ''Invalid ACP response ID''))"

definition read_invalid :: "nat \<Rightarrow> string \<Rightarrow> string \<Rightarrow> string \<Rightarrow> capture \<Rightarrow> capture run_eff" where
  "read_invalid w mid attempt node cap =
    andthen (reads (publish_fails w mid attempt node (cp_session cap))) (\<lambda>fails.
    publish w mid attempt node (cp_session cap) (transport_invalid fails) cap)"

definition read_frame :: "(string \<Rightarrow> string) \<Rightarrow> nat \<Rightarrow> string \<Rightarrow> string \<Rightarrow> string \<Rightarrow> json \<Rightarrow> capture \<Rightarrow> (bool \<times> capture) run_eff" where
  "read_frame sha w mid attempt node frame cap =
    andthen (reads (publish_fails w mid attempt node (cp_session cap))) (\<lambda>fails.
    andthen (publish w mid attempt node (cp_session cap) (\<lambda>c. snd (consume_frame sha fails frame c)) cap) (\<lambda>cap'.
    ret (fst (consume_frame sha fails frame cap), cap')))"

text \<open>\<open>_read_loop\<close> and \<open>_finish_reader\<close>: the capture, what became of the prompt, and the error of the reader.\<close>

fun read_loop :: "(string \<Rightarrow> string) \<Rightarrow> nat \<Rightarrow> string \<Rightarrow> string \<Rightarrow> string \<Rightarrow> int \<Rightarrow> transport_event list \<Rightarrow> capture \<Rightarrow> prompt_answer
    \<Rightarrow> (capture \<times> prompt_answer \<times> string option) run_eff" where
  "read_loop sha w mid attempt node rid [] cap ans = ret (cap, fail_pending ans, None)"
| "read_loop sha w mid attempt node rid (Bad_Line # es) cap ans =
    andthen (read_invalid w mid attempt node cap) (\<lambda>cap'. ret (cap', fail_pending ans, Some ''Invalid ACP JSON frame''))"
| "read_loop sha w mid attempt node rid (Read_Failure # es) cap ans =
    andthen (read_invalid w mid attempt node cap) (\<lambda>cap'. ret (cap', fail_pending ans, Some ''ACP reader failed''))"
| "read_loop sha w mid attempt node rid (Entry frame # es) cap ans =
    (if \<not> is_obj (Some frame) then read_loop sha w mid attempt node rid es cap ans
     else andthen (read_frame sha w mid attempt node frame cap) (\<lambda>(recognized, cap').
       let ans' = (if cp_blocked cap' \<noteq> None then fail_pending ans else ans) in
       if cp_blocked cap' \<noteq> None \<and> recognized \<or> \<not> is_response frame
       then read_loop sha w mid attempt node rid es cap' ans'
       else case handle_response rid frame ans' of
         Inr next_ans \<Rightarrow> read_loop sha w mid attempt node rid es cap' next_ans
       | Inl _ \<Rightarrow> andthen (read_invalid w mid attempt node cap') (\<lambda>cap''. ret (cap'', fail_pending ans', Some ''ACP reader failed''))))"

text \<open>\<open>_dispatch\<close>: a request of the provider is refused once its prompt is blocked.\<close>

definition request_refused :: "capture \<Rightarrow> string \<Rightarrow> bool" where
  "request_refused cap rpc \<longleftrightarrow> cp_blocked cap \<noteq> None \<and> rpc \<noteq> ''session/update''"

text \<open>The error of the reader of a client without a capture.\<close>

fun reader_error :: "transport_event list \<Rightarrow> string option" where
  "reader_error [] = None"
| "reader_error (Bad_Line # es) = Some ''Invalid ACP JSON frame''"
| "reader_error (Read_Failure # es) = Some ''ACP reader failed''"
| "reader_error (Entry frame # es) =
    (if is_obj (Some frame) \<and> is_response frame \<and> isl (handle_response 0 frame Prompt_Failed) then Some ''ACP reader failed''
     else reader_error es)"

section \<open>What a prompt returns\<close>

text \<open>
  What the session outside the model contributes: whether the request was written, the record of the
  invocation was stored and every finalizer returned, what the server of the agent wrote at the path of the
  handoff, as it reads with credentials redacted, and the report of a session that ended without one.
\<close>

record prompt_world =
  pw_sent :: bool
  pw_recorded :: bool
  pw_finalized :: bool
  pw_left :: "attempt_file option"
  pw_report :: string

definition session_failed :: "prompt_world \<Rightarrow> prompt_answer \<Rightarrow> bool" where
  "session_failed pw ans \<longleftrightarrow> \<not> pw_sent pw \<or> (case ans of Answered r \<Rightarrow> is_obj (Some r) \<and> \<not> pw_recorded pw | _ \<Rightarrow> True)"

definition empty_handoff :: "task \<Rightarrow> handoff" where
  "empty_handoff t = (if t_type t = Validate then ValidateHandoff (t_id t) None False [] [] False False
     else WorkHandoff (t_id t) None False [] False)"

definition attempt_file_of :: "string \<Rightarrow> string \<Rightarrow> string \<Rightarrow> project \<Rightarrow> attempt_file option" where
  "attempt_file_of mid attempt node pj = map_of (m_attempts (mission_of mid pj)) (attempt, node)"

definition put_attempt_file :: "string \<Rightarrow> string \<Rightarrow> string \<Rightarrow> attempt_file \<Rightarrow> project \<Rightarrow> project" where
  "put_attempt_file mid attempt node file = update_mission mid (\<lambda>m. m\<lparr>m_attempts := dict_put (attempt, node) file (m_attempts m)\<rparr>)"

definition parse_handoff_file :: "task \<Rightarrow> string \<Rightarrow> attempt_file \<Rightarrow> string + handoff" where
  "parse_handoff_file t attempt file = (case file of
     Bad_Attempt e \<Rightarrow> Inl e
   | Attempt h _ \<Rightarrow>
      if is_validate_handoff h \<noteq> (t_type t = Validate) then Inl ''handoff of the wrong kind''
      else if h_node_id h \<noteq> t_id t then Inl ''attempt node_id does not match dispatched task''
      else if h_attempt_id h \<noteq> Some attempt then Inl ''attempt_id does not match dispatched generation''
      else Inr h)"

definition missing_handoff :: "task \<Rightarrow> string \<Rightarrow> string \<Rightarrow> handoff" where
  "missing_handoff t attempt report = (if t_type t = Validate then ValidateHandoff (t_id t) (Some attempt) False report [] False False
     else WorkHandoff (t_id t) (Some attempt) False report False)"

text \<open>The end of \<open>run_node\<close>, behind the review: a failed session raises only over a file, and without one a
  handoff that is not done is written.\<close>

definition node_handoff :: "nat \<Rightarrow> string \<Rightarrow> task \<Rightarrow> string \<Rightarrow> prompt_world \<Rightarrow> prompt_answer \<Rightarrow> handoff run_eff" where
  "node_handoff w mid t attempt pw ans =
    andthen (reads (attempt_file_of mid attempt (t_id t))) (\<lambda>file.
    case file of
      Some f \<Rightarrow> if session_failed pw ans then throw (Run_Error ''ACP session failed'')
                else (case parse_handoff_file t attempt f of Inl e \<Rightarrow> throw (Run_Error e) | Inr h \<Rightarrow> ret h)
    | None \<Rightarrow> (let h = missing_handoff t attempt (pw_report pw)
               in andthen (writes w [put_attempt_file mid attempt (t_id t) (Attempt h True)]) (\<lambda>_. ret h)))"

definition leave_file :: "string \<Rightarrow> task \<Rightarrow> string \<Rightarrow> prompt_world \<Rightarrow> unit run_eff" where
  "leave_file mid t attempt pw = modifies (case pw_left pw of None \<Rightarrow> id | Some f \<Rightarrow> put_attempt_file mid attempt (t_id t) f)"

text \<open>
  The prompt of a codex dispatch without recovery, from the session to the handoff that is returned: the
  outcome of the review comes before the errors of the reader and of the session, and these before a file.
\<close>

definition settle_prompt :: "nat \<Rightarrow> string \<Rightarrow> task \<Rightarrow> string \<Rightarrow> prompt_world \<Rightarrow> capture \<times> prompt_answer \<times> string option \<Rightarrow> handoff run_eff" where
  "settle_prompt w mid t attempt pw result = (case result of (cap, ans, broken) \<Rightarrow>
    andthen (leave_file mid t attempt pw) (\<lambda>_.
    if \<not> pw_finalized pw then throw (Run_Error ''cleanup failed'')
    else case cp_blocked cap of
      Some b \<Rightarrow> ret (blocked_handoff (empty_handoff t) b attempt)
    | None \<Rightarrow> (case broken of
        Some e \<Rightarrow> throw (Run_Error e)
      | None \<Rightarrow> andthen (finish_provider_review w mid attempt (t_id t)) (\<lambda>_. node_handoff w mid t attempt pw ans))))"

definition unreviewed_end :: "nat \<Rightarrow> string \<Rightarrow> task \<Rightarrow> string \<Rightarrow> prompt_world \<Rightarrow> transport_event list \<Rightarrow> handoff run_eff" where
  "unreviewed_end w mid t attempt pw es =
    andthen (leave_file mid t attempt pw) (\<lambda>_.
    if \<not> pw_finalized pw then throw (Run_Error ''cleanup failed'')
    else case reader_error es of
      Some e \<Rightarrow> throw (Run_Error e)
    | None \<Rightarrow> node_handoff w mid t attempt pw Prompt_Failed)"

definition reviewed_prompt ::
  "(string \<Rightarrow> string) \<Rightarrow> nat \<Rightarrow> string \<Rightarrow> task \<Rightarrow> string \<Rightarrow> string \<Rightarrow> string list \<Rightarrow> int \<Rightarrow> transport_event list \<Rightarrow> prompt_world
    \<Rightarrow> handoff run_eff" where
  "reviewed_prompt sha w mid t attempt session credentials rid es pw =
    andthen (handling (andthen (begin_provider_review w mid attempt (t_id t) session) (\<lambda>_. ret True)) (\<lambda>_. ret False)) (\<lambda>begun.
    if begun
    then andthen (read_loop sha w mid attempt (t_id t) rid es (new_capture session credentials) Unanswered)
           (settle_prompt w mid t attempt pw)
    else unreviewed_end w mid t attempt pw es)"

end
