(* ===== verification/Provider_Review_Proofs.thy ===== *)
theory Provider_Review_Proofs
  imports Provider_Review Coordinator_Theorems Controller_Proofs
begin

text \<open>
  The capture is a latch: what it has blocked stays blocked, and an unblocked capture has seen no denial.
  With the files of the store, a prompt that was blocked is never read as done.
\<close>

section \<open>The latch\<close>

inductive capture_step :: "capture \<Rightarrow> capture \<Rightarrow> bool" where
  frame: "capture_step cap (snd (consume_frame sha fails frame cap))"
| bad_line: "capture_step cap (transport_invalid fails cap)"

lemma block_capture_blocked: "cp_blocked cap = Some b \<Longrightarrow> block_capture fails reason review cap = cap"
  by (simp add: block_capture_def)

lemma block_capture_blocks: "cp_blocked (block_capture fails reason review cap) \<noteq> None"
  by (simp add: block_capture_def Let_def split: option.split)

lemma block_capture_fields [simp]:
  "cp_reviews (block_capture fails reason review cap) = cp_reviews cap" "cp_turn (block_capture fails reason review cap) = cp_turn cap"
  "cp_signatures (block_capture fails reason review cap) = cp_signatures cap" "cp_session (block_capture fails reason review cap) = cp_session cap"
  "cp_credentials (block_capture fails reason review cap) = cp_credentials cap"
  by (simp_all add: block_capture_def Let_def split: option.split)

text \<open>The three ways a frame can go.\<close>

lemma consume_frame_cases:
  obtains (ignored) "consume_frame sha fails frame cap = (False, cap)"
  | (invalid) "consume_frame sha fails frame cap = (True, block_capture fails Review_Invalid_Context None cap)"
  | (review) params u call binding status e where "jget frame ''params'' = Some params" "jget params ''update'' = Some u"
      "accepted_review sha cap params u = Some (call, binding, status, e)"
      "consume_frame sha fails frame cap = (True,
         let cap' = cap\<lparr>cp_signatures := dict_put call (origin_digest sha e, event_digest sha e) (cp_signatures cap),
                        cp_turn := Some (ri_turn binding), cp_reviews := dict_put call (binding, status) (cp_reviews cap)\<rparr>
         in if status = Denied then block_capture fails Review_Denied (Some binding) cap' else cap')"
proof (cases "recognizes cap (frame_update frame) \<and> envelope_of_frame frame")
  case False
  then consider "consume_frame sha fails frame cap = (False, cap)"
    | "consume_frame sha fails frame cap = (True, block_capture fails Review_Invalid_Context None cap)"
    by (cases "recognizes cap (frame_update frame)"; cases "misplaced cap frame") (simp_all add: consume_frame_def)
  then show ?thesis using that(1,2) by cases
next
  case True
  then obtain params u where frame: "jget frame ''params'' = Some params" "jget params ''update'' = Some u"
    by (auto simp: frame_update_def recognizes_def split: option.splits)
  have rec: "recognizes cap (Some u)" using True frame by (simp add: frame_update_def)
  have eq: "consume_frame sha fails frame cap = (True, consume sha fails params cap)"
    using True frame by (simp add: consume_frame_def)
  show ?thesis
  proof (cases "accepted_review sha cap params u")
    case None
    then show ?thesis using eq rec frame by (intro that(2)) (simp add: consume_def)
  next
    case (Some x)
    obtain call binding status e where "x = (call, binding, status, e)" by (metis prod_cases4)
    then show ?thesis using eq rec frame Some by (intro that(3)[OF frame]) (simp_all add: consume_def)
  qed
qed

lemma step_cases:
  assumes "capture_step cap cap'"
  obtains (same) "cap' = cap"
  | (invalid) fails where "cap' = block_capture fails Review_Invalid_Context None cap"
  | (review) sha fails params u call binding status e where "accepted_review sha cap params u = Some (call, binding, status, e)"
      "cap' = (let c = cap\<lparr>cp_signatures := dict_put call (origin_digest sha e, event_digest sha e) (cp_signatures cap),
                        cp_turn := Some (ri_turn binding), cp_reviews := dict_put call (binding, status) (cp_reviews cap)\<rparr>
         in if status = Denied then block_capture fails Review_Denied (Some binding) c else c)"
  using assms
proof cases
  case (frame sha fails frame)
  show ?thesis by (rule consume_frame_cases[of sha fails frame cap]) (use frame that in auto)
next
  case (bad_line fails)
  then show ?thesis using that(2) by (simp add: transport_invalid_def)
qed

lemma step_latched: "capture_step cap cap' \<Longrightarrow> cp_blocked cap = Some b \<Longrightarrow> cp_blocked cap' = Some b \<and> cp_published cap' = cp_published cap"
  by (erule step_cases) (auto simp: Let_def block_capture_def)

text \<open>C28. The denial latch.  Whatever frames the provider sends and whatever lines arrive behind it, a capture that
  is blocked stays blocked with the same reason and the same review, and publishes nothing more: a later
  approval of the same or of another review does not lift a denial.\<close>

theorem blocked_capture_is_final:
  assumes "capture_step\<^sup>*\<^sup>* cap cap'" "cp_blocked cap = Some b"
  shows "cp_blocked cap' = Some b \<and> cp_published cap' = cp_published cap"
  using assms(1)
proof (induction rule: rtranclp_induct)
  case base
  show ?case using assms(2) by simp
next
  case (step c c')
  then show ?case using step_latched[OF step.hyps(2), of b] by simp
qed

section \<open>What an accepted review satisfies\<close>

definition review_bound :: "capture \<Rightarrow> string \<Rightarrow> review_identity \<Rightarrow> bool" where
  "review_bound cap call b \<longleftrightarrow> call = assessment @ ri_review b \<and> ri_thread b = cp_session cap
     \<and> list_all review_identity_ok [ri_thread b, ri_turn b, ri_review b]
     \<and> \<not> list_ex (\<lambda>secret. secret \<noteq> [] \<and> list_ex (occurs secret) [ri_thread b, ri_turn b, ri_review b]) (cp_credentials cap)"

lemma review_bound_fields:
  "cp_session c = cp_session cap \<Longrightarrow> cp_credentials c = cp_credentials cap \<Longrightarrow> review_bound c call b = review_bound cap call b"
  by (simp add: review_bound_def)

lemma review_bound_block [simp]: "review_bound (block_capture fails reason review cap) = review_bound cap"
  by (intro ext review_bound_fields) simp_all

lemma event_identity_Some:
  "event_identity cap params call e = Some b \<Longrightarrow> review_bound cap call b \<and> (\<forall>t. cp_turn cap = Some t \<longrightarrow> t = ri_turn b)"
  by (auto simp: event_identity_def review_bound_def split: option.splits if_splits)

lemma accepted_Some:
  assumes "accepted_review sha cap params u = Some (call, b, status, e)"
  shows "review_bound cap call b" "\<forall>t. cp_turn cap = Some t \<longrightarrow> t = ri_turn b" "consistent sha cap call b status e"
  using assms event_identity_Some[of cap params call e b]
  by (auto simp: accepted_review_def split: option.splits if_splits)

text \<open>
  What holds of a capture after any frames: at most 64 reviews, each of the session and of one turn, named by
  its call and free of credentials; a denial only when the capture is blocked; and one publication behind a
  block, with its reason unless it could not be stored, for a recorded denial or for none.
\<close>

definition review_recorded :: "capture \<Rightarrow> string \<Rightarrow> review_identity \<Rightarrow> review_status \<Rightarrow> bool" where
  "review_recorded cap call b s \<longleftrightarrow> map_of (cp_reviews cap) call = Some (b, s)"

definition block_published :: "capture \<Rightarrow> bool" where
  "block_published cap \<longleftrightarrow> (case cp_blocked cap of None \<Rightarrow> cp_published cap = []
     | Some b \<Rightarrow> \<exists>p. cp_published cap = [p] \<and> bl_review b = bl_review p \<and> bl_reason b \<in> {bl_reason p, Review_Unavailable}
         \<and> (case bl_review p of None \<Rightarrow> bl_reason p = Review_Invalid_Context
            | Some r \<Rightarrow> bl_reason p = Review_Denied \<and> review_recorded cap (assessment @ ri_review r) r Denied))"

definition reviews_ok :: "capture \<Rightarrow> bool" where
  "reviews_ok cap \<longleftrightarrow> (\<forall>call b s. review_recorded cap call b s \<longrightarrow> review_bound cap call b \<and> cp_turn cap = Some (ri_turn b))"

definition capture_ok :: "capture \<Rightarrow> bool" where
  "capture_ok cap \<longleftrightarrow> length (cp_reviews cap) \<le> MAX_REVIEWS \<and> reviews_ok cap \<and> block_published cap
     \<and> (cp_blocked cap = None \<longrightarrow> (\<forall>call b. \<not> review_recorded cap call b Denied))"

definition record_review :: "(string \<Rightarrow> string) \<Rightarrow> string \<Rightarrow> review_identity \<Rightarrow> review_status \<Rightarrow> json \<Rightarrow> capture \<Rightarrow> capture" where
  "record_review sha call b status e cap = cap\<lparr>cp_signatures := dict_put call (origin_digest sha e, event_digest sha e) (cp_signatures cap),
     cp_turn := Some (ri_turn b), cp_reviews := dict_put call (b, status) (cp_reviews cap)\<rparr>"

lemma recorded_after: "review_recorded (record_review sha call b status e cap) k b' s
    \<longleftrightarrow> (if k = call then b' = b \<and> s = status else review_recorded cap k b' s)"
  by (auto simp: review_recorded_def record_review_def update_conv)

lemma recorded_block [simp]: "review_recorded (block_capture fails reason review cap) = review_recorded cap"
  by (intro ext) (simp add: review_recorded_def)

lemma record_length:
  assumes "consistent sha cap call b status e" "length (cp_reviews cap) \<le> MAX_REVIEWS"
  shows "length (cp_reviews (record_review sha call b status e cap)) \<le> MAX_REVIEWS"
proof (cases "call \<in> set (dict_keys (cp_reviews cap))")
  case True
  then have "length (dict_keys (dict_put call (b, status) (cp_reviews cap))) = length (dict_keys (cp_reviews cap))"
    by (simp only: dict_keys_put_mem)
  then show ?thesis using assms(2) by (simp add: record_review_def)
next
  case False
  then have "map_of (cp_reviews cap) call = None" by (simp add: map_of_eq_None_iff)
  then show ?thesis using assms False by (simp add: record_review_def consistent_def dict_put_new)
qed

text \<open>A completed review is not changed by what is accepted later.\<close>

lemma recorded_completed:
  "consistent sha cap call b status e \<Longrightarrow> review_recorded cap k b' s \<Longrightarrow> s \<noteq> In_Progress \<Longrightarrow>
   review_recorded (record_review sha call b status e cap) k b' s"
  by (auto simp: recorded_after) (auto simp: consistent_def review_recorded_def)

lemma record_ok:
  assumes ok: "capture_ok cap" and acc: "accepted_review sha cap params u = Some (call, b, status, e)"
  defines "c \<equiv> record_review sha call b status e cap"
  shows "length (cp_reviews c) \<le> MAX_REVIEWS" "reviews_ok c" "block_published c"
    "cp_blocked cap = None \<Longrightarrow> status \<noteq> Denied \<Longrightarrow> \<not> review_recorded c k b' Denied"
proof -
  note facts = accepted_Some[OF acc]
  have rest: "cp_session c = cp_session cap" "cp_credentials c = cp_credentials cap" "cp_blocked c = cp_blocked cap"
    "cp_published c = cp_published cap" "cp_turn c = Some (ri_turn b)" by (simp_all add: c_def record_review_def)
  show "length (cp_reviews c) \<le> MAX_REVIEWS"
    using record_length[OF facts(3)] ok by (simp add: c_def capture_ok_def)
  show "reviews_ok c"
    unfolding reviews_ok_def
  proof (intro allI impI)
    fix k b' s' assume rec: "review_recorded c k b' s'"
    show "review_bound c k b' \<and> cp_turn c = Some (ri_turn b')"
    proof (cases "k = call")
      case True
      then have "b' = b" using rec by (simp add: c_def recorded_after)
      then show ?thesis using True facts(1) rest(5) review_bound_fields[OF rest(1,2)] by simp
    next
      case False
      then have "review_recorded cap k b' s'" using rec by (simp add: c_def recorded_after)
      then have "review_bound cap k b'" "cp_turn cap = Some (ri_turn b')" using ok by (auto simp: capture_ok_def reviews_ok_def)
      then show ?thesis using facts(2) rest(5) review_bound_fields[OF rest(1,2)] by simp
    qed
  qed
  show "block_published c"
    using ok recorded_completed[OF facts(3)] unfolding capture_ok_def block_published_def rest
    by (auto simp: c_def split: option.splits)
  show "\<not> review_recorded c k b' Denied" if "cp_blocked cap = None" "status \<noteq> Denied"
    using that ok by (auto simp: c_def recorded_after capture_ok_def)
qed

lemma block_ok:
  assumes "length (cp_reviews cap) \<le> MAX_REVIEWS" "reviews_ok cap" "block_published cap"
    and "case review of None \<Rightarrow> reason = Review_Invalid_Context
       | Some r \<Rightarrow> reason = Review_Denied \<and> review_recorded cap (assessment @ ri_review r) r Denied"
  shows "capture_ok (block_capture fails reason review cap)"
proof -
  have "reviews_ok (block_capture fails reason review cap)"
    using assms(2) by (simp add: reviews_ok_def)
  moreover have "block_published (block_capture fails reason review cap)"
  proof (cases "cp_blocked cap")
    case None
    then show ?thesis using assms(3,4)
      by (auto simp: block_published_def block_capture_def Let_def review_recorded_def split: option.splits)
  next
    case (Some b)
    then show ?thesis using assms(3) by (simp add: block_capture_blocked)
  qed
  ultimately show ?thesis using assms(1) block_capture_blocks[of fails reason review cap] by (auto simp: capture_ok_def)
qed

lemma step_ok:
  assumes "capture_step cap cap'" "capture_ok cap"
  shows "capture_ok cap'"
  using assms(1)
proof (cases rule: step_cases)
  case same
  then show ?thesis using assms(2) by simp
next
  case (invalid fails)
  have "capture_ok (block_capture fails Review_Invalid_Context None cap)"
    by (rule block_ok) (use assms(2) in \<open>simp_all add: capture_ok_def\<close>)
  then show ?thesis using invalid by simp
next
  case (review sha fails params u call b status e)
  note rec = record_ok[OF assms(2) review(1)]
  have call: "call = assessment @ ri_review b" using accepted_Some(1)[OF review(1)] by (simp add: review_bound_def)
  have eq: "cap' = (let c = record_review sha call b status e cap in if status = Denied then block_capture fails Review_Denied (Some b) c else c)"
    using review(2) by (simp only: record_review_def)
  show ?thesis
  proof (cases "status = Denied")
    case True
    have "capture_ok (block_capture fails Review_Denied (Some b) (record_review sha call b status e cap))"
      by (rule block_ok[OF rec(1-3)]) (simp add: recorded_after True call)
    then show ?thesis using eq True by simp
  next
    case False
    have "cp_blocked (record_review sha call b status e cap) = cp_blocked cap" by (simp add: record_review_def)
    then have "capture_ok (record_review sha call b status e cap)"
      using rec False by (simp add: capture_ok_def)
    then show ?thesis using eq False by simp
  qed
qed

lemma new_capture_ok: "capture_ok (new_capture session credentials)"
  by (simp add: capture_ok_def new_capture_def reviews_ok_def block_published_def review_recorded_def MAX_REVIEWS_def)

text \<open>C29. What a capture holds.  After any frames and lines, a capture of a session has at most 64 reviews, all
  of this session and of one turn, each named by its call, with well-formed ids that contain no credential;
  it is blocked if any review was denied; it published exactly one block when it is blocked and none
  otherwise; and the block is the recorded denial or the invalid context, under that reason or, when it could
  not be stored, as unavailable.\<close>

theorem capture_stays_sound:
  assumes "capture_step\<^sup>*\<^sup>* (new_capture session credentials) cap"
  shows "capture_ok cap"
  using assms by (induction rule: rtranclp_induct) (auto intro: new_capture_ok step_ok)

lemma step_completed:
  assumes "capture_step cap cap'" "review_recorded cap k b s" "s \<noteq> In_Progress"
  shows "review_recorded cap' k b s"
  using assms(1)
proof (cases rule: step_cases)
  case (review sha fails params u call b' status e)
  have eq: "cap' = (let c = record_review sha call b' status e cap in if status = Denied then block_capture fails Review_Denied (Some b') c else c)"
    using review(2) by (simp only: record_review_def)
  show ?thesis
    using recorded_completed[OF accepted_Some(3)[OF review(1)] assms(2,3)] eq by (simp add: Let_def split: if_splits)
qed (use assms in simp_all)

text \<open>A completed review is final.  Once a review of a capture is approved, denied, timed out or aborted, no
  later frame changes its outcome or the ids it is bound to.\<close>

theorem completed_review_is_final:
  assumes "capture_step\<^sup>*\<^sup>* cap cap'" "review_recorded cap call b s" "s \<noteq> In_Progress"
  shows "review_recorded cap' call b s"
  using assms by (induction rule: rtranclp_induct) (auto intro: step_completed)

section \<open>The files\<close>

lemma carrier_of_put [simp]:
  "carrier_of mid a n (put_carrier mid a n f pj) = f (carrier_of mid a n pj)"
  by (simp add: carrier_of_def put_carrier_def dict_get_put)

lemma review_of_carrier:
  "review_of (mission_of mid pj) a n = (case read_provider_review False False (carrier_of mid a n pj) of Inl _ \<Rightarrow> None | Inr b \<Rightarrow> b)"
  by (simp add: review_of_def carrier_of_def)

text \<open>A carrier under review: its prompt has begun and did not finish, however far it came.\<close>

definition carrier_open :: "string \<Rightarrow> carrier \<Rightarrow> bool" where
  "carrier_open session c \<longleftrightarrow> cr_appeal c = No_Appeal \<and>
     (cr_durable c = No_Durable \<and> cr_cursor c \<in> {Active_Cursor session, Blocked_Cursor session}
      \<or> cr_cursor c = Blocked_Cursor session \<and> (\<exists>reason review. cr_durable c = Durable_Block session reason review))"

lemma open_read: "carrier_open session c \<Longrightarrow> \<exists>b. read_provider_review False False c = Inr (Some b)"
  by (auto simp: carrier_open_def read_provider_review_def interrupted_review_def invalid_review_def split: option.split)

lemma open_reviewed: "carrier_open session (carrier_of mid a n pj) \<Longrightarrow> review_of (mission_of mid pj) a n \<noteq> None"
  by (auto simp: review_of_carrier dest!: open_read)

lemma writes_keeps: "(\<And>f pj. f \<in> set fs \<Longrightarrow> I pj \<Longrightarrow> I (f pj)) \<Longrightarrow> keeps I (writes n fs)"
proof (induction n fs rule: writes.induct)
  case (3 n f fs)
  have "keeps I (writes n fs)" by (rule 3(1)) (use 3(2) in simp)
  then show ?case using 3(2)[of f] by (auto intro!: keeps_intros)
qed (auto intro: keeps_intros)

lemma save_keeps_open: "keeps (\<lambda>pj. carrier_open session (carrier_of mid a n pj)) (save_provider_review w mid a n session b)"
proof (rule keepsI)
  fix pj assume pj: "carrier_open session (carrier_of mid a n pj)"
  let ?I = "\<lambda>pj. carrier_open session (carrier_of mid a n pj)"
  show "?I (snd (save_provider_review w mid a n session b pj))"
  proof (cases "cr_durable (carrier_of mid a n pj)")
    case No_Durable
    have "?I (snd (writes w [put_carrier mid a n (\<lambda>c. c\<lparr>cr_cursor := Blocked_Cursor session\<rparr>),
         put_carrier mid a n (\<lambda>c. c\<lparr>cr_durable := Durable_Block session (bl_reason b) (bl_review b)\<rparr>)] pj))"
      using pj No_Durable by (cases w; cases "w - 1") (auto simp: carrier_open_def throw_def andthen_def modifies_def ret_def)
    then show ?thesis using No_Durable pj
      by (auto simp: save_provider_review_def andthen_def reads_def throw_def)
  qed (use pj in \<open>auto simp: save_provider_review_def andthen_def reads_def throw_def ret_def\<close>)
qed

lemma publish_keeps_open:
  "keeps (\<lambda>pj. carrier_open session (carrier_of mid a n pj)) (publish w mid a n session f cap)"
  unfolding publish_def Let_def
  by (auto intro!: keeps_intros keeps_handling save_keeps_open split: list.split)

text \<open>The reader keeps the carrier under review and returns a capture its frames lead to.\<close>

lemma publish_result: "fst (publish w mid a n session f cap pj) = Inr (f cap)"
  by (auto simp: publish_def Let_def andthen_def handling_def ret_def split: list.split sum.split prod.split)

text \<open>The store of a capture: under review, and without a stored block as long as nothing is blocked.\<close>

definition session_held :: "string \<Rightarrow> string \<Rightarrow> string \<Rightarrow> capture \<Rightarrow> project \<Rightarrow> bool" where
  "session_held mid a n cap pj \<longleftrightarrow> carrier_open (cp_session cap) (carrier_of mid a n pj)
     \<and> (cp_blocked cap = None \<longrightarrow> cr_durable (carrier_of mid a n pj) = No_Durable)"

lemma step_session: "capture_step cap cap' \<Longrightarrow> cp_session cap' = cp_session cap"
  by (erule step_cases) (auto simp: Let_def)

lemma publish_nothing: "cp_published (f cap) = cp_published cap \<Longrightarrow> publish w mid a n session f cap pj = (Inr (f cap), pj)"
  by (simp add: publish_def Let_def ret_def)

lemma step_publishes:
  assumes "capture_step cap cap'" "capture_ok cap" "cp_blocked cap' = None"
  shows "cp_blocked cap = None" "cp_published cap' = cp_published cap"
proof -
  show *: "cp_blocked cap = None" using step_latched[OF assms(1)] assms(3) by (cases "cp_blocked cap") auto
  show "cp_published cap' = cp_published cap"
    using step_ok[OF assms(1,2)] assms(2,3) * by (simp add: capture_ok_def block_published_def)
qed

lemma publish_triple:
  assumes step: "capture_step cap (f cap)" and ok: "capture_ok cap"
  shows "triple (session_held mid a n cap) (publish w mid a n (cp_session cap) f cap) (\<lambda>cap' pj. cap' = f cap \<and> session_held mid a n cap' pj) (\<lambda>_ _. False)"
proof (rule tripleI)
  fix pj x pj' assume held: "session_held mid a n cap pj"
  note kept = keeps_result[OF publish_keeps_open, of "cp_session cap" mid a n pj]
  show False if "publish w mid a n (cp_session cap) f cap pj = (Inl x, pj')" for x
    using publish_result[of w mid a n "cp_session cap" f cap pj] that by simp
  fix x assume run: "publish w mid a n (cp_session cap) f cap pj = (Inr x, pj')"
  then have x: "x = f cap" using publish_result[of w mid a n "cp_session cap" f cap pj] by simp
  have "carrier_open (cp_session (f cap)) (carrier_of mid a n pj')"
    using kept[OF _ run] held step_session[OF step] by (simp add: session_held_def)
  moreover have "cr_durable (carrier_of mid a n pj') = No_Durable" if "cp_blocked (f cap) = None"
    using run held step_publishes[OF step ok that] publish_nothing[of f cap w mid a n "cp_session cap" pj] by (simp add: session_held_def)
  ultimately show "x = f cap \<and> session_held mid a n x pj'" using x by (simp add: session_held_def)
qed

lemma publish_runs:
  assumes "capture_step cap (f cap)" "capture_ok cap" "session_held mid a n cap pj"
  shows "\<exists>pj'. publish w mid a n (cp_session cap) f cap pj = (Inr (f cap), pj') \<and> session_held mid a n (f cap) pj'"
proof -
  obtain pj' where run: "publish w mid a n (cp_session cap) f cap pj = (Inr (f cap), pj')"
    using publish_result[of w mid a n "cp_session cap" f cap pj] by (metis prod.collapse)
  then show ?thesis using tripleD_Inr[OF publish_triple[of cap f mid a n w, OF assms(1,2)] assms(3) run] by blast
qed

lemma read_invalid_runs:
  assumes "capture_ok cap" "session_held mid a n cap pj"
  shows "\<exists>cap' pj'. read_invalid w mid a n cap pj = (Inr cap', pj') \<and> session_held mid a n cap' pj'
    \<and> capture_ok cap' \<and> cp_blocked cap' \<noteq> None"
proof -
  let ?fails = "publish_fails w mid a n (cp_session cap) pj"
  have step: "capture_step cap (transport_invalid ?fails cap)" by (rule bad_line)
  from publish_runs[of cap "transport_invalid ?fails", OF step assms] obtain pj' where
    "publish w mid a n (cp_session cap) (transport_invalid ?fails) cap pj = (Inr (transport_invalid ?fails cap), pj')"
    "session_held mid a n (transport_invalid ?fails cap) pj'" by blast
  then show ?thesis using step_ok[OF step assms(1)] block_capture_blocks
    by (auto simp: read_invalid_def andthen_def reads_def transport_invalid_def simp del: not_None_eq)
qed

lemma read_frame_runs:
  assumes "capture_ok cap" "session_held mid a n cap pj"
  shows "\<exists>fails pj'. read_frame sha w mid a n frame cap pj = (Inr (consume_frame sha fails frame cap), pj')
    \<and> session_held mid a n (snd (consume_frame sha fails frame cap)) pj' \<and> capture_ok (snd (consume_frame sha fails frame cap))"
proof -
  let ?fails = "publish_fails w mid a n (cp_session cap) pj"
  let ?f = "\<lambda>c. snd (consume_frame sha ?fails frame c)"
  have step: "capture_step cap (?f cap)" by (rule capture_step.frame)
  from publish_runs[of cap ?f, OF step assms] obtain pj' where
    "publish w mid a n (cp_session cap) ?f cap pj = (Inr (?f cap), pj')" "session_held mid a n (?f cap) pj'" by blast
  then have "read_frame sha w mid a n frame cap pj = (Inr (consume_frame sha ?fails frame cap), pj')"
    by (simp add: read_frame_def andthen_def reads_def ret_def)
  with \<open>session_held mid a n (?f cap) pj'\<close> step_ok[OF step assms(1)] show ?thesis by blast
qed

text \<open>What a stream of entries amounts to: its objects, the capture behind all of them, and the outcome of the
  prompt, which its first response decides.\<close>

definition frames_of :: "transport_event list \<Rightarrow> json list" where
  "frames_of es = concat (map (\<lambda>e. case e of Entry f \<Rightarrow> if is_obj (Some f) then [f] else [] | _ \<Rightarrow> []) es)"

definition feed_frames :: "(string \<Rightarrow> string) \<Rightarrow> json list \<Rightarrow> capture \<Rightarrow> capture" where
  "feed_frames sha = fold (\<lambda>f cap. snd (consume_frame sha (\<lambda>_. False) f cap))"

definition bad_id :: "json \<Rightarrow> bool" where
  "bad_id frame \<longleftrightarrow> is_response frame \<and> (\<forall>v. jget frame ''id'' = Some v \<longrightarrow> v \<notin> {JNull} \<union> range JStr \<union> range JInt)
     \<and> jget frame ''id'' \<noteq> None"

definition clean_stream :: "(string \<Rightarrow> string) \<Rightarrow> transport_event list \<Rightarrow> capture \<Rightarrow> bool" where
  "clean_stream sha es cap \<longleftrightarrow> Bad_Line \<notin> set es \<and> Read_Failure \<notin> set es \<and> (\<forall>f \<in> set (frames_of es). \<not> bad_id f)
     \<and> cp_blocked (feed_frames sha (frames_of es) cap) = None"

fun prompt_outcome :: "int \<Rightarrow> transport_event list \<Rightarrow> prompt_answer" where
  "prompt_outcome rid [] = Prompt_Failed"
| "prompt_outcome rid (e # es) = (case e of
     Entry frame \<Rightarrow> if is_obj (Some frame) \<and> is_response frame \<and> jget frame ''id'' = Some (JInt rid) then response_outcome frame
       else prompt_outcome rid es
   | _ \<Rightarrow> prompt_outcome rid es)"

lemma handled_response:
  "is_response frame \<Longrightarrow> handle_response rid frame ans = Inl e \<Longrightarrow> bad_id frame"
  "handle_response rid frame ans = Inr ans' \<Longrightarrow> \<not> bad_id frame
    \<and> ans' = (if jget frame ''id'' = Some (JInt rid) \<and> ans = Unanswered then response_outcome frame else ans)"
  by (auto simp: handle_response_def bad_id_def split: option.splits json.splits)

lemma outcome_final: "response_outcome frame \<noteq> Unanswered"
  by (simp add: response_outcome_def split: option.split)

text \<open>Whether the store fails only names the reason of a block.\<close>

lemma consume_frame_alike:
  "cp_blocked (snd (consume_frame sha fails frame cap)) = None \<Longrightarrow> snd (consume_frame sha fails frame cap) = snd (consume_frame sha g frame cap)"
  using block_capture_blocks[of fails]
  by (auto simp: consume_frame_def consume_def Let_def simp del: not_None_eq split: if_splits option.splits)

lemma blocked_alike:
  "cp_blocked (snd (consume_frame sha fails frame cap)) = None \<longleftrightarrow> cp_blocked (snd (consume_frame sha g frame cap)) = None"
  using consume_frame_alike[of sha fails frame cap g] consume_frame_alike[of sha g frame cap fails] by metis

lemma feed_blocked: "cp_blocked cap \<noteq> None \<Longrightarrow> cp_blocked (feed_frames sha fs cap) \<noteq> None"
proof (induction fs arbitrary: cap)
  case (Cons f fs)
  obtain b where "cp_blocked cap = Some b" using Cons.prems by auto
  then have "cp_blocked (snd (consume_frame sha (\<lambda>_. False) f cap)) \<noteq> None"
    using step_latched[OF capture_step.frame] by simp
  from Cons.IH[OF this] show ?case by (simp add: feed_frames_def)
qed (simp add: feed_frames_def)

lemma clean_Entry:
  assumes "is_obj (Some frame)"
  shows "clean_stream sha (Entry frame # es) cap \<longleftrightarrow> \<not> bad_id frame \<and> clean_stream sha es (snd (consume_frame sha (\<lambda>_. False) frame cap))"
  using assms by (auto simp: clean_stream_def frames_of_def feed_frames_def)

lemma clean_skip: "\<not> is_obj (Some frame) \<Longrightarrow> clean_stream sha (Entry frame # es) cap \<longleftrightarrow> clean_stream sha es cap"
  by (auto simp: clean_stream_def frames_of_def)

text \<open>The reader returns; it leaves the capture open exactly behind a clean stream, and then it has no error and
  the prompt the outcome its first response gives it.\<close>

definition reader_result :: "(string \<Rightarrow> string) \<Rightarrow> string \<Rightarrow> string \<Rightarrow> string \<Rightarrow> int \<Rightarrow> transport_event list \<Rightarrow> capture \<Rightarrow> prompt_answer
    \<Rightarrow> (run_exn + capture \<times> prompt_answer \<times> string option) \<times> project \<Rightarrow> bool" where
  "reader_result sha mid a n rid es cap ans result \<longleftrightarrow> (\<exists>cap' ans' err pj'. result = (Inr (cap', ans', err), pj')
     \<and> session_held mid a n cap' pj' \<and> capture_ok cap' \<and> (cp_blocked cap' = None \<longleftrightarrow> clean_stream sha es cap)
     \<and> (cp_blocked cap' = None \<longrightarrow> err = None \<and> cap' = feed_frames sha (frames_of es) cap
          \<and> ans' = (if ans = Unanswered then prompt_outcome rid es else ans)))"

lemma reader_stopped:
  assumes "capture_ok cap" "session_held mid a n cap pj" "\<not> clean_stream sha es start"
  shows "reader_result sha mid a n rid es start ans (andthen (read_invalid w mid a n cap) (\<lambda>cap'. ret (cap', x, y)) pj)"
proof -
  from read_invalid_runs[OF assms(1,2), of w] obtain cap' pj' where "read_invalid w mid a n cap pj = (Inr cap', pj')"
    "session_held mid a n cap' pj'" "capture_ok cap'" "cp_blocked cap' \<noteq> None" by blast
  then show ?thesis using assms(3) by (simp add: reader_result_def andthen_def ret_def del: not_None_eq)
qed

text \<open>An entry behind which the reader goes on.\<close>

lemma reader_goes_on:
  assumes rest: "reader_result sha mid a n rid es (snd (consume_frame sha fails frame cap)) ans2 result"
    and frame: "is_obj (Some frame)"
    and free: "cp_blocked (snd (consume_frame sha fails frame cap)) = None \<Longrightarrow> \<not> bad_id frame
      \<and> ans2 = (if is_response frame \<and> jget frame ''id'' = Some (JInt rid) \<and> ans = Unanswered then response_outcome frame else ans)"
  shows "reader_result sha mid a n rid (Entry frame # es) cap ans result"
proof -
  let ?c = "snd (consume_frame sha fails frame cap)" and ?d = "snd (consume_frame sha (\<lambda>_. False) frame cap)"
  obtain cap' ans' err pj' where r: "result = (Inr (cap', ans', err), pj')" "session_held mid a n cap' pj'" "capture_ok cap'"
    "cp_blocked cap' = None \<longleftrightarrow> clean_stream sha es ?c"
    "cp_blocked cap' = None \<longrightarrow> err = None \<and> cap' = feed_frames sha (frames_of es) ?c
          \<and> ans' = (if ans2 = Unanswered then prompt_outcome rid es else ans2)"
    using rest unfolding reader_result_def by (elim exE conjE) (rule that)
  have same: "clean_stream sha es ?c \<longleftrightarrow> clean_stream sha (Entry frame # es) cap \<and> cp_blocked ?c = None"
  proof (cases "cp_blocked ?c = None")
    case True
    then show ?thesis using free consume_frame_alike[OF True, of "\<lambda>_. False"] by (simp add: clean_Entry[OF frame])
  next
    case False
    then have "\<not> clean_stream sha es ?c" using feed_blocked[OF False, of sha "frames_of es"] by (simp add: clean_stream_def del: not_None_eq)
    then show ?thesis using False by blast
  qed
  have blocked: "clean_stream sha (Entry frame # es) cap \<Longrightarrow> cp_blocked ?c = None"
    unfolding clean_Entry[OF frame] unfolding clean_stream_def
    using feed_blocked[of ?d sha "frames_of es"] blocked_alike[of sha fails frame cap "\<lambda>_. False"] by blast
  have fin: "err = None \<and> cap' = feed_frames sha (frames_of (Entry frame # es)) cap
      \<and> ans' = (if ans = Unanswered then prompt_outcome rid (Entry frame # es) else ans)" if "cp_blocked cap' = None"
  proof -
    have c: "cp_blocked ?c = None" using r(4) same that by blast
    have "feed_frames sha (frames_of (Entry frame # es)) cap = feed_frames sha (frames_of es) ?d"
      using frame by (simp add: feed_frames_def frames_of_def)
    moreover have "?c = ?d" by (rule consume_frame_alike[OF c])
    moreover have "(if ans2 = Unanswered then prompt_outcome rid es else ans2)
        = (if ans = Unanswered then prompt_outcome rid (Entry frame # es) else ans)"
      using free[OF c] frame outcome_final by simp
    ultimately show ?thesis using r(5) that by (simp only: simp_thms)
  qed
  have "cp_blocked cap' = None \<longleftrightarrow> clean_stream sha (Entry frame # es) cap" using r(4) same blocked by blast
  then show ?thesis unfolding reader_result_def
    by (intro exI conjI impI) (rule r(1-3) | assumption | rule fin[THEN conjunct1] fin[THEN conjunct2, THEN conjunct1]
      fin[THEN conjunct2, THEN conjunct2])+
qed

lemma read_loop_runs:
  "capture_ok cap \<Longrightarrow> session_held mid a n cap pj \<Longrightarrow> reader_result sha mid a n rid es cap ans (read_loop sha w mid a n rid es cap ans pj)"
proof (induction es arbitrary: cap ans pj)
  case Nil
  then show ?case by (auto simp: reader_result_def ret_def clean_stream_def frames_of_def feed_frames_def fail_pending_def)
next
  case (Cons e es)
  show ?case
  proof (cases e)
    case (Entry frame)
    show ?thesis
    proof (cases "is_obj (Some frame)")
      case False
      have alike: "frames_of (Entry frame # es) = frames_of es" "prompt_outcome rid (Entry frame # es) = prompt_outcome rid es"
        "read_loop sha w mid a n rid (Entry frame # es) cap ans = read_loop sha w mid a n rid es cap ans"
        using False by (simp_all add: frames_of_def)
      show ?thesis using Cons.IH[OF Cons.prems, of ans] unfolding reader_result_def Entry alike clean_skip[OF False] .
    next
      case True
      from read_frame_runs[OF Cons.prems, of sha w frame] obtain fails pj' where
        run: "read_frame sha w mid a n frame cap pj = (Inr (consume_frame sha fails frame cap), pj')"
        and held: "session_held mid a n (snd (consume_frame sha fails frame cap)) pj'"
        and ok: "capture_ok (snd (consume_frame sha fails frame cap))" by blast
      obtain recognized c where cf: "consume_frame sha fails frame cap = (recognized, c)" by (cases "consume_frame sha fails frame cap")
      let ?ans = "if cp_blocked c \<noteq> None then fail_pending ans else ans"
      note IH = Cons.IH[OF ok held, unfolded cf snd_conv]
      note goes = reader_goes_on[of sha mid a n rid es fails frame cap, unfolded cf snd_conv, OF _ True]
      show ?thesis
      proof (cases "cp_blocked c \<noteq> None \<and> recognized \<or> \<not> is_response frame")
        case skip: True
        have eq: "read_loop sha w mid a n rid (Entry frame # es) cap ans pj = read_loop sha w mid a n rid es c ?ans pj'"
          by (cases "cp_blocked c") (use True skip in \<open>auto simp: andthen_def run cf Let_def\<close>)
        show ?thesis unfolding Entry eq
          by (rule goes[OF IH]) (use skip in \<open>auto simp: bad_id_def\<close>)
      next
        case response: False
        show ?thesis
        proof (cases "handle_response rid frame ?ans")
          case (Inl x)
          have bad: "bad_id frame" by (rule handled_response(1)[OF _ Inl]) (use response in blast)
          have eq: "read_loop sha w mid a n rid (Entry frame # es) cap ans pj
              = andthen (read_invalid w mid a n c) (\<lambda>cap''. ret (cap'', fail_pending ?ans, Some ''ACP reader failed'')) pj'"
            by (cases "cp_blocked c") (use True response Inl in \<open>auto simp: andthen_def run cf Let_def\<close>)
          show ?thesis unfolding Entry eq
            by (rule reader_stopped[OF ok[unfolded cf snd_conv] held[unfolded cf snd_conv]]) (simp add: clean_Entry[OF True] bad)
        next
          case (Inr next_ans)
          have eq: "read_loop sha w mid a n rid (Entry frame # es) cap ans pj = read_loop sha w mid a n rid es c next_ans pj'"
            by (cases "cp_blocked c") (use True response Inr in \<open>auto simp: andthen_def run cf Let_def\<close>)
          show ?thesis unfolding Entry eq
            by (rule goes[OF IH]) (use handled_response(2)[OF Inr] response in auto)
        qed
      qed
    qed
  next
    case Bad_Line
    show ?thesis unfolding Bad_Line read_loop.simps
      by (rule reader_stopped[OF Cons.prems]) (simp add: clean_stream_def)
  next
    case Read_Failure
    show ?thesis unfolding Read_Failure read_loop.simps
      by (rule reader_stopped[OF Cons.prems]) (simp add: clean_stream_def)
  qed
qed

section \<open>The prompt\<close>

definition fresh_carrier :: "carrier \<Rightarrow> bool" where
  "fresh_carrier c \<longleftrightarrow> cr_durable c = No_Durable \<and> cr_appeal c = No_Appeal"

lemma begin_opens:
  assumes "fst (begin_provider_review w mid a n session pj) = Inr ()" "fresh_carrier (carrier_of mid a n pj)"
  shows "0 < w" "carrier_open session (carrier_of mid a n (snd (begin_provider_review w mid a n session pj)))"
    "cr_durable (carrier_of mid a n (snd (begin_provider_review w mid a n session pj))) = No_Durable"
  using assms by (cases w; auto simp: begin_provider_review_def andthen_def reads_def throw_def modifies_def ret_def
    fresh_carrier_def carrier_open_def split: if_splits)+

lemma blocked_not_done: "\<not> h_done (blocked_handoff h b a)" "h_request_attention (blocked_handoff h b a)"
  by (cases h; simp)+

lemma finish_reviews:
  assumes "carrier_open session (carrier_of mid a n pj)" "cr_durable (carrier_of mid a n pj) = No_Durable" "0 < w"
  shows "\<exists>pj'. finish_provider_review w mid a n pj = (Inr (), pj') \<and> review_of (mission_of mid pj') a n = None"
proof -
  obtain k where "w = Suc k" using assms(3) by (cases w) auto
  then have "finish_provider_review w mid a n pj = (Inr (), put_carrier mid a n (\<lambda>c. c\<lparr>cr_cursor := No_Cursor\<rparr>) pj)"
    by (simp add: finish_provider_review_def andthen_def modifies_def ret_def)
  then show ?thesis using assms(1,2) by (simp add: review_of_carrier read_provider_review_def)
qed

lemma attempt_file_simps [simp]:
  "attempt_file_of mid a n (put_attempt_file mid a n f pj) = Some f"
  "attempt_file_of mid a n (put_carrier mid a' n' g pj) = attempt_file_of mid a n pj"
  "carrier_of mid a n (put_attempt_file mid a' n' f pj) = carrier_of mid a n pj"
  by (simp_all add: attempt_file_of_def put_attempt_file_def put_carrier_def carrier_of_def update_conv)

lemma session_held_file [simp]: "session_held mid a n cap (put_attempt_file mid a' n' f pj) = session_held mid a n cap pj"
  by (simp add: session_held_def)

text \<open>Behind the review there is a file afterwards, and the handoff is what it parses to.\<close>

lemma node_handoff_result:
  assumes "0 < w"
  shows "case node_handoff w mid t a pw ans pj of (r, pj') \<Rightarrow> carrier_of mid a (t_id t) pj' = carrier_of mid a (t_id t) pj
    \<and> (\<exists>file. attempt_file_of mid a (t_id t) pj' = Some file \<and> (case r of
         Inl _ \<Rightarrow> session_failed pw ans \<or> isl (parse_handoff_file t a file)
       | Inr h \<Rightarrow> parse_handoff_file t a file = Inr h \<and> (h_done h \<longrightarrow> \<not> session_failed pw ans)))"
proof (cases "attempt_file_of mid a (t_id t) pj")
  case None
  obtain k where "w = Suc k" using assms by (cases w) auto
  then have "node_handoff w mid t a pw ans pj = (Inr (missing_handoff t a (pw_report pw)),
      put_attempt_file mid a (t_id t) (Attempt (missing_handoff t a (pw_report pw)) True) pj)"
    using None by (simp add: node_handoff_def andthen_def reads_def modifies_def ret_def Let_def)
  then show ?thesis by (simp add: parse_handoff_file_def missing_handoff_def)
next
  case (Some f)
  then show ?thesis
    by (cases "parse_handoff_file t a f") (simp_all add: node_handoff_def andthen_def reads_def throw_def ret_def)
qed

text \<open>C27. A prompt under review.  When the review of a fresh prompt has begun, then whatever the provider sends and
  however many of the writes succeed, the stream and the finalizers decide how the prompt ends.  If a finalizer
  fails, the prompt raises and the attempt stays under review.  Behind a clean stream (every line read and valid,
  every id of a response well formed, and the capture of all frames open, with no denial recorded) the attempt
  is no longer under review and has a file: the prompt returns the handoff of that file, which says it is done
  only if the session did not fail (the prompt was sent, its first response is a result, and the invocation was
  recorded), or it raises because the session failed or the file is no handoff of this attempt.  Behind any
  other stream the attempt stays under review, so every handoff saved for it says it is not done, and the
  prompt returns a handoff that is not done and requests attention.\<close>

theorem reviewed_prompt_is_honest:
  assumes "fresh_carrier (carrier_of mid a (t_id t) pj)"
    and "fst (begin_provider_review w mid a (t_id t) session pj) = Inr ()"
  shows "case reviewed_prompt sha w mid t a session credentials rid es pw pj of (r, pj') \<Rightarrow>
      if \<not> pw_finalized pw then isl r \<and> review_of (mission_of mid pj') a (t_id t) \<noteq> None
      else if clean_stream sha es (new_capture session credentials)
      then review_of (mission_of mid pj') a (t_id t) = None
        \<and> (\<forall>call b. \<not> review_recorded (feed_frames sha (frames_of es) (new_capture session credentials)) call b Denied)
        \<and> (\<exists>file. attempt_file_of mid a (t_id t) pj' = Some file \<and> (case r of
             Inl _ \<Rightarrow> session_failed pw (prompt_outcome rid es) \<or> isl (parse_handoff_file t a file)
           | Inr h \<Rightarrow> parse_handoff_file t a file = Inr h \<and> (h_done h \<longrightarrow> \<not> session_failed pw (prompt_outcome rid es))))
      else review_of (mission_of mid pj') a (t_id t) \<noteq> None
        \<and> (\<exists>h. r = Inr h \<and> \<not> h_done h \<and> h_request_attention h) \<and> \<not> h_done (under_review (mission_of mid pj') a (t_id t) g)"
proof -
  let ?n = "t_id t" and ?start = "new_capture session credentials"
  obtain pj0 where start: "begin_provider_review w mid a ?n session pj = (Inr (), pj0)" using assms(2) by (metis prod.collapse)
  note begun = begin_opens[OF assms(2,1), unfolded start snd_conv]
  have "session_held mid a ?n ?start pj0" using begun by (simp add: session_held_def new_capture_def)
  from read_loop_runs[OF new_capture_ok this, of sha rid es Unanswered w]
  obtain cap ans err pj1 where loop: "read_loop sha w mid a ?n rid es ?start Unanswered pj0 = (Inr (cap, ans, err), pj1)"
    and held1: "session_held mid a ?n cap pj1" and ok: "capture_ok cap"
    and clean: "cp_blocked cap = None \<longleftrightarrow> clean_stream sha es ?start"
    and res: "cp_blocked cap = None \<longrightarrow> err = None \<and> cap = feed_frames sha (frames_of es) ?start \<and> ans = prompt_outcome rid es"
    unfolding reader_result_def by (auto simp del: not_None_eq)
  define pj2 where "pj2 = (case pw_left pw of None \<Rightarrow> pj1 | Some f \<Rightarrow> put_attempt_file mid a ?n f pj1)"
  have held: "session_held mid a ?n cap pj2" using held1 by (simp add: pj2_def split: option.split)
  then have open2: "review_of (mission_of mid pj2) a ?n \<noteq> None" by (auto simp: session_held_def dest: open_reviewed)
  have run: "reviewed_prompt sha w mid t a session credentials rid es pw pj =
      (if \<not> pw_finalized pw then throw (Run_Error ''cleanup failed'')
       else case cp_blocked cap of
         Some b \<Rightarrow> ret (blocked_handoff (empty_handoff t) b a)
       | None \<Rightarrow> (case err of Some e \<Rightarrow> throw (Run_Error e)
         | None \<Rightarrow> andthen (finish_provider_review w mid a ?n) (\<lambda>_. node_handoff w mid t a pw ans))) pj2"
    using start loop by (simp add: reviewed_prompt_def settle_prompt_def leave_file_def andthen_def handling_def
        ret_def modifies_def pj2_def split: option.split)
  show ?thesis
  proof (cases "pw_finalized pw")
    case False
    then show ?thesis using run open2 by (simp add: throw_def)
  next
    case fin: True
    show ?thesis
    proof (cases "cp_blocked cap")
      case (Some b)
      then have "\<not> clean_stream sha es ?start" using clean by simp
      moreover have "reviewed_prompt sha w mid t a session credentials rid es pw pj = (Inr (blocked_handoff (empty_handoff t) b a), pj2)"
        using run fin Some by (simp add: ret_def)
      ultimately show ?thesis using fin open2 blocked_not_done by (auto simp: under_review_def)
    next
      case None
      then have c: "clean_stream sha es ?start" and e: "err = None" and cap: "cap = feed_frames sha (frames_of es) ?start"
        and ans: "ans = prompt_outcome rid es" using clean res by auto
      obtain pj3 where done3: "finish_provider_review w mid a ?n pj2 = (Inr (), pj3)" "review_of (mission_of mid pj3) a ?n = None"
        using finish_reviews held None begun(1) unfolding session_held_def by meson
      obtain r pj4 where node: "node_handoff w mid t a pw ans pj3 = (r, pj4)" by (cases "node_handoff w mid t a pw ans pj3")
      note settled = node_handoff_result[OF begun(1), where mid = mid and t = t and a = a and pw = pw and ans = ans and pj = pj3, unfolded node prod.case]
      have eq: "reviewed_prompt sha w mid t a session credentials rid es pw pj = (r, pj4)"
        using run fin None e done3(1) node by (simp add: andthen_def)
      have "review_of (mission_of mid pj4) a ?n = None" using done3(2) settled by (simp add: review_of_carrier)
      moreover have "\<forall>call b. \<not> review_recorded cap call b Denied" using ok None by (simp add: capture_ok_def)
      ultimately show ?thesis
        unfolding eq prod.case if_not_P[OF not_not[THEN iffD2, OF fin]] if_P[OF c] cap[symmetric] ans[symmetric]
        using settled by blast
    qed
  qed
qed

section \<open>Concrete instances\<close>

text \<open>A review of a command, as it starts and as it ends in a denial, an approval or a request out of place.\<close>

definition demo_event :: "string \<Rightarrow> (string \<times> json) list \<Rightarrow> json" where
  "demo_event status extra = JObj ([(''threadId'', JStr ''s1''), (''turnId'', JStr ''t1''), (''reviewId'', JStr ''r1''), (''startedAtMs'', JInt 5),
     (''targetItemId'', JNull),
     (''review'', JObj [(''status'', JStr status), (''riskLevel'', JStr ''high''), (''userAuthorization'', JNull), (''rationale'', JNull)]),
     (''action'', JObj [(''type'', JStr ''command''), (''source'', JStr ''shell''), (''command'', JStr ''rm''), (''cwd'', JStr ''/'')])] @ extra)"

definition demo_frame :: "(string \<times> json) list \<Rightarrow> json" where
  "demo_frame kvs = JObj [(''jsonrpc'', JStr ''2.0''), (''method'', JStr ''session/update''),
     (''params'', JObj [(''sessionId'', JStr ''s1''), (''update'', JObj ((''toolCallId'', JStr ''guardian_assessment:r1'') # kvs))])]"

definition demo_started :: json where
  "demo_started = demo_frame [(''sessionUpdate'', JStr ''tool_call''), (''kind'', JStr ''think''), (''title'', JStr ''Guardian Review''),
     (''status'', JStr ''in_progress''), (''rawInput'', demo_event ''inProgress'' [])]"

definition demo_ended :: "string \<Rightarrow> string \<Rightarrow> json" where
  "demo_ended status update = demo_frame [(''sessionUpdate'', JStr ''tool_call_update''), (''status'', JStr update),
     (''rawOutput'', demo_event status [(''completedAtMs'', JInt 9), (''decisionSource'', JStr ''agent'')])]"

definition demo_capture :: "json list \<Rightarrow> capture" where
  "demo_capture frames = fold (\<lambda>f cap. snd (consume_frame demo_digest (\<lambda>_. False) f cap)) frames (new_capture ''s1'' [])"

lemma demo_capture_steps: "capture_step\<^sup>*\<^sup>* (new_capture ''s1'' []) (demo_capture frames)"
proof -
  have "capture_step\<^sup>*\<^sup>* c (fold (\<lambda>f cap. snd (consume_frame demo_digest (\<lambda>_. False) f cap)) frames c)" for c
    by (induction frames arbitrary: c) (auto intro: converse_rtranclp_into_rtranclp frame)
  then show ?thesis by (simp add: demo_capture_def)
qed

definition demo_review :: review_identity where
  "demo_review = \<lparr>ri_thread = ''s1'', ri_turn = ''t1'', ri_review = ''r1''\<rparr>"

lemma demo_denied: "cp_blocked (demo_capture [demo_started, demo_ended ''denied'' ''failed'']) = Some \<lparr>bl_reason = Review_Denied, bl_review = Some demo_review\<rparr>"
  by code_simp

lemma demo_approved:
  "cp_blocked (demo_capture [demo_started, demo_ended ''approved'' ''completed'']) = None"
  "map_of (cp_reviews (demo_capture [demo_started, demo_ended ''approved'' ''completed''])) ''guardian_assessment:r1'' = Some (demo_review, Approved)"
  by code_simp+

theorem blocked_capture_is_final_witness:
  "cp_blocked (snd (consume_frame demo_digest (\<lambda>_. False) (demo_ended ''approved'' ''completed'')
     (demo_capture [demo_started, demo_ended ''denied'' ''failed'']))) = Some \<lparr>bl_reason = Review_Denied, bl_review = Some demo_review\<rparr>"
  using blocked_capture_is_final[OF r_into_rtranclp[of capture_step, OF frame] demo_denied] by blast

theorem capture_stays_sound_witness:
  "capture_ok (demo_capture [demo_started, demo_ended ''denied'' ''failed''])"
  by (rule capture_stays_sound[OF demo_capture_steps])

theorem completed_review_is_final_witness:
  "review_recorded (snd (consume_frame demo_digest (\<lambda>_. False) (demo_ended ''denied'' ''failed'')
     (demo_capture [demo_started, demo_ended ''approved'' ''completed'']))) ''guardian_assessment:r1'' demo_review Approved"
  using completed_review_is_final[OF r_into_rtranclp[of capture_step, OF frame], of "demo_capture [demo_started, demo_ended ''approved'' ''completed'']"]
    demo_approved(2) by (simp add: review_recorded_def)

text \<open>Two prompts of an agent that leaves a handoff: the review of its command is approved, or denied, before the
  prompt (the fourth request) is answered.\<close>

definition demo_answer :: json where
  "demo_answer = JObj [(''jsonrpc'', JStr ''2.0''), (''id'', JInt 4), (''result'', JObj [(''stopReason'', JStr ''end_turn'')])]"

definition demo_world :: prompt_world where
  "demo_world = \<lparr>pw_sent = True, pw_recorded = True, pw_finalized = True,
     pw_left = Some (Attempt (WorkHandoff ''w1'' (Some ''at1'') True ''ok'' False) True), pw_report = ''ended''\<rparr>"

definition demo_prompt :: "transport_event list \<Rightarrow> (run_exn + handoff) \<times> project" where
  "demo_prompt es = reviewed_prompt demo_digest 9 ''m1'' demo_work ''at1'' ''s1'' [] 4 es demo_world (demo_project [] demo_idle)"

lemma demo_begun: "fresh_carrier (carrier_of ''m1'' ''at1'' (t_id demo_work) (demo_project [] demo_idle))"
  "fst (begin_provider_review 9 ''m1'' ''at1'' (t_id demo_work) ''s1'' (demo_project [] demo_idle)) = Inr ()"
  unfolding fresh_carrier_def by code_simp+

definition demo_entries :: "string \<Rightarrow> string \<Rightarrow> transport_event list" where
  "demo_entries status update = [Entry demo_started, Entry (demo_ended status update), Entry demo_answer]"

lemma demo_prompts:
  "map_option h_done (case demo_prompt (demo_entries ''approved'' ''completed'') of (Inr h, _) \<Rightarrow> Some h | _ \<Rightarrow> None) = Some True"
  "map_option h_done (case demo_prompt (demo_entries ''denied'' ''failed'') of (Inr h, _) \<Rightarrow> Some h | _ \<Rightarrow> None) = Some False"
  "isl (fst (demo_prompt (butlast (demo_entries ''approved'' ''completed''))))"
  by code_simp+

lemma demo_clean: "clean_stream demo_digest (demo_entries ''approved'' ''completed'') (new_capture ''s1'' [])"
proof -
  have "list_all (\<lambda>f. \<not> is_response f \<or> \<not> isl (handle_response 0 f Prompt_Failed)) (frames_of (demo_entries ''approved'' ''completed''))"
    "cp_blocked (feed_frames demo_digest (frames_of (demo_entries ''approved'' ''completed'')) (new_capture ''s1'' [])) = None"
    by code_simp+
  then show ?thesis
    by (auto simp: clean_stream_def list_all_iff bad_id_def handle_response_def demo_entries_def split: json.splits)
qed

theorem reviewed_prompt_is_honest_witness:
  "case demo_prompt (demo_entries ''approved'' ''completed'') of
     (r, pj) \<Rightarrow> review_of (mission_of ''m1'' pj) ''at1'' ''w1'' = None \<and> \<not> isl r
       \<and> \<not> session_failed demo_world (prompt_outcome 4 (demo_entries ''approved'' ''completed''))"
proof -
  let ?es = "demo_entries ''approved'' ''completed''"
  have node: "t_id demo_work = ''w1''" by (simp add: demo_work_def)
  have fin: "\<not> \<not> pw_finalized demo_world" by (simp add: demo_world_def)
  obtain r pj where run: "demo_prompt ?es = (r, pj)" by (cases "demo_prompt ?es")
  obtain h where h: "r = Inr h" "h_done h" using demo_prompts(1) run by (cases r) auto
  note honest = reviewed_prompt_is_honest[OF demo_begun, where sha = demo_digest and credentials = "[]" and rid = 4
      and es = ?es and pw = demo_world, folded demo_prompt_def, unfolded run prod.case if_not_P[OF fin] if_P[OF demo_clean] node]
  show ?thesis using honest h unfolding run prod.case by auto
qed

end
