(* ===== verification/Redaction.thy ===== *)
theory Redaction
  imports Json_Proofs Effects
begin

text \<open>
  The output protection of \<^verbatim>\<open>capability_policy.py\<close>: the inventory of known credential values, the test
  whether a text contains one, and the redactor, which works on a stream of chunks and keeps back what may
  still become a value; and the redaction of whole JSON values.

  Tuples, mappings with other keys than strings and cyclic containers do not occur among JSON values, so the
  guard against cycles has no branch here.
\<close>

section \<open>Inventories\<close>

text \<open>\<open>SensitiveValueInventory(values)\<close>: sorted by name, without empty values.\<close>

definition inventory_of :: "(string, string) dict \<Rightarrow> (string, string) dict" where
  "inventory_of values = filter (\<lambda>(_, v). v \<noteq> []) (sort_key fst values)"

definition credential_source_values :: "(string, string) dict \<Rightarrow> string list \<Rightarrow> (string, string) dict" where
  "credential_source_values environment declared =
     inventory_of (map (\<lambda>n. (n, dict_get environment [] n))
       (filter (\<lambda>n. dict_get environment [] n \<noteq> []) (sorted_set (filter (\<lambda>n. n \<noteq> ''*'') declared))))"

definition inventory_json :: "(string, string) dict \<Rightarrow> json" where
  "inventory_json values = JObj [(''values'', JObj (map (\<lambda>nv. (fst nv, JStr (snd nv))) (inventory_of values)))]"

definition serialize_inventory :: "(string, string) dict \<Rightarrow> string" where
  "serialize_inventory values = dumps (inventory_json values)"

datatype payload_error = Bad_Json | Bad_Shape | Bad_Values

definition deserialize_inventory :: "string \<Rightarrow> payload_error + (string, string) dict" where
  "deserialize_inventory payload = (case loads payload of
     None \<Rightarrow> Inl Bad_Json
   | Some (JObj kvs) \<Rightarrow>
       if set (map fst kvs) \<noteq> {''values''} then Inl Bad_Shape
       else (case map_of kvs ''values'' of
           Some (JObj vs) \<Rightarrow>
             if list_all (\<lambda>nv. case snd nv of JStr _ \<Rightarrow> True | _ \<Rightarrow> False) vs
             then Inr (inventory_of (map (\<lambda>nv. (fst nv, case snd nv of JStr s \<Rightarrow> s | _ \<Rightarrow> [])) vs))
             else Inl Bad_Values
         | _ \<Rightarrow> Inl Bad_Values)
   | Some _ \<Rightarrow> Inl Bad_Shape)"

section \<open>Credential tokens\<close>

text \<open>\<open>str.isalnum\<close> on one code point below 256.\<close>

definition py_alnum :: "char \<Rightarrow> bool" where
  "py_alnum c \<longleftrightarrow> is_alnum c \<or> ord c \<in> {170, 178, 179, 181, 185, 186, 188, 189, 190}
     \<or> 192 \<le> ord c \<and> ord c \<noteq> 215 \<and> ord c \<noteq> 247"

definition is_token_character :: "char option \<Rightarrow> bool" where
  "is_token_character c \<longleftrightarrow> (case c of None \<Rightarrow> False | Some x \<Rightarrow> py_alnum x \<or> x \<in> {CHR ''_'', CHR ''-'', CHR ''.''})"

definition requires_token_boundaries :: "string \<Rightarrow> bool" where
  "requires_token_boundaries v \<longleftrightarrow> length v < 8 \<and> list_all (\<lambda>c. is_token_character (Some c)) v"

definition first_char :: "string \<Rightarrow> char option" where
  "first_char s = (case s of [] \<Rightarrow> None | c # _ \<Rightarrow> Some c)"

text \<open>\<open>text.find(value, start)\<close>.\<close>

definition find_from :: "string \<Rightarrow> string \<Rightarrow> nat \<Rightarrow> nat option" where
  "find_from txt value start = List.find (\<lambda>i. prefix value (drop i txt)) [start..<Suc (length txt)]"

lemma find_from_range: "find_from txt value start = Some i \<Longrightarrow> start \<le> i \<and> i \<le> length txt \<and> prefix value (drop i txt)"
  unfolding find_from_def by (auto simp: find_Some_iff simp del: upt_Suc)

function token_loop :: "string \<Rightarrow> string \<Rightarrow> nat \<Rightarrow> bool" where
  "token_loop txt value start = (case find_from txt value start of
     None \<Rightarrow> False
   | Some i \<Rightarrow>
      (let left = (if i = 0 then None else Some (txt ! (i - 1))); right = first_char (drop (i + length value) txt) in
       if \<not> is_token_character left \<and> \<not> is_token_character right then True else token_loop txt value (i + 1)))"
  by pat_completeness auto

termination
  by (relation "measure (\<lambda>(txt, _, start). Suc (length txt) - start)") (auto dest!: find_from_range)

declare token_loop.simps [simp del]

definition contains_credential_token :: "string \<Rightarrow> string \<Rightarrow> bool" where
  "contains_credential_token txt value = (
     if value = [] then False
     else if \<not> requires_token_boundaries value then find_from txt value 0 \<noteq> None
     else token_loop txt value 0)"

section \<open>The environments\<close>

definition enforce_environment_credential_provenance ::
  "(string, string) dict \<Rightarrow> (string, string) dict \<Rightarrow> (string, string) dict" where
  "enforce_environment_credential_provenance environment credentials =
     filter (\<lambda>(n, v). (n, v) \<in> set (filter (\<lambda>(_, w). w \<noteq> []) credentials)
        \<or> \<not> list_ex (\<lambda>(_, w). w \<noteq> [] \<and> contains_credential_token v w) credentials) (sort_key fst environment)"

definition enforce_persisted_environment_credential_provenance ::
  "(string, string) dict \<Rightarrow> (string, string) dict \<Rightarrow> (string, string) dict" where
  "enforce_persisted_environment_credential_provenance environment credentials =
     filter (\<lambda>(_, v). \<not> list_ex (\<lambda>(_, w). contains_credential_token v w) credentials) (sort_key fst environment)"

section \<open>The redactor\<close>

type_synonym patterns = "(string \<times> string) list"

definition patterns_of :: "(string, string) dict \<Rightarrow> patterns" where
  "patterns_of credentials = sort_key (\<lambda>(v, n). (- int (length v), n)) (remdups (map (\<lambda>(n, v). (v, n)) (filter (\<lambda>(_, v). v \<noteq> []) credentials)))"

text \<open>What the loop over a text appends: a character of the text, or the marker in place of a value.\<close>

datatype piece = Kept char | Redacted string string

fun piece_text :: "piece \<Rightarrow> string" where
  "piece_text (Kept c) = [c]"
| "piece_text (Redacted value name) = ''<redacted:'' @ name @ ''>''"

fun piece_source :: "piece \<Rightarrow> string" where
  "piece_source (Kept c) = [c]"
| "piece_source (Redacted value name) = value"

definition text_of :: "piece list \<Rightarrow> string" where
  "text_of ps = concat (map piece_text ps)"

definition source_of :: "piece list \<Rightarrow> string" where
  "source_of ps = concat (map piece_source ps)"

record redactor =
  rd_patterns :: patterns
  rd_pending :: string
  rd_left :: "char option"
  rd_finished :: bool

definition new_redactor :: "(string, string) dict \<Rightarrow> redactor" where
  "new_redactor credentials = \<lparr>rd_patterns = patterns_of credentials, rd_pending = [], rd_left = None, rd_finished = False\<rparr>"

text \<open>A rest of the text that may still grow into a value.\<close>

definition awaiting :: "patterns \<Rightarrow> char option \<Rightarrow> string \<Rightarrow> bool" where
  "awaiting ps left remainder \<longleftrightarrow> list_ex (\<lambda>(secret, _). (\<not> is_token_character left \<or> \<not> requires_token_boundaries secret)
     \<and> length remainder < length secret \<and> prefix remainder secret) ps"

datatype verdict = Match string string | Unresolved | No_Match

fun judge_patterns :: "bool \<Rightarrow> char option \<Rightarrow> string \<Rightarrow> patterns \<Rightarrow> bool \<Rightarrow> verdict" where
  "judge_patterns final left remainder [] unresolved = (if unresolved then Unresolved else No_Match)"
| "judge_patterns final left remainder ((secret, name) # ps) unresolved =
    (let bounded = requires_token_boundaries secret in
     if bounded \<and> is_token_character left \<or> \<not> prefix secret remainder
     then judge_patterns final left remainder ps unresolved
     else if length secret = length remainder \<and> \<not> final \<and> bounded
     then judge_patterns final left remainder ps True
     else if \<not> bounded \<or> \<not> is_token_character (first_char (drop (length secret) remainder))
     then Match secret name
     else judge_patterns final left remainder ps unresolved)"

text \<open>
  The loop of \<open>feed\<close> from its cursor on.  The character to the left of the cursor is the last one the loop
  has gone past, in this chunk or in the one before: the code reads it from \<open>_pending\<close> or, at the start of a
  chunk, from \<open>_left_character\<close>.  The result is what was appended, the rest that stays pending, and that
  character.
\<close>

function redact_loop :: "patterns \<Rightarrow> bool \<Rightarrow> char option \<Rightarrow> string \<Rightarrow> piece list \<times> string \<times> char option" where
  "redact_loop ps final left [] = ([], [], left)"
| "redact_loop ps final left (c # cs) =
    (if \<not> final \<and> awaiting ps left (c # cs) then ([], c # cs, left)
     else case judge_patterns final left (c # cs) ps False of
       Match secret name \<Rightarrow>
         (let (out, rest, l) = redact_loop ps final (Some (last secret)) (drop (length secret - 1) cs)
          in (Redacted secret name # out, rest, l))
     | Unresolved \<Rightarrow> ([], c # cs, left)
     | No_Match \<Rightarrow> (let (out, rest, l) = redact_loop ps final (Some c) cs in (Kept c # out, rest, l)))"
  by pat_completeness auto

termination
  by (relation "measure (\<lambda>(_, _, _, cs). length cs)") auto

datatype redactor_error = Already_Finished | Left_Pending

definition feed :: "string \<Rightarrow> bool \<Rightarrow> redactor \<Rightarrow> redactor_error + string \<times> redactor" where
  "feed txt final rd =
    (if rd_finished rd then (if txt \<noteq> [] then Inl Already_Finished else Inr ([], rd))
     else
      (let (out, rest, l) = redact_loop (rd_patterns rd) final (rd_left rd) (rd_pending rd @ txt) in
       if final \<and> rest \<noteq> [] then Inl Left_Pending
       else Inr (text_of out, rd\<lparr>rd_pending := rest, rd_left := l, rd_finished := final\<rparr>)))"

definition finish_redactor :: "redactor \<Rightarrow> redactor_error + string \<times> redactor" where
  "finish_redactor rd = feed [] True rd"

definition redact_credential_values :: "string \<Rightarrow> (string, string) dict \<Rightarrow> redactor_error + string" where
  "redact_credential_values txt credentials = map_sum id fst (feed txt True (new_redactor credentials))"

text \<open>A producer that feeds chunks and then finishes.\<close>

fun feed_all :: "string list \<Rightarrow> redactor \<Rightarrow> redactor_error + string" where
  "feed_all [] rd = map_sum id fst (finish_redactor rd)"
| "feed_all (chunk # chunks) rd =
    (case feed chunk False rd of
       Inl e \<Rightarrow> Inl e
     | Inr (out, rd') \<Rightarrow> map_sum id (\<lambda>rest. out @ rest) (feed_all chunks rd'))"

section \<open>Whole values\<close>

definition marker_character :: "char \<Rightarrow> bool" where
  "marker_character c \<longleftrightarrow> is_alnum c \<or> c \<in> set ''_.[]#-''"

definition marker_length :: "string \<Rightarrow> nat option" where
  "marker_length s = (let start = ''<redacted:''; name = takeWhile marker_character (drop (length start) s) in
     if prefix start s \<and> name \<noteq> [] \<and> first_char (drop (length start + length name) s) = Some CHR ''>''
     then Some (length start + length name + 1) else None)"

text \<open>The values of a redacted text: nothing is pending after the last chunk, so the error cannot occur.\<close>

definition redact :: "(string, string) dict \<Rightarrow> string \<Rightarrow> string" where
  "redact credentials txt = (case redact_credential_values txt credentials of Inr out \<Rightarrow> out | Inl _ \<Rightarrow> [])"

text \<open>\<open>redact_text\<close>: the text between the markers, of which \<open>before\<close> has been read.\<close>

function redact_between :: "(string, string) dict \<Rightarrow> string \<Rightarrow> string \<Rightarrow> string" where
  "redact_between known before [] = redact known before"
| "redact_between known before (c # cs) = (case marker_length (c # cs) of
     Some n \<Rightarrow> redact known before @ take n (c # cs) @ redact_between known [] (drop (n - 1) cs)
   | None \<Rightarrow> redact_between known (before @ [c]) cs)"
  by pat_completeness auto

termination
  by (relation "measure (\<lambda>(_, _, cs). length cs)") auto

definition redact_text :: "(string, string) dict \<Rightarrow> string \<Rightarrow> string" where
  "redact_text known txt = redact_between known [] txt"

text \<open>\<open>f"{candidate}#{suffix}"\<close>, and the first suffix that is not taken.\<close>

definition suffixed :: "string \<Rightarrow> nat \<Rightarrow> string" where
  "suffixed candidate n = candidate @ ''#'' @ show_nat n"

lemma suffixed_inj: "suffixed a n = suffixed a m \<longleftrightarrow> n = m"
  unfolding suffixed_def by (metis same_append_eq show_nat_value)

function free_suffix :: "string \<Rightarrow> string list \<Rightarrow> nat \<Rightarrow> nat" where
  "free_suffix candidate reserved n =
     (if suffixed candidate n \<in> set reserved then free_suffix candidate reserved (n + 1) else n)"
  by pat_completeness auto

termination
proof (relation "measure (\<lambda>(a, reserved, n). card {k \<in> set reserved. \<exists>m \<ge> n. k = suffixed a m})")
  fix a reserved and n :: nat
  assume taken: "suffixed a n \<in> set reserved"
  have "suffixed a n \<notin> {k \<in> set reserved. \<exists>m \<ge> n + 1. k = suffixed a m}" by (auto simp: suffixed_inj)
  moreover have "suffixed a n \<in> {k \<in> set reserved. \<exists>m \<ge> n. k = suffixed a m}" using taken by blast
  moreover have "{k \<in> set reserved. \<exists>m \<ge> n + 1. k = suffixed a m} \<subseteq> {k \<in> set reserved. \<exists>m \<ge> n. k = suffixed a m}"
    by (auto dest: Suc_leD)
  ultimately have "{k \<in> set reserved. \<exists>m \<ge> n + 1. k = suffixed a m} \<subset> {k \<in> set reserved. \<exists>m \<ge> n. k = suffixed a m}" by blast
  then show "((a, reserved, n + 1), (a, reserved, n)) \<in> measure (\<lambda>(a, reserved, n). card {k \<in> set reserved. \<exists>m \<ge> n. k = suffixed a m})"
    by (simp add: psubset_card_mono)
qed simp

declare free_suffix.simps [simp del]

type_synonym key_state = "(string, string) dict \<times> string list \<times> (string, nat) dict"

text \<open>The renaming of the keys that redaction made equal: key and redacted key, in their sorted order.\<close>

definition allocate :: "string list \<Rightarrow> string \<times> string \<Rightarrow> key_state \<Rightarrow> key_state" where
  "allocate candidates kc st = (case kc of (key, candidate) \<Rightarrow> case st of (allocated, reserved, next_suffix) \<Rightarrow>
     if key = candidate \<or> count_list candidates candidate = 1 then st
     else (let n = free_suffix candidate reserved (dict_get next_suffix 1 candidate); k = suffixed candidate n in
           (dict_put key k allocated, k # reserved, dict_put candidate (n + 1) next_suffix)))"

definition allocated_keys :: "(string \<times> string) list \<Rightarrow> (string, string) dict" where
  "allocated_keys kcs =
    (let candidates = map snd kcs in
     fst (fold (allocate candidates) (sort_key (\<lambda>(key, candidate). (candidate, key)) kcs) ([], candidates, [])))"

definition renamed :: "(string \<times> string) list \<Rightarrow> string \<times> string \<Rightarrow> string" where
  "renamed kcs kc = dict_get (allocated_keys kcs) (snd kc) (fst kc)"

fun redact_sensitive_value :: "(string, string) dict \<Rightarrow> json \<Rightarrow> json" where
  "redact_sensitive_value known (JStr s) = JStr (redact_text known s)"
| "redact_sensitive_value known (JList xs) = JList (map (redact_sensitive_value known) xs)"
| "redact_sensitive_value known (JObj kvs) =
    (let kcs = map (\<lambda>kv. (fst kv, redact_text known (fst kv))) kvs in
     JObj (dict_of (sort_key fst (map (\<lambda>kv. (renamed kcs (fst kv, redact_text known (fst kv)), redact_sensitive_value known (snd kv))) kvs))))"
| "redact_sensitive_value known v = v"

text \<open>\<open>redact_sensitive_value(value, inventory)\<close>: the inventory without empty values.\<close>

definition redact_value :: "(string, string) dict \<Rightarrow> json \<Rightarrow> json" where
  "redact_value inventory v = redact_sensitive_value (inventory_of inventory) v"

end
