(* ===== verification/Capability_Policy.thy ===== *)
theory Capability_Policy
  imports Redaction
begin

text \<open>
  \<^verbatim>\<open>capability_policy.py\<close>: the authority a role has and how it is derived and checked.  The models with
  their validators, the profile an environment selects, the support of a provider, the roots of a resolved
  role, and the checks of paths, commands and environments; and the environments built for a role.

  The file system is a state: the nodes at absolute paths, a path being the list of its components.  \<open>sha\<close> is the digest the diagnostics hide unknown values behind.
\<close>

section \<open>Names\<close>

definition SAFE_PROFILE :: string where "SAFE_PROFILE = ''safe''"

definition UNSAFE_DEVELOPMENT_PROFILE :: string where "UNSAFE_DEVELOPMENT_PROFILE = ''unsafe-development-unrestricted''"

definition UNSAFE_DEVELOPMENT_ENV :: string where "UNSAFE_DEVELOPMENT_ENV = ''UNREST_UNSAFE_DEVELOPMENT_UNRESTRICTED''"

definition CAPABILITY_PROFILE_ENV :: string where "CAPABILITY_PROFILE_ENV = ''UNREST_CAPABILITY_PROFILE''"

definition CAPABILITY_VERSION_ENV :: string where "CAPABILITY_VERSION_ENV = ''UNREST_CAPABILITY_POLICY_VERSION''"

definition FINITE_CREDENTIAL_NAMES :: "string list" where
  "FINITE_CREDENTIAL_NAMES = [''ANTHROPIC_API_KEY'', ''ANTHROPIC_AUTH_TOKEN'', ''CODEX_API_KEY'', ''GLM_API_KEY'', ''OPENAI_API_KEY'',
     ''ZAI_API_KEY'']"

definition role_names :: "string list" where
  "role_names = [''orchestrator'', ''worker'', ''validator'', ''terminal_reviewer'', ''inquiry_branch'', ''inquiry_synthesis'',
     ''candidate_author'', ''independent_evaluator'', ''independent_reviewer'']"

section \<open>Policies\<close>

datatype root_name = Workspace | Project_Record | Deliverable_Roots | Host

record root_capability =
  rc_root :: root_name
  rc_read :: bool
  rc_write :: bool

definition root_ok :: "root_capability \<Rightarrow> bool" where
  "root_ok r \<longleftrightarrow> \<not> (rc_write r \<and> \<not> rc_read r)"

record process_capability =
  pc_enabled :: bool
  pc_commands :: "string list"

definition process_ok :: "process_capability \<Rightarrow> bool" where
  "process_ok p \<longleftrightarrow> (pc_enabled p \<longleftrightarrow> pc_commands p \<noteq> []) \<and> distinct (pc_commands p)"

record environment_capability =
  ec_forward :: "string list"
  ec_credentials :: "string list"
  ec_terminal :: "string list"
  ec_internal :: "string list"
  ec_inherit_all :: bool

definition environment_ok :: "environment_capability \<Rightarrow> bool" where
  "environment_ok e \<longleftrightarrow>
     list_all (\<lambda>names. sorted_set names = names) [ec_forward e, ec_credentials e, ec_terminal e, ec_internal e]
     \<and> ''*'' \<notin> set (ec_credentials e)
     \<and> (if ec_inherit_all e then ec_forward e = [''*''] \<and> ec_terminal e = [''*'']
        else ''*'' \<notin> set (ec_forward e @ ec_terminal e))
     \<and> filter (\<lambda>n. n \<in> set (ec_credentials e)) FINITE_CREDENTIAL_NAMES = ec_credentials e"

record approval_capability =
  ac_allow_once :: bool
  ac_kinds :: "string list"

definition approval_ok :: "approval_capability \<Rightarrow> bool" where
  "approval_ok a \<longleftrightarrow> \<not> (\<not> ac_allow_once a \<and> ac_kinds a \<noteq> []) \<and> distinct (ac_kinds a)"

record role_capability =
  ro_filesystem :: "root_capability list"
  ro_process :: process_capability
  ro_network :: string
  ro_environment :: environment_capability
  ro_approvals :: approval_capability

definition role_ok :: "role_capability \<Rightarrow> bool" where
  "role_ok r \<longleftrightarrow> list_all root_ok (ro_filesystem r) \<and> process_ok (ro_process r) \<and> environment_ok (ro_environment r)
     \<and> approval_ok (ro_approvals r) \<and> distinct (map rc_root (ro_filesystem r))"

record capability_policy =
  cy_version :: int
  cy_safe :: "string \<Rightarrow> role_capability"
  cy_unsafe :: "string \<Rightarrow> role_capability"

text \<open>\<open>CapabilityProfiles.named\<close>: None is the \<open>KeyError\<close>.\<close>

definition named_profile :: "capability_policy \<Rightarrow> string \<Rightarrow> (string \<Rightarrow> role_capability) option" where
  "named_profile policy profile =
    (if profile = SAFE_PROFILE then Some (cy_safe policy)
     else if profile = UNSAFE_DEVELOPMENT_PROFILE then Some (cy_unsafe policy) else None)"

section \<open>Diagnostics\<close>

record policy_error =
  pe_provider :: string
  pe_role :: string
  pe_version :: "int + string"
  pe_capability :: string
  pe_reason :: string

definition opaque :: "(string \<Rightarrow> string) \<Rightarrow> string \<Rightarrow> string" where
  "opaque sha v = ''opaque#'' @ take 12 (sha v)"

definition diagnostic_identifier :: "(string \<Rightarrow> string) \<Rightarrow> string list \<Rightarrow> string \<Rightarrow> string" where
  "diagnostic_identifier sha allowed v = (if v \<in> set allowed then v else opaque sha v)"

definition diagnostic_capabilities :: "string list" where
  "diagnostic_capabilities = [CAPABILITY_PROFILE_ENV, CAPABILITY_VERSION_ENV, UNSAFE_DEVELOPMENT_ENV, ''approvals'', ''filesystem'',
     ''network:allow'', ''network:deny'', ''policy-document'', ''policy-version'', ''profile:safe'',
     ''profile:'' @ UNSAFE_DEVELOPMENT_PROFILE, ''provider'', ''role'', ''terminal'', ''unsafe-development-opt-in'']"

definition policy_failure :: "(string \<Rightarrow> string) \<Rightarrow> string \<Rightarrow> string \<Rightarrow> int + string \<Rightarrow> string \<Rightarrow> string \<Rightarrow> policy_error" where
  "policy_failure sha provider role version capability reason =
     \<lparr>pe_provider = diagnostic_identifier sha [''claude'', ''codex'', ''unresolved''] provider,
      pe_role = diagnostic_identifier sha (role_names @ [''unresolved'']) role,
      pe_version = (case version of Inl i \<Rightarrow> Inl i | Inr text \<Rightarrow> Inr (opaque sha text)),
      pe_capability = diagnostic_identifier sha diagnostic_capabilities capability,
      pe_reason = reason\<rparr>"

section \<open>The profile of an environment\<close>

text \<open>\<open>int(text)\<close>: white space around it, a sign, digits with single underscores between them, at most 4300 digits.\<close>

fun digit_groups :: "string \<Rightarrow> bool \<Rightarrow> string option" where
  "digit_groups [] after_digit = (if after_digit then Some [] else None)"
| "digit_groups (c # cs) after_digit =
    (if is_digit c then map_option ((#) c) (digit_groups cs True)
     else if c = CHR ''_'' \<and> after_digit then digit_groups cs False
     else None)"

definition py_int :: "string \<Rightarrow> int option" where
  "py_int s =
    (let t = py_strip s;
         (sign, body) = (case t of c # cs \<Rightarrow> if c = CHR ''-'' then (-1, cs) else if c = CHR ''+'' then (1, cs) else (1, t) | [] \<Rightarrow> (1, []))
     in case digit_groups body False of
          None \<Rightarrow> None
        | Some ds \<Rightarrow> if 4300 < length ds then None else Some (sign * int (foldl (\<lambda>v d. 10 * v + (ord d - 48)) 0 ds)))"

definition suspicious :: "(string, string) dict \<Rightarrow> string list" where
  "suspicious environment = sort (filter (\<lambda>k. prefix ''UNREST_'' k \<and> find_from k ''UNSAFE'' 0 \<noteq> None \<and> k \<noteq> UNSAFE_DEVELOPMENT_ENV)
     (dict_keys environment))"

definition resolve_profile_from_environment :: "(string \<Rightarrow> string) \<Rightarrow> (string, string) dict \<Rightarrow> policy_error + int \<times> string" where
  "resolve_profile_from_environment sha environment =
    (let raw = dict_get environment ''1'' CAPABILITY_VERSION_ENV;
         profile = dict_get environment SAFE_PROFILE CAPABILITY_PROFILE_ENV;
         opt_in = map_of environment UNSAFE_DEVELOPMENT_ENV;
         failure = policy_failure sha ''unresolved'' ''unresolved'' in
     case py_int raw of
       None \<Rightarrow> Inl (failure (Inr raw) ''policy-version'' ''must be an integer'')
     | Some version \<Rightarrow>
        if version \<noteq> 1 then Inl (failure (Inl version) ''policy-version'' ''unsupported policy version'')
        else if opt_in \<noteq> None \<and> opt_in \<noteq> Some ''1''
        then Inl (failure (Inl version) UNSAFE_DEVELOPMENT_ENV (''explicit unsafe development opt-in must be exactly '' @ [CHR 0x27, CHR ''1'', CHR 0x27]))
        else if profile = UNSAFE_DEVELOPMENT_PROFILE \<and> opt_in \<noteq> Some ''1''
        then Inl (failure (Inl version) (''profile:'' @ profile) (''requires '' @ UNSAFE_DEVELOPMENT_ENV @ ''=1''))
        else if opt_in = Some ''1'' \<and> profile \<noteq> UNSAFE_DEVELOPMENT_PROFILE
        then Inl (failure (Inl version) UNSAFE_DEVELOPMENT_ENV (''requires '' @ CAPABILITY_PROFILE_ENV @ ''='' @ UNSAFE_DEVELOPMENT_PROFILE))
        else if profile \<notin> {SAFE_PROFILE, UNSAFE_DEVELOPMENT_PROFILE}
        then Inl (failure (Inl version) (''profile:'' @ profile) ''unsupported capability profile'')
        else (case suspicious environment of
            [] \<Rightarrow> Inr (version, profile)
          | k # _ \<Rightarrow> Inl (failure (Inl version) ''unsafe-development-opt-in'' (''unknown unsafe setting identifier='' @ opaque sha k))))"

definition profile_environment :: "(string \<Rightarrow> string) \<Rightarrow> string \<Rightarrow> policy_error + (string, string) dict" where
  "profile_environment sha profile =
    (if profile \<notin> {SAFE_PROFILE, UNSAFE_DEVELOPMENT_PROFILE}
     then Inl (policy_failure sha ''unresolved'' ''unresolved'' (Inl 1) (''profile:'' @ profile) ''unsupported capability profile'')
     else Inr ([(CAPABILITY_PROFILE_ENV, profile), (CAPABILITY_VERSION_ENV, ''1'')]
       @ (if profile = UNSAFE_DEVELOPMENT_PROFILE then [(UNSAFE_DEVELOPMENT_ENV, ''1'')] else [])))"

section \<open>Providers\<close>

text \<open>\<^verbatim>\<open>providers.py\<close>: what the checks use of a provider.\<close>

record provider =
  pv_name :: string
  pv_credentials :: "string list"
  pv_versions :: "int list"
  pv_profiles :: "string list"
  pv_roles :: "string list"
  pv_networks :: "string list"
  pv_filesystem :: bool
  pv_terminal :: bool
  pv_permission :: bool

definition default_provider :: "string \<Rightarrow> string list \<Rightarrow> provider" where
  "default_provider name credentials = \<lparr>pv_name = name, pv_credentials = credentials, pv_versions = [1],
     pv_profiles = [SAFE_PROFILE, UNSAFE_DEVELOPMENT_PROFILE], pv_roles = role_names, pv_networks = [''allow''],
     pv_filesystem = True, pv_terminal = True, pv_permission = True\<rparr>"

definition PROVIDERS :: "(string, provider) dict" where
  "PROVIDERS = [(''claude'', default_provider ''claude'' [''ANTHROPIC_API_KEY'', ''ANTHROPIC_AUTH_TOKEN'', ''GLM_API_KEY'', ''ZAI_API_KEY'']),
     (''codex'', default_provider ''codex'' [''CODEX_API_KEY'', ''OPENAI_API_KEY''])]"

definition narrowed :: "provider \<Rightarrow> role_capability \<Rightarrow> role_capability" where
  "narrowed pv r = r\<lparr>ro_environment := (ro_environment r)\<lparr>ec_credentials :=
     filter (\<lambda>n. n \<in> set (pv_credentials pv)) (ec_credentials (ro_environment r))\<rparr>\<rparr>"

definition validate_provider_support ::
  "(string \<Rightarrow> string) \<Rightarrow> provider \<Rightarrow> string \<Rightarrow> capability_policy \<Rightarrow> string \<Rightarrow> policy_error + role_capability" where
  "validate_provider_support sha pv role policy profile =
    (let failure = policy_failure sha (pv_name pv) role (Inl (cy_version policy)) in
     if cy_version policy \<notin> set (pv_versions pv) then Inl (failure ''policy-version'' ''provider does not support this version'')
     else if profile \<notin> set (pv_profiles pv) then Inl (failure (''profile:'' @ profile) ''provider does not support this profile'')
     else if role \<notin> set (pv_roles pv) then Inl (failure ''role'' ''provider cannot enforce this role'')
     else (case named_profile policy profile of
         None \<Rightarrow> Inl (failure (''profile:'' @ profile) ''profile is absent from the policy'')
       | Some roles \<Rightarrow>
          let r = roles role in
          if ro_network r \<notin> set (pv_networks pv)
          then Inl (failure (''network:'' @ ro_network r) ''provider cannot enforce this network capability'')
          else if role \<noteq> ''orchestrator'' \<and> ro_filesystem r \<noteq> [] \<and> \<not> pv_filesystem pv
          then Inl (failure ''filesystem'' ''provider lacks ACP filesystem enforcement'')
          else if role \<noteq> ''orchestrator'' \<and> pc_enabled (ro_process r) \<and> \<not> pv_terminal pv
          then Inl (failure ''terminal'' ''provider lacks ACP terminal enforcement'')
          else if role \<noteq> ''orchestrator'' \<and> \<not> pv_permission pv
          then Inl (failure ''approvals'' ''provider lacks ACP permission enforcement'')
          else Inr (narrowed pv r)))"

section \<open>Files\<close>

type_synonym path = "string list"

datatype fs_node = Directory | File string | Link bool path

type_synonym fs = "(path, fs_node) dict"

datatype os_error = No_Entry | Link_Loop

text \<open>What is left to walk: a component, or the end of the target of a link, which is then resolved.\<close>

datatype part = Name string | Resolved path

definition links :: "fs \<Rightarrow> path set" where
  "links fs = {p. \<exists>absolute target. map_of fs p = Some (Link absolute target)}"

lemma finite_links: "finite (links fs)"
  by (rule finite_subset[OF _ finite_dom_map_of[of fs]]) (auto simp: links_def)

lemma links_seen: "card (links fs - dom (map_of (dict_put l v seen))) \<le> card (links fs - dom (map_of seen))"
  by (intro card_mono finite_Diff finite_links) (auto simp: update_conv split: if_splits)

lemma links_new:
  assumes "map_of fs l = Some (Link absolute target)" "map_of seen l = None"
  shows "card (links fs - dom (map_of (dict_put l v seen))) < card (links fs - dom (map_of seen))"
  by (intro psubset_card_mono finite_Diff finite_links) (use assms in \<open>auto simp: links_def update_conv split: if_splits\<close>)

lemma links_seen_less:
  "card (links fs - dom (map_of (dict_put l v seen))) \<noteq> card (links fs - dom (map_of seen)) \<Longrightarrow>
   card (links fs - dom (map_of (dict_put l v seen))) < card (links fs - dom (map_of seen))"
  using links_seen[of fs l v seen] by simp

text \<open>
  \<open>os.path.realpath\<close> of CPython 3.13, from a resolved directory on.  Every component but \<open>..\<close> is looked up.
  Strict resolution refuses a component that does not exist and a link that is met again while its target is
  being resolved; the other one takes both as they are.  \<open>seen\<close> are the links met, with what they resolve to
  once that is known.
\<close>

function resolve_from :: "fs \<Rightarrow> bool \<Rightarrow> bool \<Rightarrow> (path, path option) dict \<Rightarrow> path \<Rightarrow> part list \<Rightarrow> os_error + path" where
  "resolve_from fs missing_ok loop_ok seen dir [] = Inr dir"
| "resolve_from fs missing_ok loop_ok seen dir (Resolved link # rest) =
     resolve_from fs missing_ok loop_ok (dict_put link (Some dir) seen) dir rest"
| "resolve_from fs missing_ok loop_ok seen dir (Name c # rest) =
    (if c = [] \<or> c = ''.'' then resolve_from fs missing_ok loop_ok seen dir rest
     else if c = ''..'' then resolve_from fs missing_ok loop_ok seen (butlast dir) rest
     else case map_of fs (dir @ [c]) of
       None \<Rightarrow> if missing_ok then resolve_from fs missing_ok loop_ok seen (dir @ [c]) rest else Inl No_Entry
     | Some (Link absolute target) \<Rightarrow>
        (case map_of seen (dir @ [c]) of
           None \<Rightarrow> resolve_from fs missing_ok loop_ok (dict_put (dir @ [c]) None seen) (if absolute then [] else dir)
             (map Name target @ Resolved (dir @ [c]) # rest)
         | Some (Some p) \<Rightarrow> resolve_from fs missing_ok loop_ok seen p rest
         | Some None \<Rightarrow> if loop_ok then resolve_from fs missing_ok loop_ok seen (dir @ [c]) rest else Inl Link_Loop)
     | Some _ \<Rightarrow> resolve_from fs missing_ok loop_ok seen (dir @ [c]) rest)"
  by pat_completeness auto

termination
  by (relation "measures [\<lambda>(fs, _, _, seen, _, _). card (links fs - dom (map_of seen)), \<lambda>(_, _, _, _, _, rest). length rest]")
    (auto intro: links_new links_seen_less)

definition resolve_path :: "fs \<Rightarrow> bool \<Rightarrow> path \<Rightarrow> os_error + path" where
  "resolve_path fs strict p = resolve_from fs (\<not> strict) (\<not> strict) [] [] (map Name p)"

text \<open>\<open>p.exists()\<close> and \<open>p.is_symlink()\<close>.\<close>

definition path_exists :: "fs \<Rightarrow> path \<Rightarrow> bool" where
  "path_exists fs p \<longleftrightarrow> \<not> isl (resolve_path fs True p)"

definition is_symlink :: "fs \<Rightarrow> path \<Rightarrow> bool" where
  "is_symlink fs p \<longleftrightarrow> p \<noteq> [] \<and> last p \<noteq> ''..'' \<and> (case resolve_path fs True (butlast p) of
     Inl _ \<Rightarrow> False
   | Inr dir \<Rightarrow> (case map_of fs (dir @ [last p]) of Some (Link _ _) \<Rightarrow> True | _ \<Rightarrow> False))"

text \<open>\<open>Path(text)\<close>: whether it is absolute, and its components.\<close>

fun split_path :: "string \<Rightarrow> string \<Rightarrow> string list" where
  "split_path word [] = [word]"
| "split_path word (c # cs) = (if c = CHR ''/'' then word # split_path [] cs else split_path (word @ [c]) cs)"

definition path_parts :: "string \<Rightarrow> path" where
  "path_parts s = filter (\<lambda>w. w \<noteq> [] \<and> w \<noteq> ''.'') (split_path [] s)"

definition is_absolute :: "string \<Rightarrow> bool" where
  "is_absolute s \<longleftrightarrow> prefix ''/'' s"

section \<open>The resolved role\<close>

record resolved_root =
  rr_name :: root_name
  rr_path :: path
  rr_read :: bool
  rr_write :: bool

record resolved_role =
  rs_provider :: string
  rs_role :: string
  rs_profile :: string
  rs_version :: int
  rs_roots :: "resolved_root list"
  rs_process :: process_capability
  rs_network :: string
  rs_environment :: environment_capability
  rs_approvals :: approval_capability

definition locations :: "path \<Rightarrow> path \<Rightarrow> path list \<Rightarrow> root_name \<Rightarrow> path list" where
  "locations workspace project_record deliverables name =
    (case name of Workspace \<Rightarrow> [workspace] | Project_Record \<Rightarrow> [project_record] | Deliverable_Roots \<Rightarrow> deliverables | Host \<Rightarrow> [[]])"

definition root_text :: "root_name \<Rightarrow> string" where
  "root_text name = (case name of Workspace \<Rightarrow> ''workspace'' | Project_Record \<Rightarrow> ''project_record''
     | Deliverable_Roots \<Rightarrow> ''deliverable_roots'' | Host \<Rightarrow> ''host'')"

text \<open>The roots of the declarations in their order: a root that does not resolve stops with its name.  Roots are
  absolute paths, on which \<open>expanduser\<close> changes nothing.\<close>

fun collect_roots :: "fs \<Rightarrow> (root_capability \<times> path) list \<Rightarrow> resolved_root list \<Rightarrow> root_name + resolved_root list" where
  "collect_roots fs [] roots = Inr roots"
| "collect_roots fs ((d, raw) # rest) roots =
    (case resolve_path fs True raw of
       Inl _ \<Rightarrow> Inl (rc_root d)
     | Inr canonical \<Rightarrow>
        (let r = \<lparr>rr_name = rc_root d, rr_path = canonical, rr_read = rc_read d, rr_write = rc_write d\<rparr>
         in collect_roots fs rest (if r \<in> set roots then roots else roots @ [r])))"

definition resolve_role_capability ::
  "(string \<Rightarrow> string) \<Rightarrow> fs \<Rightarrow> provider \<Rightarrow> string \<Rightarrow> capability_policy \<Rightarrow> string \<Rightarrow> path \<Rightarrow> path \<Rightarrow> path list \<Rightarrow> policy_error + resolved_role" where
  "resolve_role_capability sha fs pv role policy profile workspace project_record deliverables =
    (case validate_provider_support sha pv role policy profile of
       Inl e \<Rightarrow> Inl e
     | Inr r \<Rightarrow>
        (case collect_roots fs (concat (map (\<lambda>d. map (Pair d) (locations workspace project_record deliverables (rc_root d))) (ro_filesystem r))) [] of
           Inl name \<Rightarrow> Inl (policy_failure sha (pv_name pv) role (Inl (cy_version policy)) (''filesystem-root:'' @ root_text name)
             ''root does not resolve canonically'')
         | Inr roots \<Rightarrow> Inr \<lparr>rs_provider = pv_name pv, rs_role = role, rs_profile = profile, rs_version = cy_version policy,
             rs_roots = roots, rs_process = ro_process r, rs_network = ro_network r, rs_environment = ro_environment r,
             rs_approvals = ro_approvals r\<rparr>))"

section \<open>The checks\<close>

datatype access = Read_Access | Write_Access | Cwd_Access

datatype access_error = Access_Error string string | Embedded_Null

definition access_text :: "access \<Rightarrow> string" where
  "access_text a = (case a of Read_Access \<Rightarrow> ''read'' | Write_Access \<Rightarrow> ''write'' | Cwd_Access \<Rightarrow> ''cwd'')"

text \<open>The nearest ancestor that exists or is a link.\<close>

function existing_ancestor :: "fs \<Rightarrow> path \<Rightarrow> path" where
  "existing_ancestor fs p = (if path_exists fs p \<or> is_symlink fs p \<or> p = [] then p else existing_ancestor fs (butlast p))"
  by pat_completeness auto

termination
  by (relation "measure (\<lambda>(_, p). length p)") auto

declare existing_ancestor.simps [simp del]

definition canonical_access_path :: "fs \<Rightarrow> path \<Rightarrow> bool \<Rightarrow> access_error + path" where
  "canonical_access_path fs p for_write =
    (let failure = Inl (Access_Error ''filesystem:canonicalization'' ''path cannot be resolved safely'') in
     if \<not> for_write then (case resolve_path fs True p of Inl _ \<Rightarrow> failure | Inr q \<Rightarrow> Inr q)
     else if isl (resolve_path fs True (existing_ancestor fs p)) then failure
     else (case resolve_path fs False p of Inl _ \<Rightarrow> failure | Inr q \<Rightarrow> Inr q))"

definition is_within :: "path \<Rightarrow> path \<Rightarrow> bool" where
  "is_within candidate root \<longleftrightarrow> prefix root candidate"

definition permits :: "access \<Rightarrow> resolved_root \<Rightarrow> bool" where
  "permits a r \<longleftrightarrow> (case a of Write_Access \<Rightarrow> rr_write r | _ \<Rightarrow> rr_read r)"

definition authorize_parts :: "fs \<Rightarrow> resolved_role \<Rightarrow> path \<Rightarrow> access \<Rightarrow> access_error + path" where
  "authorize_parts fs cap p a =
    (case canonical_access_path fs p (a = Write_Access) of
       Inl e \<Rightarrow> Inl e
     | Inr candidate \<Rightarrow>
        if list_ex (\<lambda>r. permits a r \<and> is_within candidate (rr_path r)) (rs_roots cap) then Inr candidate
        else Inl (Access_Error (''filesystem:'' @ access_text a) (''path is outside permitted canonical roots for role='' @ rs_role cap)))"

text \<open>A path with a null character makes the first lookup of it fail; here it is refused before all lookups.\<close>

definition authorize_path :: "fs \<Rightarrow> resolved_role \<Rightarrow> string \<Rightarrow> access \<Rightarrow> path \<Rightarrow> access_error + path" where
  "authorize_path fs cap raw a working_dir =
    (if CHR 0x00 \<in> set raw then Inl Embedded_Null
     else authorize_parts fs cap (if is_absolute raw then path_parts raw else working_dir @ path_parts raw) a)"

definition authorize_terminal_environment :: "resolved_role \<Rightarrow> string list \<Rightarrow> access_error + unit" where
  "authorize_terminal_environment cap names =
    (if ec_inherit_all (rs_environment cap) then Inr ()
     else case sorted_set (filter (\<lambda>n. n \<notin> set (ec_terminal (rs_environment cap))) names) of
       [] \<Rightarrow> Inr ()
     | rejected \<Rightarrow> Inl (Access_Error ''terminal:environment'' (''disallowed names for role='' @ rs_role cap @ '': '' @ join '', '' rejected)))"

text \<open>\<open>Path(command).name\<close>.\<close>

definition path_name :: "string \<Rightarrow> string" where
  "path_name s = (case path_parts s of [] \<Rightarrow> [] | ps \<Rightarrow> last ps)"

definition authorize_command :: "resolved_role \<Rightarrow> string \<Rightarrow> access_error + unit" where
  "authorize_command cap command =
    (if \<not> pc_enabled (rs_process cap)
     then Inl (Access_Error ''terminal:process'' (''process access is disabled for role='' @ rs_role cap))
     else if ''*'' \<in> set (pc_commands (rs_process cap)) then Inr ()
     else if command \<notin> set (pc_commands (rs_process cap)) \<and> path_name command \<notin> set (pc_commands (rs_process cap))
     then Inl (Access_Error ''terminal:command'' (''command is not permitted for role='' @ rs_role cap))
     else Inr ())"

section \<open>The environment of a role\<close>

definition finite_credential_values :: "(string, string) dict \<Rightarrow> (string, string) dict" where
  "finite_credential_values environment = credential_source_values environment FINITE_CREDENTIAL_NAMES"

definition credential_values :: "resolved_role \<Rightarrow> (string, string) dict \<Rightarrow> (string, string) dict" where
  "credential_values cap environment = credential_source_values environment (ec_credentials (rs_environment cap))"

definition forwarded :: "environment_capability \<Rightarrow> bool \<Rightarrow> (string, string) dict \<Rightarrow> (string, string) dict" where
  "forwarded e include_credentials host =
    (if ec_inherit_all e
     then filter (\<lambda>(n, _). \<not> (n \<in> set FINITE_CREDENTIAL_NAMES \<and> (\<not> include_credentials \<or> n \<notin> set (ec_credentials e)))) (sort_key fst host)
     else map (\<lambda>n. (n, dict_get host [] n)) (filter (\<lambda>n. n \<in> set (dict_keys host))
       (sorted_set (ec_forward e @ (if include_credentials then ec_credentials e else [])))))"

fun add_internal :: "string list \<Rightarrow> (string \<times> string) list \<Rightarrow> (string, string) dict \<Rightarrow> string + (string, string) dict" where
  "add_internal declared [] env = Inr env"
| "add_internal declared ((n, v) # rest) env = (if n \<notin> set declared then Inl n else add_internal declared rest (dict_put n v env))"

definition build_role_environment ::
  "(string \<Rightarrow> string) \<Rightarrow> resolved_role \<Rightarrow> (string, string) dict \<Rightarrow> (string, string) dict \<Rightarrow> bool \<Rightarrow> policy_error + (string, string) dict" where
  "build_role_environment sha cap host internal include_credentials =
    (let e = rs_environment cap in
     case add_internal (ec_internal e) (sort_key fst internal) (forwarded e include_credentials host) of
       Inl n \<Rightarrow> Inl (policy_failure sha (rs_provider cap) (rs_role cap) (Inl (rs_version cap)) (''environment-internal:'' @ n)
         ''internal runtime name is not declared by policy'')
     | Inr env \<Rightarrow> Inr (enforce_environment_credential_provenance env (finite_credential_values host)))"

definition validate_role_environment :: "(string \<Rightarrow> string) \<Rightarrow> resolved_role \<Rightarrow> (string, string) dict \<Rightarrow> policy_error + unit" where
  "validate_role_environment sha cap env =
    (let e = rs_environment cap in
     if ec_inherit_all e then Inr ()
     else case sorted_set (filter (\<lambda>n. n \<notin> set (ec_forward e @ ec_credentials e @ ec_internal e)) (dict_keys env)) of
       [] \<Rightarrow> Inr ()
     | n # _ \<Rightarrow> Inl (policy_failure sha (rs_provider cap) (rs_role cap) (Inl (rs_version cap)) (''environment:'' @ n)
         ''generated environment name is not declared by policy''))"

end
