(* ===== verification/Acp_Client.thy ===== *)
theory Acp_Client
  imports Capability_Policy Provider_Review
begin

text \<open>
  The client side of \<^verbatim>\<open>acp_runner.py\<close>: the requests a provider may send, each checked against the authority
  of the role before it touches a file or starts a process, and the terminals it keeps.

  Files hold text.  What a request returns on the wire is a result, a refusal with its reason, or the answer for
  an unknown method.  \<open>spawns\<close> tells whether the system starts a process, \<open>decode\<close> is the incremental UTF-8
  decoder with replacement, whose characters the strings of this model do not all contain.
\<close>

section \<open>Files\<close>

datatype os_failure = Not_A_Directory | Is_A_Directory | Too_Many_Links

text \<open>\<open>path.parent.mkdir(parents=True, exist_ok=True)\<close>: the missing ancestors, from the root down.\<close>

fun create_parents :: "path \<Rightarrow> path \<Rightarrow> fs \<Rightarrow> os_failure + fs" where
  "create_parents dir [] fs = Inr fs"
| "create_parents dir (c # cs) fs = (case map_of fs (dir @ [c]) of
     None \<Rightarrow> create_parents (dir @ [c]) cs (dict_put (dir @ [c]) Directory fs)
   | Some Directory \<Rightarrow> create_parents (dir @ [c]) cs fs
   | Some (File _) \<Rightarrow> Inl Not_A_Directory
   | Some (Link _ _) \<Rightarrow> Inl Too_Many_Links)"

definition write_text :: "path \<Rightarrow> string \<Rightarrow> fs \<Rightarrow> os_failure + fs" where
  "write_text p content fs = (case map_of fs p of
     Some Directory \<Rightarrow> Inl Is_A_Directory
   | Some (Link _ _) \<Rightarrow> Inl Too_Many_Links
   | _ \<Rightarrow> if p = [] then Inl Is_A_Directory else Inr (dict_put p (File content) fs))"

text \<open>\<open>str.splitlines()\<close> over code points below 256.\<close>

definition line_break :: "char \<Rightarrow> bool" where
  "line_break c \<longleftrightarrow> 10 \<le> ord c \<and> ord c \<le> 13 \<or> 28 \<le> ord c \<and> ord c \<le> 30 \<or> ord c = 133"

fun split_lines :: "string \<Rightarrow> string \<Rightarrow> string list" where
  "split_lines word [] = (if word = [] then [] else [word])"
| "split_lines word (c # cs) =
    (if c = CHR 0x0D \<and> first_char cs = Some CHR 0x0A then split_lines word cs
     else if line_break c then word # split_lines [] cs else split_lines (word @ [c]) cs)"

text \<open>\<open>xs[start:stop]\<close> with a start that is not negative.\<close>

definition py_slice :: "nat \<Rightarrow> int \<Rightarrow> 'a list \<Rightarrow> 'a list" where
  "py_slice start stop xs = (let e = (if stop < 0 then nat (int (length xs) + stop) else nat stop) in drop start (take e xs))"

section \<open>The client\<close>

record terminal =
  tm_output :: string
  tm_limit :: nat
  tm_truncated :: bool
  tm_exit :: "int option"
  tm_waiters :: "json option list"

record spawn =
  sp_command :: string
  sp_args :: "string list"
  sp_cwd :: path
  sp_env :: "(string, string) dict"

record client =
  cl_policy :: resolved_role
  cl_dir :: path
  cl_environment :: "(string, string) dict"
  cl_credentials :: "(string, string) dict"
  cl_fs :: fs
  cl_terminals :: "(string, terminal) dict"
  cl_released :: "string list"
  cl_count :: nat
  cl_spawned :: "spawn list"
  cl_capture :: "capture option"

definition new_client :: "resolved_role \<Rightarrow> path \<Rightarrow> (string, string) dict \<Rightarrow> fs \<Rightarrow> client" where
  "new_client policy dir environment fs = \<lparr>cl_policy = policy, cl_dir = dir, cl_environment = environment,
     cl_credentials = finite_credential_values environment, cl_fs = fs, cl_terminals = [], cl_released = [], cl_count = 0,
     cl_spawned = [], cl_capture = None\<rparr>"

definition set_credential_inventory :: "(string, string) dict \<Rightarrow> client \<Rightarrow> client" where
  "set_credential_inventory credentials cl = cl\<lparr>cl_credentials := credentials\<rparr>"

text \<open>How \<open>run_node\<close> starts a client: its terminals get the environment of the role without credentials, and its
  inventory holds the finite credentials of the host.\<close>

definition start_client :: "(string \<Rightarrow> string) \<Rightarrow> resolved_role \<Rightarrow> path \<Rightarrow> (string, string) dict \<Rightarrow> fs \<Rightarrow> policy_error + client" where
  "start_client sha policy dir host fs =
    (case build_role_environment sha policy host [] False of
       Inl e \<Rightarrow> Inl e
     | Inr terminal_environment \<Rightarrow>
         Inr (set_credential_inventory (finite_credential_values host) (new_client policy dir terminal_environment fs)))"

datatype acp_error = Review_Blocked | Denied_Access access_error | Value_Failure string | Type_Failure | Key_Failure string | System_Failure

type_synonym answer = "acp_error + json option"

text \<open>\<open>int(value)\<close> of a JSON value.\<close>

definition json_int :: "json \<Rightarrow> acp_error + int" where
  "json_int v = (case v of
     JInt i \<Rightarrow> Inr i
   | JBool b \<Rightarrow> Inr (if b then 1 else 0)
   | JStr s \<Rightarrow> (case py_int s of None \<Rightarrow> Inl (Value_Failure ''int'') | Some i \<Rightarrow> Inr i)
   | _ \<Rightarrow> Inl Type_Failure)"

definition not_null :: "json option \<Rightarrow> json option" where
  "not_null v = (case v of Some JNull \<Rightarrow> None | _ \<Rightarrow> v)"

definition authorize_json :: "client \<Rightarrow> json \<Rightarrow> access \<Rightarrow> acp_error + path" where
  "authorize_json cl v a = (case v of
     JStr raw \<Rightarrow> (case authorize_path (cl_fs cl) (cl_policy cl) raw a (cl_dir cl) of Inl e \<Rightarrow> Inl (Denied_Access e) | Inr p \<Rightarrow> Inr p)
   | _ \<Rightarrow> Inl Type_Failure)"

definition selected_lines :: "string \<Rightarrow> json option \<Rightarrow> json option \<Rightarrow> acp_error + string" where
  "selected_lines txt line limit =
    (case not_null line of
       None \<Rightarrow> Inr txt
     | Some l \<Rightarrow>
        (case json_int l of
           Inl e \<Rightarrow> Inl e
         | Inr i \<Rightarrow>
            (let start = nat (max 0 (i - 1)); ls = split_lines [] txt in
             case not_null limit of
               None \<Rightarrow> Inr (join newline (drop start ls))
             | Some m \<Rightarrow> (case json_int m of Inl e \<Rightarrow> Inl e | Inr k \<Rightarrow> Inr (join newline (py_slice start (int start + k) ls))))))"

definition handle_fs_read :: "json \<Rightarrow> client \<Rightarrow> answer" where
  "handle_fs_read params cl =
    (case authorize_json cl (case jget params ''path'' of None \<Rightarrow> JStr [] | Some v \<Rightarrow> v) Read_Access of
       Inl e \<Rightarrow> Inl e
     | Inr p \<Rightarrow>
        (case map_of (cl_fs cl) p of
           Some (File txt) \<Rightarrow>
             (case selected_lines txt (jget params ''line'') (jget params ''limit'') of
                Inl e \<Rightarrow> Inl e
              | Inr out \<Rightarrow> Inr (Some (JObj [(''content'', JStr out)])))
         | _ \<Rightarrow> Inr (Some (JObj [(''content'', JStr [])]))))"

definition handle_fs_write :: "json \<Rightarrow> client \<Rightarrow> answer \<times> client" where
  "handle_fs_write params cl =
    (case jget params ''path'' of
       None \<Rightarrow> (Inl (Key_Failure ''path''), cl)
     | Some raw \<Rightarrow>
    (case authorize_json cl raw Write_Access of
       Inl e \<Rightarrow> (Inl e, cl)
     | Inr p \<Rightarrow>
    (case create_parents [] (butlast p) (cl_fs cl) of
       Inl _ \<Rightarrow> (Inl System_Failure, cl)
     | Inr made \<Rightarrow>
    (let cl' = cl\<lparr>cl_fs := made\<rparr> in
     case jget params ''content'' of
       None \<Rightarrow> (Inl (Key_Failure ''content''), cl')
     | Some content \<Rightarrow>
        (case redact_value (cl_credentials cl) content of
           JStr s \<Rightarrow> (case write_text p s made of
               Inl _ \<Rightarrow> (Inl System_Failure, cl')
             | Inr written \<Rightarrow> (Inr (Some (JObj [])), cl\<lparr>cl_fs := written\<rparr>))
         | _ \<Rightarrow> (Inl (Denied_Access (Access_Error ''filesystem:write'' ''content must be text'')), cl'))))))"

section \<open>Terminals\<close>

definition string_list :: "json option \<Rightarrow> string list option" where
  "string_list v = (case not_null v of
     None \<Rightarrow> Some []
   | Some (JList xs) \<Rightarrow> if list_all is_str xs then Some (map (\<lambda>x. case x of JStr s \<Rightarrow> s | _ \<Rightarrow> []) xs) else None
   | Some _ \<Rightarrow> None)"

fun requested_environment :: "json list \<Rightarrow> (string, string) dict \<Rightarrow> string + (string, string) dict" where
  "requested_environment [] env = Inr env"
| "requested_environment (v # vs) env =
    (case (json_str (jget v ''name''), json_str (jget v ''value'')) of
       (Some n, Some x) \<Rightarrow> if n \<in> set (dict_keys env) then Inl ''duplicate'' else requested_environment vs (dict_put n x env)
     | _ \<Rightarrow> Inl ''entries'')"

definition environment_entries :: "json option \<Rightarrow> json list option" where
  "environment_entries v = (case not_null v of None \<Rightarrow> Some [] | Some (JList vs) \<Rightarrow> Some vs | Some _ \<Rightarrow> None)"

definition output_limit :: "json option \<Rightarrow> nat option" where
  "output_limit v = (case not_null v of
     None \<Rightarrow> Some (1024 * 1024)
   | Some (JInt i) \<Rightarrow> if 0 < i then Some (nat i) else None
   | Some _ \<Rightarrow> None)"

definition falsy :: "json option \<Rightarrow> bool" where
  "falsy v \<longleftrightarrow> v \<in> {None, Some JNull, Some (JBool False), Some (JInt 0), Some (JStr []), Some (JList []), Some (JObj [])}"

definition terminal_cwd :: "json \<Rightarrow> client \<Rightarrow> acp_error + path" where
  "terminal_cwd params cl =
    (if falsy (jget params ''cwd'')
     then (case authorize_parts (cl_fs cl) (cl_policy cl) (cl_dir cl) Cwd_Access of Inl e \<Rightarrow> Inl (Denied_Access e) | Inr p \<Rightarrow> Inr p)
     else authorize_json cl (the (jget params ''cwd'')) Cwd_Access)"

text \<open>The checks of a new terminal, in their order: what is to be started, and the bound of its output.\<close>

definition terminal_plan :: "json \<Rightarrow> client \<Rightarrow> acp_error + spawn \<times> nat" where
  "terminal_plan params cl =
    (case (case jget params ''command'' of None \<Rightarrow> Some [] | Some v \<Rightarrow> json_str (Some v)) of
       None \<Rightarrow> Inl (Value_Failure ''command'')
     | Some [] \<Rightarrow> Inl (Value_Failure ''command'')
     | Some command \<Rightarrow>
    (case string_list (jget params ''args'') of
       None \<Rightarrow> Inl (Value_Failure ''args'')
     | Some args \<Rightarrow>
    (case authorize_command (cl_policy cl) command of
       Inl e \<Rightarrow> Inl (Denied_Access e)
     | Inr _ \<Rightarrow>
    (case terminal_cwd params cl of
       Inl e \<Rightarrow> Inl e
     | Inr cwd \<Rightarrow>
    (case environment_entries (jget params ''env'') of
       None \<Rightarrow> Inl (Value_Failure ''env'')
     | Some entries \<Rightarrow>
    (case requested_environment entries [] of
       Inl why \<Rightarrow> Inl (Value_Failure why)
     | Inr requested \<Rightarrow>
    (case authorize_terminal_environment (cl_policy cl) (dict_keys requested) of
       Inl e \<Rightarrow> Inl (Denied_Access e)
     | Inr _ \<Rightarrow>
    (case output_limit (jget params ''outputByteLimit'') of
       None \<Rightarrow> Inl (Value_Failure ''outputByteLimit'')
     | Some limit \<Rightarrow>
        (let own = filter (\<lambda>(n, _). n \<notin> set (dict_keys (cl_credentials cl))) requested;
             env = enforce_environment_credential_provenance (dict_of (cl_environment cl @ own)) (cl_credentials cl)
         in Inr (\<lparr>sp_command = command, sp_args = args, sp_cwd = cwd, sp_env = env\<rparr>, limit))))))))))"

definition terminal_name :: "nat \<Rightarrow> string" where
  "terminal_name n = ''terminal-'' @ show_nat n"

definition handle_terminal_create :: "(spawn \<Rightarrow> bool) \<Rightarrow> json \<Rightarrow> client \<Rightarrow> answer \<times> client" where
  "handle_terminal_create spawns params cl =
    (case terminal_plan params cl of
       Inl e \<Rightarrow> (Inl e, cl)
     | Inr (sp, limit) \<Rightarrow>
        (let n = cl_count cl + 1; cl' = cl\<lparr>cl_count := n\<rparr> in
         if \<not> spawns sp then (Inl System_Failure, cl')
         else (Inr (Some (JObj [(''terminalId'', JStr (terminal_name n))])),
           cl'\<lparr>cl_spawned := cl_spawned cl @ [sp],
               cl_terminals := dict_put (terminal_name n) \<lparr>tm_output = [], tm_limit = limit, tm_truncated = False, tm_exit = None,
                 tm_waiters = []\<rparr> (cl_terminals cl)\<rparr>)))"

text \<open>\<open>self._terminals.get(id)\<close>: a released terminal is gone from the map, though its reader goes on.\<close>

definition terminal_of :: "json \<Rightarrow> client \<Rightarrow> (string \<times> terminal) option" where
  "terminal_of params cl = (case json_str (jget params ''terminalId'') of
     None \<Rightarrow> None
   | Some n \<Rightarrow> if n \<in> set (cl_released cl) then None else map_option (Pair n) (map_of (cl_terminals cl) n))"

text \<open>A list or an object is no key of a dictionary.\<close>

definition unhashable_id :: "json \<Rightarrow> bool" where
  "unhashable_id params \<longleftrightarrow> (case jget params ''terminalId'' of Some (JList _) \<Rightarrow> True | Some (JObj _) \<Rightarrow> True | _ \<Rightarrow> False)"

text \<open>\<open>_redact_terminal_bytes\<close>: of an unfinished output the end that may grow into a credential is held back.\<close>

definition redact_terminal_bytes :: "(bool \<Rightarrow> string \<Rightarrow> string) \<Rightarrow> string \<Rightarrow> (string, string) dict \<Rightarrow> bool \<Rightarrow> string" where
  "redact_terminal_bytes decode output credentials incomplete =
    (case feed (decode (\<not> incomplete) output) (\<not> incomplete) (new_redactor credentials) of Inr (out, _) \<Rightarrow> out | Inl _ \<Rightarrow> [])"

definition handle_terminal_output :: "(bool \<Rightarrow> string \<Rightarrow> string) \<Rightarrow> json \<Rightarrow> client \<Rightarrow> answer" where
  "handle_terminal_output decode params cl =
    (case terminal_of params cl of
       None \<Rightarrow> Inr (Some (JObj [(''output'', JStr []), (''truncated'', JBool False)]))
     | Some (_, t) \<Rightarrow> Inr (Some (JObj ([(''output'', JStr (redact_terminal_bytes decode (tm_output t) (cl_credentials cl)
           (tm_exit t = None \<or> tm_truncated t))), (''truncated'', JBool (tm_truncated t))]
         @ (case tm_exit t of None \<Rightarrow> [] | Some code \<Rightarrow> [(''exitStatus'', JObj [(''exitCode'', JInt code)])])))))"

definition exit_answer :: "int \<Rightarrow> json" where
  "exit_answer code = JObj [(''exitCode'', JInt code), (''signal'', JNull)]"

text \<open>A wait on a running terminal is answered when it ends: None stands for no answer yet.\<close>

definition handle_terminal_wait :: "json option \<Rightarrow> json \<Rightarrow> client \<Rightarrow> answer option \<times> client" where
  "handle_terminal_wait rid params cl =
    (case terminal_of params cl of
       None \<Rightarrow> (Some (Inr (Some (exit_answer (- 1)))), cl)
     | Some (n, t) \<Rightarrow>
        (case tm_exit t of
           Some code \<Rightarrow> (Some (Inr (Some (exit_answer code))), cl)
         | None \<Rightarrow> (None, cl\<lparr>cl_terminals := dict_put n (t\<lparr>tm_waiters := tm_waiters t @ [rid]\<rparr>) (cl_terminals cl)\<rparr>)))"

definition handle_terminal_release :: "json \<Rightarrow> client \<Rightarrow> answer \<times> client" where
  "handle_terminal_release params cl =
    (case terminal_of params cl of
       None \<Rightarrow> (Inr (Some (JObj [])), cl)
     | Some (n, _) \<Rightarrow> (Inr (Some (JObj [])), cl\<lparr>cl_released := n # cl_released cl\<rparr>))"

text \<open>\<open>_read_terminal_output\<close>: a chunk of the output, and the end of the process, which answers its waiters.\<close>

definition terminal_chunk :: "string \<Rightarrow> terminal \<Rightarrow> terminal" where
  "terminal_chunk chunk t =
    (if tm_truncated t then t
     else if tm_limit t < length (tm_output t) + length chunk
     then t\<lparr>tm_truncated := True, tm_output := tm_output t @ take (tm_limit t - length (tm_output t)) chunk\<rparr>
     else t\<lparr>tm_output := tm_output t @ chunk\<rparr>)"

definition terminal_exit :: "int \<Rightarrow> terminal \<Rightarrow> (json option \<times> json) list \<times> terminal" where
  "terminal_exit code t = (map (\<lambda>rid. (rid, exit_answer code)) (tm_waiters t), t\<lparr>tm_exit := Some code, tm_waiters := []\<rparr>)"

section \<open>Permissions\<close>

definition option_kinds :: "string list" where
  "option_kinds = [''allow_always'', ''allow_once'', ''reject_always'', ''reject_once'']"

definition permission_cancelled :: json where
  "permission_cancelled = JObj [(''outcome'', JObj [(''outcome'', JStr ''cancelled'')])]"

definition permission_selected :: "string \<Rightarrow> json" where
  "permission_selected option_id = JObj [(''outcome'', JObj [(''optionId'', JStr option_id), (''outcome'', JStr ''selected'')])]"

text \<open>The options with their kinds; None when one is malformed or an id is repeated.\<close>

fun parsed_options :: "json list \<Rightarrow> string list \<Rightarrow> (string \<times> string) list option" where
  "parsed_options [] seen = Some []"
| "parsed_options (v # vs) seen =
    (case (json_str (jget v ''optionId''), json_str (jget v ''name''), json_str (jget v ''kind'')) of
       (Some i, Some n, Some k) \<Rightarrow>
         if blank i \<or> blank n \<or> k \<notin> set option_kinds \<or> i \<in> set seen then None
         else map_option ((#) (i, k)) (parsed_options vs (i # seen))
     | _ \<Rightarrow> None)"

definition handle_permission_request :: "json \<Rightarrow> client \<Rightarrow> json" where
  "handle_permission_request params cl =
    (case (jget params ''options'', jget params ''toolCall'') of
       (Some (JList options), Some (JObj call)) \<Rightarrow>
        (case json_str (map_of call ''kind'') of
           None \<Rightarrow> permission_cancelled
         | Some [] \<Rightarrow> permission_cancelled
         | Some kind \<Rightarrow>
            (case parsed_options options [] of
               None \<Rightarrow> permission_cancelled
             | Some parsed \<Rightarrow>
                (let allowed = ac_allow_once (rs_approvals (cl_policy cl)) \<and> kind \<in> set (ac_kinds (rs_approvals (cl_policy cl)));
                     desired = (if allowed then ''allow_once'' else ''reject_once'')
                 in case filter (\<lambda>(_, k). k = desired) parsed of
                   [(i, _)] \<Rightarrow> permission_selected i
                 | _ \<Rightarrow> permission_cancelled)))
     | _ \<Rightarrow> permission_cancelled)"

section \<open>Requests\<close>

datatype reply = No_Reply | Result json | Failure acp_error | Method_Not_Found

definition terminal_methods :: "string list" where
  "terminal_methods = [''terminal/output'', ''terminal/wait_for_exit'', ''terminal/release'', ''terminal/kill'']"

definition request_methods :: "string list" where
  "request_methods = [''session/request_permission'', ''fs/read_text_file'', ''fs/write_text_file'', ''terminal/create''] @ terminal_methods"

text \<open>
  \<open>_dispatch\<close>: None is a wait that is not over.  Parameters that are no object have no members to get, and an id
  that is no key makes the lookup of a terminal fail.
\<close>

definition dispatch_request ::
  "(spawn \<Rightarrow> bool) \<Rightarrow> (bool \<Rightarrow> string \<Rightarrow> string) \<Rightarrow> json option \<Rightarrow> string \<Rightarrow> json \<Rightarrow> client \<Rightarrow> (answer option \<times> client) option" where
  "dispatch_request spawns decode rid rpc params cl =
    (if (case cl_capture cl of None \<Rightarrow> False | Some cap \<Rightarrow> request_refused cap rpc) then Some (Some (Inl Review_Blocked), cl)
     else if rpc = ''session/update'' then Some (Some (Inr None), cl)
     else if rpc \<in> set request_methods \<and> \<not> is_obj (Some params) then Some (Some (Inl Type_Failure), cl)
     else if rpc \<in> set terminal_methods \<and> unhashable_id params then Some (Some (Inl Type_Failure), cl)
     else if rpc = ''session/request_permission'' then Some (Some (Inr (Some (handle_permission_request params cl))), cl)
     else if rpc = ''fs/read_text_file'' then Some (Some (handle_fs_read params cl), cl)
     else if rpc = ''fs/write_text_file'' then Some (map_prod Some id (handle_fs_write params cl))
     else if rpc = ''terminal/create'' then Some (map_prod Some id (handle_terminal_create spawns params cl))
     else if rpc = ''terminal/output'' then Some (Some (handle_terminal_output decode params cl), cl)
     else if rpc = ''terminal/wait_for_exit'' then Some (handle_terminal_wait rid params cl)
     else if rpc = ''terminal/release'' \<or> rpc = ''terminal/kill'' then Some (map_prod Some id (handle_terminal_release params cl))
     else None)"

text \<open>\<open>_handle_request\<close>: a request without an id is not answered; results are redacted except terminal output, which is already.\<close>

definition handle_request ::
  "(spawn \<Rightarrow> bool) \<Rightarrow> (bool \<Rightarrow> string \<Rightarrow> string) \<Rightarrow> json option \<Rightarrow> string \<Rightarrow> json \<Rightarrow> client \<Rightarrow> reply \<times> client" where
  "handle_request spawns decode rid rpc params cl =
    (case dispatch_request spawns decode rid rpc params cl of
       None \<Rightarrow> (if not_null rid = None then No_Reply else Method_Not_Found, cl)
     | Some (None, cl') \<Rightarrow> (No_Reply, cl')
     | Some (Some answer, cl') \<Rightarrow>
        (if not_null rid = None then No_Reply
         else (case answer of
             Inl e \<Rightarrow> Failure e
           | Inr None \<Rightarrow> Result (JObj [])
           | Inr (Some v) \<Rightarrow> Result (if rpc = ''terminal/output'' then v else redact_value (cl_credentials cl') v)), cl'))"

end
