(* ===== verification/Redaction_Proofs.thy ===== *)
theory Redaction_Proofs
  imports Redaction
begin

text \<open>
  Feeding a text in chunks redacts exactly as feeding it at once; no occurrence of a credential starts in
  what is kept; the test for a credential token is the existence of a bounded occurrence; and the redaction of
  a mapping loses no entry.
\<close>

section \<open>Occurrences\<close>

text \<open>A value at the start of a remainder, with the boundaries a short value requires.\<close>

definition fits :: "char option \<Rightarrow> string \<Rightarrow> string \<Rightarrow> bool" where
  "fits left remainder v \<longleftrightarrow> prefix v remainder \<and> (requires_token_boundaries v \<longrightarrow>
     \<not> is_token_character left \<and> \<not> is_token_character (first_char (drop (length v) remainder)))"

definition left_of :: "string \<Rightarrow> nat \<Rightarrow> char option" where
  "left_of txt i = (if i = 0 then None else Some (txt ! (i - 1)))"

definition credential_at :: "string \<Rightarrow> string \<Rightarrow> nat \<Rightarrow> bool" where
  "credential_at txt v i \<longleftrightarrow> v \<noteq> [] \<and> i \<le> length txt \<and> fits (left_of txt i) (drop i txt) v"

lemma find_from_None: "find_from txt v start = None \<longleftrightarrow> (\<forall>i. start \<le> i \<and> i \<le> length txt \<longrightarrow> \<not> prefix v (drop i txt))"
  unfolding find_from_def by (auto simp: find_None_iff simp del: upt_Suc)

lemma find_from_Some:
  assumes "find_from s v start = Some i"
  shows "start \<le> i" "i \<le> length s" "prefix v (drop i s)" "\<forall>j. start \<le> j \<and> j < i \<longrightarrow> \<not> prefix v (drop j s)"
proof -
  from assms obtain k where k: "k < length [start..<Suc (length s)]" "i = [start..<Suc (length s)] ! k"
    "\<forall>j<k. \<not> prefix v (drop ([start..<Suc (length s)] ! j) s)" "prefix v (drop i s)"
    unfolding find_from_def find_Some_iff by blast
  have len: "k < Suc (length s) - start" using k(1) by (simp del: upt_Suc)
  have i: "i = start + k" using k(2) len by (simp del: upt_Suc)
  show "start \<le> i" "i \<le> length s" "prefix v (drop i s)" using k(4) i len by auto
  show "\<forall>j. start \<le> j \<and> j < i \<longrightarrow> \<not> prefix v (drop j s)"
  proof (intro allI impI)
    fix j assume j: "start \<le> j \<and> j < i"
    then have "j - start < k" using i by auto
    moreover have "[start..<Suc (length s)] ! (j - start) = start + (j - start)" by (rule nth_upt) (use j len i in linarith)
    then have "[start..<Suc (length s)] ! (j - start) = j" using j by simp
    ultimately show "\<not> prefix v (drop j s)" using k(3) by metis
  qed
qed

lemma token_loop_iff:
  assumes "v \<noteq> []" "requires_token_boundaries v"
  shows "token_loop s v start \<longleftrightarrow> (\<exists>i \<ge> start. credential_at s v i)"
  using assms
proof (induction s v start rule: token_loop.induct)
  case (1 s v start)
  show ?case
  proof (cases "find_from s v start")
    case None
    then have "\<not> (\<exists>i \<ge> start. credential_at s v i)" by (auto simp: find_from_None credential_at_def fits_def)
    then show ?thesis using None by (simp add: token_loop.simps[of s v start])
  next
    case (Some i)
    note i = find_from_Some[OF Some]
    have here: "credential_at s v i \<longleftrightarrow> \<not> is_token_character (if i = 0 then None else Some (s ! (i - 1)))
         \<and> \<not> is_token_character (first_char (drop (i + length v) s))"
      using i(2,3) 1(2,3) by (auto simp: credential_at_def fits_def left_of_def add.commute)
    show ?thesis
    proof (cases "credential_at s v i")
      case True
      then have "token_loop s v start" using Some here by (subst token_loop.simps) simp
      then show ?thesis using True i(1) by blast
    next
      case False
      then have "token_loop s v start = token_loop s v (i + 1)" using Some here by (subst token_loop.simps) auto
      also have "\<dots> \<longleftrightarrow> (\<exists>j \<ge> i + 1. credential_at s v j)"
        using 1(1)[OF Some refl refl] False here 1(2,3) by blast
      also have "\<dots> \<longleftrightarrow> (\<exists>j \<ge> start. credential_at s v j)"
      proof
        assume "\<exists>j \<ge> start. credential_at s v j"
        then obtain j where j: "start \<le> j" "credential_at s v j" by blast
        then have "\<not> j < i" using i(4) by (auto simp: credential_at_def fits_def)
        moreover have "j \<noteq> i" using j(2) False by blast
        ultimately have "i + 1 \<le> j" by simp
        then show "\<exists>j \<ge> i + 1. credential_at s v j" using j(2) by blast
      qed (use i(1) in \<open>meson add_leD1 order_trans\<close>)
      finally show ?thesis .
    qed
  qed
qed

lemma contains_iff: "contains_credential_token s v \<longleftrightarrow> (\<exists>i. credential_at s v i)"
  by (auto simp: contains_credential_token_def token_loop_iff find_from_None credential_at_def fits_def)

section \<open>Verdicts\<close>

text \<open>A short value that ends exactly with the chunk leaves no pattern that could match instead.\<close>

lemma bounded_prefix: "prefix u v \<Longrightarrow> requires_token_boundaries v \<Longrightarrow> requires_token_boundaries u"
  by (auto simp: requires_token_boundaries_def prefix_def)

lemma bounded_next: "prefix u v \<Longrightarrow> length u < length v \<Longrightarrow> requires_token_boundaries v \<Longrightarrow> is_token_character (first_char (drop (length u) v))"
  by (auto simp: requires_token_boundaries_def prefix_def first_char_def split: list.split)

lemma full_short_value:
  "requires_token_boundaries remainder \<Longrightarrow> judge_patterns False left remainder ps u \<noteq> Match secret name"
proof (induction ps arbitrary: u)
  case (Cons p ps)
  obtain v n where p: "p = (v, n)" by (cases p)
  have "requires_token_boundaries v \<and> (length v = length remainder \<or> is_token_character (first_char (drop (length v) remainder)))" if "prefix v remainder"
    using that Cons.prems bounded_prefix bounded_next[of v remainder] prefix_length_le[OF that] by (cases "length v = length remainder") auto
  then show ?case using Cons by (auto simp: p Let_def)
qed simp

lemma unresolved_stays: "judge_patterns False left remainder ps True \<noteq> No_Match"
proof (induction ps)
  case (Cons p ps)
  then show ?case by (cases p) (simp add: Let_def)
qed simp

lemma judge_more:
  "\<not> awaiting ps left remainder \<Longrightarrow> judge_patterns False left remainder ps u \<noteq> Unresolved \<Longrightarrow>
   judge_patterns f left (remainder @ later) ps u = judge_patterns False left remainder ps u"
proof (induction ps arbitrary: u)
  case (Cons p ps)
  obtain v n where p: "p = (v, n)" by (cases p)
  let ?b = "requires_token_boundaries v"
  show ?case
  proof (cases "?b \<and> is_token_character left \<or> \<not> prefix v remainder")
    case True
    have "?b \<and> is_token_character left \<or> \<not> prefix v (remainder @ later)"
    proof (rule ccontr)
      assume not: "\<not> ?thesis"
      then have "prefix v (remainder @ later)" "\<not> prefix v remainder" using True by auto
      then have "prefix remainder v" "length remainder < length v"
        by (auto simp: prefix_append dest: prefix_length_le)
      then show False using Cons.prems(1) not by (auto simp: awaiting_def p)
    qed
    then show ?thesis using True Cons by (auto simp: p awaiting_def)
  next
    case False
    then have pre: "prefix v remainder" "prefix v (remainder @ later)" by auto
    show ?thesis
    proof (cases "length v = length remainder \<and> ?b")
      case True
      then have "v = remainder" using pre(1) by (auto simp: prefix_def)
      then have "judge_patterns False left remainder ps True = Unresolved"
        using full_short_value[of remainder left ps True] unresolved_stays[of left remainder ps] True
        by (cases "judge_patterns False left remainder ps True") auto
      then show ?thesis using Cons.prems(2) True False by (simp add: p)
    next
      case no: False
      have short: "?b \<Longrightarrow> length v < length remainder" using no pre(1) prefix_length_le[OF pre(1)] by auto
      have step: "judge_patterns g left r (p # ps) u = (if \<not> ?b \<or> \<not> is_token_character (first_char (drop (length v) remainder))
          then Match v n else judge_patterns g left r ps u)"
        if "r = remainder \<or> r = remainder @ later" for g r
      proof -
        have side: "\<not> (?b \<and> is_token_character left \<or> \<not> prefix v r)" using False pre that by auto
        show ?thesis
        proof (cases ?b)
          case True
          obtain zs where zs: "remainder = v @ zs" using pre(1) by (auto simp: prefix_def)
          then obtain z zs' where z: "zs = z # zs'" using short[OF True] by (cases zs) auto
          have "first_char (drop (length v) r) = first_char (drop (length v) remainder)" "length v \<noteq> length r"
            using that by (elim disjE; simp add: zs z first_char_def)+
          moreover have "\<not> is_token_character left" "prefix v r" using side True by auto
          ultimately show ?thesis by (simp only: p judge_patterns.simps Let_def if_False True simp_thms)
        next
          case no: False
          have "prefix v r" using side by auto
          then show ?thesis by (simp only: p judge_patterns.simps Let_def if_False if_True no simp_thms)
        qed
      qed
      show ?thesis
      proof (cases "\<not> ?b \<or> \<not> is_token_character (first_char (drop (length v) remainder))")
        case True
        then show ?thesis using step[of remainder False] step[of "remainder @ later" f] by (simp only: if_True simp_thms)
      next
        case no: False
        have rec: "judge_patterns False left remainder (p # ps) u = judge_patterns False left remainder ps u"
          "judge_patterns f left (remainder @ later) (p # ps) u = judge_patterns f left (remainder @ later) ps u"
          using step[of remainder False] step[of "remainder @ later" f] no by (simp_all only: if_False simp_thms)
        show ?thesis using Cons.IH[of u] Cons.prems unfolding rec by (simp add: awaiting_def)
      qed
    qed
  qed
qed simp

lemma awaiting_more:
  assumes "awaiting ps left (remainder @ later)"
  shows "awaiting ps left remainder"
proof -
  obtain v n where "(v, n) \<in> set ps" "\<not> is_token_character left \<or> \<not> requires_token_boundaries v"
    "length (remainder @ later) < length v" "prefix (remainder @ later) v"
    using assms by (auto simp: awaiting_def list_ex_iff)
  then show ?thesis by (auto simp: awaiting_def list_ex_iff intro!: bexI[of _ "(v, n)"] dest: append_prefixD)
qed

lemma judge_final:
  "judge_patterns True left remainder ps False = Match v n \<Longrightarrow> (v, n) \<in> set ps \<and> fits left remainder v"
  "judge_patterns True left remainder ps False = No_Match \<Longrightarrow> (v, n) \<in> set ps \<Longrightarrow> \<not> fits left remainder v"
  "judge_patterns True left remainder ps False \<noteq> Unresolved"
  by (induction ps) (auto simp: Let_def fits_def split: if_splits)

lemma judge_prefix: "judge_patterns f left remainder ps u = Match v n \<Longrightarrow> prefix v remainder"
  by (induction ps arbitrary: u) (auto simp: Let_def split: if_splits)

section \<open>Chunks\<close>

lemma redact_loop_more:
  "redact_loop ps False left remainder = (out, rest, l) \<Longrightarrow>
   redact_loop ps f left (remainder @ later) = (let (out', rest', l') = redact_loop ps f l (rest @ later) in (out @ out', rest', l'))"
proof (induction ps False left remainder arbitrary: out rest l rule: redact_loop.induct)
  case (1 ps left)
  then show ?case by (simp split: prod.split)
next
  case (2 ps left c cs)
  show ?case
  proof (cases "awaiting ps left (c # cs) \<or> judge_patterns False left (c # cs) ps False = Unresolved")
    case True
    then have "out = [] \<and> rest = c # cs \<and> l = left" using 2(3) by (cases "awaiting ps left (c # cs)") simp_all
    then show ?thesis by (simp split: prod.split)
  next
    case False
    have now: "\<not> (\<not> f \<and> awaiting ps left (c # cs @ later))"
      using False awaiting_more[of ps left "c # cs" later] by auto
    have same: "judge_patterns f left (c # cs @ later) ps False = judge_patterns False left (c # cs) ps False"
      using judge_more[of ps left "c # cs" False f later] False by auto
    show ?thesis
    proof (cases "judge_patterns False left (c # cs) ps False")
      case (Match v n)
      have "length v - 1 \<le> length cs" using judge_prefix[OF Match] prefix_length_le[of v "c # cs"] by simp
      then have drop: "drop (length v - 1) (cs @ later) = drop (length v - 1) cs @ later" by simp
      obtain out2 where out: "out = Redacted v n # out2" "redact_loop ps False (Some (last v)) (drop (length v - 1) cs) = (out2, rest, l)"
        using 2(3) False Match by (auto split: prod.splits)
      show ?thesis using 2(1)[OF _ Match out(2)] False now same Match drop out(1) by (auto split: prod.splits)
    next
      case No_Match
      obtain out2 where out: "out = Kept c # out2" "redact_loop ps False (Some c) cs = (out2, rest, l)"
        using 2(3) False No_Match by (auto split: prod.splits)
      show ?thesis using 2(2)[OF _ No_Match out(2)] False now same No_Match out(1) by (auto split: prod.splits)
    qed (use False in simp)
  qed
qed

text \<open>At the end of the text nothing stays pending.\<close>

definition sources_nonempty :: "patterns \<Rightarrow> bool" where
  "sources_nonempty ps \<longleftrightarrow> (\<forall>(v, _) \<in> set ps. v \<noteq> [])"

lemma patterns_of_mem: "(v, n) \<in> set (patterns_of credentials) \<longleftrightarrow> (n, v) \<in> set credentials \<and> v \<noteq> []"
  by (auto simp: patterns_of_def)

lemma redact_loop_finishes: "fst (snd (redact_loop ps True left remainder)) = []"
proof (induction ps True left remainder rule: redact_loop.induct)
  case (2 ps left c cs)
  then show ?case using judge_final(3)[of left "c # cs" ps]
    by (auto split: verdict.split prod.split)
qed simp

lemma redact_loop_rest: "redact_loop ps True left remainder = (out, rest, l) \<Longrightarrow> rest = []"
  using redact_loop_finishes[of ps left remainder] by simp

definition pieces :: "patterns \<Rightarrow> char option \<Rightarrow> string \<Rightarrow> piece list" where
  "pieces ps left remainder = fst (redact_loop ps True left remainder)"

lemma text_of_append [simp]: "text_of (a @ b) = text_of a @ text_of b"
  by (simp add: text_of_def)

lemma feed_all_pieces:
  "\<not> rd_finished rd \<Longrightarrow> feed_all chunks rd = Inr (text_of (pieces (rd_patterns rd) (rd_left rd) (rd_pending rd @ concat chunks)))"
proof (induction chunks arbitrary: rd)
  case Nil
  then show ?case by (auto simp: finish_redactor_def feed_def pieces_def dest: redact_loop_rest split: prod.split)
next
  case (Cons chunk chunks)
  obtain out rest l where run: "redact_loop (rd_patterns rd) False (rd_left rd) (rd_pending rd @ chunk) = (out, rest, l)"
    by (metis prod_cases3)
  let ?rd = "rd\<lparr>rd_pending := rest, rd_left := l, rd_finished := False\<rparr>"
  have "pieces (rd_patterns rd) (rd_left rd) (rd_pending rd @ concat (chunk # chunks)) = out @ pieces (rd_patterns rd) l (rest @ concat chunks)"
    using redact_loop_more[OF run, of True "concat chunks"] by (simp add: pieces_def split: prod.splits)
  moreover have "feed chunk False rd = Inr (text_of out, ?rd)" using Cons.prems run by (simp add: feed_def)
  ultimately show ?case using Cons.IH[of ?rd] by simp
qed

lemma redact_pieces: "redact_credential_values s credentials = Inr (text_of (pieces (patterns_of credentials) None s))"
  by (auto simp: redact_credential_values_def feed_def new_redactor_def pieces_def dest: redact_loop_rest split: prod.split)

text \<open>C31. Chunks do not matter.  However a text is cut into chunks, feeding them to a fresh redactor and finishing
  gives exactly what redacting the whole text at once gives, and no error: a credential that spans two or
  more chunks is found, and a short value is judged by its neighbours on the other side of a cut.\<close>

theorem chunks_redact_alike:
  "feed_all chunks (new_redactor credentials) = redact_credential_values (concat chunks) credentials"
  using feed_all_pieces[of "new_redactor credentials" chunks] by (simp add: redact_pieces) (simp add: new_redactor_def)

section \<open>Nothing is kept that starts a credential\<close>

definition left_after :: "char option \<Rightarrow> string \<Rightarrow> char option" where
  "left_after left s = (if s = [] then left else Some (last s))"

definition placed :: "patterns \<Rightarrow> char option \<Rightarrow> string \<Rightarrow> piece list \<Rightarrow> bool" where
  "placed ps left s out \<longleftrightarrow> (\<forall>pre x post. out = pre @ x # post \<longrightarrow>
     (let l = left_after left (source_of pre); r = drop (length (source_of pre)) s in
      case x of Kept _ \<Rightarrow> \<forall>(v, _) \<in> set ps. \<not> fits l r v | Redacted v n \<Rightarrow> (v, n) \<in> set ps \<and> fits l r v))"

lemma source_of_simps [simp]: "source_of [] = []" "source_of (x # out) = piece_source x @ source_of out" "source_of (a @ b) = source_of a @ source_of b"
  by (simp_all add: source_of_def)

lemma placed_Nil [simp]: "placed ps left s []"
  by (simp add: placed_def)

lemma placed_Cons:
  assumes "case x of Kept _ \<Rightarrow> \<forall>(v, _) \<in> set ps. \<not> fits left s v | Redacted v n \<Rightarrow> (v, n) \<in> set ps \<and> fits left s v"
    and "placed ps (left_after left (piece_source x)) (drop (length (piece_source x)) s) out"
  shows "placed ps left s (x # out)"
  unfolding placed_def
proof (intro allI impI)
  fix pre y post assume eq: "x # out = pre @ y # post"
  show "let l = left_after left (source_of pre); r = drop (length (source_of pre)) s in
      case y of Kept _ \<Rightarrow> \<forall>(v, _) \<in> set ps. \<not> fits l r v | Redacted v n \<Rightarrow> (v, n) \<in> set ps \<and> fits l r v"
  proof (cases pre)
    case Nil
    then show ?thesis using eq assms(1) by (simp add: left_after_def)
  next
    case (Cons p pre')
    then have *: "p = x" "out = pre' @ y # post" using eq by auto
    have l: "left_after (left_after left (piece_source x)) (source_of pre') = left_after left (source_of pre)"
      using Cons * by (simp add: left_after_def)
    have r: "drop (length (source_of pre')) (drop (length (piece_source x)) s) = drop (length (source_of pre)) s"
      using Cons * by (simp add: add.commute)
    show ?thesis using assms(2)[unfolded placed_def, rule_format, OF *(2)] unfolding l r .
  qed
qed

lemma pieces_placed:
  "sources_nonempty ps \<Longrightarrow> source_of (pieces ps left s) = s \<and> placed ps left s (pieces ps left s)"
proof (induction ps True left s rule: redact_loop.induct)
  case (1 ps left)
  then show ?case by (simp add: pieces_def)
next
  case (2 ps left c cs)
  show ?case
  proof (cases "judge_patterns True left (c # cs) ps False")
    case (Match v n)
    note found = judge_final(1)[OF Match]
    then have v: "v \<noteq> []" "prefix v (c # cs)" using 2(3) by (auto simp: sources_nonempty_def fits_def)
    then have drop: "drop (length v - 1) cs = drop (length v) (c # cs)" "v @ drop (length v) (c # cs) = c # cs"
      by (cases v; auto simp: prefix_def)+
    have eq: "pieces ps left (c # cs) = Redacted v n # pieces ps (Some (last v)) (drop (length v) (c # cs))"
      using Match drop(1) by (simp add: pieces_def split: prod.split)
    have IH: "source_of (pieces ps (Some (last v)) (drop (length v) (c # cs))) = drop (length v) (c # cs)"
      "placed ps (Some (last v)) (drop (length v) (c # cs)) (pieces ps (Some (last v)) (drop (length v) (c # cs)))"
      using 2(1)[OF _ Match 2(3)] drop(1) by auto
    show ?thesis unfolding eq
      using IH drop(2) found v(1) by (auto intro!: placed_Cons simp: left_after_def)
  next
    case No_Match
    have eq: "pieces ps left (c # cs) = Kept c # pieces ps (Some c) cs"
      using No_Match by (simp add: pieces_def split: prod.split)
    have "\<forall>(v, _) \<in> set ps. \<not> fits left (c # cs) v" using judge_final(2)[OF No_Match] by auto
    moreover have "source_of (pieces ps (Some c) cs) = cs" "placed ps (Some c) cs (pieces ps (Some c) cs)"
      using 2(2)[OF _ No_Match 2(3)] by auto
    ultimately show ?thesis unfolding eq by (auto intro!: placed_Cons simp: left_after_def)
  qed (use judge_final(3) in auto)
qed

lemma left_of_source: "s = before @ r \<Longrightarrow> left_of s (length before) = left_after None before"
  by (cases before rule: rev_cases) (auto simp: left_of_def left_after_def nth_append)

lemma credential_here:
  assumes "pieces (patterns_of credentials) None s = pre @ x # post" "(n, v) \<in> set credentials"
    "credential_at s v (length (source_of pre))"
  shows "\<exists>v n. x = Redacted v n"
proof (rule ccontr)
  assume "\<not> ?thesis"
  then obtain c where x: "x = Kept c" by (cases x) auto
  have ne: "sources_nonempty (patterns_of credentials)" by (auto simp: sources_nonempty_def patterns_of_mem)
  note placed = pieces_placed[OF ne, of None s]
  have s: "s = source_of pre @ piece_source x @ source_of post" using placed assms(1) by simp
  have "\<not> fits (left_after None (source_of pre)) (drop (length (source_of pre)) s) v"
    using placed assms(1,2,3) unfolding placed_def by (force simp: x credential_at_def patterns_of_mem Let_def)
  then show False using assms(3) left_of_source[OF s] by (simp add: credential_at_def)
qed

lemma redacted_here:
  assumes "pieces (patterns_of credentials) None s = pre @ Redacted v n # post"
  shows "(n, v) \<in> set credentials" "credential_at s v (length (source_of pre))"
proof -
  have ne: "sources_nonempty (patterns_of credentials)" by (auto simp: sources_nonempty_def patterns_of_mem)
  note placed = pieces_placed[OF ne, of None s]
  have s: "s = source_of pre @ v @ source_of post" using placed assms by simp
  have *: "(v, n) \<in> set (patterns_of credentials) \<and> fits (left_after None (source_of pre)) (drop (length (source_of pre)) s) v"
    using placed assms unfolding placed_def by (force simp: Let_def)
  then show "(n, v) \<in> set credentials" by (simp add: patterns_of_mem)
  have "length (source_of pre) \<le> length s" using s by (metis le_add1 length_append)
  then show "credential_at s v (length (source_of pre))"
    using * left_of_source[OF s] by (simp add: credential_at_def patterns_of_mem)
qed

text \<open>A position of the source is the start of a piece or lies inside a redacted one.\<close>

lemma position_in_pieces:
  "i < length (source_of out) \<Longrightarrow> \<exists>pre x post. out = pre @ x # post \<and> length (source_of pre) \<le> i
     \<and> i < length (source_of pre) + length (piece_source x)"
proof (induction out arbitrary: i)
  case (Cons x out)
  show ?case
  proof (cases "i < length (piece_source x)")
    case True
    then show ?thesis by (intro exI[of _ "[]"]) auto
  next
    case False
    then have "i - length (piece_source x) < length (source_of out)" using Cons.prems by simp
    from Cons.IH[OF this] obtain pre y post where "out = pre @ y # post" "length (source_of pre) \<le> i - length (piece_source x)"
      "i - length (piece_source x) < length (source_of pre) + length (piece_source y)" by blast
    then show ?thesis using False by (intro exI[of _ "x # pre"] exI[of _ y] exI[of _ post]) auto
  qed
qed simp

lemma credential_covered:
  assumes "(n, v) \<in> set credentials" "credential_at s v i"
  obtains pre u m post where "pieces (patterns_of credentials) None s = pre @ Redacted u m # post"
    "length (source_of pre) \<le> i" "i < length (source_of pre) + length u"
proof -
  have ne: "sources_nonempty (patterns_of credentials)" by (auto simp: sources_nonempty_def patterns_of_mem)
  have "drop i s \<noteq> []" using assms(2) by (auto simp: credential_at_def fits_def prefix_def)
  then have "i < length s" by simp
  then obtain pre x post where at: "pieces (patterns_of credentials) None s = pre @ x # post" "length (source_of pre) \<le> i"
    "i < length (source_of pre) + length (piece_source x)"
    using position_in_pieces[of i "pieces (patterns_of credentials) None s"] pieces_placed[OF ne, of None s] by auto
  show thesis
  proof (cases x)
    case (Redacted u m)
    then show ?thesis using at that by simp
  next
    case (Kept c)
    then have "i = length (source_of pre)" using at(2,3) by simp
    then show ?thesis using credential_here[OF at(1) assms(1)] assms(2) Kept by blast
  qed
qed

text \<open>C32. What redaction does.  The redacted text is the text cut into pieces, some kept character by character and
  some replaced by the name of a credential.  Every replaced piece is an occurrence of that credential, every
  occurrence of a credential starts inside a replaced piece, and the text is changed exactly when it contains a
  credential token; an occurrence of a short value counts only between characters that are no token
  characters.\<close>

theorem redaction_covers_credentials:
  "\<exists>ps. redact_credential_values s credentials = Inr (text_of ps) \<and> source_of ps = s
     \<and> (\<forall>pre v n post. ps = pre @ Redacted v n # post \<longrightarrow> (n, v) \<in> set credentials \<and> credential_at s v (length (source_of pre)))
     \<and> (\<forall>(n, v) \<in> set credentials. \<forall>i. credential_at s v i \<longrightarrow>
          (\<exists>pre u m post. ps = pre @ Redacted u m # post \<and> length (source_of pre) \<le> i \<and> i < length (source_of pre) + length u))
     \<and> ((\<forall>p \<in> set ps. \<exists>c. p = Kept c) \<longleftrightarrow> \<not> (\<exists>(n, v) \<in> set credentials. contains_credential_token s v))"
proof (intro exI[of _ "pieces (patterns_of credentials) None s"] conjI)
  let ?ps = "pieces (patterns_of credentials) None s"
  have ne: "sources_nonempty (patterns_of credentials)" by (auto simp: sources_nonempty_def patterns_of_mem)
  show "redact_credential_values s credentials = Inr (text_of ?ps)" by (rule redact_pieces)
  show "source_of ?ps = s" using pieces_placed[OF ne] by blast
  show "\<forall>pre v n post. ?ps = pre @ Redacted v n # post \<longrightarrow> (n, v) \<in> set credentials \<and> credential_at s v (length (source_of pre))"
    by (intro allI impI conjI) (erule redacted_here)+
  show "\<forall>(n, v) \<in> set credentials. \<forall>i. credential_at s v i \<longrightarrow>
      (\<exists>pre u m post. ?ps = pre @ Redacted u m # post \<and> length (source_of pre) \<le> i \<and> i < length (source_of pre) + length u)"
  proof (clarify)
    fix n v i assume "(n, v) \<in> set credentials" "credential_at s v i"
    then show "\<exists>pre u m post. ?ps = pre @ Redacted u m # post \<and> length (source_of pre) \<le> i \<and> i < length (source_of pre) + length u"
      by (rule credential_covered) blast
  qed
  show "(\<forall>p \<in> set ?ps. \<exists>c. p = Kept c) \<longleftrightarrow> \<not> (\<exists>(n, v) \<in> set credentials. contains_credential_token s v)"
  proof
    assume kept: "\<forall>p \<in> set ?ps. \<exists>c. p = Kept c"
    show "\<not> (\<exists>(n, v) \<in> set credentials. contains_credential_token s v)"
    proof
      assume "\<exists>(n, v) \<in> set credentials. contains_credential_token s v"
      then obtain n v i where "(n, v) \<in> set credentials" "credential_at s v i" by (auto simp: contains_iff)
      then obtain pre u m post where "?ps = pre @ Redacted u m # post" by (rule credential_covered)
      then have "Redacted u m \<in> set ?ps" by simp
      then show False using kept by auto
    qed
  next
    assume none: "\<not> (\<exists>(n, v) \<in> set credentials. contains_credential_token s v)"
    show "\<forall>p \<in> set ?ps. \<exists>c. p = Kept c"
    proof
      fix p assume "p \<in> set ?ps"
      then obtain pre post where ps: "?ps = pre @ p # post" by (meson split_list)
      show "\<exists>c. p = Kept c"
      proof (cases p)
        case (Redacted v n)
        then have ps': "?ps = pre @ Redacted v n # post" using ps by simp
        have "(n, v) \<in> set credentials" by (rule redacted_here(1)[OF ps'])
        moreover have "contains_credential_token s v" unfolding contains_iff using redacted_here(2)[OF ps'] by (rule exI)
        ultimately show ?thesis using none by auto
      qed simp
    qed
  qed
qed

theorem redaction_covers_credentials_witness:
  "\<exists>ps. redact_credential_values ''key sk-12345678 ab'' [(''OPENAI_API_KEY'', ''sk-12345678''), (''GLM_API_KEY'', ''ab'')] = Inr (text_of ps)
     \<and> source_of ps = ''key sk-12345678 ab'' \<and> (\<exists>p \<in> set ps. \<forall>c. p \<noteq> Kept c)"
proof -
  let ?s = "''key sk-12345678 ab''" and ?c = "[(''OPENAI_API_KEY'', ''sk-12345678''), (''GLM_API_KEY'', ''ab'')]"
  have "contains_credential_token ?s ''sk-12345678''" by code_simp
  then have "\<exists>(n, v) \<in> set ?c. contains_credential_token ?s v" by auto
  then show ?thesis using redaction_covers_credentials[of ?s ?c] by blast
qed

section \<open>The keys of a mapping\<close>

text \<open>The entries worked off so far: what is allocated is new and distinct, and what needed a new key has one.\<close>

definition alloc_ok :: "string list \<Rightarrow> (string \<times> string) list \<Rightarrow> key_state \<Rightarrow> bool" where
  "alloc_ok candidates seen st \<longleftrightarrow> (case st of (allocated, reserved, _) \<Rightarrow>
     dom (map_of allocated) \<subseteq> fst ` set seen \<and> set candidates \<subseteq> set reserved
     \<and> (\<forall>k v. map_of allocated k = Some v \<longrightarrow> v \<in> set reserved \<and> v \<notin> set candidates)
     \<and> (\<forall>k k' v. map_of allocated k = Some v \<longrightarrow> map_of allocated k' = Some v \<longrightarrow> k = k')
     \<and> (\<forall>(k, c) \<in> set seen. k \<noteq> c \<and> count_list candidates c \<noteq> 1 \<longrightarrow> k \<in> dom (map_of allocated)))"

lemma free_suffix_free: "suffixed c (free_suffix c reserved n) \<notin> set reserved"
  by (induction c reserved n rule: free_suffix.induct) (subst free_suffix.simps, simp)

lemma allocate_ok:
  assumes "alloc_ok candidates seen st" "fst kc \<notin> fst ` set seen" "snd kc \<in> set candidates"
  shows "alloc_ok candidates (seen @ [kc]) (allocate candidates kc st)"
proof -
  obtain k c where kc: "kc = (k, c)" by (cases kc)
  obtain al reserved nx where st: "st = (al, reserved, nx)" by (cases st)
  show ?thesis
  proof (cases "k = c \<or> count_list candidates c = 1")
    case True
    then show ?thesis using assms(1) by (auto simp: alloc_ok_def allocate_def kc st)
  next
    case False
    define v where "v = suffixed c (free_suffix c reserved (dict_get nx 1 c))"
    have v: "v \<notin> set reserved" unfolding v_def by (rule free_suffix_free)
    have new: "k \<notin> dom (map_of al)" using assms(1,2) by (auto simp: alloc_ok_def kc st)
    have eq: "allocate candidates kc st = (dict_put k v al, v # reserved, dict_put c (free_suffix c reserved (dict_get nx 1 c) + 1) nx)"
      using False by (simp add: allocate_def kc st v_def Let_def)
    show ?thesis using assms(1) v new unfolding eq alloc_ok_def
      by (auto simp: kc st update_conv split: if_splits) blast+
  qed
qed

lemma allocate_all_ok:
  "alloc_ok candidates seen st \<Longrightarrow> distinct (map fst (seen @ kcs)) \<Longrightarrow> snd ` set kcs \<subseteq> set candidates \<Longrightarrow>
   alloc_ok candidates (seen @ kcs) (fold (allocate candidates) kcs st)"
proof (induction kcs arbitrary: seen st)
  case (Cons kc kcs)
  have "alloc_ok candidates (seen @ [kc]) (allocate candidates kc st)"
    by (rule allocate_ok) (use Cons.prems in auto)
  then show ?case using Cons.IH[of "seen @ [kc]"] Cons.prems by simp
qed simp

lemma count_two:
  assumes "x \<in> set xs" "y \<in> set xs" "x \<noteq> y" "f x = f y" "distinct xs"
  shows "count_list (map f xs) (f x) \<noteq> 1"
proof -
  have "{x, y} \<subseteq> {z \<in> set xs. f z = f x}" using assms by auto
  then have "2 \<le> card {z \<in> set xs. f z = f x}" using card_mono[of "{z \<in> set xs. f z = f x}" "{x, y}"] assms(3) by simp
  also have "card {z \<in> set xs. f z = f x} = count_list (map f xs) (f x)"
    using assms(5) by (simp add: count_list_eq_length_filter filter_map comp_def distinct_length_filter Int_def conj_commute eq_commute)
  finally show ?thesis by simp
qed

lemma renamed_distinct:
  assumes "distinct (map fst kcs)"
  shows "distinct (map (renamed kcs) kcs)"
proof -
  let ?cs = "map snd kcs" and ?sorted = "sort_key (\<lambda>(key, candidate). (candidate, key)) kcs"
  have same: "set ?sorted = set kcs" "distinct (map fst ?sorted)"
    using assms by (simp_all add: distinct_map)
  have ok: "alloc_ok ?cs ?sorted (fold (allocate ?cs) ?sorted ([], ?cs, []))"
    using allocate_all_ok[of ?cs "[]" "([], ?cs, [])" ?sorted] same by (auto simp: alloc_ok_def)
  obtain al reserved nx where st: "fold (allocate ?cs) ?sorted ([], ?cs, []) = (al, reserved, nx)" by (metis prod_cases3)
  have al: "allocated_keys kcs = al" by (simp add: allocated_keys_def Let_def st)
  note facts = ok[unfolded st alloc_ok_def prod.case same(1)]
  have "inj_on (renamed kcs) (set kcs)"
  proof (rule inj_onI, rule ccontr)
    fix x y assume xy: "x \<in> set kcs" "y \<in> set kcs" "renamed kcs x = renamed kcs y" "x \<noteq> y"
    obtain k c where x: "x = (k, c)" by (cases x)
    obtain k' c' where y: "y = (k', c')" by (cases y)
    have keys: "k \<noteq> k'" using assms xy x y by (metis distinct_map_inj fst_conv)
    have eq: "dict_get al c k = dict_get al c' k'" using xy(3) by (simp add: renamed_def al x y)
    have cands: "c \<in> set ?cs" "c' \<in> set ?cs" using xy(1,2) x y by force+
    show False
    proof (cases "map_of al k"; cases "map_of al k'")
      fix v v' assume "map_of al k = Some v" "map_of al k' = Some v'"
      then show False using facts keys eq by (auto simp: dict_get_def)
    next
      fix v assume "map_of al k = Some v" "map_of al k' = None"
      then show False using facts eq cands by (auto simp: dict_get_def)
    next
      fix v assume "map_of al k = None" "map_of al k' = Some v"
      then show False using facts eq cands by (auto simp: dict_get_def)
    next
      assume none: "map_of al k = None" "map_of al k' = None"
      then have c: "c = c'" using eq by (simp add: dict_get_def)
      have "distinct kcs" using assms by (simp add: distinct_map)
      then have "count_list ?cs c \<noteq> 1" using count_two[of x kcs y snd] xy c x y by simp
      then have "k = c" "k' = c'" using facts xy(1,2) none c x y by (auto simp: dom_def) 
      then show False using c keys by simp
    qed
  qed
  then show ?thesis using assms by (simp add: distinct_map)
qed

text \<open>C33. Redaction loses no entry.  The redacted mapping of a mapping with distinct keys has distinct keys again, in
  sorted order, and as many entries, and its values are the redacted values: keys that redaction makes equal are
  told apart by suffixes that no other key has.\<close>

theorem redaction_keeps_entries:
  assumes "distinct (map fst kvs)"
  shows "\<exists>kvs'. redact_value inventory (JObj kvs) = JObj kvs' \<and> distinct (map fst kvs') \<and> sorted (map fst kvs')
    \<and> mset (map snd kvs') = mset (map (\<lambda>kv. redact_value inventory (snd kv)) kvs)"
proof -
  let ?known = "inventory_of inventory"
  let ?kcs = "map (\<lambda>kv. (fst kv, redact_text ?known (fst kv))) kvs"
  let ?out = "map (\<lambda>kv. (renamed ?kcs (fst kv, redact_text ?known (fst kv)), redact_sensitive_value ?known (snd kv))) kvs"
  have "distinct (map fst ?kcs)" using assms by (simp add: comp_def)
  from renamed_distinct[OF this] have d: "distinct (map fst ?out)" by (simp add: comp_def)
  then have ds: "distinct (map fst (sort_key fst ?out))" "sorted (map fst (sort_key fst ?out))"
    unfolding map_fst_sort_key by simp_all
  have "mset (map snd (sort_key fst ?out)) = mset (map snd ?out)" by (simp only: mset_map mset_sort)
  also have "map snd ?out = map (\<lambda>kv. redact_value inventory (snd kv)) kvs"
    by (simp only: redact_value_def map_map comp_def snd_conv)
  finally have "mset (map snd (sort_key fst ?out)) = mset (map (\<lambda>kv. redact_value inventory (snd kv)) kvs)" .
  moreover have "redact_value inventory (JObj kvs) = JObj (sort_key fst ?out)"
    by (simp only: redact_value_def redact_sensitive_value.simps Let_def dict_of_distinct[OF ds(1)])
  ultimately show ?thesis using ds by blast
qed

theorem redaction_keeps_entries_witness:
  "\<exists>kvs'. redact_value [(''GLM_API_KEY'', ''ab'')] (JObj [(''ab'', JInt 1), (''<redacted:GLM_API_KEY>'', JStr ''x ab'')]) = JObj kvs'
     \<and> distinct (map fst kvs') \<and> length kvs' = 2"
proof -
  let ?kvs = "[(''ab'', JInt 1), (''<redacted:GLM_API_KEY>'', JStr ''x ab'')]" and ?i = "[(''GLM_API_KEY'', ''ab'')]"
  have "distinct (map fst ?kvs)" by simp
  from redaction_keeps_entries[OF this, of ?i] obtain kvs' where out: "redact_value ?i (JObj ?kvs) = JObj kvs'" "distinct (map fst kvs')"
    "mset (map snd kvs') = mset (map (\<lambda>kv. redact_value ?i (snd kv)) ?kvs)" by blast
  have "length kvs' = length ?kvs" using mset_eq_length[OF out(3)] by (simp only: length_map)
  then show ?thesis using out(1,2) by auto
qed

section \<open>The inventory between processes\<close>

lemma inventory_of_idem: "inventory_of (inventory_of values) = inventory_of values"
proof -
  have "sorted (map fst (filter (\<lambda>(_, v). v \<noteq> []) (sort_key fst values)))" by (intro sorted_filter sorted_sort_key)
  then show ?thesis by (simp add: inventory_of_def sort_key_id_if_sorted)
qed

lemma loads_dumps:
  assumes "json_ok v"
  shows "loads (dumps v) = Some (sort_keys v)"
proof -
  have "parse_value (length (dumps v)) (encode (sort_keys v) @ []) = Some (sort_keys v, [])"
    by (rule parse_encode[OF json_ok_sort_keys[OF assms], rule_format]) (simp_all add: delim_def dumps_def)
  then show ?thesis by (simp add: loads_def dumps_def skip_ws_def)
qed

lemma sort_keys_inventory: "sort_keys (inventory_json values) = inventory_json values"
proof -
  have "sorted (map fst (inventory_of values))" unfolding inventory_of_def by (intro sorted_filter sorted_sort_key)
  then show ?thesis by (simp add: inventory_json_def comp_def sort_key_id_if_sorted)
qed

text \<open>C34. The inventory survives the channel.  The private channel between processes carries the inventory of known
  values exactly: reading back what was written gives the same names and values, whatever characters they hold.\<close>

theorem inventory_round_trip:
  assumes "distinct (map fst values)"
  shows "deserialize_inventory (serialize_inventory values) = Inr (inventory_of values)"
proof -
  have "distinct (map fst (inventory_of values))"
    using assms unfolding inventory_of_def by (intro distinct_map_filter) (simp add: map_fst_sort_key)
  then have "json_ok (inventory_json values)" by (auto simp: inventory_json_def comp_def)
  from loads_dumps[OF this] have "loads (serialize_inventory values) = Some (inventory_json values)"
    by (simp add: serialize_inventory_def sort_keys_inventory)
  then show ?thesis by (simp add: deserialize_inventory_def inventory_json_def inventory_of_idem list_all_iff comp_def)
qed

theorem inventory_round_trip_witness:
  "deserialize_inventory (serialize_inventory [(''ZAI_API_KEY'', ''a b''), (''GLM_API_KEY'', [])]) = Inr [(''ZAI_API_KEY'', ''a b'')]"
proof -
  have "distinct (map fst [(''ZAI_API_KEY'', ''a b''), (''GLM_API_KEY'', [])])" by simp
  from inventory_round_trip[OF this] show ?thesis by (simp add: inventory_of_def)
qed

end
