(* ===== verification/Capability_Proofs.thy ===== *)
theory Capability_Proofs
  imports Capability_Policy Redaction_Proofs
begin

text \<open>
  What the authority of a role admits: the unsafe profile only with its opt-in, paths only within the declared
  roots once every link is resolved, and environments only with declared names and without stray credentials.
\<close>

section \<open>Profiles\<close>

lemma profile_names: "SAFE_PROFILE \<noteq> UNSAFE_DEVELOPMENT_PROFILE" "UNSAFE_DEVELOPMENT_PROFILE \<noteq> SAFE_PROFILE"
  by (simp_all add: SAFE_PROFILE_def UNSAFE_DEVELOPMENT_PROFILE_def)

text \<open>C35. The profile of an environment.  The environment selects a profile exactly when its version is one, no
  unknown unsafe setting is present, and either the safe profile is named or nothing is and there is no opt-in, or
  the unsafe profile is named together with the opt-in; every other combination is refused.\<close>

theorem profile_selected_iff:
  "resolve_profile_from_environment sha env = Inr (v, p) \<longleftrightarrow>
     v = 1 \<and> py_int (dict_get env ''1'' CAPABILITY_VERSION_ENV) = Some 1 \<and> suspicious env = []
     \<and> (map_of env UNSAFE_DEVELOPMENT_ENV = None \<and> p = SAFE_PROFILE \<and> map_of env CAPABILITY_PROFILE_ENV \<in> {None, Some SAFE_PROFILE}
        \<or> map_of env UNSAFE_DEVELOPMENT_ENV = Some ''1'' \<and> p = UNSAFE_DEVELOPMENT_PROFILE
          \<and> map_of env CAPABILITY_PROFILE_ENV = Some UNSAFE_DEVELOPMENT_PROFILE)"
  using profile_names
  by (cases "map_of env CAPABILITY_PROFILE_ENV"; cases "map_of env UNSAFE_DEVELOPMENT_ENV"; cases "suspicious env")
    (auto simp: resolve_profile_from_environment_def Let_def dict_get_def split: option.split)

lemma profile_round_trip:
  "profile_environment sha p = Inr env \<Longrightarrow> resolve_profile_from_environment sha env = Inr (1, p)"
proof -
  assume env: "profile_environment sha p = Inr env"
  have "py_int ''1'' = Some 1" by code_simp
  moreover have "suspicious [(CAPABILITY_PROFILE_ENV, p), (CAPABILITY_VERSION_ENV, ''1'')] = []"
    "suspicious [(CAPABILITY_PROFILE_ENV, p), (CAPABILITY_VERSION_ENV, ''1''), (UNSAFE_DEVELOPMENT_ENV, ''1'')] = []" for p
    by code_simp+
  moreover have "CAPABILITY_PROFILE_ENV \<noteq> CAPABILITY_VERSION_ENV" "CAPABILITY_VERSION_ENV \<noteq> UNSAFE_DEVELOPMENT_ENV"
    "CAPABILITY_PROFILE_ENV \<noteq> UNSAFE_DEVELOPMENT_ENV" by code_simp+
  ultimately show ?thesis using env profile_names
    by (auto simp: profile_selected_iff profile_environment_def dict_get_def split: if_splits)
qed

section \<open>Support\<close>

lemma sorted_set_single [simp]: "sorted_set [x] = [x]"
  by (simp add: sorted_set_def)

lemma sorted_set_filter: "sorted_set xs = xs \<Longrightarrow> sorted_set (filter P xs) = filter P xs"
proof -
  assume "sorted_set xs = xs"
  then have "sorted xs" "distinct xs" by (metis sorted_sort sorted_set_def, metis distinct_sorted_set)
  then have "sorted (filter P xs)" "distinct (filter P xs)" by (simp_all add: sorted_filter[where f = id, simplified])
  then show ?thesis by (simp add: sorted_set_def distinct_remdups_id sort_key_id_if_sorted)
qed

text \<open>The narrowed policy is still one the models accept.\<close>

lemma narrowed_ok: "role_ok r \<Longrightarrow> role_ok (narrowed pv r)"
proof -
  assume ok: "role_ok r"
  let ?e = "ro_environment r" and ?P = "\<lambda>n. n \<in> set (pv_credentials pv)"
  have inv: "filter (\<lambda>n. n \<in> set (ec_credentials ?e)) FINITE_CREDENTIAL_NAMES = ec_credentials ?e"
    using ok by (simp add: role_ok_def environment_ok_def)
  have "filter (\<lambda>n. n \<in> set (filter ?P (ec_credentials ?e))) FINITE_CREDENTIAL_NAMES
      = filter ?P (filter (\<lambda>n. n \<in> set (ec_credentials ?e)) FINITE_CREDENTIAL_NAMES)"
    unfolding filter_filter by (rule filter_cong) auto
  then have "filter (\<lambda>n. n \<in> set (filter ?P (ec_credentials ?e))) FINITE_CREDENTIAL_NAMES = filter ?P (ec_credentials ?e)"
    unfolding inv .
  then show ?thesis using ok sorted_set_filter[of "ec_credentials ?e" ?P]
    by (cases "ec_inherit_all ?e") (simp_all add: role_ok_def environment_ok_def narrowed_def)
qed

lemma support_narrows:
  assumes "validate_provider_support sha pv role policy profile = Inr r"
  obtains roles where "named_profile policy profile = Some roles" "r = narrowed pv (roles role)"
  using assms that by (auto simp: validate_provider_support_def Let_def split: if_splits option.splits)

section \<open>Paths\<close>

text \<open>No component is \<open>..\<close> and no ancestor is a link.\<close>

definition canonical :: "fs \<Rightarrow> path \<Rightarrow> bool" where
  "canonical fs p \<longleftrightarrow> ''..'' \<notin> set p \<and> (\<forall>q. prefix q p \<longrightarrow> q \<noteq> [] \<longrightarrow> q \<notin> links fs)"

lemma canonical_Nil [simp]: "canonical fs []"
  by (simp add: canonical_def)

lemma canonical_butlast: "canonical fs p \<Longrightarrow> canonical fs (butlast p)"
  by (cases p rule: rev_cases) (auto simp: canonical_def prefix_def)

lemma canonical_snoc: "canonical fs dir \<Longrightarrow> c \<noteq> ''..'' \<Longrightarrow> dir @ [c] \<notin> links fs \<Longrightarrow> canonical fs (dir @ [c])"
  by (auto simp: canonical_def)

lemma resolve_canonical:
  "resolve_from fs missing_ok loop_ok seen dir rest = Inr p \<Longrightarrow> \<not> loop_ok \<Longrightarrow> canonical fs dir \<Longrightarrow>
   (\<And>l q. map_of seen l = Some (Some q) \<Longrightarrow> canonical fs q) \<Longrightarrow> canonical fs p"
proof (induction fs missing_ok loop_ok seen dir rest rule: resolve_from.induct)
  case (2 fs missing_ok loop_ok seen dir link rest)
  show ?case by (rule 2(1)) (use 2(2-5) in \<open>auto simp: update_conv split: if_splits\<close>)
next
  case (3 fs missing_ok loop_ok seen dir c rest)
  consider "c = [] \<or> c = ''.''" | "c = ''..''" | "c \<notin> {[], ''.'', ''..''}" by blast
  then show ?case
  proof cases
    case 1
    then show ?thesis using 3 by simp
  next
    case 2
    then show ?thesis using 3 canonical_butlast[of fs dir] by simp
  next
    case name: 3
    have no_link: "map_of fs (dir @ [c]) = None \<or> map_of fs (dir @ [c]) = Some Directory \<or> (\<exists>t. map_of fs (dir @ [c]) = Some (File t)) \<Longrightarrow>
      canonical fs (dir @ [c])"
      using name "3.prems"(3) by (intro canonical_snoc) (auto simp: links_def)
    show ?thesis
    proof (cases "map_of fs (dir @ [c])")
      case None
      then show ?thesis using 3 name no_link by (auto split: if_splits)
    next
      case (Some x)
      show ?thesis
      proof (cases x)
        case (Link absolute target)
        show ?thesis
        proof (cases "map_of seen (dir @ [c])")
          case new: None
          have "resolve_from fs missing_ok loop_ok (dict_put (dir @ [c]) None seen) (if absolute then [] else dir)
             (map Name target @ Resolved (dir @ [c]) # rest) = Inr p"
            using "3.prems"(1) name Some Link new by simp
          moreover have "canonical fs q" if "map_of (dict_put (dir @ [c]) None seen) l = Some (Some q)" for l q
            using that "3.prems"(4)[of l q] by (auto simp: update_conv split: if_splits)
          moreover have "canonical fs (if absolute then [] else dir)" using "3.prems"(3) by simp
          ultimately show ?thesis
            using "3.IH"(6)[OF _ _ Some Link new] "3.prems"(2) name by simp
        next
          case seen: (Some q)
          show ?thesis
          proof (cases q)
            case None
            then show ?thesis using "3.prems"(1,2) name Some Link seen by simp
          next
            case (Some r)
            then show ?thesis
              using "3.IH"(8)[OF _ _ \<open>map_of fs (dir @ [c]) = Some x\<close> Link seen Some] "3.prems" name Link seen \<open>map_of fs (dir @ [c]) = Some x\<close>
              by simp
          qed
        qed
      qed (use 3 name Some no_link in auto)
    qed
  qed
qed simp

text \<open>A link met while it is being resolved: the only place where resolution differs when loops are tolerated.\<close>

definition passes_loop :: "fs \<Rightarrow> path \<Rightarrow> bool" where
  "passes_loop fs p \<longleftrightarrow> resolve_from fs True False [] [] (map Name p) = Inl Link_Loop"

lemma resolve_loop_ok:
  "resolve_from fs missing_ok False seen dir rest \<noteq> Inl Link_Loop \<Longrightarrow>
   resolve_from fs missing_ok loop_ok seen dir rest = resolve_from fs missing_ok False seen dir rest"
proof (induction fs missing_ok loop_ok seen dir rest rule: resolve_from.induct)
  case (3 fs missing_ok loop_ok seen dir c rest)
  then show ?case by (auto split: option.splits fs_node.splits if_splits)
qed auto

lemma canonical_access:
  assumes "canonical_access_path fs p for_write = Inr q" "\<not> (for_write \<and> passes_loop fs p)"
  shows "canonical fs q"
proof -
  have "canonical fs q" if "resolve_from fs m False [] [] (map Name p) = Inr q" for m
    using resolve_canonical[OF that] by simp
  then show ?thesis
    using assms resolve_loop_ok[of fs True "[]" "[]" "map Name p" True]
    by (auto simp: canonical_access_path_def resolve_path_def passes_loop_def Let_def split: if_splits sum.splits)
qed

section \<open>Roots\<close>

lemma collect_roots_from:
  "collect_roots fs ds roots = Inr rs \<Longrightarrow> r \<in> set rs \<Longrightarrow>
   r \<in> set roots \<or> (\<exists>(d, raw) \<in> set ds. resolve_path fs True raw = Inr (rr_path r) \<and> rr_read r = rc_read d \<and> rr_write r = rc_write d \<and> rr_name r = rc_root d)"
proof (induction ds arbitrary: roots)
  case (Cons x ds)
  obtain d raw where x: "x = (d, raw)" by (cases x)
  obtain canonical where c: "resolve_path fs True raw = Inr canonical"
    using Cons.prems(1) x by (auto split: sum.splits)
  let ?r = "\<lparr>rr_name = rc_root d, rr_path = canonical, rr_read = rc_read d, rr_write = rc_write d\<rparr>"
  have "collect_roots fs ds (if ?r \<in> set roots then roots else roots @ [?r]) = Inr rs"
    using Cons.prems(1) x c by (simp add: Let_def)
  from Cons.IH[OF this Cons.prems(2)] show ?case using x c by (auto split: if_splits)
qed simp

lemma resolved_root_declared:
  assumes "resolve_role_capability sha fs pv role policy profile ws pr dl = Inr cap" "r \<in> set (rs_roots cap)"
  shows "\<exists>roles d loc. named_profile policy profile = Some roles \<and> d \<in> set (ro_filesystem (roles role))
    \<and> loc \<in> set (locations ws pr dl (rc_root d)) \<and> resolve_path fs True loc = Inr (rr_path r)
    \<and> rr_read r = rc_read d \<and> rr_write r = rc_write d"
proof -
  obtain ro where ro: "validate_provider_support sha pv role policy profile = Inr ro"
    and roots: "collect_roots fs (concat (map (\<lambda>d. map (Pair d) (locations ws pr dl (rc_root d))) (ro_filesystem ro))) [] = Inr (rs_roots cap)"
    using assms(1) by (auto simp: resolve_role_capability_def split: sum.splits)
  obtain roles where roles: "named_profile policy profile = Some roles" "ro = narrowed pv (roles role)"
    using support_narrows[OF ro] .
  show ?thesis using collect_roots_from[OF roots assms(2)] roles by (auto simp: narrowed_def)
qed

lemma authorize_parts_Inr:
  assumes "authorize_parts fs cap p a = Inr q"
  shows "canonical_access_path fs p (a = Write_Access) = Inr q" "\<exists>r \<in> set (rs_roots cap). permits a r \<and> prefix (rr_path r) q"
  using assms by (auto simp: authorize_parts_def list_ex_iff is_within_def split: if_splits sum.splits)

text \<open>C36. Paths stay inside the declared roots.  When a role was resolved and a path is authorized for it, perhaps
  much later and after the files have changed, the path handed on lies below a root that the policy declares for
  that role and profile with the access asked for, as that root resolved.  No component of it is a link, so the
  prefix comparison means containment in the file system; the only exception is a path to write that runs through
  a loop of links, which the system refuses to open.\<close>

theorem authorized_path_is_declared:
  assumes "resolve_role_capability sha fs0 pv role policy profile ws pr dl = Inr cap"
    and "authorize_path fs cap raw a wd = Inr p"
  shows "(\<exists>roles d loc root. named_profile policy profile = Some roles \<and> d \<in> set (ro_filesystem (roles role))
      \<and> loc \<in> set (locations ws pr dl (rc_root d)) \<and> resolve_path fs0 True loc = Inr root \<and> prefix root p
      \<and> (if a = Write_Access then rc_write d else rc_read d))
    \<and> (canonical fs p \<or> a = Write_Access \<and> passes_loop fs (if is_absolute raw then path_parts raw else wd @ path_parts raw))"
proof
  let ?q = "if is_absolute raw then path_parts raw else wd @ path_parts raw"
  have "authorize_parts fs cap ?q a = Inr p" using assms(2) by (simp add: authorize_path_def split: if_splits)
  note access = authorize_parts_Inr(1)[OF this] and within = authorize_parts_Inr(2)[OF this]
  obtain r where r: "r \<in> set (rs_roots cap)" "permits a r" "prefix (rr_path r) p" using within by blast
  obtain roles d loc where "named_profile policy profile = Some roles" "d \<in> set (ro_filesystem (roles role))"
      "loc \<in> set (locations ws pr dl (rc_root d))" "resolve_path fs0 True loc = Inr (rr_path r)"
      "rr_read r = rc_read d" "rr_write r = rc_write d" using resolved_root_declared[OF assms(1) r(1)] by blast
  moreover from this have "if a = Write_Access then rc_write d else rc_read d"
    using r(2) by (cases a) (auto simp: permits_def)
  ultimately show "\<exists>roles d loc root. named_profile policy profile = Some roles \<and> d \<in> set (ro_filesystem (roles role))
      \<and> loc \<in> set (locations ws pr dl (rc_root d)) \<and> resolve_path fs0 True loc = Inr root \<and> prefix root p
      \<and> (if a = Write_Access then rc_write d else rc_read d)" using r(3) by blast
  show "canonical fs p \<or> a = Write_Access \<and> passes_loop fs ?q"
    using canonical_access[OF access] by blast
qed

section \<open>Environments\<close>

lemma add_internal_names:
  "add_internal declared kvs env = Inr env' \<Longrightarrow> fst ` set env' \<subseteq> fst ` set env \<union> set declared"
proof (induction declared kvs env rule: add_internal.induct)
  case (2 declared n v rest env)
  then show ?case by (auto split: if_splits simp: dict_simps)
qed simp

lemma forwarded_names:
  "\<not> ec_inherit_all e \<Longrightarrow> fst ` set (forwarded e inc host) \<subseteq> set (ec_forward e) \<union> set (ec_credentials e)"
  "n \<in> fst ` set (forwarded e inc host) \<Longrightarrow> n \<in> set FINITE_CREDENTIAL_NAMES \<Longrightarrow> n \<in> set (ec_forward e) \<union> set (ec_credentials e)"
  by (auto simp: forwarded_def split: if_splits)

lemma enforced_mem:
  "(n, v) \<in> set (enforce_environment_credential_provenance env creds) \<longleftrightarrow> (n, v) \<in> set env \<and>
    ((n, v) \<in> set creds \<and> v \<noteq> [] \<or> (\<forall>(c, w) \<in> set creds. w \<noteq> [] \<longrightarrow> \<not> contains_credential_token v w))"
  by (auto simp: enforce_environment_credential_provenance_def list_ex_iff)

lemma finite_values: "(c, w) \<in> set (finite_credential_values host) \<Longrightarrow> w \<noteq> [] \<and> c \<in> set FINITE_CREDENTIAL_NAMES \<and> map_of host c = Some w"
  by (auto simp: finite_credential_values_def credential_source_values_def inventory_of_def dict_get_def split: option.splits)

text \<open>C37. The environment of a role.  An environment that is built for a role passes the check of its names.  A
  credential name of the inventory is in it only if the policy declares it as a credential, to forward, or as
  internal.  And a value that contains a known credential of the host is the exact value of a credential, under
  the name of that credential: no other variable carries one, and nothing carries a part of one.\<close>

theorem role_environment_is_declared:
  assumes "build_role_environment sha cap host internal inc = Inr env"
  shows "validate_role_environment sha cap env = Inr ()
    \<and> (\<forall>n \<in> set (dict_keys env) \<inter> set FINITE_CREDENTIAL_NAMES.
         n \<in> set (ec_credentials (rs_environment cap) @ ec_forward (rs_environment cap) @ ec_internal (rs_environment cap)))
    \<and> (\<forall>(n, v) \<in> set env. \<forall>(c, w) \<in> set (finite_credential_values host). contains_credential_token v w \<longrightarrow> map_of host n = Some v
         \<and> n \<in> set FINITE_CREDENTIAL_NAMES)"
proof -
  let ?e = "rs_environment cap"
  obtain raw where raw: "add_internal (ec_internal ?e) (sort_key fst internal) (forwarded ?e inc host) = Inr raw"
    and env: "env = enforce_environment_credential_provenance raw (finite_credential_values host)"
    using assms by (auto simp: build_role_environment_def Let_def split: sum.splits)
  have names: "fst ` set env \<subseteq> fst ` set (forwarded ?e inc host) \<union> set (ec_internal ?e)"
  proof -
    have "fst ` set env \<subseteq> fst ` set raw" by (force simp: env enforced_mem)
    then show ?thesis using add_internal_names[OF raw] by (rule order_trans)
  qed
  have "\<not> ec_inherit_all ?e \<Longrightarrow> fst ` set env \<subseteq> set (ec_forward ?e @ ec_credentials ?e @ ec_internal ?e)"
    using names forwarded_names(1)[of ?e inc host] unfolding set_append by blast
  then have declared: "ec_inherit_all ?e \<or> (\<forall>n \<in> fst ` set env. n \<in> set (ec_forward ?e @ ec_credentials ?e @ ec_internal ?e))"
    by blast
  then have valid: "validate_role_environment sha cap env = Inr ()"
    by (auto simp: validate_role_environment_def Let_def filter_Nil_iff split: list.split dest!: sym[of "sorted_set _"] arg_cong[where f = set])
  have finite: "\<forall>n \<in> set (dict_keys env) \<inter> set FINITE_CREDENTIAL_NAMES. n \<in> set (ec_credentials ?e @ ec_forward ?e @ ec_internal ?e)"
    using names forwarded_names(2)[of _ ?e inc host] by auto
  have exact: "map_of host n = Some v \<and> n \<in> set FINITE_CREDENTIAL_NAMES"
    if "(n, v) \<in> set env" "(c, w) \<in> set (finite_credential_values host)" "contains_credential_token v w" for n v c w
  proof -
    have "(n, v) \<in> set (finite_credential_values host)"
      using that finite_values[OF that(2)] by (auto simp: env enforced_mem)
    then show ?thesis using finite_values by blast
  qed
  show ?thesis using valid finite exact by blast
qed

section \<open>Concrete instances\<close>

text \<open>A worker with a workspace to write and a record to read; a link in the workspace leads out of it.\<close>

definition demo_worker :: role_capability where
  "demo_worker = \<lparr>ro_filesystem = [\<lparr>rc_root = Workspace, rc_read = True, rc_write = True\<rparr>, \<lparr>rc_root = Project_Record, rc_read = True, rc_write = False\<rparr>],
     ro_process = \<lparr>pc_enabled = False, pc_commands = []\<rparr>, ro_network = ''allow'',
     ro_environment = \<lparr>ec_forward = [''HOME'', ''PATH''], ec_credentials = [''OPENAI_API_KEY''], ec_terminal = [], ec_internal = [''CODEX_PATH''],
       ec_inherit_all = False\<rparr>,
     ro_approvals = \<lparr>ac_allow_once = True, ac_kinds = [''read'']\<rparr>\<rparr>"

definition demo_policy :: capability_policy where
  "demo_policy = \<lparr>cy_version = 1, cy_safe = (\<lambda>_. demo_worker), cy_unsafe = (\<lambda>_. demo_worker)\<rparr>"

definition demo_fs :: fs where
  "demo_fs = [([''w''], Directory), ([''w'', ''src''], Directory), ([''w'', ''out''], Link True [''etc'']), ([''w'', ''in''], Link False [''src'', ''.'']),
     ([''etc''], Directory), ([''etc'', ''passwd''], File ''x''), ([''r''], Directory)]"

definition demo_role :: "policy_error + resolved_role" where
  "demo_role = resolve_role_capability id demo_fs (default_provider ''codex'' [''CODEX_API_KEY'', ''OPENAI_API_KEY'']) ''worker'' demo_policy
     SAFE_PROFILE [''w''] [''r''] []"

definition demo_cap :: resolved_role where
  "demo_cap = projr demo_role"

lemma demo_resolved: "demo_role = Inr demo_cap"
proof -
  have "\<not> isl demo_role" by code_simp
  then show ?thesis by (simp add: demo_cap_def)
qed

lemma demo_accesses:
  "authorize_path demo_fs demo_cap ''in/new.py'' Write_Access [''w''] = Inr [''w'', ''src'', ''new.py'']"
  "isl (authorize_path demo_fs demo_cap ''out/passwd'' Read_Access [''w''])"
  "isl (authorize_path demo_fs demo_cap ''../r/x'' Write_Access [''w''])"
  by code_simp+

theorem authorized_path_is_declared_witness:
  "\<exists>d \<in> set (ro_filesystem demo_worker). rc_write d \<and> (\<exists>loc \<in> set (locations [''w''] [''r''] [] (rc_root d)).
     \<exists>root. resolve_path demo_fs True loc = Inr root \<and> prefix root [''w'', ''src'', ''new.py''])"
proof -
  have "named_profile demo_policy SAFE_PROFILE = Some (\<lambda>_. demo_worker)" by (simp add: named_profile_def demo_policy_def)
  then show ?thesis
    using authorized_path_is_declared[OF demo_resolved[unfolded demo_role_def] demo_accesses(1)] by auto
qed

definition demo_host :: "(string, string) dict" where
  "demo_host = [(''PATH'', ''/bin''), (''HOME'', ''/h/key-12345678''), (''OPENAI_API_KEY'', ''key-12345678''), (''GLM_API_KEY'', ''glm-1'')]"

lemma demo_environment:
  "build_role_environment id demo_cap demo_host [(''CODEX_PATH'', ''/opt/codex'')] True
     = Inr [(''CODEX_PATH'', ''/opt/codex''), (''OPENAI_API_KEY'', ''key-12345678''), (''PATH'', ''/bin'')]"
  by code_simp

theorem role_environment_is_declared_witness:
  "validate_role_environment id demo_cap [(''CODEX_PATH'', ''/opt/codex''), (''OPENAI_API_KEY'', ''key-12345678''), (''PATH'', ''/bin'')] = Inr ()"
  using role_environment_is_declared[OF demo_environment] by blast

end
