(* ===== verification/Acp_Client_Proofs.thy ===== *)
theory Acp_Client_Proofs
  imports Acp_Client Capability_Proofs
begin

text \<open>
  What a provider can do through the client: its writes stay below the writable roots, what it starts is what
  the role may start, a terminal never holds more than its bound, and no permission outlasts one call.
\<close>

section \<open>Writes\<close>

text \<open>The writable roots and their ancestors are there.\<close>

definition roots_present :: "resolved_role \<Rightarrow> fs \<Rightarrow> bool" where
  "roots_present cap fs \<longleftrightarrow> (\<forall>r \<in> set (rs_roots cap). rr_write r \<longrightarrow> (\<forall>q. prefix q (rr_path r) \<longrightarrow> q \<noteq> [] \<longrightarrow> map_of fs q = Some Directory))"

lemma create_parents_changes:
  "create_parents dir cs fs = Inr fs' \<Longrightarrow> map_of fs' q \<noteq> map_of fs q \<Longrightarrow>
   map_of fs q = None \<and> prefix q (dir @ cs) \<and> q \<noteq> [] \<and> map_of fs' q = Some Directory"
proof (induction dir cs fs rule: create_parents.induct)
  case (2 dir c cs fs)
  show ?case
  proof (cases "map_of fs (dir @ [c])")
    case None
    have run: "create_parents (dir @ [c]) cs (dict_put (dir @ [c]) Directory fs) = Inr fs'" using 2(3) None by simp
    show ?thesis
    proof (cases "map_of fs' q = map_of (dict_put (dir @ [c]) Directory fs) q")
      case True
      then have "q = dir @ [c]" using 2(4) by (auto simp: update_conv split: if_splits)
      then show ?thesis using True None by (simp add: update_conv)
    next
      case False
      from 2(1)[OF None run False] show ?thesis by (auto simp: update_conv split: if_splits)
    qed
  next
    case (Some x)
    then show ?thesis using 2(2)[OF Some _ _ 2(4)] 2(3) by (cases x) auto
  qed
qed simp

lemma below_root:
  assumes "prefix r p" "prefix q p" "map_of fs q \<noteq> Some Directory" "\<forall>q'. prefix q' r \<longrightarrow> q' \<noteq> [] \<longrightarrow> map_of fs q' = Some Directory" "q \<noteq> []"
  shows "prefix r q"
  using assms prefix_same_cases[of r p q] by blast

lemma authorize_json_within:
  assumes "authorize_json cl v a = Inr p"
  shows "\<exists>r \<in> set (rs_roots (cl_policy cl)). permits a r \<and> prefix (rr_path r) p"
  using assms authorize_parts_Inr(2)[of "cl_fs cl" "cl_policy cl" _ a p]
  by (auto simp: authorize_json_def authorize_path_def split: json.splits sum.splits if_splits)

lemma write_text_changes:
  "write_text p s fs = Inr fs' \<Longrightarrow> map_of fs' q \<noteq> map_of fs q \<Longrightarrow> q = p \<and> map_of fs q \<noteq> Some Directory \<and> q \<noteq> []"
  by (auto simp: write_text_def update_conv split: option.splits fs_node.splits if_splits)

lemma fs_write_changes:
  assumes "handle_fs_write params cl = (answer, cl')" "map_of (cl_fs cl') q \<noteq> map_of (cl_fs cl) q"
  shows "\<exists>p. (\<exists>r \<in> set (rs_roots (cl_policy cl)). rr_write r \<and> prefix (rr_path r) p) \<and> prefix q p \<and> q \<noteq> [] \<and> map_of (cl_fs cl) q \<noteq> Some Directory"
proof (cases "jget params ''path''")
  case None
  then show ?thesis using assms by (simp add: handle_fs_write_def)
next
  case (Some raw)
  show ?thesis
  proof (cases "authorize_json cl raw Write_Access")
    case (Inl e)
    then show ?thesis using assms Some by (simp add: handle_fs_write_def)
  next
    case (Inr p)
    have root: "\<exists>r \<in> set (rs_roots (cl_policy cl)). rr_write r \<and> prefix (rr_path r) p"
      using authorize_json_within[OF Inr] by (simp add: permits_def)
    show ?thesis
    proof (cases "create_parents [] (butlast p) (cl_fs cl)")
      case (Inl e)
      then show ?thesis using assms Some \<open>authorize_json cl raw Write_Access = Inr p\<close> by (simp add: handle_fs_write_def)
    next
      case made: (Inr fs)
      have shape: "cl_fs cl' = fs \<or> (\<exists>s. write_text p s fs = Inr (cl_fs cl'))"
        using assms(1) Some Inr made
        by (auto simp: handle_fs_write_def Let_def split: option.splits json.splits sum.splits)
      have parents: "prefix q (butlast p) \<and> map_of (cl_fs cl) q = None \<and> q \<noteq> []" if "map_of fs q \<noteq> map_of (cl_fs cl) q"
        using create_parents_changes[OF made that] by simp
      have "prefix (butlast p) p" by (cases p rule: rev_cases) auto
      then have "prefix q p \<and> q \<noteq> [] \<and> map_of (cl_fs cl) q \<noteq> Some Directory"
        using shape assms(2) parents write_text_changes[of p _ fs "cl_fs cl'" q]
        by (cases "map_of fs q = map_of (cl_fs cl) q") (auto intro: prefix_order.trans)
      then show ?thesis using root by blast
    qed
  qed
qed

lemma request_state: "snd (handle_request spawns decode rid rpc params cl)
    = (case dispatch_request spawns decode rid rpc params cl of None \<Rightarrow> cl | Some x \<Rightarrow> snd x)"
  by (simp add: handle_request_def split: option.split prod.split)

lemma if_Some: "(if a then Some y else r) = Some x \<Longrightarrow> (a \<Longrightarrow> x = y \<Longrightarrow> thesis) \<Longrightarrow> (r = Some x \<Longrightarrow> thesis) \<Longrightarrow> thesis"
  by (cases a) auto

lemma dispatch_cases:
  assumes "dispatch_request spawns decode rid rpc params cl = Some x"
  shows "snd x \<in> {cl, snd (handle_terminal_create spawns params cl), snd (handle_terminal_wait rid params cl), snd (handle_terminal_release params cl)}
   \<or> rpc = ''fs/write_text_file'' \<and> snd x = snd (handle_fs_write params cl)"
  using assms unfolding dispatch_request_def
  by (elim if_Some) (simp_all only: snd_conv snd_map_prod id_apply insert_iff empty_iff simp_thms option.distinct)

lemma request_cases:
  "snd (handle_request spawns decode rid rpc params cl) \<in> {cl, snd (handle_terminal_create spawns params cl),
     snd (handle_terminal_wait rid params cl), snd (handle_terminal_release params cl)}
   \<or> rpc = ''fs/write_text_file'' \<and> snd (handle_request spawns decode rid rpc params cl) = snd (handle_fs_write params cl)"
  using dispatch_cases[of spawns decode rid rpc params cl]
  by (cases "dispatch_request spawns decode rid rpc params cl") (simp_all add: request_state)

lemma terminal_requests_keep_files:
  "cl_fs (snd (handle_terminal_create spawns params cl)) = cl_fs cl" "cl_fs (snd (handle_terminal_wait rid params cl)) = cl_fs cl"
  "cl_fs (snd (handle_terminal_release params cl)) = cl_fs cl"
  by (auto simp: handle_terminal_create_def handle_terminal_wait_def handle_terminal_release_def Let_def split: sum.split option.split prod.split)

text \<open>C38. A request writes only below a writable root.  Whatever a provider requests, and whatever the files have
  become meanwhile, as long as the writable roots are there every file or directory that the request creates or
  changes lies below a root the role may write; a request to read, to run or to ask changes no file.\<close>

theorem request_writes_below_roots:
  assumes "roots_present (cl_policy cl) (cl_fs cl)"
    and "handle_request spawns decode rid rpc params cl = (reply, cl')"
    and "map_of (cl_fs cl') q \<noteq> map_of (cl_fs cl) q"
  shows "rpc = ''fs/write_text_file'' \<and> (\<exists>r \<in> set (rs_roots (cl_policy cl)). rr_write r \<and> prefix (rr_path r) q)"
proof -
  have "cl' = snd (handle_request spawns decode rid rpc params cl)" using assms(2) by simp
  then have rpc: "rpc = ''fs/write_text_file''" and "cl' = snd (handle_fs_write params cl)"
    using request_cases[of spawns decode rid rpc params cl] terminal_requests_keep_files assms(3) by auto
  then obtain answer where "handle_fs_write params cl = (answer, cl')" by (cases "handle_fs_write params cl") auto
  from fs_write_changes[OF this assms(3)] obtain p r where pr: "r \<in> set (rs_roots (cl_policy cl))" "rr_write r" "prefix (rr_path r) p"
    "prefix q p" "q \<noteq> []" "map_of (cl_fs cl) q \<noteq> Some Directory" by blast
  have "\<forall>q'. prefix q' (rr_path r) \<longrightarrow> q' \<noteq> [] \<longrightarrow> map_of (cl_fs cl) q' = Some Directory"
    using assms(1) pr(1,2) by (simp add: roots_present_def)
  from below_root[OF pr(3,4,6) this pr(5)] show ?thesis using rpc pr(1,2) by blast
qed

section \<open>Processes and terminals\<close>

definition terminal_ok :: "terminal \<Rightarrow> bool" where
  "terminal_ok t \<longleftrightarrow> length (tm_output t) \<le> tm_limit t \<and> (tm_truncated t \<longrightarrow> length (tm_output t) = tm_limit t)"

text \<open>What a process a client started may be, on a host with the given environment.\<close>

definition spawn_ok :: "resolved_role \<Rightarrow> (string, string) dict \<Rightarrow> spawn \<Rightarrow> bool" where
  "spawn_ok cap host sp \<longleftrightarrow> authorize_command cap (sp_command sp) = Inr ()
     \<and> (\<exists>r \<in> set (rs_roots cap). rr_read r \<and> prefix (rr_path r) (sp_cwd sp))
     \<and> (ec_inherit_all (rs_environment cap)
        \<or> set (dict_keys (sp_env sp)) \<subseteq> set (ec_forward (rs_environment cap)) \<union> set (ec_terminal (rs_environment cap)))
     \<and> (\<forall>(n, v) \<in> set (sp_env sp). \<forall>(c, w) \<in> set (finite_credential_values host). \<not> contains_credential_token v w)"

definition terminals_ok :: "(string, terminal) dict \<Rightarrow> bool" where
  "terminals_ok d \<longleftrightarrow> (\<forall>t \<in> snd ` set d. terminal_ok t)"

text \<open>The environment of terminals: no name of a known credential, and only declared names.\<close>

definition terminal_environment_ok :: "resolved_role \<Rightarrow> (string, string) dict \<Rightarrow> (string, string) dict \<Rightarrow> bool" where
  "terminal_environment_ok cap host environment \<longleftrightarrow>
     fst ` set environment \<inter> fst ` set (finite_credential_values host) = {}
     \<and> (ec_inherit_all (rs_environment cap) \<or> fst ` set environment \<subseteq> set (ec_forward (rs_environment cap)))"

definition client_ok :: "resolved_role \<Rightarrow> (string, string) dict \<Rightarrow> client \<Rightarrow> bool" where
  "client_ok cap host cl \<longleftrightarrow> cl_policy cl = cap \<and> cl_credentials cl = finite_credential_values host
     \<and> terminal_environment_ok cap host (cl_environment cl)
     \<and> terminals_ok (cl_terminals cl) \<and> (\<forall>sp \<in> set (cl_spawned cl). spawn_ok cap host sp)"

text \<open>The life of a client: requests, output and ends of its processes, and whatever else changes the files or the review.\<close>

inductive client_step :: "client \<Rightarrow> client \<Rightarrow> bool" where
  request: "client_step cl (snd (handle_request spawns decode rid rpc params cl))"
| chunk: "map_of (cl_terminals cl) n = Some t \<Longrightarrow> client_step cl (cl\<lparr>cl_terminals := dict_put n (terminal_chunk output t) (cl_terminals cl)\<rparr>)"
| ends: "map_of (cl_terminals cl) n = Some t \<Longrightarrow> client_step cl (cl\<lparr>cl_terminals := dict_put n (snd (terminal_exit code t)) (cl_terminals cl)\<rparr>)"
| world: "client_step cl (cl\<lparr>cl_fs := fs, cl_capture := capture\<rparr>)"

lemma terminal_chunk_ok: "terminal_ok t \<Longrightarrow> terminal_ok (terminal_chunk output t)"
  by (auto simp: terminal_ok_def terminal_chunk_def)

lemma dict_put_values: "snd ` set (dict_put k v d) \<subseteq> insert v (snd ` set d)"
  by (induction d) auto

lemma terminals_put: "terminals_ok d \<Longrightarrow> terminal_ok v \<Longrightarrow> terminals_ok (dict_put k v d)"
  using dict_put_values[of k v d] unfolding terminals_ok_def by blast

lemma terminals_get: "terminals_ok d \<Longrightarrow> map_of d n = Some t \<Longrightarrow> terminal_ok t"
  by (force simp: terminals_ok_def dest: map_of_SomeD)

lemma client_put: "client_ok cap host cl \<Longrightarrow> terminal_ok t \<Longrightarrow>
  client_ok cap host (cl\<lparr>cl_terminals := dict_put n t (cl_terminals cl)\<rparr>)"
  by (simp add: client_ok_def terminals_put)

lemma terminal_of_ok: "client_ok cap host cl \<Longrightarrow> terminal_of params cl = Some (n, t) \<Longrightarrow> terminal_ok t"
  by (auto simp: client_ok_def terminal_of_def split: option.splits if_splits dest: terminals_get)

lemma terminal_names:
  assumes "authorize_terminal_environment cap names = Inr ()" "\<not> ec_inherit_all (rs_environment cap)"
  shows "set names \<subseteq> set (ec_terminal (rs_environment cap))"
  using assms by (cases "sorted_set (filter (\<lambda>n. n \<notin> set (ec_terminal (rs_environment cap))) names)")
    (auto simp: authorize_terminal_environment_def filter_Nil_iff)

lemma plan_ok:
  assumes "client_ok cap host cl" "terminal_plan params cl = Inr (sp, limit)"
  shows "spawn_ok cap host sp"
proof -
  let ?creds = "finite_credential_values host"
  have cl: "cl_policy cl = cap" "cl_credentials cl = ?creds" and env: "terminal_environment_ok cap host (cl_environment cl)"
    using assms(1) by (auto simp: client_ok_def)
  obtain command args cwd requested where plan: "authorize_command cap command = Inr ()" "terminal_cwd params cl = Inr cwd"
    "authorize_terminal_environment cap (dict_keys requested) = Inr ()"
    "sp = \<lparr>sp_command = command, sp_args = args, sp_cwd = cwd, sp_env = enforce_environment_credential_provenance
        (dict_of (cl_environment cl @ filter (\<lambda>(n, _). n \<notin> set (dict_keys ?creds)) requested)) ?creds\<rparr>"
    using assms(2) unfolding terminal_plan_def cl by (simp add: Let_def split: option.split_asm list.split_asm sum.split_asm) blast+
  let ?own = "filter (\<lambda>(n, _). n \<notin> set (dict_keys ?creds)) requested"
  have cwd: "\<exists>r \<in> set (rs_roots cap). rr_read r \<and> prefix (rr_path r) cwd"
    using plan(2) authorize_json_within[of cl _ Cwd_Access cwd] authorize_parts_Inr(2)[of "cl_fs cl" cap "cl_dir cl" Cwd_Access cwd]
    by (auto simp: terminal_cwd_def cl permits_def split: if_splits sum.splits)
  have "fst ` set (sp_env sp) \<subseteq> fst ` set (dict_of (cl_environment cl @ ?own))"
    unfolding plan(4) spawn.simps by (auto simp: enforce_environment_credential_provenance_def)
  also have "\<dots> = fst ` set (cl_environment cl @ ?own)" by (rule dict_keys_of)
  finally have names: "fst ` set (sp_env sp) \<subseteq> fst ` set (cl_environment cl) \<union> (set (dict_keys requested) - fst ` set ?creds)"
    by force
  have "ec_inherit_all (rs_environment cap) \<or> set (dict_keys (sp_env sp))
      \<subseteq> set (ec_forward (rs_environment cap)) \<union> set (ec_terminal (rs_environment cap))"
  proof (cases "ec_inherit_all (rs_environment cap)")
    case False
    then have "fst ` set (cl_environment cl) \<subseteq> set (ec_forward (rs_environment cap))"
      using env by (simp add: terminal_environment_ok_def)
    moreover have "set (dict_keys requested) - fst ` set ?creds \<subseteq> set (ec_terminal (rs_environment cap))"
      using terminal_names[OF plan(3) False] by (rule subset_trans[OF Diff_subset])
    ultimately have "fst ` set (sp_env sp) \<subseteq> set (ec_forward (rs_environment cap)) \<union> set (ec_terminal (rs_environment cap))"
      using names by (meson Un_mono subset_trans)
    then show ?thesis by (simp only: set_map simp_thms)
  qed simp
  moreover have "\<not> contains_credential_token v w" if "(n, v) \<in> set (sp_env sp)" "(c, w) \<in> set ?creds" for n v c w
  proof -
    have "n \<in> fst ` set (sp_env sp)" using that(1) by (rule image_eqI[rotated]) simp
    with names have "n \<in> fst ` set (cl_environment cl) \<union> (set (dict_keys requested) - fst ` set ?creds)" by (rule subsetD)
    moreover have "fst ` set (cl_environment cl) \<inter> fst ` set ?creds = {}"
      using env by (simp only: terminal_environment_ok_def)
    ultimately have "n \<notin> fst ` set ?creds" by blast
    then have "(n, v) \<notin> set ?creds" by force
    then show ?thesis using that finite_values[OF that(2)] unfolding plan(4) by (auto simp: enforced_mem)
  qed
  moreover have parts: "sp_command sp = command" "sp_cwd sp = cwd" by (simp_all add: plan(4))
  ultimately show ?thesis using plan(1) cwd unfolding spawn_ok_def parts by blast
qed

lemma terminal_requests_ok:
  assumes "client_ok cap host cl"
  shows "client_ok cap host (snd (handle_terminal_create spawns params cl))"
    "client_ok cap host (snd (handle_terminal_wait rid params cl))"
    "client_ok cap host (snd (handle_terminal_release params cl))"
    "client_ok cap host (snd (handle_fs_write params cl))"
proof -
  show "client_ok cap host (snd (handle_terminal_create spawns params cl))"
  proof (cases "terminal_plan params cl")
    case (Inr x)
    obtain sp limit where x: "x = (sp, limit)" by (cases x)
    have "terminal_ok \<lparr>tm_output = [], tm_limit = limit, tm_truncated = False, tm_exit = None, tm_waiters = []\<rparr>"
      by (simp add: terminal_ok_def)
    then show ?thesis using assms plan_ok[OF assms Inr[unfolded x]] Inr x
      by (auto simp: handle_terminal_create_def client_ok_def Let_def terminals_put)
  qed (use assms in \<open>simp add: handle_terminal_create_def\<close>)
  show "client_ok cap host (snd (handle_terminal_wait rid params cl))"
  proof (cases "terminal_of params cl")
    case (Some x)
    obtain n t where x: "x = (n, t)" by (cases x)
    have "terminal_ok (t\<lparr>tm_waiters := tm_waiters t @ [rid]\<rparr>)"
      using terminal_of_ok[OF assms Some[unfolded x]] by (simp add: terminal_ok_def)
    then show ?thesis using assms client_put[OF assms] Some x by (simp add: handle_terminal_wait_def split: option.split)
  qed (use assms in \<open>simp add: handle_terminal_wait_def\<close>)
  show "client_ok cap host (snd (handle_terminal_release params cl))"
    using assms by (auto simp: handle_terminal_release_def client_ok_def split: option.split)
  show "client_ok cap host (snd (handle_fs_write params cl))"
    using assms by (auto simp: handle_fs_write_def client_ok_def Let_def split: option.split sum.split json.split)
qed

lemma client_step_ok:
  assumes "client_step cl cl'" "client_ok cap host cl"
  shows "client_ok cap host cl'"
  using assms
proof cases
  case (request spawns decode rid rpc params)
  then show ?thesis
    using request_cases[of spawns decode rid rpc params cl] terminal_requests_ok[OF assms(2)] assms(2) by auto
next
  case (chunk n t out)
  have "terminal_ok t" using assms(2) chunk(2) by (auto simp: client_ok_def dest: terminals_get)
  then show ?thesis using chunk(1) client_put[OF assms(2) terminal_chunk_ok] by simp
next
  case (ends n t code)
  have "terminal_ok t" using assms(2) ends(2) by (auto simp: client_ok_def dest: terminals_get)
  then have "terminal_ok (snd (terminal_exit code t))" by (simp add: terminal_exit_def terminal_ok_def)
  then show ?thesis using ends(1) client_put[OF assms(2)] by simp
next
  case (world fs capture)
  then show ?thesis using assms(2) by (simp add: client_ok_def)
qed

lemma terminal_forwarded:
  "fst ` set (forwarded e False host) \<subseteq> (if ec_inherit_all e then - set FINITE_CREDENTIAL_NAMES else set (ec_forward e))"
  by (auto simp: forwarded_def)

lemma started_client:
  assumes "start_client sha cap dir host fs = Inr cl" "set (ec_forward (rs_environment cap)) \<inter> set FINITE_CREDENTIAL_NAMES = {}"
  shows "client_ok cap host cl"
proof -
  let ?e = "rs_environment cap"
  obtain env where env: "build_role_environment sha cap host [] False = Inr env"
    and cl: "cl = set_credential_inventory (finite_credential_values host) (new_client cap dir env fs)"
    using assms(1) by (auto simp: start_client_def split: sum.splits)
  have "env = enforce_environment_credential_provenance (forwarded ?e False host) (finite_credential_values host)"
    using env by (simp add: build_role_environment_def Let_def sort_key_def)
  then have "fst ` set env \<subseteq> fst ` set (forwarded ?e False host)" by (force simp: enforced_mem)
  then have names: "fst ` set env \<subseteq> (if ec_inherit_all ?e then - set FINITE_CREDENTIAL_NAMES else set (ec_forward ?e))"
    using terminal_forwarded by (rule order_trans)
  moreover have "fst ` set (finite_credential_values host) \<subseteq> set FINITE_CREDENTIAL_NAMES" using finite_values by force
  ultimately have "terminal_environment_ok cap host env"
    using assms(2) unfolding terminal_environment_ok_def by (cases "ec_inherit_all ?e") auto
  then show ?thesis by (simp add: cl client_ok_def new_client_def set_credential_inventory_def terminals_ok_def)
qed

text \<open>C39. The life of a client.  From the start of the client of a role that forwards no credential name, whatever
  requests arrive, whatever its processes print, however they end, and whatever happens to the files and to the
  review, a client keeps the authority and the credential inventory of its start; every process it started is a
  command the role may run, in a directory below a readable root, with no variable beyond the names the role
  forwards and those it may inject (unless the role inherits all), and in whose environment no known credential
  of the host occurs, under any name; and no terminal holds more output than its bound, which a truncated one
  fills exactly.\<close>

theorem client_stays_confined:
  assumes "start_client sha cap dir host fs = Inr cl0"
    and "set (ec_forward (rs_environment cap)) \<inter> set FINITE_CREDENTIAL_NAMES = {}"
    and "client_step\<^sup>*\<^sup>* cl0 cl"
  shows "client_ok cap host cl"
  using assms(3)
proof (induction rule: rtranclp_induct)
  case base
  show ?case by (rule started_client[OF assms(1,2)])
next
  case (step cl cl')
  then show ?case by (blast intro: client_step_ok)
qed

section \<open>Permissions\<close>

text \<open>C40. Permission for one call.  A request for permission is cancelled, or the answer selects the one option of its
  kind: to allow once when the role's policy allows once and names the kind of the tool, and to reject once in
  every other case.  An option to allow or to reject always is never selected.\<close>

theorem permission_is_for_one_call:
  "handle_permission_request params cl = permission_cancelled \<or>
   (\<exists>options call kind parsed i. jget params ''options'' = Some (JList options) \<and> jget params ''toolCall'' = Some (JObj call)
      \<and> map_of call ''kind'' = Some (JStr kind) \<and> kind \<noteq> [] \<and> parsed_options options [] = Some parsed
      \<and> handle_permission_request params cl = permission_selected i
      \<and> filter (\<lambda>(_, k). k = (if ac_allow_once (rs_approvals (cl_policy cl)) \<and> kind \<in> set (ac_kinds (rs_approvals (cl_policy cl)))
           then ''allow_once'' else ''reject_once'')) parsed
         = [(i, if ac_allow_once (rs_approvals (cl_policy cl)) \<and> kind \<in> set (ac_kinds (rs_approvals (cl_policy cl)))
           then ''allow_once'' else ''reject_once'')])"
proof (cases "handle_permission_request params cl = permission_cancelled")
  case False
  let ?allowed = "\<lambda>kind. ac_allow_once (rs_approvals (cl_policy cl)) \<and> kind \<in> set (ac_kinds (rs_approvals (cl_policy cl)))"
  let ?desired = "\<lambda>kind. if ?allowed kind then ''allow_once'' else ''reject_once''"
  obtain options call where o: "jget params ''options'' = Some (JList options)" "jget params ''toolCall'' = Some (JObj call)"
    using False unfolding handle_permission_request_def by (auto split: option.splits json.splits)
  obtain kind where k: "json_str (map_of call ''kind'') = Some kind" "kind \<noteq> []"
    using False unfolding handle_permission_request_def o by (auto split: option.splits list.splits)
  obtain c cs where kind: "kind = c # cs" using k(2) by (cases kind) auto
  obtain parsed where p: "parsed_options options [] = Some parsed"
    using False unfolding handle_permission_request_def o by (auto simp: k(1) kind split: option.splits)
  have run: "handle_permission_request params cl = (case filter (\<lambda>(_, k). k = ?desired kind) parsed of [(i, _)] \<Rightarrow> permission_selected i | _ \<Rightarrow> permission_cancelled)"
    unfolding handle_permission_request_def by (simp add: o k(1) kind p Let_def)
  obtain i d where f: "filter (\<lambda>(_, k). k = ?desired kind) parsed = [(i, d)]"
    using False unfolding run by (auto split: list.splits)
  have "(i, d) \<in> set (filter (\<lambda>(_, k). k = ?desired kind) parsed)" unfolding f by simp
  then have d: "d = ?desired kind" by simp
  have "map_of call ''kind'' = Some (JStr kind)" using k(1) by (auto simp: json_str_def split: option.splits json.splits)
  moreover have "handle_permission_request params cl = permission_selected i" unfolding run f by simp
  ultimately show ?thesis using o k(2) p f[unfolded d] by blast
qed blast

section \<open>Concrete instances\<close>

definition demo_shell :: resolved_role where
  "demo_shell = demo_cap\<lparr>rs_process := \<lparr>pc_enabled = True, pc_commands = [''git'']\<rparr>\<rparr>"

definition demo_client :: client where
  "demo_client = set_credential_inventory [(''GLM_API_KEY'', ''glm-1''), (''OPENAI_API_KEY'', ''key-12345678'')]
     (new_client demo_shell [''w''] [(''PATH'', ''/bin'')] demo_fs)"

lemma demo_client_starts: "start_client id demo_shell [''w''] demo_host demo_fs = Inr demo_client"
  by code_simp

definition demo_write :: json where
  "demo_write = JObj [(''path'', JStr ''in/a/b.txt''), (''content'', JStr ''use key-12345678'')]"

definition demo_written :: client where
  "demo_written = snd (handle_request (\<lambda>_. True) (\<lambda>_ s. s) (Some (JInt 1)) ''fs/write_text_file'' demo_write demo_client)"

lemma demo_write_runs:
  "map_of (cl_fs demo_written) [''w'', ''src'', ''a'', ''b.txt''] = Some (File ''use <redacted:OPENAI_API_KEY>'')"
  "map_of (cl_fs demo_client) [''w'', ''src'', ''a'', ''b.txt''] = None"
  by code_simp+

lemma demo_roots: "roots_present (cl_policy demo_client) (cl_fs demo_client)"
proof -
  have "rs_roots (cl_policy demo_client) = [\<lparr>rr_name = Workspace, rr_path = [''w''], rr_read = True, rr_write = True\<rparr>,
      \<lparr>rr_name = Project_Record, rr_path = [''r''], rr_read = True, rr_write = False\<rparr>]" by code_simp
  moreover have "map_of (cl_fs demo_client) [''w''] = Some Directory" by code_simp
  ultimately show ?thesis by (auto simp: roots_present_def prefix_Cons)
qed

theorem request_writes_below_roots_witness:
  "\<exists>r \<in> set (rs_roots (cl_policy demo_client)). rr_write r \<and> prefix (rr_path r) [''w'', ''src'', ''a'', ''b.txt'']"
proof -
  have "handle_request (\<lambda>_. True) (\<lambda>_ s. s) (Some (JInt 1)) ''fs/write_text_file'' demo_write demo_client
     = (fst (handle_request (\<lambda>_. True) (\<lambda>_ s. s) (Some (JInt 1)) ''fs/write_text_file'' demo_write demo_client), demo_written)"
    by (simp add: demo_written_def)
  from request_writes_below_roots[OF demo_roots this, of "[''w'', ''src'', ''a'', ''b.txt'']"] show ?thesis
    using demo_write_runs by simp
qed

definition demo_terminal :: json where
  "demo_terminal = JObj [(''command'', JStr ''git''), (''args'', JList [JStr ''log'']), (''outputByteLimit'', JInt 4),
     (''env'', JList [])]"

definition demo_started_client :: client where
  "demo_started_client = snd (handle_request (\<lambda>_. True) (\<lambda>_ s. s) (Some (JInt 2)) ''terminal/create'' demo_terminal demo_client)"

lemma demo_started_terminal: "map_of (cl_terminals demo_started_client) ''terminal-1''
    = Some \<lparr>tm_output = [], tm_limit = 4, tm_truncated = False, tm_exit = None, tm_waiters = []\<rparr>"
  by code_simp

text \<open>On a host with two credentials, a terminal starts and prints more than its bound; its process holds the search
  path alone.\<close>

theorem client_stays_confined_witness:
  "client_ok demo_shell demo_host (demo_started_client\<lparr>cl_terminals :=
     dict_put ''terminal-1'' (terminal_chunk ''too long'' \<lparr>tm_output = [], tm_limit = 4, tm_truncated = False, tm_exit = None, tm_waiters = []\<rparr>)
       (cl_terminals demo_started_client)\<rparr>)
   \<and> map sp_env (cl_spawned demo_started_client) = [[(''PATH'', ''/bin'')]]"
proof (rule conjI[OF client_stays_confined[OF demo_client_starts]])
  show "set (ec_forward (rs_environment demo_shell)) \<inter> set FINITE_CREDENTIAL_NAMES = {}" by code_simp
  have "client_step demo_client demo_started_client" unfolding demo_started_client_def by (rule client_step.request)
  with chunk[OF demo_started_terminal, of "''too long''"]
  show "client_step\<^sup>*\<^sup>* demo_client (demo_started_client\<lparr>cl_terminals :=
     dict_put ''terminal-1'' (terminal_chunk ''too long'' \<lparr>tm_output = [], tm_limit = 4, tm_truncated = False, tm_exit = None, tm_waiters = []\<rparr>)
       (cl_terminals demo_started_client)\<rparr>)"
    by (meson rtranclp.rtrancl_into_rtrancl r_into_rtranclp)
  show "map sp_env (cl_spawned demo_started_client) = [[(''PATH'', ''/bin'')]]" by code_simp
qed

end
