(* ===== verification/Retained_Lanes.thy ===== *)
theory Retained_Lanes
  imports Scheduler Json
begin

text \<open>
  \<^verbatim>\<open>experimental_model.py\<close>: the model of retained lanes, a pure state machine.  Up to four lanes are worked on and
  validated in turns; a turn is reserved, and the reservation written down, before anything is sent.  At most
  one lane keeps its two sessions between turns (\<open>parking\<close>).  A lane that fails is corrected once, and then
  tried once more from the start.  Every transition returns a new state, which \<open>State.model_validate\<close> checks.

  The records carry the fields of the code under a two-letter prefix.  Counts are \<^typ>\<open>nat\<close>, since the schemas refuse
  negative ones; clocks are \<^typ>\<open>int\<close>.
\<close>

section \<open>Data\<close>

datatype lane_phase = Work_Phase | Validate_Phase | Correction_Phase | Recheck_Phase | Passed_Phase | Attention_Phase

datatype lane_reason = Disabled | Dirty_Base | Invalid_Base | Missing_Scope | Invalid_Scope | Overlap | Shared_Resource
  | Unsupported_Dispatch | Integration_Disabled | Invalid_Lanes | Over_Budget | Product_Failure | Noncorrectable
  | Ambiguous_Send | Restarted | Expired | Stopped_Lane | Past_Deadline | Extra_Generation | No_Parking

fun priority :: "lane_phase \<Rightarrow> nat option" where
  "priority Recheck_Phase = Some 0"
| "priority Correction_Phase = Some 1"
| "priority Validate_Phase = Some 2"
| "priority Work_Phase = Some 3"
| "priority _ = None"

record lane_spec =
  sp_id :: string
  sp_writes :: "string list"
  sp_targets :: "string list"
  sp_resources :: "string list"
  sp_auto_merge :: bool

record lane_config =
  lc_enabled :: bool
  lc_capacity :: nat
  lc_parking :: nat
  lc_budget :: nat
  lc_final :: nat
  lc_reuse :: bool
  lc_streaming :: bool
  lc_timeout :: nat

datatype turn_status = Reserved | Sent | Acked | Completed | Uncertain | Cancelled

datatype turn_outcome = Sealed | Judged_Pass | Judged_Defect | Other_Outcome

record lane_turn =
  tn_ordinal :: nat
  tn_phase :: lane_phase
  tn_generation :: nat
  tn_session :: string
  tn_process :: string
  tn_candidate :: "nat option"
  tn_targets :: "string list"
  tn_reserved_at :: int
  tn_deadline :: int
  tn_status :: turn_status
  tn_outcome :: "turn_outcome option"

datatype lease_role = Lease_Worker | Lease_Validator

record lane_lease =
  ls_role :: lease_role
  ls_session :: string
  ls_process :: string
  ls_parked_at :: int

record lane =
  ln_spec :: lane_spec
  ln_phase :: lane_phase
  ln_admitted :: bool
  ln_generation :: nat
  ln_candidate :: "nat option"
  ln_correction :: bool
  ln_reuse :: bool
  ln_parking :: nat
  ln_leases :: "lane_lease list"
  ln_turns :: "lane_turn list"
  ln_active :: "nat option"
  ln_blocking :: "lane_reason option"
  ln_history :: "lane_reason list"

datatype lane_halt = Halt_Budget | Halt_Stopped

record lane_state =
  sm_config :: lane_config
  sm_base :: string
  sm_lanes :: "lane list"
  sm_now :: int
  sm_halt :: "lane_halt option"

section \<open>The checks of the schemas\<close>

datatype bound_error = Malformed | Active_Capacity | Parking_Capacity | Parked_Capacity | Reuse_Capacity | Turn_Budget
  | Lane_Bound | Active_Identity

datatype lane_error = Invalid_State bound_error | Unknown_Lane | Inactive_Turn | Transmission_Order | Dispatch_Halted
  | Unacknowledged_Turn | Role_Outcome | Clock_Reversed | Recovery_Forbidden

definition lane_id_ok :: "string \<Rightarrow> bool" where
  "lane_id_ok s \<longleftrightarrow> 1 \<le> length s \<and> length s \<le> 64 \<and> list_all (\<lambda>c. is_alnum c \<or> c \<in> set ''_-'') s"

definition spec_ok :: "lane_spec \<Rightarrow> bool" where
  "spec_ok sp \<longleftrightarrow> lane_id_ok (sp_id sp) \<and> sp_targets sp \<noteq> []"

definition config_ok :: "lane_config \<Rightarrow> bool" where
  "config_ok c \<longleftrightarrow> 1 \<le> lc_capacity c \<and> lc_parking c \<le> 4 \<and> 2 \<le> lc_budget c \<and> 2 \<le> lc_final c
     \<and> 1 \<le> lc_timeout c \<and> lc_timeout c \<le> 300"

definition active_count :: "lane_state \<Rightarrow> nat" where
  "active_count st = length (filter (\<lambda>l. ln_active l \<noteq> None) (sm_lanes st))"

definition parked_count :: "lane_state \<Rightarrow> nat" where
  "parked_count st = sum_list (map (\<lambda>l. length (ln_leases l)) (sm_lanes st))"

definition turn_count :: "lane_state \<Rightarrow> nat" where
  "turn_count st = sum_list (map (\<lambda>l. length (ln_turns l)) (sm_lanes st))"

definition parking_sum :: "lane_state \<Rightarrow> nat" where
  "parking_sum st = sum_list (map ln_parking (sm_lanes st))"

definition lanes_halted :: "lane_state \<Rightarrow> bool" where
  "lanes_halted st \<longleftrightarrow> sm_halt st \<noteq> None \<or> list_ex (\<lambda>l. ln_blocking l \<noteq> None) (sm_lanes st)"

text \<open>\<open>State.bounds\<close>, the lanes in order.\<close>

fun lane_bounds :: "lane list \<Rightarrow> bound_error option" where
  "lane_bounds [] = None"
| "lane_bounds (l # ls) =
    (if 6 < length (ln_turns l) \<or> ln_generation l \<notin> {0, 1} then Some Lane_Bound
     else if ln_active l \<noteq> None \<and> (ln_turns l = [] \<or> the (ln_active l) \<noteq> length (ln_turns l) - 1) then Some Active_Identity
     else lane_bounds ls)"

definition bounds :: "lane_state \<Rightarrow> bound_error option" where
  "bounds st =
    (if min (lc_capacity (sm_config st)) 4 < active_count st then Some Active_Capacity
     else if lc_parking (sm_config st) < parking_sum st then Some Parking_Capacity
     else if lc_parking (sm_config st) < parked_count st then Some Parked_Capacity
     else if 1 < length (filter ln_reuse (sm_lanes st)) then Some Reuse_Capacity
     else if lc_budget (sm_config st) < turn_count st + lc_final (sm_config st) then Some Turn_Budget
     else lane_bounds (sm_lanes st))"

text \<open>\<open>State.model_validate\<close>: the constraints of the fields first, then the validator of the model.\<close>

definition validated :: "lane_state \<Rightarrow> lane_error + lane_state" where
  "validated st =
    (if sm_now st < 0 \<or> \<not> config_ok (sm_config st) \<or> \<not> list_all (\<lambda>l. spec_ok (ln_spec l)) (sm_lanes st)
     then Inl (Invalid_State Malformed)
     else case bounds st of Some e \<Rightarrow> Inl (Invalid_State e) | None \<Rightarrow> Inr st)"

definition bind_sum :: "'e + 'a \<Rightarrow> ('a \<Rightarrow> 'e + 'b) \<Rightarrow> 'e + 'b" where
  "bind_sum m f = (case m of Inl e \<Rightarrow> Inl e | Inr a \<Rightarrow> f a)"

lemma bind_sum_simps [simp]: "bind_sum (Inl e) f = Inl e" "bind_sum (Inr a) f = f a"
  by (simp_all add: bind_sum_def)

definition replace_lane :: "lane_state \<Rightarrow> nat \<Rightarrow> lane \<Rightarrow> lane_error + lane_state" where
  "replace_lane st i l = validated (st\<lparr>sm_lanes := (sm_lanes st)[i := l]\<rparr>)"

fun index_from :: "nat \<Rightarrow> lane list \<Rightarrow> string \<Rightarrow> nat option" where
  "index_from i [] _ = None"
| "index_from i (l # ls) lid = (if sp_id (ln_spec l) = lid then Some i else index_from (Suc i) ls lid)"

definition lane_index :: "lane_state \<Rightarrow> string \<Rightarrow> lane_error + nat" where
  "lane_index st lid = (case index_from 0 (sm_lanes st) lid of None \<Rightarrow> Inl Unknown_Lane | Some i \<Rightarrow> Inr i)"

section \<open>Admission\<close>

record lane_admission =
  ad_reason :: "lane_reason option"
  ad_state :: "lane_state option"

definition hex_base :: "string \<Rightarrow> bool" where
  "hex_base b \<longleftrightarrow> length b = 40 \<and> list_all (\<lambda>c. c \<in> set ''0123456789abcdef'') b"

definition bad_scope :: "string \<Rightarrow> bool" where
  "bad_scope p \<longleftrightarrow> p = [] \<or> CHR 0x5C \<in> set p \<or> list_ex (\<lambda>c. c \<in> set [CHR ''*'', CHR ''?'', CHR ''['', CHR '']'', CHR 0x0A, CHR 0x0D, CHR 0x00]) p
     \<or> list_ex (\<lambda>part. part \<in> {'''', ''.'', ''..'', ''.git''}) (split_on (CHR ''/'') p) \<or> p \<noteq> py_strip p"

definition scopes_clash :: "string \<Rightarrow> string \<Rightarrow> bool" where
  "scopes_clash a b \<longleftrightarrow> a = b \<or> prefix (b @ ''/'') a \<or> prefix (a @ ''/'') b"

fun any_pair :: "('a \<Rightarrow> 'a \<Rightarrow> bool) \<Rightarrow> 'a list \<Rightarrow> bool" where
  "any_pair P [] = False"
| "any_pair P (x # xs) = (list_ex (P x) xs \<or> any_pair P xs)"

definition admission_reason :: "lane_spec list \<Rightarrow> string \<Rightarrow> bool \<Rightarrow> bool \<Rightarrow> lane_config \<Rightarrow> lane_reason option" where
  "admission_reason specs base clean isolated_dispatch cfg =
    (if \<not> lc_enabled cfg then Some Disabled
     else if \<not> clean then Some Dirty_Base
     else if \<not> hex_base base then Some Invalid_Base
     else if \<not> isolated_dispatch then Some Unsupported_Dispatch
     else if \<not> (1 \<le> length specs \<and> length specs \<le> 4) \<or> \<not> distinct (map sp_id specs) then Some Invalid_Lanes
     else if lc_reuse cfg \<and> lc_parking cfg < 2 then Some No_Parking
     else if list_ex (\<lambda>sp. \<not> sp_auto_merge sp) specs then Some Integration_Disabled
     else if list_ex (\<lambda>sp. sp_writes sp = []) specs then Some Missing_Scope
     else let paths = concat (map sp_writes specs); resources = concat (map sp_resources specs) in
       if list_ex bad_scope paths then Some Invalid_Scope
       else if any_pair scopes_clash paths then Some Overlap
       else if \<not> distinct resources then Some Shared_Resource
       else if lc_budget cfg < 2 * length specs + lc_final cfg then Some Over_Budget
       else None)"

definition fresh_lane :: "lane_config \<Rightarrow> nat \<Rightarrow> lane_spec \<Rightarrow> lane" where
  "fresh_lane cfg i sp = \<lparr>ln_spec = sp, ln_phase = Work_Phase, ln_admitted = False, ln_generation = 0, ln_candidate = None,
     ln_correction = False, ln_reuse = lc_reuse cfg \<and> i = 0, ln_parking = 0, ln_leases = [], ln_turns = [],
     ln_active = None, ln_blocking = None, ln_history = []\<rparr>"

text \<open>The specs and the configuration are instances of their schemas: what those refuse is the caller's error.\<close>

definition admit :: "lane_spec list \<Rightarrow> string \<Rightarrow> bool \<Rightarrow> bool \<Rightarrow> lane_config \<Rightarrow> lane_error + lane_admission" where
  "admit specs base clean isolated_dispatch cfg =
    (if \<not> config_ok cfg \<or> \<not> list_all spec_ok specs then Inl (Invalid_State Malformed)
     else case admission_reason specs base clean isolated_dispatch cfg of
       Some r \<Rightarrow> Inr \<lparr>ad_reason = Some r, ad_state = None\<rparr>
     | None \<Rightarrow> bind_sum (validated \<lparr>sm_config = cfg, sm_base = base, sm_lanes = map (\<lambda>(i, sp). fresh_lane cfg i sp) (enumerate 0 specs),
                  sm_now = 0, sm_halt = None\<rparr>)
         (\<lambda>st. Inr \<lparr>ad_reason = None, ad_state = Some st\<rparr>))"

section \<open>Attention and closing\<close>

definition close_parked :: "lane_state \<Rightarrow> lane_error + lane_state" where
  "close_parked st = validated (st\<lparr>sm_lanes := map (\<lambda>l. l\<lparr>ln_leases := [], ln_parking := 0\<rparr>) (sm_lanes st)\<rparr>)"

definition set_last_status :: "turn_status \<Rightarrow> lane_turn list \<Rightarrow> lane_turn list" where
  "set_last_status s ts = butlast ts @ [(last ts)\<lparr>tn_status := s\<rparr>]"

definition blocked_lane :: "lane_reason \<Rightarrow> bool \<Rightarrow> lane \<Rightarrow> lane" where
  "blocked_lane reason uncertain l = l\<lparr>ln_phase := Attention_Phase, ln_active := None,
     ln_turns := (if ln_active l \<noteq> None then set_last_status (if uncertain then Uncertain else Cancelled) (ln_turns l) else ln_turns l),
     ln_leases := [], ln_parking := 0, ln_blocking := Some reason, ln_history := ln_history l @ [reason]\<rparr>"

definition attention :: "lane_state \<Rightarrow> nat \<Rightarrow> lane_reason \<Rightarrow> bool \<Rightarrow> lane_error + lane_state" where
  "attention st i reason uncertain =
    bind_sum (replace_lane st i (blocked_lane reason uncertain (sm_lanes st ! i))) close_parked"

section \<open>Reservations\<close>

definition ready_lanes :: "lane_state \<Rightarrow> string list" where
  "ready_lanes st =
    (if lanes_halted st then []
     else let lanes = filter (\<lambda>(i, l). ln_active l = None \<and> priority (ln_phase l) \<noteq> None) (enumerate 0 (sm_lanes st));
              lanes = (if lc_streaming (sm_config st) then lanes
                       else filter (\<lambda>(i, l). ln_phase l \<noteq> Validate_Phase
                              \<or> list_all (\<lambda>sibling. 0 < ln_generation sibling \<or> ln_candidate sibling \<noteq> None) (sm_lanes st)) lanes)
          in map (\<lambda>(i, l). sp_id (ln_spec l))
               (sort_key (\<lambda>(i, l). (if ln_admitted l then the (priority (ln_phase l)) else 4, i)) lanes))"

definition lease_role_of :: "lane_phase \<Rightarrow> lease_role" where
  "lease_role_of ph = (if ph \<in> {Work_Phase, Correction_Phase} then Lease_Worker else Lease_Validator)"

definition role_name :: "lease_role \<Rightarrow> string" where
  "role_name r = (case r of Lease_Worker \<Rightarrow> ''worker'' | Lease_Validator \<Rightarrow> ''validator'')"

definition needs_parking :: "lane \<Rightarrow> bool" where
  "needs_parking l \<longleftrightarrow> ln_reuse l \<and> ln_generation l = 0"

definition turn_identity :: "lane \<Rightarrow> string" where
  "turn_identity l = sp_id (ln_spec l) @ '':'' @ role_name (lease_role_of (ln_phase l)) @ '':'' @ show_nat (ln_generation l)
     @ (if needs_parking l then [] else '':'' @ show_nat (length (ln_turns l)))"

definition old_lease :: "lane \<Rightarrow> lane_lease option" where
  "old_lease l = find (\<lambda>x. ls_role x = lease_role_of (ln_phase l)) (ln_leases l)"

definition new_turn :: "lane_state \<Rightarrow> lane \<Rightarrow> lane_turn" where
  "new_turn st l = \<lparr>tn_ordinal = length (ln_turns l), tn_phase = ln_phase l, tn_generation = ln_generation l,
     tn_session = (case old_lease l of Some x \<Rightarrow> ls_session x | None \<Rightarrow> turn_identity l),
     tn_process = (case old_lease l of Some x \<Rightarrow> ls_process x | None \<Rightarrow> turn_identity l),
     tn_candidate = ln_candidate l, tn_targets = sp_targets (ln_spec l), tn_reserved_at = sm_now st,
     tn_deadline = sm_now st + int (lc_timeout (sm_config st)), tn_status = Reserved, tn_outcome = None\<rparr>"

definition reserved_lane :: "lane_state \<Rightarrow> lane \<Rightarrow> lane" where
  "reserved_lane st l = l\<lparr>ln_admitted := True, ln_active := Some (length (ln_turns l)), ln_turns := ln_turns l @ [new_turn st l],
     ln_parking := (if needs_parking l then 2 else 0),
     ln_leases := filter (\<lambda>x. ls_role x \<noteq> lease_role_of (ln_phase l)) (ln_leases l),
     ln_correction := ln_correction l \<or> ln_phase l = Correction_Phase\<rparr>"

fun reserve_among :: "lane_state \<Rightarrow> string list \<Rightarrow> lane_error + lane_state" where
  "reserve_among st [] = Inr st"
| "reserve_among st (lid # lids) = bind_sum (lane_index st lid) (\<lambda>i.
     let l = sm_lanes st ! i; reserved = (if needs_parking l then 2 else 0) in
     if ln_parking l < reserved \<and> lc_parking (sm_config st) < parking_sum st + reserved then reserve_among st lids
     else if 6 \<le> length (ln_turns l) \<or> ln_phase l = Correction_Phase \<and> ln_correction l then attention st i Extra_Generation False
     else if needs_parking l \<and> ln_phase l \<in> {Correction_Phase, Recheck_Phase} \<and> old_lease l = None
     then attention st i Expired False
     else replace_lane st i (reserved_lane st l))"

definition reserve_next :: "lane_state \<Rightarrow> lane_error + lane_state" where
  "reserve_next st =
    (if lanes_halted st \<or> min (lc_capacity (sm_config st)) 4 \<le> active_count st then Inr st
     else let candidates = ready_lanes st in
       if candidates = [] then Inr st
       else if lc_budget (sm_config st) - lc_final (sm_config st) \<le> turn_count st
       then bind_sum (validated (st\<lparr>sm_halt := Some Halt_Budget\<rparr>)) close_parked
       else reserve_among st candidates)"

section \<open>Sending and completing a turn\<close>

definition transmission :: "lane_state \<Rightarrow> string \<Rightarrow> nat \<Rightarrow> turn_status \<Rightarrow> lane_error + lane_state" where
  "transmission st lid ordinal status = bind_sum (lane_index st lid) (\<lambda>i.
     let l = sm_lanes st ! i in
     if ln_active l \<noteq> Some ordinal then Inl Inactive_Turn
     else let turn = ln_turns l ! ordinal in
       if status = Uncertain then attention st i Ambiguous_Send True
       else if (tn_status turn, status) \<notin> {(Reserved, Sent), (Sent, Acked)} then Inl Transmission_Order
       else if status = Sent \<and> lanes_halted st then Inl Dispatch_Halted
       else replace_lane st i (l\<lparr>ln_turns := butlast (ln_turns l) @ [turn\<lparr>tn_status := status\<rparr>]\<rparr>))"

definition completed_lane :: "lane_state \<Rightarrow> lane \<Rightarrow> lane_turn \<Rightarrow> turn_outcome \<Rightarrow> lane" where
  "completed_lane st l turn outcome = l\<lparr>ln_active := None,
     ln_turns := butlast (ln_turns l) @ [turn\<lparr>tn_status := Completed, tn_outcome := Some outcome\<rparr>],
     ln_leases := (if ln_reuse l \<and> ln_generation l = 0 \<and> \<not> lanes_halted st
       then ln_leases l @ [\<lparr>ls_role = lease_role_of (tn_phase turn), ls_session = tn_session turn, ls_process = tn_process turn,
                            ls_parked_at = sm_now st\<rparr>]
       else ln_leases l)\<rparr>"

definition complete :: "lane_state \<Rightarrow> string \<Rightarrow> nat \<Rightarrow> turn_outcome \<Rightarrow> lane_error + lane_state" where
  "complete st0 lid ordinal outcome = bind_sum (lane_index st0 lid) (\<lambda>i.
     let l0 = sm_lanes st0 ! i in
     if ln_active l0 \<noteq> Some ordinal \<or> tn_status (ln_turns l0 ! ordinal) \<noteq> Acked then Inl Unacknowledged_Turn
     else let turn = ln_turns l0 ! ordinal; worker = tn_phase turn \<in> {Work_Phase, Correction_Phase} in
       if worker \<and> outcome \<notin> {Sealed, Other_Outcome} \<or> \<not> worker \<and> outcome = Sealed then Inl Role_Outcome
       else let l = completed_lane st0 l0 turn outcome in
         bind_sum (replace_lane st0 i l) (\<lambda>st.
           if outcome = Other_Outcome then attention st i Noncorrectable False
           else if worker then replace_lane st i
             (l\<lparr>ln_candidate := Some (case ln_candidate l of None \<Rightarrow> 0 | Some c \<Rightarrow> c + 1),
                ln_phase := (if tn_phase turn = Correction_Phase then Recheck_Phase else Validate_Phase)\<rparr>)
           else if outcome = Judged_Pass then replace_lane st i (l\<lparr>ln_phase := Passed_Phase, ln_leases := [], ln_parking := 0\<rparr>)
           else if ln_generation l = 1 then attention st i Product_Failure False
           else let l = l\<lparr>ln_history := ln_history l @ [Product_Failure]\<rparr> in
             bind_sum (replace_lane st i l) (\<lambda>st.
               if \<not> ln_correction l then replace_lane st i (l\<lparr>ln_phase := Correction_Phase\<rparr>)
               else replace_lane st i (l\<lparr>ln_phase := Work_Phase, ln_generation := 1, ln_leases := [], ln_parking := 0\<rparr>))))"

section \<open>Clocks, stops and restarts\<close>

fun each_lane :: "nat list \<Rightarrow> (lane_state \<Rightarrow> nat \<Rightarrow> lane_error + lane_state) \<Rightarrow> lane_state \<Rightarrow> lane_error + lane_state" where
  "each_lane [] f st = Inr st"
| "each_lane (i # is) f st = bind_sum (f st i) (each_lane is f)"

definition expire_lane :: "int \<Rightarrow> lane_state \<Rightarrow> nat \<Rightarrow> lane_error + lane_state" where
  "expire_lane now st i = (let l = sm_lanes st ! i in
     if ln_active l \<noteq> None \<and> tn_deadline (ln_turns l ! the (ln_active l)) \<le> now then attention st i Past_Deadline False
     else if list_ex (\<lambda>x. ls_parked_at x + 3600 \<le> now) (ln_leases l) then attention st i Expired False
     else Inr st)"

definition advance :: "lane_state \<Rightarrow> int \<Rightarrow> lane_error + lane_state" where
  "advance st now =
    (if now < sm_now st then Inl Clock_Reversed
     else bind_sum (validated (st\<lparr>sm_now := now\<rparr>)) (each_lane [0..<length (sm_lanes st)] (expire_lane now)))"

definition stop :: "lane_state \<Rightarrow> lane_error + lane_state" where
  "stop st = bind_sum (validated (st\<lparr>sm_halt := Some Halt_Stopped\<rparr>)) close_parked"

definition restart_lane :: "lane_state \<Rightarrow> nat \<Rightarrow> lane_error + lane_state" where
  "restart_lane st i = (let l = sm_lanes st ! i in
     if ln_active l \<noteq> None then attention st i Ambiguous_Send True
     else if ln_admitted l \<and> ln_phase l \<notin> {Passed_Phase, Attention_Phase} then attention st i Restarted False
     else Inr st)"

definition restart :: "lane_state \<Rightarrow> lane_error + lane_state" where
  "restart st = each_lane [0..<length (sm_lanes st)] restart_lane st"

definition recover_fresh :: "lane_state \<Rightarrow> string \<Rightarrow> lane_error + lane_state" where
  "recover_fresh st lid = bind_sum (lane_index st lid) (\<lambda>i.
     let l = sm_lanes st ! i in
     if sm_halt st \<noteq> None \<or> active_count st \<noteq> 0 \<or> ln_blocking l \<notin> {Some Expired, Some Restarted} \<or> ln_generation l \<noteq> 0
     then Inl Recovery_Forbidden
     else if lc_budget (sm_config st) < turn_count st + 2 + lc_final (sm_config st)
     then bind_sum (validated (st\<lparr>sm_halt := Some Halt_Budget\<rparr>)) close_parked
     else replace_lane st i (l\<lparr>ln_phase := Work_Phase, ln_generation := 1, ln_blocking := None, ln_leases := [], ln_parking := 0\<rparr>))"

section \<open>The texts\<close>

definition phase_name :: "lane_phase \<Rightarrow> string" where
  "phase_name ph = (case ph of Work_Phase \<Rightarrow> ''work'' | Validate_Phase \<Rightarrow> ''validate'' | Correction_Phase \<Rightarrow> ''correction''
     | Recheck_Phase \<Rightarrow> ''recheck'' | Passed_Phase \<Rightarrow> ''passed'' | Attention_Phase \<Rightarrow> ''attention'')"

fun reason_name :: "lane_reason \<Rightarrow> string" where
  "reason_name Disabled = ''disabled''"
| "reason_name Dirty_Base = ''dirty_base''"
| "reason_name Invalid_Base = ''invalid_base''"
| "reason_name Missing_Scope = ''missing_scope''"
| "reason_name Invalid_Scope = ''invalid_scope''"
| "reason_name Overlap = ''overlap''"
| "reason_name Shared_Resource = ''shared_resource''"
| "reason_name Unsupported_Dispatch = ''unsupported_dispatch''"
| "reason_name Integration_Disabled = ''integration_disabled''"
| "reason_name Invalid_Lanes = ''invalid_lanes''"
| "reason_name Over_Budget = ''budget''"
| "reason_name Product_Failure = ''product_failure''"
| "reason_name Noncorrectable = ''noncorrectable''"
| "reason_name Ambiguous_Send = ''ambiguous_send''"
| "reason_name Restarted = ''restart''"
| "reason_name Expired = ''expired''"
| "reason_name Stopped_Lane = ''stopped''"
| "reason_name Past_Deadline = ''deadline''"
| "reason_name Extra_Generation = ''extra_generation''"
| "reason_name No_Parking = ''parking_capacity''"

definition status_name :: "turn_status \<Rightarrow> string" where
  "status_name s = (case s of Reserved \<Rightarrow> ''reserved'' | Sent \<Rightarrow> ''sent'' | Acked \<Rightarrow> ''acked'' | Completed \<Rightarrow> ''completed''
     | Uncertain \<Rightarrow> ''uncertain'' | Cancelled \<Rightarrow> ''cancelled'')"

definition outcome_name :: "turn_outcome \<Rightarrow> string" where
  "outcome_name r = (case r of Sealed \<Rightarrow> ''sealed'' | Judged_Pass \<Rightarrow> ''pass'' | Judged_Defect \<Rightarrow> ''defect'' | Other_Outcome \<Rightarrow> ''other'')"

definition halt_name :: "lane_halt \<Rightarrow> string" where
  "halt_name h = (case h of Halt_Budget \<Rightarrow> ''budget'' | Halt_Stopped \<Rightarrow> ''stopped'')"

definition json_opt :: "('a \<Rightarrow> json) \<Rightarrow> 'a option \<Rightarrow> json" where
  "json_opt f x = (case x of None \<Rightarrow> JNull | Some a \<Rightarrow> f a)"

definition json_nat :: "nat \<Rightarrow> json" where
  "json_nat n = JInt (int n)"

definition json_strs :: "string list \<Rightarrow> json" where
  "json_strs xs = JList (map JStr xs)"

definition json_reason :: "lane_reason \<Rightarrow> json" where
  "json_reason r = JStr (reason_name r)"

definition dump_spec :: "lane_spec \<Rightarrow> json" where
  "dump_spec sp = JObj [(''id'', JStr (sp_id sp)), (''writes'', json_strs (sp_writes sp)), (''targets'', json_strs (sp_targets sp)),
     (''resources'', json_strs (sp_resources sp)), (''auto_merge'', JBool (sp_auto_merge sp))]"

definition dump_config :: "lane_config \<Rightarrow> json" where
  "dump_config c = JObj [(''enabled'', JBool (lc_enabled c)), (''capacity'', json_nat (lc_capacity c)),
     (''parking_capacity'', json_nat (lc_parking c)), (''turn_budget'', json_nat (lc_budget c)), (''final_turns'', json_nat (lc_final c)),
     (''reuse'', JBool (lc_reuse c)), (''streaming'', JBool (lc_streaming c)), (''turn_timeout'', json_nat (lc_timeout c))]"

definition dump_turn :: "lane_turn \<Rightarrow> json" where
  "dump_turn t = JObj [(''ordinal'', json_nat (tn_ordinal t)), (''phase'', JStr (phase_name (tn_phase t))),
     (''generation'', json_nat (tn_generation t)), (''session'', JStr (tn_session t)), (''process_generation'', JStr (tn_process t)),
     (''candidate'', json_opt json_nat (tn_candidate t)), (''targets'', json_strs (tn_targets t)),
     (''reserved_at'', JInt (tn_reserved_at t)), (''deadline'', JInt (tn_deadline t)), (''status'', JStr (status_name (tn_status t))),
     (''outcome'', json_opt (\<lambda>r. JStr (outcome_name r)) (tn_outcome t))]"

definition dump_lease :: "lane_lease \<Rightarrow> json" where
  "dump_lease x = JObj [(''role'', JStr (role_name (ls_role x))), (''session'', JStr (ls_session x)),
     (''process_generation'', JStr (ls_process x)), (''parked_at'', JInt (ls_parked_at x))]"

definition dump_lane :: "lane \<Rightarrow> json" where
  "dump_lane l = JObj [(''spec'', dump_spec (ln_spec l)), (''phase'', JStr (phase_name (ln_phase l))), (''admitted'', JBool (ln_admitted l)),
     (''generation'', json_nat (ln_generation l)), (''candidate'', json_opt json_nat (ln_candidate l)),
     (''correction_reserved'', JBool (ln_correction l)), (''reuse_owner'', JBool (ln_reuse l)),
     (''parking_reserved'', json_nat (ln_parking l)), (''leases'', JList (map dump_lease (ln_leases l))),
     (''turns'', JList (map dump_turn (ln_turns l))), (''active'', json_opt json_nat (ln_active l)),
     (''blocking'', json_opt json_reason (ln_blocking l)), (''history'', JList (map json_reason (ln_history l)))]"

definition dump_state :: "lane_state \<Rightarrow> string" where
  "dump_state st = canonical_json_bytes (JObj [(''schema_version'', JInt 1), (''config'', dump_config (sm_config st)),
     (''base'', JStr (sm_base st)), (''lanes'', JList (map dump_lane (sm_lanes st))), (''now'', JInt (sm_now st)),
     (''halt'', json_opt (\<lambda>h. JStr (halt_name h)) (sm_halt st))])"

text \<open>What a lane shows of itself, without clocks, sessions and leases.\<close>

definition project_turn :: "lane_turn \<Rightarrow> json" where
  "project_turn t = JObj [(''ordinal'', json_nat (tn_ordinal t)), (''phase'', JStr (phase_name (tn_phase t))),
     (''generation'', json_nat (tn_generation t)), (''candidate'', json_opt json_nat (tn_candidate t)),
     (''targets'', json_strs (tn_targets t)), (''status'', JStr (status_name (tn_status t))),
     (''outcome'', json_opt (\<lambda>r. JStr (outcome_name r)) (tn_outcome t))]"

definition project_lane :: "lane \<Rightarrow> json" where
  "project_lane l = JObj [(''id'', JStr (sp_id (ln_spec l))), (''phase'', JStr (phase_name (ln_phase l))),
     (''candidate'', json_opt json_nat (ln_candidate l)), (''generation'', json_nat (ln_generation l)),
     (''correction_reserved'', JBool (ln_correction l)), (''reuse_owner'', JBool (ln_reuse l)),
     (''targets'', json_strs (sp_targets (ln_spec l))), (''history'', JList (map json_reason (ln_history l))),
     (''blocking'', json_opt json_reason (ln_blocking l)), (''turns'', JList (map project_turn (ln_turns l)))]"

definition eligible_state :: "lane_state \<Rightarrow> bool" where
  "eligible_state st \<longleftrightarrow> \<not> lanes_halted st \<and> list_all (\<lambda>l. ln_phase l = Passed_Phase) (sm_lanes st)"

definition projection :: "lane_state \<Rightarrow> string" where
  "projection st = canonical_json_bytes (JObj
     [(''disposition'', JStr (if eligible_state st then ''integration_ready'' else ''incomplete'')),
      (''integration'', json_strs (if eligible_state st then map (\<lambda>l. sp_id (ln_spec l)) (sm_lanes st) else [])),
      (''final_targets'', json_strs (sorted_set (concat (map (\<lambda>l. sp_targets (ln_spec l)) (sm_lanes st))))),
      (''final_turns_reserved'', json_nat (lc_final (sm_config st))), (''final_gate'', JStr ''pending''),
      (''halt'', json_opt (\<lambda>h. JStr (halt_name h)) (sm_halt st)), (''lanes'', JList (map project_lane (sm_lanes st)))])"

section \<open>Steps\<close>

text \<open>The state an admission hands out, and the transitions of its caller, as they return.\<close>

inductive lane_step :: "lane_state \<Rightarrow> lane_state \<Rightarrow> bool" where
  reserving: "reserve_next st = Inr st' \<Longrightarrow> lane_step st st'"
| sending: "transmission st lid ordinal status = Inr st' \<Longrightarrow> lane_step st st'"
| completing: "complete st lid ordinal outcome = Inr st' \<Longrightarrow> lane_step st st'"
| ticking: "advance st now = Inr st' \<Longrightarrow> lane_step st st'"
| stopping: "stop st = Inr st' \<Longrightarrow> lane_step st st'"
| restarting: "restart st = Inr st' \<Longrightarrow> lane_step st st'"
| recovering: "recover_fresh st lid = Inr st' \<Longrightarrow> lane_step st st'"

inductive_cases lane_step_cases: "lane_step st st'"

definition admitted_state :: "lane_state \<Rightarrow> bool" where
  "admitted_state st \<longleftrightarrow> (\<exists>specs base clean isolated_dispatch cfg.
     admit specs base clean isolated_dispatch cfg = Inr \<lparr>ad_reason = None, ad_state = Some st\<rparr>)"

end
