(* ===== verification/Retained_Lanes_Proofs.thy ===== *)
theory Retained_Lanes_Proofs
  imports Retained_Lanes
begin

text \<open>
  The invariant of retained lanes, and what it gives: the checks of the schemas never refuse a transition, a lane
  that passed was judged on its last candidate, and work goes on until every lane has passed or one halts.
\<close>

section \<open>Sums over the lanes\<close>

lemma sum_list_replace:
  "i < length xs \<Longrightarrow> sum_list (map f (xs[i := x])) + f (xs ! i) = sum_list (map f xs) + (f x :: nat)"
  by (induction xs arbitrary: i) (auto split: nat.split)

lemma length_filter_sum: "length (filter P xs) = sum_list (map (\<lambda>x. if P x then 1 else 0 :: nat) xs)"
  by (induction xs) auto

lemma sum_list_le_filter:
  "(\<And>x. x \<in> set xs \<Longrightarrow> f x \<le> (if P x then c else 0)) \<Longrightarrow> sum_list (map f xs) \<le> c * length (filter P xs)" for f :: "'a \<Rightarrow> nat"
proof (induction xs)
  case (Cons x xs)
  have "sum_list (map f xs) \<le> c * length (filter P xs)" using Cons.IH Cons.prems by (meson list.set_intros(2))
  moreover have "f x \<le> (if P x then c else 0)" using Cons.prems by (meson list.set_intros(1))
  ultimately show ?case by (cases "P x") auto
qed simp

lemma filter_replace_less:
  assumes "i < length xs" "P x \<Longrightarrow> P (xs ! i)"
  shows "length (filter P (xs[i := x])) \<le> length (filter P xs)"
  using sum_list_replace[OF assms(1), of "\<lambda>x. if P x then 1 else 0" x] assms(2)
  by (auto simp: length_filter_sum split: if_split_asm)

lemma filter_replace_eq:
  assumes "i < length xs" "P x = P (xs ! i)"
  shows "length (filter P (xs[i := x])) = length (filter P xs)"
  using sum_list_replace[OF assms(1), of "\<lambda>x. if P x then 1 else 0" x] assms(2)
  by (auto simp: length_filter_sum split: if_split_asm)

lemma sum_replace_le:
  "i < length xs \<Longrightarrow> f x \<le> f (xs ! i) \<Longrightarrow> sum_list (map f (xs[i := x])) \<le> (sum_list (map f xs) :: nat)"
  using sum_list_replace[of i xs f x] by linarith

lemma in_set_update:
  assumes "x \<in> set (xs[i := y])"
  shows "x = y \<or> (\<exists>j. j < length xs \<and> j \<noteq> i \<and> x = xs ! j)"
proof -
  obtain j where "j < length (xs[i := y])" "(xs[i := y]) ! j = x" using assms unfolding in_set_conv_nth by blast
  then show ?thesis by (cases "j = i") auto
qed

lemma lane_index_iff:
  "lane_index st lid = Inr i \<Longrightarrow> i < length (sm_lanes st) \<and> sp_id (ln_spec (sm_lanes st ! i)) = lid"
proof -
  have gen: "index_from k ls lid = Some i \<Longrightarrow> k \<le> i \<and> i < k + length ls \<and> sp_id (ln_spec (ls ! (i - k))) = lid" for k ls
    by (induction ls arbitrary: k) (fastforce split: if_split_asm simp: nth_Cons')+
  show "lane_index st lid = Inr i \<Longrightarrow> ?thesis"
    using gen[of 0 "sm_lanes st"] by (auto simp: lane_index_def split: option.splits)
qed

lemma lane_index_finds:
  assumes "distinct (map (\<lambda>l. sp_id (ln_spec l)) (sm_lanes st))" "i < length (sm_lanes st)"
  shows "lane_index st (sp_id (ln_spec (sm_lanes st ! i))) = Inr i"
proof -
  have gen: "distinct (map (\<lambda>l. sp_id (ln_spec l)) ls) \<Longrightarrow> j < length ls \<Longrightarrow> index_from k ls (sp_id (ln_spec (ls ! j))) = Some (k + j)" for k j ls
  proof (induction ls arbitrary: k j)
    case (Cons l ls)
    then show ?case by (cases j) (fastforce simp: in_set_conv_nth)+
  qed simp
  show ?thesis using gen[OF assms, of 0] by (simp add: lane_index_def)
qed

section \<open>What the schemas ask for\<close>

definition lane_fits :: "lane \<Rightarrow> bool" where
  "lane_fits l \<longleftrightarrow> spec_ok (ln_spec l) \<and> ln_generation l \<le> 1 \<and> length (ln_turns l) \<le> 6
     \<and> (ln_active l \<noteq> None \<longrightarrow> ln_turns l \<noteq> [] \<and> ln_active l = Some (length (ln_turns l) - 1))
     \<and> ln_parking l \<in> {0, 2} \<and> (ln_parking l \<noteq> 0 \<longrightarrow> ln_reuse l) \<and> length (ln_leases l) \<le> ln_parking l"

definition fits :: "lane_state \<Rightarrow> bool" where
  "fits st \<longleftrightarrow> config_ok (sm_config st) \<and> 0 \<le> sm_now st \<and> (\<forall>l \<in> set (sm_lanes st). lane_fits l)
     \<and> length (filter ln_reuse (sm_lanes st)) \<le> 1
     \<and> (filter ln_reuse (sm_lanes st) \<noteq> [] \<longrightarrow> 2 \<le> lc_parking (sm_config st))
     \<and> active_count st \<le> min (lc_capacity (sm_config st)) 4
     \<and> turn_count st + lc_final (sm_config st) \<le> lc_budget (sm_config st)"

lemma lane_bounds_None: "\<forall>l \<in> set ls. lane_fits l \<Longrightarrow> lane_bounds ls = None"
  by (induction ls) (auto simp: lane_fits_def)

lemma fits_parking:
  assumes "fits st"
  shows "parking_sum st \<le> lc_parking (sm_config st)" "parked_count st \<le> parking_sum st"
proof -
  have lanes: "ln_parking l \<le> (if ln_reuse l then 2 else 0)" if "l \<in> set (sm_lanes st)" for l
    using assms that by (auto simp: fits_def lane_fits_def)
  have "parking_sum st \<le> 2 * length (filter ln_reuse (sm_lanes st))"
    unfolding parking_sum_def by (rule sum_list_le_filter) (rule lanes)
  then show "parking_sum st \<le> lc_parking (sm_config st)"
    using assms by (cases "filter ln_reuse (sm_lanes st)") (auto simp: fits_def)
  show "parked_count st \<le> parking_sum st"
    unfolding parked_count_def parking_sum_def using assms
    by (intro sum_list_mono) (auto simp: fits_def lane_fits_def)
qed

lemma fits_validated: "fits st \<Longrightarrow> validated st = Inr st"
  using fits_parking[of st] lane_bounds_None[of "sm_lanes st"]
  by (auto simp: validated_def bounds_def fits_def list_all_iff lane_fits_def)

lemma fits_replace:
  assumes fit: "fits st" and i: "i < length (sm_lanes st)" and l: "lane_fits l"
    and same: "ln_reuse l = ln_reuse (sm_lanes st ! i)" "ln_active l \<noteq> None \<Longrightarrow> ln_active (sm_lanes st ! i) \<noteq> None"
      "length (ln_turns l) \<le> length (ln_turns (sm_lanes st ! i))"
  shows "fits (st\<lparr>sm_lanes := (sm_lanes st)[i := l]\<rparr>)" "replace_lane st i l = Inr (st\<lparr>sm_lanes := (sm_lanes st)[i := l]\<rparr>)"
proof -
  let ?st = "st\<lparr>sm_lanes := (sm_lanes st)[i := l]\<rparr>"
  have reuse: "length (filter ln_reuse (sm_lanes ?st)) = length (filter ln_reuse (sm_lanes st))"
    using i same(1) by (simp add: filter_replace_eq)
  have "active_count ?st \<le> active_count st" unfolding active_count_def using i same(2) by (simp add: filter_replace_less)
  moreover have "turn_count ?st \<le> turn_count st" unfolding turn_count_def using i same(3) by (simp add: sum_replace_le)
  moreover have "\<forall>x \<in> set (sm_lanes ?st). lane_fits x"
    using fit l set_update_subset_insert[of "sm_lanes st" i l] by (auto simp: fits_def)
  moreover have "filter ln_reuse (sm_lanes ?st) = [] \<longleftrightarrow> filter ln_reuse (sm_lanes st) = []"
    using reuse by (metis length_0_conv)
  ultimately show "fits ?st" using fit reuse unfolding fits_def by simp
  then show "replace_lane st i l = Inr ?st" by (simp add: replace_lane_def fits_validated)
qed

lemma fits_close:
  assumes "fits st"
  shows "close_parked st = Inr (st\<lparr>sm_lanes := map (\<lambda>l. l\<lparr>ln_leases := [], ln_parking := 0\<rparr>) (sm_lanes st)\<rparr>)"
    and "fits (st\<lparr>sm_lanes := map (\<lambda>l. l\<lparr>ln_leases := [], ln_parking := 0\<rparr>) (sm_lanes st)\<rparr>)"
proof -
  show "fits (st\<lparr>sm_lanes := map (\<lambda>l. l\<lparr>ln_leases := [], ln_parking := 0\<rparr>) (sm_lanes st)\<rparr>)"
    using assms by (auto simp: fits_def lane_fits_def active_count_def turn_count_def filter_map o_def)
  then show "close_parked st = Inr (st\<lparr>sm_lanes := map (\<lambda>l. l\<lparr>ln_leases := [], ln_parking := 0\<rparr>) (sm_lanes st)\<rparr>)"
    by (simp add: close_parked_def fits_validated)
qed

section \<open>The life of a lane\<close>

definition turn_open :: "lane_turn \<Rightarrow> bool" where
  "turn_open t \<longleftrightarrow> tn_status t \<in> {Reserved, Sent, Acked}"

fun phase_limit :: "lane_phase \<Rightarrow> nat \<Rightarrow> nat" where
  "phase_limit Work_Phase g = 4 * g"
| "phase_limit Validate_Phase g = 4 * g + 1"
| "phase_limit Correction_Phase g = 2"
| "phase_limit Recheck_Phase g = 3"
| "phase_limit _ g = 4 + 2 * g"

definition judged_pass :: "lane \<Rightarrow> bool" where
  "judged_pass l \<longleftrightarrow> ln_turns l \<noteq> [] \<and> ln_candidate l \<noteq> None
     \<and> (case last (ln_turns l) of t \<Rightarrow> tn_phase t \<in> {Validate_Phase, Recheck_Phase} \<and> tn_status t = Completed
          \<and> tn_outcome t = Some Judged_Pass \<and> tn_candidate t = ln_candidate l \<and> tn_targets t = sp_targets (ln_spec l))"

definition turns_ok :: "lane \<Rightarrow> bool" where
  "turns_ok l \<longleftrightarrow> length (ln_turns l) \<le> phase_limit (ln_phase l) (ln_generation l) + (if ln_active l = None then 0 else 1)
     \<and> (\<forall>t \<in> set (if ln_active l = None then ln_turns l else butlast (ln_turns l)). \<not> turn_open t)
     \<and> (\<forall>t \<in> set (ln_turns l). tn_targets t = sp_targets (ln_spec l))
     \<and> (ln_turns l \<noteq> [] \<longrightarrow> ln_admitted l)
     \<and> length (filter (\<lambda>t. tn_phase t = Correction_Phase) (ln_turns l)) \<le> (if ln_correction l then 1 else 0)
     \<and> (ln_active l \<noteq> None \<longrightarrow> turn_open (last (ln_turns l)) \<and> tn_phase (last (ln_turns l)) = ln_phase l
          \<and> tn_candidate (last (ln_turns l)) = ln_candidate l \<and> lease_role_of (ln_phase l) \<notin> ls_role ` set (ln_leases l))"

definition phase_ok :: "lane \<Rightarrow> bool" where
  "phase_ok l \<longleftrightarrow> (ln_phase l \<in> {Correction_Phase, Recheck_Phase} \<longrightarrow> ln_generation l = 0)
     \<and> (ln_generation l = 0 \<and> ln_phase l \<in> {Work_Phase, Validate_Phase} \<longrightarrow> \<not> ln_correction l)
     \<and> (ln_phase l = Correction_Phase \<longrightarrow> ln_correction l = (ln_active l \<noteq> None))
     \<and> (ln_phase l = Recheck_Phase \<longrightarrow> ln_correction l)
     \<and> (ln_phase l = Attention_Phase \<longleftrightarrow> ln_blocking l \<noteq> None)
     \<and> (priority (ln_phase l) = None \<longrightarrow> ln_active l = None \<and> ln_parking l = 0)
     \<and> (ln_phase l \<in> {Validate_Phase, Recheck_Phase} \<longrightarrow> ln_candidate l \<noteq> None)
     \<and> (ln_phase l = Passed_Phase \<longrightarrow> judged_pass l)"

definition lane_ok :: "lane \<Rightarrow> bool" where
  "lane_ok l \<longleftrightarrow> lane_fits l \<and> turns_ok l \<and> phase_ok l
     \<and> distinct (map ls_role (ln_leases l)) \<and> (ln_parking l \<noteq> 0 \<longrightarrow> ln_generation l = 0)"

text \<open>While nothing is halted, an active turn of the lane that keeps its sessions has its two places reserved; as
  soon as something is, nothing is kept.\<close>

definition parking_ok :: "bool \<Rightarrow> lane \<Rightarrow> bool" where
  "parking_ok h l \<longleftrightarrow> (if h then ln_parking l = 0 else ln_active l \<noteq> None \<and> needs_parking l \<longrightarrow> ln_parking l = 2)"

definition lanes_inv :: "lane_state \<Rightarrow> bool" where
  "lanes_inv st \<longleftrightarrow> fits st \<and> distinct (map (\<lambda>l. sp_id (ln_spec l)) (sm_lanes st))
     \<and> (\<forall>l \<in> set (sm_lanes st). lane_ok l \<and> parking_ok (lanes_halted st) l)"

lemma lanes_inv_nth:
  "lanes_inv st \<Longrightarrow> i < length (sm_lanes st) \<Longrightarrow> lane_ok (sm_lanes st ! i) \<and> parking_ok (lanes_halted st) (sm_lanes st ! i)"
  by (simp add: lanes_inv_def)

lemma lanes_invD: "lanes_inv st \<Longrightarrow> fits st" by (simp add: lanes_inv_def)

lemma phase_limit_le: "g \<le> 1 \<Longrightarrow> phase_limit ph g \<le> 6" by (cases ph) auto

lemma set_last_status_simps [simp]:
  "ts \<noteq> [] \<Longrightarrow> length (set_last_status s ts) = length ts"
  by (simp add: set_last_status_def)

lemma turns_settled:
  assumes "ts \<noteq> []" "\<forall>t \<in> set (butlast ts). \<not> turn_open t" "\<not> turn_open t'"
  shows "\<forall>t \<in> set (butlast ts @ [t']). \<not> turn_open t"
  using assms by auto

lemma filter_butlast_last:
  "ts \<noteq> [] \<Longrightarrow> P t' = P (last ts) \<Longrightarrow> length (filter P (butlast ts @ [t'])) = length (filter P ts)"
  by (cases ts rule: rev_cases) auto

lemma in_set_butlast_last: "ts \<noteq> [] \<Longrightarrow> x \<in> set (butlast ts @ [t']) \<Longrightarrow> x \<in> set ts \<or> x = t'"
  by (auto dest: in_set_butlastD)

section \<open>Attention\<close>

lemma limit_attention:
  assumes "lane_ok l" "priority (ln_phase l) \<noteq> None"
  shows "length (ln_turns l) \<le> phase_limit Attention_Phase (ln_generation l)"
proof -
  have "ln_generation l = 0 \<or> ln_generation l = 1" using assms(1) by (auto simp: lane_ok_def lane_fits_def)
  then have "phase_limit (ln_phase l) (ln_generation l) + 1 \<le> phase_limit Attention_Phase (ln_generation l)"
    using assms by (cases "ln_phase l") (auto simp: lane_ok_def phase_ok_def)
  then show ?thesis using assms(1) by (auto simp: lane_ok_def turns_ok_def split: if_split_asm)
qed

lemma settled_turns_ok:
  assumes l: "lane_ok l" "ln_active l \<noteq> None"
    and l': "ln_turns l' = butlast (ln_turns l) @ [t]" "ln_active l' = None" "ln_spec l' = ln_spec l"
      "ln_admitted l' = ln_admitted l" "ln_correction l' = ln_correction l"
    and t: "\<not> turn_open t" "tn_targets t = tn_targets (last (ln_turns l))" "tn_phase t = tn_phase (last (ln_turns l))"
    and limit: "length (ln_turns l) \<le> phase_limit (ln_phase l') (ln_generation l')"
  shows "turns_ok l'"
proof -
  have ne: "ln_turns l \<noteq> []" using l by (auto simp: lane_ok_def lane_fits_def)
  have ok: "turns_ok l" using l(1) by (simp add: lane_ok_def)
  have "length (ln_turns l') = length (ln_turns l)" using ne l'(1) by simp
  then have "length (ln_turns l') \<le> phase_limit (ln_phase l') (ln_generation l') + (if ln_active l' = None then 0 else 1)"
    using limit by simp
  moreover have "\<forall>x \<in> set (if ln_active l' = None then ln_turns l' else butlast (ln_turns l')). \<not> turn_open x"
    using ok l(2) l'(1,2) t(1) by (simp add: turns_ok_def)
  moreover have "\<forall>x \<in> set (ln_turns l'). tn_targets x = sp_targets (ln_spec l')"
    using ok ne l'(1,3) t(2) by (auto simp: turns_ok_def dest: in_set_butlastD)
  moreover have "length (filter (\<lambda>t. tn_phase t = Correction_Phase) (ln_turns l'))
      = length (filter (\<lambda>t. tn_phase t = Correction_Phase) (ln_turns l))"
    unfolding l'(1) by (rule filter_butlast_last[OF ne]) (simp add: t(3))
  ultimately show ?thesis using ok ne l'(2,4,5) by (simp add: turns_ok_def)
qed

lemma blocked_lane_ok:
  assumes "lane_ok l" "priority (ln_phase l) \<noteq> None"
  shows "lane_ok (blocked_lane r u l)"
proof (cases "ln_active l = None")
  case True
  then show ?thesis using assms limit_attention[OF assms]
    by (auto simp: lane_ok_def lane_fits_def turns_ok_def phase_ok_def blocked_lane_def)
next
  case False
  have ne: "ln_turns l \<noteq> []" using assms(1) False by (auto simp: lane_ok_def lane_fits_def)
  have "turns_ok (blocked_lane r u l)"
    by (rule settled_turns_ok[OF assms(1) False, of _ "(last (ln_turns l))\<lparr>tn_status := (if u then Uncertain else Cancelled)\<rparr>"])
      (use False limit_attention[OF assms] in \<open>simp_all add: blocked_lane_def set_last_status_def turn_open_def\<close>)
  moreover have "lane_fits (blocked_lane r u l)"
    using assms(1) ne by (auto simp: lane_ok_def lane_fits_def blocked_lane_def)
  moreover have "phase_ok (blocked_lane r u l)" by (simp add: phase_ok_def blocked_lane_def)
  ultimately show ?thesis by (simp add: lane_ok_def) (simp add: blocked_lane_def)
qed

definition attended :: "lane_state \<Rightarrow> nat \<Rightarrow> lane_reason \<Rightarrow> bool \<Rightarrow> lane_state" where
  "attended st i r u = st\<lparr>sm_lanes := map (\<lambda>l. l\<lparr>ln_leases := [], ln_parking := 0\<rparr>) ((sm_lanes st)[i := blocked_lane r u (sm_lanes st ! i)])\<rparr>"

lemma closed_parts:
  "lane_fits l \<Longrightarrow> lane_fits (l\<lparr>ln_leases := [], ln_parking := 0\<rparr>)"
  "turns_ok l \<Longrightarrow> turns_ok (l\<lparr>ln_leases := [], ln_parking := 0\<rparr>)"
  "phase_ok l \<Longrightarrow> phase_ok (l\<lparr>ln_leases := [], ln_parking := 0\<rparr>)"
  by (simp add: lane_fits_def, cases "ln_active l", simp_all add: turns_ok_def phase_ok_def judged_pass_def)

lemma closed_lane_ok: "lane_ok l \<Longrightarrow> lane_ok (l\<lparr>ln_leases := [], ln_parking := 0\<rparr>)"
  by (simp add: lane_ok_def closed_parts)

lemma attention_returns:
  assumes fit: "fits st" and i: "i < length (sm_lanes st)"
  shows "attention st i r u = Inr (attended st i r u)" "fits (attended st i r u)"
proof -
  let ?l = "blocked_lane r u (sm_lanes st ! i)"
  have "lane_fits (sm_lanes st ! i)" using fit i by (simp add: fits_def)
  then have l: "lane_fits ?l" by (auto simp: lane_fits_def blocked_lane_def)
  have "length (ln_turns ?l) \<le> length (ln_turns (sm_lanes st ! i))" "ln_reuse ?l = ln_reuse (sm_lanes st ! i)" "ln_active ?l = None"
    using \<open>lane_fits (sm_lanes st ! i)\<close> by (auto simp: blocked_lane_def lane_fits_def)
  from fits_replace[OF fit i l this(2) _ this(1)] this(3)
  have "replace_lane st i ?l = Inr (st\<lparr>sm_lanes := (sm_lanes st)[i := ?l]\<rparr>)" "fits (st\<lparr>sm_lanes := (sm_lanes st)[i := ?l]\<rparr>)"
    by auto
  from this(1) fits_close[OF this(2)]
  show "attention st i r u = Inr (attended st i r u)" "fits (attended st i r u)"
    by (auto simp: attention_def attended_def)
qed


text \<open>Attention for a lane whose blocked form is a good lane, whatever it is itself.\<close>

lemma attended_inv:
  assumes fit: "fits st" and ids: "distinct (map (\<lambda>l. sp_id (ln_spec l)) (sm_lanes st))" and i: "i < length (sm_lanes st)"
    and l: "lane_ok (blocked_lane r u (sm_lanes st ! i))"
    and rest: "\<And>j. j < length (sm_lanes st) \<Longrightarrow> j \<noteq> i \<Longrightarrow> lane_ok (sm_lanes st ! j)"
  shows "lanes_inv (attended st i r u)"
proof -
  let ?l = "blocked_lane r u (sm_lanes st ! i)"
  let ?ls = "(sm_lanes st)[i := ?l]"
  have "map (\<lambda>l. sp_id (ln_spec l)) ?ls = map (\<lambda>l. sp_id (ln_spec l)) (sm_lanes st)"
    using i by (simp add: map_update blocked_lane_def list_update_same_conv)
  then have "distinct (map (\<lambda>l. sp_id (ln_spec l)) (sm_lanes (attended st i r u)))"
    using ids by (simp add: attended_def o_def)
  moreover have "ln_blocking ?l \<noteq> None" by (simp add: blocked_lane_def)
  then have "lanes_halted (attended st i r u)"
    using set_update_memI[OF i, of ?l] by (auto simp: lanes_halted_def attended_def list_ex_iff)
  moreover have "lane_ok (l\<lparr>ln_leases := [], ln_parking := 0\<rparr>)" if "l \<in> set ?ls" for l
  proof -
    have "lane_ok l" using in_set_update[OF that] l rest by auto
    then show ?thesis by (rule closed_lane_ok)
  qed
  ultimately show ?thesis using attention_returns(2)[OF fit i]
    by (simp add: lanes_inv_def parking_ok_def attended_def)
qed

lemma attention_inv:
  assumes inv: "lanes_inv st" and i: "i < length (sm_lanes st)" and ph: "priority (ln_phase (sm_lanes st ! i)) \<noteq> None"
  shows "attention st i r u = Inr (attended st i r u) \<and> lanes_inv (attended st i r u)"
proof -
  have "lanes_inv (attended st i r u)"
    by (rule attended_inv[OF lanes_invD[OF inv] _ i]) (use inv i ph in \<open>simp_all add: lanes_inv_def blocked_lane_ok\<close>)
  then show ?thesis using attention_returns(1)[OF lanes_invD[OF inv] i] by blast
qed

definition halting :: "lane_state \<Rightarrow> lane_halt \<Rightarrow> lane_state" where
  "halting st h = st\<lparr>sm_halt := Some h, sm_lanes := map (\<lambda>l. l\<lparr>ln_leases := [], ln_parking := 0\<rparr>) (sm_lanes st)\<rparr>"

lemma halting_inv:
  assumes "lanes_inv st"
  shows "bind_sum (validated (st\<lparr>sm_halt := Some h\<rparr>)) close_parked = Inr (halting st h)" "lanes_inv (halting st h)"
proof -
  have fit: "fits (st\<lparr>sm_halt := Some h\<rparr>)" using lanes_invD[OF assms] by (simp add: fits_def active_count_def turn_count_def)
  show "bind_sum (validated (st\<lparr>sm_halt := Some h\<rparr>)) close_parked = Inr (halting st h)"
    using fits_close(1)[OF fit] fits_validated[OF fit] by (simp add: halting_def)
  have "lanes_halted (halting st h)" by (simp add: lanes_halted_def halting_def)
  then show "lanes_inv (halting st h)"
    using fits_close(2)[OF fit] assms
    by (auto simp: lanes_inv_def halting_def parking_ok_def o_def intro: closed_lane_ok)
qed

text \<open>A lane replaced by a good one with the same identity and the same blocking.\<close>

lemma halted_replace:
  assumes "i < length (sm_lanes st)" "ln_blocking l = ln_blocking (sm_lanes st ! i)"
  shows "lanes_halted (st\<lparr>sm_lanes := (sm_lanes st)[i := l]\<rparr>) = lanes_halted st"
proof -
  have "list_ex (\<lambda>l. ln_blocking l \<noteq> None) ((sm_lanes st)[i := l]) \<longleftrightarrow> list_ex (\<lambda>l. ln_blocking l \<noteq> None) (sm_lanes st)"
    using assms by (simp add: list_ex_length) (metis nth_list_update_eq nth_list_update_neq)
  then show ?thesis by (simp add: lanes_halted_def)
qed

lemma replaced_inv:
  assumes fit: "fits (st\<lparr>sm_lanes := (sm_lanes st)[i := l]\<rparr>)"
    and ids: "distinct (map (\<lambda>l. sp_id (ln_spec l)) (sm_lanes st))" and i: "i < length (sm_lanes st)"
    and l: "lane_ok l" "ln_spec l = ln_spec (sm_lanes st ! i)" "parking_ok (lanes_halted (st\<lparr>sm_lanes := (sm_lanes st)[i := l]\<rparr>)) l"
    and rest: "\<And>j. j < length (sm_lanes st) \<Longrightarrow> j \<noteq> i \<Longrightarrow> lane_ok (sm_lanes st ! j)
        \<and> parking_ok (lanes_halted (st\<lparr>sm_lanes := (sm_lanes st)[i := l]\<rparr>)) (sm_lanes st ! j)"
  shows "lanes_inv (st\<lparr>sm_lanes := (sm_lanes st)[i := l]\<rparr>)"
proof -
  have "map (\<lambda>l. sp_id (ln_spec l)) ((sm_lanes st)[i := l]) = map (\<lambda>l. sp_id (ln_spec l)) (sm_lanes st)"
    using i l(2) by (simp add: map_update list_update_same_conv)
  moreover have "lane_ok x \<and> parking_ok (lanes_halted (st\<lparr>sm_lanes := (sm_lanes st)[i := l]\<rparr>)) x" if "x \<in> set ((sm_lanes st)[i := l])" for x
    using in_set_update[OF that] l rest by auto
  ultimately show ?thesis using fit ids by (simp add: lanes_inv_def)
qed

lemma replace_inv:
  assumes inv: "lanes_inv st" and i: "i < length (sm_lanes st)"
    and l: "lane_ok l" "ln_spec l = ln_spec (sm_lanes st ! i)" "parking_ok (lanes_halted st) l"
    and same: "ln_reuse l = ln_reuse (sm_lanes st ! i)" "ln_blocking l = ln_blocking (sm_lanes st ! i)"
      "ln_active l \<noteq> None \<Longrightarrow> ln_active (sm_lanes st ! i) \<noteq> None" "length (ln_turns l) \<le> length (ln_turns (sm_lanes st ! i))"
  shows "replace_lane st i l = Inr (st\<lparr>sm_lanes := (sm_lanes st)[i := l]\<rparr>) \<and> lanes_inv (st\<lparr>sm_lanes := (sm_lanes st)[i := l]\<rparr>)"
proof -
  have "lane_fits l" using l(1) by (simp add: lane_ok_def)
  from fits_replace[OF lanes_invD[OF inv] i this same(1,3,4)]
  have "fits (st\<lparr>sm_lanes := (sm_lanes st)[i := l]\<rparr>)" "replace_lane st i l = Inr (st\<lparr>sm_lanes := (sm_lanes st)[i := l]\<rparr>)" by auto
  moreover have "lanes_halted (st\<lparr>sm_lanes := (sm_lanes st)[i := l]\<rparr>) = lanes_halted st" using i same(2) by (rule halted_replace)
  ultimately show ?thesis
    using inv i l by (intro conjI replaced_inv) (simp_all add: lanes_inv_def)
qed

section \<open>Transmission\<close>

lemma active_turn:
  assumes "lane_ok l" "ln_active l = Some n"
  shows "ln_turns l \<noteq> []" "n = length (ln_turns l) - 1" "ln_turns l ! n = last (ln_turns l)" "priority (ln_phase l) \<noteq> None"
    "turn_open (last (ln_turns l))" "tn_phase (last (ln_turns l)) = ln_phase l"
proof -
  have parts: "lane_fits l" "turns_ok l" "phase_ok l" using assms(1) by (simp_all add: lane_ok_def)
  show ne: "ln_turns l \<noteq> []" and n: "n = length (ln_turns l) - 1" using parts(1) assms(2) by (simp_all add: lane_fits_def)
  show "ln_turns l ! n = last (ln_turns l)" using ne n by (simp add: last_conv_nth)
  show "priority (ln_phase l) \<noteq> None" using parts(3) assms(2) unfolding phase_ok_def by fastforce
  show "turn_open (last (ln_turns l))" "tn_phase (last (ln_turns l)) = ln_phase l"
    using parts(2) assms(2) by (simp_all add: turns_ok_def)
qed

lemma phase_ok_turns: "phase_ok l \<Longrightarrow> ln_phase l \<noteq> Passed_Phase \<Longrightarrow> phase_ok (l\<lparr>ln_turns := ts\<rparr>)"
  by (simp add: phase_ok_def)

lemma sent_lane_ok:
  assumes l: "lane_ok l" "ln_active l \<noteq> None" and s: "s \<in> {Sent, Acked}"
  shows "lane_ok (l\<lparr>ln_turns := butlast (ln_turns l) @ [(last (ln_turns l))\<lparr>tn_status := s\<rparr>]\<rparr>)"
proof -
  let ?t = "(last (ln_turns l))\<lparr>tn_status := s\<rparr>"
  have ne: "ln_turns l \<noteq> []" using l by (auto simp: lane_ok_def lane_fits_def)
  have ok: "turns_ok l" using l(1) by (simp add: lane_ok_def)
  have count: "length (filter (\<lambda>t. tn_phase t = Correction_Phase) (butlast (ln_turns l) @ [?t]))
      = length (filter (\<lambda>t. tn_phase t = Correction_Phase) (ln_turns l))"
    by (rule filter_butlast_last[OF ne]) simp
  have targets: "\<forall>t \<in> set (butlast (ln_turns l) @ [?t]). tn_targets t = sp_targets (ln_spec l)"
    using ok ne by (auto simp: turns_ok_def dest: in_set_butlastD)
  have "turns_ok (l\<lparr>ln_turns := butlast (ln_turns l) @ [?t]\<rparr>)"
    using ok ne l(2) s count targets unfolding turns_ok_def
    by (simp add: turn_open_def del: set_append filter_append length_append) auto
  moreover have "lane_fits (l\<lparr>ln_turns := butlast (ln_turns l) @ [?t]\<rparr>)"
    using l ne by (auto simp: lane_ok_def lane_fits_def)
  moreover have "phase_ok (l\<lparr>ln_turns := butlast (ln_turns l) @ [?t]\<rparr>)"
    using l active_turn(4)[OF l(1)] by (intro phase_ok_turns) (auto simp: lane_ok_def)
  ultimately show ?thesis using l(1) by (simp add: lane_ok_def)
qed

lemma transmission_inv:
  assumes inv: "lanes_inv st"
  shows "case transmission st lid n s of Inl e \<Rightarrow> e \<in> {Unknown_Lane, Inactive_Turn, Transmission_Order, Dispatch_Halted} | Inr st' \<Rightarrow> lanes_inv st'"
proof (cases "lane_index st lid")
  case (Inl e)
  then show ?thesis by (simp add: transmission_def lane_index_def split: option.splits)
next
  case (Inr i)
  then have i: "i < length (sm_lanes st)" using lane_index_iff by blast
  let ?l = "sm_lanes st ! i"
  have l: "lane_ok ?l" "parking_ok (lanes_halted st) ?l" using lanes_inv_nth[OF inv i] by auto
  show ?thesis
  proof (cases "ln_active ?l = Some n")
    case False
    then show ?thesis using Inr by (simp add: transmission_def)
  next
    case True
    note turn = active_turn[OF l(1) True]
    have "replace_lane st i (?l\<lparr>ln_turns := butlast (ln_turns ?l) @ [(last (ln_turns ?l))\<lparr>tn_status := s\<rparr>]\<rparr>)
        = Inr (st\<lparr>sm_lanes := (sm_lanes st)[i := ?l\<lparr>ln_turns := butlast (ln_turns ?l) @ [(last (ln_turns ?l))\<lparr>tn_status := s\<rparr>]\<rparr>]\<rparr>)
        \<and> lanes_inv (st\<lparr>sm_lanes := (sm_lanes st)[i := ?l\<lparr>ln_turns := butlast (ln_turns ?l) @ [(last (ln_turns ?l))\<lparr>tn_status := s\<rparr>]\<rparr>]\<rparr>)"
      if "s \<in> {Sent, Acked}"
      by (rule replace_inv[OF inv i sent_lane_ok[OF l(1) _ that]]) (use True l turn(1) in \<open>auto simp: parking_ok_def needs_parking_def\<close>)
    then show ?thesis using True Inr attention_inv[OF inv i turn(4)] turn(3)
      by (auto simp: transmission_def Let_def)
  qed
qed


section \<open>Completion\<close>

text \<open>A transition may go through a lane that only fits.\<close>

lemma ids_update:
  "ln_spec c = ln_spec (ls ! i) \<Longrightarrow> map (\<lambda>l. sp_id (ln_spec l)) (ls[i := c]) = map (\<lambda>l. sp_id (ln_spec l)) ls"
  by (induction ls arbitrary: i) (auto split: nat.splits)

definition put_lane :: "lane_state \<Rightarrow> nat \<Rightarrow> lane \<Rightarrow> lane_state" where
  "put_lane st i l = st\<lparr>sm_lanes := (sm_lanes st)[i := l]\<rparr>"

definition settles :: "lane \<Rightarrow> lane \<Rightarrow> bool" where
  "settles l c \<longleftrightarrow> ln_spec c = ln_spec l \<and> ln_reuse c = ln_reuse l \<and> ln_blocking c = ln_blocking l \<and> ln_active c = None
     \<and> length (ln_turns c) \<le> length (ln_turns l)"

lemma settles_put:
  assumes inv: "lanes_inv st" and i: "i < length (sm_lanes st)" and c: "lane_fits c" "settles (sm_lanes st ! i) c"
  shows "replace_lane st i c = Inr (put_lane st i c)" "fits (put_lane st i c)"
    and "lane_fits l \<Longrightarrow> settles (sm_lanes st ! i) l \<Longrightarrow> length (ln_turns l) = length (ln_turns c)
      \<Longrightarrow> replace_lane (put_lane st i c) i l = Inr (put_lane st i l)"
    and "lane_ok (blocked_lane r u c) \<Longrightarrow> attention (put_lane st i c) i r u = Inr (attended (put_lane st i c) i r u)
      \<and> lanes_inv (attended (put_lane st i c) i r u)"
proof -
  show put: "replace_lane st i c = Inr (put_lane st i c)" and fit: "fits (put_lane st i c)"
    using fits_replace[OF lanes_invD[OF inv] i c(1)] c(2) by (simp_all add: put_lane_def settles_def)
  have i': "i < length (sm_lanes (put_lane st i c))" using i by (simp add: put_lane_def)
  show "replace_lane (put_lane st i c) i l = Inr (put_lane st i l)"
    if "lane_fits l" "settles (sm_lanes st ! i) l" "length (ln_turns l) = length (ln_turns c)"
    using fits_replace(2)[OF fit i' that(1)] i c(2) that by (simp add: put_lane_def settles_def)
  have ids: "distinct (map (\<lambda>l. sp_id (ln_spec l)) (sm_lanes (put_lane st i c)))"
    using inv i c(2) ids_update[of c "sm_lanes st" i] by (simp add: lanes_inv_def put_lane_def settles_def)
  show "attention (put_lane st i c) i r u = Inr (attended (put_lane st i c) i r u) \<and> lanes_inv (attended (put_lane st i c) i r u)"
    if "lane_ok (blocked_lane r u c)"
    using attention_returns(1)[OF fit i'] attended_inv[OF fit ids i', of r u] that lanes_inv_nth[OF inv] i
    by (simp add: put_lane_def)
qed

lemma settles_inv:
  assumes inv: "lanes_inv st" and i: "i < length (sm_lanes st)" and l: "lane_ok l" "settles (sm_lanes st ! i) l" "parking_ok (lanes_halted st) l"
  shows "lanes_inv (put_lane st i l)"
  using replace_inv[OF inv i l(1) _ l(3)] l(2) by (simp add: settles_def put_lane_def)

lemma distinct_roles: "distinct (rs :: lease_role list) \<Longrightarrow> length rs \<le> 2"
proof -
  have "set rs \<subseteq> {Lease_Worker, Lease_Validator}" using lease_role.exhaust by auto
  then have "card (set rs) \<le> card {Lease_Worker, Lease_Validator}" by (intro card_mono) auto
  then show "distinct rs \<Longrightarrow> length rs \<le> 2" by (simp add: distinct_card)
qed

lemma completed_parts:
  assumes l: "lane_ok l" "parking_ok (lanes_halted st) l" "ln_active l = Some n"
    and t_def: "t = last (ln_turns l)" and c_def: "c = completed_lane st l t r"
  shows "lane_fits c" "settles l c" "distinct (map ls_role (ln_leases c))"
    "ln_turns c = butlast (ln_turns l) @ [t\<lparr>tn_status := Completed, tn_outcome := Some r\<rparr>]"
    "length (ln_turns c) = length (ln_turns l)" "ln_active c = None" "ln_phase c = ln_phase l" "ln_generation c = ln_generation l"
    "ln_parking c = ln_parking l" "ln_correction c = ln_correction l" "ln_candidate c = ln_candidate l"
    "ln_admitted c = ln_admitted l" "ln_blocking c = ln_blocking l"
proof -
  note turn = active_turn[OF l(1,3)]
  show len: "length (ln_turns c) = length (ln_turns l)" using turn(1) by (simp add: c_def completed_lane_def)
  show "ln_turns c = butlast (ln_turns l) @ [t\<lparr>tn_status := Completed, tn_outcome := Some r\<rparr>]" "ln_active c = None"
      "ln_phase c = ln_phase l" "ln_generation c = ln_generation l" "ln_parking c = ln_parking l" "ln_correction c = ln_correction l"
      "ln_candidate c = ln_candidate l" "ln_admitted c = ln_admitted l" "ln_blocking c = ln_blocking l"
    by (simp_all add: c_def completed_lane_def)
  show "settles l c" using len by (simp add: settles_def) (simp add: c_def completed_lane_def)
  have "turns_ok l" using l(1) by (simp add: lane_ok_def)
  then have role: "lease_role_of (tn_phase t) \<notin> ls_role ` set (ln_leases l)" using l(3) turn(6) by (simp add: turns_ok_def t_def)
  show roles: "distinct (map ls_role (ln_leases c))"
    using l(1) role by (auto simp: c_def completed_lane_def lane_ok_def)
  have "length (ln_leases c) \<le> 2" using roles distinct_roles[of "map ls_role (ln_leases c)"] by simp
  moreover have "lane_fits l" using l(1) by (simp add: lane_ok_def)
  ultimately show "lane_fits c" using l(2,3) len unfolding lane_fits_def parking_ok_def c_def completed_lane_def needs_parking_def
    by (auto split: if_splits)
qed


lemma completed_inv:
  assumes inv: "lanes_inv st" and i: "i < length (sm_lanes st)" and n: "ln_active (sm_lanes st ! i) = Some n"
    and c_def: "c = completed_lane st (sm_lanes st ! i) (last (ln_turns (sm_lanes st ! i))) r"
  shows "replace_lane st i c = Inr (put_lane st i c)"
    and "attention (put_lane st i c) i why u = Inr (attended (put_lane st i c) i why u)
      \<and> lanes_inv (attended (put_lane st i c) i why u)"
    and "phase_ok l \<Longrightarrow> ln_turns l = ln_turns c \<Longrightarrow> settles c l \<Longrightarrow> ln_admitted l = ln_admitted c \<Longrightarrow> ln_correction l = ln_correction c
      \<Longrightarrow> ln_generation l \<le> 1 \<Longrightarrow> length (ln_turns c) \<le> phase_limit (ln_phase l) (ln_generation l)
      \<Longrightarrow> ln_leases l = ln_leases c \<and> ln_parking l = ln_parking c \<and> ln_generation l = ln_generation c \<or> ln_leases l = [] \<and> ln_parking l = 0
      \<Longrightarrow> replace_lane (put_lane st i c) i l = Inr (put_lane st i l) \<and> lanes_inv (put_lane st i l)"
proof -
  let ?l = "sm_lanes st ! i"
  have l: "lane_ok ?l" "parking_ok (lanes_halted st) ?l" using lanes_inv_nth[OF inv i] by auto
  note c = completed_parts[OF l n refl c_def]
  note turn = active_turn[OF l(1) n]
  show "replace_lane st i c = Inr (put_lane st i c)" by (rule settles_put(1)[OF inv i c(1,2)])
  have settled: "turns_ok l'" if "ln_turns l' = ln_turns c" "ln_active l' = None" "ln_spec l' = ln_spec ?l" "ln_admitted l' = ln_admitted ?l"
      "ln_correction l' = ln_correction ?l" "length (ln_turns ?l) \<le> phase_limit (ln_phase l') (ln_generation l')" for l'
    by (rule settled_turns_ok[OF l(1) _ that(1)[unfolded c(4)] that(2-5)]) (use n that in \<open>simp_all add: turn_open_def\<close>)
  have "lane_ok (blocked_lane why u c)"
  proof -
    have "turns_ok (blocked_lane why u c)"
      by (rule settled) (use c limit_attention[OF l(1) turn(4)] in \<open>simp_all add: blocked_lane_def settles_def\<close>)
    moreover have "lane_fits (blocked_lane why u c)" using c(1) by (simp add: lane_fits_def blocked_lane_def)
    moreover have "phase_ok (blocked_lane why u c)" by (simp add: phase_ok_def blocked_lane_def)
    ultimately show ?thesis by (simp add: lane_ok_def) (simp add: blocked_lane_def)
  qed
  then show "attention (put_lane st i c) i why u = Inr (attended (put_lane st i c) i why u)
      \<and> lanes_inv (attended (put_lane st i c) i why u)" by (rule settles_put(4)[OF inv i c(1,2)])
  assume nxt: "phase_ok l" "ln_turns l = ln_turns c" "settles c l" "ln_admitted l = ln_admitted c" "ln_correction l = ln_correction c"
      "ln_generation l \<le> 1" "length (ln_turns c) \<le> phase_limit (ln_phase l) (ln_generation l)"
      "ln_leases l = ln_leases c \<and> ln_parking l = ln_parking c \<and> ln_generation l = ln_generation c \<or> ln_leases l = [] \<and> ln_parking l = 0"
  have same: "settles ?l l" using c(2) nxt(2,3) by (simp add: settles_def)
  have fits: "lane_fits l" using c(1) nxt unfolding lane_fits_def settles_def by auto
  have "turns_ok l" by (rule settled) (use nxt c same in \<open>simp_all add: settles_def\<close>)
  then have ok: "lane_ok l" using fits nxt c l(1) by (auto simp: lane_ok_def)
  have "parking_ok (lanes_halted st) l" using l(2) nxt c same n by (auto simp: parking_ok_def settles_def)
  from settles_inv[OF inv i ok same this] settles_put(3)[OF inv i c(1,2) fits same] nxt(2)
  show "replace_lane (put_lane st i c) i l = Inr (put_lane st i l) \<and> lanes_inv (put_lane st i l)" by simp
qed


lemma phase_ok_active:
  assumes "phase_ok l"
  shows "ln_active l \<noteq> None \<Longrightarrow> ln_blocking l = None"
    and "ln_generation l = 0 \<Longrightarrow> ln_phase l = Work_Phase \<Longrightarrow> \<not> ln_correction l"
    and "ln_phase l = Correction_Phase \<Longrightarrow> ln_generation l = 0 \<and> ln_correction l = (ln_active l \<noteq> None)"
  using assms by (cases "ln_phase l"; simp add: phase_ok_def)+

lemma complete_inv:
  assumes inv: "lanes_inv st"
  shows "case complete st lid n r of Inl e \<Rightarrow> e \<in> {Unknown_Lane, Unacknowledged_Turn, Role_Outcome} | Inr st' \<Rightarrow> lanes_inv st'"
proof (cases "lane_index st lid")
  case (Inl e)
  then show ?thesis by (simp add: complete_def lane_index_def split: option.splits)
next
  case (Inr i)
  then have i: "i < length (sm_lanes st)" using lane_index_iff by blast
  let ?l = "sm_lanes st ! i"
  let ?t = "last (ln_turns ?l)"
  let ?worker = "tn_phase ?t \<in> {Work_Phase, Correction_Phase}"
  let ?c = "completed_lane st ?l ?t r"
  have l: "lane_ok ?l" "parking_ok (lanes_halted st) ?l" using lanes_inv_nth[OF inv i] by auto
  show ?thesis
  proof (cases "ln_active ?l = Some n \<and> tn_status (ln_turns ?l ! n) = Acked")
    case False
    then show ?thesis using Inr by (auto simp: complete_def)
  next
    case True
    then have n: "ln_active ?l = Some n" and acked: "tn_status (ln_turns ?l ! n) = Acked" by auto
    note turn = active_turn[OF l(1) n]
    note c = completed_parts[OF l n refl refl[of "completed_lane st (sm_lanes st ! i) (last (ln_turns (sm_lanes st ! i))) r"]]
    note run = completed_inv[OF inv i n refl[of "completed_lane st (sm_lanes st ! i) (last (ln_turns (sm_lanes st ! i))) r"]]
    have parts: "phase_ok ?l" "turns_ok ?l" "lane_fits ?l" using l(1) by (simp_all add: lane_ok_def)
    have ph: "tn_phase ?t = ln_phase ?l" using turn(6) .
    have gen: "ln_generation ?l \<le> 1" using parts(3) by (simp add: lane_fits_def)
    have len: "length (ln_turns ?c) \<le> phase_limit (ln_phase ?l) (ln_generation ?l) + 1"
      using parts(2) n c(5) by (simp add: turns_ok_def)
    have cand: "ln_phase ?l \<in> {Validate_Phase, Recheck_Phase} \<Longrightarrow> ln_candidate ?l \<noteq> None" using parts(1) by (simp add: phase_ok_def)
    have "complete st lid n r = (if ?worker \<and> r \<notin> {Sealed, Other_Outcome} \<or> \<not> ?worker \<and> r = Sealed then Inl Role_Outcome
       else bind_sum (replace_lane st i ?c) (\<lambda>st.
           if r = Other_Outcome then attention st i Noncorrectable False
           else if ?worker then replace_lane st i
             (?c\<lparr>ln_candidate := Some (case ln_candidate ?c of None \<Rightarrow> 0 | Some x \<Rightarrow> x + 1),
                ln_phase := (if tn_phase ?t = Correction_Phase then Recheck_Phase else Validate_Phase)\<rparr>)
           else if r = Judged_Pass then replace_lane st i (?c\<lparr>ln_phase := Passed_Phase, ln_leases := [], ln_parking := 0\<rparr>)
           else if ln_generation ?c = 1 then attention st i Product_Failure False
           else let l = ?c\<lparr>ln_history := ln_history ?c @ [Product_Failure]\<rparr> in
             bind_sum (replace_lane st i l) (\<lambda>st.
               if \<not> ln_correction l then replace_lane st i (l\<lparr>ln_phase := Correction_Phase\<rparr>)
               else replace_lane st i (l\<lparr>ln_phase := Work_Phase, ln_generation := 1, ln_leases := [], ln_parking := 0\<rparr>))))"
      unfolding complete_def Inr bind_sum_simps Let_def turn(3) n acked[unfolded turn(3)] by (simp only: simp_thms if_False)
    note eq = this[unfolded run(1)]
    consider (refused) "?worker \<and> r \<notin> {Sealed, Other_Outcome} \<or> \<not> ?worker \<and> r = Sealed"
      | (other) "r = Other_Outcome" | (sealed) "?worker" "r = Sealed" | (pass) "\<not> ?worker" "r = Judged_Pass"
      | (defect) "\<not> ?worker" "r = Judged_Defect" by (cases r) auto
    then show ?thesis
    proof cases
      case refused
      then show ?thesis by (simp add: eq)
    next
      case other
      then show ?thesis unfolding eq using run(2) by simp
    next
      case sealed
      let ?n = "?c\<lparr>ln_candidate := Some (case ln_candidate ?c of None \<Rightarrow> 0 | Some x \<Rightarrow> x + 1),
          ln_phase := (if tn_phase ?t = Correction_Phase then Recheck_Phase else Validate_Phase)\<rparr>"
      have free: "ln_blocking ?c = None" "ln_active ?c = None" using phase_ok_active[OF parts(1)] n c by simp_all
      have "ln_phase ?l = Work_Phase \<and> (ln_generation ?l = 0 \<longrightarrow> \<not> ln_correction ?l)
          \<or> ln_phase ?l = Correction_Phase \<and> ln_generation ?l = 0 \<and> ln_correction ?l"
        using sealed(1) phase_ok_active[OF parts(1)] n unfolding ph by simp blast
      then have "phase_ok ?n"
      proof (elim disjE conjE)
        assume w: "ln_phase ?l = Work_Phase" "ln_generation ?l = 0 \<longrightarrow> \<not> ln_correction ?l"
        then have "ln_generation ?c = 0 \<longrightarrow> \<not> ln_correction ?c" using c(8,10) by simp
        then show ?thesis using w(1) free unfolding ph phase_ok_def by simp
      next
        assume w: "ln_phase ?l = Correction_Phase" "ln_generation ?l = 0" "ln_correction ?l"
        then have "ln_generation ?c = 0" "ln_correction ?c" using c(8,10) by simp_all
        then show ?thesis using w(1) free unfolding ph phase_ok_def by simp
      qed
      moreover have "length (ln_turns ?c) \<le> phase_limit (ln_phase ?n) (ln_generation ?n)"
        using len sealed(1) c(8) unfolding ph by auto
      ultimately have "replace_lane (put_lane st i ?c) i ?n = Inr (put_lane st i ?n) \<and> lanes_inv (put_lane st i ?n)"
        using gen c(6,8) by (intro run(3)) (simp_all add: settles_def)
      then show ?thesis unfolding eq bind_sum_simps using sealed by simp
    next
      case pass
      let ?n = "?c\<lparr>ln_phase := Passed_Phase, ln_leases := [], ln_parking := 0\<rparr>"
      have "ln_phase ?l \<in> {Validate_Phase, Recheck_Phase}" using pass(1) turn(4) unfolding ph by (cases "ln_phase ?l") auto
      moreover have "tn_candidate ?t = ln_candidate ?l" "tn_targets ?t = sp_targets (ln_spec ?l)"
        using parts(2) n turn(1) by (simp_all add: turns_ok_def)
      ultimately have "judged_pass ?n" using cand c pass(2) ph by (simp add: judged_pass_def settles_def)
      moreover have "ln_blocking ?n = None" "ln_active ?n = None" using phase_ok_active(1)[OF parts(1)] n c by simp_all
      ultimately have "phase_ok ?n" by (simp add: phase_ok_def)
      moreover have "length (ln_turns ?c) \<le> phase_limit (ln_phase ?n) (ln_generation ?n)"
        using limit_attention[OF l(1) turn(4)] c(5,8) by simp
      ultimately have "replace_lane (put_lane st i ?c) i ?n = Inr (put_lane st i ?n) \<and> lanes_inv (put_lane st i ?n)"
        using gen c(6,8) by (intro run(3)) (simp_all add: settles_def)
      then show ?thesis unfolding eq bind_sum_simps using pass by simp
    next
      case defect
      show ?thesis
      proof (cases "ln_generation ?c = 1")
        case True
        then show ?thesis unfolding eq bind_sum_simps using run(2) defect by simp
      next
        case False
        then have g0: "ln_generation ?l = 0" using gen c(8) by simp
        let ?h = "?c\<lparr>ln_history := ln_history ?c @ [Product_Failure]\<rparr>"
        let ?n = "if \<not> ln_correction ?c then ?h\<lparr>ln_phase := Correction_Phase\<rparr>
           else ?h\<lparr>ln_phase := Work_Phase, ln_generation := 1, ln_leases := [], ln_parking := 0\<rparr>"
        have h: "lane_fits ?h" "settles ?l ?h" using c(1,2) by (simp_all add: lane_fits_def settles_def)
        have vr: "ln_phase ?l = Validate_Phase \<and> \<not> ln_correction ?l \<or> ln_phase ?l = Recheck_Phase \<and> ln_correction ?l"
          using defect(1) turn(4) parts(1) g0 unfolding ph phase_ok_def by (cases "ln_phase ?l") auto
        have free: "ln_blocking ?c = None" "ln_active ?c = None" "ln_generation ?c = 0" "ln_correction ?c = ln_correction ?l"
          using phase_ok_active[OF parts(1)] n c g0 by simp_all
        then have "phase_ok ?n" by (cases "ln_correction ?l") (simp_all add: phase_ok_def)
        moreover have "length (ln_turns ?c) \<le> phase_limit (ln_phase ?n) (ln_generation ?n)"
          using len vr c(10) g0 by auto
        moreover have "ln_turns ?n = ln_turns ?c" "settles ?c ?n" "ln_admitted ?n = ln_admitted ?c" "ln_correction ?n = ln_correction ?c"
            "ln_generation ?n \<le> 1" using c(6,8) g0 by (simp_all add: settles_def)
        moreover have "ln_leases ?n = ln_leases ?c \<and> ln_parking ?n = ln_parking ?c \<and> ln_generation ?n = ln_generation ?c
            \<or> ln_leases ?n = [] \<and> ln_parking ?n = 0" by simp
        ultimately have inv': "lanes_inv (put_lane st i ?n)" using run(3) by blast
        have "settles ?l ?n" using c(2) by (simp add: settles_def)
        moreover have "lane_fits ?n" using c(1) by (simp add: lane_fits_def)
        ultimately have "replace_lane (put_lane st i ?h) i ?n = Inr (put_lane st i ?n)"
          by (intro settles_put(3)[OF inv i h]) simp_all
        moreover have "replace_lane (put_lane st i ?c) i ?h = Inr (put_lane st i ?h)"
          by (intro settles_put(3)[OF inv i c(1,2) h]) simp
        ultimately show ?thesis unfolding eq bind_sum_simps Let_def using defect False inv' by (cases "ln_correction ?c") simp_all
      qed
    qed
  qed
qed


section \<open>Reservation\<close>

lemma ready_lane:
  assumes inv: "lanes_inv st" and lid: "lid \<in> set (ready_lanes st)"
  obtains i where "i < length (sm_lanes st)" "lane_index st lid = Inr i" "ln_active (sm_lanes st ! i) = None"
    "priority (ln_phase (sm_lanes st ! i)) \<noteq> None" "\<not> lanes_halted st"
proof -
  from lid obtain i where i: "i < length (sm_lanes st)" "sp_id (ln_spec (sm_lanes st ! i)) = lid" "ln_active (sm_lanes st ! i) = None"
      "priority (ln_phase (sm_lanes st ! i)) \<noteq> None" "\<not> lanes_halted st"
    by (auto simp: ready_lanes_def Let_def in_set_enumerate_eq split: if_split_asm)
  moreover have "lane_index st lid = Inr i" using lane_index_finds[of st i] inv i(1,2) by (simp add: lanes_inv_def)
  ultimately show ?thesis using that by blast
qed

lemma parking_free:
  assumes inv: "lanes_inv st" and i: "i < length (sm_lanes st)" and l: "needs_parking (sm_lanes st ! i)" "ln_parking (sm_lanes st ! i) < 2"
  shows "parking_sum st + 2 \<le> lc_parking (sm_config st)" "parking_sum st = 0"
proof -
  have fit: "fits st" by (rule lanes_invD[OF inv])
  have reuse: "ln_reuse (sm_lanes st ! i)" using l(1) by (simp add: needs_parking_def)
  then have one: "length (filter ln_reuse (sm_lanes st)) \<le> 1" "2 \<le> lc_parking (sm_config st)"
    using fit i by (auto simp: fits_def filter_empty_conv)
  have here: "ln_parking (sm_lanes st ! i) = 0" using lanes_inv_nth[OF inv i] l(2) by (auto simp: lane_ok_def lane_fits_def)
  have "ln_parking (sm_lanes st ! j) = 0" if j: "j < length (sm_lanes st)" for j
  proof (cases "j = i")
    case False
    have "\<not> ln_reuse (sm_lanes st ! j)"
    proof
      assume rj: "ln_reuse (sm_lanes st ! j)"
      let ?xs = "(sm_lanes st)[i := (sm_lanes st ! i)\<lparr>ln_reuse := False\<rparr>]"
      have "length (filter ln_reuse ?xs) + 1 = length (filter ln_reuse (sm_lanes st))"
        using sum_list_replace[OF i, of "\<lambda>x. if ln_reuse x then 1 else 0"] reuse by (simp add: length_filter_sum)
      moreover have "?xs ! j \<in> set (filter ln_reuse ?xs)" using False rj j i by (simp add: in_set_conv_nth) (metis nth_list_update_neq length_list_update)
      then have "filter ln_reuse ?xs \<noteq> []" by (metis empty_iff empty_set)
      ultimately show False using one(1) by (metis One_nat_def Suc_eq_plus1 Suc_le_mono le_zero_eq length_0_conv)
    qed
    then show ?thesis using lanes_inv_nth[OF inv j] by (auto simp: lane_ok_def lane_fits_def)
  qed (simp add: here)
  then show "parking_sum st = 0" by (simp add: parking_sum_def sum_list_eq_0_iff in_set_conv_nth) (metis in_set_conv_nth)
  then show "parking_sum st + 2 \<le> lc_parking (sm_config st)" using one(2) by simp
qed

lemma reserved_lane_ok:
  assumes l: "lane_ok l" "ln_active l = None" "priority (ln_phase l) \<noteq> None"
    and old: "needs_parking l \<Longrightarrow> ln_phase l \<in> {Correction_Phase, Recheck_Phase} \<Longrightarrow> old_lease l \<noteq> None"
  shows "lane_ok (reserved_lane st l)"
proof -
  have parts: "lane_fits l" "turns_ok l" "phase_ok l" using l(1) by (simp_all add: lane_ok_def)
  let ?l = "reserved_lane st l"
  have roles: "distinct (map ls_role (ln_leases l))" using l(1) by (simp add: lane_ok_def)
  have five: "length (ln_turns l) \<le> 5"
    using parts(2,3) l(2,3) parts(1) by (cases "ln_phase l") (auto simp: turns_ok_def phase_ok_def lane_fits_def)
  have leases: "length (ln_leases ?l) \<le> length (ln_leases l)" by (simp add: reserved_lane_def)
  have "length (ln_leases ?l) \<le> (if needs_parking l then 2 else 0)"
  proof (cases "needs_parking l")
    case True
    then show ?thesis using leases parts(1) by (auto simp: lane_fits_def)
  next
    case False
    then have "ln_parking l = 0" using l(1) by (auto simp: lane_ok_def lane_fits_def needs_parking_def)
    then show ?thesis using leases parts(1) False by (simp add: lane_fits_def)
  qed
  then have "lane_fits ?l" using parts(1) five unfolding lane_fits_def by (simp add: reserved_lane_def needs_parking_def)
  moreover have "r \<notin> ls_role ` {x \<in> S. ls_role x \<noteq> r}" for r S by auto
  then have "turns_ok ?l"
    using parts(2) phase_ok_active(3)[OF parts(3)] l(2)
    by (cases "ln_phase l = Correction_Phase") (simp_all add: turns_ok_def reserved_lane_def new_turn_def turn_open_def split: if_split_asm)
  moreover have "phase_ok ?l"
    using parts(3) l(2,3) by (cases "ln_phase l") (simp_all add: phase_ok_def reserved_lane_def)
  moreover have "distinct (map ls_role (ln_leases ?l))" using roles by (simp add: reserved_lane_def distinct_map_filter)
  ultimately show ?thesis by (simp add: lane_ok_def) (simp add: reserved_lane_def needs_parking_def)
qed


text \<open>What \<open>reserve_next\<close> does from a state of the invariant: two of its guards never fire.\<close>

definition reserved_state :: "lane_state \<Rightarrow> nat \<Rightarrow> lane_state" where
  "reserved_state st i = put_lane st i (reserved_lane st (sm_lanes st ! i))"

lemma reserve_fits:
  assumes fit: "fits st" and i: "i < length (sm_lanes st)" and l: "lane_fits l" "ln_reuse l = ln_reuse (sm_lanes st ! i)"
    and turns: "length (ln_turns l) = Suc (length (ln_turns (sm_lanes st ! i)))" and idle: "ln_active (sm_lanes st ! i) = None"
    and room: "active_count st < min (lc_capacity (sm_config st)) 4" "turn_count st + lc_final (sm_config st) < lc_budget (sm_config st)"
    and active: "ln_active l \<noteq> None"
  shows "fits (put_lane st i l)" "replace_lane st i l = Inr (put_lane st i l)"
    "turn_count (put_lane st i l) = Suc (turn_count st)" "active_count (put_lane st i l) = Suc (active_count st)"
proof -
  let ?st = "put_lane st i l"
  show turn: "turn_count ?st = Suc (turn_count st)"
    using sum_list_replace[OF i, of "\<lambda>l. length (ln_turns l)" l] turns by (simp add: turn_count_def put_lane_def)
  show act: "active_count ?st = Suc (active_count st)"
    using sum_list_replace[OF i, of "\<lambda>l. if ln_active l \<noteq> None then 1 else 0" l] idle active
    by (simp add: active_count_def put_lane_def length_filter_sum)
  have reuse: "length (filter ln_reuse (sm_lanes ?st)) = length (filter ln_reuse (sm_lanes st))"
    using i l(2) by (simp add: filter_replace_eq put_lane_def)
  moreover have "filter ln_reuse (sm_lanes ?st) = [] \<longleftrightarrow> filter ln_reuse (sm_lanes st) = []"
    using reuse by (metis length_0_conv)
  moreover have "\<forall>x \<in> set (sm_lanes ?st). lane_fits x"
    using fit l(1) set_update_subset_insert[of "sm_lanes st" i l] by (auto simp: fits_def put_lane_def)
  moreover have "sm_config ?st = sm_config st" "sm_now ?st = sm_now st" by (simp_all add: put_lane_def)
  ultimately show "fits ?st" using fit room turn act unfolding fits_def by simp
  then show "replace_lane st i l = Inr ?st" by (simp add: replace_lane_def put_lane_def fits_validated)
qed

lemma reserved_inv:
  assumes inv: "lanes_inv st" and i: "i < length (sm_lanes st)" and l: "ln_active (sm_lanes st ! i) = None"
      "priority (ln_phase (sm_lanes st ! i)) \<noteq> None" "\<not> lanes_halted st"
    and room: "active_count st < min (lc_capacity (sm_config st)) 4" "turn_count st + lc_final (sm_config st) < lc_budget (sm_config st)"
    and old: "needs_parking (sm_lanes st ! i) \<Longrightarrow> ln_phase (sm_lanes st ! i) \<in> {Correction_Phase, Recheck_Phase}
      \<Longrightarrow> old_lease (sm_lanes st ! i) \<noteq> None"
  shows "replace_lane st i (reserved_lane st (sm_lanes st ! i)) = Inr (reserved_state st i)" "lanes_inv (reserved_state st i)"
    "turn_count (reserved_state st i) = Suc (turn_count st)" "active_count (reserved_state st i) = Suc (active_count st)"
proof -
  let ?l = "reserved_lane st (sm_lanes st ! i)"
  have ok: "lane_ok ?l" using lanes_inv_nth[OF inv i] l old by (intro reserved_lane_ok) auto
  then have fit: "lane_fits ?l" by (simp add: lane_ok_def)
  have same: "ln_reuse ?l = ln_reuse (sm_lanes st ! i)" "length (ln_turns ?l) = Suc (length (ln_turns (sm_lanes st ! i)))"
      "ln_active ?l \<noteq> None" "ln_spec ?l = ln_spec (sm_lanes st ! i)" "ln_blocking ?l = ln_blocking (sm_lanes st ! i)"
    by (simp_all add: reserved_lane_def)
  note run = reserve_fits[OF lanes_invD[OF inv] i fit same(1,2) l(1) room same(3)]
  show "replace_lane st i ?l = Inr (reserved_state st i)" "turn_count (reserved_state st i) = Suc (turn_count st)"
      "active_count (reserved_state st i) = Suc (active_count st)"
    using run by (simp_all add: reserved_state_def)
  have "lanes_halted (put_lane st i ?l) = lanes_halted st" unfolding put_lane_def using i same(5) by (rule halted_replace)
  moreover have "parking_ok False ?l" by (simp add: parking_ok_def reserved_lane_def needs_parking_def)
  ultimately show "lanes_inv (reserved_state st i)"
    using run(1) inv i ok same(4) l(3) unfolding reserved_state_def put_lane_def
    by (intro replaced_inv) (simp_all add: lanes_inv_def)
qed

text \<open>Reservation takes the first ready lane, or the lane is due for attention since its session is gone.\<close>

definition session_gone :: "lane \<Rightarrow> bool" where
  "session_gone l \<longleftrightarrow> needs_parking l \<and> ln_phase l \<in> {Correction_Phase, Recheck_Phase} \<and> old_lease l = None"

lemma reserve_among_first:
  assumes inv: "lanes_inv st" and lid: "lane_index st lid = Inr i"
    and l: "ln_active (sm_lanes st ! i) = None" "priority (ln_phase (sm_lanes st ! i)) \<noteq> None"
  shows "reserve_among st (lid # lids) = (if session_gone (sm_lanes st ! i) then attention st i Expired False
     else replace_lane st i (reserved_lane st (sm_lanes st ! i)))"
proof -
  have i: "i < length (sm_lanes st)" using lane_index_iff[OF lid] by blast
  let ?l = "sm_lanes st ! i"
  have ok: "lane_fits ?l" "turns_ok ?l" "phase_ok ?l" using lanes_inv_nth[OF inv i] by (simp_all add: lane_ok_def)
  have "length (ln_turns ?l) \<le> 5"
    using ok l by (cases "ln_phase ?l") (auto simp: turns_ok_def phase_ok_def lane_fits_def)
  then have short: "(6 \<le> length (ln_turns ?l) \<or> ln_phase ?l = Correction_Phase \<and> ln_correction ?l) = False"
    using phase_ok_active(3)[OF ok(3)] l(1) by auto
  have room: "(ln_parking ?l < (if needs_parking ?l then 2 else 0)
      \<and> lc_parking (sm_config st) < parking_sum st + (if needs_parking ?l then 2 else 0)) = False"
    using parking_free[OF inv i] by auto
  show ?thesis
    unfolding reserve_among.simps lid bind_sum_simps Let_def session_gone_def short room by simp
qed

lemma reserve_next_cases:
  assumes inv: "lanes_inv st"
  obtains (unchanged) "reserve_next st = Inr st"
        "lanes_halted st \<or> min (lc_capacity (sm_config st)) 4 \<le> active_count st \<or> ready_lanes st = []"
    | (budget) "reserve_next st = Inr (halting st Halt_Budget)" "\<not> lanes_halted st"
    | (gone) i where "i < length (sm_lanes st)" "session_gone (sm_lanes st ! i)" "priority (ln_phase (sm_lanes st ! i)) \<noteq> None"
        "reserve_next st = Inr (attended st i Expired False)"
    | (reserved) i where "i < length (sm_lanes st)" "reserve_next st = Inr (reserved_state st i)" "lanes_inv (reserved_state st i)"
        "ln_active (sm_lanes st ! i) = None" "priority (ln_phase (sm_lanes st ! i)) \<noteq> None"
        "turn_count (reserved_state st i) = Suc (turn_count st)" "active_count (reserved_state st i) = Suc (active_count st)"
proof (cases "lanes_halted st \<or> min (lc_capacity (sm_config st)) 4 \<le> active_count st \<or> ready_lanes st = []")
  case True
  then show ?thesis by (intro unchanged) (auto simp: reserve_next_def Let_def)
next
  case False
  then obtain lid lids where ready: "ready_lanes st = lid # lids" by (cases "ready_lanes st") auto
  show ?thesis
  proof (cases "lc_budget (sm_config st) - lc_final (sm_config st) \<le> turn_count st")
    case True
    then show ?thesis using False ready halting_inv(1)[OF inv] by (intro budget) (simp_all add: reserve_next_def)
  next
    case room: False
    obtain i where i: "i < length (sm_lanes st)" "lane_index st lid = Inr i" "ln_active (sm_lanes st ! i) = None"
        "priority (ln_phase (sm_lanes st ! i)) \<noteq> None" "\<not> lanes_halted st"
      using ready_lane[OF inv, of lid] ready by auto
    have eq: "reserve_next st = reserve_among st (lid # lids)" using False room ready by (simp add: reserve_next_def)
    show ?thesis
    proof (cases "session_gone (sm_lanes st ! i)")
      case True
      then have "reserve_next st = attention st i Expired False" unfolding eq reserve_among_first[OF inv i(2-4)] by simp
      then show ?thesis using attention_inv[OF inv i(1,4)] i True by (intro gone) auto
    next
      case here: False
      have "active_count st < min (lc_capacity (sm_config st)) 4" using False by linarith
      moreover have "turn_count st + lc_final (sm_config st) < lc_budget (sm_config st)" using room by linarith
      moreover have "old_lease (sm_lanes st ! i) \<noteq> None" if "needs_parking (sm_lanes st ! i)"
          "ln_phase (sm_lanes st ! i) \<in> {Correction_Phase, Recheck_Phase}"
        using here that by (auto simp: session_gone_def)
      ultimately have run: "replace_lane st i (reserved_lane st (sm_lanes st ! i)) = Inr (reserved_state st i)"
          "lanes_inv (reserved_state st i)" "turn_count (reserved_state st i) = Suc (turn_count st)"
          "active_count (reserved_state st i) = Suc (active_count st)"
        using reserved_inv[OF inv i(1,3,4,5)] by blast+
      have "reserve_next st = Inr (reserved_state st i)"
        unfolding eq reserve_among_first[OF inv i(2-4)] run(1) using here by simp
      then show ?thesis using i(1,3,4) run(2-4) by (intro reserved)
    qed
  qed
qed

lemma reserve_next_inv:
  assumes "lanes_inv st"
  obtains st' where "reserve_next st = Inr st'" "lanes_inv st'"
  using assms
proof (cases rule: reserve_next_cases)
  case budget
  then show ?thesis using that halting_inv(2)[OF assms] by blast
next
  case (gone i)
  then show ?thesis using that attention_inv[OF assms gone(1,3)] by blast
qed (use that assms in blast)+


section \<open>Clocks, stops, restarts\<close>

text \<open>A loop over the lanes by index: what each turn keeps, the loop keeps, and a turn changes no lane it has passed
  in a way the second predicate notices.\<close>

lemma each_lane_inv:
  assumes step: "\<And>st i. I st \<Longrightarrow> i < N \<Longrightarrow> \<exists>st'. f st i = Inr st' \<and> I st' \<and> Q i st' \<and> (\<forall>j. Q j st \<longrightarrow> Q j st')"
    and st: "I st" "set is \<subseteq> {..<N}"
  shows "\<exists>st'. each_lane is f st = Inr st' \<and> I st' \<and> (\<forall>j. Q j st \<or> j \<in> set is \<longrightarrow> Q j st')"
  using st
proof (induction "is" arbitrary: st)
  case (Cons i "is")
  then obtain st1 where st1: "f st i = Inr st1" "I st1" "Q i st1" "\<forall>j. Q j st \<longrightarrow> Q j st1" using step[of st i] by auto
  with Cons.IH[of st1] Cons.prems obtain st2 where "each_lane is f st1 = Inr st2" "I st2" "\<forall>j. Q j st1 \<or> j \<in> set is \<longrightarrow> Q j st2"
    by auto
  then show ?case using st1 by auto
qed simp

lemma attended_lanes:
  "length (sm_lanes (attended st i r u)) = length (sm_lanes st)" "sm_now (attended st i r u) = sm_now st"
  by (simp_all add: attended_def)

lemma lease_phase:
  assumes "lane_ok l" "ln_leases l \<noteq> []"
  shows "priority (ln_phase l) \<noteq> None"
proof
  assume "priority (ln_phase l) = None"
  then have "ln_parking l = 0" using assms(1) by (simp add: lane_ok_def phase_ok_def)
  then show False using assms by (simp add: lane_ok_def lane_fits_def)
qed

lemma now_inv: "lanes_inv st \<Longrightarrow> sm_now st \<le> now \<Longrightarrow> lanes_inv (st\<lparr>sm_now := now\<rparr>)"
  by (simp add: lanes_inv_def fits_def active_count_def turn_count_def lanes_halted_def)

definition in_time :: "int \<Rightarrow> nat \<Rightarrow> lane_state \<Rightarrow> bool" where
  "in_time now j st \<longleftrightarrow> j < length (sm_lanes st) \<longrightarrow>
     (case sm_lanes st ! j of l \<Rightarrow> (ln_active l \<noteq> None \<longrightarrow> now < tn_deadline (last (ln_turns l)))
       \<and> (\<forall>x \<in> set (ln_leases l). now < ls_parked_at x + 3600))"

lemma in_time_attended: "in_time now j st \<Longrightarrow> in_time now j (attended st i r u)" "in_time now i (attended st i r u)"
  by (cases "j = i"; auto simp: in_time_def attended_def blocked_lane_def nth_list_update)+

lemma expire_lane_inv:
  assumes inv: "lanes_inv st" and i: "i < length (sm_lanes st)"
  shows "\<exists>st'. expire_lane now st i = Inr st' \<and> lanes_inv st' \<and> length (sm_lanes st') = length (sm_lanes st)
    \<and> in_time now i st' \<and> (\<forall>j. in_time now j st \<longrightarrow> in_time now j st')"
proof -
  let ?l = "sm_lanes st ! i"
  have l: "lane_ok ?l" using lanes_inv_nth[OF inv i] by simp
  consider (late) n where "ln_active ?l = Some n" "tn_deadline (ln_turns ?l ! n) \<le> now"
    | (old) "\<not> (\<exists>n. ln_active ?l = Some n \<and> tn_deadline (ln_turns ?l ! n) \<le> now)" "list_ex (\<lambda>x. ls_parked_at x + 3600 \<le> now) (ln_leases ?l)"
    | (fine) "\<not> (\<exists>n. ln_active ?l = Some n \<and> tn_deadline (ln_turns ?l ! n) \<le> now)" "\<not> list_ex (\<lambda>x. ls_parked_at x + 3600 \<le> now) (ln_leases ?l)"
    by blast
  then show ?thesis
  proof cases
    case late
    then have "expire_lane now st i = attention st i Past_Deadline False" by (simp add: expire_lane_def)
    then show ?thesis using attention_inv[OF inv i active_turn(4)[OF l late(1)]] in_time_attended
      by (simp add: attended_lanes)
  next
    case old
    have "priority (ln_phase ?l) \<noteq> None" using lease_phase[OF l] old(2) by (cases "ln_leases ?l") auto
    moreover have "expire_lane now st i = attention st i Expired False" using old by (auto simp: expire_lane_def Let_def)
    ultimately show ?thesis using attention_inv[OF inv i] in_time_attended by (simp add: attended_lanes)
  next
    case fine
    have "in_time now i st" using fine active_turn(3)[OF l] by (fastforce simp: in_time_def list_ex_iff not_le)
    moreover have "expire_lane now st i = Inr st" using fine by (auto simp: expire_lane_def Let_def)
    ultimately show ?thesis using inv by blast
  qed
qed

lemma advance_inv:
  assumes inv: "lanes_inv st"
  shows "if now < sm_now st then advance st now = Inl Clock_Reversed
    else \<exists>st'. advance st now = Inr st' \<and> lanes_inv st' \<and> length (sm_lanes st') = length (sm_lanes st) \<and> (\<forall>j. in_time now j st')"
proof (cases "now < sm_now st")
  case False
  let ?st = "st\<lparr>sm_now := now\<rparr>"
  have inv1: "lanes_inv ?st" using now_inv[OF inv] False by simp
  have "\<exists>st'. each_lane [0..<length (sm_lanes st)] (expire_lane now) ?st = Inr st'
      \<and> (lanes_inv st' \<and> length (sm_lanes st') = length (sm_lanes st)) \<and> (\<forall>j. in_time now j ?st \<or> j \<in> set [0..<length (sm_lanes st)] \<longrightarrow> in_time now j st')"
  proof (rule each_lane_inv)
    fix st1 i assume "lanes_inv st1 \<and> length (sm_lanes st1) = length (sm_lanes st)" "i < length (sm_lanes st)"
    then show "\<exists>st'. expire_lane now st1 i = Inr st' \<and> (lanes_inv st' \<and> length (sm_lanes st') = length (sm_lanes st))
        \<and> in_time now i st' \<and> (\<forall>j. in_time now j st1 \<longrightarrow> in_time now j st')" using expire_lane_inv[of st1 i now] by auto
  qed (use inv1 in auto)
  then obtain st' where st': "each_lane [0..<length (sm_lanes st)] (expire_lane now) ?st = Inr st'" "lanes_inv st'"
      "length (sm_lanes st') = length (sm_lanes st)" "\<forall>j < length (sm_lanes st). in_time now j st'" by auto
  then have "\<forall>j. in_time now j st'" by (auto simp: in_time_def)
  then show ?thesis using st' False fits_validated[OF lanes_invD[OF inv1]] by (simp add: advance_def)
qed (simp add: advance_def)

definition at_rest :: "nat \<Rightarrow> lane_state \<Rightarrow> bool" where
  "at_rest j st \<longleftrightarrow> j < length (sm_lanes st) \<longrightarrow>
     (case sm_lanes st ! j of l \<Rightarrow> ln_active l = None \<and> (ln_admitted l \<longrightarrow> ln_phase l \<in> {Passed_Phase, Attention_Phase}))"

lemma at_rest_attended: "at_rest j st \<Longrightarrow> at_rest j (attended st i r u)" "at_rest i (attended st i r u)"
  by (cases "j = i"; auto simp: at_rest_def attended_def blocked_lane_def nth_list_update)+

lemma restart_lane_inv:
  assumes inv: "lanes_inv st" and i: "i < length (sm_lanes st)"
  shows "\<exists>st'. restart_lane st i = Inr st' \<and> lanes_inv st' \<and> length (sm_lanes st') = length (sm_lanes st)
    \<and> at_rest i st' \<and> (\<forall>j. at_rest j st \<longrightarrow> at_rest j st')"
proof -
  let ?l = "sm_lanes st ! i"
  have l: "lane_ok ?l" using lanes_inv_nth[OF inv i] by simp
  consider (active) n where "ln_active ?l = Some n"
    | (unfinished) "ln_active ?l = None" "ln_admitted ?l" "ln_phase ?l \<notin> {Passed_Phase, Attention_Phase}"
    | (rest) "ln_active ?l = None" "ln_admitted ?l \<longrightarrow> ln_phase ?l \<in> {Passed_Phase, Attention_Phase}"
    by (cases "ln_active ?l") blast+
  then show ?thesis
  proof cases
    case active
    then show ?thesis using attention_inv[OF inv i active_turn(4)[OF l active]] at_rest_attended
      by (simp add: restart_lane_def attended_lanes)
  next
    case unfinished
    then have "priority (ln_phase ?l) \<noteq> None" by (cases "ln_phase ?l") auto
    then show ?thesis using unfinished attention_inv[OF inv i] at_rest_attended
      by (simp add: restart_lane_def attended_lanes)
  next
    case rest
    then show ?thesis using inv by (auto simp: restart_lane_def at_rest_def)
  qed
qed

lemma restart_inv:
  assumes inv: "lanes_inv st"
  shows "\<exists>st'. restart st = Inr st' \<and> lanes_inv st' \<and> length (sm_lanes st') = length (sm_lanes st) \<and> (\<forall>j. at_rest j st')"
proof -
  have "\<exists>st'. each_lane [0..<length (sm_lanes st)] restart_lane st = Inr st'
      \<and> (lanes_inv st' \<and> length (sm_lanes st') = length (sm_lanes st)) \<and> (\<forall>j. at_rest j st \<or> j \<in> set [0..<length (sm_lanes st)] \<longrightarrow> at_rest j st')"
  proof (rule each_lane_inv)
    fix st1 i assume "lanes_inv st1 \<and> length (sm_lanes st1) = length (sm_lanes st)" "i < length (sm_lanes st)"
    then show "\<exists>st'. restart_lane st1 i = Inr st' \<and> (lanes_inv st' \<and> length (sm_lanes st') = length (sm_lanes st))
        \<and> at_rest i st' \<and> (\<forall>j. at_rest j st1 \<longrightarrow> at_rest j st')" using restart_lane_inv[of st1 i] by auto
  qed (use inv in auto)
  then show ?thesis by (auto simp: restart_def) (metis at_rest_def)
qed

lemma stop_inv: "lanes_inv st \<Longrightarrow> stop st = Inr (halting st Halt_Stopped) \<and> lanes_inv (halting st Halt_Stopped)"
  using halting_inv by (simp add: stop_def)

lemma recovered_lane_ok:
  assumes "lane_ok l" "ln_generation l = 0" "ln_phase l = Attention_Phase"
  shows "lane_ok (l\<lparr>ln_phase := Work_Phase, ln_generation := 1, ln_blocking := None, ln_leases := [], ln_parking := 0\<rparr>)"
proof -
  have "ln_active l = None" using assms by (simp add: lane_ok_def phase_ok_def)
  then show ?thesis using assms by (simp add: lane_ok_def phase_ok_def turns_ok_def lane_fits_def)
qed

lemma recover_inv:
  assumes inv: "lanes_inv st"
  shows "case recover_fresh st lid of Inl e \<Rightarrow> e \<in> {Unknown_Lane, Recovery_Forbidden} | Inr st' \<Rightarrow> lanes_inv st'"
proof (cases "lane_index st lid")
  case (Inl e)
  then show ?thesis by (simp add: recover_fresh_def lane_index_def split: option.splits)
next
  case (Inr i)
  then have i: "i < length (sm_lanes st)" using lane_index_iff by blast
  let ?l = "sm_lanes st ! i"
  let ?n = "?l\<lparr>ln_phase := Work_Phase, ln_generation := 1, ln_blocking := None, ln_leases := [], ln_parking := 0\<rparr>"
  have l: "lane_ok ?l" using lanes_inv_nth[OF inv i] by simp
  show ?thesis
  proof (cases "sm_halt st \<noteq> None \<or> active_count st \<noteq> 0 \<or> ln_blocking ?l \<notin> {Some Expired, Some Restarted} \<or> ln_generation ?l \<noteq> 0")
    case True
    then show ?thesis using Inr by (simp add: recover_fresh_def Let_def)
  next
    case False
    then have "ln_phase ?l = Attention_Phase" using l by (auto simp: lane_ok_def phase_ok_def)
    then have ok: "lane_ok ?n" using recovered_lane_ok[OF l] False by simp
    then have fit: "lane_fits ?n" by (simp add: lane_ok_def)
    have idle: "ln_active x = None" if "x \<in> set (sm_lanes st)" for x
      using False that by (auto simp: active_count_def filter_empty_conv)
    have put: "replace_lane st i ?n = Inr (put_lane st i ?n)" "fits (put_lane st i ?n)"
      using fits_replace[OF lanes_invD[OF inv] i fit] by (simp_all add: put_lane_def)
    have rest: "lane_ok (sm_lanes st ! j) \<and> parking_ok h (sm_lanes st ! j)" if j: "j < length (sm_lanes st)" for j h
    proof -
      have "lanes_halted st" using False i nth_mem[OF i] by (auto simp: lanes_halted_def list_ex_iff)
      then have "ln_parking (sm_lanes st ! j) = 0" using lanes_inv_nth[OF inv j] by (simp add: parking_ok_def)
      then show ?thesis using lanes_inv_nth[OF inv j] idle[OF nth_mem[OF j]] by (simp add: parking_ok_def)
    qed
    have "parking_ok h ?n" for h using idle[OF nth_mem[OF i]] by (simp add: parking_ok_def)
    then have "lanes_inv (put_lane st i ?n)"
      using put(2) inv i ok rest unfolding put_lane_def by (intro replaced_inv) (simp_all add: lanes_inv_def)
    then show ?thesis using Inr False put halting_inv[OF inv] by (simp add: recover_fresh_def Let_def)
  qed
qed

section \<open>Reachable states\<close>

lemma lane_step_inv: "lane_step st st' \<Longrightarrow> lanes_inv st \<Longrightarrow> lanes_inv st'"
proof (induction rule: lane_step.induct)
  case reserving
  then show ?case by (metis reserve_next_inv sum.inject(2))
next
  case (sending st lid n s st')
  then show ?case using transmission_inv[of st lid n s] by simp
next
  case (completing st lid n r st')
  then show ?case using complete_inv[of st lid n r] by simp
next
  case (ticking st now st')
  then show ?case using advance_inv[of st now] by (auto split: if_split_asm)
next
  case stopping
  then show ?case using stop_inv by fastforce
next
  case restarting
  then show ?case using restart_inv by fastforce
next
  case (recovering st lid st')
  then show ?case using recover_inv[of st lid] by simp
qed

lemma fresh_lane_ok: "spec_ok sp \<Longrightarrow> lane_ok (fresh_lane cfg i sp) \<and> parking_ok h (fresh_lane cfg i sp)"
  by (simp add: lane_ok_def lane_fits_def turns_ok_def phase_ok_def parking_ok_def fresh_lane_def)


lemma no_turns:
  "\<forall>l \<in> set (sm_lanes st). ln_active l = None \<Longrightarrow> active_count st = 0"
  "\<forall>l \<in> set (sm_lanes st). ln_turns l = [] \<Longrightarrow> turn_count st = 0"
  by (simp_all add: active_count_def turn_count_def filter_empty_conv sum_list_eq_0_iff)

lemma mem_nonempty: "x \<in> set xs \<Longrightarrow> xs \<noteq> []" by auto

lemma fresh_ids:
  "map (\<lambda>l. sp_id (ln_spec l)) (map (\<lambda>(i, sp). fresh_lane cfg i sp) (enumerate n specs)) = map sp_id specs"
  by (induction specs arbitrary: n) (simp_all add: fresh_lane_def)

lemma admitted_inv:
  assumes "admitted_state st"
  shows "lanes_inv st"
proof -
  obtain specs base clean iso cfg where adm: "admit specs base clean iso cfg = Inr \<lparr>ad_reason = None, ad_state = Some st\<rparr>"
    using assms by (auto simp: admitted_state_def)
  let ?lanes = "map (\<lambda>(i, sp). fresh_lane cfg i sp) (enumerate 0 specs)"
  let ?st = "\<lparr>sm_config = cfg, sm_base = base, sm_lanes = ?lanes, sm_now = 0, sm_halt = None\<rparr>"
  have cfg: "config_ok cfg" and specs: "list_all spec_ok specs" and none: "admission_reason specs base clean iso cfg = None"
    and st: "validated ?st = Inr st"
    using adm by (auto simp: admit_def bind_sum_def split: if_split_asm option.splits sum.splits)
  have ids: "distinct (map sp_id specs)" "2 * length specs + lc_final cfg \<le> lc_budget cfg" "lc_reuse cfg \<longrightarrow> 2 \<le> lc_parking cfg"
    using none by (auto simp: admission_reason_def Let_def split: if_split_asm)
  have reuse: "length (filter ln_reuse ?lanes) \<le> 1" "filter ln_reuse ?lanes \<noteq> [] \<longrightarrow> lc_reuse cfg"
  proof -
    have later: "filter ln_reuse (map (\<lambda>(i, sp). fresh_lane cfg i sp) (enumerate (Suc k) xs)) = []" for k xs
      by (induction xs arbitrary: k) (auto simp: fresh_lane_def)
    show "length (filter ln_reuse ?lanes) \<le> 1" using later[of 0] by (cases specs) auto
    show "filter ln_reuse ?lanes \<noteq> [] \<longrightarrow> lc_reuse cfg" by (auto simp: filter_empty_conv fresh_lane_def)
  qed
  have fresh: "lane_ok l \<and> parking_ok h l \<and> ln_active l = None \<and> ln_turns l = [] \<and> ln_blocking l = None" if "l \<in> set ?lanes" for l h
    using that specs fresh_lane_ok by (auto simp: in_set_enumerate_eq list_all_length) (auto simp: fresh_lane_def)
  have counts: "active_count ?st = 0" "turn_count ?st = 0"
    using fresh by (intro no_turns; simp only: lane_state.simps; blast)+
  have "fits ?st" using cfg ids(2,3) reuse counts fresh unfolding fits_def by (auto simp: lane_ok_def)
  then have "st = ?st" using st fits_validated by simp
  moreover have "map (\<lambda>l. sp_id (ln_spec l)) ?lanes = map sp_id specs"
    by (rule fresh_ids)
  moreover note \<open>fits ?st\<close>
  ultimately show ?thesis using ids(1) fresh by (simp add: lanes_inv_def)
qed

lemma reachable_inv: "lane_step\<^sup>*\<^sup>* st0 st \<Longrightarrow> admitted_state st0 \<Longrightarrow> lanes_inv st"
  by (induction rule: rtranclp_induct) (auto intro: admitted_inv lane_step_inv)

section \<open>Progress\<close>

lemma sort_key_Nil_iff: "sort_key k xs = [] \<longleftrightarrow> xs = []"
  by (metis length_0_conv length_sort)

lemma ready_unless_done:
  assumes inv: "lanes_inv st" and run: "\<not> lanes_halted st" "active_count st = 0" and l: "l \<in> set (sm_lanes st)" "ln_phase l \<noteq> Passed_Phase"
  shows "ready_lanes st \<noteq> []"
proof -
  have ok: "phase_ok x" "ln_active x = None" "ln_blocking x = None" if "x \<in> set (sm_lanes st)" for x
    using inv run that by (auto simp: lanes_inv_def lane_ok_def active_count_def filter_empty_conv lanes_halted_def list_ex_iff)
  have prio: "priority (ln_phase x) \<noteq> None" if "x \<in> set (sm_lanes st)" "ln_phase x \<noteq> Passed_Phase" for x
    using ok[OF that(1)] that(2) by (cases "ln_phase x") (auto simp: phase_ok_def)
  have "\<exists>x \<in> set (sm_lanes st). priority (ln_phase x) \<noteq> None \<and> (lc_streaming (sm_config st) \<or> ln_phase x \<noteq> Validate_Phase
      \<or> list_all (\<lambda>s. 0 < ln_generation s \<or> ln_candidate s \<noteq> None) (sm_lanes st))"
  proof (cases "list_all (\<lambda>s. 0 < ln_generation s \<or> ln_candidate s \<noteq> None) (sm_lanes st)")
    case False
    then obtain s where s: "s \<in> set (sm_lanes st)" "ln_candidate s = None" by (auto simp: list_all_iff)
    then have "ln_phase s \<notin> {Validate_Phase, Passed_Phase}" using ok(1)[OF s(1)] by (auto simp: phase_ok_def judged_pass_def)
    then show ?thesis using s prio[OF s(1)] by auto
  qed (use l prio in blast)
  then obtain i where i: "i < length (sm_lanes st)" "priority (ln_phase (sm_lanes st ! i)) \<noteq> None"
      "lc_streaming (sm_config st) \<or> ln_phase (sm_lanes st ! i) \<noteq> Validate_Phase
      \<or> list_all (\<lambda>s. 0 < ln_generation s \<or> ln_candidate s \<noteq> None) (sm_lanes st)"
    by (auto simp: in_set_conv_nth)
  let ?ready = "filter (\<lambda>(i, l). ln_active l = None \<and> priority (ln_phase l) \<noteq> None) (enumerate 0 (sm_lanes st))"
  let ?kept = "if lc_streaming (sm_config st) then ?ready
      else filter (\<lambda>(i, l). ln_phase l \<noteq> Validate_Phase
             \<or> list_all (\<lambda>sibling. 0 < ln_generation sibling \<or> ln_candidate sibling \<noteq> None) (sm_lanes st)) ?ready"
  have "(i, sm_lanes st ! i) \<in> set ?ready" using i(1,2) ok(2)[OF nth_mem[OF i(1)]] by (simp add: in_set_enumerate_eq)
  then have "(i, sm_lanes st ! i) \<in> set ?kept" using i(3) by auto
  then have "?kept \<noteq> []" by (rule mem_nonempty)
  then show ?thesis unfolding ready_lanes_def Let_def if_not_P[OF run(1)] map_is_Nil_conv sort_key_Nil_iff .
qed

lemma reserve_moves:
  assumes inv: "lanes_inv st" and idle: "\<not> lanes_halted st" "active_count st = 0" and open_lanes: "\<not> eligible_state st"
  shows "\<exists>st'. reserve_next st = Inr st' \<and> (lanes_halted st' \<or> turn_count st' = Suc (turn_count st) \<and> active_count st' = 1)"
proof -
  obtain l where "l \<in> set (sm_lanes st)" "ln_phase l \<noteq> Passed_Phase"
    using idle(1) open_lanes by (auto simp: eligible_state_def list_all_iff)
  then have ready: "ready_lanes st \<noteq> []" by (rule ready_unless_done[OF inv idle])
  have room: "\<not> min (lc_capacity (sm_config st)) 4 \<le> active_count st"
    using lanes_invD[OF inv] idle(2) by (simp add: fits_def config_ok_def)
  show ?thesis using inv
  proof (cases rule: reserve_next_cases)
    case unchanged
    then show ?thesis using idle(1) ready room by blast
  next
    case budget
    then show ?thesis by (simp add: halting_def lanes_halted_def)
  next
    case (gone i)
    have "i < length (sm_lanes (attended st i Expired False))"
      "ln_blocking (sm_lanes (attended st i Expired False) ! i) = Some Expired"
      using gone(1) by (simp_all add: attended_def blocked_lane_def)
    then have "lanes_halted (attended st i Expired False)" unfolding lanes_halted_def list_ex_iff using nth_mem by (metis option.distinct(1))
    then show ?thesis using gone(4) by blast
  next
    case (reserved i)
    then show ?thesis using idle(2) by simp
  qed
qed

text \<open>C30. Retained lanes: integration is offered for judged work only, and work goes on until then.  In every
  state that the transitions lead to from an admission, the lanes of a state that is ready for integration all
  end in a completed validation or recheck that passed, of the lane's last candidate and for every target of its
  spec; no lane has had more than six turns or more than one correction; the turns taken and the final turns set
  aside stay within the budget, and no more turns are open than the capacity allows; and when nothing is halted
  and no turn is open, the state is ready for integration or the next reservation opens a turn or halts.\<close>

theorem integration_ready_means_judged:
  assumes "admitted_state st0" "lane_step\<^sup>*\<^sup>* st0 st"
  shows "(eligible_state st \<longrightarrow> (\<forall>l \<in> set (sm_lanes st). judged_pass l))
    \<and> (\<forall>l \<in> set (sm_lanes st). length (ln_turns l) \<le> 6
          \<and> length (filter (\<lambda>t. tn_phase t = Correction_Phase) (ln_turns l)) \<le> 1)
    \<and> turn_count st + lc_final (sm_config st) \<le> lc_budget (sm_config st)
    \<and> active_count st \<le> min (lc_capacity (sm_config st)) 4
    \<and> (lanes_halted st \<or> 0 < active_count st \<or> eligible_state st
       \<or> (\<exists>st'. reserve_next st = Inr st' \<and> (lanes_halted st' \<or> turn_count st' = Suc (turn_count st) \<and> active_count st' = 1)))"
proof (intro conjI)
  have inv: "lanes_inv st" by (rule reachable_inv[OF assms(2,1)])
  have ok: "lane_fits l" "turns_ok l" "phase_ok l" if "l \<in> set (sm_lanes st)" for l
    using inv that by (auto simp: lanes_inv_def lane_ok_def)
  show "eligible_state st \<longrightarrow> (\<forall>l \<in> set (sm_lanes st). judged_pass l)"
    using ok(3) by (auto simp: eligible_state_def list_all_iff phase_ok_def)
  have "length (filter (\<lambda>t. tn_phase t = Correction_Phase) (ln_turns l)) \<le> 1" if "l \<in> set (sm_lanes st)" for l
    using ok(2)[OF that] by (auto simp: turns_ok_def split: if_splits)
  then show "\<forall>l \<in> set (sm_lanes st). length (ln_turns l) \<le> 6
      \<and> length (filter (\<lambda>t. tn_phase t = Correction_Phase) (ln_turns l)) \<le> 1"
    using ok(1) by (auto simp: lane_fits_def)
  show "turn_count st + lc_final (sm_config st) \<le> lc_budget (sm_config st)" "active_count st \<le> min (lc_capacity (sm_config st)) 4"
    using lanes_invD[OF inv] by (simp_all add: fits_def)
  show "lanes_halted st \<or> 0 < active_count st \<or> eligible_state st
       \<or> (\<exists>st'. reserve_next st = Inr st' \<and> (lanes_halted st' \<or> turn_count st' = Suc (turn_count st) \<and> active_count st' = 1))"
    using reserve_moves[OF inv] by blast
qed

section \<open>A concrete run\<close>

text \<open>One lane: its work is sealed, its validation finds a defect, the correction is sealed, the recheck passes.\<close>

fun run_moves :: "(lane_state \<Rightarrow> lane_error + lane_state) list \<Rightarrow> lane_state \<Rightarrow> lane_error + lane_state" where
  "run_moves [] st = Inr st"
| "run_moves (m # ms) st = bind_sum (m st) (run_moves ms)"

lemma run_moves_steps:
  "\<forall>m \<in> set ms. \<forall>st st'. m st = Inr st' \<longrightarrow> lane_step st st' \<Longrightarrow> run_moves ms st = Inr st' \<Longrightarrow> lane_step\<^sup>*\<^sup>* st st'"
proof (induction ms arbitrary: st)
  case (Cons m ms)
  from Cons.prems(2) obtain st1 where "m st = Inr st1" "run_moves ms st1 = Inr st'" by (auto simp: bind_sum_def split: sum.splits)
  then show ?case using Cons by (metis converse_rtranclp_into_rtranclp list.set_intros)
qed simp

definition demo_turn :: "nat \<Rightarrow> turn_outcome \<Rightarrow> (lane_state \<Rightarrow> lane_error + lane_state) list" where
  "demo_turn n r = [reserve_next, \<lambda>st. transmission st ''a'' n Sent, \<lambda>st. transmission st ''a'' n Acked, \<lambda>st. complete st ''a'' n r]"

definition demo_moves :: "(lane_state \<Rightarrow> lane_error + lane_state) list" where
  "demo_moves = demo_turn 0 Sealed @ demo_turn 1 Judged_Defect @ demo_turn 2 Sealed @ demo_turn 3 Judged_Pass"

lemma demo_moves_step: "\<forall>m \<in> set demo_moves. \<forall>st st'. m st = Inr st' \<longrightarrow> lane_step st st'"
  by (auto simp: demo_moves_def demo_turn_def intro: lane_step.intros)

definition demo_lane_config :: lane_config where
  "demo_lane_config = \<lparr>lc_enabled = True, lc_capacity = 2, lc_parking = 2, lc_budget = 6, lc_final = 2, lc_reuse = True,
     lc_streaming = True, lc_timeout = 60\<rparr>"

definition demo_spec :: lane_spec where
  "demo_spec = \<lparr>sp_id = ''a'', sp_writes = [''src''], sp_targets = [''A-1'', ''A-2''], sp_resources = [], sp_auto_merge = True\<rparr>"

definition demo_admission :: lane_admission where
  "demo_admission = projr (admit [demo_spec] (replicate 40 CHR ''0'') True True demo_lane_config)"

definition demo_lanes :: lane_state where
  "demo_lanes = the (ad_state demo_admission)"

definition demo_judged :: lane_state where
  "demo_judged = projr (run_moves demo_moves demo_lanes)"

lemma demo_admitted: "admitted_state demo_lanes"
proof -
  have "\<not> isl (admit [demo_spec] (replicate 40 CHR ''0'') True True demo_lane_config)" "ad_reason demo_admission = None"
    "ad_state demo_admission \<noteq> None" by code_simp+
  then have "admit [demo_spec] (replicate 40 CHR ''0'') True True demo_lane_config = Inr \<lparr>ad_reason = None, ad_state = Some demo_lanes\<rparr>"
    by (cases "admit [demo_spec] (replicate 40 CHR ''0'') True True demo_lane_config")
      (auto simp: demo_admission_def demo_lanes_def intro: lane_admission.equality)
  then show ?thesis unfolding admitted_state_def by blast
qed

lemma demo_run: "lane_step\<^sup>*\<^sup>* demo_lanes demo_judged"
proof -
  have "\<not> isl (run_moves demo_moves demo_lanes)" by code_simp
  then have "run_moves demo_moves demo_lanes = Inr demo_judged" by (simp add: demo_judged_def)
  then show ?thesis by (rule run_moves_steps[OF demo_moves_step])
qed

theorem integration_ready_means_judged_witness:
  "sm_lanes demo_judged \<noteq> [] \<and> eligible_state demo_judged \<and> judged_pass (hd (sm_lanes demo_judged))
    \<and> turn_count demo_judged + 2 \<le> 6"
proof -
  have ready: "eligible_state demo_judged" and lanes: "sm_lanes demo_judged \<noteq> []" by code_simp+
  have budget: "lc_final (sm_config demo_judged) = 2" "lc_budget (sm_config demo_judged) = 6" by code_simp+
  show ?thesis
    using integration_ready_means_judged[OF demo_admitted demo_run] ready lanes hd_in_set[OF lanes] unfolding budget by blast
qed

end
